(* ===== verification/Prelude.thy ===== *)
theory Prelude
  imports Complex_Main "HOL-Library.Char_ord" "HOL-Library.List_Lexorder"
    "HOL-Library.Product_Lexorder" "HOL-Library.Sublist"
begin

text \<open>
  Shared vocabulary of the development: the Python values that travel in payload and metadata
  dictionaries, the string and dictionary operations of the standard library that the modelled
  code calls, the sum type for raised exceptions, and the generic lemmas on maps, lists and
  stable sorting that the component theories use.

  Strings are lists of characters whose code points lie below 256; a string method such as
  \<open>strip\<close> or \<open>lower\<close> is modelled on that range. Numbers in payloads are Python integers.
\<close>

section \<open>Collections of facts\<close>

named_theorems py_simps \<open>evaluation of the Python primitives\<close>
named_theorems store_simps \<open>field equations of the store operations\<close>
named_theorems step_intros \<open>introduction rules of the step relations\<close>

section \<open>Python values\<close>

text \<open>A JSON-compatible value; a dictionary keeps its insertion order.\<close>

datatype pyval =
    PNone
  | PBool bool
  | PInt int
  | PStr string
  | PList "pyval list"
  | PDict "(string \<times> pyval) list"

type_synonym pydict = "(string \<times> pyval) list"

text \<open>Truth value of an object (\<open>bool(x)\<close>).\<close>

fun truthy :: "pyval \<Rightarrow> bool" where
  "truthy PNone = False"
| "truthy (PBool b) = b"
| "truthy (PInt i) = (i \<noteq> 0)"
| "truthy (PStr s) = (s \<noteq> [])"
| "truthy (PList xs) = (xs \<noteq> [])"
| "truthy (PDict d) = (d \<noteq> [])"

text \<open>The short-circuiting \<open>x or y\<close>: on values, and on optional strings, where the empty
  string counts as false.\<close>

definition py_or :: "pyval \<Rightarrow> pyval \<Rightarrow> pyval" where
  "py_or x y = (if truthy x then x else y)"

fun str_truthy :: "string option \<Rightarrow> bool" where
  "str_truthy None = False"
| "str_truthy (Some s) = (s \<noteq> [])"

definition opt_or :: "string option \<Rightarrow> string option \<Rightarrow> string option" where
  "opt_or x y = (if str_truthy x then x else y)"

text \<open>\<open>d.get(key, default)\<close> and \<open>d.get(key)\<close>; \<open>d[key] = value\<close> replaces in place or appends;
  \<open>{**a, **b}\<close>.\<close>

definition dict_get_or :: "pydict \<Rightarrow> string \<Rightarrow> pyval \<Rightarrow> pyval" where
  "dict_get_or d k v = (case map_of d k of None \<Rightarrow> v | Some w \<Rightarrow> w)"

abbreviation dict_get :: "pydict \<Rightarrow> string \<Rightarrow> pyval" where
  "dict_get d k \<equiv> dict_get_or d k PNone"

fun dict_set :: "string \<Rightarrow> pyval \<Rightarrow> pydict \<Rightarrow> pydict" where
  "dict_set k v [] = [(k, v)]"
| "dict_set k v ((k', v') # d) = (if k' = k then (k, v) # d else (k', v') # dict_set k v d)"

definition dict_merge :: "pydict \<Rightarrow> pydict \<Rightarrow> pydict" where
  "dict_merge a b = fold (\<lambda>(k, v). dict_set k v) b a"

text \<open>\<open>d[key] = value\<close> for dictionaries with other values.\<close>

fun alist_set :: "'k \<Rightarrow> 'v \<Rightarrow> ('k \<times> 'v) list \<Rightarrow> ('k \<times> 'v) list" where
  "alist_set k v [] = [(k, v)]"
| "alist_set k v ((k', v') # d) = (if k' = k then (k, v) # d else (k', v') # alist_set k v d)"

text \<open>\<open>isinstance(x, str)\<close> as a view of the value.\<close>

fun as_str :: "pyval \<Rightarrow> string option" where
  "as_str (PStr s) = Some s"
| "as_str _ = None"

fun as_dict :: "pyval \<Rightarrow> pydict option" where
  "as_dict (PDict d) = Some d"
| "as_dict _ = None"

section \<open>Python strings\<close>

text \<open>\<open>str.isspace\<close> on the modelled range, \<open>str.strip\<close>, \<open>str.lower\<close>, \<open>str.removeprefix\<close>,
  \<open>needle in haystack\<close>.\<close>

definition py_space :: "char \<Rightarrow> bool" where
  "py_space c = (let n = of_char c :: nat in
     (9 \<le> n \<and> n \<le> 13) \<or> (28 \<le> n \<and> n \<le> 32) \<or> n = 133 \<or> n = 160)"

definition py_lstrip :: "string \<Rightarrow> string" where
  "py_lstrip s = dropWhile py_space s"

definition py_rstrip :: "string \<Rightarrow> string" where
  "py_rstrip s = rev (dropWhile py_space (rev s))"

definition py_strip :: "string \<Rightarrow> string" where
  "py_strip s = py_rstrip (py_lstrip s)"

definition py_lower_char :: "char \<Rightarrow> char" where
  "py_lower_char c = (let n = of_char c :: nat in
     if (65 \<le> n \<and> n \<le> 90) \<or> (192 \<le> n \<and> n \<le> 222 \<and> n \<noteq> 215) then char_of (n + 32) else c)"

definition py_lower :: "string \<Rightarrow> string" where
  "py_lower s = map py_lower_char s"

definition removeprefix :: "string \<Rightarrow> string \<Rightarrow> string" where
  "removeprefix p s = (if prefix p s then drop (length p) s else s)"

text \<open>\<open>s.split(c)\<close> for a one-character separator, and \<open>sep.join(xs)\<close>.\<close>

fun split_at :: "char \<Rightarrow> string \<Rightarrow> string list" where
  "split_at c [] = [[]]"
| "split_at c (x # xs) =
     (if x = c then [] # split_at c xs
      else (case split_at c xs of [] \<Rightarrow> [[x]] | w # ws \<Rightarrow> (x # w) # ws))"

fun py_join :: "string \<Rightarrow> string list \<Rightarrow> string" where
  "py_join sep [] = []"
| "py_join sep [x] = x"
| "py_join sep (x # xs) = x @ sep @ py_join sep xs"

text \<open>\<open>str(n)\<close> for a natural number, and the number of bytes of the UTF-8 encoding.\<close>

fun nat_str :: "nat \<Rightarrow> string" where
  "nat_str n = (if n < 10 then [char_of (48 + n)] else nat_str (n div 10) @ [char_of (48 + n mod 10)])"

declare nat_str.simps [simp del]

definition utf8_len :: "string \<Rightarrow> int" where
  "utf8_len s = sum_list (map (\<lambda>c. if (of_char c :: nat) < 128 then 1 else 2) s)"

text \<open>\<open>\d\<close> of a regular expression, on the modelled range.\<close>

definition is_digit :: "char \<Rightarrow> bool" where
  "is_digit c = (let n = of_char c :: nat in 48 \<le> n \<and> n \<le> 57)"

text \<open>\<open>[A-Za-z0-9_-]\<close>.\<close>

definition ident_char :: "char \<Rightarrow> bool" where
  "ident_char c = (let n = of_char c :: nat in
     (48 \<le> n \<and> n \<le> 57) \<or> (65 \<le> n \<and> n \<le> 90) \<or> (97 \<le> n \<and> n \<le> 122) \<or> n = 95 \<or> n = 45)"

text \<open>A string that is present and not blank: \<open>isinstance(x, str) and x.strip()\<close>.\<close>

definition nonblank :: "pyval \<Rightarrow> bool" where
  "nonblank v = (case as_str v of None \<Rightarrow> False | Some s \<Rightarrow> py_strip s \<noteq> [])"

section \<open>Generic lemmas\<close>

subsection \<open>Dictionaries\<close>

lemma map_of_dict_set [simp]: "map_of (dict_set k v d) = (map_of d)(k \<mapsto> v)"
  by (induction k v d rule: dict_set.induct) (auto simp: fun_eq_iff)

lemma dict_get_or_set [simp]:
  "dict_get_or (dict_set k v d) k' w = (if k' = k then v else dict_get_or d k' w)"
  by (simp add: dict_get_or_def)

lemma set_keys_dict_set [simp]: "fst ` set (dict_set k v d) = insert k (fst ` set d)"
  by (induction k v d rule: dict_set.induct) auto

lemma distinct_dict_set [simp]:
  "distinct (map fst (dict_set k v d)) = distinct (map fst d)"
  by (induction k v d rule: dict_set.induct) (auto simp: image_iff)

lemma map_of_alist_set [simp]: "map_of (alist_set k v d) = (map_of d)(k \<mapsto> v)"
  by (induction k v d rule: alist_set.induct) (auto simp: fun_eq_iff)

lemma keys_alist_set: "fst ` set (alist_set k v d) = insert k (fst ` set d)"
  by (induction k v d rule: alist_set.induct) auto

lemma distinct_alist_set: "distinct (map fst (alist_set k v d)) = distinct (map fst d)"
  by (induction k v d rule: alist_set.induct) (auto simp: image_iff keys_alist_set)

lemma map_of_filter_fst: "map_of (filter (\<lambda>p. fst p \<noteq> n) d) k = (if k = n then None else map_of d k)"
  by (induction d) auto

subsection \<open>Optional strings\<close>

lemma opt_or_None [simp]: "opt_or None y = y"
  by (simp add: opt_or_def)

lemma opt_or_eq_Some: "opt_or x (Some y) \<noteq> None"
  by (cases x) (auto simp: opt_or_def)

subsection \<open>Maps\<close>

lemma map_upd_same_dom: "m k \<noteq> None \<Longrightarrow> dom (m(k \<mapsto> v)) = dom m"
  by auto

lemma map_of_append_fresh:
  "k \<notin> fst ` set xs \<Longrightarrow> map_of (xs @ [(k, v)]) = (map_of xs)(k \<mapsto> v)"
  by (induction xs) (auto simp: fun_eq_iff)

subsection \<open>First match of a list\<close>

lemma find_Some_mem: "find P xs = Some x \<Longrightarrow> x \<in> set xs \<and> P x"
  by (induction xs) (auto split: if_splits)

lemma find_ex: "(\<exists>y. find P xs = Some y) = (\<exists>x \<in> set xs. P x)"
  by (induction xs) auto

subsection \<open>Stripped strings\<close>

lemma py_strip_Nil [simp]: "py_strip [] = []"
  by (simp add: py_strip_def py_lstrip_def py_rstrip_def)

subsection \<open>Splitting and joining\<close>

lemma split_at_ne [simp]: "split_at c x \<noteq> []"
  by (induction x) (auto split: list.splits)

lemma split_at_sep: "split_at c (c # xs) = [] # split_at c xs"
  by simp

lemma split_at_Cons: "x \<noteq> c \<Longrightarrow> split_at c (x # xs) = (x # hd (split_at c xs)) # tl (split_at c xs)"
  by (cases "split_at c xs") (use split_at_ne [of c xs] in auto)

lemma split_at_word: "c \<notin> set w \<Longrightarrow> split_at c w = [w]"
  by (induction w) auto

lemma split_at_append: "c \<notin> set w \<Longrightarrow> split_at c (w @ c # xs) = w # split_at c xs"
  by (induction w) auto

lemma split_at_join:
  "ws \<noteq> [] \<Longrightarrow> \<forall>w \<in> set ws. c \<notin> set w \<Longrightarrow> split_at c (py_join [c] ws) = ws"
proof (induction ws)
  case (Cons w ws)
  then show ?case by (cases ws) (simp_all add: split_at_word split_at_append del: split_at.simps)
qed simp

lemma split_at_no_sep: "w \<in> set (split_at c x) \<Longrightarrow> c \<notin> set w"
  by (induction x arbitrary: w) (auto split: list.splits if_splits)

subsection \<open>Stable sorting\<close>

lemma insort_key_map: "insort_key k (f x) (map f xs) = map f (insort_key (\<lambda>x. k (f x)) x xs)"
  by (induction xs) auto

lemma sort_key_map: "sort_key k (map f xs) = map f (sort_key (\<lambda>x. k (f x)) xs)"
  by (induction xs) (auto simp: insort_key_map)

lemma insort_key_cong:
  "k x = k' x \<Longrightarrow> (\<And>y. y \<in> set xs \<Longrightarrow> k y = k' y) \<Longrightarrow> insort_key k x xs = insort_key k' x xs"
  by (induction xs) auto

lemma sort_key_cong_on: "(\<And>y. y \<in> set xs \<Longrightarrow> k y = k' y) \<Longrightarrow> sort_key k xs = sort_key k' xs"
  by (induction xs) (auto intro: insort_key_cong)

lemma find_map_replace:
  "find P xs = Some i \<Longrightarrow> P k \<Longrightarrow> find P (map (\<lambda>j. if j = i then k else j) xs) = Some k"
  by (induction xs) (auto split: if_splits)

text \<open>A sorted arrangement is determined by its elements when the key separates them; a finer sort
  key gives the same arrangement.\<close>

lemma sort_key_unique:
  assumes "inj_on f (set ys)" "sorted (map f ys)" "distinct ys" "distinct xs" "set xs = set ys"
    and mono: "\<And>x y. x \<in> set ys \<Longrightarrow> y \<in> set ys \<Longrightarrow> k x \<le> k y \<Longrightarrow> f x \<le> f y"
  shows "sort_key k xs = ys"
proof (rule map_sorted_distinct_set_unique [of f])
  have "sorted_wrt (\<lambda>x y. k x \<le> k y) (sort_key k xs)"
    using sorted_sort_key [of k xs] by (simp add: sorted_map)
  then have "sorted_wrt (\<lambda>x y. f x \<le> f y) (sort_key k xs)"
    by (rule sorted_wrt_mono_rel [rotated]) (use assms in auto)
  then show "sorted (map f (sort_key k xs))" by (simp add: sorted_map)
  show "distinct (map f (sort_key k xs))" using assms(1,4,5) by (simp add: distinct_map)
  show "distinct (map f ys)" using assms(1,3) by (simp add: distinct_map)
qed (use assms in auto)

end
