(* ===== verification/Approval_Ledger.thy ===== *)
theory Approval_Ledger
  imports Prelude
begin

text \<open>
  The approval-consumption ledger (\<open>runtime/control/approval_store.py\<close>): a compare-and-swap
  table that lets exactly one caller consume the approval of an interrupt. The theory models both
  implementations, the lock-guarded dictionaries and the SQLite table with its primary key and
  partial unique index, states the contract they share as the locale \<open>approval_ledger\<close>, proves
  the exactly-once law once from that contract, and shows that the two implementations answer
  every sequence of calls alike.
\<close>

section \<open>Contract types\<close>

datatype ConsumeStatus = CONSUMED | DUPLICATE | CONFLICT

record ApprovalConsumeRequest =
  ac_run_id :: string
  ac_interrupt_id :: string
  ac_decision :: string
  ac_idempotency_key :: "string option"

record ConsumeOutcome =
  co_status :: ConsumeStatus
  co_prior_decision :: "string option"
  co_prior_result_ref :: "string option"
  co_prior_result_payload :: "string option"
  co_detail :: "string option"

definition is_first :: "ConsumeOutcome \<Rightarrow> bool" where
  "is_first oc = (co_status oc = CONSUMED)"

text \<open>The three outcomes the stores build.\<close>

definition consumed_outcome :: ConsumeOutcome where
  "consumed_outcome = \<lparr>co_status = CONSUMED, co_prior_decision = None,
     co_prior_result_ref = None, co_prior_result_payload = None, co_detail = None\<rparr>"

definition conflict_outcome :: "string option \<Rightarrow> string \<Rightarrow> ConsumeOutcome" where
  "conflict_outcome prior msg = \<lparr>co_status = CONFLICT, co_prior_decision = prior,
     co_prior_result_ref = None, co_prior_result_payload = None, co_detail = Some msg\<rparr>"

definition duplicate_outcome ::
  "string \<Rightarrow> string option \<Rightarrow> string option \<Rightarrow> ConsumeOutcome" where
  "duplicate_outcome dec rref rpay = \<lparr>co_status = DUPLICATE, co_prior_decision = Some dec,
     co_prior_result_ref = rref, co_prior_result_payload = rpay, co_detail = None\<rparr>"

section \<open>The in-memory store\<close>

record approval_row =
  ar_decision :: string
  ar_result_ref :: "string option"
  ar_result_payload :: "string option"

record InMemoryApprovalConsumptionStore =
  am_rows :: "string \<times> string \<rightharpoonup> approval_row"
  am_by_key :: "string \<times> string \<rightharpoonup> string \<times> string"

definition mem_approval_init :: InMemoryApprovalConsumptionStore where
  "mem_approval_init = \<lparr>am_rows = Map.empty, am_by_key = Map.empty\<rparr>"

definition mem_find_existing ::
  "InMemoryApprovalConsumptionStore \<Rightarrow> ApprovalConsumeRequest \<Rightarrow> approval_row option" where
  "mem_find_existing s r =
     (case am_rows s (ac_run_id r, ac_interrupt_id r) of
        Some row \<Rightarrow> Some row
      | None \<Rightarrow>
          (case ac_idempotency_key r of
             None \<Rightarrow> None
           | Some k \<Rightarrow>
               (case am_by_key s (ac_run_id r, k) of
                  None \<Rightarrow> None
                | Some pk \<Rightarrow> am_rows s pk)))"

definition mem_try_consume ::
  "InMemoryApprovalConsumptionStore \<Rightarrow> ApprovalConsumeRequest \<Rightarrow>
   ConsumeOutcome \<times> InMemoryApprovalConsumptionStore" where
  "mem_try_consume s r =
     (case mem_find_existing s r of
        Some row \<Rightarrow>
          (if ar_decision row \<noteq> ac_decision r
           then (conflict_outcome (Some (ar_decision row))
                   ''approval already consumed with a different decision'', s)
           else (duplicate_outcome (ar_decision row) (ar_result_ref row)
                   (ar_result_payload row), s))
      | None \<Rightarrow>
          (let pk = (ac_run_id r, ac_interrupt_id r);
               s1 = s\<lparr>am_rows := (am_rows s)(pk \<mapsto>
                       \<lparr>ar_decision = ac_decision r, ar_result_ref = None,
                        ar_result_payload = None\<rparr>)\<rparr>;
               s2 = (case ac_idempotency_key r of
                       None \<Rightarrow> s1
                     | Some k \<Rightarrow> s1\<lparr>am_by_key := (am_by_key s1)((ac_run_id r, k) \<mapsto> pk)\<rparr>)
           in (consumed_outcome, s2)))"

text \<open>Attaching a result: each of the two values is written only when it is given.\<close>

definition set_result :: "string option \<Rightarrow> string option \<Rightarrow> approval_row \<Rightarrow> approval_row" where
  "set_result rref rpay row =
     (let row1 = (case rref of None \<Rightarrow> row | Some x \<Rightarrow> row\<lparr>ar_result_ref := Some x\<rparr>)
      in case rpay of None \<Rightarrow> row1 | Some x \<Rightarrow> row1\<lparr>ar_result_payload := Some x\<rparr>)"

definition mem_record_result ::
  "InMemoryApprovalConsumptionStore \<Rightarrow> string \<Rightarrow> string \<Rightarrow> string option \<Rightarrow> string option \<Rightarrow>
   InMemoryApprovalConsumptionStore" where
  "mem_record_result s rid iid rref rpay =
     (case am_rows s (rid, iid) of
        None \<Rightarrow> s
      | Some row \<Rightarrow> s\<lparr>am_rows := (am_rows s)((rid, iid) \<mapsto> set_result rref rpay row)\<rparr>)"

definition mem_approval_get ::
  "InMemoryApprovalConsumptionStore \<Rightarrow> string \<Rightarrow> string \<Rightarrow> ConsumeOutcome option" where
  "mem_approval_get s rid iid =
     (case am_rows s (rid, iid) of
        None \<Rightarrow> None
      | Some row \<Rightarrow> Some (duplicate_outcome (ar_decision row) (ar_result_ref row)
                            (ar_result_payload row)))"

section \<open>The SQLite store\<close>

text \<open>The table \<open>approval_consumptions\<close> in rowid order. The primary key is the pair of run and
  interrupt; the partial unique index covers run and idempotency key where a key is given. A
  row that collides with either is skipped by \<open>INSERT OR IGNORE\<close>.\<close>

record sql_approval_row =
  sa_run_id :: string
  sa_interrupt_id :: string
  sa_idempotency_key :: "string option"
  sa_decision :: string
  sa_result_ref :: "string option"
  sa_result_payload :: "string option"

type_synonym SqliteApprovalConsumptionStore = "sql_approval_row list"

definition sql_pk :: "string \<Rightarrow> string \<Rightarrow> sql_approval_row \<Rightarrow> bool" where
  "sql_pk rid iid row = (sa_run_id row = rid \<and> sa_interrupt_id row = iid)"

definition sql_key :: "string \<Rightarrow> string option \<Rightarrow> sql_approval_row \<Rightarrow> bool" where
  "sql_key rid k row =
     (k \<noteq> None \<and> sa_run_id row = rid \<and> sa_idempotency_key row = k)"

definition sql_insert_or_ignore ::
  "SqliteApprovalConsumptionStore \<Rightarrow> ApprovalConsumeRequest \<Rightarrow> nat \<times> SqliteApprovalConsumptionStore"
  where
  "sql_insert_or_ignore t r =
     (if (\<exists>row \<in> set t. sql_pk (ac_run_id r) (ac_interrupt_id r) row
                       \<or> sql_key (ac_run_id r) (ac_idempotency_key r) row)
      then (0, t)
      else (1, t @ [\<lparr>sa_run_id = ac_run_id r, sa_interrupt_id = ac_interrupt_id r,
                     sa_idempotency_key = ac_idempotency_key r, sa_decision = ac_decision r,
                     sa_result_ref = None, sa_result_payload = None\<rparr>]))"

definition sql_try_consume ::
  "SqliteApprovalConsumptionStore \<Rightarrow> ApprovalConsumeRequest \<Rightarrow>
   ConsumeOutcome \<times> SqliteApprovalConsumptionStore" where
  "sql_try_consume t r =
     (let (rowcount, t') = sql_insert_or_ignore t r in
      if rowcount = 1 then (consumed_outcome, t')
      else
        (let by_pk = find (sql_pk (ac_run_id r) (ac_interrupt_id r)) t';
             row = (if by_pk = None \<and> ac_idempotency_key r \<noteq> None
                    then find (sql_key (ac_run_id r) (ac_idempotency_key r)) t' else by_pk)
         in case row of
              None \<Rightarrow> (conflict_outcome None ''consume ignored but no row found'', t')
            | Some w \<Rightarrow>
                (if sa_decision w \<noteq> ac_decision r
                 then (conflict_outcome (Some (sa_decision w))
                         ''approval already consumed with a different decision'', t')
                 else (duplicate_outcome (sa_decision w) (sa_result_ref w)
                         (sa_result_payload w), t'))))"

text \<open>The two \<open>UPDATE\<close> statements.\<close>

definition sql_record_result ::
  "SqliteApprovalConsumptionStore \<Rightarrow> string \<Rightarrow> string \<Rightarrow> string option \<Rightarrow> string option \<Rightarrow>
   SqliteApprovalConsumptionStore" where
  "sql_record_result t rid iid rref rpay =
     (let t1 = (case rref of None \<Rightarrow> t
                | Some x \<Rightarrow> map (\<lambda>w. if sql_pk rid iid w then w\<lparr>sa_result_ref := Some x\<rparr> else w) t)
      in case rpay of None \<Rightarrow> t1
         | Some x \<Rightarrow> map (\<lambda>w. if sql_pk rid iid w then w\<lparr>sa_result_payload := Some x\<rparr> else w) t1)"

definition sql_approval_get ::
  "SqliteApprovalConsumptionStore \<Rightarrow> string \<Rightarrow> string \<Rightarrow> ConsumeOutcome option" where
  "sql_approval_get t rid iid =
     (case find (sql_pk rid iid) t of
        None \<Rightarrow> None
      | Some w \<Rightarrow> Some (duplicate_outcome (sa_decision w) (sa_result_ref w)
                          (sa_result_payload w)))"

section \<open>Sequences of calls\<close>

text \<open>The calls a ledger serves, one after the other (the lock, or the transaction, makes each of
  them atomic), with the answers it gives.\<close>

datatype approval_call =
    TryConsume ApprovalConsumeRequest
  | RecordResult string string "string option" "string option"
  | GetOutcome string string

datatype approval_answer =
    Outcome ConsumeOutcome
  | Recorded
  | Got "ConsumeOutcome option"

fun mem_call :: "InMemoryApprovalConsumptionStore \<Rightarrow> approval_call \<Rightarrow>
    approval_answer \<times> InMemoryApprovalConsumptionStore" where
  "mem_call s (TryConsume r) = (let (oc, s') = mem_try_consume s r in (Outcome oc, s'))"
| "mem_call s (RecordResult rid iid x y) = (Recorded, mem_record_result s rid iid x y)"
| "mem_call s (GetOutcome rid iid) = (Got (mem_approval_get s rid iid), s)"

fun sql_call :: "SqliteApprovalConsumptionStore \<Rightarrow> approval_call \<Rightarrow>
    approval_answer \<times> SqliteApprovalConsumptionStore" where
  "sql_call t (TryConsume r) = (let (oc, t') = sql_try_consume t r in (Outcome oc, t'))"
| "sql_call t (RecordResult rid iid x y) = (Recorded, sql_record_result t rid iid x y)"
| "sql_call t (GetOutcome rid iid) = (Got (sql_approval_get t rid iid), t)"

fun answers :: "('s \<Rightarrow> 'c \<Rightarrow> 'a \<times> 's) \<Rightarrow> 's \<Rightarrow> 'c list \<Rightarrow> 'a list" where
  "answers f s [] = []"
| "answers f s (c # cs) = (let (a, s') = f s c in a # answers f s' cs)"

text \<open>The store after a sequence of calls.\<close>

fun after :: "('s \<Rightarrow> 'c \<Rightarrow> 'a \<times> 's) \<Rightarrow> 's \<Rightarrow> 'c list \<Rightarrow> 's" where
  "after f s [] = s"
| "after f s (c # cs) = after f (snd (f s c)) cs"

text \<open>The requests that won the swap, in order.\<close>

fun winners :: "('s \<Rightarrow> approval_call \<Rightarrow> approval_answer \<times> 's) \<Rightarrow> 's \<Rightarrow> approval_call list \<Rightarrow>
    ApprovalConsumeRequest list" where
  "winners f s [] = []"
| "winners f s (c # cs) =
     (let (a, s') = f s c in
      case (c, a) of
        (TryConsume r, Outcome oc) \<Rightarrow> (if is_first oc then r # winners f s' cs else winners f s' cs)
      | _ \<Rightarrow> winners f s' cs)"

text \<open>Two requests compete for one approval when they name the same interrupt of a run or carry
  the same idempotency key in it.\<close>

definition competes :: "ApprovalConsumeRequest \<Rightarrow> ApprovalConsumeRequest \<Rightarrow> bool" where
  "competes r q = (ac_run_id r = ac_run_id q \<and>
     (ac_interrupt_id r = ac_interrupt_id q
      \<or> (ac_idempotency_key r \<noteq> None \<and> ac_idempotency_key r = ac_idempotency_key q)))"

section \<open>The contract\<close>

text \<open>What a client of the ledger relies on. \<open>held s r\<close> is the ledger's view of whether the
  approval \<open>r\<close> asks for is taken: a request that is not held wins and from then on every
  competitor is held; a held request never wins; nothing else takes or frees an approval.\<close>

locale approval_ledger =
  fixes call :: "'s \<Rightarrow> approval_call \<Rightarrow> approval_answer \<times> 's"
    and held :: "'s \<Rightarrow> ApprovalConsumeRequest \<Rightarrow> bool"
    and ok :: "'s \<Rightarrow> bool"
  assumes ok_call: "ok s \<Longrightarrow> ok (snd (call s c))"
    and fresh_wins: "ok s \<Longrightarrow> \<not> held s r \<Longrightarrow> fst (call s (TryConsume r)) = Outcome consumed_outcome"
    and held_loses: "ok s \<Longrightarrow> held s r \<Longrightarrow>
          \<exists>oc. fst (call s (TryConsume r)) = Outcome oc \<and> \<not> is_first oc"
    and held_mono: "ok s \<Longrightarrow> held s q \<Longrightarrow> held (snd (call s c)) q"
    and win_takes: "ok s \<Longrightarrow> \<not> held s r \<Longrightarrow> competes r q \<Longrightarrow> held (snd (call s (TryConsume r))) q"
    and only_win_takes: "ok s \<Longrightarrow> \<not> held s q \<Longrightarrow> held (snd (call s c)) q \<Longrightarrow>
          \<exists>r. c = TryConsume r \<and> \<not> held s r \<and> competes r q"
begin

lemma consumed_is_first [simp]: "is_first consumed_outcome"
  by (simp add: is_first_def consumed_outcome_def)

lemma call_fst_TryConsume:
  assumes "ok s"
  obtains oc where "fst (call s (TryConsume r)) = Outcome oc" "is_first oc = (\<not> held s r)"
  using assms fresh_wins held_loses consumed_is_first by (metis (full_types))

lemma winners_Consume:
  assumes "ok s"
  shows "winners call s (TryConsume r # cs) =
    (if held s r then [] else [r]) @ winners call (snd (call s (TryConsume r))) cs"
proof -
  from assms obtain oc where oc: "fst (call s (TryConsume r)) = Outcome oc"
    and first: "is_first oc = (\<not> held s r)" by (rule call_fst_TryConsume)
  then show ?thesis by (cases "call s (TryConsume r)") auto
qed

lemma winners_other:
  assumes "\<And>r. c \<noteq> TryConsume r"
  shows "winners call s (c # cs) = winners call (snd (call s c)) cs"
  using assms by (cases "call s c"; cases c) (auto split: approval_answer.splits)

text \<open>A request that is held from the start never appears among the winners.\<close>

lemma held_not_winner: "ok s \<Longrightarrow> held s q \<Longrightarrow> q \<notin> set (winners call s cs)"
proof (induction cs arbitrary: s)
  case (Cons c cs)
  have tl: "q \<notin> set (winners call (snd (call s c)) cs)"
    using Cons by (blast intro: ok_call held_mono)
  show ?case
  proof (cases "\<exists>r. c = TryConsume r")
    case True
    then show ?thesis using Cons.prems tl
      by (auto simp: winners_Consume simp del: winners.simps split: if_splits)
  next
    case False
    then show ?thesis using tl by (simp add: winners_other del: winners.simps)
  qed
qed simp

text \<open>Exactly once, safety half: no two winners compete.\<close>

lemma winners_do_not_compete:
  "ok s \<Longrightarrow> sorted_wrt (\<lambda>r q. \<not> competes r q) (winners call s cs)"
proof (induction cs arbitrary: s)
  case (Cons c cs)
  have IH: "sorted_wrt (\<lambda>r q. \<not> competes r q) (winners call (snd (call s c)) cs)"
    using Cons by (blast intro: ok_call)
  show ?case
  proof (cases "\<exists>r. c = TryConsume r")
    case True
    then obtain r where c: "c = TryConsume r" ..
    have "\<forall>q \<in> set (winners call (snd (call s c)) cs). \<not> competes r q" if "\<not> held s r"
      using that Cons.prems held_not_winner[OF ok_call[OF Cons.prems]] win_takes c by blast
    then show ?thesis using IH Cons.prems c
      by (auto simp: winners_Consume simp del: winners.simps)
  next
    case False
    then show ?thesis using IH by (simp add: winners_other del: winners.simps)
  qed
qed simp

text \<open>Exactly once, liveness half: every request that was not held at the start is, or competes
  with, a winner.\<close>

lemma some_competitor_wins:
  "ok s \<Longrightarrow> TryConsume q \<in> set cs \<Longrightarrow> \<not> held s q \<Longrightarrow> \<exists>w \<in> set (winners call s cs). competes w q"
proof (induction cs arbitrary: s)
  case (Cons c cs)
  let ?s = "snd (call s c)"
  have okS: "ok ?s" using Cons.prems(1) by (rule ok_call)
  show ?case
  proof (cases "c = TryConsume q")
    case True
    then show ?thesis using Cons.prems
      by (auto simp: winners_Consume competes_def simp del: winners.simps)
  next
    case False
    then have q_in: "TryConsume q \<in> set cs" using Cons.prems(2) by simp
    show ?thesis
    proof (cases "held ?s q")
      case True
      then obtain r where "c = TryConsume r" "\<not> held s r" "competes r q"
        using only_win_takes Cons.prems by blast
      then show ?thesis using Cons.prems(1) by (auto simp: winners_Consume simp del: winners.simps)
    next
      case unheld: False
      from Cons.IH[OF okS q_in unheld] show ?thesis
      proof (cases "\<exists>r. c = TryConsume r")
        case True
        with Cons.IH[OF okS q_in unheld] Cons.prems(1) show ?thesis
          by (auto simp: winners_Consume simp del: winners.simps)
      next
        case False
        with Cons.IH[OF okS q_in unheld] show ?thesis
          by (simp add: winners_other del: winners.simps)
      qed
    qed
  qed
qed simp

end

section \<open>The dictionaries meet the contract\<close>

definition mem_held :: "InMemoryApprovalConsumptionStore \<Rightarrow> ApprovalConsumeRequest \<Rightarrow> bool" where
  "mem_held s r = (mem_find_existing s r \<noteq> None)"

text \<open>Every idempotency key points at a row of its own run.\<close>

definition mem_approval_ok :: "InMemoryApprovalConsumptionStore \<Rightarrow> bool" where
  "mem_approval_ok s = (\<forall>rid k pk. am_by_key s (rid, k) = Some pk \<longrightarrow> am_rows s pk \<noteq> None)"

lemma mem_approval_okD:
  "mem_approval_ok s \<Longrightarrow> am_by_key s p = Some pk \<Longrightarrow> \<exists>row. am_rows s pk = Some row"
  by (cases p; cases pk) (auto simp: mem_approval_ok_def)

lemmas mem_ledger_defs = mem_held_def mem_find_existing_def mem_try_consume_def mem_record_result_def
  competes_def

interpretation mem_ledger: approval_ledger mem_call mem_held mem_approval_ok
proof unfold_locales
  fix s c assume "mem_approval_ok s"
  then show "mem_approval_ok (snd (mem_call s c))"
    by (cases c) (auto simp: mem_approval_ok_def mem_ledger_defs Let_def split: option.splits)
next
  fix s r assume "\<not> mem_held s r"
  then show "fst (mem_call s (TryConsume r)) = Outcome consumed_outcome"
    by (auto simp: mem_held_def mem_try_consume_def Let_def split: option.splits)
next
  fix s r assume "mem_held s r"
  then show "\<exists>oc. fst (mem_call s (TryConsume r)) = Outcome oc \<and> \<not> is_first oc"
    by (auto simp: mem_held_def mem_try_consume_def is_first_def conflict_outcome_def
        duplicate_outcome_def)
next
  fix s q c assume "mem_approval_ok s" and "mem_held s q"
  then show "mem_held (snd (mem_call s c)) q"
    by (cases c) (auto simp: mem_ledger_defs Let_def split: option.splits if_splits)
next
  fix s r q assume "mem_approval_ok s" and "\<not> mem_held s r" and "competes r q"
  then show "mem_held (snd (mem_call s (TryConsume r))) q"
    by (auto simp: mem_ledger_defs Let_def split: option.splits if_splits)
next
  fix s q c
  assume "mem_approval_ok s" and "\<not> mem_held s q" and "mem_held (snd (mem_call s c)) q"
  then show "\<exists>r. c = TryConsume r \<and> \<not> mem_held s r \<and> competes r q"
    by (cases c) (auto simp: mem_ledger_defs Let_def dest!: mem_approval_okD[of s]
        split: option.splits if_splits)
qed

section \<open>The table refines the dictionaries\<close>

definition sql_pk_of :: "sql_approval_row \<Rightarrow> string \<times> string" where
  "sql_pk_of w = (sa_run_id w, sa_interrupt_id w)"

definition sql_row_of :: "sql_approval_row \<Rightarrow> approval_row" where
  "sql_row_of w = \<lparr>ar_decision = sa_decision w, ar_result_ref = sa_result_ref w,
     ar_result_payload = sa_result_payload w\<rparr>"

definition sql_key_entry :: "sql_approval_row \<Rightarrow> ((string \<times> string) \<times> string \<times> string) list" where
  "sql_key_entry w = (case sa_idempotency_key w of None \<Rightarrow> []
     | Some k \<Rightarrow> [((sa_run_id w, k), sql_pk_of w)])"

definition sql_abs :: "SqliteApprovalConsumptionStore \<Rightarrow> InMemoryApprovalConsumptionStore" where
  "sql_abs t = \<lparr>am_rows = map_of (map (\<lambda>w. (sql_pk_of w, sql_row_of w)) t),
     am_by_key = map_of (concat (map sql_key_entry t))\<rparr>"

text \<open>The constraints of the schema: the primary key and the partial unique index.\<close>

definition sql_approval_ok :: "SqliteApprovalConsumptionStore \<Rightarrow> bool" where
  "sql_approval_ok t = (distinct (map sql_pk_of t)
     \<and> distinct (map fst (concat (map sql_key_entry t))))"

lemma find_sql_pk: "map_option sql_row_of (find (sql_pk rid iid) t) = am_rows (sql_abs t) (rid, iid)"
  by (induction t) (auto simp: sql_abs_def sql_pk_def sql_pk_of_def)

lemma find_sql_key:
  "map_option sql_pk_of (find (sql_key rid (Some k)) t) = am_by_key (sql_abs t) (rid, k)"
  by (induction t)
     (auto simp: sql_abs_def sql_key_def sql_key_entry_def map_add_def split: option.splits)

lemma sql_rows_of_member:
  assumes "sql_approval_ok t" and "w \<in> set t"
  shows "am_rows (sql_abs t) (sql_pk_of w) = Some (sql_row_of w)"
proof -
  have "map fst (map (\<lambda>w. (sql_pk_of w, sql_row_of w)) t) = map sql_pk_of t"
    by (simp add: comp_def)
  then show ?thesis using assms
    by (auto simp: sql_abs_def sql_approval_ok_def comp_def intro!: map_of_is_SomeI)
qed

lemma sql_pk_eq [simp]: "sql_pk rid iid w = (sql_pk_of w = (rid, iid))"
  by (simp add: sql_pk_def sql_pk_of_def)

text \<open>The row that a losing insert reads back is the row the dictionaries find.\<close>

definition sql_existing :: "SqliteApprovalConsumptionStore \<Rightarrow> ApprovalConsumeRequest \<Rightarrow>
    sql_approval_row option" where
  "sql_existing t r =
     (let by_pk = find (sql_pk (ac_run_id r) (ac_interrupt_id r)) t
      in if by_pk = None \<and> ac_idempotency_key r \<noteq> None
         then find (sql_key (ac_run_id r) (ac_idempotency_key r)) t else by_pk)"

lemma sql_existing_abs:
  assumes "sql_approval_ok t"
  shows "map_option sql_row_of (sql_existing t r) = mem_find_existing (sql_abs t) r"
proof (cases "find (sql_pk (ac_run_id r) (ac_interrupt_id r)) t")
  case None
  then have none: "am_rows (sql_abs t) (ac_run_id r, ac_interrupt_id r) = None"
    using find_sql_pk[of "ac_run_id r" "ac_interrupt_id r" t] by simp
  show ?thesis
  proof (cases "ac_idempotency_key r")
    case (Some k)
    show ?thesis
    proof (cases "find (sql_key (ac_run_id r) (Some k)) t")
      case (Some w)
      then have "am_rows (sql_abs t) (sql_pk_of w) = Some (sql_row_of w)"
        using find_Some_mem[OF Some] sql_rows_of_member[OF assms] by blast
      then show ?thesis
        using None none Some \<open>ac_idempotency_key r = Some k\<close>
          find_sql_key[of "ac_run_id r" k t, symmetric]
        by (simp add: sql_existing_def mem_find_existing_def)
    next
      case none': None
      then show ?thesis
        using None none \<open>ac_idempotency_key r = Some k\<close> find_sql_key[of "ac_run_id r" k t]
        by (simp add: sql_existing_def mem_find_existing_def)
    qed
  qed (use None none in \<open>simp add: sql_existing_def mem_find_existing_def\<close>)
next
  case (Some w)
  then show ?thesis
    using find_sql_pk[of "ac_run_id r" "ac_interrupt_id r" t, symmetric]
    by (simp add: sql_existing_def mem_find_existing_def)
qed

lemma sql_insert_ignored:
  "(\<exists>row \<in> set t. sql_pk (ac_run_id r) (ac_interrupt_id r) row
       \<or> sql_key (ac_run_id r) (ac_idempotency_key r) row) = (sql_existing t r \<noteq> None)"
proof (cases "find (sql_pk (ac_run_id r) (ac_interrupt_id r)) t")
  case None
  then show ?thesis using find_ex[of "sql_key (ac_run_id r) (ac_idempotency_key r)" t]
    by (auto simp: sql_existing_def find_None_iff sql_key_def)
next
  case (Some w)
  then show ?thesis using find_Some_mem[OF Some] by (auto simp: sql_existing_def)
qed

lemma sql_try_consume_alt:
  "sql_try_consume t r =
     (case sql_existing t r of
        None \<Rightarrow> (consumed_outcome, t @ [\<lparr>sa_run_id = ac_run_id r, sa_interrupt_id = ac_interrupt_id r,
                     sa_idempotency_key = ac_idempotency_key r, sa_decision = ac_decision r,
                     sa_result_ref = None, sa_result_payload = None\<rparr>])
      | Some w \<Rightarrow>
          (if sa_decision w \<noteq> ac_decision r
           then (conflict_outcome (Some (sa_decision w))
                   ''approval already consumed with a different decision'', t)
           else (duplicate_outcome (sa_decision w) (sa_result_ref w) (sa_result_payload w), t)))"
proof (cases "sql_existing t r")
  case None
  then have ins: "sql_insert_or_ignore t r = (1, t @ [\<lparr>sa_run_id = ac_run_id r,
      sa_interrupt_id = ac_interrupt_id r, sa_idempotency_key = ac_idempotency_key r,
      sa_decision = ac_decision r, sa_result_ref = None, sa_result_payload = None\<rparr>])"
    using sql_insert_ignored[of t r] by (simp add: sql_insert_or_ignore_def)
  then show ?thesis using None by (simp add: sql_try_consume_def)
next
  case (Some w)
  then have "sql_insert_or_ignore t r = (0, t)"
    using sql_insert_ignored[of t r] by (auto simp: sql_insert_or_ignore_def)
  then show ?thesis using Some
    by (simp add: sql_try_consume_def sql_existing_def Let_def split del: if_split)
qed

lemma sql_abs_append_new:
  assumes "sql_existing t r = None" and ok: "sql_approval_ok t"
    and w: "w = \<lparr>sa_run_id = ac_run_id r, sa_interrupt_id = ac_interrupt_id r,
              sa_idempotency_key = ac_idempotency_key r, sa_decision = ac_decision r,
              sa_result_ref = None, sa_result_payload = None\<rparr>"
  shows "sql_approval_ok (t @ [w])" and "sql_abs (t @ [w]) = snd (mem_try_consume (sql_abs t) r)"
proof -
  let ?pks = "map sql_pk_of t" and ?keys = "map fst (concat (map sql_key_entry t))"
  have nomatch: "\<not> sql_pk (ac_run_id r) (ac_interrupt_id r) x"
       "\<not> sql_key (ac_run_id r) (ac_idempotency_key r) x" if "x \<in> set t" for x
    using assms(1) that sql_insert_ignored[of t r] by blast+
  have pk: "(ac_run_id r, ac_interrupt_id r) \<notin> set ?pks"
    using nomatch(1) by force
  have key: "(ac_run_id r, k) \<notin> set ?keys" if "ac_idempotency_key r = Some k" for k
    using nomatch(2) that by (fastforce simp: sql_key_def sql_key_entry_def split: option.splits)
  show "sql_approval_ok (t @ [w])"
    using ok pk key by (auto simp: sql_approval_ok_def w sql_pk_of_def sql_key_entry_def
        split: option.splits)
  have fresh: "mem_find_existing (sql_abs t) r = None"
    using assms(1) sql_existing_abs[OF ok, of r] by simp
  have rows: "map_of (map (\<lambda>w. (sql_pk_of w, sql_row_of w)) (t @ [w])) =
      (map_of (map (\<lambda>w. (sql_pk_of w, sql_row_of w)) t))(sql_pk_of w \<mapsto> sql_row_of w)"
    using pk by (simp add: map_of_append_fresh w sql_pk_of_def image_image del: map_of_append)
  have keys: "map_of (concat (map sql_key_entry (t @ [w]))) =
      (case ac_idempotency_key r of None \<Rightarrow> map_of (concat (map sql_key_entry t))
       | Some k \<Rightarrow> (map_of (concat (map sql_key_entry t)))((ac_run_id r, k) \<mapsto> sql_pk_of w))"
  proof (cases "ac_idempotency_key r")
    case (Some k)
    then have "concat (map sql_key_entry (t @ [w])) =
        concat (map sql_key_entry t) @ [((ac_run_id r, k), sql_pk_of w)]"
      by (simp add: w sql_key_entry_def)
    then show ?thesis using key[OF Some] Some
      by (simp add: map_of_append_fresh del: map_of_append)
  qed (simp add: w sql_key_entry_def)
  show "sql_abs (t @ [w]) = snd (mem_try_consume (sql_abs t) r)"
    unfolding sql_abs_def rows keys using fresh
    by (auto simp: mem_try_consume_def sql_abs_def Let_def w sql_pk_of_def sql_row_of_def
        split: option.splits)
qed

lemma sql_map_update:
  assumes pk: "\<And>w. sql_pk_of (f w) = sql_pk_of w" "\<And>w. sa_run_id (f w) = sa_run_id w"
    "\<And>w. sa_idempotency_key (f w) = sa_idempotency_key w"
  shows "sql_approval_ok (map f t) = sql_approval_ok t"
    and "am_by_key (sql_abs (map f t)) = am_by_key (sql_abs t)"
proof -
  have "sql_key_entry (f w) = sql_key_entry w" for w
    by (simp add: sql_key_entry_def pk split: option.split)
  then have entries: "map sql_key_entry (map f t) = map sql_key_entry t" by simp
  show "sql_approval_ok (map f t) = sql_approval_ok t"
    by (simp add: sql_approval_ok_def entries pk comp_def del: map_map) (simp add: pk comp_def)
  show "am_by_key (sql_abs (map f t)) = am_by_key (sql_abs t)"
    by (simp add: sql_abs_def entries del: map_map)
qed

lemma sql_record_result_abs:
  assumes ok: "sql_approval_ok t"
  shows "sql_approval_ok (sql_record_result t rid iid x y)"
    and "sql_abs (sql_record_result t rid iid x y) = mem_record_result (sql_abs t) rid iid x y"
proof -
  define f where "f w = (if sql_pk rid iid w
      then w\<lparr>sa_result_ref := (case x of None \<Rightarrow> sa_result_ref w | Some v \<Rightarrow> Some v),
             sa_result_payload := (case y of None \<Rightarrow> sa_result_payload w | Some v \<Rightarrow> Some v)\<rparr> else w)" for w
  have f_pk: "sql_pk_of (f w) = sql_pk_of w" "sa_run_id (f w) = sa_run_id w"
      "sa_idempotency_key (f w) = sa_idempotency_key w" for w
    by (simp_all add: f_def sql_pk_of_def)
  have rec: "sql_record_result t rid iid x y = map f t"
    by (cases x; cases y)
       (auto simp: sql_record_result_def f_def sql_pk_of_def intro!: map_idI[symmetric])
  show "sql_approval_ok (sql_record_result t rid iid x y)"
    using ok by (simp add: rec sql_map_update(1) f_pk)
  have rows: "am_rows (sql_abs (map f t)) p = map_option
      (if p = (rid, iid) then set_result x y else id) (am_rows (sql_abs t) p)" for p
    by (induction t) (auto simp: sql_abs_def f_pk,
        auto simp: f_def sql_row_of_def sql_pk_of_def set_result_def split: option.splits)
  have "am_rows (sql_abs (map f t)) = am_rows (mem_record_result (sql_abs t) rid iid x y)"
    by (rule ext) (auto simp: rows mem_record_result_def option.map_id split: option.splits)
  moreover have "am_by_key (sql_abs (map f t)) = am_by_key (mem_record_result (sql_abs t) rid iid x y)"
    by (simp add: sql_map_update(2) f_pk mem_record_result_def split: option.split)
  ultimately show "sql_abs (sql_record_result t rid iid x y) = mem_record_result (sql_abs t) rid iid x y"
    unfolding rec by (intro InMemoryApprovalConsumptionStore.equality) simp_all
qed

lemma sql_approval_get_abs: "sql_approval_get t rid iid = mem_approval_get (sql_abs t) rid iid"
  unfolding sql_approval_get_def mem_approval_get_def find_sql_pk[symmetric]
  by (auto simp: sql_row_of_def split: option.splits)

text \<open>One call: the table and its abstraction give the same answer and stay related.\<close>

lemma sql_call_simulates:
  assumes ok: "sql_approval_ok t"
  shows "fst (sql_call t c) = fst (mem_call (sql_abs t) c)"
    and "sql_abs (snd (sql_call t c)) = snd (mem_call (sql_abs t) c)"
    and "sql_approval_ok (snd (sql_call t c))"
proof -
  have "fst (sql_call t c) = fst (mem_call (sql_abs t) c) \<and>
        sql_abs (snd (sql_call t c)) = snd (mem_call (sql_abs t) c) \<and>
        sql_approval_ok (snd (sql_call t c))"
  proof (cases c)
    case (TryConsume r)
    show ?thesis
    proof (cases "sql_existing t r")
      case None
      then have fresh: "mem_find_existing (sql_abs t) r = None"
        using sql_existing_abs[OF ok, of r] by simp
      show ?thesis
        using sql_abs_append_new[OF None ok refl] TryConsume None fresh
        by (simp add: sql_try_consume_alt mem_try_consume_def Let_def split: prod.splits)
    next
      case (Some w)
      then have old: "mem_find_existing (sql_abs t) r = Some (sql_row_of w)"
        using sql_existing_abs[OF ok, of r] by simp
      show ?thesis using TryConsume Some old ok
        by (auto simp: sql_try_consume_alt mem_try_consume_def sql_row_of_def)
    qed
  next
    case (RecordResult rid iid x y)
    then show ?thesis using sql_record_result_abs[OF ok] by simp
  next
    case (GetOutcome rid iid)
    then show ?thesis using ok by (simp add: sql_approval_get_abs)
  qed
  then show "fst (sql_call t c) = fst (mem_call (sql_abs t) c)"
    and "sql_abs (snd (sql_call t c)) = snd (mem_call (sql_abs t) c)"
    and "sql_approval_ok (snd (sql_call t c))" by simp_all
qed

definition sql_held :: "SqliteApprovalConsumptionStore \<Rightarrow> ApprovalConsumeRequest \<Rightarrow> bool" where
  "sql_held t r = mem_held (sql_abs t) r"

definition sql_ledger_ok :: "SqliteApprovalConsumptionStore \<Rightarrow> bool" where
  "sql_ledger_ok t = (sql_approval_ok t \<and> mem_approval_ok (sql_abs t))"

interpretation sql_ledger: approval_ledger sql_call sql_held sql_ledger_ok
  by unfold_locales
     (auto simp: sql_ledger_ok_def sql_held_def sql_call_simulates
       simp del: mem_call.simps sql_call.simps
       intro: mem_ledger.ok_call mem_ledger.fresh_wins mem_ledger.held_loses mem_ledger.held_mono
         mem_ledger.win_takes dest: mem_ledger.only_win_takes)

lemma sql_ledger_ok_empty: "sql_ledger_ok []"
  by (simp add: sql_ledger_ok_def sql_approval_ok_def mem_approval_ok_def sql_abs_def)

lemma sql_held_empty: "\<not> sql_held [] r"
  by (simp add: sql_held_def mem_held_def mem_find_existing_def sql_abs_def split: option.split)

section \<open>Facts for the properties\<close>

lemma answers_simulate:
  "sql_approval_ok t \<Longrightarrow> answers sql_call t cs = answers mem_call (sql_abs t) cs"
proof (induction cs arbitrary: t)
  case (Cons c cs)
  then show ?case using sql_call_simulates[OF Cons.prems, of c]
    by (cases "sql_call t c"; cases "mem_call (sql_abs t) c") simp
qed simp

lemma mem_call_keeps_decision:
  assumes "am_rows s pk = Some row"
  shows "\<exists>row'. am_rows (snd (mem_call s c)) pk = Some row' \<and> ar_decision row' = ar_decision row"
  using assms
  by (cases c) (auto simp: mem_try_consume_def mem_find_existing_def mem_record_result_def
      set_result_def Let_def split: option.splits)

lemma mem_after_keeps_decision:
  "am_rows s pk = Some row \<Longrightarrow>
   \<exists>row'. am_rows (after mem_call s cs) pk = Some row' \<and> ar_decision row' = ar_decision row"
proof (induction cs arbitrary: s row)
  case (Cons c cs)
  then show ?case using mem_call_keeps_decision[OF Cons.prems, of c] by fastforce
qed auto

lemma mem_won_row:
  "\<not> mem_held s r \<Longrightarrow> am_rows (snd (mem_try_consume s r)) (ac_run_id r, ac_interrupt_id r) =
     Some \<lparr>ar_decision = ac_decision r, ar_result_ref = None, ar_result_payload = None\<rparr>"
  by (auto simp: mem_held_def mem_try_consume_def Let_def split: option.splits)

section \<open>Properties\<close>

text \<open>C6. Exactly one consumer: in every sequence of calls on a fresh SQLite ledger no two
  requests that compete for one approval (the same interrupt of a run, or the same idempotency
  key in it) both get CONSUMED, and for every request that was made some competitor (possibly
  itself) did get it.\<close>

theorem approval_exactly_once:
  "sorted_wrt (\<lambda>r q. \<not> competes r q) (winners sql_call [] cs) \<and>
   (\<forall>q. TryConsume q \<in> set cs \<longrightarrow> (\<exists>w \<in> set (winners sql_call [] cs). competes w q))"
  using sql_ledger.winners_do_not_compete[OF sql_ledger_ok_empty]
    sql_ledger.some_competitor_wins[OF sql_ledger_ok_empty] sql_held_empty by blast

theorem approval_exactly_once_witness:
  "\<exists>w \<in> set (winners sql_call []
      [TryConsume \<lparr>ac_run_id = ''r1'', ac_interrupt_id = ''i1'', ac_decision = ''approve'',
                   ac_idempotency_key = Some ''k''\<rparr>,
       TryConsume \<lparr>ac_run_id = ''r1'', ac_interrupt_id = ''i2'', ac_decision = ''approve'',
                   ac_idempotency_key = Some ''k''\<rparr>]).
     competes w \<lparr>ac_run_id = ''r1'', ac_interrupt_id = ''i2'', ac_decision = ''approve'',
                   ac_idempotency_key = Some ''k''\<rparr>"
  using approval_exactly_once[of
      "[TryConsume \<lparr>ac_run_id = ''r1'', ac_interrupt_id = ''i1'', ac_decision = ''approve'',
                   ac_idempotency_key = Some ''k''\<rparr>,
        TryConsume \<lparr>ac_run_id = ''r1'', ac_interrupt_id = ''i2'', ac_decision = ''approve'',
                   ac_idempotency_key = Some ''k''\<rparr>]"]
  by (simp del: winners.simps)

text \<open>The two backends are one ledger: for every sequence of consume, record and read calls
  the SQLite table gives, from empty, the answers the dictionaries give, outcome by outcome.\<close>

lemma approval_backends_agree:
  "answers sql_call [] cs = answers mem_call mem_approval_init cs"
proof -
  have "sql_approval_ok []" by (simp add: sql_approval_ok_def)
  moreover have "sql_abs [] = mem_approval_init" by (simp add: sql_abs_def mem_approval_init_def)
  ultimately show ?thesis using answers_simulate[of "[]" cs] by simp
qed

text \<open>A decision that was consumed stays: once a request has won, whatever calls follow, a
  later request for the same interrupt is told the winner's decision, DUPLICATE when it repeats
  that decision and CONFLICT when it differs, and never CONSUMED.\<close>

lemma approval_decision_sticks:
  fixes cs :: "approval_call list"
  assumes "\<not> mem_held s r"
    and "ac_run_id q = ac_run_id r" and "ac_interrupt_id q = ac_interrupt_id r"
  defines "oc \<equiv> fst (mem_try_consume (after mem_call (snd (mem_try_consume s r)) cs) q)"
  shows "co_prior_decision oc = Some (ac_decision r) \<and>
    co_status oc = (if ac_decision q = ac_decision r then DUPLICATE else CONFLICT)"
proof -
  obtain row where row: "am_rows (after mem_call (snd (mem_try_consume s r)) cs)
        (ac_run_id q, ac_interrupt_id q) = Some row" and dec: "ar_decision row = ac_decision r"
    using mem_after_keeps_decision[OF mem_won_row[OF assms(1)], of cs] assms(2,3) by auto
  from row have "mem_find_existing (after mem_call (snd (mem_try_consume s r)) cs) q = Some row"
    by (simp add: mem_find_existing_def)
  then show ?thesis
    using dec by (simp add: oc_def mem_try_consume_def conflict_outcome_def duplicate_outcome_def)
qed

lemma approval_decision_sticks_witness:
  "co_status (fst (mem_try_consume
     (after mem_call (snd (mem_try_consume mem_approval_init
        \<lparr>ac_run_id = ''r1'', ac_interrupt_id = ''i1'', ac_decision = ''approve'',
         ac_idempotency_key = None\<rparr>))
        [RecordResult ''r1'' ''i1'' (Some ''ref'') None])
     \<lparr>ac_run_id = ''r1'', ac_interrupt_id = ''i1'', ac_decision = ''reject'',
      ac_idempotency_key = None\<rparr>)) = CONFLICT"
proof -
  have "\<not> mem_held mem_approval_init \<lparr>ac_run_id = ''r1'', ac_interrupt_id = ''i1'',
      ac_decision = ''approve'', ac_idempotency_key = None\<rparr>"
    by (simp add: mem_held_def mem_find_existing_def mem_approval_init_def)
  from approval_decision_sticks[OF this, of
      "\<lparr>ac_run_id = ''r1'', ac_interrupt_id = ''i1'', ac_decision = ''reject'',
        ac_idempotency_key = None\<rparr>" "[RecordResult ''r1'' ''i1'' (Some ''ref'') None]"]
  show ?thesis by simp
qed

end
