(* ===== verification/Control_Contracts.thy ===== *)
theory Control_Contracts
  imports Prelude
begin

text \<open>
  The steering control-plane contracts (\<open>contracts/control.py\<close>): the enumerations, the request,
  the durable queue item, the run state, and the pure functions on them. A timestamp is the string
  the clock returned; the clock reading, the random identifiers and the SHA-256 digest are
  arguments. The digest function maps a string to the hexadecimal digest of its UTF-8 encoding.
\<close>

section \<open>Enumerations\<close>

datatype ControlKind =
    INTERRUPT
  | ENQUEUE_USER_MESSAGE
  | CANCEL_QUEUED_MESSAGE
  | SET_MODEL
  | SET_TOOL_POLICY
  | SET_PERMISSION_MODE
  | SET_MAX_THINKING_TOKENS
  | PATCH_PLANNING_STATE
  | STOP_SUBAGENT
  | CONTINUE_SUBAGENT
  | GET_CONTEXT_USAGE
  | REDIRECT_USER_MESSAGE
  | STEER_USER_MESSAGE
  | PAUSE

datatype ControlPriority = NOW | NEXT | LATER

datatype BusyPolicy = BUSY_INTERRUPT | BUSY_QUEUE | BUSY_STEER

datatype CommandQueueStatus = QUEUED | APPLIED | CANCELLED | FAILED

datatype LiveMessageSemantic =
    STEER_CURRENT | REDIRECT_CURRENT | QUEUE_NEXT | CANCEL_NEXT | STOP | PAUSE_CURRENT

datatype LiveMessagePhase =
    UNKNOWN | LLM_IN_FLIGHT | TOOL_IN_FLIGHT | APPROVAL_PAUSE | FINALIZING | TERMINAL

text \<open>The string values of the enumerations.\<close>

fun kind_value :: "ControlKind \<Rightarrow> string" where
  "kind_value INTERRUPT = ''interrupt''"
| "kind_value ENQUEUE_USER_MESSAGE = ''enqueue_user_message''"
| "kind_value CANCEL_QUEUED_MESSAGE = ''cancel_queued_message''"
| "kind_value SET_MODEL = ''set_model''"
| "kind_value SET_TOOL_POLICY = ''set_tool_policy''"
| "kind_value SET_PERMISSION_MODE = ''set_permission_mode''"
| "kind_value SET_MAX_THINKING_TOKENS = ''set_max_thinking_tokens''"
| "kind_value PATCH_PLANNING_STATE = ''patch_planning_state''"
| "kind_value STOP_SUBAGENT = ''stop_subagent''"
| "kind_value CONTINUE_SUBAGENT = ''continue_subagent''"
| "kind_value GET_CONTEXT_USAGE = ''get_context_usage''"
| "kind_value REDIRECT_USER_MESSAGE = ''redirect_user_message''"
| "kind_value STEER_USER_MESSAGE = ''steer_user_message''"
| "kind_value PAUSE = ''pause''"

fun priority_value :: "ControlPriority \<Rightarrow> string" where
  "priority_value NOW = ''now''"
| "priority_value NEXT = ''next''"
| "priority_value LATER = ''later''"

fun status_value :: "CommandQueueStatus \<Rightarrow> string" where
  "status_value QUEUED = ''queued''"
| "status_value APPLIED = ''applied''"
| "status_value CANCELLED = ''cancelled''"
| "status_value FAILED = ''failed''"

fun semantic_value :: "LiveMessageSemantic \<Rightarrow> string" where
  "semantic_value STEER_CURRENT = ''steer_current''"
| "semantic_value REDIRECT_CURRENT = ''redirect_current''"
| "semantic_value QUEUE_NEXT = ''queue_next''"
| "semantic_value CANCEL_NEXT = ''cancel_next''"
| "semantic_value STOP = ''stop''"
| "semantic_value PAUSE_CURRENT = ''pause_current''"

fun phase_value :: "LiveMessagePhase \<Rightarrow> string" where
  "phase_value UNKNOWN = ''unknown''"
| "phase_value LLM_IN_FLIGHT = ''llm_in_flight''"
| "phase_value TOOL_IN_FLIGHT = ''tool_in_flight''"
| "phase_value APPROVAL_PAUSE = ''approval_pause''"
| "phase_value FINALIZING = ''finalizing''"
| "phase_value TERMINAL = ''terminal''"

section \<open>Records\<close>

record ControlRequest =
  rq_kind :: ControlKind
  rq_run_id :: "string option"
  rq_thread_id :: "string option"
  rq_agent_id :: "string option"
  rq_priority :: ControlPriority
  rq_payload :: pydict
  rq_source :: string
  rq_dedupe_key :: "string option"
  rq_control_id :: string
  rq_created_at :: string
  rq_metadata :: pydict

text \<open>The validators that run when a request is built: the source label is stripped and must not
  be blank, and at least one routing identifier must be a non-empty string.\<close>

definition validate_control_request :: "ControlRequest \<Rightarrow> string + ControlRequest" where
  "validate_control_request r =
     (let cleaned = py_strip (rq_source r) in
      if cleaned = [] then Inl ''source must be non-empty''
      else if \<not> (str_truthy (rq_run_id r) \<or> str_truthy (rq_thread_id r) \<or> str_truthy (rq_agent_id r))
      then Inl ''control request requires run_id, thread_id, or agent_id''
      else Inr (r\<lparr>rq_source := cleaned\<rparr>))"

record CommandQueueItem =
  qi_queue_id :: string
  qi_control_id :: string
  qi_schema_version :: int
  qi_sequence :: int
  qi_kind :: ControlKind
  qi_priority :: ControlPriority
  qi_status :: CommandQueueStatus
  qi_run_id :: "string option"
  qi_thread_id :: "string option"
  qi_agent_id :: "string option"
  qi_payload :: pydict
  qi_source :: string
  qi_dedupe_key :: "string option"
  qi_created_at :: string
  qi_accepted_at :: "string option"
  qi_updated_at :: string
  qi_applied_at :: "string option"
  qi_cancelled_at :: "string option"
  qi_failed_at :: "string option"
  qi_terminal_at :: "string option"
  qi_error :: "string option"
  qi_requested_semantic :: "LiveMessageSemantic option"
  qi_resolved_semantic :: "LiveMessageSemantic option"
  qi_accepted_phase :: "LiveMessagePhase option"
  qi_applied_phase :: "LiveMessagePhase option"
  qi_applies_at :: "string option"
  qi_reason_code :: "string option"
  qi_content_sha256 :: "string option"
  qi_request_sha256 :: "string option"
  qi_source_generation :: int
  qi_llm_generation :: int
  qi_superseded_generation :: "int option"
  qi_handoff_id :: "string option"
  qi_destination_turn_id :: "string option"
  qi_claimed_by :: "string option"
  qi_claimed_at :: "string option"
  qi_metadata :: pydict

record LiveRunState =
  rs_run_id :: string
  rs_thread_id :: "string option"
  rs_agent_id :: "string option"
  rs_phase :: LiveMessagePhase
  rs_llm_generation :: int
  rs_stopped :: bool
  rs_updated_at :: string
  rs_terminal_at :: "string option"

record NextTurnHandoff =
  nh_handoff_id :: string
  nh_queue_id :: string
  nh_source_run_id :: string
  nh_source_thread_id :: "string option"
  nh_message :: string
  nh_content_sha256 :: string
  nh_sequence :: int

record ControlResponse =
  cr_ok :: bool
  cr_control_id :: "string option"
  cr_queue_id :: "string option"
  cr_error :: "string option"
  cr_pending_approvals :: "pydict list"
  cr_metadata :: pydict

record LiveMessageCapabilities =
  lc_schema_id :: string
  lc_soft_steer :: bool
  lc_hard_redirect :: bool
  lc_queue_next :: bool
  lc_cancel_queued :: bool
  lc_durable_store :: string
  lc_contract_version :: int

section \<open>Routing of a message by busy policy\<close>

text \<open>The request carries a fresh control identifier and its creation time; building it runs the
  validators.\<close>

definition control_request_for_message ::
  "string \<Rightarrow> string \<Rightarrow> string \<Rightarrow> BusyPolicy \<Rightarrow> string option \<Rightarrow> string option \<Rightarrow> string option \<Rightarrow>
   string \<Rightarrow> string + ControlRequest" where
  "control_request_for_message cid now msg policy rid tid aid src =
     (let (knd, prio) =
        (if policy = BUSY_INTERRUPT then (REDIRECT_USER_MESSAGE, NOW)
         else if policy = BUSY_QUEUE then (ENQUEUE_USER_MESSAGE, NEXT)
         else (STEER_USER_MESSAGE, NOW))
      in validate_control_request
           \<lparr>rq_kind = knd, rq_run_id = rid, rq_thread_id = tid, rq_agent_id = aid,
            rq_priority = prio, rq_payload = [(''message'', PStr msg)], rq_source = src,
            rq_dedupe_key = None, rq_control_id = cid, rq_created_at = now, rq_metadata = []\<rparr>)"

definition requested_semantic_for_request :: "ControlRequest \<Rightarrow> LiveMessageSemantic option" where
  "requested_semantic_for_request r =
     (if rq_kind r = ENQUEUE_USER_MESSAGE \<and> rq_priority r = NOW then Some STEER_CURRENT
      else if rq_kind r = ENQUEUE_USER_MESSAGE \<and> rq_priority r = NEXT then Some QUEUE_NEXT
      else if rq_kind r = STEER_USER_MESSAGE then Some STEER_CURRENT
      else if rq_kind r = PAUSE then Some PAUSE_CURRENT
      else if rq_kind r = REDIRECT_USER_MESSAGE \<and> rq_priority r = NOW then Some REDIRECT_CURRENT
      else if rq_kind r = CANCEL_QUEUED_MESSAGE then Some CANCEL_NEXT
      else if rq_kind r = INTERRUPT then Some STOP
      else None)"

fun applies_at_for_semantic :: "LiveMessageSemantic option \<Rightarrow> string option" where
  "applies_at_for_semantic (Some STEER_CURRENT) = Some ''next_safe_boundary''"
| "applies_at_for_semantic (Some REDIRECT_CURRENT) = Some ''in_flight_model_or_next_safe_boundary''"
| "applies_at_for_semantic (Some QUEUE_NEXT) = Some ''after_source_terminal''"
| "applies_at_for_semantic (Some CANCEL_NEXT) = Some ''before_next_handoff''"
| "applies_at_for_semantic (Some STOP) = Some ''run_abort_boundary''"
| "applies_at_for_semantic (Some PAUSE_CURRENT) = Some ''next_safe_boundary''"
| "applies_at_for_semantic None = None"

section \<open>Dispatch order\<close>

fun priority_rank :: "ControlPriority \<Rightarrow> nat" where
  "priority_rank NOW = 0"
| "priority_rank NEXT = 1"
| "priority_rank LATER = 2"

definition dispatch_order :: "CommandQueueItem \<Rightarrow> nat" where
  "dispatch_order i =
     (if qi_kind i = INTERRUPT then 0
      else if qi_requested_semantic i = Some REDIRECT_CURRENT then 1
      else if qi_requested_semantic i = Some STEER_CURRENT then 2
      else if qi_requested_semantic i = Some QUEUE_NEXT then 11
      else 10 + priority_rank (qi_priority i))"

section \<open>Canonical JSON and the request digest\<close>

text \<open>\<open>json.dumps(.., sort_keys=True, separators=(",", ":"), ensure_ascii=False)\<close> of the standard
  library: control characters, the quote and the backslash are escaped, keys are sorted by code
  point.\<close>

definition hex_digit :: "nat \<Rightarrow> char" where
  "hex_digit n = (if n < 10 then char_of (n + 48) else char_of (n + 87))"

definition json_escape :: "char \<Rightarrow> string" where
  "json_escape c =
     (let n = of_char c :: nat in
      if n = 34 then [char_of (92 :: nat), char_of (34 :: nat)]
      else if n = 92 then [char_of (92 :: nat), char_of (92 :: nat)]
      else if n = 10 then char_of (92 :: nat) # ''n''
      else if n = 13 then char_of (92 :: nat) # ''r''
      else if n = 9 then char_of (92 :: nat) # ''t''
      else if n = 12 then char_of (92 :: nat) # ''f''
      else if n = 8 then char_of (92 :: nat) # ''b''
      else if n < 32 then char_of (92 :: nat) # ''u00'' @ [hex_digit (n div 16), hex_digit (n mod 16)]
      else [c])"

definition json_string :: "string \<Rightarrow> string" where
  "json_string s = char_of (34 :: nat) # concat (map json_escape s) @ [char_of (34 :: nat)]"

fun show_nat :: "nat \<Rightarrow> string" where
  "show_nat n = (if n < 10 then [char_of (n + 48)] else show_nat (n div 10) @ [char_of (n mod 10 + 48)])"

declare show_nat.simps [simp del]

definition show_int :: "int \<Rightarrow> string" where
  "show_int i = (if i < 0 then ''-'' @ show_nat (nat (- i)) else show_nat (nat i))"

fun intercalate :: "string \<Rightarrow> string list \<Rightarrow> string" where
  "intercalate sep [] = []"
| "intercalate sep [x] = x"
| "intercalate sep (x # y # xs) = x @ sep @ intercalate sep (y # xs)"

lemma size_pyval_dict: "(k, v) \<in> set d \<Longrightarrow> size v < Suc (size_list (size_prod (\<lambda>_. 0) size) d)"
  by (induction d) auto

function json_dumps :: "pyval \<Rightarrow> string" where
  "json_dumps PNone = ''null''"
| "json_dumps (PBool b) = (if b then ''true'' else ''false'')"
| "json_dumps (PInt i) = show_int i"
| "json_dumps (PStr s) = json_string s"
| "json_dumps (PList xs) = ''['' @ intercalate '','' (map json_dumps xs) @ '']''"
| "json_dumps (PDict d) =
     ''{'' @ intercalate '',''
       (map (\<lambda>(k, v). json_string k @ '':'' @ v)
         (sort_key fst (map (\<lambda>(k, v). (k, json_dumps v)) d))) @ ''}''"
  by pat_completeness auto
termination
  by (relation "measure size") (auto simp: size_pyval_dict less_Suc_eq_le size_list_estimation')

definition opt_str :: "string option \<Rightarrow> pyval" where
  "opt_str x = (case x of None \<Rightarrow> PNone | Some s \<Rightarrow> PStr s)"

definition request_document :: "ControlRequest \<Rightarrow> pyval" where
  "request_document r = PDict
     [(''kind'', PStr (kind_value (rq_kind r))),
      (''run_id'', opt_str (rq_run_id r)),
      (''thread_id'', opt_str (rq_thread_id r)),
      (''agent_id'', opt_str (rq_agent_id r)),
      (''priority'', PStr (priority_value (rq_priority r))),
      (''payload'', PDict (rq_payload r)),
      (''source'', PStr (rq_source r)),
      (''metadata'', PDict (rq_metadata r))]"

definition control_request_sha256 :: "(string \<Rightarrow> string) \<Rightarrow> ControlRequest \<Rightarrow> string" where
  "control_request_sha256 sha r = sha (json_dumps (request_document r))"

section \<open>A queue item from a request\<close>

definition request_message :: "pydict \<Rightarrow> pyval" where
  "request_message p = py_or (dict_get p ''message'') (dict_get p ''text'')"

definition from_request ::
  "(string \<Rightarrow> string) \<Rightarrow> string \<Rightarrow> string \<Rightarrow> ControlRequest \<Rightarrow> CommandQueueItem" where
  "from_request sha uid now r =
     (let semantic = requested_semantic_for_request r in
      \<lparr>qi_queue_id = ''cmd_'' @ uid,
       qi_control_id = rq_control_id r,
       qi_schema_version = 1,
       qi_sequence = 0,
       qi_kind = rq_kind r,
       qi_priority = rq_priority r,
       qi_status = QUEUED,
       qi_run_id = rq_run_id r,
       qi_thread_id = rq_thread_id r,
       qi_agent_id = rq_agent_id r,
       qi_payload = rq_payload r,
       qi_source = rq_source r,
       qi_dedupe_key = rq_dedupe_key r,
       qi_created_at = now,
       qi_accepted_at = Some now,
       qi_updated_at = now,
       qi_applied_at = None,
       qi_cancelled_at = None,
       qi_failed_at = None,
       qi_terminal_at = None,
       qi_error = None,
       qi_requested_semantic = semantic,
       qi_resolved_semantic = semantic,
       qi_accepted_phase = None,
       qi_applied_phase = None,
       qi_applies_at = applies_at_for_semantic semantic,
       qi_reason_code = (if semantic \<noteq> None then Some ''accepted'' else None),
       qi_content_sha256 = map_option sha (as_str (request_message (rq_payload r))),
       qi_request_sha256 = Some (control_request_sha256 sha r),
       qi_source_generation = 0,
       qi_llm_generation = 0,
       qi_superseded_generation = None,
       qi_handoff_id = None,
       qi_destination_turn_id = None,
       qi_claimed_by = None,
       qi_claimed_at = None,
       qi_metadata = rq_metadata r\<rparr>)"

lemma from_request_fields [simp]:
  "qi_queue_id (from_request sha uid now r) = ''cmd_'' @ uid"
  "qi_status (from_request sha uid now r) = QUEUED"
  "qi_kind (from_request sha uid now r) = rq_kind r"
  "qi_priority (from_request sha uid now r) = rq_priority r"
  "qi_run_id (from_request sha uid now r) = rq_run_id r"
  "qi_thread_id (from_request sha uid now r) = rq_thread_id r"
  "qi_agent_id (from_request sha uid now r) = rq_agent_id r"
  "qi_source (from_request sha uid now r) = rq_source r"
  "qi_dedupe_key (from_request sha uid now r) = rq_dedupe_key r"
  "qi_payload (from_request sha uid now r) = rq_payload r"
  "qi_schema_version (from_request sha uid now r) = 1"
  "qi_requested_semantic (from_request sha uid now r) = requested_semantic_for_request r"
  "qi_resolved_semantic (from_request sha uid now r) = requested_semantic_for_request r"
  "qi_request_sha256 (from_request sha uid now r) = Some (control_request_sha256 sha r)"
  "qi_terminal_at (from_request sha uid now r) = None"
  "qi_claimed_by (from_request sha uid now r) = None"
  "qi_claimed_at (from_request sha uid now r) = None"
  "qi_handoff_id (from_request sha uid now r) = None"
  by (simp_all add: from_request_def Let_def)

lemma request_semantic_of_policy:
  "control_request_for_message cid now msg policy rid tid aid src = Inr r \<Longrightarrow>
   requested_semantic_for_request r =
     Some (case policy of BUSY_INTERRUPT \<Rightarrow> REDIRECT_CURRENT | BUSY_QUEUE \<Rightarrow> QUEUE_NEXT
           | BUSY_STEER \<Rightarrow> STEER_CURRENT)"
  by (cases policy)
    (auto simp: control_request_for_message_def validate_control_request_def Let_def
      requested_semantic_for_request_def split: if_splits)

end
