(* ===== verification/Command_Queue.thy ===== *)
theory Command_Queue
  imports Control_Contracts
begin

text \<open>
  The steering command queue (\<open>runtime/control/in_memory.py\<close>), the reference state machine that the
  SQLite store replays too. A store holds the rows by identifier, the insertion order and the
  phase fence of each run. An operation is a function of the store and of the readings it takes
  from its environment: \<open>now n\<close> is the n-th clock reading inside the call, \<open>uid\<close> the random
  identifier of a new row, \<open>sha\<close> the digest function. It returns the value or the exception
  together with the store it leaves.

  The laws of these operations are in the theory of the queue laws.
\<close>

section \<open>State and errors\<close>

record InMemoryCommandQueueStore =
  cs_items :: "string \<rightharpoonup> CommandQueueItem"
  cs_order :: "string list"
  cs_runs :: "string \<rightharpoonup> LiveRunState"

abbreviation (input) empty_store :: InMemoryCommandQueueStore where
  "empty_store \<equiv> \<lparr>cs_items = Map.empty, cs_order = [], cs_runs = Map.empty\<rparr>"

datatype control_error =
    AdmissionError string
  | IdempotencyError
  | KeyError string

type_synonym clock = "nat \<Rightarrow> string"
type_synonym 'a outcome = "(control_error + 'a) \<times> InMemoryCommandQueueStore"

definition put_item :: "CommandQueueItem \<Rightarrow> InMemoryCommandQueueStore \<Rightarrow> InMemoryCommandQueueStore"
  where "put_item i s = s\<lparr>cs_items := (cs_items s)(qi_queue_id i \<mapsto> i)\<rparr>"

definition put_run :: "string \<Rightarrow> LiveRunState \<Rightarrow> InMemoryCommandQueueStore \<Rightarrow> InMemoryCommandQueueStore"
  where "put_run r st s = s\<lparr>cs_runs := (cs_runs s)(r \<mapsto> st)\<rparr>"

section \<open>Reading\<close>

definition handoff_id :: "string \<Rightarrow> string" where
  "handoff_id q = ''handoff_'' @ removeprefix ''cmd_'' q"

definition matches_route ::
  "string option \<Rightarrow> string option \<Rightarrow> string option \<Rightarrow> CommandQueueItem \<Rightarrow> bool" where
  "matches_route rid tid aid i =
     (if rid \<noteq> None \<and> qi_run_id i \<noteq> rid then False
      else if tid \<noteq> None \<and> qi_thread_id i \<noteq> tid then False
      else if aid \<noteq> None \<and> qi_agent_id i \<noteq> aid then False
      else True)"

definition queue_get :: "InMemoryCommandQueueStore \<Rightarrow> string \<Rightarrow> CommandQueueItem option" where
  "queue_get s q = cs_items s q"

definition indexed_items :: "InMemoryCommandQueueStore \<Rightarrow> (nat \<times> CommandQueueItem) list" where
  "indexed_items s =
     List.map_filter (\<lambda>(n, q). map_option (Pair n) (cs_items s q)) (enumerate 0 (cs_order s))"

definition list_pending ::
  "InMemoryCommandQueueStore \<Rightarrow> string option \<Rightarrow> string option \<Rightarrow> string option \<Rightarrow>
   CommandQueueItem list" where
  "list_pending s rid tid aid =
     map snd (sort_key (\<lambda>(n, i). (dispatch_order i, n))
       (filter (\<lambda>(n, i). qi_status i = QUEUED \<and> matches_route rid tid aid i) (indexed_items s)))"

fun list_for_run_loop ::
  "(string \<rightharpoonup> CommandQueueItem) \<Rightarrow> string \<Rightarrow> string list \<Rightarrow> control_error + CommandQueueItem list" where
  "list_for_run_loop m rid [] = Inr []"
| "list_for_run_loop m rid (q # qs) =
     (case m q of
        None \<Rightarrow> Inl (KeyError q)
      | Some i \<Rightarrow>
          (case list_for_run_loop m rid qs of
             Inl e \<Rightarrow> Inl e
           | Inr rest \<Rightarrow> Inr (if qi_run_id i = Some rid then i # rest else rest)))"

definition list_for_run ::
  "InMemoryCommandQueueStore \<Rightarrow> string \<Rightarrow> control_error + CommandQueueItem list" where
  "list_for_run s rid = list_for_run_loop (cs_items s) rid (cs_order s)"

definition dequeue_next ::
  "InMemoryCommandQueueStore \<Rightarrow> string option \<Rightarrow> string option \<Rightarrow> string option \<Rightarrow>
   CommandQueueItem option" where
  "dequeue_next s rid tid aid =
     (case list_pending s rid tid aid of [] \<Rightarrow> None | i # _ \<Rightarrow> Some i)"

definition get_run_state :: "InMemoryCommandQueueStore \<Rightarrow> string \<Rightarrow> LiveRunState option" where
  "get_run_state s rid = cs_runs s rid"

definition current_llm_generation :: "InMemoryCommandQueueStore \<Rightarrow> string \<Rightarrow> int" where
  "current_llm_generation s rid =
     (case get_run_state s rid of None \<Rightarrow> 0 | Some st \<Rightarrow> rs_llm_generation st)"

section \<open>Closing a row\<close>

definition mark_applied ::
  "string \<Rightarrow> string \<Rightarrow> string option \<Rightarrow> LiveMessagePhase option \<Rightarrow> InMemoryCommandQueueStore \<Rightarrow>
   CommandQueueItem option \<times> InMemoryCommandQueueStore" where
  "mark_applied now q claimant aphase s =
     (case cs_items s q of
        None \<Rightarrow> (None, s)
      | Some i \<Rightarrow>
          if qi_status i \<noteq> QUEUED then (Some i, s)
          else if claimant \<noteq> None \<and> qi_claimed_by i \<noteq> None \<and> qi_claimed_by i \<noteq> claimant
          then (Some i, s)
          else
            (let reason0 = (if qi_requested_semantic i = Some STOP then ''stop_applied'' else ''applied'');
                 degraded = (qi_requested_semantic i = Some REDIRECT_CURRENT
                             \<and> aphase \<noteq> Some LLM_IN_FLIGHT);
                 updated = i\<lparr>qi_status := APPLIED, qi_updated_at := now, qi_applied_at := Some now,
                   qi_terminal_at := Some now, qi_applied_phase := aphase,
                   qi_resolved_semantic :=
                     (if degraded then Some STEER_CURRENT else qi_resolved_semantic i),
                   qi_reason_code :=
                     Some (if degraded then ''redirect_degraded_tool_phase'' else reason0),
                   qi_claimed_by := None, qi_claimed_at := None\<rparr>
             in (Some updated, s\<lparr>cs_items := (cs_items s)(q \<mapsto> updated)\<rparr>)))"

definition mark_failed ::
  "string \<Rightarrow> string \<Rightarrow> string \<Rightarrow> InMemoryCommandQueueStore \<Rightarrow>
   CommandQueueItem option \<times> InMemoryCommandQueueStore" where
  "mark_failed now q err s =
     (case cs_items s q of
        None \<Rightarrow> (None, s)
      | Some i \<Rightarrow>
          if qi_status i \<noteq> QUEUED then (Some i, s)
          else
            (let updated = i\<lparr>qi_status := FAILED, qi_updated_at := now, qi_failed_at := Some now,
                   qi_terminal_at := Some now, qi_error := Some err, qi_reason_code := Some err,
                   qi_claimed_by := None, qi_claimed_at := None\<rparr>
             in (Some updated, s\<lparr>cs_items := (cs_items s)(q \<mapsto> updated)\<rparr>)))"

definition cancel_unlocked ::
  "string \<Rightarrow> string \<Rightarrow> string \<Rightarrow> InMemoryCommandQueueStore \<Rightarrow>
   CommandQueueItem option \<times> InMemoryCommandQueueStore" where
  "cancel_unlocked now q reason s =
     (case cs_items s q of
        None \<Rightarrow> (None, s)
      | Some i \<Rightarrow>
          if qi_status i \<noteq> QUEUED then (Some i, s)
          else if qi_claimed_by i \<noteq> None then (Some i, s)
          else
            (let updated = i\<lparr>qi_status := CANCELLED, qi_updated_at := now, qi_cancelled_at := Some now,
                   qi_terminal_at := Some now, qi_reason_code := Some reason\<rparr>
             in (Some updated, s\<lparr>cs_items := (cs_items s)(q \<mapsto> updated)\<rparr>)))"

definition cancel_next ::
  "string \<Rightarrow> string \<Rightarrow> InMemoryCommandQueueStore \<Rightarrow>
   CommandQueueItem option \<times> InMemoryCommandQueueStore" where
  "cancel_next now q s =
     (case cs_items s q of
        None \<Rightarrow> (None, s)
      | Some i \<Rightarrow>
          if qi_status i \<noteq> QUEUED then (Some i, s)
          else if qi_resolved_semantic i \<noteq> Some QUEUE_NEXT then (Some i, s)
          else cancel_unlocked now q ''cancelled_by_operator'' s)"

definition cancel ::
  "string \<Rightarrow> string \<Rightarrow> InMemoryCommandQueueStore \<Rightarrow>
   CommandQueueItem option \<times> InMemoryCommandQueueStore" where
  "cancel now q s =
     (case queue_get s q of
        Some i \<Rightarrow>
          if qi_requested_semantic i = Some QUEUE_NEXT then cancel_next now q s
          else cancel_unlocked now q ''cancelled'' s
      | None \<Rightarrow> cancel_unlocked now q ''cancelled'' s)"

section \<open>Admission\<close>

fun dedupe_scan ::
  "string \<Rightarrow> ControlRequest \<Rightarrow> (string \<rightharpoonup> CommandQueueItem) \<Rightarrow> string list \<Rightarrow>
   control_error + CommandQueueItem option" where
  "dedupe_scan h r m [] = Inr None"
| "dedupe_scan h r m (q # qs) =
     (case m q of
        None \<Rightarrow> Inl (KeyError q)
      | Some i \<Rightarrow>
          if qi_kind i = rq_kind r \<and> qi_source i = rq_source r
             \<and> qi_dedupe_key i = rq_dedupe_key r \<and> qi_run_id i = rq_run_id r
             \<and> qi_thread_id i = rq_thread_id r \<and> qi_agent_id i = rq_agent_id r
          then (if qi_request_sha256 i \<noteq> Some h then Inl IdempotencyError else Inr (Some i))
          else dedupe_scan h r m qs)"

definition dedupe_match ::
  "(string \<Rightarrow> string) \<Rightarrow> ControlRequest \<Rightarrow> InMemoryCommandQueueStore \<Rightarrow>
   control_error + CommandQueueItem option" where
  "dedupe_match sha r s =
     (if \<not> str_truthy (rq_dedupe_key r) then Inr None
      else dedupe_scan (control_request_sha256 sha r) r (cs_items s) (cs_order s))"

definition insert_item ::
  "(string \<Rightarrow> string) \<Rightarrow> string \<Rightarrow> string \<Rightarrow> ControlRequest \<Rightarrow> LiveMessagePhase \<Rightarrow>
   InMemoryCommandQueueStore \<Rightarrow> CommandQueueItem \<times> InMemoryCommandQueueStore" where
  "insert_item sha uid now r aphase s =
     (let i0 = (from_request sha uid now r)
                 \<lparr>qi_sequence := int (length (cs_order s)) + 1, qi_accepted_phase := Some aphase\<rparr>;
          i = (if qi_requested_semantic i0 = Some QUEUE_NEXT
               then i0\<lparr>qi_handoff_id := Some (handoff_id (qi_queue_id i0))\<rparr> else i0)
      in (i, s\<lparr>cs_items := (cs_items s)(qi_queue_id i \<mapsto> i),
               cs_order := cs_order s @ [qi_queue_id i]\<rparr>))"

definition message_semantic :: "LiveMessageSemantic option \<Rightarrow> bool" where
  "message_semantic m =
     (m = Some STEER_CURRENT \<or> m = Some REDIRECT_CURRENT \<or> m = Some QUEUE_NEXT)"

text \<open>The loop of an accepted stop over the rows that were pending.\<close>

fun stop_pending ::
  "clock \<Rightarrow> string \<Rightarrow> CommandQueueItem list \<Rightarrow> InMemoryCommandQueueStore \<Rightarrow>
   InMemoryCommandQueueStore" where
  "stop_pending now self [] s = s"
| "stop_pending now self (p # ps) s =
     (if qi_queue_id p = self then stop_pending now self ps s
      else if message_semantic (qi_requested_semantic p)
      then stop_pending (\<lambda>n. now (Suc n)) self ps
             (snd (mark_failed (now 0) (qi_queue_id p) ''run_stopped'' s))
      else stop_pending now self ps s)"

text \<open>The part of the admission after all guards passed: the row is stored, then a stop fences the
  run and fails its pending messages.\<close>

definition admit_accepted ::
  "(string \<Rightarrow> string) \<Rightarrow> string \<Rightarrow> clock \<Rightarrow> ControlRequest \<Rightarrow> string \<Rightarrow> LiveRunState \<Rightarrow>
   LiveMessagePhase \<Rightarrow> LiveMessageSemantic \<Rightarrow> InMemoryCommandQueueStore \<Rightarrow>
   CommandQueueItem \<times> InMemoryCommandQueueStore" where
  "admit_accepted sha uid now r rid st phase semantic s =
     (let (i0, s0) = insert_item sha uid (now 0) r phase s;
          i1 = i0\<lparr>qi_source_generation := rs_llm_generation st\<rparr>;
          s1 = put_item i1 s0
      in if semantic = STOP
         then
           (let s2 = put_run rid (st\<lparr>rs_stopped := True, rs_updated_at := now 1\<rparr>) s1;
                i2 = i1\<lparr>qi_reason_code := Some ''stop_accepted'', qi_updated_at := now 1\<rparr>;
                s3 = put_item i2 s2
            in (i2, stop_pending (\<lambda>n. now (n + 2)) (qi_queue_id i2)
                      (list_pending s3 (Some rid) None None) s3))
         else (i1, s1))"

definition admit ::
  "(string \<Rightarrow> string) \<Rightarrow> string \<Rightarrow> clock \<Rightarrow> ControlRequest \<Rightarrow> LiveMessagePhase option \<Rightarrow>
   InMemoryCommandQueueStore \<Rightarrow> CommandQueueItem outcome" where
  "admit sha uid now r aphase s =
     (case rq_run_id r of
        None \<Rightarrow> (Inl (AdmissionError ''run_id_required''), s)
      | Some rid \<Rightarrow>
          (case dedupe_match sha r s of
             Inl e \<Rightarrow> (Inl e, s)
           | Inr (Some i) \<Rightarrow> (Inr i, s)
           | Inr None \<Rightarrow>
               (let phase = (case aphase of Some p \<Rightarrow> Some p
                             | None \<Rightarrow> map_option rs_phase (cs_runs s rid))
                in case (cs_runs s rid, phase) of
                     (Some st, Some ph) \<Rightarrow>
                       if ph = UNKNOWN
                       then (Inl (AdmissionError ''live_message_state_unavailable''), s)
                       else if rs_phase st = TERMINAL
                       then (Inl (AdmissionError ''turn_no_longer_steerable''), s)
                       else if rs_stopped st
                       then (Inl (AdmissionError ''run_stopped''), s)
                       else
                         (case requested_semantic_for_request r of
                            None \<Rightarrow> (Inl (AdmissionError ''unsupported_live_message_semantic''), s)
                          | Some semantic \<Rightarrow>
                              if message_semantic (Some semantic)
                                 \<and> \<not> nonblank (request_message (rq_payload r))
                              then (Inl (AdmissionError ''invalid_control_payload''), s)
                              else (let (i, s') = admit_accepted sha uid now r rid st ph semantic s
                                    in (Inr i, s')))
                   | _ \<Rightarrow> (Inl (AdmissionError ''live_message_state_unavailable''), s))))"

definition run_known :: "InMemoryCommandQueueStore \<Rightarrow> ControlRequest \<Rightarrow> bool" where
  "run_known s r = (case rq_run_id r of None \<Rightarrow> False | Some rid \<Rightarrow> cs_runs s rid \<noteq> None)"

definition enqueue ::
  "(string \<Rightarrow> string) \<Rightarrow> string \<Rightarrow> clock \<Rightarrow> ControlRequest \<Rightarrow> InMemoryCommandQueueStore \<Rightarrow>
   CommandQueueItem outcome" where
  "enqueue sha uid now r s =
     (if run_known s r \<and> requested_semantic_for_request r \<noteq> None
      then admit sha uid now r None s
      else
        (case dedupe_match sha r s of
           Inl e \<Rightarrow> (Inl e, s)
         | Inr (Some i) \<Rightarrow> (Inr i, s)
         | Inr None \<Rightarrow>
             (let (i, s') = insert_item sha uid (now 0) r UNKNOWN s in (Inr i, s'))))"

section \<open>Phase, claims and terminal commit\<close>

definition set_run_phase ::
  "string \<Rightarrow> string \<Rightarrow> LiveMessagePhase \<Rightarrow> string option \<Rightarrow> string option \<Rightarrow>
   InMemoryCommandQueueStore \<Rightarrow> LiveRunState \<times> InMemoryCommandQueueStore" where
  "set_run_phase now rid phase tid aid s =
     (case cs_runs s rid of
        Some prior \<Rightarrow>
          if rs_phase prior = TERMINAL then (prior, s)
          else
            (let st = \<lparr>rs_run_id = rid, rs_thread_id = opt_or tid (rs_thread_id prior),
                       rs_agent_id = opt_or aid (rs_agent_id prior), rs_phase = phase,
                       rs_llm_generation = rs_llm_generation prior, rs_stopped = rs_stopped prior,
                       rs_updated_at = now, rs_terminal_at = None\<rparr>
             in (st, put_run rid st s))
      | None \<Rightarrow>
          (let st = \<lparr>rs_run_id = rid, rs_thread_id = opt_or tid None, rs_agent_id = opt_or aid None,
                     rs_phase = phase, rs_llm_generation = 0, rs_stopped = False,
                     rs_updated_at = now, rs_terminal_at = None\<rparr>
           in (st, put_run rid st s)))"

definition boundary_eligible :: "LiveRunState option \<Rightarrow> CommandQueueItem \<Rightarrow> bool" where
  "boundary_eligible st i =
     (qi_claimed_by i = None
      \<and> ((case st of None \<Rightarrow> False | Some x \<Rightarrow> rs_stopped x) \<longrightarrow> qi_requested_semantic i = Some STOP)
      \<and> qi_requested_semantic i \<noteq> Some QUEUE_NEXT
      \<and> qi_priority i \<noteq> LATER)"

definition claim_for_boundary ::
  "string \<Rightarrow> string \<Rightarrow> string \<Rightarrow> InMemoryCommandQueueStore \<Rightarrow>
   CommandQueueItem option \<times> InMemoryCommandQueueStore" where
  "claim_for_boundary now rid claimant s =
     (let st = cs_runs s rid in
      if (case st of None \<Rightarrow> False | Some x \<Rightarrow> rs_phase x = TERMINAL) then (None, s)
      else
        (case find (boundary_eligible st) (list_pending s (Some rid) None None) of
           None \<Rightarrow> (None, s)
         | Some i \<Rightarrow>
             (let claimed = i\<lparr>qi_claimed_by := Some claimant, qi_claimed_at := Some now,
                              qi_updated_at := now\<rparr>
              in (Some claimed, put_item claimed s))))"

definition claim_hard_redirect ::
  "string \<Rightarrow> string \<Rightarrow> string \<Rightarrow> int \<Rightarrow> InMemoryCommandQueueStore \<Rightarrow>
   CommandQueueItem option \<times> InMemoryCommandQueueStore" where
  "claim_hard_redirect now rid claimant expected s =
     (case cs_runs s rid of
        None \<Rightarrow> (None, s)
      | Some st \<Rightarrow>
          if rs_stopped st \<or> rs_phase st \<noteq> LLM_IN_FLIGHT \<or> rs_llm_generation st \<noteq> expected
          then (None, s)
          else
            (case find (\<lambda>i. qi_requested_semantic i = Some REDIRECT_CURRENT \<and> qi_claimed_by i = None)
                    (list_pending s (Some rid) None None) of
               None \<Rightarrow> (None, s)
             | Some i \<Rightarrow>
                 (let next_generation = rs_llm_generation st + 1;
                      st' = st\<lparr>rs_llm_generation := next_generation, rs_updated_at := now\<rparr>;
                      claimed = i\<lparr>qi_claimed_by := Some claimant, qi_claimed_at := Some now,
                        qi_updated_at := now, qi_applied_phase := Some LLM_IN_FLIGHT,
                        qi_resolved_semantic := Some REDIRECT_CURRENT,
                        qi_reason_code := Some ''redirect_claimed'',
                        qi_superseded_generation := Some expected,
                        qi_llm_generation := next_generation\<rparr>
                  in (Some claimed, put_item claimed (put_run rid st' s)))))"

definition release_claim ::
  "string \<Rightarrow> string \<Rightarrow> string \<Rightarrow> InMemoryCommandQueueStore \<Rightarrow>
   CommandQueueItem option \<times> InMemoryCommandQueueStore" where
  "release_claim now q claimant s =
     (case cs_items s q of
        None \<Rightarrow> (None, s)
      | Some i \<Rightarrow>
          if qi_status i \<noteq> QUEUED then (Some i, s)
          else if qi_claimed_by i \<noteq> Some claimant then (Some i, s)
          else
            (let updated = i\<lparr>qi_claimed_by := None, qi_claimed_at := None, qi_updated_at := now\<rparr>
             in (Some updated, s\<lparr>cs_items := (cs_items s)(q \<mapsto> updated)\<rparr>)))"

definition promoted_item :: "string \<Rightarrow> CommandQueueItem \<Rightarrow> CommandQueueItem" where
  "promoted_item now i =
     i\<lparr>qi_priority := NEXT, qi_resolved_semantic := Some QUEUE_NEXT,
       qi_applies_at := Some ''after_source_terminal'',
       qi_reason_code := Some ''terminal_promoted_to_next'',
       qi_handoff_id := opt_or (qi_handoff_id i) (Some (handoff_id (qi_queue_id i))),
       qi_claimed_by := None, qi_claimed_at := None, qi_updated_at := now\<rparr>"

text \<open>The loop over the pending rows; \<open>ts\<close> is the commit time, \<open>stopped\<close> the disjunction the code
  tests, \<open>ph\<close> the phase before the commit.\<close>

fun commit_loop ::
  "clock \<Rightarrow> string \<Rightarrow> bool \<Rightarrow> LiveMessagePhase \<Rightarrow> CommandQueueItem list \<Rightarrow>
   CommandQueueItem list \<times> InMemoryCommandQueueStore \<Rightarrow>
   CommandQueueItem list \<times> InMemoryCommandQueueStore" where
  "commit_loop now ts stopped ph [] (changed, s) = (changed, s)"
| "commit_loop now ts stopped ph (i # is) (changed, s) =
     (if qi_requested_semantic i = Some STOP then
        (if stopped
         then (let (res, s') = mark_applied (now 0) (qi_queue_id i) None (Some ph) s
               in commit_loop (\<lambda>n. now (Suc n)) ts stopped ph is
                    (case res of None \<Rightarrow> changed | Some x \<Rightarrow> changed @ [x], s'))
         else commit_loop now ts stopped ph is (changed, s))
      else if \<not> message_semantic (qi_requested_semantic i)
      then commit_loop now ts stopped ph is (changed, s)
      else if stopped
      then (let (res, s') = mark_failed (now 0) (qi_queue_id i) ''run_stopped'' s
            in commit_loop (\<lambda>n. now (Suc n)) ts stopped ph is
                 (case res of None \<Rightarrow> changed | Some x \<Rightarrow> changed @ [x], s'))
      else if qi_requested_semantic i = Some QUEUE_NEXT
      then commit_loop now ts stopped ph is (changed, s)
      else commit_loop now ts stopped ph is
             (changed @ [promoted_item ts i], put_item (promoted_item ts i) s))"

definition default_run_state :: "string \<Rightarrow> string \<Rightarrow> LiveRunState" where
  "default_run_state now rid =
     \<lparr>rs_run_id = rid, rs_thread_id = None, rs_agent_id = None, rs_phase = UNKNOWN,
      rs_llm_generation = 0, rs_stopped = False, rs_updated_at = now, rs_terminal_at = None\<rparr>"

definition commit_terminal ::
  "clock \<Rightarrow> string \<Rightarrow> bool \<Rightarrow> InMemoryCommandQueueStore \<Rightarrow>
   CommandQueueItem list \<times> InMemoryCommandQueueStore" where
  "commit_terminal now rid stopped s =
     (let prior = (case cs_runs s rid of Some st \<Rightarrow> st | None \<Rightarrow> default_run_state (now 0) rid);
          ts = now 1;
          s1 = put_run rid (prior\<lparr>rs_phase := TERMINAL, rs_stopped := (stopped \<or> rs_stopped prior),
                 rs_terminal_at := opt_or (rs_terminal_at prior) (Some ts), rs_updated_at := ts\<rparr>) s
      in commit_loop (\<lambda>n. now (n + 2)) ts (stopped \<or> rs_stopped prior) (rs_phase prior)
           (list_pending s1 (Some rid) None None) ([], s1))"

definition stop_run ::
  "clock \<Rightarrow> string \<Rightarrow> InMemoryCommandQueueStore \<Rightarrow>
   CommandQueueItem list \<times> InMemoryCommandQueueStore" where
  "stop_run now rid s = commit_terminal now rid True s"

section \<open>Hand-off to the next turn\<close>

definition claim_next_handoff ::
  "string \<Rightarrow> string \<Rightarrow> string \<Rightarrow> InMemoryCommandQueueStore \<Rightarrow>
   CommandQueueItem option \<times> InMemoryCommandQueueStore" where
  "claim_next_handoff now rid claimant s =
     (case cs_runs s rid of
        None \<Rightarrow> (None, s)
      | Some st \<Rightarrow>
          if rs_phase st \<noteq> TERMINAL \<or> rs_stopped st then (None, s)
          else
            (case find (\<lambda>i. qi_resolved_semantic i = Some QUEUE_NEXT
                        \<and> (qi_claimed_by i = None \<or> qi_claimed_by i = Some claimant))
                    (list_pending s (Some rid) None None) of
               None \<Rightarrow> (None, s)
             | Some i \<Rightarrow>
                 if qi_claimed_by i = Some claimant then (Some i, s)
                 else
                   (let claimed = i\<lparr>qi_claimed_by := Some claimant, qi_claimed_at := Some now,
                          qi_updated_at := now,
                          qi_handoff_id :=
                            opt_or (qi_handoff_id i) (Some (handoff_id (qi_queue_id i)))\<rparr>
                    in (Some claimed, put_item claimed s))))"

definition complete_handoff ::
  "string \<Rightarrow> string \<Rightarrow> string \<Rightarrow> string \<Rightarrow> InMemoryCommandQueueStore \<Rightarrow>
   CommandQueueItem option \<times> InMemoryCommandQueueStore" where
  "complete_handoff now q claimant dest s =
     (case cs_items s q of
        None \<Rightarrow> (None, s)
      | Some i \<Rightarrow>
          if qi_status i \<noteq> QUEUED then (Some i, s)
          else if qi_claimed_by i \<noteq> Some claimant then (Some i, s)
          else
            (let updated = i\<lparr>qi_status := APPLIED, qi_destination_turn_id := Some dest,
                   qi_applied_phase := Some TERMINAL, qi_applied_at := Some now,
                   qi_terminal_at := Some now, qi_updated_at := now,
                   qi_reason_code := Some ''next_handoff_completed'',
                   qi_claimed_by := None, qi_claimed_at := None\<rparr>
             in (Some updated, s\<lparr>cs_items := (cs_items s)(q \<mapsto> updated)\<rparr>)))"

section \<open>Quarantine of rows without a schema version\<close>

definition legacy_row :: "CommandQueueItem \<Rightarrow> bool" where
  "legacy_row i =
     (qi_schema_version i = 0 \<and> qi_status i = QUEUED
      \<and> (qi_kind i = ENQUEUE_USER_MESSAGE \<or> qi_kind i = REDIRECT_USER_MESSAGE)
      \<and> qi_priority i = NEXT)"

fun quarantine_loop ::
  "clock \<Rightarrow> string list \<Rightarrow> CommandQueueItem list \<Rightarrow> InMemoryCommandQueueStore \<Rightarrow>
   CommandQueueItem list outcome" where
  "quarantine_loop now [] changed s = (Inr changed, s)"
| "quarantine_loop now (q # qs) changed s =
     (case cs_items s q of
        None \<Rightarrow> (Inl (KeyError q), s)
      | Some i \<Rightarrow>
          if legacy_row i
          then (let (res, s') = mark_failed (now 0) q ''legacy_unresolved'' s
                in quarantine_loop (\<lambda>n. now (Suc n)) qs
                     (case res of None \<Rightarrow> changed | Some x \<Rightarrow> changed @ [x]) s')
          else quarantine_loop now qs changed s)"

definition quarantine_legacy_rows ::
  "clock \<Rightarrow> InMemoryCommandQueueStore \<Rightarrow> CommandQueueItem list outcome" where
  "quarantine_legacy_rows now s = quarantine_loop now (cs_order s) [] s"

section \<open>Operations as values\<close>

text \<open>The calls that may change the store, as the SQLite store dispatches them by name.\<close>

datatype queue_op =
    Enqueue ControlRequest
  | Admit ControlRequest "LiveMessagePhase option"
  | Cancel string
  | Mark_Applied string "string option" "LiveMessagePhase option"
  | Mark_Failed string string
  | Set_Run_Phase string LiveMessagePhase "string option" "string option"
  | Claim_For_Boundary string string LiveMessagePhase
  | Claim_Hard_Redirect string string int
  | Release_Claim string string
  | Commit_Terminal string bool
  | Stop_Run string
  | Cancel_Next string
  | Claim_Next_Handoff string string
  | Complete_Handoff string string string
  | Quarantine_Legacy_Rows

datatype queue_result =
    Row CommandQueueItem
  | Maybe_Row "CommandQueueItem option"
  | Rows "CommandQueueItem list"
  | Run_State LiveRunState

record call_env =
  ce_uid :: string
  ce_now :: clock

definition returning :: "('a \<Rightarrow> queue_result) \<Rightarrow> 'a \<times> InMemoryCommandQueueStore \<Rightarrow> queue_result outcome"
  where "returning f p = (Inr (f (fst p)), snd p)"

definition raising :: "('a \<Rightarrow> queue_result) \<Rightarrow> 'a outcome \<Rightarrow> queue_result outcome"
  where "raising f p = (case fst p of Inl e \<Rightarrow> Inl e | Inr x \<Rightarrow> Inr (f x), snd p)"

fun exec_op ::
  "(string \<Rightarrow> string) \<Rightarrow> call_env \<Rightarrow> queue_op \<Rightarrow> InMemoryCommandQueueStore \<Rightarrow>
   queue_result outcome" where
  "exec_op sha e (Enqueue r) s = raising Row (enqueue sha (ce_uid e) (ce_now e) r s)"
| "exec_op sha e (Admit r ph) s = raising Row (admit sha (ce_uid e) (ce_now e) r ph s)"
| "exec_op sha e (Cancel q) s = returning Maybe_Row (cancel (ce_now e 0) q s)"
| "exec_op sha e (Mark_Applied q c ph) s = returning Maybe_Row (mark_applied (ce_now e 0) q c ph s)"
| "exec_op sha e (Mark_Failed q er) s = returning Maybe_Row (mark_failed (ce_now e 0) q er s)"
| "exec_op sha e (Set_Run_Phase r ph t a) s =
     returning Run_State (set_run_phase (ce_now e 0) r ph t a s)"
| "exec_op sha e (Claim_For_Boundary r c ph) s =
     returning Maybe_Row (claim_for_boundary (ce_now e 0) r c s)"
| "exec_op sha e (Claim_Hard_Redirect r c g) s =
     returning Maybe_Row (claim_hard_redirect (ce_now e 0) r c g s)"
| "exec_op sha e (Release_Claim q c) s = returning Maybe_Row (release_claim (ce_now e 0) q c s)"
| "exec_op sha e (Commit_Terminal r b) s = returning Rows (commit_terminal (ce_now e) r b s)"
| "exec_op sha e (Stop_Run r) s = returning Rows (stop_run (ce_now e) r s)"
| "exec_op sha e (Cancel_Next q) s = returning Maybe_Row (cancel_next (ce_now e 0) q s)"
| "exec_op sha e (Claim_Next_Handoff r c) s =
     returning Maybe_Row (claim_next_handoff (ce_now e 0) r c s)"
| "exec_op sha e (Complete_Handoff q c d) s =
     returning Maybe_Row (complete_handoff (ce_now e 0) q c d s)"
| "exec_op sha e Quarantine_Legacy_Rows s =
     raising Rows (quarantine_legacy_rows (ce_now e) s)"

end
