(* ===== verification/Queue_Laws.thy ===== *)
theory Queue_Laws
  imports Command_Queue
begin

text \<open>
  The laws of the command queue. The life of one row is the labelled step relation \<open>row_step\<close>; a
  store changes by \<open>store_path\<close>, a sequence of row steps, run-state steps and insertions. Every
  operation is shown once to follow such a path with the row actions it is allowed to take
  (\<open>op_acts\<close>); the invariant \<open>store_ok\<close>, the append-only order \<open>store_evolves\<close>, the frozen closed
  rows and the ownership of claims are then rule inductions over paths.
\<close>

section \<open>The life of a row and of a run\<close>

datatype row_act =
    Apply_Act
  | Fail_Act
  | Cancel_Act
  | Claim_Act string
  | Release_Act string
  | Promote_Act
  | Complete_Act string

inductive row_step :: "row_act \<Rightarrow> CommandQueueItem \<Rightarrow> CommandQueueItem \<Rightarrow> bool" where
  applied [step_intros]: "qi_status i = QUEUED \<Longrightarrow> 
     rs = qi_resolved_semantic i
       \<or> qi_requested_semantic i = Some REDIRECT_CURRENT \<and> rs = Some STEER_CURRENT \<Longrightarrow>
     row_step Apply_Act i
       (i\<lparr>qi_status := APPLIED, qi_updated_at := t, qi_applied_at := Some t,
          qi_terminal_at := Some t, qi_applied_phase := ph, qi_resolved_semantic := rs,
          qi_reason_code := Some rc, qi_claimed_by := None, qi_claimed_at := None\<rparr>)"
| failed [step_intros]: "qi_status i = QUEUED \<Longrightarrow>
     row_step Fail_Act i
       (i\<lparr>qi_status := FAILED, qi_updated_at := t, qi_failed_at := Some t,
          qi_terminal_at := Some t, qi_error := Some er, qi_reason_code := Some er,
          qi_claimed_by := None, qi_claimed_at := None\<rparr>)"
| cancel [step_intros]: "qi_status i = QUEUED \<Longrightarrow> qi_claimed_by i = None \<Longrightarrow>
     row_step Cancel_Act i
       (i\<lparr>qi_status := CANCELLED, qi_updated_at := t, qi_cancelled_at := Some t,
          qi_terminal_at := Some t, qi_reason_code := Some rc\<rparr>)"
| claim [step_intros]: "qi_status i = QUEUED \<Longrightarrow> qi_claimed_by i = None \<Longrightarrow>
     row_step (Claim_Act c) i
       (i\<lparr>qi_claimed_by := Some c, qi_claimed_at := Some t, qi_updated_at := t\<rparr>)"
| redirect [step_intros]: "qi_status i = QUEUED \<Longrightarrow> qi_claimed_by i = None \<Longrightarrow>
     qi_requested_semantic i = Some REDIRECT_CURRENT \<Longrightarrow>
     row_step (Claim_Act c) i
       (i\<lparr>qi_claimed_by := Some c, qi_claimed_at := Some t, qi_updated_at := t,
          qi_applied_phase := Some LLM_IN_FLIGHT, qi_resolved_semantic := Some REDIRECT_CURRENT,
          qi_reason_code := Some rc, qi_superseded_generation := Some g, qi_llm_generation := g'\<rparr>)"
| handoff [step_intros]: "qi_status i = QUEUED \<Longrightarrow> qi_claimed_by i = None \<Longrightarrow>
     qi_resolved_semantic i = Some QUEUE_NEXT \<Longrightarrow>
     row_step (Claim_Act c) i
       (i\<lparr>qi_claimed_by := Some c, qi_claimed_at := Some t, qi_updated_at := t,
          qi_handoff_id := opt_or (qi_handoff_id i) (Some (handoff_id (qi_queue_id i)))\<rparr>)"
| release [step_intros]: "qi_status i = QUEUED \<Longrightarrow> qi_claimed_by i = Some c \<Longrightarrow>
     row_step (Release_Act c) i
       (i\<lparr>qi_claimed_by := None, qi_claimed_at := None, qi_updated_at := t\<rparr>)"
| promote [step_intros]: "qi_status i = QUEUED \<Longrightarrow> message_semantic (qi_requested_semantic i) \<Longrightarrow>
     row_step Promote_Act i (promoted_item t i)"
| complete [step_intros]: "qi_status i = QUEUED \<Longrightarrow> qi_claimed_by i = Some c \<Longrightarrow>
     row_step (Complete_Act c) i
       (i\<lparr>qi_status := APPLIED, qi_destination_turn_id := Some d,
          qi_applied_phase := Some TERMINAL, qi_applied_at := Some t,
          qi_terminal_at := Some t, qi_updated_at := t, qi_reason_code := Some rc,
          qi_claimed_by := None, qi_claimed_at := None\<rparr>)"

inductive_cases row_stepE: "row_step a i j"

text \<open>A run state may appear, or change while its phase is not terminal; the stop flag and the
  generation never go back. A terminal run keeps its phase.\<close>

definition run_step :: "LiveRunState option \<Rightarrow> LiveRunState \<Rightarrow> bool" where
  "run_step old st =
     (case old of
        None \<Rightarrow> 0 \<le> rs_llm_generation st
      | Some st0 \<Rightarrow> (rs_phase st0 = TERMINAL \<longrightarrow> rs_phase st = TERMINAL)
          \<and> (rs_stopped st0 \<longrightarrow> rs_stopped st) \<and> rs_llm_generation st0 \<le> rs_llm_generation st)"

section \<open>Invariant and evolution\<close>

text \<open>What a row never changes.\<close>

definition row_key where
  "row_key i =
     ((qi_queue_id i, qi_control_id i, qi_schema_version i, qi_sequence i, qi_kind i),
      (qi_run_id i, qi_thread_id i, qi_agent_id i, qi_payload i, qi_source i, qi_dedupe_key i),
      (qi_created_at i, qi_accepted_at i, qi_requested_semantic i, qi_accepted_phase i),
      (qi_content_sha256 i, qi_request_sha256 i, qi_source_generation i, qi_metadata i))"

definition row_evolves :: "CommandQueueItem \<Rightarrow> CommandQueueItem \<Rightarrow> bool" where
  "row_evolves i j = (row_key j = row_key i \<and> (qi_status i \<noteq> QUEUED \<longrightarrow> j = i))"

definition run_evolves :: "LiveRunState \<Rightarrow> LiveRunState \<Rightarrow> bool" where
  "run_evolves a b =
     ((rs_phase a = TERMINAL \<longrightarrow> rs_phase b = TERMINAL) \<and> (rs_stopped a \<longrightarrow> rs_stopped b)
      \<and> rs_llm_generation a \<le> rs_llm_generation b)"

definition store_evolves :: "InMemoryCommandQueueStore \<Rightarrow> InMemoryCommandQueueStore \<Rightarrow> bool" where
  "store_evolves s s' =
     (prefix (cs_order s) (cs_order s')
      \<and> (\<forall>q i. cs_items s q = Some i \<longrightarrow> (\<exists>j. cs_items s' q = Some j \<and> row_evolves i j))
      \<and> (\<forall>r a. cs_runs s r = Some a \<longrightarrow> (\<exists>b. cs_runs s' r = Some b \<and> run_evolves a b)))"

definition row_ok :: "CommandQueueItem \<Rightarrow> bool" where
  "row_ok i =
     (qi_schema_version i = 1
      \<and> (qi_status i = QUEUED \<longleftrightarrow> qi_terminal_at i = None)
      \<and> (qi_status i = APPLIED \<longleftrightarrow> qi_applied_at i \<noteq> None)
      \<and> (qi_status i = CANCELLED \<longleftrightarrow> qi_cancelled_at i \<noteq> None)
      \<and> (qi_status i = FAILED \<longleftrightarrow> qi_failed_at i \<noteq> None)
      \<and> (qi_status i = FAILED \<longleftrightarrow> qi_error i \<noteq> None)
      \<and> (qi_claimed_by i = None \<longleftrightarrow> qi_claimed_at i = None)
      \<and> (qi_claimed_by i \<noteq> None \<longrightarrow> qi_status i = QUEUED)
      \<and> (qi_handoff_id i = None \<or> qi_handoff_id i = Some (handoff_id (qi_queue_id i)))
      \<and> (qi_resolved_semantic i = Some QUEUE_NEXT \<longrightarrow> qi_handoff_id i \<noteq> None)
      \<and> (qi_requested_semantic i = Some QUEUE_NEXT \<longrightarrow> qi_resolved_semantic i = Some QUEUE_NEXT))"

definition store_ok :: "InMemoryCommandQueueStore \<Rightarrow> bool" where
  "store_ok s =
     (distinct (cs_order s) \<and> set (cs_order s) = dom (cs_items s)
      \<and> (\<forall>n < length (cs_order s). \<exists>i. cs_items s (cs_order s ! n) = Some i
            \<and> qi_queue_id i = cs_order s ! n \<and> qi_sequence i = int n + 1 \<and> row_ok i)
      \<and> (\<forall>r st. cs_runs s r = Some st \<longrightarrow> rs_run_id st = r \<and> 0 \<le> rs_llm_generation st))"

section \<open>Paths of a store\<close>

inductive store_path ::
  "(string \<Rightarrow> row_act \<Rightarrow> bool) \<Rightarrow> InMemoryCommandQueueStore \<Rightarrow> InMemoryCommandQueueStore \<Rightarrow> bool"
  for A where
  start: "store_path A s s"
| row: "store_path A s s' \<Longrightarrow> cs_items s' q = Some i \<Longrightarrow> row_step a i j \<Longrightarrow> A q a \<Longrightarrow>
     store_path A s (s'\<lparr>cs_items := (cs_items s')(q \<mapsto> j)\<rparr>)"
| run: "store_path A s s' \<Longrightarrow> run_step (cs_runs s' r) st \<Longrightarrow> rs_run_id st = r \<Longrightarrow>
     store_path A s (put_run r st s')"
| new: "store_path A s s' \<Longrightarrow> q \<notin> set (cs_order s') \<Longrightarrow> qi_queue_id i = q \<Longrightarrow>
     qi_sequence i = int (length (cs_order s')) + 1 \<Longrightarrow> row_ok i \<Longrightarrow>
     store_path A s (s'\<lparr>cs_items := (cs_items s')(q \<mapsto> i), cs_order := cs_order s' @ [q]\<rparr>)"

lemma store_path_trans: "store_path A s1 s2 \<Longrightarrow> store_path A s s1 \<Longrightarrow> store_path A s s2"
  by (induction rule: store_path.induct) (auto intro: store_path.intros)

lemma store_path_mono:
  "store_path A s s' \<Longrightarrow> (\<And>q a. A q a \<Longrightarrow> B q a) \<Longrightarrow> store_path B s s'"
  by (induction rule: store_path.induct) (auto intro: store_path.intros)

lemma row_step_key: "row_step a i j \<Longrightarrow> row_key j = row_key i"
  by (erule row_step.cases) (simp_all add: row_key_def promoted_item_def)

lemma row_step_queued: "row_step a i j \<Longrightarrow> qi_status i = QUEUED"
  by (erule row_step.cases) simp_all

lemma row_step_id: "row_step a i j \<Longrightarrow> qi_queue_id j = qi_queue_id i \<and> qi_sequence j = qi_sequence i"
  using row_step_key [of a i j] by (simp add: row_key_def)

lemma opt_or_handoff:
  "x = None \<or> x = Some (handoff_id q) \<Longrightarrow> opt_or x (Some (handoff_id q)) = Some (handoff_id q)"
  by (auto simp: opt_or_def)

lemma row_step_ok: "row_step a i j \<Longrightarrow> row_ok i \<Longrightarrow> row_ok j"
  by (erule row_step.cases) (auto simp: row_ok_def promoted_item_def opt_or_handoff)

lemma row_evolves_refl [simp]: "row_evolves i i"
  by (simp add: row_evolves_def)

lemma row_evolves_trans: "row_evolves i j \<Longrightarrow> row_evolves j k \<Longrightarrow> row_evolves i k"
  by (auto simp: row_evolves_def)

lemma row_step_evolves: "row_step a i j \<Longrightarrow> row_evolves i j"
  using row_step_key row_step_queued by (auto simp: row_evolves_def)

lemma run_evolves_refl [simp]: "run_evolves a a"
  by (simp add: run_evolves_def)

lemma run_evolves_trans: "run_evolves a b \<Longrightarrow> run_evolves b c \<Longrightarrow> run_evolves a c"
  by (auto simp: run_evolves_def)

lemma store_evolves_refl [simp]: "store_evolves s s"
  by (simp add: store_evolves_def)

lemma store_evolves_trans:
  "store_evolves s s1 \<Longrightarrow> store_evolves s1 s2 \<Longrightarrow> store_evolves s s2"
  unfolding store_evolves_def
  by (meson prefix_order.trans row_evolves_trans run_evolves_trans)

lemma store_ok_item:
  assumes "store_ok s" "cs_items s q = Some i"
  shows "qi_queue_id i = q \<and> row_ok i \<and> q \<in> set (cs_order s)"
proof -
  from assms have "q \<in> set (cs_order s)" by (auto simp: store_ok_def)
  then obtain n where "n < length (cs_order s)" "cs_order s ! n = q"
    by (auto simp: in_set_conv_nth)
  with assms show ?thesis by (fastforce simp: store_ok_def)
qed

lemma store_ok_row:
  assumes ok: "store_ok s" and i: "cs_items s q = Some i" and r: "row_step a i j"
  shows "store_ok (s\<lparr>cs_items := (cs_items s)(q \<mapsto> j)\<rparr>)"
proof -
  have "row_ok j" using row_step_ok [OF r] store_ok_item [OF ok i] by blast
  moreover have "qi_queue_id j = qi_queue_id i \<and> qi_sequence j = qi_sequence i"
    by (rule row_step_id [OF r])
  ultimately show ?thesis
    using ok i by (fastforce simp: store_ok_def)
qed

lemma store_ok_new:
  assumes "store_ok s" "q \<notin> set (cs_order s)" "qi_queue_id i = q"
    "qi_sequence i = int (length (cs_order s)) + 1" "row_ok i"
  shows "store_ok (s\<lparr>cs_items := (cs_items s)(q \<mapsto> i), cs_order := cs_order s @ [q]\<rparr>)"
  using assms by (auto simp: store_ok_def nth_append less_Suc_eq)

lemma store_ok_run:
  "store_ok s \<Longrightarrow> run_step (cs_runs s r) st \<Longrightarrow> rs_run_id st = r \<Longrightarrow> store_ok (put_run r st s)"
  by (auto simp: store_ok_def put_run_def run_step_def split: option.splits; fastforce)

lemma store_path_ok: "store_path A s s' \<Longrightarrow> store_ok s \<Longrightarrow> store_ok s'"
  by (induction rule: store_path.induct) (auto intro: store_ok_row store_ok_new store_ok_run)

lemma store_path_evolves: "store_path A s s' \<Longrightarrow> store_ok s \<Longrightarrow> store_evolves s s'"
proof (induction rule: store_path.induct)
  case (row s s' q i a j)
  have "store_evolves s' (s'\<lparr>cs_items := (cs_items s')(q \<mapsto> j)\<rparr>)"
    using row.hyps row_step_evolves by (auto simp: store_evolves_def)
  with row show ?case using store_evolves_trans by blast
next
  case (run s s' r st)
  have "store_evolves s' (put_run r st s')"
    using run.hyps by (auto simp: store_evolves_def put_run_def run_step_def run_evolves_def)
  with run show ?case using store_evolves_trans by blast
next
  case (new s s' q i)
  have "cs_items s' q = None"
    using store_path_ok [OF new.hyps(1) new.prems] new.hyps(2) by (auto simp: store_ok_def)
  then have "store_evolves s' (s'\<lparr>cs_items := (cs_items s')(q \<mapsto> i), cs_order := cs_order s' @ [q]\<rparr>)"
    by (auto simp: store_evolves_def)
  with new show ?case using store_evolves_trans by blast
qed simp

section \<open>The pending rows\<close>

lemma set_map_filter_ex: "set (List.map_filter f xs) = {y. \<exists>x \<in> set xs. f x = Some y}"
  by (induction xs) (auto simp: map_filter_simps split: option.splits)

lemma indexed_items_iff:
  "(n, i) \<in> set (indexed_items s) \<longleftrightarrow> n < length (cs_order s) \<and> cs_items s (cs_order s ! n) = Some i"
  by (simp add: indexed_items_def set_map_filter_ex in_set_enumerate_eq Bex_def conj_commute)

lemma indexed_items_ex:
  "(\<exists>n. (n, i) \<in> set (indexed_items s)) \<longleftrightarrow> (\<exists>q \<in> set (cs_order s). cs_items s q = Some i)"
  unfolding indexed_items_iff by (metis in_set_conv_nth)

lemma set_list_pending:
  "i \<in> set (list_pending s rid tid aid) \<longleftrightarrow>
   (\<exists>q \<in> set (cs_order s). cs_items s q = Some i \<and> qi_status i = QUEUED \<and> matches_route rid tid aid i)"
  using indexed_items_ex [of i s] by (auto simp: list_pending_def image_iff Bex_def)

lemma list_pending_item:
  assumes "store_ok s" "i \<in> set (list_pending s rid tid aid)"
  shows "cs_items s (qi_queue_id i) = Some i \<and> qi_status i = QUEUED \<and> row_ok i
    \<and> matches_route rid tid aid i"
  using assms store_ok_item by (fastforce simp: set_list_pending)

lemma pending_iff:
  assumes "store_ok s"
  shows "i \<in> set (list_pending s rid tid aid) \<longleftrightarrow>
    cs_items s (qi_queue_id i) = Some i \<and> qi_status i = QUEUED \<and> matches_route rid tid aid i"
  using list_pending_item [OF assms] store_ok_item [OF assms, of "qi_queue_id i" i]
  unfolding set_list_pending by blast

lemma distinct_indices: "distinct (map fst (indexed_items s))"
proof -
  have "distinct (map fst (List.map_filter (\<lambda>(n, q). map_option (Pair n) (m q)) (enumerate k xs)))"
    for m :: "string \<rightharpoonup> CommandQueueItem" and k xs
  proof (induction xs arbitrary: k)
    case (Cons x xs)
    have "k \<notin> fst ` set (List.map_filter (\<lambda>(n, q). map_option (Pair n) (m q)) (enumerate (Suc k) xs))"
      by (auto simp: set_map_filter_ex in_set_enumerate_eq)
    with Cons show ?case by (auto simp: map_filter_simps split: option.splits)
  qed (simp add: map_filter_simps)
  then show ?thesis by (simp add: indexed_items_def)
qed

lemma distinct_sort_by: "distinct (map f xs) \<Longrightarrow> distinct (map f (sort_key k xs))"
  by (auto simp: distinct_map)

lemma distinct_indexed_ids:
  assumes "store_ok s"
  shows "distinct (map (\<lambda>p. qi_queue_id (snd p)) (indexed_items s))"
proof -
  have "inj_on (\<lambda>p. qi_queue_id (snd p)) (set (indexed_items s))"
  proof (rule inj_onI)
    fix x y
    assume mem: "x \<in> set (indexed_items s)" "y \<in> set (indexed_items s)"
      and eq: "qi_queue_id (snd x) = qi_queue_id (snd y)"
    obtain n i m j where "x = (n, i)" "y = (m, j)" by (cases x; cases y)
    with mem have xy: "x = (n, i)" "y = (m, j)" "n < length (cs_order s)"
      "m < length (cs_order s)" "cs_items s (cs_order s ! n) = Some i"
      "cs_items s (cs_order s ! m) = Some j"
      by (simp_all add: indexed_items_iff)
    with eq store_ok_item [OF assms] have "cs_order s ! n = cs_order s ! m"
      by (metis snd_conv)
    moreover have "distinct (cs_order s)" using assms by (simp add: store_ok_def)
    ultimately show "x = y" using xy by (simp add: nth_eq_iff_index_eq)
  qed
  with distinct_indices show ?thesis by (simp add: distinct_map)
qed

lemma distinct_pending:
  assumes "store_ok s"
  shows "distinct (map qi_queue_id (list_pending s rid tid aid))"
proof -
  have "distinct (map (\<lambda>p. qi_queue_id (snd p))
      (filter (\<lambda>(n, i). qi_status i = QUEUED \<and> matches_route rid tid aid i) (indexed_items s)))"
    by (rule distinct_map_filter [OF distinct_indexed_ids [OF assms]])
  then have "distinct (map (\<lambda>p. qi_queue_id (snd p)) (sort_key (\<lambda>(n, i). (dispatch_order i, n))
      (filter (\<lambda>(n, i). qi_status i = QUEUED \<and> matches_route rid tid aid i) (indexed_items s))))"
    by (rule distinct_sort_by)
  then show ?thesis by (simp add: list_pending_def comp_def)
qed

lemma indexed_sequence:
  "store_ok s \<Longrightarrow> (n, i) \<in> set (indexed_items s) \<Longrightarrow> qi_sequence i = int n + 1"
  by (fastforce simp: indexed_items_iff store_ok_def)

lemma sorted_wrt_keyed:
  fixes k :: "'a \<Rightarrow> 'b :: linorder"
  assumes "distinct (map k xs)"
  shows "sorted_wrt (\<lambda>x y. k x < k y) (sort_key k xs)"
proof -
  have "distinct (map k (sort_key k xs))" by (rule distinct_sort_by [OF assms])
  then have "sorted_wrt (<) (map k (sort_key k xs))"
    by (simp add: strict_sorted_iff)
  then show ?thesis by (simp add: sorted_wrt_map)
qed

lemma list_pending_sorted:
  assumes ok: "store_ok s"
  shows "sorted_wrt (\<lambda>i j. (dispatch_order i, qi_sequence i) < (dispatch_order j, qi_sequence j))
    (list_pending s rid tid aid)"
proof -
  let ?f = "filter (\<lambda>(n, i). qi_status i = QUEUED \<and> matches_route rid tid aid i) (indexed_items s)"
  let ?k = "\<lambda>(n, i). (dispatch_order i, n)"
  have "distinct (map fst ?f)" by (rule distinct_map_filter [OF distinct_indices])
  then have "distinct (map ?k ?f)"
    by (auto simp: distinct_map inj_on_def)
  then have "sorted_wrt (\<lambda>x y. ?k x < ?k y) (sort_key ?k ?f)" by (rule sorted_wrt_keyed)
  then have "sorted_wrt (\<lambda>x y. (dispatch_order (snd x), qi_sequence (snd x))
      < (dispatch_order (snd y), qi_sequence (snd y))) (sort_key ?k ?f)"
    by (rule sorted_wrt_mono_rel [rotated])
      (auto simp: less_prod_def less_eq_prod_def indexed_sequence [OF ok] split: prod.splits)
  then show ?thesis by (simp add: list_pending_def sorted_wrt_map)
qed

lemma pending_set:
  assumes "store_ok s"
  shows "set (list_pending s rid tid aid)
    = {i \<in> ran (cs_items s). qi_status i = QUEUED \<and> matches_route rid tid aid i}"
  using store_ok_item [OF assms] unfolding set_eq_iff set_list_pending ran_def by blast

section \<open>Every operation follows a path\<close>

fun op_acts :: "queue_op \<Rightarrow> string \<Rightarrow> row_act \<Rightarrow> bool" where
  "op_acts (Enqueue r) q a = (a = Fail_Act)"
| "op_acts (Admit r ph) q a = (a = Fail_Act)"
| "op_acts (Cancel q') q a = (q = q' \<and> a = Cancel_Act)"
| "op_acts (Mark_Applied q' c ph) q a = (q = q' \<and> a = Apply_Act)"
| "op_acts (Mark_Failed q' er) q a = (q = q' \<and> a = Fail_Act)"
| "op_acts (Set_Run_Phase r ph t ag) q a = False"
| "op_acts (Claim_For_Boundary r c ph) q a = (a = Claim_Act c)"
| "op_acts (Claim_Hard_Redirect r c g) q a = (a = Claim_Act c)"
| "op_acts (Release_Claim q' c) q a = (q = q' \<and> a = Release_Act c)"
| "op_acts (Commit_Terminal r b) q a = (a = Apply_Act \<or> a = Fail_Act \<or> a = Promote_Act)"
| "op_acts (Stop_Run r) q a = (a = Apply_Act \<or> a = Fail_Act \<or> a = Promote_Act)"
| "op_acts (Cancel_Next q') q a = (q = q' \<and> a = Cancel_Act)"
| "op_acts (Claim_Next_Handoff r c) q a = (a = Claim_Act c)"
| "op_acts (Complete_Handoff q' c d) q a = (q = q' \<and> a = Complete_Act c)"
| "op_acts Quarantine_Legacy_Rows q a = (a = Fail_Act)"

lemma store_path_row1:
  "cs_items s q = Some i \<Longrightarrow> row_step a i j \<Longrightarrow> A q a \<Longrightarrow>
   store_path A s (s\<lparr>cs_items := (cs_items s)(q \<mapsto> j)\<rparr>)"
  by (rule store_path.row [OF store_path.start])

lemma row_step_applied_same:
  "qi_status i = QUEUED \<Longrightarrow>
   row_step Apply_Act i
     (i\<lparr>qi_status := APPLIED, qi_updated_at := t, qi_applied_at := Some t, qi_terminal_at := Some t,
        qi_applied_phase := ph, qi_reason_code := Some rc, qi_claimed_by := None,
        qi_claimed_at := None\<rparr>)"
  using row_step.applied [of i "qi_resolved_semantic i" rc ph t] by simp

lemma mark_applied_path: "A q Apply_Act \<Longrightarrow> store_path A s (snd (mark_applied now q c ph s))"
  by (auto simp: mark_applied_def Let_def split: option.splits
      intro!: store_path.start store_path_row1 row_step_applied_same step_intros)

lemma mark_failed_path: "A q Fail_Act \<Longrightarrow> store_path A s (snd (mark_failed now q er s))"
  by (auto simp: mark_failed_def Let_def split: option.splits
      intro!: store_path.start store_path_row1 step_intros)

lemma cancel_unlocked_path: "A q Cancel_Act \<Longrightarrow> store_path A s (snd (cancel_unlocked now q rc s))"
  by (auto simp: cancel_unlocked_def Let_def split: option.splits
      intro!: store_path.start store_path_row1 step_intros)

lemma cancel_next_path: "A q Cancel_Act \<Longrightarrow> store_path A s (snd (cancel_next now q s))"
  by (auto simp: cancel_next_def split: option.splits
      intro: store_path.start cancel_unlocked_path)

lemma cancel_path: "A q Cancel_Act \<Longrightarrow> store_path A s (snd (cancel now q s))"
  by (auto simp: cancel_def split: option.splits intro: cancel_next_path cancel_unlocked_path)

lemma release_claim_path: "A q (Release_Act c) \<Longrightarrow> store_path A s (snd (release_claim now q c s))"
  by (auto simp: release_claim_def Let_def split: option.splits
      intro!: store_path.start store_path_row1 step_intros)

lemma complete_handoff_path:
  "A q (Complete_Act c) \<Longrightarrow> store_path A s (snd (complete_handoff now q c d s))"
  by (auto simp: complete_handoff_def Let_def split: option.splits
      intro!: store_path.start store_path_row1 step_intros)

lemma put_item_path:
  "cs_items s (qi_queue_id j) = Some i \<Longrightarrow> row_step a i j \<Longrightarrow> A (qi_queue_id j) a \<Longrightarrow>
   store_path A s (put_item j s)"
  unfolding put_item_def by (rule store_path_row1)

lemma claim_for_boundary_path:
  assumes "store_ok s" "\<And>q. A q (Claim_Act c)"
  shows "store_path A s (snd (claim_for_boundary now rid c s))"
  using assms list_pending_item [OF assms(1)]
  by (auto simp: claim_for_boundary_def Let_def boundary_eligible_def
      split: option.splits dest!: find_Some_mem
      intro!: store_path.start put_item_path step_intros)

lemma claim_next_handoff_path:
  assumes "store_ok s" "\<And>q. A q (Claim_Act c)"
  shows "store_path A s (snd (claim_next_handoff now rid c s))"
  using assms list_pending_item [OF assms(1)]
  by (auto simp: claim_next_handoff_def Let_def
      split: option.splits dest!: find_Some_mem
      intro!: store_path.start put_item_path step_intros)

lemma set_run_phase_path: "store_path A s (snd (set_run_phase now rid ph t ag s))"
  by (auto simp: set_run_phase_def Let_def run_step_def split: option.splits
      intro!: store_path.start store_path.run)

lemma claim_hard_redirect_path:
  assumes "store_ok s" "\<And>q. A q (Claim_Act c)"
  shows "store_path A s (snd (claim_hard_redirect now rid c g s))"
proof (cases "snd (claim_hard_redirect now rid c g s) = s")
  case True
  then show ?thesis by (simp add: store_path.start)
next
  case False
  then obtain st i where st: "cs_runs s rid = Some st"
    and i: "find (\<lambda>i. qi_requested_semantic i = Some REDIRECT_CURRENT \<and> qi_claimed_by i = None)
            (list_pending s (Some rid) None None) = Some i"
    by (auto simp: claim_hard_redirect_def Let_def split: option.splits if_splits)
  have st_ok: "rs_run_id st = rid" using assms(1) st by (auto simp: store_ok_def)
  from find_Some_mem [OF i] list_pending_item [OF assms(1)]
  have item: "cs_items s (qi_queue_id i) = Some i" "qi_status i = QUEUED" "qi_claimed_by i = None"
    "qi_requested_semantic i = Some REDIRECT_CURRENT" by auto
  have "store_path A s (put_run rid (st\<lparr>rs_llm_generation := rs_llm_generation st + 1,
      rs_updated_at := now\<rparr>) s)" (is "store_path A s ?s1")
    using st st_ok by (auto intro!: store_path.run store_path.start simp: run_step_def)
  moreover have "store_path A ?s1 (snd (claim_hard_redirect now rid c g s))"
    using False st i item assms(2)
    by (auto simp: claim_hard_redirect_def Let_def put_run_def split: if_splits
        intro!: put_item_path step_intros)
  ultimately show ?thesis by (rule store_path_trans [rotated])
qed

lemma stop_pending_path:
  "(\<And>q. A q Fail_Act) \<Longrightarrow> store_path A s (stop_pending now self ps s)"
proof (induction ps arbitrary: now s)
  case (Cons p ps)
  have "store_path A s (stop_pending now' self ps (snd (mark_failed t q er s)))" for now' t q er
    by (rule store_path_trans [OF Cons.IH mark_failed_path]) (rule Cons.prems)+
  then show ?case using Cons.IH [OF Cons.prems] by simp
qed (simp add: store_path.start)

lemma quarantine_loop_path:
  "(\<And>q. A q Fail_Act) \<Longrightarrow> store_path A s (snd (quarantine_loop now qs changed s))"
proof (induction qs arbitrary: now changed s)
  case (Cons q qs)
  have "store_path A s (snd (quarantine_loop now' qs ch (snd (mark_failed t p er s))))"
    for now' ch t p er
    by (rule store_path_trans [OF Cons.IH mark_failed_path]) (rule Cons.prems)+
  then show ?case using Cons.IH [OF Cons.prems]
    by (simp add: store_path.start split_beta split: option.splits)
qed (simp add: store_path.start)

lemma mark_applied_other: "p \<noteq> q \<Longrightarrow> cs_items (snd (mark_applied now q c ph s)) p = cs_items s p"
  by (simp add: mark_applied_def Let_def split: option.splits)

lemma mark_failed_other: "p \<noteq> q \<Longrightarrow> cs_items (snd (mark_failed now q er s)) p = cs_items s p"
  by (simp add: mark_failed_def Let_def split: option.splits)

lemma put_item_other: "p \<noteq> qi_queue_id i \<Longrightarrow> cs_items (put_item i s) p = cs_items s p"
  by (simp add: put_item_def)

lemma promoted_item_id [simp]: "qi_queue_id (promoted_item t i) = qi_queue_id i"
  by (simp add: promoted_item_def)

lemmas other_rows = mark_applied_other mark_failed_other put_item_other

text \<open>The rows a loop still has to visit are stored unchanged.\<close>

definition unvisited :: "CommandQueueItem list \<Rightarrow> InMemoryCommandQueueStore \<Rightarrow> bool" where
  "unvisited is s \<longleftrightarrow> distinct (map qi_queue_id is)
     \<and> (\<forall>i \<in> set is. cs_items s (qi_queue_id i) = Some i \<and> qi_status i = QUEUED)"

lemma unvisited_pending: "store_ok s \<Longrightarrow> unvisited (list_pending s rid tid aid) s"
  using list_pending_item distinct_pending by (auto simp: unvisited_def)

lemma unvisited_tl:
  "unvisited (i # is) s \<Longrightarrow> (\<And>p. p \<noteq> qi_queue_id i \<Longrightarrow> cs_items s' p = cs_items s p) \<Longrightarrow> unvisited is s'"
  by (auto simp: unvisited_def) (metis image_eqI)

lemma unvisited_hd: "unvisited (i # is) s \<Longrightarrow> cs_items s (qi_queue_id i) = Some i \<and> qi_status i = QUEUED"
  by (simp add: unvisited_def)

lemma commit_loop_path:
  assumes "\<And>q. A q Apply_Act" "\<And>q. A q Fail_Act" "\<And>q. A q Promote_Act"
  shows "unvisited is s \<Longrightarrow> store_path A s (snd (commit_loop now ts stopped ph is (changed, s)))"
proof (induction "is" arbitrary: now changed s stopped)
  case (Cons i "is")
  have here: "cs_items s (qi_queue_id i) = Some i" "qi_status i = QUEUED"
    using unvisited_hd [OF Cons.prems] by auto
  have rest: "store_path A s (snd (commit_loop now' ts b ph is (changed', s')))"
    if "store_path A s s'" "\<And>p. p \<noteq> qi_queue_id i \<Longrightarrow> cs_items s' p = cs_items s p" for now' b changed' s'
    using store_path_trans [OF Cons.IH that(1)] unvisited_tl [OF Cons.prems that(2)] by blast
  have promoted: "store_path A s (put_item (promoted_item ts i) s)"
    if "message_semantic (qi_requested_semantic i)"
    using that here assms(3) by (auto intro!: put_item_path step_intros)
  show ?case
    using assms(1,2) promoted
    by (auto simp: split_beta other_rows
        intro!: rest mark_applied_path mark_failed_path store_path.start)
qed (simp add: store_path.start)

lemma commit_terminal_path:
  assumes ok: "store_ok s" and A: "\<And>q. A q Apply_Act" "\<And>q. A q Fail_Act" "\<And>q. A q Promote_Act"
  shows "store_path A s (snd (commit_terminal now rid stopped s))"
proof -
  have run: "store_path A s (put_run rid st s)"
    if "rs_run_id st = rid" "run_step (cs_runs s rid) st" for st
    using that by (blast intro: store_path.run store_path.start)
  have loop: "store_path A s (snd (commit_loop now' ts b ph (list_pending s1 (Some rid) None None) ([], s1)))"
    if "store_path A s s1" for now' ts b ph s1
    using store_path_trans [OF commit_loop_path [OF A unvisited_pending] that]
      store_path_ok [OF that ok] by blast
  show ?thesis
    using ok unfolding commit_terminal_def Let_def
    by (intro loop run)
      (auto simp: store_ok_def run_step_def default_run_state_def split: option.splits)
qed

text \<open>A fresh row satisfies the row invariant whatever its origin.\<close>

definition new_row ::
  "(string \<Rightarrow> string) \<Rightarrow> string \<Rightarrow> string \<Rightarrow> ControlRequest \<Rightarrow> LiveMessagePhase \<Rightarrow> nat \<Rightarrow> CommandQueueItem"
where
  "new_row sha uid now r ph n =
     (from_request sha uid now r)\<lparr>qi_sequence := int n + 1, qi_accepted_phase := Some ph,
        qi_handoff_id := (if requested_semantic_for_request r = Some QUEUE_NEXT
                          then Some (handoff_id (''cmd_'' @ uid)) else None)\<rparr>"

lemma insert_item_row:
  "insert_item sha uid now r ph s =
     (let i = new_row sha uid now r ph (length (cs_order s))
      in (i, s\<lparr>cs_items := (cs_items s)(''cmd_'' @ uid \<mapsto> i), cs_order := cs_order s @ [''cmd_'' @ uid]\<rparr>))"
  by (simp add: insert_item_def new_row_def Let_def from_request_def)

lemma new_row_fields [simp]:
  "qi_queue_id (new_row sha uid now r ph n) = ''cmd_'' @ uid"
  "qi_sequence (new_row sha uid now r ph n) = int n + 1"
  "qi_status (new_row sha uid now r ph n) = QUEUED"
  "qi_claimed_by (new_row sha uid now r ph n) = None"
  "qi_requested_semantic (new_row sha uid now r ph n) = requested_semantic_for_request r"
  "qi_run_id (new_row sha uid now r ph n) = rq_run_id r"
  by (simp_all add: new_row_def)

lemma row_ok_new_row: "row_ok (new_row sha uid now r ph n)"
  by (simp add: row_ok_def new_row_def from_request_def Let_def)

lemma row_ok_cosmetic [simp]:
  "row_ok (i\<lparr>qi_source_generation := g\<rparr>) = row_ok i"
  "row_ok (i\<lparr>qi_reason_code := rc, qi_updated_at := t\<rparr>) = row_ok i"
  by (simp_all add: row_ok_def)

lemma insert_item_path:
  assumes "''cmd_'' @ uid \<notin> set (cs_order s)"
  shows "store_path A s (snd (insert_item sha uid now r ph s))"
  using assms by (auto simp: insert_item_row Let_def row_ok_new_row intro!: store_path.new store_path.start)

lemma admit_accepted_path:
  assumes ok: "store_ok s" and fresh: "''cmd_'' @ uid \<notin> set (cs_order s)"
    and A: "\<And>q. A q Fail_Act" and st: "cs_runs s rid = Some st"
  shows "store_path A s (snd (admit_accepted sha uid now r rid st ph m s))"
proof -
  have new: "store_path A s (s\<lparr>cs_order := cs_order s @ [''cmd_'' @ uid],
      cs_items := (cs_items s)(''cmd_'' @ uid \<mapsto> i)\<rparr>)"
    if "row_ok i" "qi_queue_id i = ''cmd_'' @ uid" "qi_sequence i = int (length (cs_order s)) + 1" for i
  proof -
    have "store_path A s (s\<lparr>cs_items := (cs_items s)(''cmd_'' @ uid \<mapsto> i),
        cs_order := cs_order s @ [''cmd_'' @ uid]\<rparr>)"
      using that fresh by (blast intro: store_path.new store_path.start)
    then show ?thesis by (cases s) simp
  qed
  have run: "store_path A s (s\<lparr>cs_order := os,
      cs_runs := (cs_runs s)(rid \<mapsto> st\<lparr>rs_stopped := True, rs_updated_at := t\<rparr>), cs_items := m'\<rparr>)"
    if "store_path A s (s\<lparr>cs_order := os, cs_items := m'\<rparr>)" for m' os t
    using store_path.run [OF that, of rid "st\<lparr>rs_stopped := True, rs_updated_at := t\<rparr>"] st ok
    by (cases s) (auto simp: put_run_def run_step_def store_ok_def)
  show ?thesis
    using new run
    by (auto simp: admit_accepted_def insert_item_row Let_def put_item_def put_run_def row_ok_new_row
        intro!: store_path_trans [OF stop_pending_path] run A)
qed

lemma admit_path:
  assumes "store_ok s" "''cmd_'' @ uid \<notin> set (cs_order s)" "\<And>q. A q Fail_Act"
  shows "store_path A s (snd (admit sha uid now r ph s))"
  using admit_accepted_path [where A = A, OF assms]
  by (auto simp: admit_def Let_def split_beta store_path.start split: option.splits sum.splits)

lemma enqueue_path:
  assumes "store_ok s" "''cmd_'' @ uid \<notin> set (cs_order s)" "\<And>q. A q Fail_Act"
  shows "store_path A s (snd (enqueue sha uid now r s))"
  using admit_path [where A = A, OF assms] insert_item_path [where A = A, OF assms(2)]
  by (auto simp: enqueue_def split_beta store_path.start split: option.splits sum.splits)

definition fresh_env :: "call_env \<Rightarrow> InMemoryCommandQueueStore \<Rightarrow> bool" where
  "fresh_env e s = (''cmd_'' @ ce_uid e \<notin> set (cs_order s))"

lemma snd_returning [simp]: "snd (returning f p) = snd p"
  by (simp add: returning_def)

lemma snd_raising [simp]: "snd (raising f p) = snd p"
  by (simp add: raising_def)

lemmas op_paths = mark_applied_path mark_failed_path cancel_path cancel_next_path release_claim_path
  complete_handoff_path claim_for_boundary_path claim_next_handoff_path claim_hard_redirect_path
  set_run_phase_path commit_terminal_path admit_path enqueue_path quarantine_loop_path

theorem exec_op_path:
  assumes "store_ok s" "fresh_env e s"
  shows "store_path (op_acts op) s (snd (exec_op sha e op s))"
  using assms
  by (cases op) (auto simp: fresh_env_def stop_run_def quarantine_legacy_rows_def intro!: op_paths)

section \<open>Histories of a store\<close>

text \<open>A history runs allowed operations one after the other, each with a random identifier that no
  row has yet. \<open>run\<close> and \<open>view\<close> are those of a backend.\<close>

inductive history ::
  "(call_env \<Rightarrow> queue_op \<Rightarrow> 's \<Rightarrow> 'r \<times> 's) \<Rightarrow> ('s \<Rightarrow> InMemoryCommandQueueStore) \<Rightarrow>
   (queue_op \<Rightarrow> bool) \<Rightarrow> 's \<Rightarrow> 's \<Rightarrow> bool"
  for "run" view allowed where
  none: "history run view allowed s s"
| call: "history run view allowed s s' \<Longrightarrow> allowed op \<Longrightarrow> fresh_env e (view s') \<Longrightarrow>
     history run view allowed s (snd (run e op s'))"

abbreviation any_op :: "queue_op \<Rightarrow> bool" where
  "any_op op \<equiv> True"

text \<open>The contract of a backend: its calls answer like the reference state machine run on the
  store it represents, and leave the store that machine leaves.\<close>

locale command_queue_store =
  fixes sha :: "string \<Rightarrow> string"
    and "run" :: "call_env \<Rightarrow> queue_op \<Rightarrow> 's \<Rightarrow> (control_error + queue_result) \<times> 's"
    and view :: "'s \<Rightarrow> InMemoryCommandQueueStore"
    and valid :: "'s \<Rightarrow> bool"
    and init :: 's
  assumes init_valid: "valid init"
    and init_view: "view init = empty_store"
    and valid_ok: "valid s \<Longrightarrow> store_ok (view s)"
    and run_valid: "valid s \<Longrightarrow> fresh_env e (view s) \<Longrightarrow> valid (snd (run e op s))"
    and run_result: "valid s \<Longrightarrow> fresh_env e (view s) \<Longrightarrow>
          fst (run e op s) = fst (exec_op sha e op (view s))"
    and run_view: "valid s \<Longrightarrow> fresh_env e (view s) \<Longrightarrow>
          view (snd (run e op s)) = snd (exec_op sha e op (view s))"
begin

lemma history_valid: "history run view A s s' \<Longrightarrow> valid s \<Longrightarrow> valid s'"
  by (induction rule: history.induct) (auto intro: run_valid)

lemma history_ok: "history run view A s s' \<Longrightarrow> valid s \<Longrightarrow> store_ok (view s')"
  using history_valid valid_ok by blast

lemma call_path: "valid s \<Longrightarrow> fresh_env e (view s) \<Longrightarrow>
    store_path (op_acts op) (view s) (view (snd (run e op s)))"
  using exec_op_path valid_ok by (simp add: run_view)

text \<open>Any reflexive and transitive relation that the allowed row actions, run steps and insertions
  respect holds between the two ends of a history.\<close>

lemma history_path:
  assumes "history run view A s s'" "valid s" "\<And>op q a. A op \<Longrightarrow> op_acts op q a \<Longrightarrow> B q a"
  shows "store_path B (view s) (view s')"
  using assms
proof (induction rule: history.induct)
  case (call s s' op e)
  have "store_path B (view s') (view (snd (run e op s')))"
    using call_path [OF history_valid [OF call.hyps(1) call.prems(1)] call.hyps(3)] call.hyps(2)
      call.prems(2) store_path_mono by blast
  then show ?case using store_path_trans call by blast
qed (simp add: store_path.start)

lemma history_evolves: "history run view A s s' \<Longrightarrow> valid s \<Longrightarrow> store_evolves (view s) (view s')"
  using history_path [of A s s' "\<lambda>q a. True"] store_path_evolves valid_ok by blast

end

interpretation mem_queue: command_queue_store sha "exec_op sha" "\<lambda>s. s" store_ok empty_store for sha
proof
  show "store_ok empty_store" by (simp add: store_ok_def)
  show "store_ok (snd (exec_op sha e op s))" if "store_ok s" "fresh_env e s" for s e op
    using store_path_ok [OF exec_op_path] that by blast
qed simp_all

section \<open>Runs over a list of calls\<close>

fun run_ops ::
  "(string \<Rightarrow> string) \<Rightarrow> (call_env \<times> queue_op) list \<Rightarrow> InMemoryCommandQueueStore \<Rightarrow>
   InMemoryCommandQueueStore" where
  "run_ops sha [] s = s"
| "run_ops sha ((e, op) # h) s = run_ops sha h (snd (exec_op sha e op s))"

fun fresh_ops ::
  "(string \<Rightarrow> string) \<Rightarrow> (call_env \<times> queue_op) list \<Rightarrow> InMemoryCommandQueueStore \<Rightarrow> bool" where
  "fresh_ops sha [] s = True"
| "fresh_ops sha ((e, op) # h) s = (fresh_env e s \<and> fresh_ops sha h (snd (exec_op sha e op s)))"

lemma history_extend:
  "history run view A s1 s2 \<Longrightarrow> history run view A s s1 \<Longrightarrow> history run view A s s2"
  by (induction rule: history.induct) (auto intro: history.intros)

lemma run_ops_history:
  "fresh_ops sha h s \<Longrightarrow> list_all (A \<circ> snd) h \<Longrightarrow> history (exec_op sha) (\<lambda>s. s) A s (run_ops sha h s)"
proof (induction sha h s rule: run_ops.induct)
  case (2 sha e op h s)
  have "history (exec_op sha) (\<lambda>s. s) A s (snd (exec_op sha e op s))"
    using 2 by (auto intro: history.call history.none)
  then show ?case using history_extend [OF 2(1)] 2(2,3) by simp
qed (simp add: history.none)

text \<open>The answers a backend gives to a list of calls, and the state it ends in.\<close>

fun run_calls ::
  "(call_env \<Rightarrow> queue_op \<Rightarrow> 's \<Rightarrow> 'r \<times> 's) \<Rightarrow> (call_env \<times> queue_op) list \<Rightarrow> 's \<Rightarrow> 'r list \<times> 's" where
  "run_calls run [] s = ([], s)"
| "run_calls run ((e, op) # h) s =
     (let (r, s1) = run e op s; (rs, s2) = run_calls run h s1 in (r # rs, s2))"

lemma run_calls_ops: "snd (run_calls (exec_op sha) h s) = run_ops sha h s"
  by (induction h arbitrary: s) (auto simp: split_beta Let_def)

context command_queue_store
begin

lemma calls_agree:
  assumes "valid s" "fresh_ops sha h (view s)"
  shows "fst (run_calls run h s) = fst (run_calls (exec_op sha) h (view s))
    \<and> view (snd (run_calls run h s)) = snd (run_calls (exec_op sha) h (view s))
    \<and> valid (snd (run_calls run h s))"
  using assms
proof (induction h arbitrary: s)
  case (Cons c h)
  obtain e op where c: "c = (e, op)" by (cases c)
  have e: "fresh_env e (view s)" "fresh_ops sha h (view (snd (run e op s)))"
    using Cons.prems run_view [OF Cons.prems(1)] c by auto
  note step = run_view [OF Cons.prems(1) e(1)] run_result [OF Cons.prems(1) e(1)]
  show ?case
    using Cons.IH [OF run_valid [OF Cons.prems(1) e(1)] e(2)] step c
    by (simp add: split_beta Let_def)
qed simp

end

end
