(* ===== verification/Queue_Safety.thy ===== *)
theory Queue_Safety
  imports Queue_Laws
begin

text \<open>
  The guarantees of the command queue that its clients rely on: the drain order, the ownership of
  claims, the stop fence, the generation fence of hard redirects, the terminal commit, the
  hand-off to the next turn and idempotent resubmission. Those that talk about the future of a
  store are proved once for every backend that meets the contract \<open>command_queue_store\<close>.
\<close>

section \<open>What a successful claim saw\<close>

lemma matches_run [simp]: "matches_route (Some rid) None None i \<longleftrightarrow> qi_run_id i = Some rid"
  by (simp add: matches_route_def)

lemma find_pending:
  assumes "store_ok s" "find P (list_pending s (Some rid) None None) = Some i"
  shows "cs_items s (qi_queue_id i) = Some i" "qi_status i = QUEUED" "qi_run_id i = Some rid" "P i"
  using find_Some_mem [OF assms(2)] list_pending_item [OF assms(1), of i "Some rid" None None]
  by simp_all

lemma claim_for_boundary_Some:
  assumes ok: "store_ok s" and c: "claim_for_boundary now rid c s = (Some k, s')"
  shows "\<exists>i. cs_items s (qi_queue_id k) = Some i \<and> qi_status i = QUEUED \<and> qi_claimed_by i = None
    \<and> qi_run_id i = Some rid \<and> boundary_eligible (cs_runs s rid) i
    \<and> k = i\<lparr>qi_claimed_by := Some c, qi_claimed_at := Some now, qi_updated_at := now\<rparr>
    \<and> s' = put_item k s"
proof -
  obtain i where f: "find (boundary_eligible (cs_runs s rid)) (list_pending s (Some rid) None None) = Some i"
    and k: "k = i\<lparr>qi_claimed_by := Some c, qi_claimed_at := Some now, qi_updated_at := now\<rparr>"
      "s' = put_item k s"
    using c by (auto simp: claim_for_boundary_def Let_def split: option.splits if_splits)
  show ?thesis
    using find_pending [OF ok f] k by (intro exI [of _ i]) (simp add: boundary_eligible_def)
qed

lemma claim_hard_redirect_Some:
  assumes ok: "store_ok s" and c: "claim_hard_redirect now rid c g s = (Some k, s')"
  shows "\<exists>i st. cs_items s (qi_queue_id k) = Some i \<and> qi_status i = QUEUED \<and> qi_claimed_by i = None
    \<and> qi_run_id i = Some rid \<and> qi_requested_semantic i = Some REDIRECT_CURRENT
    \<and> qi_claimed_by k = Some c \<and> qi_superseded_generation k = Some g \<and> qi_llm_generation k = g + 1
    \<and> cs_items s' (qi_queue_id k) = Some k
    \<and> cs_runs s rid = Some st \<and> rs_llm_generation st = g
    \<and> cs_runs s' rid = Some (st\<lparr>rs_llm_generation := g + 1, rs_updated_at := now\<rparr>)"
proof -
  obtain i st where st: "cs_runs s rid = Some st" "rs_llm_generation st = g"
    and f: "find (\<lambda>i. qi_requested_semantic i = Some REDIRECT_CURRENT \<and> qi_claimed_by i = None)
        (list_pending s (Some rid) None None) = Some i"
    and k: "k = i\<lparr>qi_claimed_by := Some c, qi_claimed_at := Some now,
        qi_updated_at := now, qi_applied_phase := Some LLM_IN_FLIGHT,
        qi_resolved_semantic := Some REDIRECT_CURRENT, qi_reason_code := Some ''redirect_claimed'',
        qi_superseded_generation := Some g, qi_llm_generation := g + 1\<rparr>"
      "s' = put_item k (put_run rid (st\<lparr>rs_llm_generation := g + 1, rs_updated_at := now\<rparr>) s)"
    using c by (auto simp: claim_hard_redirect_def Let_def split: option.splits if_splits)
  show ?thesis
    using find_pending [OF ok f] st k
    by (intro exI [of _ i] exI [of _ st]) (simp add: put_item_def put_run_def)
qed

lemma claim_next_handoff_Some:
  assumes ok: "store_ok s" and c: "claim_next_handoff now rid c s = (Some k, s')"
  shows "\<exists>i. cs_items s (qi_queue_id k) = Some i \<and> qi_status i = QUEUED
    \<and> (qi_claimed_by i = None \<or> qi_claimed_by i = Some c) \<and> qi_resolved_semantic i = Some QUEUE_NEXT
    \<and> qi_run_id i = Some rid \<and> qi_claimed_by k = Some c \<and> row_key k = row_key i
    \<and> qi_status k = QUEUED \<and> cs_items s' (qi_queue_id k) = Some k"
proof -
  obtain i where f: "find (\<lambda>i. qi_resolved_semantic i = Some QUEUE_NEXT
        \<and> (qi_claimed_by i = None \<or> qi_claimed_by i = Some c))
        (list_pending s (Some rid) None None) = Some i"
    and k: "k = i \<and> s' = s \<and> qi_claimed_by i = Some c \<or>
        k = i\<lparr>qi_claimed_by := Some c, qi_claimed_at := Some now, qi_updated_at := now,
          qi_handoff_id := opt_or (qi_handoff_id i) (Some (handoff_id (qi_queue_id i)))\<rparr>
        \<and> s' = put_item k s"
    using c by (auto simp: claim_next_handoff_def Let_def split: option.splits if_splits)
  show ?thesis
    using find_pending [OF ok f] k
    by (intro exI [of _ i]) (auto simp: put_item_def row_key_def)
qed

section \<open>Drain order\<close>

text \<open>In a well-formed store the pending rows of a route are exactly the queued rows that match
  it, listed strictly by dispatch rank and then by acceptance sequence, so no row is listed twice
  and the drain order is determined by the rows alone.\<close>

lemma list_pending_drain_order:
  assumes ok: "store_ok s"
  shows "set (list_pending s rid tid aid)
       = {i \<in> ran (cs_items s). qi_status i = QUEUED \<and> matches_route rid tid aid i}
    \<and> sorted_wrt (\<lambda>i j. (dispatch_order i, qi_sequence i) < (dispatch_order j, qi_sequence j))
        (list_pending s rid tid aid)"
  using pending_set [OF ok] list_pending_sorted [OF ok] by blast

section \<open>Invariant and append-only history\<close>

text \<open>C35. Every store that calls of the queue can reach from the empty one is well-formed: the order
  lists each row once, sequences number the rows from one, closed rows carry exactly their own
  terminal timestamp and no claim, and every row resolved for the next turn has its hand-off
  identifier.\<close>

theorem queue_reachable_ok:
  assumes "history (exec_op sha) (\<lambda>s. s) any_op empty_store s"
  shows "store_ok s"
  using assms mem_queue.init_valid by (rule mem_queue.history_ok)

text \<open>Whatever calls follow, a row keeps its identity, payload and acceptance data and its place
  in the order, and a row that was applied, cancelled or failed is never changed again; a
  terminal run stays terminal, a stopped run stopped, and its model generation never decreases.\<close>

lemma queue_history_append_only:
  assumes "history (exec_op sha) (\<lambda>s. s) any_op empty_store s"
    and "history (exec_op sha) (\<lambda>s. s) any_op s s'"
    and "cs_items s q = Some i"
  shows "\<exists>j. cs_items s' q = Some j \<and> row_key j = row_key i \<and> (qi_status i \<noteq> QUEUED \<longrightarrow> j = i)
    \<and> prefix (cs_order s) (cs_order s')
    \<and> (\<forall>r a. cs_runs s r = Some a \<longrightarrow> (\<exists>b. cs_runs s' r = Some b \<and> run_evolves a b))"
proof -
  have "store_ok s" using assms(1) mem_queue.init_valid by (rule mem_queue.history_ok)
  with assms(2) have "store_evolves s s'" by (rule mem_queue.history_evolves)
  with assms(3) show ?thesis by (fastforce simp: store_evolves_def row_evolves_def)
qed

section \<open>Ownership of claims\<close>

text \<open>The calls that may take a claim away from its owner without closing the row.\<close>

fun drops_claim :: "string \<Rightarrow> string \<Rightarrow> string option \<Rightarrow> queue_op \<Rightarrow> bool" where
  "drops_claim q c rid (Release_Claim q' c') = (q' = q \<and> c' = c)"
| "drops_claim q c rid (Commit_Terminal r b) = (rid = Some r)"
| "drops_claim q c rid (Stop_Run r) = (rid = Some r)"
| "drops_claim q c rid _ = False"

definition claim_held :: "string \<Rightarrow> string \<Rightarrow> InMemoryCommandQueueStore \<Rightarrow> bool" where
  "claim_held q c s = (\<exists>j. cs_items s q = Some j \<and> (qi_claimed_by j = Some c \<or> qi_status j \<noteq> QUEUED))"

lemma row_step_claim:
  "row_step a i j \<Longrightarrow> qi_claimed_by i = Some c \<Longrightarrow> a \<noteq> Release_Act c \<Longrightarrow> a \<noteq> Promote_Act \<Longrightarrow>
   qi_claimed_by j = Some c \<or> qi_status j \<noteq> QUEUED"
  by (erule row_step.cases) simp_all

lemma store_path_claim:
  "store_path B s s' \<Longrightarrow> store_ok s \<Longrightarrow> claim_held q c s \<Longrightarrow>
   (\<And>a. B q a \<Longrightarrow> a \<noteq> Release_Act c \<and> a \<noteq> Promote_Act) \<Longrightarrow> claim_held q c s'"
proof (induction rule: store_path.induct)
  case (row s s' p i a j)
  have "claim_held q c s'" using row by blast
  then show ?case
    using row.hyps row.prems(3) row_step_claim row_step_queued by (fastforce simp: claim_held_def)
next
  case (run s s' r st)
  then show ?case by (simp add: claim_held_def put_run_def)
next
  case (new s s' p i)
  have "cs_items s' p = None"
    using store_path_ok [OF new.hyps(1) new.prems(1)] new.hyps(2) by (auto simp: store_ok_def)
  with new show ?case by (auto simp: claim_held_def)
qed

text \<open>The terminal commit of a run touches only the rows of that run.\<close>

lemma commit_loop_others:
  "q \<notin> qi_queue_id ` set is \<Longrightarrow> cs_items (snd (commit_loop now ts b ph is (changed, s))) q = cs_items s q"
proof (induction "is" arbitrary: now b changed s)
  case (Cons i "is")
  have rest: "cs_items (snd (commit_loop now ts b ph is (changed, s))) q = cs_items s q" for now b changed s
    using Cons by simp
  have "q \<noteq> qi_queue_id i" using Cons.prems by simp
  then show ?case by (simp add: split_beta rest other_rows)
qed simp

lemma commit_other_run:
  assumes "store_ok s" "cs_items s q = Some i" "qi_run_id i \<noteq> Some rid"
  shows "cs_items (snd (commit_terminal now rid b s)) q = Some i"
proof -
  have "q \<notin> qi_queue_id ` set (list_pending (put_run rid st s) (Some rid) None None)" if "rs_run_id st = rid" "0 \<le> rs_llm_generation st" for st
  proof
    assume "q \<in> qi_queue_id ` set (list_pending (put_run rid st s) (Some rid) None None)"
    then obtain j where j: "j \<in> set (list_pending (put_run rid st s) (Some rid) None None)" "qi_queue_id j = q" by auto
    have "store_ok (put_run rid st s)" using assms(1) that by (auto simp: store_ok_def put_run_def)
    from pending_iff [OF this] j have "cs_items s q = Some j" "matches_route (Some rid) None None j"
      by (auto simp: put_run_def)
    then have "cs_items s q = Some j" "qi_run_id j = Some rid" by (auto simp: matches_route_def split: if_splits)
    then show False using assms(2,3) by simp
  qed
  moreover have "rs_run_id (default_run_state t rid) = rid" "0 \<le> rs_llm_generation (default_run_state t rid)" for t
    by (simp_all add: default_run_state_def)
  moreover have "cs_runs s rid = Some st \<Longrightarrow> rs_run_id st = rid \<and> 0 \<le> rs_llm_generation st" for st using assms(1) by (auto simp: store_ok_def)
  ultimately show ?thesis
    using assms(2) by (auto simp: commit_terminal_def Let_def put_run_def commit_loop_others split: option.splits)
qed

context command_queue_store
begin

lemma claim_kept_call:
  assumes "valid s" "fresh_env e (view s)" "\<not> drops_claim q c rid op" "claim_held q c (view s)"
    and i: "cs_items (view s) q = Some i" "qi_run_id i = rid"
  shows "claim_held q c (view (snd (run e op s)))"
proof (cases "(\<exists>r b. op = Commit_Terminal r b) \<or> (\<exists>r. op = Stop_Run r)")
  case True
  then obtain r b where "view (snd (run e op s)) = snd (commit_terminal (ce_now e) r b (view s))" "rid \<noteq> Some r"
    using run_view [OF assms(1,2), of op] assms(3) by (auto simp: stop_run_def returning_def split_beta)
  then show ?thesis using commit_other_run [OF valid_ok [OF assms(1)] i(1), of r] i assms(4) by (simp add: claim_held_def)
next
  case False
  have "a \<noteq> Release_Act c \<and> a \<noteq> Promote_Act" if "op_acts op q a" for a
    using that assms(3) False by (cases op) auto
  then show ?thesis using store_path_claim [OF call_path [OF assms(1,2)] valid_ok [OF assms(1)] assms(4)] by blast
qed

lemma claim_kept:
  assumes "history run view (\<lambda>op. \<not> drops_claim q c rid op) s s'" "valid s" "claim_held q c (view s)"
    and "cs_items (view s) q = Some i" "qi_run_id i = rid"
  shows "claim_held q c (view s') \<and> (\<exists>j. cs_items (view s') q = Some j \<and> qi_run_id j = rid)"
  using assms
proof (induction rule: history.induct)
  case (call s s' op e)
  then obtain j where j: "claim_held q c (view s')" "cs_items (view s') q = Some j" "qi_run_id j = rid" by blast
  have v: "valid s'" using history_valid [OF call.hyps(1)] call.prems(1) by blast
  have "store_evolves (view s') (view (snd (run e op s')))"
    using store_path_evolves [OF call_path [OF v call.hyps(3)]] valid_ok [OF v] by blast
  then have "\<exists>k. cs_items (view (snd (run e op s'))) q = Some k \<and> qi_run_id k = rid"
    using j(2,3) by (fastforce simp: store_evolves_def row_evolves_def row_key_def)
  then show ?case using claim_kept_call [OF v call.hyps(3,2) j] by blast
qed blast

end

text \<open>C2. A row claimed at a step boundary belongs to its claimant: until that claimant releases it or the row's own run
  is committed terminal or stopped, whatever else happens in the queue, to this run or to others, no boundary claim and
  no redirect claim returns the row again, and no other claimant gets it as a hand-off.\<close>

theorem boundary_claim_exclusive:
  assumes reach: "history (exec_op sha) (\<lambda>s. s) any_op empty_store s"
    and c: "claim_for_boundary now rid c s = (Some i, s1)"
    and h: "history (exec_op sha) (\<lambda>s. s) (\<lambda>op. \<not> drops_claim (qi_queue_id i) c (Some rid) op) s1 s2"
  shows "(claim_for_boundary now' rid' c' s2 = (Some k, s3) \<longrightarrow> qi_queue_id k \<noteq> qi_queue_id i)
    \<and> (claim_hard_redirect now' rid' c' g s2 = (Some k, s3) \<longrightarrow> qi_queue_id k \<noteq> qi_queue_id i)
    \<and> (c' \<noteq> c \<longrightarrow> claim_next_handoff now' rid' c' s2 = (Some k, s3) \<longrightarrow> qi_queue_id k \<noteq> qi_queue_id i)"
proof -
  have ok: "store_ok s" using reach mem_queue.init_valid by (rule mem_queue.history_ok)
  have ok1: "store_ok s1"
    using store_path_ok [OF claim_for_boundary_path [OF ok, of "\<lambda>q a. True"] ok] c by (metis snd_conv)
  have ok2: "store_ok s2" using h ok1 by (rule mem_queue.history_ok)
  have i: "claim_held (qi_queue_id i) c s1" "cs_items s1 (qi_queue_id i) = Some i" "qi_run_id i = Some rid"
    using claim_for_boundary_Some [OF ok c] by (auto simp: claim_held_def put_item_def)
  then have held: "claim_held (qi_queue_id i) c s2"
    using mem_queue.claim_kept [OF h ok1] by blast
  then show ?thesis
    using claim_for_boundary_Some [OF ok2] claim_hard_redirect_Some [OF ok2]
      claim_next_handoff_Some [OF ok2]
    by (intro conjI impI notI) (fastforce simp: claim_held_def)+
qed

section \<open>Generation fence\<close>

text \<open>C3. At most one hard redirect wins each model generation of a run: after one succeeded for
  generation g, every later attempt that still expects g gets nothing and changes nothing.\<close>

theorem hard_redirect_once_per_generation:
  assumes reach: "history (exec_op sha) (\<lambda>s. s) any_op empty_store s"
    and c: "claim_hard_redirect now rid c g s = (Some i, s1)"
    and h: "history (exec_op sha) (\<lambda>s. s) any_op s1 s2"
  shows "claim_hard_redirect now' rid c' g s2 = (None, s2)"
proof -
  have ok: "store_ok s" using reach mem_queue.init_valid by (rule mem_queue.history_ok)
  have ok1: "store_ok s1"
    using store_path_ok [OF claim_hard_redirect_path [OF ok, of "\<lambda>q a. True"] ok] c by (metis snd_conv)
  obtain st where "cs_runs s1 rid = Some st" "rs_llm_generation st = g + 1"
    using claim_hard_redirect_Some [OF ok c] by auto
  then obtain st' where "cs_runs s2 rid = Some st'" "g + 1 \<le> rs_llm_generation st'"
    using mem_queue.history_evolves [OF h ok1] by (fastforce simp: store_evolves_def run_evolves_def)
  then show ?thesis by (simp add: claim_hard_redirect_def)
qed

section \<open>Terminal commit\<close>

text \<open>What a commit may make of one pending row.\<close>

definition commit_effect :: "bool \<Rightarrow> CommandQueueItem \<Rightarrow> CommandQueueItem \<Rightarrow> bool" where
  "commit_effect stopped i j =
     (row_key j = row_key i
      \<and> (if message_semantic (qi_requested_semantic i)
         then (if stopped then qi_status j = FAILED \<and> qi_error j = Some ''run_stopped''
               else qi_status j = QUEUED \<and> qi_resolved_semantic j = Some QUEUE_NEXT
                    \<and> qi_handoff_id j = Some (handoff_id (qi_queue_id i)))
         else if qi_requested_semantic i = Some STOP \<and> stopped
         then qi_status j = APPLIED \<and> qi_reason_code j = Some ''stop_applied''
         else j = i))"

lemma mark_failed_queued:
  assumes "cs_items s q = Some i" "qi_status i = QUEUED"
  shows "\<exists>j. mark_failed t q er s = (Some j, s\<lparr>cs_items := (cs_items s)(q \<mapsto> j)\<rparr>)
    \<and> row_key j = row_key i \<and> qi_status j = FAILED \<and> qi_error j = Some er"
  using assms by (simp add: mark_failed_def Let_def row_key_def)

lemma mark_applied_stop:
  assumes "cs_items s q = Some i" "qi_status i = QUEUED" "qi_requested_semantic i = Some STOP"
  shows "\<exists>j. mark_applied t q None ph s = (Some j, s\<lparr>cs_items := (cs_items s)(q \<mapsto> j)\<rparr>)
    \<and> row_key j = row_key i \<and> qi_status j = APPLIED \<and> qi_reason_code j = Some ''stop_applied''"
  using assms by (simp add: mark_applied_def Let_def row_key_def)

lemma promoted_effect:
  assumes "row_ok i" "qi_status i = QUEUED" "message_semantic (qi_requested_semantic i)"
  shows "commit_effect False i (promoted_item ts i)"
  using assms by (auto simp: commit_effect_def promoted_item_def row_key_def row_ok_def opt_or_handoff)

lemma kept_next_effect:
  assumes "row_ok i" "qi_status i = QUEUED" "qi_requested_semantic i = Some QUEUE_NEXT"
  shows "commit_effect False i i"
  using assms by (auto simp: commit_effect_def row_ok_def message_semantic_def)

text \<open>One turn of the loop: the row at hand gets its effect, the others are untouched.\<close>

lemma commit_loop_step:
  assumes u: "unvisited (i # is) s" and ok: "row_ok i"
  shows "\<exists>now' new s1 j. commit_loop now ts b ph (i # is) (changed, s)
       = commit_loop now' ts b ph is (changed @ new, s1)
     \<and> s1 = s\<lparr>cs_items := (cs_items s)(qi_queue_id i \<mapsto> j)\<rparr> \<and> commit_effect b i j \<and> set new \<subseteq> {j}
     \<and> (j \<noteq> i \<longrightarrow> new = [j])"
proof -
  have h: "cs_items s (qi_queue_id i) = Some i" "qi_status i = QUEUED"
    using unvisited_hd [OF u] by auto
  have same: "s\<lparr>cs_items := (cs_items s)(qi_queue_id i \<mapsto> i)\<rparr> = s" using h by (cases s) (auto simp: fun_upd_idem)
  consider (stop) "qi_requested_semantic i = Some STOP" "b"
    | (failing) "message_semantic (qi_requested_semantic i)" b
    | (promote) "message_semantic (qi_requested_semantic i)" "qi_requested_semantic i \<noteq> Some QUEUE_NEXT" "\<not> b"
    | (nxt) "qi_requested_semantic i = Some QUEUE_NEXT" "\<not> b"
    | (keep) "\<not> message_semantic (qi_requested_semantic i)" "qi_requested_semantic i = Some STOP \<Longrightarrow> \<not> b"
    by blast
  then show ?thesis
  proof cases
    case stop
    then obtain j where "mark_applied (now 0) (qi_queue_id i) None (Some ph) s
        = (Some j, s\<lparr>cs_items := (cs_items s)(qi_queue_id i \<mapsto> j)\<rparr>)"
      "row_key j = row_key i" "qi_status j = APPLIED" "qi_reason_code j = Some ''stop_applied''"
      using mark_applied_stop [OF h] by blast
    then show ?thesis using stop
      by (intro exI [of _ "\<lambda>n. now (Suc n)"] exI [of _ "[j]"] exI exI [of _ j])
        (simp add: commit_effect_def message_semantic_def)
  next
    case failing
    obtain j where "mark_failed (now 0) (qi_queue_id i) ''run_stopped'' s
        = (Some j, s\<lparr>cs_items := (cs_items s)(qi_queue_id i \<mapsto> j)\<rparr>)"
      "row_key j = row_key i" "qi_status j = FAILED" "qi_error j = Some ''run_stopped''"
      using mark_failed_queued [OF h] by blast
    then show ?thesis using failing
      by (intro exI [of _ "\<lambda>n. now (Suc n)"] exI [of _ "[j]"] exI exI [of _ j])
        (auto simp: commit_effect_def message_semantic_def)
  next
    case promote
    then show ?thesis using promoted_effect [OF ok h(2)]
      by (intro exI [of _ now] exI [of _ "[promoted_item ts i]"] exI exI [of _ "promoted_item ts i"])
        (auto simp: put_item_def message_semantic_def)
  next
    case nxt
    then show ?thesis using kept_next_effect [OF ok h(2)] same
      by (intro exI [of _ now] exI [of _ "[]"] exI exI [of _ i])
        (simp add: message_semantic_def)
  next
    case keep
    then have "commit_effect b i i" by (auto simp: commit_effect_def)
    then show ?thesis using keep same
      by (intro exI [of _ now] exI [of _ "[]"] exI exI [of _ i]) auto
  qed
qed

lemma commit_loop_effect:
  assumes "unvisited is s" "\<forall>i \<in> set is. row_ok i"
  shows "\<exists>new s'. commit_loop now ts b ph is (changed, s) = (changed @ new, s')
     \<and> cs_runs s' = cs_runs s \<and> cs_order s' = cs_order s
     \<and> (\<forall>q. q \<notin> qi_queue_id ` set is \<longrightarrow> cs_items s' q = cs_items s q)
     \<and> (\<forall>i \<in> set is. \<exists>j. cs_items s' (qi_queue_id i) = Some j \<and> commit_effect b i j
          \<and> (j \<noteq> i \<longrightarrow> j \<in> set new))"
  using assms
proof (induction "is" arbitrary: now changed s)
  case (Cons i "is")
  obtain now' new s1 j where step: "commit_loop now ts b ph (i # is) (changed, s)
       = commit_loop now' ts b ph is (changed @ new, s1)"
     "s1 = s\<lparr>cs_items := (cs_items s)(qi_queue_id i \<mapsto> j)\<rparr>" "commit_effect b i j"
     "j \<noteq> i \<longrightarrow> new = [j]"
    using commit_loop_step [OF Cons.prems(1)] Cons.prems(2) by (metis list.set_intros(1))
  have ok1: "\<forall>i \<in> set is. row_ok i" using Cons.prems(2) by simp
  have u1: "unvisited is s1" using unvisited_tl [OF Cons.prems(1)] step(2) by simp
  obtain new' s' where rest: "commit_loop now' ts b ph is (changed @ new, s1) = ((changed @ new) @ new', s')"
     "cs_runs s' = cs_runs s1" "cs_order s' = cs_order s1"
     "\<forall>q. q \<notin> qi_queue_id ` set is \<longrightarrow> cs_items s' q = cs_items s1 q"
     "\<forall>i \<in> set is. \<exists>j. cs_items s' (qi_queue_id i) = Some j \<and> commit_effect b i j \<and> (j \<noteq> i \<longrightarrow> j \<in> set new')"
    using Cons.IH [OF u1 ok1] by blast
  have "qi_queue_id i \<notin> qi_queue_id ` set is" using Cons.prems(1) by (simp add: unvisited_def)
  then have "cs_items s' (qi_queue_id i) = Some j" using rest(4) step(2) by simp
  moreover have "cs_items s' q = cs_items s q" if "q \<notin> qi_queue_id ` set (i # is)" for q
    using that rest(4) step(2) by simp
  moreover have "\<exists>j. cs_items s' (qi_queue_id x) = Some j \<and> commit_effect b x j \<and> (j \<noteq> x \<longrightarrow> j \<in> set (new @ new'))"
    if "x \<in> set (i # is)" for x
  proof (cases "x = i")
    case True
    then show ?thesis using \<open>cs_items s' (qi_queue_id i) = Some j\<close> step(3,4) by auto
  next
    case False
    with that rest(5) obtain k where "cs_items s' (qi_queue_id x) = Some k" "commit_effect b x k"
      "k \<noteq> x \<longrightarrow> k \<in> set new'" by auto
    then show ?thesis by auto
  qed
  moreover have "commit_loop now ts b ph (i # is) (changed, s) = (changed @ (new @ new'), s')"
    unfolding step(1) rest(1) by simp
  moreover have "cs_runs s' = cs_runs s" "cs_order s' = cs_order s" using rest(2,3) step(2) by simp_all
  ultimately show ?case by blast
qed simp

definition prior_stopped :: "string \<Rightarrow> InMemoryCommandQueueStore \<Rightarrow> bool" where
  "prior_stopped rid s = (case cs_runs s rid of None \<Rightarrow> False | Some st \<Rightarrow> rs_stopped st)"

lemma commit_terminal_effect:
  assumes ok: "store_ok s" and i: "cs_items s q = Some i" "qi_status i = QUEUED" "qi_run_id i = Some rid"
  shows "\<exists>changed s' j. commit_terminal now rid stopped s = (changed, s')
    \<and> cs_items s' q = Some j \<and> commit_effect (stopped \<or> prior_stopped rid s) i j
    \<and> (j \<noteq> i \<longrightarrow> j \<in> set changed)"
proof -
  obtain prior where prior: "prior = (case cs_runs s rid of Some st \<Rightarrow> st | None \<Rightarrow> default_run_state (now 0) rid)"
    by simp
  define s1 where "s1 = put_run rid (prior\<lparr>rs_phase := TERMINAL, rs_stopped := (stopped \<or> rs_stopped prior),
     rs_terminal_at := opt_or (rs_terminal_at prior) (Some (now 1)), rs_updated_at := now 1\<rparr>) s"
  have "store_ok s1"
    unfolding s1_def using ok prior
    by (intro store_ok_run)
      (auto simp: store_ok_def run_step_def default_run_state_def split: option.splits)
  have flag: "(stopped \<or> rs_stopped prior) = (stopped \<or> prior_stopped rid s)"
    by (auto simp: prior prior_stopped_def default_run_state_def split: option.splits)
  have run: "commit_terminal now rid stopped s = commit_loop (\<lambda>n. now (n + 2)) (now 1)
      (stopped \<or> prior_stopped rid s) (rs_phase prior) (list_pending s1 (Some rid) None None) ([], s1)"
    using flag by (simp add: commit_terminal_def Let_def s1_def prior)
  have "qi_queue_id i = q" using store_ok_item [OF ok i(1)] by simp
  moreover have "i \<in> set (list_pending s1 (Some rid) None None)"
    using i \<open>qi_queue_id i = q\<close> unfolding pending_iff [OF \<open>store_ok s1\<close>] by (simp add: s1_def put_run_def)
  moreover have "unvisited (list_pending s1 (Some rid) None None) s1"
    by (rule unvisited_pending [OF \<open>store_ok s1\<close>])
  moreover have "\<forall>i \<in> set (list_pending s1 (Some rid) None None). row_ok i"
    using list_pending_item [OF \<open>store_ok s1\<close>] by blast
  ultimately show ?thesis
    using commit_loop_effect [of "list_pending s1 (Some rid) None None" s1] unfolding run by fastforce
qed

text \<open>C7. Committing a run terminal loses no accepted message: every pending message of the run is
  reported failed with \<open>run_stopped\<close> when the run was stopped, and otherwise stays queued, resolved
  for the next turn under its own hand-off identifier, with payload and identity unchanged; a
  changed row is among the rows returned.\<close>

theorem commit_terminal_loses_nothing:
  assumes "history (exec_op sha) (\<lambda>s. s) any_op empty_store s"
    and "cs_items s q = Some i" "qi_status i = QUEUED" "qi_run_id i = Some rid"
    and "message_semantic (qi_requested_semantic i)"
    and "commit_terminal now rid stopped s = (changed, s')"
  shows "\<exists>j. cs_items s' q = Some j \<and> row_key j = row_key i \<and> (j \<noteq> i \<longrightarrow> j \<in> set changed)
    \<and> (if stopped \<or> prior_stopped rid s
       then qi_status j = FAILED \<and> qi_error j = Some ''run_stopped''
       else qi_status j = QUEUED \<and> qi_resolved_semantic j = Some QUEUE_NEXT
            \<and> qi_handoff_id j = Some (handoff_id q))"
proof -
  have ok: "store_ok s" using assms(1) mem_queue.init_valid by (rule mem_queue.history_ok)
  have "qi_queue_id i = q" using store_ok_item [OF ok assms(2)] by simp
  then show ?thesis
    using commit_terminal_effect [OF ok assms(2-4), of now stopped] assms(5,6)
    by (auto simp: commit_effect_def)
qed

section \<open>The stop fence\<close>

lemma stop_pending_effect:
  assumes "unvisited ps s"
  shows "cs_runs (stop_pending now self ps s) = cs_runs s
    \<and> (\<forall>q. q = self \<or> q \<notin> qi_queue_id ` set ps \<longrightarrow>
         cs_items (stop_pending now self ps s) q = cs_items s q)
    \<and> (\<forall>p \<in> set ps. qi_queue_id p \<noteq> self \<and> message_semantic (qi_requested_semantic p) \<longrightarrow>
         (\<exists>k. cs_items (stop_pending now self ps s) (qi_queue_id p) = Some k
              \<and> qi_status k = FAILED \<and> qi_error k = Some ''run_stopped''))"
  using assms
proof (induction ps arbitrary: now s)
  case (Cons p ps)
  have notin: "qi_queue_id p \<notin> qi_queue_id ` set ps" using Cons.prems by (simp add: unvisited_def)
  have tl: "unvisited ps s" by (rule unvisited_tl [OF Cons.prems]) simp
  show ?case
  proof (cases "qi_queue_id p \<noteq> self \<and> message_semantic (qi_requested_semantic p)")
    case True
    obtain j where j: "mark_failed (now 0) (qi_queue_id p) ''run_stopped'' s
        = (Some j, s\<lparr>cs_items := (cs_items s)(qi_queue_id p \<mapsto> j)\<rparr>)"
      "qi_status j = FAILED" "qi_error j = Some ''run_stopped''"
      using mark_failed_queued unvisited_hd [OF Cons.prems] by blast
    have u: "unvisited ps (s\<lparr>cs_items := (cs_items s)(qi_queue_id p \<mapsto> j)\<rparr>)"
      by (rule unvisited_tl [OF Cons.prems]) simp
    show ?thesis
      using Cons.IH [OF u, of "\<lambda>n. now (Suc n)"] True j notin by (simp add: image_iff) blast
  next
    case False
    then have "stop_pending now self (p # ps) s = stop_pending now self ps s" by auto
    then show ?thesis using Cons.IH [OF tl, of now] False by (simp add: image_iff) blast
  qed
qed simp

text \<open>An accepted stop fences the run in one step: the run is marked stopped, every message of
  the run that was pending is failed with \<open>run_stopped\<close>, and the stop row itself stays queued.\<close>

lemma stop_preempts_pending:
  assumes reach: "history (exec_op sha) (\<lambda>s. s) any_op empty_store s"
    and fresh: "''cmd_'' @ uid \<notin> set (cs_order s)"
    and r: "rq_run_id r = Some rid" "requested_semantic_for_request r = Some STOP"
    and dd: "dedupe_match sha r s = Inr None"
    and adm: "admit sha uid now r ph s = (Inr i, s')"
  shows "qi_queue_id i = ''cmd_'' @ uid \<and> cs_items s' (qi_queue_id i) = Some i \<and> qi_status i = QUEUED
    \<and> prior_stopped rid s'
    \<and> (\<forall>q j. cs_items s q = Some j \<and> qi_status j = QUEUED \<and> qi_run_id j = Some rid
          \<and> message_semantic (qi_requested_semantic j) \<longrightarrow>
        (\<exists>k. cs_items s' q = Some k \<and> qi_status k = FAILED \<and> qi_error k = Some ''run_stopped''))"
proof -
  have ok: "store_ok s" using reach mem_queue.init_valid by (rule mem_queue.history_ok)
  obtain st phase where st: "cs_runs s rid = Some st"
    and acc: "admit_accepted sha uid now r rid st phase STOP s = (i, s')"
    using adm r dd
    by (auto simp: admit_def Let_def split_beta message_semantic_def prod_eq_iff
        split: option.splits sum.splits if_splits)
  define i2 where "i2 = (new_row sha uid (now 0) r phase (length (cs_order s)))
    \<lparr>qi_source_generation := rs_llm_generation st, qi_reason_code := Some ''stop_accepted'', qi_updated_at := now 1\<rparr>"
  define s3 where "s3 = s\<lparr>cs_order := cs_order s @ [''cmd_'' @ uid],
    cs_runs := (cs_runs s)(rid \<mapsto> st\<lparr>rs_stopped := True, rs_updated_at := now 1\<rparr>),
    cs_items := (cs_items s)(''cmd_'' @ uid \<mapsto> i2)\<rparr>"
  have eq: "i = i2" "s' = stop_pending (\<lambda>n. now (n + 2)) (''cmd_'' @ uid) (list_pending s3 (Some rid) None None) s3"
    using acc by (auto simp: admit_accepted_def insert_item_row Let_def put_item_def put_run_def i2_def s3_def)
  have "row_ok i2" by (simp add: i2_def row_ok_new_row)
  have ok3: "store_ok s3"
  proof -
    have "store_ok (s\<lparr>cs_items := (cs_items s)(''cmd_'' @ uid \<mapsto> i2), cs_order := cs_order s @ [''cmd_'' @ uid]\<rparr>)"
      by (rule store_ok_new [OF ok fresh]) (simp_all add: i2_def row_ok_new_row)
    moreover have "rs_run_id st = rid" using ok st by (auto simp: store_ok_def)
    moreover have "s3 = put_run rid (st\<lparr>rs_stopped := True, rs_updated_at := now 1\<rparr>)
        (s\<lparr>cs_items := (cs_items s)(''cmd_'' @ uid \<mapsto> i2), cs_order := cs_order s @ [''cmd_'' @ uid]\<rparr>)"
      by (cases s) (simp add: s3_def put_run_def)
    ultimately show ?thesis using st by (auto simp: run_step_def intro!: store_ok_run)
  qed
  note eff = stop_pending_effect [OF unvisited_pending [OF ok3, of "Some rid" None None],
      of "\<lambda>n. now (n + 2)" "''cmd_'' @ uid"]
  have "\<exists>k. cs_items s' q = Some k \<and> qi_status k = FAILED \<and> qi_error k = Some ''run_stopped''"
    if j: "cs_items s q = Some j" "qi_status j = QUEUED" "qi_run_id j = Some rid"
      "message_semantic (qi_requested_semantic j)" for q j
  proof -
    have q: "qi_queue_id j = q" "q \<noteq> ''cmd_'' @ uid" using store_ok_item [OF ok j(1)] fresh by auto
    with j have "j \<in> set (list_pending s3 (Some rid) None None)"
      unfolding pending_iff [OF ok3] by (simp add: s3_def)
    with eff q j show ?thesis unfolding eq by blast
  qed
  moreover have "cs_items s' (''cmd_'' @ uid) = cs_items s3 (''cmd_'' @ uid)" "cs_runs s' = cs_runs s3"
    using eff unfolding eq by blast+
  ultimately show ?thesis by (auto simp: eq(1) i2_def s3_def prior_stopped_def)
qed

text \<open>C36. The fence holds for ever after: once a run is stopped, no later call admits a new live
  control for it, only stop rows can be claimed at its step boundaries, and neither a hard redirect
  nor a hand-off of the run can be claimed.\<close>

theorem stop_fence_permanent:
  assumes reach: "history (exec_op sha) (\<lambda>s. s) any_op empty_store s"
    and stopped: "prior_stopped rid s"
    and h: "history (exec_op sha) (\<lambda>s. s) any_op s s'"
  shows "(rq_run_id r = Some rid \<and> dedupe_match sha r s' = Inr None \<longrightarrow>
           (\<exists>code. admit sha uid now r ph s' = (Inl (AdmissionError code), s')))
    \<and> (claim_for_boundary t rid c s' = (Some k, s'') \<longrightarrow> qi_requested_semantic k = Some STOP)
    \<and> claim_hard_redirect t rid c g s' = (None, s')
    \<and> claim_next_handoff t rid c s' = (None, s')"
proof -
  have ok: "store_ok s" using reach mem_queue.init_valid by (rule mem_queue.history_ok)
  have ok': "store_ok s'" using h ok by (rule mem_queue.history_ok)
  obtain st where st: "cs_runs s' rid = Some st" "rs_stopped st"
    using mem_queue.history_evolves [OF h ok] stopped
    by (fastforce simp: prior_stopped_def store_evolves_def run_evolves_def split: option.splits)
  have "qi_requested_semantic k = Some STOP" if "claim_for_boundary t rid c s' = (Some k, s'')"
    using claim_for_boundary_Some [OF ok' that] st by (auto simp: boundary_eligible_def)
  then show ?thesis using st
    by (auto simp: admit_def claim_hard_redirect_def claim_next_handoff_def Let_def split: option.splits)
qed

section \<open>Hand-off to the next turn\<close>

lemma map_filter_via:
  "(\<And>x. x \<in> set xs \<Longrightarrow> g x = map_option f (h x)) \<Longrightarrow>
   List.map_filter g xs = map f (List.map_filter h xs)"
  by (induction xs) (auto simp: map_filter_simps split: option.splits)

lemma indexed_items_put:
  assumes "store_ok s" "cs_items s (qi_queue_id k) = Some i"
  shows "indexed_items (put_item k s) = map (\<lambda>(n, j). (n, if j = i then k else j)) (indexed_items s)"
proof -
  have id: "qi_queue_id i = qi_queue_id k" using store_ok_item [OF assms] by simp
  have "map_option (Pair n) (cs_items (put_item k s) q)
      = map_option (\<lambda>(n, j). (n, if j = i then k else j)) (map_option (Pair n) (cs_items s q))" for n :: nat and q
  proof (cases "q = qi_queue_id k")
    case True
    with assms(2) show ?thesis by (simp add: put_item_def)
  next
    case False
    then have "cs_items s q \<noteq> Some i" using store_ok_item [OF assms(1), of q i] id by auto
    with False show ?thesis by (cases "cs_items s q") (auto simp: put_item_def)
  qed
  then have "List.map_filter (\<lambda>(n, q). map_option (Pair n) (cs_items (put_item k s) q)) (enumerate 0 (cs_order s))
      = map (\<lambda>(n, j). (n, if j = i then k else j)) (indexed_items s)"
    unfolding indexed_items_def by (intro map_filter_via) (simp add: split_beta)
  then show ?thesis by (simp add: indexed_items_def put_item_def)
qed

lemma list_pending_put:
  assumes ok: "store_ok s" and i: "cs_items s (qi_queue_id k) = Some i"
    and same: "qi_status k = qi_status i" "dispatch_order k = dispatch_order i"
      "qi_run_id k = qi_run_id i" "qi_thread_id k = qi_thread_id i" "qi_agent_id k = qi_agent_id i"
  shows "list_pending (put_item k s) rid tid aid
       = map (\<lambda>j. if j = i then k else j) (list_pending s rid tid aid)"
proof -
  let ?f = "\<lambda>(n, j). (n :: nat, if j = i then k else j)"
  let ?P = "\<lambda>(n :: nat, j). qi_status j = QUEUED \<and> matches_route rid tid aid j"
  have "?P (?f x) = ?P x" for x
    using same by (cases x) (auto simp: matches_route_def)
  then have "filter ?P (map ?f xs) = map ?f (filter ?P xs)" for xs
    by (simp add: filter_map comp_def)
  moreover have "sort_key (\<lambda>(n, j). (dispatch_order j, n)) (map ?f xs)
      = map ?f (sort_key (\<lambda>(n, j). (dispatch_order j, n)) xs)" for xs
    unfolding sort_key_map using same(2)
    by (intro arg_cong [of _ _ "map ?f"] sort_key_cong_on) (auto split: prod.splits)
  ultimately show ?thesis
    by (simp add: list_pending_def indexed_items_put [OF ok i] comp_def split_beta)
qed

lemma handoff_claim_stable:
  assumes ok: "store_ok s" and c: "claim_next_handoff now rid c s = (Some i, s1)"
  shows "claim_next_handoff now' rid c s1 = (Some i, s1)"
proof -
  let ?P = "\<lambda>i. qi_resolved_semantic i = Some QUEUE_NEXT \<and> (qi_claimed_by i = None \<or> qi_claimed_by i = Some c)"
  obtain j st where st: "cs_runs s rid = Some st" "rs_phase st = TERMINAL" "\<not> rs_stopped st"
    and f: "find ?P (list_pending s (Some rid) None None) = Some j"
    and cases: "qi_claimed_by j = Some c \<and> i = j \<and> s1 = s \<or>
      i = j\<lparr>qi_claimed_by := Some c, qi_claimed_at := Some now, qi_updated_at := now,
            qi_handoff_id := opt_or (qi_handoff_id j) (Some (handoff_id (qi_queue_id j)))\<rparr> \<and> s1 = put_item i s"
    using c by (auto simp: claim_next_handoff_def Let_def split: option.splits if_splits)
  from cases show ?thesis
  proof
    assume "qi_claimed_by j = Some c \<and> i = j \<and> s1 = s"
    with st f show ?thesis by (simp add: claim_next_handoff_def)
  next
    assume new: "i = j\<lparr>qi_claimed_by := Some c, qi_claimed_at := Some now, qi_updated_at := now,
            qi_handoff_id := opt_or (qi_handoff_id j) (Some (handoff_id (qi_queue_id j)))\<rparr> \<and> s1 = put_item i s"
    have "list_pending s1 (Some rid) None None = map (\<lambda>x. if x = j then i else x) (list_pending s (Some rid) None None)"
      using list_pending_put [OF ok, of i j] new find_pending(1) [OF ok f] by (simp add: dispatch_order_def)
    moreover have "?P i" using new find_pending(4) [OF ok f] by simp
    ultimately have "find ?P (list_pending s1 (Some rid) None None) = Some i"
      using find_map_replace [OF f] by simp
    with st new show ?thesis by (simp add: claim_next_handoff_def put_item_def)
  qed
qed

text \<open>A retry by the same claimant gets the same hand-off again, and changes nothing.\<close>

lemma handoff_retry_idempotent:
  assumes reach: "history (exec_op sha) (\<lambda>s. s) any_op empty_store s"
    and c: "claim_next_handoff now rid c s = (Some i, s1)"
  shows "claim_next_handoff now' rid c s1 = (Some i, s1)"
  by (rule handoff_claim_stable [OF mem_queue.history_ok [OF reach mem_queue.init_valid] c])

text \<open>A hand-off is completed once: the owner's completion records the destination turn, and
  after it, whatever calls follow, every completion attempt reports that same row and destination,
  and no claim returns it.\<close>

lemma handoff_completes_once:
  assumes reach: "history (exec_op sha) (\<lambda>s. s) any_op empty_store s"
    and i: "cs_items s q = Some i" "qi_status i = QUEUED" "qi_claimed_by i = Some c"
    and comp: "complete_handoff now q c d s = (Some j, s1)"
    and h: "history (exec_op sha) (\<lambda>s. s) any_op s1 s2"
  shows "qi_status j = APPLIED \<and> qi_destination_turn_id j = Some d
    \<and> complete_handoff now' q c' d' s2 = (Some j, s2)
    \<and> (claim_next_handoff now' rid c' s2 = (Some k, s3) \<longrightarrow> qi_queue_id k \<noteq> q)"
proof -
  have ok: "store_ok s" using reach mem_queue.init_valid by (rule mem_queue.history_ok)
  have ok1: "store_ok s1"
    using store_path_ok [OF complete_handoff_path [of "\<lambda>q a. True" q c s now d] ok] comp by simp
  have ok2: "store_ok s2" using h ok1 by (rule mem_queue.history_ok)
  have j: "cs_items s1 q = Some j" "qi_status j = APPLIED" "qi_destination_turn_id j = Some d"
    using comp i by (auto simp: complete_handoff_def Let_def)
  have "cs_items s2 q = Some j"
    using mem_queue.history_evolves [OF h ok1] j by (fastforce simp: store_evolves_def row_evolves_def)
  with j claim_next_handoff_Some [OF ok2] show ?thesis
    by (fastforce simp: complete_handoff_def)
qed

section \<open>Idempotent resubmission\<close>

definition dedupe_hit :: "ControlRequest \<Rightarrow> CommandQueueItem \<Rightarrow> bool" where
  "dedupe_hit r i =
     (qi_kind i = rq_kind r \<and> qi_source i = rq_source r \<and> qi_dedupe_key i = rq_dedupe_key r
      \<and> qi_run_id i = rq_run_id r \<and> qi_thread_id i = rq_thread_id r \<and> qi_agent_id i = rq_agent_id r)"

text \<open>The scan seen from a row that is the first match of the request.\<close>

definition first_hit ::
  "ControlRequest \<Rightarrow> (string \<rightharpoonup> CommandQueueItem) \<Rightarrow> string list \<Rightarrow> CommandQueueItem \<Rightarrow> bool" where
  "first_hit r m os i =
     (\<exists>pre q post. os = pre @ q # post \<and> m q = Some i \<and> dedupe_hit r i
        \<and> (\<forall>p \<in> set pre. \<exists>j. m p = Some j \<and> \<not> dedupe_hit r j))"

lemma dedupe_scan_prefix:
  "(\<forall>p \<in> set pre. \<exists>j. m p = Some j \<and> \<not> dedupe_hit r j) \<Longrightarrow>
   dedupe_scan h r m (pre @ os) = dedupe_scan h r m os"
  by (induction pre) (auto simp: dedupe_hit_def)

lemma dedupe_scan_first:
  "first_hit r m os i \<Longrightarrow>
   dedupe_scan h r m os = (if qi_request_sha256 i = Some h then Inr (Some i) else Inl IdempotencyError)"
  by (auto simp: first_hit_def dedupe_scan_prefix dedupe_hit_def)

lemma dedupe_scan_Some:
  "dedupe_scan h r m os = Inr (Some i) \<Longrightarrow> first_hit r m os i \<and> qi_request_sha256 i = Some h"
proof (induction os)
  case (Cons q os)
  show ?case
  proof (cases "\<exists>j. m q = Some j \<and> dedupe_hit r j")
    case True
    then have "m q = Some i \<and> dedupe_hit r i \<and> qi_request_sha256 i = Some h"
      using Cons.prems by (auto simp: dedupe_hit_def split: if_splits)
    then show ?thesis unfolding first_hit_def by (metis append_Nil empty_iff empty_set)
  next
    case False
    with Cons.prems obtain j where j: "m q = Some j" "\<not> dedupe_hit r j"
      by (auto split: option.splits)
    have "dedupe_scan h r m (q # os) = dedupe_scan h r m os"
      using dedupe_scan_prefix [of "[q]" m r h os] j by simp
    with Cons have "first_hit r m os i \<and> qi_request_sha256 i = Some h" by simp
    then obtain pre p post where "os = pre @ p # post" "m p = Some i" "dedupe_hit r i"
      "\<forall>p \<in> set pre. \<exists>j. m p = Some j \<and> \<not> dedupe_hit r j" "qi_request_sha256 i = Some h"
      by (auto simp: first_hit_def)
    with j show ?thesis unfolding first_hit_def
      by (intro conjI exI [of _ "q # pre"] exI [of _ p] exI [of _ post]) auto
  qed
qed simp

lemma dedupe_scan_None:
  "dedupe_scan h r m os = Inr None \<Longrightarrow> \<forall>p \<in> set os. \<exists>j. m p = Some j \<and> \<not> dedupe_hit r j"
  by (induction os) (auto simp: dedupe_hit_def split: option.splits if_splits)

lemma dedupe_hit_key: "row_key j = row_key i \<Longrightarrow> dedupe_hit r j = dedupe_hit r i"
  by (simp add: dedupe_hit_def row_key_def)

lemma first_hit_evolves:
  assumes "first_hit r (cs_items s) (cs_order s) i" "store_evolves s s'"
  shows "\<exists>j. first_hit r (cs_items s') (cs_order s') j \<and> row_key j = row_key i"
proof -
  obtain pre q post where i: "cs_order s = pre @ q # post" "cs_items s q = Some i" "dedupe_hit r i"
    "\<forall>p \<in> set pre. \<exists>j. cs_items s p = Some j \<and> \<not> dedupe_hit r j"
    using assms(1) by (auto simp: first_hit_def)
  obtain post' where os: "cs_order s' = pre @ q # post'"
    using assms(2) i(1) by (auto simp: store_evolves_def prefix_def)
  have ev: "\<exists>k. cs_items s' p = Some k \<and> row_key k = row_key j" if "cs_items s p = Some j" for p j
    using that assms(2) by (fastforce simp: store_evolves_def row_evolves_def)
  obtain j where j: "cs_items s' q = Some j" "row_key j = row_key i" using ev [OF i(2)] by blast
  have "\<exists>k. cs_items s' p = Some k \<and> \<not> dedupe_hit r k" if "p \<in> set pre" for p
    using that i(4) ev dedupe_hit_key by metis
  then show ?thesis
    using os j i(3) dedupe_hit_key [OF j(2)] unfolding first_hit_def by blast
qed

lemma stop_pending_order [simp]: "cs_order (stop_pending now self ps s) = cs_order s"
proof -
  have [simp]: "cs_order (snd (mark_failed t q er s)) = cs_order s" for t q er s
    by (simp add: mark_failed_def Let_def split: option.splits)
  show ?thesis by (induction ps arbitrary: now s) auto
qed

lemma stop_pending_self [simp]: "cs_items (stop_pending now self ps s) self = cs_items s self"
  by (induction ps arbitrary: now s) (auto simp: mark_failed_other)

lemma dedupe_hit_new_row: "dedupe_hit r (new_row sha uid now r ph n)"
  by (simp add: dedupe_hit_def new_row_def)

lemma admit_accepted_row:
  assumes "admit_accepted sha uid now r rid st ph m s = (i, s1)"
  shows "cs_items s1 (''cmd_'' @ uid) = Some i \<and> cs_order s1 = cs_order s @ [''cmd_'' @ uid]
    \<and> dedupe_hit r i \<and> qi_request_sha256 i = Some (control_request_sha256 sha r)"
  using assms
  by (auto simp: admit_accepted_def insert_item_row Let_def put_item_def put_run_def dedupe_hit_def
      new_row_def split: if_splits)

lemma insert_item_accepted:
  assumes "insert_item sha uid now r ph s = (i, s1)"
  shows "cs_items s1 (''cmd_'' @ uid) = Some i \<and> cs_order s1 = cs_order s @ [''cmd_'' @ uid]
    \<and> dedupe_hit r i \<and> qi_request_sha256 i = Some (control_request_sha256 sha r)"
  using assms by (auto simp: insert_item_row Let_def dedupe_hit_def new_row_def)

lemma enqueue_new:
  assumes "dedupe_match sha r s = Inr None" "enqueue sha uid now r s = (Inr i, s1)"
  shows "cs_items s1 (''cmd_'' @ uid) = Some i \<and> cs_order s1 = cs_order s @ [''cmd_'' @ uid]
    \<and> dedupe_hit r i \<and> qi_request_sha256 i = Some (control_request_sha256 sha r)"
proof (cases "run_known s r \<and> requested_semantic_for_request r \<noteq> None")
  case True
  with assms have adm: "admit sha uid now r None s = (Inr i, s1)" by (simp add: enqueue_def)
  then obtain rid st ph m where "admit_accepted sha uid now r rid st ph m s = (i, s1)"
    using assms(1) by (auto simp: admit_def Let_def split_beta prod_eq_iff split: option.splits if_splits)
  then show ?thesis by (rule admit_accepted_row)
next
  case False
  then have "insert_item sha uid (now 0) r UNKNOWN s = (i, s1)"
    using assms by (auto simp: enqueue_def split_beta prod_eq_iff)
  then show ?thesis by (rule insert_item_accepted)
qed

lemma enqueue_deduped:
  assumes "dedupe_match sha r s = Inr (Some i)"
  shows "enqueue sha uid now r s = (Inr i, s)"
  using assms by (auto simp: enqueue_def admit_def run_known_def split: option.splits)

lemma enqueue_conflict:
  assumes "dedupe_match sha r s = Inl e"
  shows "enqueue sha uid now r s = (Inl e, s)"
  using assms by (auto simp: enqueue_def admit_def run_known_def split: option.splits)

lemma enqueue_first_hit:
  assumes ok: "store_ok s" and fresh: "''cmd_'' @ uid \<notin> set (cs_order s)"
    and key: "str_truthy (rq_dedupe_key r)" and q: "enqueue sha uid now r s = (Inr i, s1)"
  shows "first_hit r (cs_items s1) (cs_order s1) i \<and> qi_request_sha256 i = Some (control_request_sha256 sha r)"
proof -
  have dm: "dedupe_match sha r s' = dedupe_scan (control_request_sha256 sha r) r (cs_items s') (cs_order s')" for s'
    using key by (simp add: dedupe_match_def)
  show ?thesis
  proof (cases "dedupe_match sha r s")
    case (Inl e)
    then show ?thesis using enqueue_conflict q by (metis Inl_Inr_False fst_conv)
  next
    case (Inr o1)
    show ?thesis
    proof (cases o1)
      case None
      have new: "cs_items s1 (''cmd_'' @ uid) = Some i" "cs_order s1 = cs_order s @ [''cmd_'' @ uid]"
        "dedupe_hit r i" "qi_request_sha256 i = Some (control_request_sha256 sha r)"
        using enqueue_new [OF _ q] Inr None by auto
      have "store_evolves s s1"
        using store_path_evolves [OF enqueue_path [OF ok fresh, of "\<lambda>q a. True"] ok] q by (metis snd_conv)
      then have "\<exists>k. cs_items s1 p = Some k \<and> \<not> dedupe_hit r k" if "p \<in> set (cs_order s)" for p
        using that dedupe_scan_None Inr None dedupe_hit_key unfolding dm store_evolves_def row_evolves_def
        by metis
      with new show ?thesis unfolding first_hit_def by blast
    next
      case (Some j)
      then have "dedupe_match sha r s = Inr (Some j)" using Inr by simp
      moreover from this have "i = j \<and> s1 = s" using enqueue_deduped q by (metis Inr_inject Pair_inject)
      ultimately show ?thesis using dedupe_scan_Some unfolding dm by blast
    qed
  qed
qed

text \<open>Submitting a request with an idempotency key again, at any later time, returns the row of
  the first submission and changes nothing; a request that reuses the key on the same route with
  content of a different digest is refused and changes nothing.\<close>

lemma enqueue_idempotent:
  assumes reach: "history (exec_op sha) (\<lambda>s. s) any_op empty_store s"
    and fresh: "''cmd_'' @ uid \<notin> set (cs_order s)"
    and key: "str_truthy (rq_dedupe_key r)"
    and q: "enqueue sha uid now r s = (Inr i, s1)"
    and h: "history (exec_op sha) (\<lambda>s. s) any_op s1 s2"
  shows "(\<exists>j. enqueue sha uid' now' r s2 = (Inr j, s2) \<and> row_key j = row_key i)
    \<and> (rq_kind r' = rq_kind r \<and> rq_source r' = rq_source r \<and> rq_dedupe_key r' = rq_dedupe_key r
       \<and> rq_run_id r' = rq_run_id r \<and> rq_thread_id r' = rq_thread_id r \<and> rq_agent_id r' = rq_agent_id r
       \<and> control_request_sha256 sha r' \<noteq> control_request_sha256 sha r \<longrightarrow>
       enqueue sha uid' now' r' s2 = (Inl IdempotencyError, s2))"
proof -
  have ok: "store_ok s" using reach mem_queue.init_valid by (rule mem_queue.history_ok)
  have ok1: "store_ok s1"
    using store_path_ok [OF enqueue_path [OF ok fresh, of "\<lambda>q a. True"] ok] q by (metis snd_conv)
  obtain j where j: "first_hit r (cs_items s2) (cs_order s2) j" "row_key j = row_key i"
    using first_hit_evolves mem_queue.history_evolves [OF h ok1] enqueue_first_hit [OF ok fresh key q] by blast
  have sha: "qi_request_sha256 j = Some (control_request_sha256 sha r)"
    using j(2) enqueue_first_hit [OF ok fresh key q] by (simp add: row_key_def)
  have "dedupe_match sha r s2 = Inr (Some j)"
    using dedupe_scan_first [OF j(1)] sha key by (simp add: dedupe_match_def)
  moreover have "dedupe_match sha r' s2 = Inl IdempotencyError"
    if "rq_kind r' = rq_kind r" "rq_source r' = rq_source r" "rq_dedupe_key r' = rq_dedupe_key r"
      "rq_run_id r' = rq_run_id r" "rq_thread_id r' = rq_thread_id r" "rq_agent_id r' = rq_agent_id r"
      "control_request_sha256 sha r' \<noteq> control_request_sha256 sha r"
  proof -
    have "dedupe_hit r' = dedupe_hit r" using that by (auto simp: dedupe_hit_def fun_eq_iff)
    then have "first_hit r' (cs_items s2) (cs_order s2) j" using j(1) by (simp add: first_hit_def)
    from dedupe_scan_first [OF this] show ?thesis using that sha key by (simp add: dedupe_match_def)
  qed
  ultimately show ?thesis using enqueue_deduped enqueue_conflict j(2) by blast
qed

section \<open>A worked scenario\<close>

text \<open>A scenario for the theorems above: a run in the model phase with one steer, one redirect and one
  next-turn message.\<close>

definition demo_request :: "ControlKind \<Rightarrow> ControlPriority \<Rightarrow> string \<Rightarrow> string option \<Rightarrow> ControlRequest" where
  "demo_request k p txt key =
     \<lparr>rq_kind = k, rq_run_id = Some ''r'', rq_thread_id = None, rq_agent_id = None, rq_priority = p,
      rq_payload = [(''message'', PStr txt)], rq_source = ''host'', rq_dedupe_key = key,
      rq_control_id = ''c'', rq_created_at = ''t'', rq_metadata = []\<rparr>"

definition demo_env :: "string \<Rightarrow> call_env" where
  "demo_env u = \<lparr>ce_uid = u, ce_now = (\<lambda>_. ''t'')\<rparr>"

definition demo_ops :: "(call_env \<times> queue_op) list" where
  "demo_ops =
     [(demo_env ''0'', Set_Run_Phase ''r'' LLM_IN_FLIGHT None None),
      (demo_env ''1'', Admit (demo_request ENQUEUE_USER_MESSAGE NEXT ''n'' (Some ''k'')) None),
      (demo_env ''2'', Admit (demo_request STEER_USER_MESSAGE NOW ''s'' None) None),
      (demo_env ''3'', Admit (demo_request REDIRECT_USER_MESSAGE NOW ''x'' None) None)]"

definition demo_store :: InMemoryCommandQueueStore where
  "demo_store = run_ops (\<lambda>x. []) demo_ops empty_store"

lemma demo_reachable: "history (exec_op (\<lambda>x. [])) (\<lambda>s. s) any_op empty_store demo_store"
  unfolding demo_store_def by (rule run_ops_history) (code_simp, simp add: list_all_iff)

lemma demo_ok: "store_ok demo_store"
  by (rule mem_queue.history_ok [OF demo_reachable mem_queue.init_valid])

abbreviation (input) hist where
  "hist \<equiv> history (exec_op (\<lambda>x. [])) (\<lambda>s. s)"

lemma demo_future: "fresh_ops (\<lambda>x. []) h s \<Longrightarrow> hist any_op s (run_ops (\<lambda>x. []) h s)"
  by (rule run_ops_history) (simp_all add: list_all_iff)

lemma fst_Some: "fst p \<noteq> None \<Longrightarrow> p = (Some (the (fst p)), snd p)"
  by (cases p) auto

text \<open>Witnesses.\<close>

theorem queue_reachable_ok_witness: "store_ok demo_store"
  by (rule queue_reachable_ok [OF demo_reachable])

lemma list_pending_drain_order_witness:
  "map qi_queue_id (list_pending demo_store None None None) = [''cmd_3'', ''cmd_2'', ''cmd_1'']
   \<and> sorted_wrt (\<lambda>i j. (dispatch_order i, qi_sequence i) < (dispatch_order j, qi_sequence j))
       (list_pending demo_store None None None)"
proof -
  have "map qi_queue_id (list_pending demo_store None None None) = [''cmd_3'', ''cmd_2'', ''cmd_1'']"
    by code_simp
  then show ?thesis using list_pending_drain_order [OF demo_ok, of None None None] by blast
qed

definition demo_closed :: InMemoryCommandQueueStore where
  "demo_closed = run_ops (\<lambda>x. []) [(demo_env ''4'', Mark_Failed ''cmd_2'' ''e'')] demo_store"

definition demo_later :: InMemoryCommandQueueStore where
  "demo_later = run_ops (\<lambda>x. []) [(demo_env ''5'', Commit_Terminal ''r'' False)] demo_closed"

lemma demo_closed_reachable: "hist any_op empty_store demo_closed"
  unfolding demo_closed_def
  by (rule history_extend [OF demo_future demo_reachable]) code_simp

lemma queue_history_append_only_witness:
  "\<exists>i. cs_items demo_closed ''cmd_2'' = Some i \<and> cs_items demo_later ''cmd_2'' = Some i"
proof -
  have "(case cs_items demo_closed ''cmd_2'' of None \<Rightarrow> False | Some i \<Rightarrow> qi_status i = FAILED)" by code_simp
  then obtain i where i: "cs_items demo_closed ''cmd_2'' = Some i" "qi_status i = FAILED"
    by (auto split: option.splits)
  have "hist any_op demo_closed demo_later"
    unfolding demo_later_def by (rule demo_future) code_simp
  from queue_history_append_only [OF demo_closed_reachable this i(1)] i show ?thesis by auto
qed

theorem boundary_claim_exclusive_witness:
  "let p = claim_for_boundary ''t'' ''r'' ''A'' demo_store;
       p' = claim_for_boundary ''t'' ''r'' ''B'' (snd p)
   in fst p \<noteq> None \<and> fst p' \<noteq> None \<and> qi_queue_id (the (fst p')) \<noteq> qi_queue_id (the (fst p))"
proof -
  define p where "p = claim_for_boundary ''t'' ''r'' ''A'' demo_store"
  define p' where "p' = claim_for_boundary ''t'' ''r'' ''B'' (snd p)"
  have "fst p \<noteq> None" "fst p' \<noteq> None" unfolding p'_def p_def by code_simp+
  with boundary_claim_exclusive [OF demo_reachable, of "''t''" "''r''" "''A''", OF _ history.none]
  show ?thesis unfolding Let_def p_def [symmetric] p'_def [symmetric]
    by (metis fst_Some p_def p'_def)
qed

theorem hard_redirect_once_per_generation_witness:
  "fst (claim_hard_redirect ''t'' ''r'' ''A'' 0 demo_store) \<noteq> None
   \<and> fst (claim_hard_redirect ''t'' ''r'' ''B'' 0 (snd (claim_hard_redirect ''t'' ''r'' ''A'' 0 demo_store))) = None"
proof -
  have p: "fst (claim_hard_redirect ''t'' ''r'' ''A'' 0 demo_store) \<noteq> None" by code_simp
  from hard_redirect_once_per_generation [OF demo_reachable fst_Some [OF p] history.none] p
  show ?thesis by simp
qed

definition has_status :: "InMemoryCommandQueueStore \<Rightarrow> string \<Rightarrow> CommandQueueStatus \<Rightarrow> bool" where
  "has_status s q st = (case cs_items s q of None \<Rightarrow> False | Some i \<Rightarrow> qi_status i = st)"

lemma has_statusD: "has_status s q st \<Longrightarrow> \<exists>i. cs_items s q = Some i \<and> qi_status i = st"
  by (auto simp: has_status_def split: option.splits)

theorem commit_terminal_loses_nothing_witness:
  "\<exists>j. cs_items (snd (commit_terminal (\<lambda>_. ''t'') ''r'' False demo_store)) ''cmd_2'' = Some j
     \<and> qi_status j = QUEUED \<and> qi_resolved_semantic j = Some QUEUE_NEXT \<and> qi_handoff_id j = Some ''handoff_2''"
proof -
  have "case cs_items demo_store ''cmd_2'' of None \<Rightarrow> False | Some i \<Rightarrow>
      qi_status i = QUEUED \<and> qi_run_id i = Some ''r'' \<and> message_semantic (qi_requested_semantic i)"
    by code_simp
  then obtain i where i: "cs_items demo_store ''cmd_2'' = Some i" "qi_status i = QUEUED" "qi_run_id i = Some ''r''"
    "message_semantic (qi_requested_semantic i)" by (auto split: option.splits)
  have "\<not> prior_stopped ''r'' demo_store" "handoff_id ''cmd_2'' = ''handoff_2''" by code_simp+
  with commit_terminal_loses_nothing [OF demo_reachable i prod.collapse [symmetric], of "\<lambda>_. ''t''" False]
  show ?thesis by (auto split: if_splits)
qed

abbreviation (input) demo_stop :: ControlRequest where
  "demo_stop \<equiv> demo_request INTERRUPT NOW ''stop'' None"

lemma stop_preempts_pending_witness:
  "\<exists>i s'. admit (\<lambda>x. []) ''9'' (\<lambda>_. ''t'') demo_stop None demo_store = (Inr i, s')
     \<and> has_status s' ''cmd_1'' FAILED \<and> prior_stopped ''r'' s'"
proof -
  let ?p = "admit (\<lambda>x. []) ''9'' (\<lambda>_. ''t'') demo_stop None demo_store"
  have ok: "(case fst ?p of Inl e \<Rightarrow> False | Inr i \<Rightarrow> True)" by code_simp
  then obtain i where p: "?p = (Inr i, snd ?p)" by (cases ?p) (auto split: sum.splits)
  have fresh: "''cmd_'' @ ''9'' \<notin> set (cs_order demo_store)" by code_simp
  have r: "rq_run_id demo_stop = Some ''r''" "requested_semantic_for_request demo_stop = Some STOP" by code_simp+
  have d: "dedupe_match (\<lambda>x. []) demo_stop demo_store = Inr None"
    by (simp add: dedupe_match_def demo_request_def)
  have "case cs_items demo_store ''cmd_1'' of None \<Rightarrow> False | Some j \<Rightarrow>
      qi_status j = QUEUED \<and> qi_run_id j = Some ''r'' \<and> message_semantic (qi_requested_semantic j)"
    by code_simp
  then obtain j where "cs_items demo_store ''cmd_1'' = Some j" "qi_status j = QUEUED" "qi_run_id j = Some ''r''"
    "message_semantic (qi_requested_semantic j)" by (auto split: option.splits)
  with stop_preempts_pending [OF demo_reachable fresh r d p]
  have "\<exists>k. cs_items (snd ?p) ''cmd_1'' = Some k \<and> qi_status k = FAILED" "prior_stopped ''r'' (snd ?p)" by blast+
  with p show ?thesis unfolding has_status_def by (intro exI [of _ i] exI [of _ "snd ?p"]) auto
qed

definition demo_stopped :: InMemoryCommandQueueStore where
  "demo_stopped = run_ops (\<lambda>x. []) [(demo_env ''9'', Admit demo_stop None)] demo_store"

theorem stop_fence_permanent_witness:
  "prior_stopped ''r'' demo_stopped
   \<and> claim_hard_redirect ''t'' ''r'' ''A'' 0 demo_stopped = (None, demo_stopped)
   \<and> (\<exists>code. admit (\<lambda>x. []) ''8'' (\<lambda>_. ''t'') (demo_request STEER_USER_MESSAGE NOW ''again'' None) None demo_stopped
        = (Inl (AdmissionError code), demo_stopped))"
proof -
  have reach: "hist any_op empty_store demo_stopped"
    unfolding demo_stopped_def by (rule history_extend [OF demo_future demo_reachable]) code_simp
  have st: "prior_stopped ''r'' demo_stopped" by code_simp
  have "dedupe_match (\<lambda>x. []) (demo_request STEER_USER_MESSAGE NOW ''again'' None) demo_stopped = Inr None"
    "rq_run_id (demo_request STEER_USER_MESSAGE NOW ''again'' None) = Some ''r''"
    by (simp_all add: dedupe_match_def demo_request_def)
  with stop_fence_permanent [OF reach st history.none] st show ?thesis by blast
qed

definition demo_terminal :: InMemoryCommandQueueStore where
  "demo_terminal = run_ops (\<lambda>x. []) [(demo_env ''7'', Commit_Terminal ''r'' False)] demo_store"

lemma demo_terminal_reachable: "hist any_op empty_store demo_terminal"
  unfolding demo_terminal_def by (rule history_extend [OF demo_future demo_reachable]) code_simp

lemma handoff_retry_idempotent_witness:
  "let p = claim_next_handoff ''t'' ''r'' ''H'' demo_terminal
   in fst p \<noteq> None \<and> claim_next_handoff ''u'' ''r'' ''H'' (snd p) = p"
proof -
  have p: "fst (claim_next_handoff ''t'' ''r'' ''H'' demo_terminal) \<noteq> None" by code_simp
  from handoff_retry_idempotent [OF demo_terminal_reachable fst_Some [OF p], of "''u''"] p
  show ?thesis unfolding Let_def by (metis fst_Some)
qed

definition demo_claimed :: InMemoryCommandQueueStore where
  "demo_claimed = run_ops (\<lambda>x. []) [(demo_env ''7'', Claim_Next_Handoff ''r'' ''H'')] demo_terminal"

lemma handoff_completes_once_witness:
  "\<exists>j s1. complete_handoff ''t'' ''cmd_3'' ''H'' ''turn1'' demo_claimed = (Some j, s1)
     \<and> qi_destination_turn_id j = Some ''turn1''
     \<and> complete_handoff ''u'' ''cmd_3'' ''H'' ''turn2'' s1 = (Some j, s1)"
proof -
  have reach: "hist any_op empty_store demo_claimed"
    unfolding demo_claimed_def by (rule history_extend [OF demo_future demo_terminal_reachable]) code_simp
  have "case cs_items demo_claimed ''cmd_3'' of None \<Rightarrow> False | Some i \<Rightarrow> qi_status i = QUEUED \<and> qi_claimed_by i = Some ''H''"
    by code_simp
  then obtain i where i: "cs_items demo_claimed ''cmd_3'' = Some i" "qi_status i = QUEUED" "qi_claimed_by i = Some ''H''"
    by (auto split: option.splits)
  have p: "fst (complete_handoff ''t'' ''cmd_3'' ''H'' ''turn1'' demo_claimed) \<noteq> None" by code_simp
  from handoff_completes_once [OF reach i fst_Some [OF p] history.none, of "''u''" "''H''" "''turn2''"] fst_Some [OF p]
  show ?thesis by metis
qed

abbreviation (input) demo_keyed :: "string \<Rightarrow> ControlRequest" where
  "demo_keyed txt \<equiv> demo_request ENQUEUE_USER_MESSAGE NEXT txt (Some ''k2'')"

lemma enqueue_idempotent_witness:
  "\<exists>i s1. enqueue (\<lambda>x. x) ''5'' (\<lambda>_. ''t'') (demo_keyed ''a'') empty_store = (Inr i, s1)
     \<and> (\<exists>j. enqueue (\<lambda>x. x) ''6'' (\<lambda>_. ''u'') (demo_keyed ''a'') s1 = (Inr j, s1) \<and> row_key j = row_key i)
     \<and> enqueue (\<lambda>x. x) ''6'' (\<lambda>_. ''u'') (demo_keyed ''b'') s1 = (Inl IdempotencyError, s1)"
proof -
  let ?p = "enqueue (\<lambda>x. x) ''5'' (\<lambda>_. ''t'') (demo_keyed ''a'') empty_store"
  have "(case fst ?p of Inl e \<Rightarrow> False | Inr i \<Rightarrow> True)" by code_simp
  then obtain i where p: "?p = (Inr i, snd ?p)" by (cases ?p) (auto split: sum.splits)
  have fresh: "''cmd_'' @ ''5'' \<notin> set (cs_order empty_store)" by simp
  have k: "str_truthy (rq_dedupe_key (demo_keyed ''a''))" by (simp add: demo_request_def)
  have "control_request_sha256 (\<lambda>x. x) (demo_keyed ''b'') \<noteq> control_request_sha256 (\<lambda>x. x) (demo_keyed ''a'')"
    by code_simp
  with enqueue_idempotent [OF history.none fresh k p history.none, of "''6''" "\<lambda>_. ''u''" "demo_keyed ''b''"] p
  show ?thesis by (intro exI [of _ i] exI [of _ "snd ?p"]) (simp add: demo_request_def)
qed

section \<open>Two observations on the hand-off\<close>

text \<open>The hand-off takes the row of the smallest dispatch rank, not the oldest one: the promoted
  redirect is handed off before the next-turn message that was accepted first.\<close>

lemma handoff_follows_rank:
  "map_option qi_queue_id (fst (claim_next_handoff ''t'' ''r'' ''H'' demo_terminal)) = Some ''cmd_3''
   \<and> cs_order demo_terminal = [''cmd_1'', ''cmd_2'', ''cmd_3''] \<and> has_status demo_terminal ''cmd_1'' QUEUED"
  by (intro conjI) code_simp+

text \<open>A second terminal commit clears the claim on a promoted row, and another claimant gets it.\<close>

lemma second_commit_drops_claim:
  "map_option qi_queue_id
     (fst (claim_next_handoff ''t'' ''r'' ''other''
        (snd (commit_terminal (\<lambda>_. ''t'') ''r'' False demo_claimed)))) = Some ''cmd_3''"
  by code_simp

end
