(* ===== verification/Sqlite_Queue.thy ===== *)
theory Sqlite_Queue
  imports Queue_Laws
begin

text \<open>
  The SQLite command queue (\<open>runtime/control/sqlite.py\<close>). The store keeps one row per command,
  whose payload column is the JSON text of the item, and one row per run state. A mutating call
  loads the whole table into an in-memory queue, quarantines rows without a schema version, runs
  the reference operation there and writes everything back; an exception leaves the table as it
  was. Serialisation (\<open>model_dump_json\<close>, \<open>model_validate_json\<close>) is a parameter of the model that is
  assumed to round-trip. The theory shows that the table represents exactly the in-memory store
  that the same calls would have built.
\<close>

section \<open>Tables\<close>

record ('t, 'u) codec =
  dump_item :: "CommandQueueItem \<Rightarrow> 't"
  load_item :: "'t \<Rightarrow> CommandQueueItem"
  dump_state :: "LiveRunState \<Rightarrow> 'u"
  load_state :: "'u \<Rightarrow> LiveRunState"

definition codec_ok :: "('t, 'u) codec \<Rightarrow> bool" where
  "codec_ok c = ((\<forall>i. load_item c (dump_item c i) = i) \<and> (\<forall>s. load_state c (dump_state c s) = s))"

record 't sql_queue_row =
  sr_queue_id :: string
  sr_control_id :: string
  sr_run_id :: "string option"
  sr_thread_id :: "string option"
  sr_agent_id :: "string option"
  sr_priority :: string
  sr_kind :: string
  sr_status :: string
  sr_source :: string
  sr_dedupe_key :: "string option"
  sr_created_at :: string
  sr_payload :: 't

text \<open>The run-state table is a map on its primary key, since the code never depends on its row
  order; the command table is a list in row order. The third table holds the schema version.\<close>

record ('t, 'u) SqliteCommandQueueStore =
  sq_rows :: "'t sql_queue_row list"
  sq_states :: "string \<rightharpoonup> 'u"
  sq_version :: "string option"

definition sql_init :: "('t, 'u) SqliteCommandQueueStore" where
  "sql_init = \<lparr>sq_rows = [], sq_states = Map.empty, sq_version = Some ''1''\<rparr>"

section \<open>Reading\<close>

definition by_creation :: "'t sql_queue_row list \<Rightarrow> 't sql_queue_row list" where
  "by_creation rows = sort_key (\<lambda>r. (sr_created_at r, sr_queue_id r)) rows"

definition sequence_key :: "CommandQueueItem \<Rightarrow> int \<times> string" where
  "sequence_key i = (if qi_sequence i \<noteq> 0 then qi_sequence i else 2 ^ 63, qi_created_at i)"

definition sql_get ::
  "('t, 'u) codec \<Rightarrow> ('t, 'u) SqliteCommandQueueStore \<Rightarrow> string \<Rightarrow> CommandQueueItem option" where
  "sql_get c t q =
     (case filter (\<lambda>r. sr_queue_id r = q) (sq_rows t) of
        [] \<Rightarrow> None
      | r # _ \<Rightarrow> Some (load_item c (sr_payload r)))"

definition sql_list_pending ::
  "('t, 'u) codec \<Rightarrow> ('t, 'u) SqliteCommandQueueStore \<Rightarrow> string option \<Rightarrow> string option \<Rightarrow>
   string option \<Rightarrow> CommandQueueItem list" where
  "sql_list_pending c t rid tid aid =
     sort_key (\<lambda>i. (dispatch_order i, qi_sequence i, qi_created_at i))
       (filter (matches_route rid tid aid)
         (map (load_item c \<circ> sr_payload)
           (by_creation (filter (\<lambda>r. sr_status r = status_value QUEUED) (sq_rows t)))))"

definition sql_list_for_run ::
  "('t, 'u) codec \<Rightarrow> ('t, 'u) SqliteCommandQueueStore \<Rightarrow> string \<Rightarrow> CommandQueueItem list" where
  "sql_list_for_run c t rid =
     sort_key sequence_key
       (map (load_item c \<circ> sr_payload)
         (by_creation (filter (\<lambda>r. sr_run_id r = Some rid) (sq_rows t))))"

definition sql_dequeue_next ::
  "('t, 'u) codec \<Rightarrow> ('t, 'u) SqliteCommandQueueStore \<Rightarrow> string option \<Rightarrow> string option \<Rightarrow>
   string option \<Rightarrow> CommandQueueItem option" where
  "sql_dequeue_next c t rid tid aid =
     (case sql_list_pending c t rid tid aid of [] \<Rightarrow> None | i # _ \<Rightarrow> Some i)"

definition sql_get_run_state ::
  "('t, 'u) codec \<Rightarrow> ('t, 'u) SqliteCommandQueueStore \<Rightarrow> string \<Rightarrow> LiveRunState option" where
  "sql_get_run_state c t rid = map_option (load_state c) (sq_states t rid)"

definition sql_current_llm_generation ::
  "('t, 'u) codec \<Rightarrow> ('t, 'u) SqliteCommandQueueStore \<Rightarrow> string \<Rightarrow> int" where
  "sql_current_llm_generation c t rid =
     (case sql_get_run_state c t rid of None \<Rightarrow> 0 | Some st \<Rightarrow> rs_llm_generation st)"

section \<open>Load, run, persist\<close>

definition snapshot_unlocked ::
  "('t, 'u) codec \<Rightarrow> ('t, 'u) SqliteCommandQueueStore \<Rightarrow> InMemoryCommandQueueStore" where
  "snapshot_unlocked c t =
     (let items = sort_key sequence_key
            (map (load_item c \<circ> sr_payload) (by_creation (sq_rows t)))
      in \<lparr>cs_items = map_of (rev (map (\<lambda>i. (qi_queue_id i, i)) items)),
          cs_order = map qi_queue_id items,
          cs_runs = (\<lambda>r. map_option (load_state c) (sq_states t r))\<rparr>)"

definition row_of_item :: "('t, 'u) codec \<Rightarrow> CommandQueueItem \<Rightarrow> 't sql_queue_row" where
  "row_of_item c i =
     \<lparr>sr_queue_id = qi_queue_id i, sr_control_id = qi_control_id i, sr_run_id = qi_run_id i,
      sr_thread_id = qi_thread_id i, sr_agent_id = qi_agent_id i,
      sr_priority = priority_value (qi_priority i), sr_kind = kind_value (qi_kind i),
      sr_status = status_value (qi_status i), sr_source = qi_source i,
      sr_dedupe_key = qi_dedupe_key i, sr_created_at = qi_created_at i, sr_payload = dump_item c i\<rparr>"

text \<open>\<open>INSERT OR REPLACE\<close> drops the row of the same primary key and adds the new one.\<close>

definition insert_or_replace :: "'t sql_queue_row \<Rightarrow> 't sql_queue_row list \<Rightarrow> 't sql_queue_row list" where
  "insert_or_replace r rows = filter (\<lambda>x. sr_queue_id x \<noteq> sr_queue_id r) rows @ [r]"

text \<open>The dictionary of items keeps its keys in insertion order, which is the order list; the run
  states are stored under their own run identifier, which is their key.\<close>

definition persist_snapshot_unlocked ::
  "('t, 'u) codec \<Rightarrow> InMemoryCommandQueueStore \<Rightarrow> ('t, 'u) SqliteCommandQueueStore \<Rightarrow>
   ('t, 'u) SqliteCommandQueueStore" where
  "persist_snapshot_unlocked c m t =
     t\<lparr>sq_rows := fold (\<lambda>i. insert_or_replace (row_of_item c i))
         (List.map_filter (cs_items m) (cs_order m)) (sq_rows t),
       sq_states := (\<lambda>r. case cs_runs m r of None \<Rightarrow> sq_states t r | Some st \<Rightarrow> Some (dump_state c st))\<rparr>"

definition sql_mutate ::
  "('t, 'u) codec \<Rightarrow> (string \<Rightarrow> string) \<Rightarrow> clock \<Rightarrow> call_env \<Rightarrow> queue_op \<Rightarrow>
   ('t, 'u) SqliteCommandQueueStore \<Rightarrow>
   (control_error + queue_result) \<times> ('t, 'u) SqliteCommandQueueStore" where
  "sql_mutate c sha qnow e op t =
     (case quarantine_legacy_rows qnow (snapshot_unlocked c t) of
        (Inl er, m) \<Rightarrow> (Inl er, t)
      | (Inr quarantined, m) \<Rightarrow>
          (case (if op = Quarantine_Legacy_Rows then (Inr (Rows quarantined), m)
                 else exec_op sha e op m) of
             (Inl er, m') \<Rightarrow> (Inl er, t)
           | (Inr res, m') \<Rightarrow> (Inr res, persist_snapshot_unlocked c m' t)))"

definition sql_run ::
  "('t, 'u) codec \<Rightarrow> (string \<Rightarrow> string) \<Rightarrow> call_env \<Rightarrow> queue_op \<Rightarrow>
   ('t, 'u) SqliteCommandQueueStore \<Rightarrow>
   (control_error + queue_result) \<times> ('t, 'u) SqliteCommandQueueStore" where
  "sql_run c sha e op t = sql_mutate c sha (ce_now e) e op t"

section \<open>The table represents a store\<close>

definition sql_valid :: "('t, 'u) codec \<Rightarrow> ('t, 'u) SqliteCommandQueueStore \<Rightarrow> bool" where
  "sql_valid c t =
     (distinct (map sr_queue_id (sq_rows t))
      \<and> (\<forall>r \<in> set (sq_rows t). r = row_of_item c (load_item c (sr_payload r)))
      \<and> store_ok (snapshot_unlocked c t))"

lemma row_of_item_fields [simp]:
  "sr_queue_id (row_of_item c i) = qi_queue_id i"
  "sr_run_id (row_of_item c i) = qi_run_id i"
  "sr_status (row_of_item c i) = status_value (qi_status i)"
  "sr_payload (row_of_item c i) = dump_item c i"
  "sr_created_at (row_of_item c i) = qi_created_at i"
  by (simp_all add: row_of_item_def)

text \<open>The rows of a store, in order.\<close>

definition ordered_items :: "InMemoryCommandQueueStore \<Rightarrow> CommandQueueItem list" where
  "ordered_items m = List.map_filter (cs_items m) (cs_order m)"

lemma ordered_items_ok:
  assumes "store_ok m"
  shows "map qi_queue_id (ordered_items m) = cs_order m"
    and "set (ordered_items m) = ran (cs_items m)"
    and "map qi_sequence (ordered_items m) = map (\<lambda>n. int n + 1) [0..<length (cs_order m)]"
proof -
  have all: "\<forall>n < length (cs_order m). \<exists>i. cs_items m (cs_order m ! n) = Some i
      \<and> qi_queue_id i = cs_order m ! n \<and> qi_sequence i = int n + 1"
    using assms by (auto simp: store_ok_def)
  have "filter (\<lambda>x. cs_items m x \<noteq> None) (cs_order m) = cs_order m"
    using assms by (auto simp: store_ok_def dom_def intro!: filter_True)
  then have o: "ordered_items m = map (the \<circ> cs_items m) (cs_order m)"
    by (simp add: ordered_items_def List.map_filter_def comp_def)
  show "map qi_queue_id (ordered_items m) = cs_order m"
    unfolding o using all by (intro nth_equalityI) fastforce+
  show "map qi_sequence (ordered_items m) = map (\<lambda>n. int n + 1) [0..<length (cs_order m)]"
    unfolding o using all by (intro nth_equalityI) fastforce+
  show "set (ordered_items m) = ran (cs_items m)"
    using assms by (force simp: ordered_items_def set_map_filter_ex store_ok_def ran_def dom_def)
qed

lemma ordered_distinct:
  assumes "store_ok m"
  shows "distinct (ordered_items m)" "sorted (map qi_sequence (ordered_items m))"
    "inj_on qi_sequence (set (ordered_items m))"
    "\<And>i. i \<in> set (ordered_items m) \<Longrightarrow> 0 < qi_sequence i"
proof -
  note seq = ordered_items_ok(3) [OF assms]
  have d: "distinct (map qi_sequence (ordered_items m))"
    unfolding seq by (simp add: distinct_map inj_on_def)
  then show "distinct (ordered_items m)" "inj_on qi_sequence (set (ordered_items m))"
    by (simp_all add: distinct_map)
  show "sorted (map qi_sequence (ordered_items m))"
    unfolding seq by (simp add: sorted_iff_nth_mono)
  show "0 < qi_sequence i" if "i \<in> set (ordered_items m)" for i
  proof -
    have "qi_sequence i \<in> set (map qi_sequence (ordered_items m))" using that by auto
    then show ?thesis unfolding seq by auto
  qed
qed

lemma sort_by_sequence:
  assumes "store_ok m" "distinct xs" "set xs = set (ordered_items m)"
  shows "sort_key sequence_key xs = ordered_items m"
proof (rule sort_key_unique [OF ordered_distinct(3,2,1) assms(2,3)])
  fix x y
  assume "x \<in> set (ordered_items m)" "y \<in> set (ordered_items m)" "sequence_key x \<le> sequence_key y"
  then show "qi_sequence x \<le> qi_sequence y"
    using ordered_distinct(4) [OF assms(1), of x] ordered_distinct(4) [OF assms(1), of y]
    by (auto simp: sequence_key_def split: if_splits)
qed (fact assms(1))+

lemma map_of_ordered:
  assumes "store_ok m"
  shows "map_of (rev (map (\<lambda>i. (qi_queue_id i, i)) (ordered_items m))) = cs_items m"
proof
  fix q
  let ?xs = "map (\<lambda>i. (qi_queue_id i, i)) (ordered_items m)"
  have keys: "map fst ?xs = cs_order m"
    using ordered_items_ok(1) [OF assms] by (simp add: comp_def)
  then have d: "distinct (map fst (rev ?xs))"
    using assms by (simp add: store_ok_def flip: rev_map)
  show "map_of (rev ?xs) q = cs_items m q"
  proof (cases "cs_items m q")
    case None
    then have "q \<notin> set (map fst ?xs)" unfolding keys using assms by (auto simp: store_ok_def)
    then have "q \<notin> fst ` set (rev ?xs)" by (simp add: image_image)
    then show ?thesis using None by (metis map_of_eq_None_iff)
  next
    case (Some i)
    then have "(q, i) \<in> set (rev ?xs)"
      using ordered_items_ok(2) [OF assms] store_ok_item [OF assms Some] by (auto simp: ran_def)
    then show ?thesis using Some map_of_is_SomeI [OF d] by simp
  qed
qed

text \<open>A table that holds exactly the rows of a well-formed store is read back as that store.\<close>

lemma snapshot_of_rows:
  assumes c: "codec_ok c" and ok: "store_ok m"
    and rows: "distinct (map sr_queue_id (sq_rows t))"
      "set (sq_rows t) = row_of_item c ` set (ordered_items m)"
    and states: "\<And>r. map_option (load_state c) (sq_states t r) = cs_runs m r"
  shows "snapshot_unlocked c t = m"
proof -
  let ?L = "map (load_item c \<circ> sr_payload) (by_creation (sq_rows t))"
  have load: "load_item c (sr_payload (row_of_item c i)) = i" for i using c by (simp add: codec_ok_def)
  have "set ?L = set (ordered_items m)"
    using c by (simp add: by_creation_def rows(2) image_image comp_def codec_ok_def)
  moreover have "distinct ?L"
  proof -
    have "distinct (sq_rows t)" using rows(1) by (simp add: distinct_map)
    moreover have "inj_on (load_item c \<circ> sr_payload) (set (sq_rows t))"
      by (auto simp: inj_on_def rows(2) load [unfolded row_of_item_fields])
    ultimately show ?thesis by (simp add: by_creation_def distinct_map)
  qed
  ultimately have "sort_key sequence_key ?L = ordered_items m" by (intro sort_by_sequence [OF ok])
  then show ?thesis
    unfolding snapshot_unlocked_def Let_def
    using map_of_ordered [OF ok] ordered_items_ok(1) [OF ok] states by (cases m) (simp add: fun_eq_iff)
qed

lemma valid_rows:
  assumes "sql_valid c t"
  shows "set (sq_rows t) = row_of_item c ` set (ordered_items (snapshot_unlocked c t))"
    and "ordered_items (snapshot_unlocked c t)
       = sort_key sequence_key (map (load_item c \<circ> sr_payload) (by_creation (sq_rows t)))"
proof -
  let ?I = "sort_key sequence_key (map (load_item c \<circ> sr_payload) (by_creation (sq_rows t)))"
  have ids: "qi_queue_id (load_item c (sr_payload r)) = sr_queue_id r" if "r \<in> set (sq_rows t)" for r
    using that assms unfolding sql_valid_def by (metis row_of_item_fields(1))
  have "distinct (map qi_queue_id ?I)"
    using assms by (simp add: sql_valid_def store_ok_def snapshot_unlocked_def Let_def)
  then have "map_of (rev (map (\<lambda>i. (qi_queue_id i, i)) ?I)) (qi_queue_id i) = Some i" if "i \<in> set ?I" for i
    using that by (intro map_of_is_SomeI) (auto simp: comp_def simp flip: rev_map)
  then have "List.map_filter (map_of (rev (map (\<lambda>i. (qi_queue_id i, i)) ?I))) (map qi_queue_id xs) = xs"
    if "set xs \<subseteq> set ?I" for xs
    using that by (induction xs) (auto simp: map_filter_simps)
  then show o: "ordered_items (snapshot_unlocked c t) = ?I"
    by (simp add: ordered_items_def snapshot_unlocked_def Let_def)
  have "row_of_item c ` (\<lambda>r. load_item c (sr_payload r)) ` set (sq_rows t) = set (sq_rows t)"
  proof -
    have "row_of_item c (load_item c (sr_payload r)) = r" if "r \<in> set (sq_rows t)" for r
      using that assms by (metis sql_valid_def)
    then show ?thesis by (simp add: image_image)
  qed
  then show "set (sq_rows t) = row_of_item c ` set (ordered_items (snapshot_unlocked c t))"
    unfolding o by (simp add: by_creation_def comp_def)
qed

section \<open>A call on the table is a call on the store\<close>

lemma insert_or_replace_ids:
  "sr_queue_id ` set (insert_or_replace r rows) = insert (sr_queue_id r) (sr_queue_id ` set rows)"
  by (auto simp: insert_or_replace_def)

lemma insert_or_replace_distinct:
  "distinct (map sr_queue_id rows) \<Longrightarrow> distinct (map sr_queue_id (insert_or_replace r rows))"
  by (auto simp: insert_or_replace_def distinct_map_filter)

lemma fold_insert_or_replace:
  assumes "distinct (map qi_queue_id is)"
  shows "set (fold (\<lambda>i. insert_or_replace (row_of_item c i)) is rows)
    = row_of_item c ` set is \<union> {r \<in> set rows. sr_queue_id r \<notin> qi_queue_id ` set is}"
  using assms
proof (induction "is" arbitrary: rows)
  case (Cons i "is")
  have "qi_queue_id i \<notin> qi_queue_id ` set is" using Cons.prems by simp
  then show ?case
    using Cons by (auto simp: insert_or_replace_def)
qed simp

lemma fold_insert_or_replace_distinct:
  "distinct (map sr_queue_id rows) \<Longrightarrow>
   distinct (map sr_queue_id (fold (\<lambda>i. insert_or_replace (row_of_item c i)) is rows))"
  by (induction "is" arbitrary: rows) (auto intro: insert_or_replace_distinct)

lemma persist_snapshot:
  assumes c: "codec_ok c" and v: "sql_valid c t" and ok: "store_ok m"
    and ev: "store_evolves (snapshot_unlocked c t) m"
  shows "snapshot_unlocked c (persist_snapshot_unlocked c m t) = m
    \<and> sql_valid c (persist_snapshot_unlocked c m t)"
proof -
  let ?t = "persist_snapshot_unlocked c m t"
  have ids: "distinct (map qi_queue_id (ordered_items m))"
    using ok ordered_items_ok(1) [OF ok] by (simp add: store_ok_def)
  have covered: "sr_queue_id ` set (sq_rows t) \<subseteq> qi_queue_id ` set (ordered_items m)"
  proof -
    have "sr_queue_id ` set (sq_rows t) = set (cs_order (snapshot_unlocked c t))"
      using ordered_items_ok(1) [of "snapshot_unlocked c t"] v
      unfolding valid_rows(1) [OF v] sql_valid_def by (metis (no_types, lifting) image_cong image_image
          list.set_map row_of_item_fields(1))
    also have "\<dots> \<subseteq> set (cs_order m)" using ev by (auto simp: store_evolves_def prefix_def)
    also have "\<dots> = qi_queue_id ` set (ordered_items m)" using ordered_items_ok(1) [OF ok] by (metis list.set_map)
    finally show ?thesis .
  qed
  have rows: "set (sq_rows ?t) = row_of_item c ` set (ordered_items m)"
  proof -
    have none: "{r \<in> set (sq_rows t). sr_queue_id r \<notin> qi_queue_id ` set (ordered_items m)} = {}"
      using covered by blast
    show ?thesis using fold_insert_or_replace [OF ids, of c "sq_rows t"] unfolding none
      by (simp add: persist_snapshot_unlocked_def ordered_items_def [symmetric])
  qed
  have dist: "distinct (map sr_queue_id (sq_rows ?t))"
    using v fold_insert_or_replace_distinct by (auto simp: persist_snapshot_unlocked_def sql_valid_def)
  have "map_option (load_state c) (sq_states ?t r) = cs_runs m r" for r
  proof (cases "cs_runs m r")
    case None
    then have "cs_runs (snapshot_unlocked c t) r = None"
      using ev unfolding store_evolves_def by (metis not_Some_eq)
    with None show ?thesis by (simp add: persist_snapshot_unlocked_def snapshot_unlocked_def Let_def)
  next
    case (Some st)
    then show ?thesis using c by (simp add: persist_snapshot_unlocked_def codec_ok_def)
  qed
  then have snap: "snapshot_unlocked c ?t = m" by (rule snapshot_of_rows [OF c ok dist rows])
  have "r = row_of_item c (load_item c (sr_payload r))" if "r \<in> set (sq_rows ?t)" for r
    using that c by (auto simp: rows codec_ok_def)
  with dist snap ok show ?thesis by (simp add: sql_valid_def)
qed

lemma quarantine_none:
  assumes "store_ok s"
  shows "quarantine_legacy_rows now s = (Inr [], s)"
proof -
  have "quarantine_loop now qs ch s = (Inr ch, s)" if "set qs \<subseteq> dom (cs_items s)" for qs ch
    using that
  proof (induction qs)
    case (Cons q qs)
    then obtain i where i: "cs_items s q = Some i" by auto
    then have "\<not> legacy_row i" using store_ok_item [OF assms i] by (simp add: row_ok_def legacy_row_def)
    with i Cons show ?case by simp
  qed simp
  then show ?thesis using assms by (simp add: quarantine_legacy_rows_def store_ok_def)
qed

lemma exec_error_unchanged:
  assumes "store_ok s" "fst (exec_op sha e op s) = Inl er"
  shows "snd (exec_op sha e op s) = s"
  using assms quarantine_none [OF assms(1)]
  by (cases op) (auto simp: returning_def raising_def enqueue_def admit_def Let_def split_beta
      split: option.splits sum.splits if_splits)

lemma sql_run_refines:
  assumes c: "codec_ok c" and v: "sql_valid c t" and f: "fresh_env e (snapshot_unlocked c t)"
  shows "fst (sql_run c sha e op t) = fst (exec_op sha e op (snapshot_unlocked c t))
    \<and> snapshot_unlocked c (snd (sql_run c sha e op t)) = snd (exec_op sha e op (snapshot_unlocked c t))
    \<and> sql_valid c (snd (sql_run c sha e op t))"
proof -
  let ?m = "snapshot_unlocked c t"
  have ok: "store_ok ?m" using v by (simp add: sql_valid_def)
  have run: "sql_run c sha e op t = (case exec_op sha e op ?m of (Inl er, m') \<Rightarrow> (Inl er, t)
      | (Inr res, m') \<Rightarrow> (Inr res, persist_snapshot_unlocked c m' t))"
    using quarantine_none [OF ok]
    by (cases "op = Quarantine_Legacy_Rows") (simp_all add: sql_run_def sql_mutate_def raising_def)
  obtain r m' where x: "exec_op sha e op ?m = (r, m')" by fastforce
  have path: "store_path (op_acts op) ?m m'" using exec_op_path [OF ok f] x by (metis snd_conv)
  show ?thesis
  proof (cases r)
    case (Inl er)
    then have "m' = ?m" using exec_error_unchanged [OF ok] x by (metis fst_conv snd_conv)
    with Inl x v show ?thesis by (simp add: run)
  next
    case (Inr res)
    then show ?thesis
      using persist_snapshot [OF c v store_path_ok [OF path ok] store_path_evolves [OF path ok]] x
      by (simp add: run)
  qed
qed

lemma sql_queue_store:
  assumes "codec_ok c"
  shows "command_queue_store sha (sql_run c sha) (snapshot_unlocked c) (sql_valid c) sql_init"
proof
  have snap: "snapshot_unlocked c sql_init = empty_store"
    by (simp add: snapshot_unlocked_def sql_init_def by_creation_def)
  then show "snapshot_unlocked c sql_init = empty_store" .
  show "sql_valid c sql_init"
    using mem_queue.init_valid by (simp add: sql_valid_def snap) (simp add: sql_init_def)
  show "store_ok (snapshot_unlocked c t)" if "sql_valid c t" for t using that by (simp add: sql_valid_def)
qed (use sql_run_refines [OF assms] in blast)+

section \<open>Reads of the table are reads of the store\<close>

lemma status_value_inj [simp]: "status_value a = status_value b \<longleftrightarrow> a = b"
  by (cases a; cases b) simp_all

lemma loaded_filter:
  assumes "sql_valid c t" and P: "\<And>i. P (row_of_item c i) \<longleftrightarrow> Q i"
  shows "set (map (load_item c \<circ> sr_payload) (by_creation (filter P (sq_rows t))))
       = {i \<in> set (ordered_items (snapshot_unlocked c t)). Q i}"
    and "distinct (map (load_item c \<circ> sr_payload) (by_creation (filter P (sq_rows t))))"
proof -
  have row: "row_of_item c (load_item c (sr_payload r)) = r" if "r \<in> set (sq_rows t)" for r
    using that assms(1) by (metis sql_valid_def)
  then have PQ: "P r \<longleftrightarrow> Q (load_item c (sr_payload r))" if "r \<in> set (sq_rows t)" for r
    using that P by metis
  show "set (map (load_item c \<circ> sr_payload) (by_creation (filter P (sq_rows t))))
       = {i \<in> set (ordered_items (snapshot_unlocked c t)). Q i}"
    unfolding valid_rows(2) [OF assms(1)] using PQ by (auto simp: by_creation_def)
  have "inj_on (load_item c \<circ> sr_payload) (set (sq_rows t))"
    using row by (intro inj_on_inverseI [of _ "row_of_item c"]) simp
  moreover have "distinct (sq_rows t)" using assms(1) by (simp add: sql_valid_def distinct_map)
  ultimately show "distinct (map (load_item c \<circ> sr_payload) (by_creation (filter P (sq_rows t))))"
    by (auto simp: by_creation_def distinct_map inj_on_def)
qed

lemma sql_list_pending_eq:
  assumes v: "sql_valid c t"
  shows "sql_list_pending c t rid tid aid = list_pending (snapshot_unlocked c t) rid tid aid"
proof -
  let ?m = "snapshot_unlocked c t"
  let ?key = "\<lambda>i. (dispatch_order i, qi_sequence i)"
  have ok: "store_ok ?m" using v by (simp add: sql_valid_def)
  have sorted: "sorted_wrt (\<lambda>i j. ?key i < ?key j) (list_pending ?m rid tid aid)"
    by (rule list_pending_sorted [OF ok])
  then have strict: "sorted_wrt (<) (map ?key (list_pending ?m rid tid aid))" by (simp add: sorted_wrt_map)
  then have s: "sorted (map ?key (list_pending ?m rid tid aid))" "distinct (map ?key (list_pending ?m rid tid aid))"
    by (simp_all only: strict_sorted_iff)
  let ?L = "filter (matches_route rid tid aid) (map (load_item c \<circ> sr_payload)
         (by_creation (filter (\<lambda>r. sr_status r = status_value QUEUED) (sq_rows t))))"
  have q: "sr_status (row_of_item c i) = status_value QUEUED \<longleftrightarrow> qi_status i = QUEUED" for i
    by (simp only: row_of_item_fields status_value_inj)
  note lf = loaded_filter [OF v, of "\<lambda>r. sr_status r = status_value QUEUED", OF q]
  have "set ?L = set (list_pending ?m rid tid aid)"
    unfolding set_filter lf(1) ordered_items_ok(2) [OF ok] pending_set [OF ok] by blast
  moreover have "distinct ?L" using lf(2) by simp
  ultimately show ?thesis
    unfolding sql_list_pending_def
    using s by (intro sort_key_unique [of ?key]) (auto simp: distinct_map)
qed

lemma list_for_run_ok:
  assumes "store_ok m"
  shows "list_for_run m rid = Inr (filter (\<lambda>i. qi_run_id i = Some rid) (ordered_items m))"
proof -
  have "list_for_run_loop (cs_items m) rid qs
      = Inr (filter (\<lambda>i. qi_run_id i = Some rid) (List.map_filter (cs_items m) qs))"
    if "set qs \<subseteq> dom (cs_items m)" for qs
    using that by (induction qs) (auto simp: map_filter_simps)
  then show ?thesis using assms by (simp add: list_for_run_def ordered_items_def store_ok_def)
qed

lemma sql_list_for_run_eq:
  assumes v: "sql_valid c t"
  shows "Inr (sql_list_for_run c t rid) = list_for_run (snapshot_unlocked c t) rid"
proof -
  let ?m = "snapshot_unlocked c t"
  let ?ys = "filter (\<lambda>i. qi_run_id i = Some rid) (ordered_items ?m)"
  have ok: "store_ok ?m" using v by (simp add: sql_valid_def)
  have q: "sr_run_id (row_of_item c i) = Some rid \<longleftrightarrow> qi_run_id i = Some rid" for i by simp
  note lf = loaded_filter [OF v, of "\<lambda>r. sr_run_id r = Some rid", OF q]
  have "sql_list_for_run c t rid = ?ys"
    unfolding sql_list_for_run_def
  proof (rule sort_key_unique [of qi_sequence])
    show "inj_on qi_sequence (set ?ys)" using ordered_distinct(3) [OF ok] by (auto simp: inj_on_def)
    show "sorted (map qi_sequence ?ys)" using ordered_distinct(2) [OF ok] by (rule sorted_filter)
    show "distinct ?ys" using ordered_distinct(1) [OF ok] by simp
    fix x y
    assume "x \<in> set ?ys" "y \<in> set ?ys" "sequence_key x \<le> sequence_key y"
    then show "qi_sequence x \<le> qi_sequence y"
      using ordered_distinct(4) [OF ok, of x] ordered_distinct(4) [OF ok, of y]
      by (auto simp: sequence_key_def split: if_splits)
  qed (use lf in auto)
  then show ?thesis by (simp add: list_for_run_ok [OF ok])
qed

lemma sql_get_eq:
  assumes v: "sql_valid c t"
  shows "sql_get c t q = queue_get (snapshot_unlocked c t) q"
proof -
  let ?m = "snapshot_unlocked c t"
  have ok: "store_ok ?m" using v by (simp add: sql_valid_def)
  have row: "row_of_item c (load_item c (sr_payload r)) = r" if "r \<in> set (sq_rows t)" for r
    using that v by (metis sql_valid_def)
  have mem: "load_item c (sr_payload r) \<in> set (ordered_items ?m)" if "r \<in> set (sq_rows t)" for r
    using that unfolding valid_rows(2) [OF v] by (simp add: by_creation_def)
  show ?thesis
  proof (cases "filter (\<lambda>r. sr_queue_id r = q) (sq_rows t)")
    case Nil
    have "cs_items ?m q = None"
    proof (rule ccontr)
      assume "cs_items ?m q \<noteq> None"
      then obtain i where i: "cs_items ?m q = Some i" by auto
      then have "row_of_item c i \<in> set (sq_rows t)"
        unfolding valid_rows(1) [OF v] using ordered_items_ok(2) [OF ok] by (auto simp: ran_def)
      moreover have "qi_queue_id i = q" using store_ok_item [OF ok i] by simp
      ultimately have "row_of_item c i \<in> set (filter (\<lambda>r. sr_queue_id r = q) (sq_rows t))" by simp
      then show False using Nil by simp
    qed
    with Nil show ?thesis by (simp add: sql_get_def queue_get_def)
  next
    case (Cons r rs)
    then have "r \<in> set (filter (\<lambda>r. sr_queue_id r = q) (sq_rows t))" by simp
    then have r: "r \<in> set (sq_rows t)" "sr_queue_id r = q" by simp_all
    let ?i = "load_item c (sr_payload r)"
    have "qi_queue_id ?i = q" using row [OF r(1)] r(2) by (metis row_of_item_fields(1))
    moreover obtain q' where "cs_items ?m q' = Some ?i"
      using mem [OF r(1)] ordered_items_ok(2) [OF ok] by (auto simp: ran_def)
    ultimately have "cs_items ?m q = Some ?i" using store_ok_item [OF ok] by metis
    with Cons show ?thesis by (simp add: sql_get_def queue_get_def)
  qed
qed

text \<open>C16. After any sequence of calls with fresh identifiers, the SQLite queue has given the answers
  of the in-memory queue, exceptions included, and every read of it agrees with the in-memory
  store that the same calls built: single rows, the drain order, the rows of a run and the run
  states.\<close>

theorem sqlite_queue_refines_memory:
  assumes c: "codec_ok c" and f: "fresh_ops sha h empty_store"
    and t: "t = snd (run_calls (sql_run c sha) h sql_init)"
    and m: "m = snd (run_calls (exec_op sha) h empty_store)"
  shows "fst (run_calls (sql_run c sha) h sql_init) = fst (run_calls (exec_op sha) h empty_store)
    \<and> sql_get c t q = queue_get m q
    \<and> sql_list_pending c t rid tid aid = list_pending m rid tid aid
    \<and> Inr (sql_list_for_run c t rid') = list_for_run m rid'
    \<and> sql_get_run_state c t rid' = get_run_state m rid'"
proof -
  have v: "sql_valid c sql_init" and view: "snapshot_unlocked c sql_init = empty_store"
    using command_queue_store.init_valid [OF sql_queue_store [OF c]]
      command_queue_store.init_view [OF sql_queue_store [OF c]] by blast+
  have agree: "fst (run_calls (sql_run c sha) h sql_init) = fst (run_calls (exec_op sha) h empty_store)"
    "snapshot_unlocked c t = m" "sql_valid c t"
    using command_queue_store.calls_agree [OF sql_queue_store [OF c] v] f
    unfolding t m view by blast+
  have "sql_get_run_state c t rid' = get_run_state m rid'"
    unfolding agree(2) [symmetric] by (simp add: sql_get_run_state_def get_run_state_def snapshot_unlocked_def Let_def)
  with agree(1) show ?thesis
    using sql_get_eq [OF agree(3)] sql_list_pending_eq [OF agree(3)] sql_list_for_run_eq [OF agree(3)]
    unfolding agree(2) by blast
qed

text \<open>A codec that keeps the objects themselves, and a history on it.\<close>

definition object_codec :: "(CommandQueueItem, LiveRunState) codec" where
  "object_codec = \<lparr>dump_item = (\<lambda>i. i), load_item = (\<lambda>i. i), dump_state = (\<lambda>s. s), load_state = (\<lambda>s. s)\<rparr>"

definition sqlite_demo :: "(call_env \<times> queue_op) list" where
  "sqlite_demo =
     (let req = (\<lambda>p. \<lparr>rq_kind = ENQUEUE_USER_MESSAGE, rq_run_id = Some ''r'', rq_thread_id = None,
            rq_agent_id = None, rq_priority = p, rq_payload = [(''message'', PStr ''m'')],
            rq_source = ''host'', rq_dedupe_key = None, rq_control_id = ''c'',
            rq_created_at = ''t'', rq_metadata = []\<rparr>);
          env = (\<lambda>u. \<lparr>ce_uid = u, ce_now = (\<lambda>_. ''t'')\<rparr>)
      in [(env ''0'', Set_Run_Phase ''r'' TOOL_IN_FLIGHT None None),
          (env ''2'', Admit (req NEXT) None), (env ''1'', Admit (req NOW) None)])"

theorem sqlite_queue_refines_memory_witness:
  "map qi_queue_id (sql_list_pending object_codec
      (snd (run_calls (sql_run object_codec (\<lambda>x. [])) sqlite_demo sql_init)) (Some ''r'') None None)
   = [''cmd_1'', ''cmd_2'']"
proof -
  have c: "codec_ok object_codec" by (simp add: codec_ok_def object_codec_def)
  have f: "fresh_ops (\<lambda>x. []) sqlite_demo empty_store" by code_simp
  have "map qi_queue_id (list_pending (snd (run_calls (exec_op (\<lambda>x. [])) sqlite_demo empty_store))
      (Some ''r'') None None) = [''cmd_1'', ''cmd_2'']" by code_simp
  with sqlite_queue_refines_memory [OF c f refl refl, of "''q''" "Some ''r''" None None "''r''"]
  show ?thesis by (simp only:)
qed

text \<open>The guarantees proved for the queue contract hold of the SQLite table: across any calls, the
  row with a given identifier keeps its identity and payload, and once it is applied, cancelled or
  failed it is read back unchanged for ever.\<close>

lemma sqlite_rows_frozen:
  assumes c: "codec_ok c"
    and "history (sql_run c sha) (snapshot_unlocked c) any_op sql_init t"
    and h: "history (sql_run c sha) (snapshot_unlocked c) any_op t t'"
    and i: "sql_get c t q = Some i"
  shows "\<exists>j. sql_get c t' q = Some j \<and> row_key j = row_key i \<and> (qi_status i \<noteq> QUEUED \<longrightarrow> j = i)"
proof -
  note sq = sql_queue_store [OF c, of sha]
  have v: "sql_valid c t"
    using command_queue_store.history_valid [OF sq assms(2)] command_queue_store.init_valid [OF sq] by blast
  have v': "sql_valid c t'" using command_queue_store.history_valid [OF sq h v] .
  have "store_evolves (snapshot_unlocked c t) (snapshot_unlocked c t')"
    by (rule command_queue_store.history_evolves [OF sq h v])
  then show ?thesis
    using i unfolding sql_get_eq [OF v] sql_get_eq [OF v'] queue_get_def store_evolves_def row_evolves_def by blast
qed

lemma sqlite_rows_frozen_witness:
  "\<exists>i. sql_get object_codec (snd (sql_run object_codec (\<lambda>x. []) \<lparr>ce_uid = ''9'', ce_now = (\<lambda>_. ''t'')\<rparr> (Stop_Run ''r'')
        (snd (run_calls (sql_run object_codec (\<lambda>x. [])) sqlite_demo sql_init)))) ''cmd_1'' = Some i"
proof -
  let ?run = "sql_run object_codec (\<lambda>x. [])"
  let ?view = "snapshot_unlocked object_codec"
  let ?t = "snd (run_calls ?run sqlite_demo sql_init)"
  have c: "codec_ok object_codec" by (simp add: codec_ok_def object_codec_def)
  have h: "history ?run ?view any_op sql_init ?t"
    unfolding sqlite_demo_def Let_def run_calls.simps split_beta snd_conv fst_conv
    by (rule history.call [OF history.call [OF history.call [OF history.none]]]) (rule TrueI, code_simp)+
  have h': "history ?run ?view any_op ?t (snd (?run \<lparr>ce_uid = ''9'', ce_now = (\<lambda>_. ''t'')\<rparr> (Stop_Run ''r'') ?t))"
    by (rule history.call [OF history.none]) (rule TrueI, code_simp)
  have "sql_get object_codec ?t ''cmd_1'' \<noteq> None" by code_simp
  then obtain i where "sql_get object_codec ?t ''cmd_1'' = Some i" by auto
  from sqlite_rows_frozen [OF c h h' this] show ?thesis by blast
qed

end
