(* ===== verification/Abort_Ledger.thy ===== *)
theory Abort_Ledger
  imports Prelude
begin

text \<open>
  The durable abort lifecycle ledger (\<open>runtime/control/abort_store.py\<close>), in its in-memory and
  SQLite forms. The contract the two share is the abstract state machine \<open>lifecycle_step\<close> on the
  state column; both are interpreted in the locale \<open>abort_ledger\<close>.
\<close>

section \<open>The lifecycle ledger\<close>

datatype AbortLifecycleState = REQUESTED | OBSERVED | ABORT_CANCELLED | COMPLETED_BEFORE_CANCEL

fun abort_state_value :: "AbortLifecycleState \<Rightarrow> string" where
  "abort_state_value REQUESTED = ''requested''"
| "abort_state_value OBSERVED = ''observed''"
| "abort_state_value ABORT_CANCELLED = ''cancelled''"
| "abort_state_value COMPLETED_BEFORE_CANCEL = ''completed_before_cancel''"

definition abort_terminal :: "AbortLifecycleState \<Rightarrow> bool" where
  "abort_terminal st = (st = ABORT_CANCELLED \<or> st = COMPLETED_BEFORE_CANCEL)"

record AbortRecord =
  ab_run_id :: string
  ab_state :: AbortLifecycleState
  ab_observed :: bool
  ab_reason :: "string option"
  ab_actor :: "string option"

definition is_terminal :: "AbortRecord \<Rightarrow> bool" where
  "is_terminal r = abort_terminal (ab_state r)"

subsection \<open>In memory\<close>

type_synonym InMemoryAbortLifecycleStore = "string \<rightharpoonup> AbortRecord"

definition mem_request_abort ::
  "InMemoryAbortLifecycleStore \<Rightarrow> string \<Rightarrow> string option \<Rightarrow> string option \<Rightarrow>
   AbortRecord \<times> InMemoryAbortLifecycleStore" where
  "mem_request_abort s rid reason actor =
     (case s rid of
        Some existing \<Rightarrow> (existing, s)
      | None \<Rightarrow>
          (let r = \<lparr>ab_run_id = rid, ab_state = REQUESTED, ab_observed = False,
                    ab_reason = reason, ab_actor = actor\<rparr>
           in (r, s(rid \<mapsto> r))))"

definition mem_mark_observed ::
  "InMemoryAbortLifecycleStore \<Rightarrow> string \<Rightarrow> string option \<Rightarrow> string option \<Rightarrow>
   AbortRecord \<times> InMemoryAbortLifecycleStore" where
  "mem_mark_observed s rid reason actor =
     (let r = \<lparr>ab_run_id = rid, ab_state = OBSERVED, ab_observed = True,
               ab_reason = opt_or reason (case s rid of None \<Rightarrow> None | Some x \<Rightarrow> ab_reason x),
               ab_actor = opt_or actor (case s rid of None \<Rightarrow> None | Some x \<Rightarrow> ab_actor x)\<rparr>
      in case s rid of
           Some existing \<Rightarrow> if is_terminal existing then (existing, s) else (r, s(rid \<mapsto> r))
         | None \<Rightarrow> (r, s(rid \<mapsto> r)))"

definition mem_abort_resolve ::
  "InMemoryAbortLifecycleStore \<Rightarrow> string \<Rightarrow> bool \<Rightarrow>
   AbortRecord option \<times> InMemoryAbortLifecycleStore" where
  "mem_abort_resolve s rid cancelled =
     (case s rid of
        None \<Rightarrow> (None, s)
      | Some existing \<Rightarrow>
          if is_terminal existing then (Some existing, s)
          else
            (let r = \<lparr>ab_run_id = rid,
                      ab_state = (if cancelled then ABORT_CANCELLED else COMPLETED_BEFORE_CANCEL),
                      ab_observed = (ab_observed existing \<or> cancelled),
                      ab_reason = ab_reason existing, ab_actor = ab_actor existing\<rparr>
             in (Some r, s(rid \<mapsto> r))))"

definition mem_abort_get :: "InMemoryAbortLifecycleStore \<Rightarrow> string \<Rightarrow> AbortRecord option" where
  "mem_abort_get s rid = s rid"

subsection \<open>In SQLite\<close>

text \<open>The table is a map on its primary key. A state column that is not a lifecycle value would make
  the row constructor raise.\<close>

record sql_abort_row =
  sb_state :: string
  sb_observed :: int
  sb_reason :: "string option"
  sb_actor :: "string option"

type_synonym SqliteAbortLifecycleStore = "string \<rightharpoonup> sql_abort_row"

definition abort_state_of :: "string \<Rightarrow> string + AbortLifecycleState" where
  "abort_state_of v =
     (if v = ''requested'' then Inr REQUESTED
      else if v = ''observed'' then Inr OBSERVED
      else if v = ''cancelled'' then Inr ABORT_CANCELLED
      else if v = ''completed_before_cancel'' then Inr COMPLETED_BEFORE_CANCEL
      else Inl ''ValueError'')"

definition row_to_record :: "string \<Rightarrow> sql_abort_row \<Rightarrow> string + AbortRecord" where
  "row_to_record rid row =
     (case abort_state_of (sb_state row) of
        Inl e \<Rightarrow> Inl e
      | Inr st \<Rightarrow> Inr \<lparr>ab_run_id = rid, ab_state = st, ab_observed = (sb_observed row \<noteq> 0),
                      ab_reason = sb_reason row, ab_actor = sb_actor row\<rparr>)"

definition sql_abort_get :: "SqliteAbortLifecycleStore \<Rightarrow> string \<Rightarrow> string + AbortRecord option" where
  "sql_abort_get t rid =
     (case t rid of
        None \<Rightarrow> Inr None
      | Some row \<Rightarrow> (case row_to_record rid row of Inl e \<Rightarrow> Inl e | Inr r \<Rightarrow> Inr (Some r)))"

text \<open>The assertion that follows the write of a row that must exist.\<close>

definition assert_present :: "string + AbortRecord option \<Rightarrow> string + AbortRecord" where
  "assert_present x = (case x of Inl e \<Rightarrow> Inl e | Inr None \<Rightarrow> Inl ''AssertionError'' | Inr (Some r) \<Rightarrow> Inr r)"

definition sql_request_abort ::
  "SqliteAbortLifecycleStore \<Rightarrow> string \<Rightarrow> string option \<Rightarrow> string option \<Rightarrow>
   (string + AbortRecord) \<times> SqliteAbortLifecycleStore" where
  "sql_request_abort t rid reason actor =
     (let t' = (case t rid of
                  Some _ \<Rightarrow> t
                | None \<Rightarrow> t(rid \<mapsto> \<lparr>sb_state = abort_state_value REQUESTED, sb_observed = 0,
                                   sb_reason = reason, sb_actor = actor\<rparr>))
      in (assert_present (sql_abort_get t' rid), t'))"

definition coalesce :: "'a option \<Rightarrow> 'a option \<Rightarrow> 'a option" where
  "coalesce x y = (case x of None \<Rightarrow> y | Some v \<Rightarrow> Some v)"

definition sql_terminal :: "sql_abort_row \<Rightarrow> bool" where
  "sql_terminal row = (sb_state row = abort_state_value ABORT_CANCELLED
     \<or> sb_state row = abort_state_value COMPLETED_BEFORE_CANCEL)"

definition sql_mark_observed ::
  "SqliteAbortLifecycleStore \<Rightarrow> string \<Rightarrow> string option \<Rightarrow> string option \<Rightarrow>
   (string + AbortRecord) \<times> SqliteAbortLifecycleStore" where
  "sql_mark_observed t rid reason actor =
     (let t' = (case t rid of
                  None \<Rightarrow> t(rid \<mapsto> \<lparr>sb_state = abort_state_value OBSERVED, sb_observed = 1,
                                   sb_reason = reason, sb_actor = actor\<rparr>)
                | Some row \<Rightarrow>
                    t(rid \<mapsto> row\<lparr>sb_state := (if sql_terminal row then sb_state row
                                               else abort_state_value OBSERVED),
                                sb_observed := 1,
                                sb_reason := coalesce (sb_reason row) reason,
                                sb_actor := coalesce (sb_actor row) actor\<rparr>))
      in (assert_present (sql_abort_get t' rid), t'))"

definition sql_abort_resolve ::
  "SqliteAbortLifecycleStore \<Rightarrow> string \<Rightarrow> bool \<Rightarrow>
   (string + AbortRecord option) \<times> SqliteAbortLifecycleStore" where
  "sql_abort_resolve t rid cancelled =
     (let terminal = (if cancelled then ABORT_CANCELLED else COMPLETED_BEFORE_CANCEL);
          t' = (case t rid of
                  None \<Rightarrow> t
                | Some row \<Rightarrow>
                    if sql_terminal row then t
                    else t(rid \<mapsto> row\<lparr>sb_state := abort_state_value terminal,
                           sb_observed := (if sb_observed row \<noteq> 0 \<or> cancelled then 1 else 0)\<rparr>))
      in (sql_abort_get t' rid, t'))"

section \<open>The shared contract\<close>

datatype abort_op =
    Request string "string option" "string option"
  | Observe string "string option" "string option"
  | Resolve string bool

text \<open>The abstract machine on states alone.\<close>

fun lifecycle_step :: "abort_op \<Rightarrow> (string \<rightharpoonup> AbortLifecycleState) \<Rightarrow> (string \<rightharpoonup> AbortLifecycleState)" where
  "lifecycle_step (Request rid _ _) f = (if f rid = None then f(rid \<mapsto> REQUESTED) else f)"
| "lifecycle_step (Observe rid _ _) f =
     (case f rid of None \<Rightarrow> f(rid \<mapsto> OBSERVED)
      | Some st \<Rightarrow> if abort_terminal st then f else f(rid \<mapsto> OBSERVED))"
| "lifecycle_step (Resolve rid cancelled) f =
     (case f rid of None \<Rightarrow> f
      | Some st \<Rightarrow> if abort_terminal st then f
                   else f(rid \<mapsto> (if cancelled then ABORT_CANCELLED else COMPLETED_BEFORE_CANCEL)))"

fun abort_rank :: "AbortLifecycleState \<Rightarrow> nat" where
  "abort_rank REQUESTED = 0"
| "abort_rank OBSERVED = 1"
| "abort_rank ABORT_CANCELLED = 2"
| "abort_rank COMPLETED_BEFORE_CANCEL = 2"

definition abort_progress :: "(string \<rightharpoonup> AbortLifecycleState) \<Rightarrow> (string \<rightharpoonup> AbortLifecycleState) \<Rightarrow> bool" where
  "abort_progress f g =
     (\<forall>rid st. f rid = Some st \<longrightarrow>
        (\<exists>st'. g rid = Some st' \<and> abort_rank st \<le> abort_rank st' \<and> (abort_terminal st \<longrightarrow> st' = st)))"

lemma abort_progress_refl: "abort_progress f f"
  by (simp add: abort_progress_def)

lemma abort_progress_trans: "abort_progress f g \<Longrightarrow> abort_progress g h \<Longrightarrow> abort_progress f h"
  unfolding abort_progress_def by (metis le_trans)

lemma nonterminal_rank: "\<not> abort_terminal st \<Longrightarrow> abort_rank st \<le> 1"
  by (cases st) (simp_all add: abort_terminal_def)

lemma abort_progress_upd:
  "(\<And>st. f rid = Some st \<Longrightarrow> \<not> abort_terminal st \<and> abort_rank st \<le> abort_rank st') \<Longrightarrow>
   abort_progress f (f(rid \<mapsto> st'))"
  by (auto simp: abort_progress_def)

lemma lifecycle_step_progress: "abort_progress f (lifecycle_step op f)"
proof (cases op)
  case (Observe rid reason actor)
  then show ?thesis using nonterminal_rank
    by (auto intro!: abort_progress_upd abort_progress_refl split: option.splits)
next
  case (Resolve rid c)
  have "abort_rank st \<le> 2" for st by (cases st) simp_all
  with Resolve show ?thesis
    by (auto intro!: abort_progress_upd abort_progress_refl split: option.splits)
qed (auto intro!: abort_progress_upd abort_progress_refl)

lemma lifecycle_fold_progress: "abort_progress f (fold lifecycle_step ops f)"
proof (induction ops arbitrary: f)
  case (Cons op ops)
  have "abort_progress f (fold lifecycle_step ops (lifecycle_step op f))"
    by (rule abort_progress_trans [OF lifecycle_step_progress Cons.IH])
  then show ?case by simp
qed (simp add: abort_progress_refl)

locale abort_ledger =
  fixes step :: "abort_op \<Rightarrow> 's \<Rightarrow> 's"
    and state_of :: "'s \<Rightarrow> string \<rightharpoonup> AbortLifecycleState"
    and ok :: "'s \<Rightarrow> bool"
    and init :: 's
  assumes init_state: "state_of init = Map.empty"
    and init_ok: "ok init"
    and step_ok: "ok s \<Longrightarrow> ok (step op s)"
    and step_state: "ok s \<Longrightarrow> state_of (step op s) = lifecycle_step op (state_of s)"
begin

lemma fold_state: "ok s \<Longrightarrow> ok (fold step ops s) \<and> state_of (fold step ops s) = fold lifecycle_step ops (state_of s)"
  by (induction ops arbitrary: s) (auto simp: step_ok step_state)

lemma run_state: "state_of (fold step ops init) = fold lifecycle_step ops Map.empty"
  using fold_state [OF init_ok] by (simp add: init_state)

lemma run_progress: "abort_progress (state_of (fold step ops init)) (state_of (fold step (ops @ later) init))"
  unfolding run_state by (simp add: lifecycle_fold_progress)

end

subsection \<open>Both ledgers meet it\<close>

fun mem_abort_step :: "abort_op \<Rightarrow> InMemoryAbortLifecycleStore \<Rightarrow> InMemoryAbortLifecycleStore" where
  "mem_abort_step (Request rid reason actor) s = snd (mem_request_abort s rid reason actor)"
| "mem_abort_step (Observe rid reason actor) s = snd (mem_mark_observed s rid reason actor)"
| "mem_abort_step (Resolve rid cancelled) s = snd (mem_abort_resolve s rid cancelled)"

fun sql_abort_step :: "abort_op \<Rightarrow> SqliteAbortLifecycleStore \<Rightarrow> SqliteAbortLifecycleStore" where
  "sql_abort_step (Request rid reason actor) t = snd (sql_request_abort t rid reason actor)"
| "sql_abort_step (Observe rid reason actor) t = snd (sql_mark_observed t rid reason actor)"
| "sql_abort_step (Resolve rid cancelled) t = snd (sql_abort_resolve t rid cancelled)"

definition mem_states :: "InMemoryAbortLifecycleStore \<Rightarrow> string \<rightharpoonup> AbortLifecycleState" where
  "mem_states s rid = map_option ab_state (mem_abort_get s rid)"

definition sql_states :: "SqliteAbortLifecycleStore \<Rightarrow> string \<rightharpoonup> AbortLifecycleState" where
  "sql_states t rid = (case sql_abort_get t rid of Inl _ \<Rightarrow> None | Inr r \<Rightarrow> map_option ab_state r)"

definition sql_abort_ok :: "SqliteAbortLifecycleStore \<Rightarrow> bool" where
  "sql_abort_ok t = (\<forall>rid row. t rid = Some row \<longrightarrow> (\<exists>st. sb_state row = abort_state_value st))"

lemma abort_state_roundtrip [simp]: "abort_state_of (abort_state_value st) = Inr st"
  by (cases st) (simp_all add: abort_state_of_def)

lemma abort_state_value_inj [simp]: "abort_state_value a = abort_state_value b \<longleftrightarrow> a = b"
  by (metis abort_state_roundtrip sum.inject(2))

lemma sql_states_row:
  "t rid = Some row \<Longrightarrow> sb_state row = abort_state_value st \<Longrightarrow> sql_states t rid = Some st"
  by (simp add: sql_states_def sql_abort_get_def row_to_record_def)

lemma sql_states_none: "t rid = None \<Longrightarrow> sql_states t rid = None"
  by (simp add: sql_states_def sql_abort_get_def)

lemma sql_states_upd:
  "sb_state row = abort_state_value st \<Longrightarrow> sql_states (t(rid \<mapsto> row)) = (sql_states t)(rid \<mapsto> st)"
  by (auto simp: fun_eq_iff sql_states_def sql_abort_get_def row_to_record_def)

interpretation mem_abort: abort_ledger mem_abort_step mem_states "\<lambda>_. True" Map.empty
proof
  show "mem_states (mem_abort_step op s) = lifecycle_step op (mem_states s)" for op s
    by (cases op)
      (auto simp: fun_eq_iff mem_states_def mem_abort_get_def mem_request_abort_def mem_mark_observed_def
        mem_abort_resolve_def is_terminal_def Let_def split: option.splits)
qed (simp_all add: mem_states_def mem_abort_get_def fun_eq_iff)

lemma sql_terminal_state:
  "sb_state row = abort_state_value st \<Longrightarrow> sql_terminal row = abort_terminal st"
  by (simp only: sql_terminal_def abort_terminal_def abort_state_value_inj)

lemma sql_abort_step_ok:
  assumes "sql_abort_ok t"
  shows "sql_abort_ok (sql_abort_step op t)"
  using assms unfolding sql_abort_ok_def
  by (cases op)
    (auto simp: sql_request_abort_def sql_mark_observed_def sql_abort_resolve_def Let_def
      simp del: abort_state_value.simps split: option.splits if_splits)

lemma sql_abort_step_state:
  assumes "sql_abort_ok t"
  shows "sql_states (sql_abort_step op t) = lifecycle_step op (sql_states t)"
proof -
  obtain rid where rid: "rid = (case op of Request r _ _ \<Rightarrow> r | Observe r _ _ \<Rightarrow> r | Resolve r _ \<Rightarrow> r)" by simp
  show ?thesis
  proof (cases "t rid")
    case None
    then show ?thesis using rid
      by (cases op) (simp_all add: sql_request_abort_def sql_mark_observed_def sql_abort_resolve_def
          Let_def sql_states_none sql_states_upd del: abort_state_value.simps)
  next
    case (Some row)
    then obtain st where st: "sb_state row = abort_state_value st" using assms by (auto simp: sql_abort_ok_def)
    have here: "sql_states t rid = Some st" using Some st by (rule sql_states_row)
    then have upd: "(sql_states t)(rid \<mapsto> st) = sql_states t" by (auto simp: fun_eq_iff)
    have tm: "sql_terminal row = abort_terminal st" using st by (rule sql_terminal_state)
    show ?thesis using rid Some st upd here tm
      by (cases op) (simp_all add: sql_request_abort_def sql_mark_observed_def sql_abort_resolve_def
          Let_def sql_states_upd del: abort_state_value.simps)
  qed
qed

interpretation sql_abort: abort_ledger sql_abort_step sql_states sql_abort_ok Map.empty
proof
  show "sql_abort_ok Map.empty" "sql_states Map.empty = Map.empty"
    by (auto simp: sql_abort_ok_def sql_states_none fun_eq_iff)
qed (simp_all add: sql_abort_step_ok sql_abort_step_state)

text \<open>The abort lifecycle only moves forward, in both ledgers: over any sequence of requests,
  observations and resolutions a recorded run never goes back to an earlier state, and a run that
  was resolved keeps its outcome for ever.\<close>

lemma abort_lifecycle_forward:
  "abort_progress (sql_states (fold sql_abort_step ops Map.empty))
      (sql_states (fold sql_abort_step (ops @ later) Map.empty))
   \<and> abort_progress (mem_states (fold mem_abort_step ops Map.empty))
      (mem_states (fold mem_abort_step (ops @ later) Map.empty))"
  using sql_abort.run_progress mem_abort.run_progress by blast

text \<open>The two ledgers agree on the lifecycle state of every run after every sequence of calls,
  and a read of the SQLite ledger never raises.\<close>

lemma abort_backends_agree_on_state:
  "mem_states (fold mem_abort_step ops Map.empty) = sql_states (fold sql_abort_step ops Map.empty)
   \<and> (\<exists>r. sql_abort_get (fold sql_abort_step ops Map.empty) rid = Inr r)"
proof -
  have "sql_abort_ok (fold sql_abort_step ops Map.empty)"
    using sql_abort.fold_state [OF sql_abort.init_ok] by blast
  then have "\<exists>r. sql_abort_get (fold sql_abort_step ops Map.empty) rid = Inr r"
    by (cases "fold sql_abort_step ops Map.empty rid")
      (fastforce simp: sql_abort_get_def row_to_record_def sql_abort_ok_def)+
  then show ?thesis by (simp add: mem_abort.run_state sql_abort.run_state)
qed

text \<open>They do not agree on the other columns: observing a run after its outcome was recorded sets
  the observed flag of the SQLite row and fills in its reason, and leaves the in-memory record
  alone; a second reason replaces the first in memory and is dropped by SQLite.\<close>

lemma abort_backends_differ:
  "fst (mem_mark_observed (mem_abort_step (Resolve ''r'' False) (mem_abort_step (Request ''r'' None None) Map.empty)) ''r'' None None)
     = \<lparr>ab_run_id = ''r'', ab_state = COMPLETED_BEFORE_CANCEL, ab_observed = False, ab_reason = None, ab_actor = None\<rparr>"
  "fst (sql_mark_observed (sql_abort_step (Resolve ''r'' False) (sql_abort_step (Request ''r'' None None) Map.empty)) ''r'' None None)
     = Inr \<lparr>ab_run_id = ''r'', ab_state = COMPLETED_BEFORE_CANCEL, ab_observed = True, ab_reason = None, ab_actor = None\<rparr>"
  by code_simp+

end
