(* ===== verification/Abort_Handles.thy ===== *)
theory Abort_Handles
  imports Prelude
begin

text \<open>
  The cascading abort handles of runs and their subagents (\<open>runtime/abort.py\<close>). The handles form a
  heap, here a list indexed by identity; each holds references to its children. Aborting a handle
  walks depth first over the children it holds: the code recurses, the model keeps the pending
  calls on a stack in the order the recursion makes them. A parent holds its children weakly and a
  child holds no reference to its parent, so a handle the program no longer uses may be collected at
  any time: it then disappears from the children of its parent, and its own links go with it. A
  cascade and a collection are each one step.
\<close>

section \<open>The heap and its operations\<close>

record RunAbortHandle =
  ah_aborted :: bool
  ah_reason :: "string option"
  ah_children :: "nat list"

definition new_handle :: RunAbortHandle where
  "new_handle = \<lparr>ah_aborted = False, ah_reason = None, ah_children = []\<rparr>"

type_synonym handle_heap = "RunAbortHandle list"

definition unaborted :: "handle_heap \<Rightarrow> nat" where
  "unaborted hp = length (filter (\<lambda>h. \<not> ah_aborted h) hp)"

definition flag_handle :: "string \<Rightarrow> RunAbortHandle \<Rightarrow> RunAbortHandle" where
  "flag_handle reason h = h\<lparr>ah_aborted := True, ah_reason := Some reason\<rparr>"

lemma unaborted_flag:
  "h < length hp \<Longrightarrow> \<not> ah_aborted (hp ! h) \<Longrightarrow>
   unaborted (hp[h := flag_handle reason (hp ! h)]) < unaborted hp"
proof (induction hp arbitrary: h)
  case (Cons x hp)
  then show ?case by (cases h) (auto simp: unaborted_def flag_handle_def)
qed simp

text \<open>The stack of \<open>abort\<close> calls still to make. A call on an aborted handle returns at once.\<close>

function abort_calls :: "string \<Rightarrow> nat list \<Rightarrow> handle_heap \<Rightarrow> handle_heap" where
  "abort_calls reason [] hp = hp"
| "abort_calls reason (h # hs) hp =
     (if length hp \<le> h \<or> ah_aborted (hp ! h) then abort_calls reason hs hp
      else abort_calls reason (ah_children (hp ! h) @ hs)
             (hp[h := flag_handle reason (hp ! h)]))"
  by pat_completeness auto
termination
  by (relation "measures [\<lambda>(r, hs, hp). unaborted hp, \<lambda>(r, hs, hp). length hs]")
    (auto simp: unaborted_flag not_le)

definition abort :: "nat \<Rightarrow> string \<Rightarrow> handle_heap \<Rightarrow> handle_heap" where
  "abort h reason hp = abort_calls reason [h] hp"

definition child :: "nat \<Rightarrow> handle_heap \<Rightarrow> nat \<times> handle_heap" where
  "child h hp =
     (let c = length hp;
          hp1 = (hp @ [new_handle])[h := (hp ! h)\<lparr>ah_children := ah_children (hp ! h) @ [c]\<rparr>];
          already_aborted = ah_aborted (hp ! h);
          inherited_reason = ah_reason (hp ! h)
      in (c, if already_aborted
             then abort c (case opt_or inherited_reason (Some ''parent_aborted'') of Some r \<Rightarrow> r | None \<Rightarrow> []) hp1
             else hp1))"

text \<open>The collection of a handle: the \<open>WeakSet\<close> of every other handle loses it, and its own \<open>WeakSet\<close> is
  gone. Its slot stays, so that identities are stable, but no later step names it.\<close>

definition collect :: "nat \<Rightarrow> handle_heap \<Rightarrow> handle_heap" where
  "collect d hp =
     (map (\<lambda>h. h\<lparr>ah_children := filter (\<lambda>c. c \<noteq> d) (ah_children h)\<rparr>) hp)[d := (hp ! d)\<lparr>ah_children := []\<rparr>]"

text \<open>The heaps a program can build: fresh top-level handles, children, aborts and collections in any
  order. \<open>L\<close> records who was created as a child of whom and \<open>C\<close> which handles were collected; the program
  works only on handles that were not.\<close>

inductive handles :: "handle_heap \<Rightarrow> (nat \<times> nat) set \<Rightarrow> nat set \<Rightarrow> bool" where
  empty [step_intros]: "handles [] {} {}"
| fresh [step_intros]: "handles hp L C \<Longrightarrow> handles (hp @ [new_handle]) L C"
| child [step_intros]: "handles hp L C \<Longrightarrow> h < length hp \<Longrightarrow> h \<notin> C \<Longrightarrow>
    handles (snd (child h hp)) (insert (h, length hp) L) C"
| abort [step_intros]: "handles hp L C \<Longrightarrow> h < length hp \<Longrightarrow> h \<notin> C \<Longrightarrow> handles (abort h reason hp) L C"
| collect [step_intros]: "handles hp L C \<Longrightarrow> d < length hp \<Longrightarrow> d \<notin> C \<Longrightarrow> handles (collect d hp) L (insert d C)"

text \<open>The links that survive: both ends are still there.\<close>

definition live_links :: "(nat \<times> nat) set \<Rightarrow> nat set \<Rightarrow> (nat \<times> nat) set" where
  "live_links L C = {(a, b). (a, b) \<in> L \<and> a \<notin> C \<and> b \<notin> C}"

section \<open>Laws of the walk\<close>

definition holds :: "handle_heap \<Rightarrow> nat \<Rightarrow> nat \<Rightarrow> bool" where
  "holds hp a b = (a < length hp \<and> b \<in> set (ah_children (hp ! a)))"

definition refs_ok :: "handle_heap \<Rightarrow> bool" where
  "refs_ok hp = (\<forall>a b. holds hp a b \<longrightarrow> b < length hp)"

definition cascaded :: "nat set \<Rightarrow> handle_heap \<Rightarrow> bool" where
  "cascaded pending hp =
     (\<forall>a b. holds hp a b \<and> ah_aborted (hp ! a) \<longrightarrow> ah_aborted (hp ! b) \<or> b \<in> pending)"

lemma holds_flag [simp]: "holds (hp[h := flag_handle r (hp ! h)]) = holds hp"
  by (cases "h < length hp") (auto simp: holds_def fun_eq_iff flag_handle_def nth_list_update)

lemma abort_calls_shape:
  "length (abort_calls reason hs hp) = length hp \<and> holds (abort_calls reason hs hp) = holds hp"
proof (induction reason hs hp rule: abort_calls.induct)
  case (2 reason h hs hp)
  show ?case
  proof (cases "length hp \<le> h \<or> ah_aborted (hp ! h)")
    case True
    with 2 show ?thesis by simp
  next
    case False
    with 2(2) [OF False] show ?thesis by (simp only: abort_calls.simps if_False length_list_update holds_flag)
  qed
qed simp

text \<open>An aborted handle is never touched again: it keeps its first reason.\<close>

lemma abort_calls_keeps:
  "ah_aborted (hp ! a) \<Longrightarrow> a < length hp \<Longrightarrow> abort_calls reason hs hp ! a = hp ! a"
proof (induction reason hs hp rule: abort_calls.induct)
  case (2 reason h hs hp)
  show ?case
  proof (cases "length hp \<le> h \<or> ah_aborted (hp ! h)")
    case True
    with 2 show ?thesis by simp
  next
    case False
    then have "a \<noteq> h" using 2(3) by auto
    with 2(2) [OF False] 2(3,4) False show ?thesis by simp
  qed
qed simp

text \<open>The walk changes a handle only by flagging it with the given reason.\<close>

lemma abort_calls_flags:
  "a < length hp \<Longrightarrow>
   abort_calls reason hs hp ! a = hp ! a \<or> abort_calls reason hs hp ! a = flag_handle reason (hp ! a)"
proof (induction reason hs hp rule: abort_calls.induct)
  case (2 reason h hs hp)
  show ?case
  proof (cases "length hp \<le> h \<or> ah_aborted (hp ! h)")
    case True
    with 2 show ?thesis by simp
  next
    case False
    show ?thesis
    proof (cases "a = h")
      case True
      have "ah_aborted (hp[h := flag_handle reason (hp ! h)] ! h)"
        using False by (simp add: flag_handle_def)
      then have "abort_calls reason (h # hs) hp ! a = flag_handle reason (hp ! a)"
        using False True abort_calls_keeps [of "hp[h := flag_handle reason (hp ! h)]" h] by simp
      then show ?thesis ..
    next
      case neq: False
      with 2(2) [OF False] 2(3) False show ?thesis by simp
    qed
  qed
qed simp

text \<open>It reaches every handle on the stack, and leaves no aborted handle with a live child.\<close>

lemma abort_calls_cascades:
  "refs_ok hp \<Longrightarrow> cascaded (set hs) hp \<Longrightarrow>
   cascaded {} (abort_calls reason hs hp)
   \<and> (\<forall>h \<in> set hs. h < length hp \<longrightarrow> ah_aborted (abort_calls reason hs hp ! h))"
proof (induction reason hs hp rule: abort_calls.induct)
  case (2 reason h hs hp)
  show ?case
  proof (cases "length hp \<le> h \<or> ah_aborted (hp ! h)")
    case True
    then have "cascaded (set hs) hp"
      using 2(3,4) by (fastforce simp: cascaded_def refs_ok_def)
    with 2(1) [OF True 2(3)] True abort_calls_keeps [of hp h reason hs] show ?thesis
      by (cases "h < length hp") auto
  next
    case False
    let ?hp = "hp[h := flag_handle reason (hp ! h)]"
    have refs: "refs_ok ?hp" using 2(3) by (simp add: refs_ok_def)
    have flagged: "ah_aborted (?hp ! h)" using False by (simp add: flag_handle_def)
    have "cascaded (set (ah_children (hp ! h) @ hs)) ?hp"
      using 2(4) False by (auto simp: cascaded_def nth_list_update holds_def flag_handle_def)
    from 2(2) [OF False refs this] abort_calls_keeps [OF flagged] flagged False
    show ?thesis by simp
  qed
qed simp

text \<open>It stays inside every set of handles that contains the stack and is closed under the children.\<close>

lemma abort_calls_local:
  "set hs \<subseteq> D \<Longrightarrow> (\<And>a b. a \<in> D \<Longrightarrow> holds hp a b \<Longrightarrow> b \<in> D) \<Longrightarrow> d \<notin> D \<Longrightarrow>
   abort_calls reason hs hp ! d = hp ! d"
proof (induction reason hs hp rule: abort_calls.induct)
  case (2 reason h hs hp)
  show ?case
  proof (cases "length hp \<le> h \<or> ah_aborted (hp ! h)")
    case True
    with 2 show ?thesis by simp
  next
    case False
    then have "set (ah_children (hp ! h) @ hs) \<subseteq> D"
      using 2(3,4) by (auto simp: holds_def)
    moreover have "d \<noteq> h" using 2(3,5) by auto
    ultimately show ?thesis using 2(2) [OF False] 2(4,5) False by auto
  qed
qed simp

section \<open>Every program keeps the tree consistent\<close>

definition link_child :: "nat \<Rightarrow> handle_heap \<Rightarrow> handle_heap" where
  "link_child h hp = (hp @ [new_handle])[h := (hp ! h)\<lparr>ah_children := ah_children (hp ! h) @ [length hp]\<rparr>]"

lemma link_child_nth:
  "h < length hp \<Longrightarrow> d < length hp \<Longrightarrow> d \<noteq> h \<Longrightarrow> link_child h hp ! d = hp ! d"
  "h < length hp \<Longrightarrow> link_child h hp ! h = (hp ! h)\<lparr>ah_children := ah_children (hp ! h) @ [length hp]\<rparr>"
  "h < length hp \<Longrightarrow> link_child h hp ! length hp = new_handle"
  "length (link_child h hp) = Suc (length hp)"
  by (simp_all add: link_child_def nth_append)

lemma holds_link_child:
  assumes h: "h < length hp"
  shows "holds (link_child h hp) a b \<longleftrightarrow> holds hp a b \<or> (a = h \<and> b = length hp)"
proof -
  consider "a = h" | "a < length hp" "a \<noteq> h" | "a = length hp" | "length hp < a" by fastforce
  then show ?thesis
    by cases (use h in \<open>auto simp: holds_def link_child_nth new_handle_def\<close>)
qed

lemma aborted_link_child:
  assumes "h < length hp" "a < length hp"
  shows "ah_aborted (link_child h hp ! a) = ah_aborted (hp ! a)"
  using assms by (cases "a = h") (simp_all add: link_child_nth)

lemma child_link:
  "child h hp = (length hp, if ah_aborted (hp ! h)
     then abort (length hp) (case opt_or (ah_reason (hp ! h)) (Some ''parent_aborted'') of Some r \<Rightarrow> r | None \<Rightarrow> []) (link_child h hp)
     else link_child h hp)"
  by (simp add: child_def link_child_def Let_def)

lemma holds_child:
  "h < length hp \<Longrightarrow> holds (snd (child h hp)) a b \<longleftrightarrow> holds hp a b \<or> (a = h \<and> b = length hp)"
  by (simp add: child_link abort_def abort_calls_shape holds_link_child)

lemma length_child: "length (snd (child h hp)) = Suc (length hp)"
  by (simp add: child_link abort_def abort_calls_shape link_child_nth)

lemma refs_ok_append: "refs_ok hp \<Longrightarrow> refs_ok (hp @ [new_handle])"
  by (auto simp: refs_ok_def holds_def new_handle_def nth_append split: if_splits)
    (metis less_SucI)

lemma cascaded_append: "refs_ok hp \<Longrightarrow> cascaded {} hp \<Longrightarrow> cascaded {} (hp @ [new_handle])"
  by (auto simp: refs_ok_def cascaded_def holds_def new_handle_def nth_append split: if_splits)

lemma child_cascaded:
  assumes h: "h < length hp" and r: "refs_ok hp" and c: "cascaded {} hp"
  shows "cascaded {} (snd (child h hp))"
proof -
  have refs: "refs_ok (link_child h hp)"
    using r h by (auto simp: refs_ok_def holds_link_child link_child_nth less_Suc_eq)
  have kept: "ah_aborted (link_child h hp ! b)" if "holds hp a b" "ah_aborted (link_child h hp ! a)" for a b
    using that r c h aborted_link_child [OF h] by (auto simp: refs_ok_def cascaded_def holds_def)
  show ?thesis
  proof (cases "ah_aborted (hp ! h)")
    case True
    have "cascaded (set [length hp]) (link_child h hp)"
      using kept h by (auto simp: cascaded_def holds_link_child)
    from abort_calls_cascades [OF refs this] True show ?thesis by (simp add: child_link abort_def)
  next
    case False
    have "cascaded {} (link_child h hp)"
      using kept h False aborted_link_child [OF h h] by (auto simp: cascaded_def holds_link_child)
    with False show ?thesis by (simp add: child_link)
  qed
qed

lemma collect_nth:
  assumes "d < length hp" "a < length hp"
  shows "ah_aborted (collect d hp ! a) = ah_aborted (hp ! a)" "ah_reason (collect d hp ! a) = ah_reason (hp ! a)"
  using assms by (cases "a = d"; simp add: collect_def)+

lemma length_collect [simp]: "length (collect d hp) = length hp"
  by (simp add: collect_def)

lemma holds_collect: "d < length hp \<Longrightarrow> holds (collect d hp) a b \<longleftrightarrow> holds hp a b \<and> a \<noteq> d \<and> b \<noteq> d"
  by (cases "a = d") (auto simp: holds_def collect_def)

lemma handles_ok: "handles hp L C \<Longrightarrow> refs_ok hp \<and> cascaded {} hp"
proof (induction rule: handles.induct)
  case empty
  show ?case by (simp add: refs_ok_def cascaded_def holds_def)
next
  case (fresh hp L C)
  then show ?case using refs_ok_append cascaded_append by blast
next
  case (child hp L C h)
  then have "refs_ok (snd (child h hp))"
    by (auto simp: refs_ok_def holds_child length_child less_Suc_eq)
  with child show ?case using child_cascaded by blast
next
  case (abort hp L C h reason)
  have "cascaded (set [h]) hp" using abort.IH by (auto simp: cascaded_def)
  then have "cascaded {} (abort h reason hp)"
    using abort_calls_cascades [of hp "[h]" reason] abort.IH by (simp add: abort_def)
  moreover have "refs_ok (abort h reason hp)"
    using abort.IH abort_calls_shape [of reason "[h]" hp] by (simp add: refs_ok_def abort_def)
  ultimately show ?case by blast
next
  case (collect hp L C d)
  have "refs_ok (collect d hp)" using collect.IH collect.hyps(2) by (auto simp: refs_ok_def holds_collect)
  moreover have "cascaded {} (collect d hp)"
    using collect.IH collect.hyps(2) by (auto simp: cascaded_def holds_collect collect_nth refs_ok_def) (metis collect_nth(1) holds_def)
  ultimately show ?case by blast
qed

lemma handles_slots: "handles hp L C \<Longrightarrow> L \<subseteq> {..<length hp} \<times> {..<length hp} \<and> C \<subseteq> {..<length hp}"
  by (induction rule: handles.induct) (auto simp: length_child abort_def abort_calls_shape less_Suc_eq)

text \<open>A handle holds exactly the children created under it, as long as both were not collected.\<close>

lemma handles_links: "handles hp L C \<Longrightarrow> holds hp a b \<longleftrightarrow> (a, b) \<in> live_links L C"
proof (induction rule: handles.induct)
  case empty
  show ?case by (simp add: holds_def live_links_def)
next
  case (fresh hp L C)
  then have "holds (hp @ [new_handle]) a b = holds hp a b" by (auto simp: holds_def new_handle_def nth_append less_Suc_eq)
  then show ?case using fresh.IH by simp
next
  case (child hp L C h)
  have "length hp \<notin> C" using handles_slots [OF child.hyps(1)] by auto
  then show ?case using child by (auto simp: holds_child live_links_def)
next
  case (abort hp L C h reason)
  then show ?case by (simp add: abort_def abort_calls_shape)
next
  case (collect hp L C d)
  then show ?case by (auto simp: holds_collect live_links_def)
qed

lemma handles_reach: "handles hp L C \<Longrightarrow> (holds hp)\<^sup>*\<^sup>* a b \<longleftrightarrow> (a, b) \<in> (live_links L C)\<^sup>*"
  using handles_links [of hp L C] by (simp add: rtranclp_rtrancl_eq)

text \<open>A descendant of an aborted handle is aborted.\<close>

lemma cascaded_descendants:
  assumes "(holds hp)\<^sup>*\<^sup>* a b" "cascaded {} hp" "ah_aborted (hp ! a)"
  shows "ah_aborted (hp ! b)"
  using assms by (induction rule: rtranclp_induct) (auto simp: cascaded_def)

text \<open>C21. Aborting a handle reaches every handle below it that is still linked to it, and nothing else:
  in every heap a program can build, after the call every handle at the end of a chain of parents and
  children none of which was collected is aborted; those that were not aborted before carry the given
  reason, those that were keep their record, first reason included; and every other handle is untouched.\<close>

theorem abort_cascades_to_subtree:
  assumes hp: "handles hp L C" and h: "h < length hp" "h \<notin> C" and d: "d < length hp"
  shows "(if (h, d) \<in> (live_links L C)\<^sup>*
          then ah_aborted (abort h reason hp ! d)
               \<and> abort h reason hp ! d = (if ah_aborted (hp ! d) then hp ! d else flag_handle reason (hp ! d))
          else abort h reason hp ! d = hp ! d)"
proof (cases "(holds hp)\<^sup>*\<^sup>* h d")
  case True
  let ?hp = "abort h reason hp"
  have ok: "refs_ok hp" "cascaded {} hp" using handles_ok [OF hp] by auto
  have "cascaded (set [h]) hp" using ok(2) by (auto simp: cascaded_def)
  then have c: "cascaded {} ?hp" "ah_aborted (?hp ! h)"
    using abort_calls_cascades [OF ok(1), of "[h]" reason] h(1) by (simp_all add: abort_def)
  have "(holds ?hp)\<^sup>*\<^sup>* h d" using True abort_calls_shape [of reason "[h]" hp] by (simp add: abort_def)
  then have ab: "ah_aborted (?hp ! d)" using cascaded_descendants c by blast
  show ?thesis
    using True ab handles_reach [OF hp] abort_calls_flags [OF d, of reason "[h]"] abort_calls_keeps [of hp d reason "[h]"] d
    by (auto simp: abort_def)
next
  case False
  have "abort h reason hp ! d = hp ! d"
    unfolding abort_def
    by (rule abort_calls_local [of _ "{x. (holds hp)\<^sup>*\<^sup>* h x}"]) (use False in \<open>auto intro: rtranclp.rtrancl_into_rtrancl\<close>)
  with False show ?thesis using handles_reach [OF hp] by simp
qed

text \<open>A collected handle in the middle cuts the chain: the handles below it stay live and are not aborted with their
  ancestor.\<close>

lemma collected_parent_cuts_cascade:
  "handles (collect 1 (snd (child 1 (snd (child 0 [new_handle]))))) {(1, 2), (0, 1)} {1}
   \<and> (0, 2) \<in> {(1, 2), (0, 1 :: nat)}\<^sup>*
   \<and> \<not> ah_aborted (abort 0 ''stop'' (collect 1 (snd (child 1 (snd (child 0 [new_handle]))))) ! 2)"
proof (intro conjI)
  have h1: "handles [new_handle] {} {}" using handles.fresh [OF handles.empty] by simp
  have h2: "handles (snd (child 0 [new_handle])) {(0, 1)} {}" using handles.child [OF h1, of 0] by simp
  have h3: "handles (snd (child 1 (snd (child 0 [new_handle])))) {(1, 2), (0, 1)} {}"
    using handles.child [OF h2, of 1] by (simp add: length_child numeral_2_eq_2)
  show "handles (collect 1 (snd (child 1 (snd (child 0 [new_handle]))))) {(1, 2), (0, 1)} {1}"
    using handles.collect [OF h3, of 1] by (simp add: length_child)
  show "(0, 2) \<in> {(1, 2), (0, 1 :: nat)}\<^sup>*" by (meson insertI1 insertI2 rtrancl.simps)
  show "\<not> ah_aborted (abort 0 ''stop'' (collect 1 (snd (child 1 (snd (child 0 [new_handle]))))) ! 2)" by code_simp
qed

text \<open>A child is born aborted exactly when its parent is aborted, and then an earlier abort of the
  parent gives it the parent's reason; creating it changes no other handle but the parent's list
  of children.\<close>

lemma child_inherits_abort:
  assumes h: "h < length hp"
    and c: "child h hp = (c, hp')"
  shows "c = length hp \<and> length hp' = Suc c \<and> holds hp' h c
    \<and> ah_aborted (hp' ! c) = ah_aborted (hp ! h)
    \<and> (ah_aborted (hp ! h) \<and> str_truthy (ah_reason (hp ! h)) \<longrightarrow> ah_reason (hp' ! c) = ah_reason (hp ! h))
    \<and> (\<forall>d. d < length hp \<and> d \<noteq> h \<longrightarrow> hp' ! d = hp ! d)"
proof -
  let ?r = "case opt_or (ah_reason (hp ! h)) (Some ''parent_aborted'') of Some r \<Rightarrow> r | None \<Rightarrow> []"
  have walk: "abort (length hp) ?r (link_child h hp) = (link_child h hp)[length hp := flag_handle ?r new_handle]"
    using h by (simp add: abort_def link_child_nth new_handle_def)
  have hp': "c = length hp" "hp' = (if ah_aborted (hp ! h)
      then (link_child h hp)[length hp := flag_handle ?r new_handle] else link_child h hp)"
    using c by (auto simp: child_link walk)
  have "length hp' = Suc (length hp)" "holds hp' h (length hp)"
    using c length_child [of h hp] holds_child [OF h] by simp_all
  moreover have "ah_aborted (hp' ! length hp) = ah_aborted (hp ! h)"
    using h by (simp add: hp' link_child_nth flag_handle_def new_handle_def)
  moreover have "ah_reason (hp' ! length hp) = ah_reason (hp ! h)"
    if "ah_aborted (hp ! h)" "str_truthy (ah_reason (hp ! h))"
    using that h by (cases "ah_reason (hp ! h)") (simp_all add: hp' link_child_nth flag_handle_def opt_or_def)
  moreover have "hp' ! d = hp ! d" if "d < length hp" "d \<noteq> h" for d
    using that h by (simp add: hp' link_child_nth)
  ultimately show ?thesis using hp'(1) by blast
qed

text \<open>Witnesses: a parent with a child and a grandchild, a second child that was collected with a live child of its
  own, and an unrelated handle.\<close>

definition demo_heap :: handle_heap where
  "demo_heap = collect 3 (snd (child 3 (snd (child 0 (snd (child 1 (snd (child 0 [new_handle])))))))) @ [new_handle]"

abbreviation demo_links :: "(nat \<times> nat) set" where
  "demo_links \<equiv> {(3, 4), (0, 3), (1, 2), (0, 1)}"

lemma demo_handles: "handles demo_heap demo_links {3}"
proof -
  have h1: "handles [new_handle] {} {}" using handles.fresh [OF handles.empty] by simp
  have h2: "handles (snd (child 0 [new_handle])) {(0, 1)} {}" using handles.child [OF h1, of 0] by simp
  have h3: "handles (snd (child 1 (snd (child 0 [new_handle])))) {(1, 2), (0, 1)} {}"
    using handles.child [OF h2, of 1] by (simp add: length_child eval_nat_numeral)
  have h4: "handles (snd (child 0 (snd (child 1 (snd (child 0 [new_handle])))))) {(0, 3), (1, 2), (0, 1)} {}"
    using handles.child [OF h3, of 0] by (simp add: length_child eval_nat_numeral)
  have h5: "handles (snd (child 3 (snd (child 0 (snd (child 1 (snd (child 0 [new_handle])))))))) demo_links {}"
    using handles.child [OF h4, of 3] by (simp add: length_child eval_nat_numeral)
  have "handles (collect 3 (snd (child 3 (snd (child 0 (snd (child 1 (snd (child 0 [new_handle]))))))))) demo_links {3}"
    using handles.collect [OF h5, of 3] by (simp add: length_child)
  then show ?thesis unfolding demo_heap_def by (rule handles.fresh)
qed

theorem abort_cascades_to_subtree_witness:
  "ah_aborted (abort 0 ''stop'' demo_heap ! 2) \<and> \<not> ah_aborted (abort 0 ''stop'' demo_heap ! 4)
   \<and> \<not> ah_aborted (abort 0 ''stop'' demo_heap ! 5)"
proof -
  have links: "live_links demo_links {3} = {(1, 2), (0, 1)}" by (auto simp: live_links_def)
  have r: "(0, 2) \<in> (live_links demo_links {3})\<^sup>*" unfolding links by (meson insertI1 insertI2 rtrancl.simps)
  have none: "(0, x) \<in> (live_links demo_links {3})\<^sup>* \<Longrightarrow> x \<in> {0, 1, 2}" for x
    unfolding links by (induction rule: rtrancl_induct) auto
  have len: "length demo_heap = 6" by code_simp
  have "\<not> ah_aborted (demo_heap ! 4)" "\<not> ah_aborted (demo_heap ! 5)" by code_simp+
  then show ?thesis
    using abort_cascades_to_subtree [OF demo_handles, of 0 2 "''stop''"] none [of 4] none [of 5]
      abort_cascades_to_subtree [OF demo_handles, of 0 4 "''stop''"]
      abort_cascades_to_subtree [OF demo_handles, of 0 5 "''stop''"] r len
    by (auto split: if_splits)
qed

lemma child_inherits_abort_witness:
  "ah_aborted (snd (child 0 (abort 0 ''stop'' demo_heap)) ! 6)
   \<and> ah_reason (snd (child 0 (abort 0 ''stop'' demo_heap)) ! 6) = Some ''stop''"
proof -
  have "length (abort 0 ''stop'' demo_heap) = 6" "ah_aborted (abort 0 ''stop'' demo_heap ! 0)"
    "ah_reason (abort 0 ''stop'' demo_heap ! 0) = Some ''stop''" by code_simp+
  with child_inherits_abort [OF _ prod.collapse [symmetric], of 0 "abort 0 ''stop'' demo_heap"] show ?thesis by auto
qed

end
