(* ===== verification/Dispatcher.thy ===== *)
theory Dispatcher
  imports Queue_Safety Abort_Handles
begin

text \<open>
  The step-boundary dispatcher (\<open>runtime/control/dispatcher.py\<close>, \<open>steering_framing.py\<close>): it claims
  the pending current-turn controls of a run one by one, applies each to the run context, and marks
  it applied or failed. The queue is any backend, given by its \<open>run\<close> function on the queue calls;
  the abort handle is an index into the heap of abort handles. Callbacks of the host append to a
  log. Serialisation of messages and items, validation of a tool policy, the Russian text of the
  redirect frame and the conversion of a non-string value by \<open>str\<close> are parameters.

  The loop runs on fuel; one more than the number of open rows is enough, because every round
  closes the row it claimed.
\<close>

section \<open>The run context\<close>

datatype ChatRole = ROLE_SYSTEM | ROLE_USER | ROLE_ASSISTANT | ROLE_TOOL

record ChatMessage =
  ch_role :: ChatRole
  ch_content :: string
  ch_name :: "string option"
  ch_tool_call_id :: "string option"
  ch_metadata :: pydict

record ToolPolicy =
  tp_settings :: pydict
  tp_metadata :: pydict

record RunContext =
  cx_run_id :: string
  cx_input :: "string option"
  cx_messages :: "ChatMessage list"
  cx_tool_policy :: ToolPolicy
  cx_app_metadata :: pydict
  cx_metadata :: pydict
  cx_step_count :: int

record dispatch_params =
  dp_dump_message :: "ChatMessage \<Rightarrow> pyval"
  dp_dump_item :: "CommandQueueItem \<Rightarrow> pyval"
  dp_validate_policy :: "pydict \<Rightarrow> string + ToolPolicy"
  dp_frame :: string
  dp_str :: "pyval \<Rightarrow> string"
  dp_emit :: bool
  dp_persist :: bool
  dp_transition :: bool

datatype drain_event = Persist | Transition CommandQueueItem | Emit pydict

datatype drain_error = Store_Error control_error | Python_Error string

datatype drain_result = RES_APPLIED | RES_INVALID | RES_NOT_IMPLEMENTED | RES_UNSUPPORTED

section \<open>Messages\<close>

definition live_key :: string where
  "live_key = ''live_message_queue_id''"

text \<open>\<open>str(x or "")\<close>.\<close>

definition str_or_empty :: "dispatch_params \<Rightarrow> pyval \<Rightarrow> string" where
  "str_or_empty dp v =
     (if truthy v then (case v of PStr s \<Rightarrow> s | _ \<Rightarrow> dp_str dp v) else [])"

definition framed_redirect_correction :: "dispatch_params \<Rightarrow> string \<Rightarrow> string" where
  "framed_redirect_correction dp txt = dp_frame dp @ [char_of (10 :: nat), char_of (10 :: nat)] @ py_strip txt"

definition has_live_message :: "string \<Rightarrow> ChatMessage list \<Rightarrow> bool" where
  "has_live_message q ms = list_ex (\<lambda>x. dict_get (ch_metadata x) live_key = PStr q) ms"

text \<open>The scan of the protocol log; a row whose metadata is not a dictionary raises.\<close>

fun protocol_has :: "string \<Rightarrow> pyval list \<Rightarrow> string + bool" where
  "protocol_has q [] = Inr False"
| "protocol_has q (PDict d # rows) =
     (case dict_get_or d ''metadata'' (PDict []) of
        PDict md \<Rightarrow> if dict_get md live_key = PStr q then Inr True else protocol_has q rows
      | _ \<Rightarrow> Inl ''AttributeError'')"
| "protocol_has q (_ # rows) = protocol_has q rows"

definition append_user_message ::
  "dispatch_params \<Rightarrow> RunContext \<Rightarrow> string \<Rightarrow> string \<Rightarrow> (string + unit) \<times> RunContext" where
  "append_user_message dp cx message q =
     (let messages = cx_messages cx in
      if has_live_message q messages then (Inr (), cx)
      else
        (let seed = (case cx_input cx of
               Some inp \<Rightarrow> if messages = [] \<and> py_strip inp \<noteq> []
                 then [\<lparr>ch_role = ROLE_USER, ch_content = inp, ch_name = None,
                        ch_tool_call_id = None, ch_metadata = []\<rparr>] else []
             | None \<Rightarrow> []);
             appended = \<lparr>ch_role = ROLE_USER, ch_content = message, ch_name = None,
               ch_tool_call_id = None, ch_metadata = [(live_key, PStr q)]\<rparr>;
             cx1 = cx\<lparr>cx_input := Some message, cx_messages := messages @ seed @ [appended]\<rparr>
         in case dict_get (cx_metadata cx) ''protocol_messages'' of
              PList protocol \<Rightarrow>
                (case protocol_has q protocol of
                   Inl e \<Rightarrow> (Inl e, cx1)
                 | Inr True \<Rightarrow> (Inr (), cx1)
                 | Inr False \<Rightarrow>
                     (Inr (), cx1\<lparr>cx_metadata := dict_set ''protocol_messages''
                        (PList (protocol @ [dp_dump_message dp appended])) (cx_metadata cx1)\<rparr>))
            | _ \<Rightarrow> (Inr (), cx1)))"

definition row_is_tool :: "dispatch_params \<Rightarrow> pydict \<Rightarrow> bool" where
  "row_is_tool dp d = (py_lower (str_or_empty dp (dict_get d ''role'')) = ''tool'')"

text \<open>Index of the last element that satisfies the predicate.\<close>

fun last_index :: "('a \<Rightarrow> bool) \<Rightarrow> 'a list \<Rightarrow> nat option" where
  "last_index P [] = None"
| "last_index P (x # xs) =
     (case last_index P xs of Some n \<Rightarrow> Some (Suc n) | None \<Rightarrow> if P x then Some 0 else None)"

definition steer_note :: "string \<Rightarrow> string" where
  "steer_note message = [char_of (10 :: nat), char_of (10 :: nat)] @ ''[User steering: '' @ message @ '']''"

definition fold_protocol_row :: "dispatch_params \<Rightarrow> string \<Rightarrow> string \<Rightarrow> pydict \<Rightarrow> pydict" where
  "fold_protocol_row dp note q d =
     (let d1 = dict_set ''content'' (PStr (str_or_empty dp (dict_get d ''content'') @ note)) d;
          meta = (case dict_get d1 ''metadata'' of PDict md \<Rightarrow> md | _ \<Rightarrow> [])
      in dict_set ''metadata'' (PDict (dict_set live_key (PStr q) meta)) d1)"

definition fold_protocol :: "dispatch_params \<Rightarrow> string \<Rightarrow> string \<Rightarrow> pyval list \<Rightarrow> pyval list" where
  "fold_protocol dp note q rows =
     (case last_index (\<lambda>r. case r of PDict d \<Rightarrow> row_is_tool dp d | _ \<Rightarrow> False) rows of
        None \<Rightarrow> rows
      | Some n \<Rightarrow> rows[n := (case rows ! n of PDict d \<Rightarrow> PDict (fold_protocol_row dp note q d) | r \<Rightarrow> r)])"

definition apply_soft_steer ::
  "dispatch_params \<Rightarrow> RunContext \<Rightarrow> string \<Rightarrow> string \<Rightarrow> (string + unit) \<times> RunContext" where
  "apply_soft_steer dp cx message q =
     (let messages = cx_messages cx in
      if has_live_message q messages then (Inr (), cx)
      else
        (case last_index (\<lambda>x. ch_role x = ROLE_TOOL) messages of
           None \<Rightarrow> append_user_message dp cx message q
         | Some n \<Rightarrow>
             (let note = steer_note message;
                  tool_msg = messages ! n;
                  folded = tool_msg\<lparr>ch_content := ch_content tool_msg @ note,
                    ch_metadata := dict_set live_key (PStr q) (ch_metadata tool_msg)\<rparr>;
                  cx1 = cx\<lparr>cx_messages := messages[n := folded]\<rparr>
              in case dict_get (cx_metadata cx) ''protocol_messages'' of
                   PList protocol \<Rightarrow>
                     (case protocol_has q protocol of
                        Inl e \<Rightarrow> (Inl e, cx1)
                      | Inr True \<Rightarrow> (Inr (), cx1)
                      | Inr False \<Rightarrow>
                          (Inr (), cx1\<lparr>cx_metadata := dict_set ''protocol_messages''
                             (PList (fold_protocol dp note q protocol)) (cx_metadata cx1)\<rparr>))
                 | _ \<Rightarrow> (Inr (), cx1))))"

section \<open>Applying one control\<close>

record 's drain_state =
  ds_ctx :: RunContext
  ds_heap :: handle_heap
  ds_store :: 's
  ds_log :: "drain_event list"
  ds_applied :: "CommandQueueItem list"

type_synonym 's queue_run = "call_env \<Rightarrow> queue_op \<Rightarrow> 's \<Rightarrow> (control_error + queue_result) \<times> 's"

definition set_policy_metadata :: "string \<Rightarrow> pyval \<Rightarrow> RunContext \<Rightarrow> RunContext" where
  "set_policy_metadata k v cx =
     cx\<lparr>cx_tool_policy := (cx_tool_policy cx)\<lparr>tp_metadata := dict_set k v (tp_metadata (cx_tool_policy cx))\<rparr>\<rparr>"

definition with_ctx ::
  "'s drain_state \<Rightarrow> (string + unit) \<times> RunContext \<Rightarrow> (drain_error + drain_result) \<times> 's drain_state" where
  "with_ctx st r =
     (case fst r of Inl e \<Rightarrow> Inl (Python_Error e) | Inr _ \<Rightarrow> Inr RES_APPLIED, st\<lparr>ds_ctx := snd r\<rparr>)"

text \<open>The stripped text of a payload value, when it is a string that is not blank.\<close>

definition text_of :: "pyval \<Rightarrow> string option" where
  "text_of v = (if nonblank v then map_option py_strip (as_str v) else None)"

definition invalid :: "'s drain_state \<Rightarrow> (drain_error + drain_result) \<times> 's drain_state" where
  "invalid st = (Inr RES_INVALID, st)"

definition apply_control_item ::
  "dispatch_params \<Rightarrow> 's queue_run \<Rightarrow> call_env \<Rightarrow> nat option \<Rightarrow> CommandQueueItem \<Rightarrow> 's drain_state \<Rightarrow>
   (drain_error + drain_result) \<times> 's drain_state" where
  "apply_control_item dp run e handle item st =
     (let cx = ds_ctx st; p = qi_payload item; q = qi_queue_id item in
      case qi_kind item of
        SET_MODEL \<Rightarrow>
          (case text_of (dict_get p ''model'') of
             None \<Rightarrow> invalid st
           | Some model \<Rightarrow> (Inr RES_APPLIED, st\<lparr>ds_ctx := set_policy_metadata ''forced_model'' (PStr model) cx\<rparr>))
      | SET_MAX_THINKING_TOKENS \<Rightarrow>
          (case dict_get_or p ''max_thinking_tokens'' (dict_get p ''tokens'') of
             PInt n \<Rightarrow> if n < 0 then invalid st
               else (Inr RES_APPLIED, st\<lparr>ds_ctx := set_policy_metadata ''reasoning_max_tokens'' (PInt n) cx\<rparr>)
           | _ \<Rightarrow> invalid st)
      | SET_PERMISSION_MODE \<Rightarrow>
          (case text_of (dict_get p ''mode'') of
             None \<Rightarrow> invalid st
           | Some mode \<Rightarrow> (Inr RES_APPLIED, st\<lparr>ds_ctx :=
               cx\<lparr>cx_app_metadata := dict_set ''permission_mode'' (PStr mode) (cx_app_metadata cx)\<rparr>\<rparr>))
      | SET_TOOL_POLICY \<Rightarrow>
          (case dict_get p ''tool_policy'' of
             PDict d \<Rightarrow>
               (case dp_validate_policy dp d of
                  Inl er \<Rightarrow> (Inl (Python_Error er), st)
                | Inr pol \<Rightarrow> (Inr RES_APPLIED, st\<lparr>ds_ctx := cx\<lparr>cx_tool_policy := pol\<rparr>\<rparr>))
           | _ \<Rightarrow> invalid st)
      | ENQUEUE_USER_MESSAGE \<Rightarrow>
          (case text_of (dict_get p ''message'') of
             None \<Rightarrow> invalid st
           | Some message \<Rightarrow> with_ctx st (append_user_message dp cx message q))
      | STEER_USER_MESSAGE \<Rightarrow>
          (case text_of (dict_get p ''message'') of
             None \<Rightarrow> invalid st
           | Some message \<Rightarrow> with_ctx st (apply_soft_steer dp cx message q))
      | PAUSE \<Rightarrow>
          (Inr RES_APPLIED, st\<lparr>ds_ctx :=
             cx\<lparr>cx_metadata := dict_set ''steering_pause_requested'' (PBool True) (cx_metadata cx)\<rparr>\<rparr>)
      | REDIRECT_USER_MESSAGE \<Rightarrow>
          (case text_of (request_message p) of
             None \<Rightarrow> invalid st
           | Some message \<Rightarrow>
               with_ctx st (append_user_message dp cx (framed_redirect_correction dp message) q))
      | INTERRUPT \<Rightarrow>
          (case handle of
             None \<Rightarrow> (Inr RES_UNSUPPORTED, st)
           | Some h \<Rightarrow>
               (let reason = (if truthy (dict_get p ''reason'') then str_or_empty dp (dict_get p ''reason'')
                              else ''steering_interrupt'')
                in (Inr RES_APPLIED, st\<lparr>ds_heap := abort h reason (ds_heap st)\<rparr>)))
      | CANCEL_QUEUED_MESSAGE \<Rightarrow>
          (case text_of (dict_get p ''queue_id'') of
             None \<Rightarrow> invalid st
           | Some target \<Rightarrow>
               (case run e (Cancel_Next target) (ds_store st) of
                  (Inl er, s') \<Rightarrow> invalid (st\<lparr>ds_store := s'\<rparr>)
                | (Inr _, s') \<Rightarrow> (Inr RES_APPLIED, st\<lparr>ds_store := s'\<rparr>)))
      | GET_CONTEXT_USAGE \<Rightarrow>
          (let pressure = dict_get (cx_metadata cx) ''token_pressure'';
               report = [(''signal_id'', PStr ''context_usage_report''), (''severity'', PStr ''info''),
                 (''step_count'', PInt (cx_step_count cx)),
                 (''token_pressure'', case pressure of PDict _ \<Rightarrow> pressure | _ \<Rightarrow> PDict []),
                 (''raw_free'', PBool True)]
           in (Inr RES_APPLIED, if dp_emit dp then st\<lparr>ds_log := ds_log st @ [Emit report]\<rparr> else st))
      | PATCH_PLANNING_STATE \<Rightarrow>
          (case py_or (dict_get p ''planning_state'') (dict_get p ''patch'') of
             PDict patch \<Rightarrow>
               (let cur = (case dict_get (cx_metadata cx) ''planning_state'' of PDict d \<Rightarrow> d | _ \<Rightarrow> [])
                in (Inr RES_APPLIED, st\<lparr>ds_ctx := cx\<lparr>cx_metadata :=
                      dict_set ''planning_state'' (PDict (dict_merge cur patch)) (cx_metadata cx)\<rparr>\<rparr>))
           | _ \<Rightarrow> invalid st)
      | STOP_SUBAGENT \<Rightarrow> (Inr RES_NOT_IMPLEMENTED, st)
      | CONTINUE_SUBAGENT \<Rightarrow> (Inr RES_NOT_IMPLEMENTED, st))"

section \<open>The drain loop\<close>

fun maybe_row :: "queue_result \<Rightarrow> CommandQueueItem option" where
  "maybe_row (Maybe_Row r) = r"
| "maybe_row (Row i) = Some i"
| "maybe_row _ = None"

fun rows_of :: "queue_result \<Rightarrow> CommandQueueItem list" where
  "rows_of (Rows is) = is"
| "rows_of _ = []"

definition transition :: "dispatch_params \<Rightarrow> CommandQueueItem list \<Rightarrow> 's drain_state \<Rightarrow> 's drain_state" where
  "transition dp is st = (if dp_transition dp then st\<lparr>ds_log := ds_log st @ map Transition is\<rparr> else st)"

definition emit_control_warning ::
  "dispatch_params \<Rightarrow> CommandQueueItem \<Rightarrow> string \<Rightarrow> 's drain_state \<Rightarrow> 's drain_state" where
  "emit_control_warning dp item signal st =
     (if dp_emit dp
      then st\<lparr>ds_log := ds_log st @ [Emit
        [(''signal_id'', PStr signal), (''severity'', PStr ''warning''),
         (''control_kind'', PStr (kind_value (qi_kind item))), (''queue_id'', PStr (qi_queue_id item)),
         (''raw_free'', PBool True)]]\<rparr>
      else st)"

text \<open>Marking a row failed and reporting it; the three failure branches differ in the texts.\<close>

definition fail_item ::
  "dispatch_params \<Rightarrow> 's queue_run \<Rightarrow> call_env \<Rightarrow> CommandQueueItem \<Rightarrow> string \<Rightarrow> string \<Rightarrow> 's drain_state \<Rightarrow>
   (drain_error + unit) \<times> 's drain_state" where
  "fail_item dp run e item er signal st =
     (case run e (Mark_Failed (qi_queue_id item) er) (ds_store st) of
        (Inl x, s') \<Rightarrow> (Inl (Store_Error x), st\<lparr>ds_store := s'\<rparr>)
      | (Inr r, s') \<Rightarrow>
          (Inr (), emit_control_warning dp item signal
             (transition dp (case maybe_row r of None \<Rightarrow> [] | Some i \<Rightarrow> [i]) (st\<lparr>ds_store := s'\<rparr>))))"

definition mark_item ::
  "dispatch_params \<Rightarrow> 's queue_run \<Rightarrow> call_env \<Rightarrow> string \<Rightarrow> LiveMessagePhase \<Rightarrow> CommandQueueItem \<Rightarrow>
   's drain_state \<Rightarrow> (drain_error + unit) \<times> 's drain_state" where
  "mark_item dp run e claimant phase item st =
     (let st1 = (if dp_persist dp then st\<lparr>ds_log := ds_log st @ [Persist]\<rparr> else st) in
      case run e (Mark_Applied (qi_queue_id item) (Some claimant) (Some phase)) (ds_store st1) of
        (Inl x, s') \<Rightarrow> (Inl (Store_Error x), st1\<lparr>ds_store := s'\<rparr>)
      | (Inr r, s') \<Rightarrow>
          (let applied_item = (case maybe_row r of Some i \<Rightarrow> i | None \<Rightarrow> item)
           in (Inr (), transition dp [applied_item]
                 (st1\<lparr>ds_store := s', ds_applied := ds_applied st1 @ [applied_item]\<rparr>))))"

definition stop_item ::
  "dispatch_params \<Rightarrow> 's queue_run \<Rightarrow> call_env \<Rightarrow> 's drain_state \<Rightarrow> (drain_error + unit) \<times> 's drain_state" where
  "stop_item dp run e st =
     (case run e (Stop_Run (cx_run_id (ds_ctx st))) (ds_store st) of
        (Inl x, s') \<Rightarrow> (Inl (Store_Error x), st\<lparr>ds_store := s'\<rparr>)
      | (Inr r, s') \<Rightarrow> (Inr (), transition dp (rows_of r) (st\<lparr>ds_store := s'\<rparr>)))"

text \<open>One round: \<open>Inr True\<close> when the loop goes on, \<open>Inr False\<close> when it breaks.\<close>

definition drain_round ::
  "dispatch_params \<Rightarrow> 's queue_run \<Rightarrow> (nat \<Rightarrow> call_env) \<Rightarrow> nat option \<Rightarrow> string \<Rightarrow> LiveMessagePhase \<Rightarrow>
   's drain_state \<Rightarrow> (drain_error + bool) \<times> 's drain_state" where
  "drain_round dp run es handle claimant phase st =
     (case run (es 0) (Claim_For_Boundary (cx_run_id (ds_ctx st)) claimant phase) (ds_store st) of
        (Inl x, s') \<Rightarrow> (Inl (Store_Error x), st\<lparr>ds_store := s'\<rparr>)
      | (Inr r, s') \<Rightarrow>
          (case maybe_row r of
             None \<Rightarrow> (Inr False, st\<lparr>ds_store := s'\<rparr>)
           | Some item \<Rightarrow>
               (case apply_control_item dp run (es 1) handle item (st\<lparr>ds_store := s'\<rparr>) of
                  (Inl er, st2) \<Rightarrow> (Inl er, st2)
                | (Inr RES_APPLIED, st2) \<Rightarrow>
                    (case mark_item dp run (es 2) claimant phase item st2 of
                       (Inl er, st3) \<Rightarrow> (Inl er, st3)
                     | (Inr _, st3) \<Rightarrow>
                         if qi_kind item = INTERRUPT
                         then (case stop_item dp run (es 3) st3 of
                                 (Inl er, st4) \<Rightarrow> (Inl er, st4) | (Inr _, st4) \<Rightarrow> (Inr False, st4))
                         else (Inr True, st3))
                | (Inr res, st2) \<Rightarrow>
                    (case (case res of
                             RES_INVALID \<Rightarrow> fail_item dp run (es 2) item ''invalid_control_payload'' ''control_payload_invalid'' st2
                           | RES_NOT_IMPLEMENTED \<Rightarrow> fail_item dp run (es 2) item ''control_kind_not_implemented'' ''control_kind_not_implemented'' st2
                           | _ \<Rightarrow> fail_item dp run (es 2) item ''control_kind_unsupported'' ''control_kind_unsupported'' st2) of
                       (Inl er, st3) \<Rightarrow> (Inl er, st3)
                     | (Inr _, st3) \<Rightarrow> (Inr True, st3)))))"

fun drain_loop ::
  "nat \<Rightarrow> dispatch_params \<Rightarrow> 's queue_run \<Rightarrow> (nat \<Rightarrow> call_env) \<Rightarrow> nat option \<Rightarrow> string \<Rightarrow> LiveMessagePhase \<Rightarrow>
   's drain_state \<Rightarrow> ((drain_error + unit) \<times> 's drain_state) option" where
  "drain_loop 0 dp run es handle claimant phase st = None"
| "drain_loop (Suc n) dp run es handle claimant phase st =
     (case drain_round dp run es handle claimant phase st of
        (Inl er, st') \<Rightarrow> Some (Inl er, st')
      | (Inr False, st') \<Rightarrow> Some (Inr (), st')
      | (Inr True, st') \<Rightarrow> drain_loop n dp run (\<lambda>k. es (k + 4)) handle claimant phase st')"

definition record_applied :: "dispatch_params \<Rightarrow> 's drain_state \<Rightarrow> 's drain_state" where
  "record_applied dp st =
     (if ds_applied st = [] then st
      else
        (let existing = (case dict_get (cx_metadata (ds_ctx st)) ''applied_controls'' of PList xs \<Rightarrow> xs | _ \<Rightarrow> [])
         in st\<lparr>ds_ctx := (ds_ctx st)\<lparr>cx_metadata := dict_set ''applied_controls''
              (PList (existing @ map (dp_dump_item dp) (ds_applied st))) (cx_metadata (ds_ctx st))\<rparr>\<rparr>))"

definition drain_step_boundary_controls ::
  "nat \<Rightarrow> dispatch_params \<Rightarrow> 's queue_run \<Rightarrow> (nat \<Rightarrow> call_env) \<Rightarrow> nat option \<Rightarrow> string \<Rightarrow> LiveMessagePhase \<Rightarrow>
   's drain_state \<Rightarrow> ((drain_error + CommandQueueItem list) \<times> 's drain_state) option" where
  "drain_step_boundary_controls fuel dp run es handle claimant phase st =
     map_option
       (\<lambda>(r, st'). case r of Inl er \<Rightarrow> (Inl er, st')
                   | Inr _ \<Rightarrow> (Inr (ds_applied st'), record_applied dp st'))
       (drain_loop fuel dp run es handle claimant phase st)"

section \<open>Open rows shrink\<close>

definition open_rows :: "InMemoryCommandQueueStore \<Rightarrow> string set" where
  "open_rows s = {q. \<exists>i. cs_items s q = Some i \<and> qi_status i = QUEUED \<and> qi_claimed_by i = None}"

lemma finite_open_rows: "store_ok s \<Longrightarrow> finite (open_rows s)"
  by (rule finite_subset [of _ "set (cs_order s)"])
    (use store_ok_item in \<open>auto simp: open_rows_def\<close>)

lemma open_rows_path:
  assumes path: "store_path B s s'" and ok: "store_ok s" and order: "cs_order s' = cs_order s"
    and B: "\<And>q a c. B q a \<Longrightarrow> a \<noteq> Release_Act c \<and> a \<noteq> Promote_Act"
  shows "open_rows s' \<subseteq> open_rows s"
proof
  fix q
  assume "q \<in> open_rows s'"
  then obtain j where j: "cs_items s' q = Some j" "qi_status j = QUEUED" "qi_claimed_by j = None"
    by (auto simp: open_rows_def)
  have "store_ok s'" by (rule store_path_ok [OF path ok])
  then have "q \<in> set (cs_order s)" using store_ok_item j(1) order by metis
  then obtain i where i: "cs_items s q = Some i" using ok by (auto simp: store_ok_def)
  have held: "claim_held q c s'" if "claim_held q c s" for c
    using store_path_claim [OF path ok that] B by blast
  show "q \<in> open_rows s"
  proof (cases "qi_claimed_by i")
    case (Some c)
    then have "claim_held q c s" using i by (simp add: claim_held_def)
    then show ?thesis using held j by (fastforce simp: claim_held_def)
  next
    case None
    have "qi_status i = QUEUED"
    proof (rule ccontr)
      assume "qi_status i \<noteq> QUEUED"
      then have "claim_held q [] s" using i by (simp add: claim_held_def)
      then show False using held j by (fastforce simp: claim_held_def)
    qed
    with None i show ?thesis by (simp add: open_rows_def)
  qed
qed

text \<open>The calls the dispatcher makes.\<close>

fun drain_op :: "queue_op \<Rightarrow> bool" where
  "drain_op (Claim_For_Boundary r c ph) = True"
| "drain_op (Mark_Applied q c ph) = True"
| "drain_op (Mark_Failed q er) = True"
| "drain_op (Cancel_Next q) = True"
| "drain_op (Stop_Run r) = True"
| "drain_op _ = False"

lemma commit_loop_frame:
  "cs_order (snd (commit_loop now ts b ph is (ch, s))) = cs_order s
   \<and> cs_runs (snd (commit_loop now ts b ph is (ch, s))) = cs_runs s"
proof (induction "is" arbitrary: now ch s b)
  case (Cons i "is")
  have "cs_order (snd (mark_applied t q c ap s)) = cs_order s \<and> cs_runs (snd (mark_applied t q c ap s)) = cs_runs s"
    "cs_order (snd (mark_failed t q er s)) = cs_order s \<and> cs_runs (snd (mark_failed t q er s)) = cs_runs s"
    for t q c ap er
    by (simp_all add: mark_applied_def mark_failed_def Let_def split: option.splits)
  with Cons show ?case by (simp add: split_beta put_item_def)
qed simp

lemma drain_op_order: "drain_op op \<Longrightarrow> cs_order (snd (exec_op sha e op s)) = cs_order s"
  by (cases op)
    (auto simp: claim_for_boundary_def mark_applied_def mark_failed_def cancel_next_def cancel_unlocked_def
      stop_run_def commit_terminal_def commit_loop_frame put_item_def put_run_def Let_def
      split: option.splits)

lemma stop_run_terminal:
  "\<exists>st. cs_runs (snd (stop_run now rid s)) rid = Some st \<and> rs_phase st = TERMINAL"
  by (simp add: stop_run_def commit_terminal_def Let_def commit_loop_frame put_run_def)

text \<open>Nothing is left for a boundary to claim.\<close>

definition drained :: "string \<Rightarrow> InMemoryCommandQueueStore \<Rightarrow> bool" where
  "drained rid s = (\<forall>now c. claim_for_boundary now rid c s = (None, s))"

lemma claim_none_drained:
  assumes "claim_for_boundary now rid c s = (None, s')"
  shows "drained rid s \<and> s' = s"
  using assms by (auto simp: drained_def claim_for_boundary_def Let_def split: option.splits if_splits)

lemma stop_run_drained: "drained rid (snd (stop_run now rid s))"
  using stop_run_terminal [of now rid s] by (auto simp: drained_def claim_for_boundary_def)

lemma drain_op_acts:
  "drain_op op \<Longrightarrow> (\<And>r. op \<noteq> Stop_Run r) \<Longrightarrow> op_acts op q a \<Longrightarrow> a \<noteq> Release_Act c \<and> a \<noteq> Promote_Act"
  by (cases op) auto

lemma cancel_next_claimed:
  "cs_items s q = Some i \<Longrightarrow> qi_claimed_by i \<noteq> None \<Longrightarrow> cs_items (snd (cancel_next now t s)) q = Some i"
  by (auto simp: cancel_next_def cancel_unlocked_def Let_def split: option.splits)

lemma mark_applied_owned:
  assumes "cs_items s q = Some i" "qi_status i = QUEUED" "qi_claimed_by i = Some c"
  shows "\<exists>j. mark_applied t q (Some c) ph s = (Some j, s\<lparr>cs_items := (cs_items s)(q \<mapsto> j)\<rparr>)
    \<and> row_key j = row_key i \<and> qi_status j = APPLIED"
  using assms by (simp add: mark_applied_def Let_def row_key_def)

section \<open>What applying a control can touch\<close>

lemma append_user_message_run [simp]: "cx_run_id (snd (append_user_message dp cx msg q)) = cx_run_id cx"
  by (auto simp: append_user_message_def Let_def split: option.splits pyval.splits sum.splits bool.splits)

lemma apply_soft_steer_run [simp]: "cx_run_id (snd (apply_soft_steer dp cx msg q)) = cx_run_id cx"
  by (auto simp: apply_soft_steer_def Let_def split: option.splits pyval.splits sum.splits bool.splits)

lemma with_ctx_fields [simp]:
  "ds_ctx (snd (with_ctx st r)) = snd r" "ds_store (snd (with_ctx st r)) = ds_store st"
  "ds_applied (snd (with_ctx st r)) = ds_applied st"
  by (simp_all add: with_ctx_def)

lemma snd_invalid [simp]: "snd (invalid st) = st"
  by (simp add: invalid_def)

lemma set_policy_metadata_run [simp]: "cx_run_id (set_policy_metadata k v cx) = cx_run_id cx"
  by (simp add: set_policy_metadata_def)

lemma apply_control_item_frame:
  "cx_run_id (ds_ctx (snd (apply_control_item dp run e h item st))) = cx_run_id (ds_ctx st)
   \<and> ds_applied (snd (apply_control_item dp run e h item st)) = ds_applied st
   \<and> (ds_store (snd (apply_control_item dp run e h item st)) = ds_store st
      \<or> (\<exists>t. ds_store (snd (apply_control_item dp run e h item st)) = snd (run e (Cancel_Next t) (ds_store st))))"
proof (cases "qi_kind item")
  case CANCEL_QUEUED_MESSAGE
  then show ?thesis
    by (auto simp: apply_control_item_def Let_def invalid_def split: option.splits prod.splits sum.splits)
       (metis snd_conv)+
qed (auto simp: apply_control_item_def Let_def split: option.splits pyval.splits sum.splits)

lemma transition_fields [simp]:
  "ds_store (transition dp is st) = ds_store st" "ds_ctx (transition dp is st) = ds_ctx st"
  "ds_applied (transition dp is st) = ds_applied st"
  by (simp_all add: transition_def)

lemma emit_control_warning_fields [simp]:
  "ds_store (emit_control_warning dp i sg st) = ds_store st" "ds_ctx (emit_control_warning dp i sg st) = ds_ctx st"
  "ds_applied (emit_control_warning dp i sg st) = ds_applied st"
  by (simp_all add: emit_control_warning_def)

section \<open>One round, for every backend\<close>

text \<open>The rows reported as applied are stored as applied.\<close>

definition applied_stored :: "InMemoryCommandQueueStore \<Rightarrow> CommandQueueItem list \<Rightarrow> bool" where
  "applied_stored s is = (\<forall>i \<in> set is. cs_items s (qi_queue_id i) = Some i \<and> qi_status i = APPLIED)"

lemma applied_stored_evolves:
  "applied_stored s is \<Longrightarrow> store_evolves s s' \<Longrightarrow> applied_stored s' is"
  by (fastforce simp: applied_stored_def store_evolves_def row_evolves_def)

context command_queue_store
begin

lemma call_value:
  assumes "valid s" "fresh_env e (view s)" "exec_op sha e op (view s) = (Inr x, m)"
  shows "\<exists>s'. run e op s = (Inr x, s') \<and> view s' = m"
  using run_result [OF assms(1,2), of op] run_view [OF assms(1,2), of op] assms(3)
  by (cases "run e op s") auto

lemma drain_call:
  assumes v: "valid s" and f: "fresh_env e (view s)" and op: "drain_op op"
  shows "valid (snd (run e op s)) \<and> cs_order (view (snd (run e op s))) = cs_order (view s)
    \<and> store_evolves (view s) (view (snd (run e op s)))
    \<and> ((\<forall>r. op \<noteq> Stop_Run r) \<longrightarrow> open_rows (view (snd (run e op s))) \<subseteq> open_rows (view s))"
proof -
  have order: "cs_order (view (snd (run e op s))) = cs_order (view s)"
    using drain_op_order [OF op] run_view [OF v f] by simp
  have path: "store_path (op_acts op) (view s) (view (snd (run e op s)))" by (rule call_path [OF v f])
  show ?thesis
    using order run_valid [OF v f] store_path_evolves [OF path valid_ok [OF v]]
      open_rows_path [OF path valid_ok [OF v] order] drain_op_acts [OF op] by blast
qed

lemma claim_call:
  assumes v: "valid s" and f: "fresh_env e (view s)"
  shows "\<exists>x s'. run e (Claim_For_Boundary rid c ph) s = (Inr (Maybe_Row x), s')
    \<and> claim_for_boundary (ce_now e 0) rid c (view s) = (x, view s')"
  using call_value [OF v f, of "Claim_For_Boundary rid c ph"]
  by (cases "claim_for_boundary (ce_now e 0) rid c (view s)") (auto simp: returning_def)

lemma mark_call:
  assumes v: "valid s" and f: "fresh_env e (view s)"
    and i: "cs_items (view s) q = Some i" "qi_status i = QUEUED" "qi_claimed_by i = Some c"
  shows "\<exists>j s'. run e (Mark_Applied q (Some c) ph) s = (Inr (Maybe_Row (Some j)), s')
    \<and> cs_items (view s') q = Some j \<and> qi_queue_id j = qi_queue_id i \<and> qi_status j = APPLIED"
proof -
  obtain j where j: "mark_applied (ce_now e 0) q (Some c) ph (view s)
      = (Some j, (view s)\<lparr>cs_items := (cs_items (view s))(q \<mapsto> j)\<rparr>)" "row_key j = row_key i" "qi_status j = APPLIED"
    using mark_applied_owned [OF i] by blast
  then show ?thesis
    using call_value [OF v f, of "Mark_Applied q (Some c) ph"] by (fastforce simp: returning_def row_key_def)
qed

lemma fail_call:
  assumes v: "valid s" and f: "fresh_env e (view s)"
  shows "\<exists>x s'. run e (Mark_Failed q er) s = (Inr (Maybe_Row x), s')"
  using call_value [OF v f, of "Mark_Failed q er"] by (auto simp: returning_def)

lemma stop_call:
  assumes v: "valid s" and f: "fresh_env e (view s)"
  shows "\<exists>x s'. run e (Stop_Run rid) s = (Inr (Rows x), s') \<and> drained rid (view s')"
proof -
  obtain x m where "stop_run (ce_now e) rid (view s) = (x, m)" by fastforce
  then show ?thesis
    using call_value [OF v f, of "Stop_Run rid"] stop_run_drained [of rid "ce_now e" "view s"]
    by (auto simp: returning_def)
qed

text \<open>The row just claimed is untouched when the control is applied.\<close>

lemma apply_keeps_claim:
  assumes v: "valid (ds_store st)" and f: "fresh_env e (view (ds_store st))"
    and i: "cs_items (view (ds_store st)) q = Some i" "qi_claimed_by i \<noteq> None"
    and r: "apply_control_item dp run e h item st = (r, st')"
  shows "valid (ds_store st') \<and> cs_order (view (ds_store st')) = cs_order (view (ds_store st))
    \<and> store_evolves (view (ds_store st)) (view (ds_store st'))
    \<and> open_rows (view (ds_store st')) \<subseteq> open_rows (view (ds_store st))
    \<and> cs_items (view (ds_store st')) q = Some i
    \<and> cx_run_id (ds_ctx st') = cx_run_id (ds_ctx st) \<and> ds_applied st' = ds_applied st"
proof -
  have frame: "cx_run_id (ds_ctx st') = cx_run_id (ds_ctx st)" "ds_applied st' = ds_applied st"
    "ds_store st' = ds_store st \<or> (\<exists>t. ds_store st' = snd (run e (Cancel_Next t) (ds_store st)))"
    using apply_control_item_frame [of dp run e h item st] r by auto
  from frame(3) show ?thesis
  proof
    assume "ds_store st' = ds_store st"
    then show ?thesis using v i(1) frame(1,2) by simp
  next
    assume "\<exists>t. ds_store st' = snd (run e (Cancel_Next t) (ds_store st))"
    then obtain t where t: "ds_store st' = snd (run e (Cancel_Next t) (ds_store st))" by blast
    have "cs_items (view (ds_store st')) q = Some i"
      using run_view [OF v f, of "Cancel_Next t"] cancel_next_claimed [OF i] t by simp
    then show ?thesis using drain_call [OF v f, of "Cancel_Next t"] t frame(1,2) by simp
  qed
qed

lemma mark_item_ok:
  assumes v: "valid (ds_store st)" and f: "fresh_env e (view (ds_store st))"
    and i: "cs_items (view (ds_store st)) (qi_queue_id i) = Some i" "qi_status i = QUEUED" "qi_claimed_by i = Some c"
    and app: "applied_stored (view (ds_store st)) (ds_applied st)"
  shows "\<exists>st'. mark_item dp run e c ph i st = (Inr (), st') \<and> valid (ds_store st')
    \<and> cs_order (view (ds_store st')) = cs_order (view (ds_store st))
    \<and> store_evolves (view (ds_store st)) (view (ds_store st'))
    \<and> open_rows (view (ds_store st')) \<subseteq> open_rows (view (ds_store st))
    \<and> ds_ctx st' = ds_ctx st \<and> applied_stored (view (ds_store st')) (ds_applied st')"
proof -
  let ?op = "Mark_Applied (qi_queue_id i) (Some c) (Some ph)"
  obtain j s' where j: "run e ?op (ds_store st) = (Inr (Maybe_Row (Some j)), s')"
    "cs_items (view s') (qi_queue_id i) = Some j" "qi_queue_id j = qi_queue_id i" "qi_status j = APPLIED"
    using mark_call [OF v f i] by blast
  have d: "valid s'" "cs_order (view s') = cs_order (view (ds_store st))"
    "store_evolves (view (ds_store st)) (view s')" "open_rows (view s') \<subseteq> open_rows (view (ds_store st))"
    using drain_call [OF v f, of ?op] j(1) by auto
  have "applied_stored (view s') (ds_applied st @ [j])"
    using applied_stored_evolves [OF app d(3)] j by (simp add: applied_stored_def)
  then show ?thesis
    using j(1) d by (simp add: mark_item_def)
qed

lemma fail_item_ok:
  assumes v: "valid (ds_store st)" and f: "fresh_env e (view (ds_store st))"
    and app: "applied_stored (view (ds_store st)) (ds_applied st)"
  shows "\<exists>st'. fail_item dp run e i er sg st = (Inr (), st') \<and> valid (ds_store st')
    \<and> cs_order (view (ds_store st')) = cs_order (view (ds_store st))
    \<and> store_evolves (view (ds_store st)) (view (ds_store st'))
    \<and> open_rows (view (ds_store st')) \<subseteq> open_rows (view (ds_store st))
    \<and> ds_ctx st' = ds_ctx st \<and> applied_stored (view (ds_store st')) (ds_applied st')"
proof -
  let ?op = "Mark_Failed (qi_queue_id i) er"
  obtain x s' where x: "run e ?op (ds_store st) = (Inr (Maybe_Row x), s')" using fail_call [OF v f] by blast
  have "valid s' \<and> cs_order (view s') = cs_order (view (ds_store st))
    \<and> store_evolves (view (ds_store st)) (view s') \<and> open_rows (view s') \<subseteq> open_rows (view (ds_store st))"
    using drain_call [OF v f, of ?op] x by auto
  then show ?thesis
    using x applied_stored_evolves [OF app] by (simp add: fail_item_def)
qed

lemma stop_item_ok:
  assumes v: "valid (ds_store st)" and f: "fresh_env e (view (ds_store st))"
    and app: "applied_stored (view (ds_store st)) (ds_applied st)"
  shows "\<exists>st'. stop_item dp run e st = (Inr (), st') \<and> valid (ds_store st')
    \<and> drained (cx_run_id (ds_ctx st)) (view (ds_store st'))
    \<and> applied_stored (view (ds_store st')) (ds_applied st')"
proof -
  let ?op = "Stop_Run (cx_run_id (ds_ctx st))"
  obtain x s' where x: "run e ?op (ds_store st) = (Inr (Rows x), s')" "drained (cx_run_id (ds_ctx st)) (view s')"
    using stop_call [OF v f] by blast
  have "valid s' \<and> store_evolves (view (ds_store st)) (view s')"
    using drain_call [OF v f, of ?op] x(1) by auto
  then show ?thesis
    using x applied_stored_evolves [OF app] by (simp add: stop_item_def)
qed

text \<open>A round keeps the queue valid and the report true; when it goes on, one row less is open; when
  it breaks, nothing is left to claim.\<close>

lemma drain_round_ok:
  assumes v: "valid (ds_store st)" and f: "\<And>n. fresh_env (es n) (view (ds_store st))"
    and app: "applied_stored (view (ds_store st)) (ds_applied st)"
  shows "\<exists>r st'. drain_round dp run es h c ph st = (r, st') \<and> valid (ds_store st')
    \<and> applied_stored (view (ds_store st')) (ds_applied st')
    \<and> (r = Inr True \<longrightarrow> cs_order (view (ds_store st')) = cs_order (view (ds_store st))
         \<and> open_rows (view (ds_store st')) \<subset> open_rows (view (ds_store st))
         \<and> cx_run_id (ds_ctx st') = cx_run_id (ds_ctx st))
    \<and> (r = Inr False \<longrightarrow> drained (cx_run_id (ds_ctx st)) (view (ds_store st')))"
proof -
  let ?rid = "cx_run_id (ds_ctx st)" and ?s = "ds_store st"
  obtain x s1 where x: "run (es 0) (Claim_For_Boundary ?rid c ph) ?s = (Inr (Maybe_Row x), s1)"
    "claim_for_boundary (ce_now (es 0) 0) ?rid c (view ?s) = (x, view s1)"
    using claim_call [OF v f] by blast
  have s1: "valid s1" "cs_order (view s1) = cs_order (view ?s)" "store_evolves (view ?s) (view s1)"
    "open_rows (view s1) \<subseteq> open_rows (view ?s)"
    using drain_call [OF v f [of 0], of "Claim_For_Boundary ?rid c ph"] x(1) by auto
  have app1: "applied_stored (view s1) (ds_applied st)" by (rule applied_stored_evolves [OF app s1(3)])
  show ?thesis
  proof (cases x)
    case None
    with x claim_none_drained app1 s1 show ?thesis by (fastforce simp: drain_round_def)
  next
    case (Some i)
    let ?st1 = "st\<lparr>ds_store := s1\<rparr>"
    obtain i0 where i0: "cs_items (view ?s) (qi_queue_id i) = Some i0" "qi_status i0 = QUEUED" "qi_claimed_by i0 = None"
      "i = i0\<lparr>qi_claimed_by := Some c, qi_claimed_at := Some (ce_now (es 0) 0), qi_updated_at := ce_now (es 0) 0\<rparr>"
      "view s1 = put_item i (view ?s)"
      using claim_for_boundary_Some [OF valid_ok [OF v]] x(2) Some by blast
    have i: "cs_items (view s1) (qi_queue_id i) = Some i" "qi_status i = QUEUED" "qi_claimed_by i = Some c"
      using i0 by (simp_all add: put_item_def)
    have open1: "qi_queue_id i \<in> open_rows (view ?s)" using i0 by (simp add: open_rows_def)
    obtain r st2 where r: "apply_control_item dp run (es 1) h i ?st1 = (r, st2)" by fastforce
    have st2: "valid (ds_store st2)" "cs_order (view (ds_store st2)) = cs_order (view s1)"
      "store_evolves (view s1) (view (ds_store st2))" "open_rows (view (ds_store st2)) \<subseteq> open_rows (view s1)"
      "cs_items (view (ds_store st2)) (qi_queue_id i) = Some i" "cx_run_id (ds_ctx st2) = ?rid"
      "ds_applied st2 = ds_applied st"
      using apply_keeps_claim [of ?st1 "es 1" "qi_queue_id i" i dp h i r st2] s1 f i r
      by (simp_all add: fresh_env_def)
    have app2: "applied_stored (view (ds_store st2)) (ds_applied st2)"
      using applied_stored_evolves [OF app1 st2(3)] st2(7) by simp
    have f2: "fresh_env (es n) (view (ds_store st2))" for n
      using f [of n] st2(2) s1(2) by (simp add: fresh_env_def)
    have fewer: "X \<subset> open_rows (view ?s)" if "X \<subseteq> open_rows (view (ds_store st2))" for X
    proof -
      have "qi_queue_id i \<notin> open_rows (view (ds_store st2))" using st2(5) i(3) by (simp add: open_rows_def)
      then show ?thesis using that st2(4) s1(4) open1 by blast
    qed
    note fails = fail_item_ok [OF st2(1) f2 [of 2] app2, of dp i]
    obtain m where m: "mark_item dp run (es 2) c ph i st2 = (Inr (), m)" "valid (ds_store m)"
      "cs_order (view (ds_store m)) = cs_order (view (ds_store st2))"
      "open_rows (view (ds_store m)) \<subseteq> open_rows (view (ds_store st2))"
      "ds_ctx m = ds_ctx st2" "applied_stored (view (ds_store m)) (ds_applied m)"
      using mark_item_ok [OF st2(1) f2 [of 2] st2(5) i(2,3) app2, of dp ph] by blast
    have fm: "fresh_env (es n) (view (ds_store m))" for n using f2 [of n] m(3) by (simp add: fresh_env_def)
    obtain t where t: "stop_item dp run (es 3) m = (Inr (), t)" "valid (ds_store t)"
      "drained ?rid (view (ds_store t))" "applied_stored (view (ds_store t)) (ds_applied t)"
      using stop_item_ok [OF m(2) fm [of 3] m(6), of dp] m(5) st2(6) by auto
    have head: "drain_round dp run es h c ph st = (case (r, st2) of
        (Inl er, st2) \<Rightarrow> (Inl er, st2)
      | (Inr RES_APPLIED, st2) \<Rightarrow> (if qi_kind i = INTERRUPT then (Inr False, t) else (Inr True, m))
      | (Inr res, st2) \<Rightarrow>
          (case (case res of
                   RES_INVALID \<Rightarrow> fail_item dp run (es 2) i ''invalid_control_payload'' ''control_payload_invalid'' st2
                 | RES_NOT_IMPLEMENTED \<Rightarrow> fail_item dp run (es 2) i ''control_kind_not_implemented'' ''control_kind_not_implemented'' st2
                 | _ \<Rightarrow> fail_item dp run (es 2) i ''control_kind_unsupported'' ''control_kind_unsupported'' st2) of
             (Inl er, st3) \<Rightarrow> (Inl er, st3) | (Inr _, st3) \<Rightarrow> (Inr True, st3)))"
      using x(1) Some r m(1) t(1)
      by (simp add: drain_round_def split: sum.splits drain_result.splits)
    show ?thesis
    proof (cases r)
      case (Inl er)
      then show ?thesis using head st2(1) app2 by simp
    next
      case (Inr res)
      show ?thesis
      proof (cases "res = RES_APPLIED")
        case True
        then show ?thesis
          using head Inr m t fewer [OF m(4)] st2(2,6) s1(2) by (cases "qi_kind i = INTERRUPT") auto
      next
        case False
        obtain er sg where e: "drain_round dp run es h c ph st = (case fail_item dp run (es 2) i er sg st2 of
            (Inl er, st3) \<Rightarrow> (Inl er, st3) | (Inr _, st3) \<Rightarrow> (Inr True, st3))"
          using head Inr False by (cases res) (auto split: sum.splits)
        obtain st3 where st3: "fail_item dp run (es 2) i er sg st2 = (Inr (), st3)" "valid (ds_store st3)"
          "cs_order (view (ds_store st3)) = cs_order (view (ds_store st2))"
          "open_rows (view (ds_store st3)) \<subseteq> open_rows (view (ds_store st2))"
          "ds_ctx st3 = ds_ctx st2" "applied_stored (view (ds_store st3)) (ds_applied st3)"
          using fails [of er sg] by blast
        then show ?thesis using e fewer [OF st3(4)] st2(2,6) s1(2) by auto
      qed
    qed
  qed
qed

lemma drain_loop_ok:
  assumes "valid (ds_store st)" "\<And>n. fresh_env (es n) (view (ds_store st))"
    "applied_stored (view (ds_store st)) (ds_applied st)"
    "card (open_rows (view (ds_store st))) < fuel"
  shows "\<exists>r st'. drain_loop fuel dp run es h c ph st = Some (r, st') \<and> valid (ds_store st')
    \<and> applied_stored (view (ds_store st')) (ds_applied st')
    \<and> (r = Inr () \<longrightarrow> drained (cx_run_id (ds_ctx st)) (view (ds_store st')))"
  using assms
proof (induction fuel arbitrary: es st)
  case (Suc fuel)
  obtain r st' where r: "drain_round dp run es h c ph st = (r, st')" "valid (ds_store st')"
    "applied_stored (view (ds_store st')) (ds_applied st')"
    "r = Inr True \<longrightarrow> cs_order (view (ds_store st')) = cs_order (view (ds_store st))
         \<and> open_rows (view (ds_store st')) \<subset> open_rows (view (ds_store st))
         \<and> cx_run_id (ds_ctx st') = cx_run_id (ds_ctx st)"
    "r = Inr False \<longrightarrow> drained (cx_run_id (ds_ctx st)) (view (ds_store st'))"
    using drain_round_ok [where es = es and st = st and dp = dp and h = h and c = c and ph = ph] Suc.prems(1-3)
    by blast
  show ?case
  proof (cases "r = Inr True")
    case True
    have "card (open_rows (view (ds_store st'))) < card (open_rows (view (ds_store st)))"
      using r(4) True finite_open_rows [OF valid_ok [OF Suc.prems(1)]] by (intro psubset_card_mono) auto
    then have "card (open_rows (view (ds_store st'))) < fuel" using Suc.prems(4) by simp
    moreover have "fresh_env (es (n + 4)) (view (ds_store st'))" for n
      using Suc.prems(2) [of "n + 4"] r(4) True by (simp add: fresh_env_def)
    ultimately show ?thesis using Suc.IH [OF r(2) _ r(3)] r(1,4) True by auto
  next
    case False
    then show ?thesis using r by (cases r) (auto split: bool.splits)
  qed
qed simp

end

section \<open>Guarantees\<close>

text \<open>C15. The drain returns and leaves nothing behind: with one unit of fuel more than there are
  unclaimed queued rows it always returns; when it returns normally no row of the run can be
  claimed at a boundary any more, and every row it reports as applied is stored as applied.\<close>

theorem drain_returns_drained:
  assumes reach: "history (exec_op sha) (\<lambda>s. s) any_op empty_store (ds_store st)"
    and fresh: "\<And>n. fresh_env (es n) (ds_store st)"
    and start: "ds_applied st = []"
    and fuel: "card (open_rows (ds_store st)) < fuel"
  shows "\<exists>r st'. drain_step_boundary_controls fuel dp (exec_op sha) es h c ph st = Some (r, st')
    \<and> (\<forall>is. r = Inr is \<longrightarrow> drained (cx_run_id (ds_ctx st)) (ds_store st') \<and> applied_stored (ds_store st') is)"
proof -
  have ok: "store_ok (ds_store st)" using reach mem_queue.init_valid by (rule mem_queue.history_ok)
  have "applied_stored (ds_store st) (ds_applied st)" using start by (simp add: applied_stored_def)
  then obtain r st' where r: "drain_loop fuel dp (exec_op sha) es h c ph st = Some (r, st')"
    "applied_stored (ds_store st') (ds_applied st')"
    "r = Inr () \<longrightarrow> drained (cx_run_id (ds_ctx st)) (ds_store st')"
    using mem_queue.drain_loop_ok [where es = es and st = st and dp = dp and h = h and c = c and ph = ph
        and sha = sha and fuel = fuel] ok fresh fuel by blast
  have "ds_store (record_applied dp st') = ds_store st'" by (simp add: record_applied_def Let_def)
  with r show ?thesis
    by (cases r) (auto simp: drain_step_boundary_controls_def)
qed

text \<open>A message that reached the context is recognised by its queue identifier.\<close>

lemma last_index_less: "last_index P xs = Some n \<Longrightarrow> n < length xs"
  by (induction xs arbitrary: n) (auto split: option.splits if_splits)

lemma append_user_message_live:
  "has_live_message q (cx_messages (snd (append_user_message dp cx msg q)))"
  by (auto simp: append_user_message_def Let_def has_live_message_def dict_get_or_def
      split: option.splits pyval.splits sum.splits bool.splits)

lemma apply_soft_steer_live:
  "has_live_message q (cx_messages (snd (apply_soft_steer dp cx msg q)))"
proof (cases "has_live_message q (cx_messages cx)")
  case False
  show ?thesis
  proof (cases "last_index (\<lambda>x. ch_role x = ROLE_TOOL) (cx_messages cx)")
    case None
    with False show ?thesis by (simp add: apply_soft_steer_def append_user_message_live)
  next
    case (Some n)
    let ?m = "cx_messages cx ! n"
    let ?f = "?m\<lparr>ch_content := ch_content ?m @ steer_note msg,
        ch_metadata := dict_set live_key (PStr q) (ch_metadata ?m)\<rparr>"
    have "?f \<in> set ((cx_messages cx)[n := ?f])" using last_index_less [OF Some] by (simp add: set_update_memI)
    then have "has_live_message q ((cx_messages cx)[n := ?f])"
      by (force simp: has_live_message_def list_ex_iff)
    moreover have "cx_messages (snd (apply_soft_steer dp cx msg q)) = (cx_messages cx)[n := ?f]"
      using False Some by (simp add: apply_soft_steer_def Let_def split: pyval.splits sum.splits bool.splits)
    ultimately show ?thesis by simp
  qed
qed (simp add: apply_soft_steer_def)

lemma message_redelivered:
  assumes "has_live_message q (cx_messages cx)"
  shows "append_user_message dp cx msg q = (Inr (), cx)" "apply_soft_steer dp cx msg q = (Inr (), cx)"
  using assms by (simp_all add: append_user_message_def apply_soft_steer_def)

text \<open>Delivering a message control twice is the same as delivering it once: if the runner crashes
  after it applied an enqueue, steer or redirect and before the row was marked, applying the row
  again leaves context, queue and log unchanged.\<close>

lemma message_delivery_idempotent:
  assumes "qi_kind i = ENQUEUE_USER_MESSAGE \<or> qi_kind i = STEER_USER_MESSAGE \<or> qi_kind i = REDIRECT_USER_MESSAGE"
    and "apply_control_item dp run e h i st = (Inr RES_APPLIED, st')"
  shows "apply_control_item dp run' e' h' i st' = (Inr RES_APPLIED, st')"
proof -
  have applied: "st' = st\<lparr>ds_ctx := snd r\<rparr>" if "with_ctx st r = (Inr RES_APPLIED, st')" for r
    using that by (simp add: with_ctx_def)
  have again: "with_ctx st' (Inr (), ds_ctx st') = (Inr RES_APPLIED, st')" by (simp add: with_ctx_def)
  have app: "with_ctx st' (append_user_message dp (ds_ctx st') msg q) = (Inr RES_APPLIED, st')"
    if "with_ctx st (append_user_message dp (ds_ctx st) msg q) = (Inr RES_APPLIED, st')" for msg q
    using applied [OF that] again message_redelivered(1) append_user_message_live by simp
  have steer: "with_ctx st' (apply_soft_steer dp (ds_ctx st') msg q) = (Inr RES_APPLIED, st')"
    if "with_ctx st (apply_soft_steer dp (ds_ctx st) msg q) = (Inr RES_APPLIED, st')" for msg q
    using applied [OF that] again message_redelivered(2) apply_soft_steer_live by simp
  from assms show ?thesis
    unfolding apply_control_item_def Let_def invalid_def
    by (elim disjE) (simp_all add: app steer split: option.splits)
qed

section \<open>Observations\<close>

text \<open>Admission accepts a steer or next message whose text is under \<open>text\<close>, and the boundary then
  rejects it, because it reads only \<open>message\<close>; a redirect reads both.\<close>

lemma text_only_message_rejected:
  assumes "qi_payload i = [(''text'', PStr ''hello'')]"
  shows "nonblank (request_message (qi_payload i))
    \<and> (qi_kind i = ENQUEUE_USER_MESSAGE \<or> qi_kind i = STEER_USER_MESSAGE \<longrightarrow>
        apply_control_item dp run e h i st = (Inr RES_INVALID, st))"
  using assms
  by (auto simp: apply_control_item_def invalid_def text_of_def nonblank_def request_message_def py_or_def
      dict_get_or_def py_strip_def py_lstrip_def py_rstrip_def py_space_def)

text \<open>A tool policy that does not validate raises out of the drain, after the row was claimed and
  before it is marked.\<close>

lemma invalid_tool_policy_raises:
  assumes "qi_kind i = SET_TOOL_POLICY" "dict_get (qi_payload i) ''tool_policy'' = PDict d"
    "dp_validate_policy dp d = Inl er"
  shows "apply_control_item dp run e h i st = (Inl (Python_Error er), st)"
  using assms by (simp add: apply_control_item_def)

section \<open>Witnesses\<close>

definition demo_params :: dispatch_params where
  "demo_params = \<lparr>dp_dump_message = (\<lambda>x. PDict [(''content'', PStr (ch_content x)), (''metadata'', PDict (ch_metadata x))]),
     dp_dump_item = (\<lambda>i. PStr (qi_queue_id i)), dp_validate_policy = (\<lambda>d. Inl ''ValidationError''),
     dp_frame = ''[frame]'', dp_str = (\<lambda>v. []), dp_emit = True, dp_persist = True, dp_transition = True\<rparr>"

definition demo_drain :: "InMemoryCommandQueueStore drain_state" where
  "demo_drain = \<lparr>ds_ctx = \<lparr>cx_run_id = ''r'', cx_input = Some ''start'', cx_messages = [],
       cx_tool_policy = \<lparr>tp_settings = [], tp_metadata = []\<rparr>, cx_app_metadata = [], cx_metadata = [],
       cx_step_count = 1\<rparr>,
     ds_heap = [new_handle], ds_store = demo_store, ds_log = [], ds_applied = []\<rparr>"

theorem drain_returns_drained_witness:
  "\<exists>r st'. drain_step_boundary_controls 4 demo_params (exec_op (\<lambda>x. [])) (\<lambda>n. demo_env ''z'') (Some 0)
       ''runner'' TOOL_IN_FLIGHT demo_drain = Some (r, st')
     \<and> (\<forall>is. r = Inr is \<longrightarrow> drained ''r'' (ds_store st') \<and> applied_stored (ds_store st') is)"
proof -
  have order: "cs_order demo_store = [''cmd_1'', ''cmd_2'', ''cmd_3'']" by code_simp
  have "open_rows demo_store \<subseteq> set (cs_order demo_store)" using store_ok_item [OF demo_ok] by (auto simp: open_rows_def)
  then have "card (open_rows demo_store) \<le> card (set (cs_order demo_store))" by (intro card_mono) simp_all
  also have "\<dots> < 4" by (simp add: order card_insert_if)
  finally have fuel: "card (open_rows (ds_store demo_drain)) < 4" by (simp add: demo_drain_def)
  have reach: "history (exec_op (\<lambda>x. [])) (\<lambda>s. s) any_op empty_store (ds_store demo_drain)"
    using demo_reachable by (simp add: demo_drain_def)
  have fresh: "fresh_env (demo_env ''z'') (ds_store demo_drain)" for n :: nat
    by (simp add: fresh_env_def demo_drain_def order demo_env_def)
  show ?thesis
    using drain_returns_drained [OF reach fresh _ fuel, of demo_params "Some 0" "''runner''" TOOL_IN_FLIGHT]
    by (simp add: demo_drain_def)
qed

abbreviation (input) demo_item :: CommandQueueItem where
  "demo_item \<equiv> from_request (\<lambda>x. []) ''7'' ''t'' (demo_request STEER_USER_MESSAGE NOW ''hi'' None)"

lemma message_delivery_idempotent_witness:
  "let p = apply_control_item demo_params (exec_op (\<lambda>x. [])) (demo_env ''z'') None demo_item demo_drain
   in fst p = Inr RES_APPLIED
      \<and> apply_control_item demo_params (exec_op (\<lambda>x. [])) (demo_env ''z'') None demo_item (snd p) = p"
proof -
  let ?p = "apply_control_item demo_params (exec_op (\<lambda>x. [])) (demo_env ''z'') None demo_item demo_drain"
  have k: "qi_kind demo_item = STEER_USER_MESSAGE" by (simp add: demo_request_def)
  have "fst ?p = Inr RES_APPLIED" by code_simp
  then have p: "?p = (Inr RES_APPLIED, snd ?p)" by (metis prod.collapse)
  from message_delivery_idempotent [OF _ p] k p show ?thesis unfolding Let_def by (metis fst_conv)
qed

end
