(* ===== verification/Live_Messages.thy ===== *)
theory Live_Messages
  imports Dispatcher
begin

text \<open>
  The public live-message helpers (\<open>runtime/control/live_messages.py\<close>): the capability manifest, the
  raw-free receipt and event of a transition, and the hand-off of one queued message to the next
  turn. The host that creates the turn is a parameter; it may raise.
\<close>

section \<open>Capabilities, receipts and events\<close>

definition required_methods :: "string list" where
  "required_methods =
     [''admit'', ''list_for_run'', ''set_run_phase'', ''claim_for_boundary'', ''claim_hard_redirect'',
      ''commit_terminal'', ''claim_next_handoff'', ''complete_handoff'', ''cancel_next'', ''stop_run'',
      ''contract_schema_version'', ''quarantine_legacy_rows'']"

text \<open>\<open>has\<close> tells which methods the store object offers, \<open>version\<close> what its schema version call
  returns or raises.\<close>

definition live_message_capabilities ::
  "(string \<Rightarrow> bool) \<Rightarrow> string + int \<Rightarrow> string \<Rightarrow> LiveMessageCapabilities" where
  "live_message_capabilities has version durable =
     (let supported = (list_all has required_methods
            \<and> (case version of Inl _ \<Rightarrow> False | Inr v \<Rightarrow> v = 1))
      in \<lparr>lc_schema_id = ''agent-driver.live-message-controls.v1'', lc_soft_steer = supported,
          lc_hard_redirect = supported, lc_queue_next = supported, lc_cancel_queued = supported,
          lc_durable_store = durable, lc_contract_version = 1\<rparr>)"

definition opt_int :: "int option \<Rightarrow> pyval" where
  "opt_int x = (case x of None \<Rightarrow> PNone | Some n \<Rightarrow> PInt n)"

definition live_message_receipt :: "CommandQueueItem \<Rightarrow> pydict" where
  "live_message_receipt i =
     [(''schema_version'', PInt (qi_schema_version i)),
      (''queue_id'', PStr (qi_queue_id i)),
      (''control_id'', PStr (qi_control_id i)),
      (''run_id'', opt_str (qi_run_id i)),
      (''thread_id'', opt_str (qi_thread_id i)),
      (''kind'', PStr (kind_value (qi_kind i))),
      (''priority'', PStr (priority_value (qi_priority i))),
      (''sequence'', PInt (qi_sequence i)),
      (''requested_semantic'', opt_str (map_option semantic_value (qi_requested_semantic i))),
      (''resolved_semantic'', opt_str (map_option semantic_value (qi_resolved_semantic i))),
      (''state'', PStr (status_value (qi_status i))),
      (''accepted_at'', opt_str (opt_or (qi_accepted_at i) (Some (qi_created_at i)))),
      (''applied_at'', opt_str (qi_applied_at i)),
      (''terminal_at'', opt_str (qi_terminal_at i)),
      (''accepted_phase'', opt_str (map_option phase_value (qi_accepted_phase i))),
      (''applied_phase'', opt_str (map_option phase_value (qi_applied_phase i))),
      (''applies_at'', opt_str (qi_applies_at i)),
      (''reason_code'', opt_str (qi_reason_code i)),
      (''content_sha256'', opt_str (qi_content_sha256 i)),
      (''source_generation'', PInt (qi_source_generation i)),
      (''llm_generation'', PInt (qi_llm_generation i)),
      (''superseded_generation'', opt_int (qi_superseded_generation i)),
      (''handoff_id'', opt_str (qi_handoff_id i)),
      (''destination_turn_id'', opt_str (qi_destination_turn_id i)),
      (''raw_free'', PBool True)]"

datatype RuntimeEventType =
    COMMAND_ACCEPTED | COMMAND_APPLIED | COMMAND_CANCELLED | COMMAND_FAILED | COMMAND_REDIRECTED
  | COMMAND_PROMOTED | COMMAND_STOP_PREEMPTED | NEXT_HANDOFF_COMPLETED

definition live_message_transition_event :: "CommandQueueItem \<Rightarrow> RuntimeEventType" where
  "live_message_transition_event i =
     (if qi_reason_code i = Some ''terminal_promoted_to_next'' then COMMAND_PROMOTED
      else if qi_reason_code i = Some ''run_stopped'' then COMMAND_STOP_PREEMPTED
      else if qi_reason_code i = Some ''next_handoff_completed'' then NEXT_HANDOFF_COMPLETED
      else if qi_reason_code i = Some ''redirect_claimed''
           \<or> qi_resolved_semantic i = Some REDIRECT_CURRENT then COMMAND_REDIRECTED
      else if qi_status i = CANCELLED then COMMAND_CANCELLED
      else if qi_status i = FAILED then COMMAND_FAILED
      else if qi_status i = APPLIED then COMMAND_APPLIED
      else COMMAND_ACCEPTED)"

section \<open>The hand-off\<close>

text \<open>What a dispatch did: its value or exception, the hand-off records given to the host, the rows
  given to the transition callback, and the store it leaves.\<close>

record 's dispatch_outcome =
  do_value :: "drain_error + CommandQueueItem option"
  do_host :: "NextTurnHandoff list"
  do_transitions :: "CommandQueueItem list"
  do_store :: 's

definition dispatch_failed ::
  "'s queue_run \<Rightarrow> ('s \<Rightarrow> string \<Rightarrow> CommandQueueItem option) \<Rightarrow> call_env \<Rightarrow> CommandQueueItem \<Rightarrow> 's \<Rightarrow> 's dispatch_outcome" where
  "dispatch_failed run getr e item s =
     (case run e (Mark_Failed (qi_queue_id item) ''invalid_next_handoff'') s of
        (Inl x, s') \<Rightarrow> \<lparr>do_value = Inl (Store_Error x), do_host = [], do_transitions = [], do_store = s'\<rparr>
      | (Inr _, s') \<Rightarrow>
          (let failed = getr s' (qi_queue_id item)
           in \<lparr>do_value = Inr failed, do_host = [],
               do_transitions = (case failed of None \<Rightarrow> [] | Some i \<Rightarrow> [i]), do_store = s'\<rparr>))"

definition next_turn_handoff :: "string \<Rightarrow> CommandQueueItem \<Rightarrow> NextTurnHandoff option" where
  "next_turn_handoff source_run_id item =
     (case (request_message (qi_payload item), qi_handoff_id item, qi_content_sha256 item) of
        (PStr message, Some hid, Some sha) \<Rightarrow>
          if hid = [] \<or> sha = [] then None
          else Some \<lparr>nh_handoff_id = hid, nh_queue_id = qi_queue_id item,
                     nh_source_run_id = (if str_truthy (qi_run_id item) then the (qi_run_id item) else source_run_id),
                     nh_source_thread_id = qi_thread_id item, nh_message = message,
                     nh_content_sha256 = sha, nh_sequence = qi_sequence item\<rparr>
      | _ \<Rightarrow> None)"

definition dispatch_next_turn ::
  "'s queue_run \<Rightarrow> ('s \<Rightarrow> string \<Rightarrow> CommandQueueItem option) \<Rightarrow> (nat \<Rightarrow> call_env) \<Rightarrow> string \<Rightarrow> string \<Rightarrow>
   (NextTurnHandoff \<Rightarrow> string + string) \<Rightarrow> bool \<Rightarrow> 's \<Rightarrow> 's dispatch_outcome" where
  "dispatch_next_turn run getr es source_run_id claimant create crash_after_host s =
     (case run (es 0) (Claim_Next_Handoff source_run_id claimant) s of
        (Inl x, s1) \<Rightarrow> \<lparr>do_value = Inl (Store_Error x), do_host = [], do_transitions = [], do_store = s1\<rparr>
      | (Inr res, s1) \<Rightarrow>
          (case maybe_row res of
             None \<Rightarrow> \<lparr>do_value = Inr None, do_host = [], do_transitions = [], do_store = s1\<rparr>
           | Some item \<Rightarrow>
               (case next_turn_handoff source_run_id item of
                  None \<Rightarrow> dispatch_failed run getr (es 1) item s1
                | Some handoff \<Rightarrow>
                    (case create handoff of
                       Inl er \<Rightarrow> \<lparr>do_value = Inl (Python_Error er), do_host = [handoff], do_transitions = [], do_store = s1\<rparr>
                     | Inr turn \<Rightarrow>
                         if crash_after_host
                         then \<lparr>do_value = Inr None, do_host = [handoff], do_transitions = [], do_store = s1\<rparr>
                         else
                           (case run (es 1) (Complete_Handoff (qi_queue_id item) claimant turn) s1 of
                              (Inl x, s2) \<Rightarrow> \<lparr>do_value = Inl (Store_Error x), do_host = [handoff], do_transitions = [], do_store = s2\<rparr>
                            | (Inr res2, s2) \<Rightarrow>
                                \<lparr>do_value = Inr (maybe_row res2), do_host = [handoff],
                                 do_transitions = (case maybe_row res2 of None \<Rightarrow> [] | Some i \<Rightarrow> [i]),
                                 do_store = s2\<rparr>)))))"

section \<open>Guarantees\<close>

lemma complete_handoff_owned:
  assumes "cs_items s q = Some i" "qi_status i = QUEUED" "qi_claimed_by i = Some c"
  shows "\<exists>j. complete_handoff t q c d s = (Some j, s\<lparr>cs_items := (cs_items s)(q \<mapsto> j)\<rparr>)
    \<and> qi_status j = APPLIED \<and> qi_destination_turn_id j = Some d \<and> qi_handoff_id j = qi_handoff_id i"
  using assms by (simp add: complete_handoff_def Let_def)

lemma claim_call_eq:
  "claim_next_handoff (ce_now e 0) rid c s = (x, s1) \<Longrightarrow>
   exec_op sha e (Claim_Next_Handoff rid c) s = (Inr (Maybe_Row x), s1)"
  by (simp add: returning_def)

lemma complete_call_eq:
  "complete_handoff (ce_now e 0) q c d s = (x, s1) \<Longrightarrow>
   exec_op sha e (Complete_Handoff q c d) s = (Inr (Maybe_Row x), s1)"
  by (simp add: returning_def)

text \<open>Retrying a hand-off that crashed after the host created the turn is safe: the retry by the
  same claimant gives the host the identical hand-off record, so an idempotent host answers with
  the same turn, and then the row is durably applied to exactly that turn.\<close>

lemma dispatch_retry_same_handoff:
  assumes reach: "history (exec_op sha) (\<lambda>s. s) any_op empty_store s"
    and crash: "dispatch_next_turn (exec_op sha) queue_get es rid c create True s
        = \<lparr>do_value = Inr None, do_host = [ho], do_transitions = [], do_store = s1\<rparr>"
    and host: "create ho = Inr turn"
  shows "\<exists>j s2. dispatch_next_turn (exec_op sha) queue_get es' rid c create False s1
      = \<lparr>do_value = Inr (Some j), do_host = [ho], do_transitions = [j], do_store = s2\<rparr>
    \<and> queue_get s2 (nh_queue_id ho) = Some j \<and> qi_status j = APPLIED
    \<and> qi_destination_turn_id j = Some turn \<and> qi_handoff_id j = Some (nh_handoff_id ho)"
proof -
  have ok: "store_ok s" by (rule mem_queue.history_ok [OF reach mem_queue.init_valid])
  obtain x s' where x: "claim_next_handoff (ce_now (es 0) 0) rid c s = (x, s')" by fastforce
  from crash x have s': "s' = s1" and "\<exists>i. x = Some i \<and> next_turn_handoff rid i = Some ho"
    unfolding dispatch_next_turn_def dispatch_failed_def claim_call_eq [OF x]
    by (auto simp: Let_def split: option.splits sum.splits prod.splits)
  then obtain i where i: "x = Some i" "next_turn_handoff rid i = Some ho" by blast
  have claim: "claim_next_handoff (ce_now (es 0) 0) rid c s = (Some i, s1)" using x s' i by simp
  have again: "claim_next_handoff (ce_now (es' 0) 0) rid c s1 = (Some i, s1)"
    by (rule handoff_claim_stable [OF ok claim])
  have row: "cs_items s1 (qi_queue_id i) = Some i" "qi_status i = QUEUED" "qi_claimed_by i = Some c"
    using claim_next_handoff_Some [OF ok claim] by auto
  obtain j where j: "complete_handoff (ce_now (es' 1) 0) (qi_queue_id i) c turn s1
      = (Some j, s1\<lparr>cs_items := (cs_items s1)(qi_queue_id i \<mapsto> j)\<rparr>)"
    "qi_status j = APPLIED" "qi_destination_turn_id j = Some turn" "qi_handoff_id j = qi_handoff_id i"
    using complete_handoff_owned [OF row] by blast
  have ho: "nh_queue_id ho = qi_queue_id i" "qi_handoff_id i = Some (nh_handoff_id ho)"
    using i(2) by (auto simp: next_turn_handoff_def split: pyval.splits option.splits if_splits)
  show ?thesis
    unfolding dispatch_next_turn_def claim_call_eq [OF again]
    using i(2) host j ho by (simp add: complete_call_eq [OF j(1), unfolded One_nat_def] queue_get_def del: exec_op.simps)
qed

text \<open>The receipt carries no part of the payload or of the metadata.\<close>

lemma receipt_raw_free: "live_message_receipt (i\<lparr>qi_payload := p, qi_metadata := m\<rparr>) = live_message_receipt i"
  by (simp add: live_message_receipt_def)

section \<open>Witness\<close>

definition demo_host :: "NextTurnHandoff \<Rightarrow> string + string" where
  "demo_host ho = Inr (''turn_'' @ nh_handoff_id ho)"

text \<open>A next-turn message of a run that is then committed terminal; the digest is a constant that is
  not empty.\<close>

definition demo_next :: InMemoryCommandQueueStore where
  "demo_next = run_ops (\<lambda>x. ''h'')
     [(demo_env ''0'', Set_Run_Phase ''r'' LLM_IN_FLIGHT None None),
      (demo_env ''1'', Admit (demo_request ENQUEUE_USER_MESSAGE NEXT ''n'' None) None),
      (demo_env ''7'', Commit_Terminal ''r'' False)] empty_store"

lemma demo_next_reachable: "history (exec_op (\<lambda>x. ''h'')) (\<lambda>s. s) any_op empty_store demo_next"
  unfolding demo_next_def by (rule run_ops_history) (code_simp, simp add: list_all_iff)

lemma dispatch_retry_same_handoff_witness:
  "\<exists>j s2 ho. dispatch_next_turn (exec_op (\<lambda>x. ''h'')) queue_get (\<lambda>n. demo_env ''y'') ''r'' ''H'' demo_host False
      (do_store (dispatch_next_turn (exec_op (\<lambda>x. ''h'')) queue_get (\<lambda>n. demo_env ''z'') ''r'' ''H'' demo_host True demo_next))
    = \<lparr>do_value = Inr (Some j), do_host = [ho], do_transitions = [j], do_store = s2\<rparr>
    \<and> qi_destination_turn_id j = Some ''turn_handoff_1''"
proof -
  let ?d = "dispatch_next_turn (exec_op (\<lambda>x. ''h'')) queue_get (\<lambda>n. demo_env ''z'') ''r'' ''H'' demo_host True demo_next"
  let ?ho = "hd (do_host ?d)"
  have "do_value ?d = Inr None" "length (do_host ?d) = 1" "do_transitions ?d = []"
    "nh_handoff_id ?ho = ''handoff_1''" by code_simp+
  then have d: "?d = \<lparr>do_value = Inr None, do_host = [?ho], do_transitions = [], do_store = do_store ?d\<rparr>"
    by (cases ?d; cases "do_host ?d") auto
  have h: "demo_host ?ho = Inr ''turn_handoff_1''"
    using \<open>nh_handoff_id ?ho = ''handoff_1''\<close> by (simp add: demo_host_def)
  from dispatch_retry_same_handoff [OF demo_next_reachable d h] show ?thesis by blast
qed

end
