(* ===== verification/Schedule_Expr.thy ===== *)
theory Schedule_Expr
  imports Prelude
begin

text \<open>
  Schedule expressions of the scheduler (\<open>scheduler/schedule.py\<close>): parsing of intervals, named macros
  and five-field cron expressions, and the next fire time. An instant is the number of microseconds
  since 1970-01-01 00:00 UTC (the code normalises to UTC first); its calendar fields follow the
  proleptic Gregorian calendar of the standard library. Instants beyond the year 9999, where the
  library raises, are not treated. The texts of the errors are kept as constructors.

  The scan for a cron match looks at 367 days of minutes; that bound is the code's own.
\<close>

section \<open>Text primitives\<close>

text \<open>\<open>str.split()\<close> and \<open>str.partition(c)\<close> (without the separator).\<close>

function py_split :: "string \<Rightarrow> string list" where
  "py_split s =
     (let t = dropWhile py_space s
      in if t = [] then [] else takeWhile (\<lambda>c. \<not> py_space c) t # py_split (dropWhile (\<lambda>c. \<not> py_space c) t))"
  by pat_completeness auto
termination
proof (relation "measure length")
  fix s t :: string
  assume t: "t = dropWhile py_space s" "t \<noteq> []"
  then have "\<not> py_space (hd t)" using hd_dropWhile by metis
  then have "length (dropWhile (\<lambda>c. \<not> py_space c) t) < length t"
    using t(2) by (cases t) (auto simp: length_dropWhile_le less_Suc_eq_le)
  moreover have "length t \<le> length s" by (simp add: t(1) length_dropWhile_le)
  ultimately show "(dropWhile (\<lambda>c. \<not> py_space c) t, s) \<in> measure length" by simp
qed simp

declare py_split.simps [simp del]

definition partition_at :: "char \<Rightarrow> string \<Rightarrow> string \<times> string" where
  "partition_at c s = (takeWhile (\<lambda>x. x \<noteq> c) s, drop 1 (dropWhile (\<lambda>x. x \<noteq> c) s))"

definition digit_value :: "char \<Rightarrow> int" where
  "digit_value c = int (of_char c) - 48"

definition decimal :: "string \<Rightarrow> int" where
  "decimal ds = foldl (\<lambda>a c. 10 * a + digit_value c) 0 ds"

text \<open>\<open>int(text)\<close>: optional sign, digits with single underscores between them.\<close>

fun digits_of :: "string \<Rightarrow> string option" where
  "digits_of [] = None"
| "digits_of [c] = (if is_digit c then Some [c] else None)"
| "digits_of (c # d # cs) =
     (if \<not> is_digit c then None
      else if d = CHR ''_'' then map_option (Cons c) (digits_of cs)
      else map_option (Cons c) (digits_of (d # cs)))"

definition py_int :: "string \<Rightarrow> int option" where
  "py_int s =
     (case py_strip s of
        [] \<Rightarrow> None
      | c # cs \<Rightarrow>
          if c = CHR ''-'' then map_option (\<lambda>ds. - decimal ds) (digits_of cs)
          else if c = CHR ''+'' then map_option decimal (digits_of cs)
          else map_option decimal (digits_of (c # cs)))"

section \<open>Errors and schedules\<close>

datatype ScheduleError =
    Empty_Schedule
  | Interval_Not_Positive string
  | Field_Count nat string
  | Step_Not_Positive string
  | Out_Of_Range int int string
  | Invalid_Number string string
  | No_Match_In_Horizon string
  | Assertion_Failed

record Schedule =
  sc_kind :: string
  sc_raw :: string
  sc_interval_seconds :: "int option"
  sc_minutes :: "int list option"
  sc_hours :: "int list option"
  sc_doms :: "int list option"
  sc_months :: "int list option"
  sc_dows :: "int list option"

definition named_schedules :: "(string \<times> string) list" where
  "named_schedules =
     [(''@minutely'', ''* * * * *''), (''@hourly'', ''0 * * * *''), (''@daily'', ''0 0 * * *''),
      (''@midnight'', ''0 0 * * *''), (''@weekly'', ''0 0 * * 0''), (''@monthly'', ''0 0 1 * *'')]"

definition interval_unit :: "char \<Rightarrow> int option" where
  "interval_unit c =
     (if c = CHR ''s'' then Some 1 else if c = CHR ''m'' then Some 60
      else if c = CHR ''h'' then Some 3600 else if c = CHR ''d'' then Some 86400 else None)"

text \<open>The match of \<open>every\s+(\d+)\s*([smhd])\<close> against a whole lower-case text: count and unit. The
  three character classes are disjoint, so greedy matching is the only way to match.\<close>

definition interval_match :: "string \<Rightarrow> (string \<times> char) option" where
  "interval_match s =
     (if \<not> prefix ''every'' s then None
      else
        (let r = drop 5 s; r1 = dropWhile py_space r; ds = takeWhile is_digit r1;
             r2 = dropWhile py_space (dropWhile is_digit r1)
         in if r1 = r \<or> ds = [] then None
            else (case r2 of [u] \<Rightarrow> if interval_unit u \<noteq> None then Some (ds, u) else None | _ \<Rightarrow> None)))"

section \<open>Cron fields\<close>

definition to_int :: "string \<Rightarrow> string \<Rightarrow> ScheduleError + int" where
  "to_int txt raw = (case py_int txt of None \<Rightarrow> Inl (Invalid_Number txt raw) | Some n \<Rightarrow> Inr n)"

definition normalize_dow :: "bool \<Rightarrow> int \<Rightarrow> int" where
  "normalize_dow dow v = (if dow \<and> v = 7 then 0 else v)"

text \<open>\<open>range(start, end + 1, step)\<close> for a positive step.\<close>

definition step_range :: "int \<Rightarrow> int \<Rightarrow> int \<Rightarrow> int list" where
  "step_range start stop step = filter (\<lambda>v. (v - start) mod step = 0) [start..stop]"

definition parse_part :: "int \<Rightarrow> int \<Rightarrow> string \<Rightarrow> bool \<Rightarrow> string \<Rightarrow> ScheduleError + int list" where
  "parse_part lo hi raw dow part =
     (let (body, step_text) = partition_at (CHR ''/'') part in
      case (if step_text = [] then Inr 1
            else (case to_int step_text raw of
                    Inl e \<Rightarrow> Inl e
                  | Inr n \<Rightarrow> if n \<le> 0 then Inl (Step_Not_Positive raw) else Inr n)) of
        Inl e \<Rightarrow> Inl e
      | Inr step \<Rightarrow>
          (case (if body = ''*'' then Inr (lo, hi)
                 else if CHR ''-'' \<in> set body
                 then (let (a, b) = partition_at (CHR ''-'') body in
                       case to_int a raw of
                         Inl e \<Rightarrow> Inl e
                       | Inr x \<Rightarrow> (case to_int b raw of Inl e \<Rightarrow> Inl e | Inr y \<Rightarrow> Inr (x, y)))
                 else (case to_int body raw of Inl e \<Rightarrow> Inl e | Inr x \<Rightarrow> Inr (x, x))) of
             Inl e \<Rightarrow> Inl e
           | Inr (start, stop) \<Rightarrow>
               (let values = map (normalize_dow dow) (step_range start stop step)
                in if list_all (\<lambda>v. lo \<le> v \<and> v \<le> hi) values then Inr values
                   else Inl (Out_Of_Range lo hi raw))))"

fun parse_parts :: "int \<Rightarrow> int \<Rightarrow> string \<Rightarrow> bool \<Rightarrow> string list \<Rightarrow> ScheduleError + int list" where
  "parse_parts lo hi raw dow [] = Inr []"
| "parse_parts lo hi raw dow (p # ps) =
     (case parse_part lo hi raw dow p of
        Inl e \<Rightarrow> Inl e
      | Inr vs \<Rightarrow> (case parse_parts lo hi raw dow ps of Inl e \<Rightarrow> Inl e | Inr ws \<Rightarrow> Inr (vs @ ws)))"

definition parse_field :: "int \<Rightarrow> int \<Rightarrow> string \<Rightarrow> bool \<Rightarrow> string \<Rightarrow> ScheduleError + int list option" where
  "parse_field lo hi raw dow field =
     (if field = ''*'' then Inr None
      else (case parse_parts lo hi raw dow (split_at (CHR '','') field) of
              Inl e \<Rightarrow> Inl e | Inr vs \<Rightarrow> Inr (Some vs)))"

definition parse_cron :: "string \<Rightarrow> string \<Rightarrow> ScheduleError + Schedule" where
  "parse_cron expr raw =
     (case py_split expr of
        [minute, hour, domf, month, dow] \<Rightarrow>
          (case parse_field 0 59 raw False minute of Inl e \<Rightarrow> Inl e | Inr mi \<Rightarrow>
          (case parse_field 0 23 raw False hour of Inl e \<Rightarrow> Inl e | Inr ho \<Rightarrow>
          (case parse_field 1 31 raw False domf of Inl e \<Rightarrow> Inl e | Inr dm \<Rightarrow>
          (case parse_field 1 12 raw False month of Inl e \<Rightarrow> Inl e | Inr mo \<Rightarrow>
          (case parse_field 0 6 raw True dow of Inl e \<Rightarrow> Inl e | Inr dw \<Rightarrow>
             Inr \<lparr>sc_kind = ''cron'', sc_raw = raw, sc_interval_seconds = None, sc_minutes = mi,
                  sc_hours = ho, sc_doms = dm, sc_months = mo, sc_dows = dw\<rparr>)))))
      | fs \<Rightarrow> Inl (Field_Count (length fs) raw))"

definition parse_schedule :: "string \<Rightarrow> ScheduleError + Schedule" where
  "parse_schedule txt =
     (let raw = py_strip txt in
      if raw = [] then Inl Empty_Schedule
      else
        (let lowered = py_lower raw in
         case interval_match lowered of
           Some (ds, u) \<Rightarrow>
             (if decimal ds \<le> 0 then Inl (Interval_Not_Positive raw)
              else Inr \<lparr>sc_kind = ''interval'', sc_raw = raw,
                        sc_interval_seconds = Some (decimal ds * the (interval_unit u)),
                        sc_minutes = None, sc_hours = None, sc_doms = None, sc_months = None,
                        sc_dows = None\<rparr>)
         | None \<Rightarrow> parse_cron (case map_of named_schedules lowered of Some e \<Rightarrow> e | None \<Rightarrow> raw) raw))"

section \<open>Calendar fields of a minute\<close>

text \<open>A minute is counted from the epoch. Days are turned into year, month and day by the ordinal
  algorithm of the standard library: the ordinal of 1970-01-01 is 719163.\<close>

definition leap_year :: "int \<Rightarrow> bool" where
  "leap_year y = (y mod 4 = 0 \<and> (y mod 100 \<noteq> 0 \<or> y mod 400 = 0))"

definition days_in_month :: "int \<Rightarrow> int \<Rightarrow> int" where
  "days_in_month y m =
     (if m = 2 then (if leap_year y then 29 else 28)
      else if m = 4 \<or> m = 6 \<or> m = 9 \<or> m = 11 then 30 else 31)"

text \<open>Month and day of the n-th day of a year (from 0), by the months from \<open>m\<close> on.\<close>

fun month_day :: "int \<Rightarrow> int list \<Rightarrow> int \<Rightarrow> int \<times> int" where
  "month_day y [] n = (12, n + 1)"
| "month_day y [m] n = (m, n + 1)"
| "month_day y (m # ms) n = (if n < days_in_month y m then (m, n + 1) else month_day y ms (n - days_in_month y m))"

definition civil_of_day :: "int \<Rightarrow> int \<times> int \<times> int" where
  "civil_of_day d =
     (let n0 = d + 719162;
          n400 = n0 div 146097; r400 = n0 mod 146097;
          n100 = r400 div 36524; r100 = r400 mod 36524;
          n4 = r100 div 1461; r4 = r100 mod 1461;
          n1 = r4 div 365; r1 = r4 mod 365;
          y = n400 * 400 + n100 * 100 + n4 * 4 + n1 + 1
      in if n1 = 4 \<or> n100 = 4 then (y - 1, 12, 31)
         else (y, month_day y [1, 2, 3, 4, 5, 6, 7, 8, 9, 10, 11, 12] r1))"

definition minute_field :: "int \<Rightarrow> int" where "minute_field m = m mod 60"
definition hour_field :: "int \<Rightarrow> int" where "hour_field m = (m div 60) mod 24"
definition month_field :: "int \<Rightarrow> int" where "month_field m = fst (snd (civil_of_day (m div 1440)))"
definition day_field :: "int \<Rightarrow> int" where "day_field m = snd (snd (civil_of_day (m div 1440)))"

text \<open>\<open>isoweekday() % 7\<close>; 1970-01-01 was a Thursday.\<close>

definition cron_dow :: "int \<Rightarrow> int" where "cron_dow m = (m div 1440 + 4) mod 7"

section \<open>The next fire time\<close>

definition field_ok :: "int list option \<Rightarrow> int \<Rightarrow> bool" where
  "field_ok f v = (case f of None \<Rightarrow> True | Some vs \<Rightarrow> v \<in> set vs)"

definition day_matches :: "Schedule \<Rightarrow> int \<Rightarrow> bool" where
  "day_matches sc m =
     (let dom_ok = field_ok (sc_doms sc) (day_field m); dow_ok = field_ok (sc_dows sc) (cron_dow m)
      in if sc_doms sc \<noteq> None \<and> sc_dows sc \<noteq> None then dom_ok \<or> dow_ok else dom_ok \<and> dow_ok)"

definition sched_matches :: "Schedule \<Rightarrow> int \<Rightarrow> bool" where
  "sched_matches sc m =
     (if \<not> field_ok (sc_minutes sc) (minute_field m) then False
      else if \<not> field_ok (sc_hours sc) (hour_field m) then False
      else if \<not> field_ok (sc_months sc) (month_field m) then False
      else day_matches sc m)"

fun cron_scan :: "Schedule \<Rightarrow> nat \<Rightarrow> int \<Rightarrow> ScheduleError + int" where
  "cron_scan sc 0 m = Inl (No_Match_In_Horizon (sc_raw sc))"
| "cron_scan sc (Suc n) m = (if sched_matches sc m then Inr m else cron_scan sc n (m + 1))"

definition cron_scan_minutes :: nat where
  "cron_scan_minutes = 367 * 24 * 60"

definition minute_us :: int where "minute_us = 60 * 1000000"

definition next_after :: "Schedule \<Rightarrow> int \<Rightarrow> ScheduleError + int" where
  "next_after sc moment =
     (if sc_kind sc = ''interval''
      then (case sc_interval_seconds sc of
              None \<Rightarrow> Inl Assertion_Failed
            | Some secs \<Rightarrow> Inr (moment + secs * 1000000))
      else
        (case cron_scan sc cron_scan_minutes (moment div minute_us + 1) of
           Inl e \<Rightarrow> Inl e
         | Inr m \<Rightarrow> Inr (m * minute_us)))"

section \<open>Parsed schedules are well formed\<close>

definition field_within :: "int \<Rightarrow> int \<Rightarrow> int list option \<Rightarrow> bool" where
  "field_within lo hi f = (case f of None \<Rightarrow> True | Some vs \<Rightarrow> \<forall>v \<in> set vs. lo \<le> v \<and> v \<le> hi)"

definition schedule_ok :: "Schedule \<Rightarrow> bool" where
  "schedule_ok sc =
     ((sc_kind sc = ''interval'' \<and> (\<exists>secs. sc_interval_seconds sc = Some secs \<and> 0 < secs))
      \<or> (sc_kind sc = ''cron'' \<and> field_within 0 59 (sc_minutes sc) \<and> field_within 0 23 (sc_hours sc)
         \<and> field_within 1 31 (sc_doms sc) \<and> field_within 1 12 (sc_months sc)
         \<and> field_within 0 6 (sc_dows sc)))"

lemma parse_part_within: "parse_part lo hi raw dow p = Inr vs \<Longrightarrow> v \<in> set vs \<Longrightarrow> lo \<le> v \<and> v \<le> hi"
  by (auto simp: parse_part_def Let_def list_all_iff split: sum.splits prod.splits if_splits)

lemma parse_parts_within: "parse_parts lo hi raw dow ps = Inr vs \<Longrightarrow> v \<in> set vs \<Longrightarrow> lo \<le> v \<and> v \<le> hi"
proof (induction ps arbitrary: vs)
  case (Cons p ps)
  then obtain xs ys where "parse_part lo hi raw dow p = Inr xs" "parse_parts lo hi raw dow ps = Inr ys" "vs = xs @ ys"
    by (auto split: sum.splits)
  with Cons parse_part_within show ?case by (metis Un_iff set_append)
qed simp

lemma parse_field_within: "parse_field lo hi raw dow f = Inr r \<Longrightarrow> field_within lo hi r"
  using parse_parts_within by (fastforce simp: parse_field_def field_within_def split: if_splits sum.splits)

lemma parse_cron_ok: "parse_cron expr raw = Inr sc \<Longrightarrow> schedule_ok sc"
  by (auto simp: parse_cron_def schedule_ok_def parse_field_within split: list.splits sum.splits)

lemma interval_unit_pos: "interval_unit u = Some n \<Longrightarrow> 0 < n"
  by (auto simp: interval_unit_def split: if_splits)

lemma interval_match_unit: "interval_match s = Some (ds, u) \<Longrightarrow> interval_unit u \<noteq> None"
  by (auto simp: interval_match_def Let_def split: if_splits list.splits)

lemma parse_schedule_ok:
  assumes "parse_schedule txt = Inr sc"
  shows "schedule_ok sc"
proof (cases "interval_match (py_lower (py_strip txt))")
  case None
  with assms parse_cron_ok show ?thesis by (auto simp: parse_schedule_def Let_def split: if_splits)
next
  case (Some p)
  obtain ds u where p: "p = (ds, u)" by fastforce
  obtain n where n: "interval_unit u = Some n" "0 < n"
    using interval_match_unit interval_unit_pos Some p by blast
  with assms Some p show ?thesis
    by (auto simp: parse_schedule_def Let_def schedule_ok_def split: if_splits)
qed

text \<open>C39. Parsing yields a usable schedule or an error: an accepted interval is positive, and every
  value of an accepted cron field lies within the bounds of that field, Sunday written as 0.\<close>

theorem parse_schedule_well_formed:
  assumes "parse_schedule txt = Inr sc"
  shows "schedule_ok sc"
  by (rule parse_schedule_ok [OF assms])

section \<open>The earliest match\<close>

lemma cron_scan_Inr:
  "cron_scan sc n m = Inr k \<Longrightarrow>
   m \<le> k \<and> k < m + int n \<and> sched_matches sc k \<and> (\<forall>j. m \<le> j \<and> j < k \<longrightarrow> \<not> sched_matches sc j)"
proof (induction n arbitrary: m)
  case (Suc n)
  show ?case
  proof (cases "sched_matches sc m")
    case True
    with Suc.prems show ?thesis by auto
  next
    case False
    with Suc have "m + 1 \<le> k \<and> k < m + 1 + int n \<and> sched_matches sc k
        \<and> (\<forall>j. m + 1 \<le> j \<and> j < k \<longrightarrow> \<not> sched_matches sc j)" by fastforce
    moreover have "\<not> sched_matches sc j" if "m \<le> j" "j < k" "\<forall>j. m + 1 \<le> j \<and> j < k \<longrightarrow> \<not> sched_matches sc j" for j
      using that False by (cases "j = m") auto
    ultimately show ?thesis by auto
  qed
qed simp

lemma cron_scan_Inl:
  "cron_scan sc n m = Inl e \<longleftrightarrow>
   e = No_Match_In_Horizon (sc_raw sc) \<and> (\<forall>j. m \<le> j \<and> j < m + int n \<longrightarrow> \<not> sched_matches sc j)"
proof (induction n arbitrary: m)
  case (Suc n)
  have "(\<forall>j. m \<le> j \<and> j < m + int (Suc n) \<longrightarrow> \<not> sched_matches sc j) \<longleftrightarrow>
      \<not> sched_matches sc m \<and> (\<forall>j. m + 1 \<le> j \<and> j < m + 1 + int n \<longrightarrow> \<not> sched_matches sc j)"
  proof (intro iffI conjI allI impI)
    fix j
    assume "\<not> sched_matches sc m \<and> (\<forall>j. m + 1 \<le> j \<and> j < m + 1 + int n \<longrightarrow> \<not> sched_matches sc j)"
      "m \<le> j \<and> j < m + int (Suc n)"
    then show "\<not> sched_matches sc j" by (cases "j = m") auto
  qed auto
  with Suc show ?case by auto
qed auto

lemma less_mult_iff_div: "0 < M \<Longrightarrow> t < k * M \<longleftrightarrow> t div M + 1 \<le> k" for t k M :: int
proof
  assume M: "0 < M" and "t < k * M"
  then have "M * (t div M) < k * M" by (smt (verit) mult_div_mod_eq pos_mod_sign)
  then show "t div M + 1 \<le> k" using M by (simp add: mult.commute)
next
  assume M: "0 < M" and "t div M + 1 \<le> k"
  then have "(t div M + 1) * M \<le> k * M" by (intro mult_right_mono) simp_all
  moreover have "t < (t div M + 1) * M"
  proof -
    have "t = M * (t div M) + t mod M" by simp
    also have "\<dots> < M * (t div M) + M" using pos_mod_bound [OF M, of t] by linarith
    finally show ?thesis by (simp add: distrib_left mult.commute [of _ M])
  qed
  ultimately show "t < k * M" by simp
qed

lemma minute_after: "t < k * minute_us \<longleftrightarrow> t div minute_us + 1 \<le> k"
  by (rule less_mult_iff_div) (simp add: minute_us_def)

lemma next_after_later:
  assumes "schedule_ok sc" "next_after sc t = Inr t'"
  shows "t < t'"
proof (cases "sc_kind sc = ''interval''")
  case True
  with assms show ?thesis by (auto simp: schedule_ok_def next_after_def)
next
  case False
  with assms show ?thesis
    by (auto simp: next_after_def minute_after schedule_ok_def dest: cron_scan_Inr split: sum.splits)
qed

text \<open>C37. The next fire time of a parsed schedule is strictly later than the reference time. For an
  interval it is exactly one interval later; for a cron expression it is the earliest matching
  minute after the reference time if that lies within the next 367 days of minutes, and the error of
  an exhausted horizon exactly when none of those minutes matches. A valid expression may be in the
  second case: \<open>leap_day_beyond_horizon\<close> below.\<close>

theorem next_after_is_earliest:
  assumes "schedule_ok sc"
  shows "case next_after sc t of
      Inr t' \<Rightarrow> t < t' \<and>
        (if sc_kind sc = ''interval'' then Some (t' - t) = map_option (\<lambda>n. n * 1000000) (sc_interval_seconds sc)
         else (\<exists>m. t' = m * minute_us \<and> sched_matches sc m \<and> m \<le> t div minute_us + 367 * 24 * 60
               \<and> (\<forall>k. t < k * minute_us \<and> k < m \<longrightarrow> \<not> sched_matches sc k)))
    | Inl e \<Rightarrow> sc_kind sc = ''cron'' \<and> e = No_Match_In_Horizon (sc_raw sc)
        \<and> (\<forall>k. t < k * minute_us \<and> k \<le> t div minute_us + 367 * 24 * 60 \<longrightarrow> \<not> sched_matches sc k)"
proof (cases "sc_kind sc = ''interval''")
  case True
  with assms show ?thesis by (auto simp: schedule_ok_def next_after_def)
next
  case False
  then have cron: "sc_kind sc = ''cron''" using assms by (auto simp: schedule_ok_def)
  show ?thesis
  proof (cases "cron_scan sc cron_scan_minutes (t div minute_us + 1)")
    case (Inl e)
    then show ?thesis using cron cron_scan_Inl [of sc cron_scan_minutes "t div minute_us + 1" e]
      by (auto simp: next_after_def minute_after cron_scan_minutes_def)
  next
    case (Inr m)
    then show ?thesis using cron cron_scan_Inr [OF Inr]
      by (auto simp: next_after_def minute_after cron_scan_minutes_def)
  qed
qed

theorem parse_schedule_well_formed_witness:
  "schedule_ok (projr (parse_schedule ''*/15 9-17 * * 1-5''))"
proof -
  have "isl (parse_schedule ''*/15 9-17 * * 1-5'') = False" by code_simp
  then have "parse_schedule ''*/15 9-17 * * 1-5'' = Inr (projr (parse_schedule ''*/15 9-17 * * 1-5''))"
    by (cases "parse_schedule ''*/15 9-17 * * 1-5''") auto
  then show ?thesis by (rule parse_schedule_well_formed)
qed

text \<open>The schedule of every minute of the hour, from the epoch on.\<close>

definition minutely :: Schedule where
  "minutely = \<lparr>sc_kind = ''cron'', sc_raw = ''* * * * *'', sc_interval_seconds = None, sc_minutes = None,
     sc_hours = None, sc_doms = None, sc_months = None, sc_dows = None\<rparr>"

theorem next_after_is_earliest_witness: "next_after minutely 0 = Inr minute_us"
proof -
  have ok: "schedule_ok minutely" by (simp add: schedule_ok_def minutely_def field_within_def)
  have all: "sched_matches minutely k" for k by (simp add: sched_matches_def minutely_def field_ok_def day_matches_def)
  have cron: "sc_kind minutely \<noteq> ''interval''" by (simp add: minutely_def)
  show ?thesis
  proof (cases "next_after minutely 0")
    case (Inl e)
    with next_after_is_earliest [OF ok, of 0]
    have "\<forall>k. 0 < k * minute_us \<and> k \<le> 0 div minute_us + 367 * 24 * 60 \<longrightarrow> \<not> sched_matches minutely k" by simp
    then have "0 < 1 * minute_us \<and> 1 \<le> 0 div minute_us + 367 * 24 * 60 \<longrightarrow> \<not> sched_matches minutely 1" by (rule spec)
    then show ?thesis using all by (simp add: minute_us_def)
  next
    case (Inr t)
    with next_after_is_earliest [OF ok, of 0] cron obtain m where m: "t = m * minute_us" "0 < t"
      "\<forall>k. 0 < k * minute_us \<and> k < m \<longrightarrow> \<not> sched_matches minutely k" by auto
    from m(3) have "0 < 1 * minute_us \<and> 1 < m \<longrightarrow> \<not> sched_matches minutely 1" by (rule spec)
    with all m(1,2) have "m = 1" by (simp add: minute_us_def)
    with Inr m(1) show ?thesis by simp
  qed
qed

section \<open>A valid expression beyond the horizon\<close>

text \<open>The 29th of February fires only in leap years, up to eight years apart. Asked on 2025-03-01,
  the scan of 367 days finds nothing and reports an error.\<close>

definition leap_day :: Schedule where
  "leap_day = \<lparr>sc_kind = ''cron'', sc_raw = ''0 0 29 2 *'', sc_interval_seconds = None, sc_minutes = Some [0],
     sc_hours = Some [0], sc_doms = Some [29], sc_months = Some [2], sc_dows = None\<rparr>"

lemma leap_day_parses: "parse_schedule ''0 0 29 2 *'' = Inr leap_day"
  by code_simp

lemma list_all_upto: "list_all P [a..b] \<Longrightarrow> a \<le> d \<Longrightarrow> d \<le> b \<Longrightarrow> P d" for a b d :: int
  by (simp add: list_all_iff)

lemma leap_day_beyond_horizon:
  "next_after leap_day (20148 * 1440 * minute_us) = Inl (No_Match_In_Horizon ''0 0 29 2 *'')"
proof -
  have "list_all (\<lambda>d. snd (civil_of_day d) \<noteq> (2, 29)) [20148..20515]" by code_simp
  then have days: "snd (civil_of_day d) \<noteq> (2, 29)" if "20148 \<le> d" "d \<le> 20515" for d
    using list_all_upto that by blast
  have "\<not> sched_matches leap_day j" if "20148 * 1440 + 1 \<le> j" "j < 20148 * 1440 + 1 + int cron_scan_minutes" for j
  proof -
    have "20148 \<le> j div 1440" "j div 1440 \<le> 20515" using that by (simp_all add: cron_scan_minutes_def)
    from days [OF this] show ?thesis
      by (auto simp: sched_matches_def leap_day_def field_ok_def day_matches_def month_field_def day_field_def
          Let_def prod_eq_iff)
  qed
  then have "cron_scan leap_day cron_scan_minutes (20148 * 1440 + 1) = Inl (No_Match_In_Horizon ''0 0 29 2 *'')"
    by (subst cron_scan_Inl) (auto simp: leap_day_def)
  then show ?thesis by (simp add: next_after_def leap_day_def minute_us_def)
qed

end
