(* ===== verification/Scheduler.thy ===== *)
theory Scheduler
  imports Schedule_Expr
begin

text \<open>
  The durable scheduler (\<open>scheduler/store.py\<close>, \<open>scheduler/runner.py\<close>). The two job stores, a
  dictionary and a SQLite table, are modelled with every operation; what the scheduler needs of a
  store is the locale \<open>job_store\<close>, interpreted for both. The scheduler works on any store; the host
  callback that runs a job is a parameter that tells how a run ended. A tick is shown to refine a
  job-by-job specification, from which the guarantees follow.
\<close>

section \<open>Jobs\<close>

text \<open>The error text of a job: an invalid schedule, the hard interrupt, or what the run raised.\<close>

datatype job_error = Invalid_Schedule ScheduleError | Hard_Interrupt int | Run_Raised string

record ScheduledJob =
  jb_name :: string
  jb_schedule :: string
  jb_command :: string
  jb_enabled :: bool
  jb_next_run_at :: "int option"
  jb_last_run_at :: "int option"
  jb_last_status :: "string option"
  jb_last_error :: "job_error option"
  jb_run_count :: int
  jb_failures :: int
  jb_created_at :: "int option"
  jb_metadata :: pydict

definition is_due :: "int \<Rightarrow> ScheduledJob \<Rightarrow> bool" where
  "is_due now j = (jb_enabled j \<and> (case jb_next_run_at j of None \<Rightarrow> False | Some t \<Rightarrow> t \<le> now))"

section \<open>The in-memory store\<close>

type_synonym InMemoryJobStore = "(string \<times> ScheduledJob) list"

definition mem_job_add :: "ScheduledJob \<Rightarrow> InMemoryJobStore \<Rightarrow> (string + ScheduledJob) \<times> InMemoryJobStore" where
  "mem_job_add j s =
     (if jb_name j \<in> fst ` set s then (Inl (''cron job already exists: '' @ jb_name j), s)
      else (Inr j, alist_set (jb_name j) j s))"

definition mem_job_update :: "ScheduledJob \<Rightarrow> InMemoryJobStore \<Rightarrow> InMemoryJobStore" where
  "mem_job_update j s = alist_set (jb_name j) j s"

definition mem_job_get :: "InMemoryJobStore \<Rightarrow> string \<Rightarrow> ScheduledJob option" where
  "mem_job_get s n = map_of s n"

definition mem_job_delete :: "string \<Rightarrow> InMemoryJobStore \<Rightarrow> bool \<times> InMemoryJobStore" where
  "mem_job_delete n s = (map_of s n \<noteq> None, filter (\<lambda>p. fst p \<noteq> n) s)"

definition mem_job_list :: "InMemoryJobStore \<Rightarrow> ScheduledJob list" where
  "mem_job_list s = map (\<lambda>n. the (map_of s n)) (sort (map fst s))"

definition mem_job_due :: "int \<Rightarrow> InMemoryJobStore \<Rightarrow> ScheduledJob list" where
  "mem_job_due now s = filter (is_due now) (mem_job_list s)"

section \<open>The SQLite store\<close>

text \<open>Rows of name and JSON text; the text is written and read by parameters.\<close>

record 't job_codec =
  dump_job :: "ScheduledJob \<Rightarrow> 't"
  load_job :: "'t \<Rightarrow> ScheduledJob"

definition job_codec_ok :: "'t job_codec \<Rightarrow> bool" where
  "job_codec_ok c = (\<forall>j. load_job c (dump_job c j) = j)"

type_synonym 't SqliteJobStore = "(string \<times> 't) list"

definition sql_job_write :: "'t job_codec \<Rightarrow> ScheduledJob \<Rightarrow> 't SqliteJobStore \<Rightarrow> 't SqliteJobStore" where
  "sql_job_write c j t = filter (\<lambda>p. fst p \<noteq> jb_name j) t @ [(jb_name j, dump_job c j)]"

definition sql_job_get :: "'t job_codec \<Rightarrow> 't SqliteJobStore \<Rightarrow> string \<Rightarrow> ScheduledJob option" where
  "sql_job_get c t n =
     (case filter (\<lambda>p. fst p = n) t of [] \<Rightarrow> None | p # _ \<Rightarrow> Some (load_job c (snd p)))"

definition sql_job_add ::
  "'t job_codec \<Rightarrow> ScheduledJob \<Rightarrow> 't SqliteJobStore \<Rightarrow> (string + ScheduledJob) \<times> 't SqliteJobStore" where
  "sql_job_add c j t =
     (if sql_job_get c t (jb_name j) \<noteq> None then (Inl (''cron job already exists: '' @ jb_name j), t)
      else (Inr j, sql_job_write c j t))"

definition sql_job_update :: "'t job_codec \<Rightarrow> ScheduledJob \<Rightarrow> 't SqliteJobStore \<Rightarrow> 't SqliteJobStore" where
  "sql_job_update c j t = sql_job_write c j t"

definition sql_job_delete :: "string \<Rightarrow> 't SqliteJobStore \<Rightarrow> bool \<times> 't SqliteJobStore" where
  "sql_job_delete n t =
     (let kept = filter (\<lambda>p. fst p \<noteq> n) t in (length t - length kept > 0, kept))"

definition sql_job_list :: "'t job_codec \<Rightarrow> 't SqliteJobStore \<Rightarrow> ScheduledJob list" where
  "sql_job_list c t = map (\<lambda>p. load_job c (snd p)) (sort_key fst t)"

definition sql_job_due :: "'t job_codec \<Rightarrow> int \<Rightarrow> 't SqliteJobStore \<Rightarrow> ScheduledJob list" where
  "sql_job_due c now t = filter (is_due now) (sql_job_list c t)"

section \<open>The scheduler\<close>

record 's job_api =
  ja_add :: "ScheduledJob \<Rightarrow> 's \<Rightarrow> (string + ScheduledJob) \<times> 's"
  ja_get :: "'s \<Rightarrow> string \<Rightarrow> ScheduledJob option"
  ja_delete :: "string \<Rightarrow> 's \<Rightarrow> bool \<times> 's"
  ja_update :: "ScheduledJob \<Rightarrow> 's \<Rightarrow> 's"
  ja_list :: "'s \<Rightarrow> ScheduledJob list"
  ja_due :: "int \<Rightarrow> 's \<Rightarrow> ScheduledJob list"

datatype run_end = Run_Ok | Run_Timeout | Run_Error string

record JobRunReport =
  jr_job_name :: string
  jr_status :: string
  jr_detail :: "job_error option"

record scheduler_config =
  cf_default_timeout :: int
  cf_max_failures :: int

definition next_run :: "string \<Rightarrow> int \<Rightarrow> ScheduleError + int" where
  "next_run txt now =
     (case parse_schedule txt of Inl e \<Rightarrow> Inl e | Inr sc \<Rightarrow> next_after sc now)"

definition ensure_job :: "int \<Rightarrow> ScheduledJob \<Rightarrow> ScheduledJob" where
  "ensure_job now j =
     (case next_run (jb_schedule j) now of
        Inl e \<Rightarrow> j\<lparr>jb_enabled := False, jb_last_status := Some ''disabled'',
                   jb_last_error := Some (Invalid_Schedule e)\<rparr>
      | Inr t \<Rightarrow> j\<lparr>jb_next_run_at := Some t\<rparr>)"

fun ensure_loop :: "'s job_api \<Rightarrow> int \<Rightarrow> ScheduledJob list \<Rightarrow> 's \<Rightarrow> 's" where
  "ensure_loop api now [] s = s"
| "ensure_loop api now (j # js) s =
     (if \<not> jb_enabled j \<or> jb_next_run_at j \<noteq> None then ensure_loop api now js s
      else ensure_loop api now js (ja_update api (ensure_job now j) s))"

definition ensure_scheduled :: "'s job_api \<Rightarrow> int \<Rightarrow> 's \<Rightarrow> 's" where
  "ensure_scheduled api now s = ensure_loop api now (ja_list api s) s"

definition timeout_for :: "scheduler_config \<Rightarrow> ScheduledJob \<Rightarrow> int" where
  "timeout_for cf j =
     (case dict_get (jb_metadata j) ''timeout_seconds'' of
        PInt n \<Rightarrow> if n > 0 then n else cf_default_timeout cf
      | PBool b \<Rightarrow> if b then 1 else cf_default_timeout cf
      | _ \<Rightarrow> cf_default_timeout cf)"

definition advance ::
  "scheduler_config \<Rightarrow> int \<Rightarrow> string \<Rightarrow> job_error option \<Rightarrow> ScheduledJob \<Rightarrow> ScheduledJob" where
  "advance cf now status detail j =
     (let failed = (status \<noteq> ''ok'');
          consecutive = (if failed then jb_failures j + 1 else 0);
          j1 = j\<lparr>jb_last_run_at := Some now, jb_last_status := Some status,
                 jb_last_error := (if failed then detail else None),
                 jb_run_count := jb_run_count j + 1, jb_failures := consecutive\<rparr>
      in if failed \<and> consecutive \<ge> cf_max_failures cf
         then j1\<lparr>jb_enabled := False, jb_next_run_at := None\<rparr>
         else (case next_run (jb_schedule j) now of
                 Inr t \<Rightarrow> j1\<lparr>jb_next_run_at := Some t\<rparr>
               | Inl e \<Rightarrow> j1\<lparr>jb_enabled := False, jb_next_run_at := None,
                           jb_last_status := Some ''disabled'',
                           jb_last_error := Some (Invalid_Schedule e)\<rparr>))"

text \<open>The host callback gets the time limit and the job.\<close>

definition run_status ::
  "scheduler_config \<Rightarrow> (int \<Rightarrow> ScheduledJob \<Rightarrow> run_end) \<Rightarrow> ScheduledJob \<Rightarrow> string \<times> job_error option" where
  "run_status cf runner j =
     (let timeout = timeout_for cf j in
      case runner timeout j of
        Run_Ok \<Rightarrow> (''ok'', None)
      | Run_Timeout \<Rightarrow> (''timeout'', Some (Hard_Interrupt timeout))
      | Run_Error m \<Rightarrow> (''error'', Some (Run_Raised m)))"

definition run_one ::
  "scheduler_config \<Rightarrow> 's job_api \<Rightarrow> (int \<Rightarrow> ScheduledJob \<Rightarrow> run_end) \<Rightarrow> int \<Rightarrow> ScheduledJob \<Rightarrow> 's \<Rightarrow>
   JobRunReport \<times> 's" where
  "run_one cf api runner now j s =
     (let (status, detail) = run_status cf runner j
      in (\<lparr>jr_job_name = jb_name j, jr_status = status, jr_detail = detail\<rparr>,
          ja_update api (advance cf now status detail j) s))"

fun tick_loop ::
  "scheduler_config \<Rightarrow> 's job_api \<Rightarrow> (int \<Rightarrow> ScheduledJob \<Rightarrow> run_end) \<Rightarrow> int \<Rightarrow> ScheduledJob list \<Rightarrow>
   JobRunReport list \<times> 's \<Rightarrow> JobRunReport list \<times> 's" where
  "tick_loop cf api runner now [] (rs, s) = (rs, s)"
| "tick_loop cf api runner now (j # js) (rs, s) =
     (let (r, s') = run_one cf api runner now j s in tick_loop cf api runner now js (rs @ [r], s'))"

definition tick ::
  "scheduler_config \<Rightarrow> 's job_api \<Rightarrow> (int \<Rightarrow> ScheduledJob \<Rightarrow> run_end) \<Rightarrow> int \<Rightarrow> 's \<Rightarrow>
   JobRunReport list \<times> 's" where
  "tick cf api runner now s =
     (let s1 = ensure_scheduled api now s
      in tick_loop cf api runner now (ja_due api now s1) ([], s1))"

section \<open>What the scheduler needs of a store\<close>

text \<open>The effect of a tick on one job.\<close>

definition ensured :: "int \<Rightarrow> ScheduledJob \<Rightarrow> ScheduledJob" where
  "ensured now j = (if \<not> jb_enabled j \<or> jb_next_run_at j \<noteq> None then j else ensure_job now j)"

definition job_ran :: "scheduler_config \<Rightarrow> (int \<Rightarrow> ScheduledJob \<Rightarrow> run_end) \<Rightarrow> int \<Rightarrow> ScheduledJob \<Rightarrow> ScheduledJob" where
  "job_ran cf runner now j = advance cf now (fst (run_status cf runner j)) (snd (run_status cf runner j)) j"

definition ticked :: "scheduler_config \<Rightarrow> (int \<Rightarrow> ScheduledJob \<Rightarrow> run_end) \<Rightarrow> int \<Rightarrow> ScheduledJob \<Rightarrow> ScheduledJob" where
  "ticked cf runner now j =
     (let j1 = ensured now j in if is_due now j1 then job_ran cf runner now j1 else j1)"

definition job_report :: "scheduler_config \<Rightarrow> (int \<Rightarrow> ScheduledJob \<Rightarrow> run_end) \<Rightarrow> ScheduledJob \<Rightarrow> JobRunReport" where
  "job_report cf runner j = \<lparr>jr_job_name = jb_name j, jr_status = fst (run_status cf runner j),
     jr_detail = snd (run_status cf runner j)\<rparr>"

lemma ensure_job_name [simp]: "jb_name (ensure_job now j) = jb_name j"
  by (simp add: ensure_job_def split: sum.splits)

lemma ensured_name [simp]: "jb_name (ensured now j) = jb_name j"
  by (simp add: ensured_def)

lemma advance_name [simp]: "jb_name (advance cf now st d j) = jb_name j"
  by (simp add: advance_def Let_def split: sum.splits)

lemma job_ran_name [simp]: "jb_name (job_ran cf runner now j) = jb_name j"
  by (simp add: job_ran_def)

lemma run_one_eq:
  "run_one cf api runner now j s = (job_report cf runner j, ja_update api (job_ran cf runner now j) s)"
  by (simp add: run_one_def job_report_def job_ran_def split_beta)

locale job_store =
  fixes api :: "'s job_api"
    and ok :: "'s \<Rightarrow> bool"
  assumes ok_update: "ok s \<Longrightarrow> ok (ja_update api j s)"
    and get_update: "ok s \<Longrightarrow> ja_get api (ja_update api j s) = (ja_get api s)(jb_name j \<mapsto> j)"
    and add_def: "ok s \<Longrightarrow> ja_add api j s =
      (if ja_get api s (jb_name j) \<noteq> None then (Inl (''cron job already exists: '' @ jb_name j), s)
       else (Inr j, ja_update api j s))"
    and delete_answer: "ok s \<Longrightarrow> fst (ja_delete api n s) = (ja_get api s n \<noteq> None)"
    and ok_delete: "ok s \<Longrightarrow> ok (snd (ja_delete api n s))"
    and get_delete: "ok s \<Longrightarrow> ja_get api (snd (ja_delete api n s)) = (ja_get api s)(n := None)"
    and get_name: "ok s \<Longrightarrow> ja_get api s n = Some j \<Longrightarrow> jb_name j = n"
    and list_sorted: "ok s \<Longrightarrow> sorted_wrt (<) (map jb_name (ja_list api s))"
    and list_set: "ok s \<Longrightarrow> set (ja_list api s) = ran (ja_get api s)"
    and due_list: "ja_due api now s = filter (is_due now) (ja_list api s)"
begin

lemma list_distinct: "ok s \<Longrightarrow> distinct (map jb_name (ja_list api s))"
  using list_sorted strict_sorted_iff by blast

lemma list_get: "ok s \<Longrightarrow> j \<in> set (ja_list api s) \<Longrightarrow> ja_get api s (jb_name j) = Some j"
  using list_set get_name by (fastforce simp: ran_def)

lemma get_listed: "ok s \<Longrightarrow> ja_get api s n \<noteq> None \<longleftrightarrow> n \<in> jb_name ` set (ja_list api s)"
  using list_set get_name by (force simp: ran_def)

text \<open>The list is determined by what lookups return.\<close>

lemma list_eq:
  assumes "ok s"
  shows "ja_list api s = map (\<lambda>n. the (ja_get api s n)) (sorted_list_of_set (dom (ja_get api s)))"
proof -
  let ?ns = "map jb_name (ja_list api s)"
  have d: "set ?ns = dom (ja_get api s)" using get_listed [OF assms] by auto
  have "sorted_list_of_set (dom (ja_get api s)) = ?ns"
    using list_sorted [OF assms] d
    by (metis List.finite_set sorted_list_of_set.idem_if_sorted_distinct strict_sorted_iff)
  moreover have "map (\<lambda>n. the (ja_get api s n)) ?ns = ja_list api s"
    by (simp add: comp_def map_idI list_get [OF assms])
  ultimately show ?thesis by simp
qed

lemma ensure_loop_get:
  assumes "ok s" "distinct (map jb_name js)" "\<forall>j \<in> set js. ja_get api s (jb_name j) = Some j"
  shows "ok (ensure_loop api now js s)
    \<and> ja_get api (ensure_loop api now js s) n = (if n \<in> jb_name ` set js then map_option (ensured now) (ja_get api s n) else ja_get api s n)"
  using assms
proof (induction js arbitrary: s)
  case (Cons j js)
  show ?case
  proof (cases "\<not> jb_enabled j \<or> jb_next_run_at j \<noteq> None")
    case True
    then have "ensured now j = j" by (auto simp: ensured_def)
    with Cons True show ?thesis by auto
  next
    case False
    let ?s = "ja_update api (ensure_job now j) s"
    have g: "ja_get api ?s = (ja_get api s)(jb_name j \<mapsto> ensure_job now j)" using get_update [OF Cons.prems(1)] by simp
    have "ok ?s" by (rule ok_update [OF Cons.prems(1)])
    moreover have "\<forall>x \<in> set js. ja_get api ?s (jb_name x) = Some x"
      using Cons.prems(2,3) g by (auto simp: image_iff)
    ultimately show ?thesis
      using Cons.IH [of ?s] Cons.prems(2,3) False g by (auto simp: ensured_def)
  qed
qed simp

lemma ensure_scheduled_get:
  assumes "ok s"
  shows "ok (ensure_scheduled api now s)" "ja_get api (ensure_scheduled api now s) n = map_option (ensured now) (ja_get api s n)"
proof -
  note loop = ensure_loop_get [OF assms list_distinct [OF assms], of now n] list_get [OF assms]
  show "ok (ensure_scheduled api now s)" using loop by (simp add: ensure_scheduled_def)
  show "ja_get api (ensure_scheduled api now s) n = map_option (ensured now) (ja_get api s n)"
  proof (cases "n \<in> jb_name ` set (ja_list api s)")
    case False
    then have "ja_get api s n = None" using get_listed [OF assms] by blast
    with loop False show ?thesis by (simp add: ensure_scheduled_def)
  qed (use loop in \<open>simp add: ensure_scheduled_def\<close>)
qed

lemma tick_loop_get:
  assumes "ok s" "distinct (map jb_name js)" "\<forall>j \<in> set js. ja_get api s (jb_name j) = Some j"
  shows "fst (tick_loop cf api runner now js (rs, s)) = rs @ map (job_report cf runner) js
    \<and> ok (snd (tick_loop cf api runner now js (rs, s)))
    \<and> ja_get api (snd (tick_loop cf api runner now js (rs, s))) n
      = (if n \<in> jb_name ` set js then map_option (job_ran cf runner now) (ja_get api s n) else ja_get api s n)"
  using assms
proof (induction js arbitrary: rs s)
  case (Cons j js)
  let ?s = "ja_update api (job_ran cf runner now j) s"
  have g: "ja_get api ?s = (ja_get api s)(jb_name j \<mapsto> job_ran cf runner now j)" using get_update [OF Cons.prems(1)] by simp
  have "ok ?s" by (rule ok_update [OF Cons.prems(1)])
  moreover have "\<forall>x \<in> set js. ja_get api ?s (jb_name x) = Some x"
    using Cons.prems(2,3) g by (auto simp: image_iff)
  ultimately show ?case
    using Cons.IH [of ?s "rs @ [job_report cf runner j]"] Cons.prems(2,3) g
    by (auto simp: run_one_eq Let_def)
qed simp

lemma due_iff:
  assumes "ok s" "ja_get api s n = Some j"
  shows "n \<in> jb_name ` set (filter (is_due now) (ja_list api s)) \<longleftrightarrow> is_due now j"
proof
  assume "n \<in> jb_name ` set (filter (is_due now) (ja_list api s))"
  then obtain x where x: "x \<in> set (ja_list api s)" "is_due now x" "n = jb_name x" by auto
  with list_get [OF assms(1) x(1)] assms(2) show "is_due now j" by simp
next
  assume "is_due now j"
  moreover have "j \<in> set (ja_list api s)" using list_set [OF assms(1)] assms(2) by (auto simp: ran_def)
  ultimately show "n \<in> jb_name ` set (filter (is_due now) (ja_list api s))" using get_name [OF assms] by force
qed

text \<open>A tick changes every job as specified and reports the due ones in order of their names.\<close>

lemma tick_get:
  assumes "ok s"
  shows "ok (snd (tick cf api runner now s))"
    and "ja_get api (snd (tick cf api runner now s)) n = map_option (ticked cf runner now) (ja_get api s n)"
    and "fst (tick cf api runner now s)
       = map (job_report cf runner) (filter (is_due now) (ja_list api (ensure_scheduled api now s)))"
proof -
  let ?s1 = "ensure_scheduled api now s" and ?due = "filter (is_due now) (ja_list api (ensure_scheduled api now s))"
  have ok1: "ok ?s1" by (rule ensure_scheduled_get(1) [OF assms])
  have d: "distinct (map jb_name ?due)" by (rule distinct_map_filter [OF list_distinct [OF ok1]])
  have m: "\<forall>j \<in> set ?due. ja_get api ?s1 (jb_name j) = Some j" using list_get [OF ok1] by auto
  note loop = tick_loop_get [OF ok1 d m, where cf = cf and runner = runner and now = now and rs = "[]" and n = n]
  have t: "tick cf api runner now s = tick_loop cf api runner now ?due ([], ?s1)"
    by (simp add: tick_def Let_def due_list)
  show "ok (snd (tick cf api runner now s))" "fst (tick cf api runner now s) = map (job_report cf runner) ?due"
    using loop by (simp_all add: t)
  note due = due_iff [OF ok1, of n _ now]
  have none: "n \<notin> jb_name ` set ?due" if "ja_get api ?s1 n = None"
    using that list_get [OF ok1] by (auto simp: image_iff)
  show "ja_get api (snd (tick cf api runner now s)) n = map_option (ticked cf runner now) (ja_get api s n)"
    using loop ensure_scheduled_get(2) [OF assms, of now n] due none
    by (cases "ja_get api s n") (auto simp: t ticked_def Let_def)
qed

end

section \<open>Both stores meet it\<close>

definition mem_jobs_ok :: "InMemoryJobStore \<Rightarrow> bool" where
  "mem_jobs_ok s = (distinct (map fst s) \<and> (\<forall>p \<in> set s. jb_name (snd p) = fst p))"

definition mem_job_api :: "InMemoryJobStore job_api" where
  "mem_job_api = \<lparr>ja_add = mem_job_add, ja_get = mem_job_get, ja_delete = mem_job_delete, ja_update = mem_job_update, ja_list = mem_job_list, ja_due = mem_job_due\<rparr>"

lemma mem_jobs_ok_update: "mem_jobs_ok s \<Longrightarrow> mem_jobs_ok (mem_job_update j s)"
proof -
  assume ok: "mem_jobs_ok s"
  have "jb_name (snd p) = fst p" if "p \<in> set (alist_set (jb_name j) j s)" for p
    using that ok unfolding mem_jobs_ok_def
    by (induction "jb_name j" j s rule: alist_set.induct) (auto split: if_splits)
  then show ?thesis using ok by (simp add: mem_jobs_ok_def mem_job_update_def distinct_alist_set)
qed

lemma mem_job_list_names:
  assumes "mem_jobs_ok s"
  shows "map jb_name (mem_job_list s) = sort (map fst s)"
proof -
  have "jb_name (the (map_of s n)) = n" if "n \<in> set (sort (map fst s))" for n
    using that assms by (fastforce simp: mem_jobs_ok_def dest: map_of_SomeD split: option.splits simp: image_iff)
  then have "map (\<lambda>n. jb_name (the (map_of s n))) (sort (map fst s)) = sort (map fst s)" by (intro map_idI)
  then show ?thesis by (simp add: mem_job_list_def comp_def)
qed

lemma mem_job_get_eq: "mem_jobs_ok s \<Longrightarrow> mem_job_get s n = Some j \<longleftrightarrow> (n, j) \<in> set s"
  by (simp add: mem_jobs_ok_def mem_job_get_def)

lemma mem_job_list_set:
  assumes "mem_jobs_ok s"
  shows "set (mem_job_list s) = ran (mem_job_get s)"
proof -
  have "set (mem_job_list s) = (\<lambda>n. the (map_of s n)) ` fst ` set s" by (simp add: mem_job_list_def)
  also have "\<dots> = snd ` set s"
    using map_of_is_SomeI [of s] assms unfolding mem_jobs_ok_def image_image
    by (intro image_cong refl) (metis option.sel prod.collapse)
  finally show ?thesis using mem_job_get_eq [OF assms] by (auto simp: ran_def intro: rev_image_eqI)
qed

interpretation mem_jobs: job_store mem_job_api mem_jobs_ok
proof
  fix s :: InMemoryJobStore and j n now
  assume ok: "mem_jobs_ok s"
  show "mem_jobs_ok (ja_update mem_job_api j s)" using mem_jobs_ok_update [OF ok] by (simp add: mem_job_api_def)
  show "ja_get mem_job_api (ja_update mem_job_api j s) = (ja_get mem_job_api s)(jb_name j \<mapsto> j)"
    by (simp add: mem_job_api_def mem_job_update_def mem_job_get_def fun_eq_iff)
  show "ja_add mem_job_api j s =
      (if ja_get mem_job_api s (jb_name j) \<noteq> None then (Inl (''cron job already exists: '' @ jb_name j), s)
       else (Inr j, ja_update mem_job_api j s))"
    by (auto simp: mem_job_api_def mem_job_add_def mem_job_get_def mem_job_update_def map_of_eq_None_iff)
  show "fst (ja_delete mem_job_api n s) = (ja_get mem_job_api s n \<noteq> None)"
    by (simp add: mem_job_api_def mem_job_delete_def mem_job_get_def)
  show "mem_jobs_ok (snd (ja_delete mem_job_api n s))"
    using ok by (simp add: mem_job_api_def mem_job_delete_def mem_jobs_ok_def distinct_map_filter)
  show "ja_get mem_job_api (snd (ja_delete mem_job_api n s)) = (ja_get mem_job_api s)(n := None)"
    by (auto simp: mem_job_api_def mem_job_delete_def mem_job_get_def fun_eq_iff map_of_filter_fst)
  show "ja_get mem_job_api s n = Some j \<Longrightarrow> jb_name j = n"
    using ok mem_job_get_eq [OF ok] by (fastforce simp: mem_job_api_def mem_jobs_ok_def)
  show "sorted_wrt (<) (map jb_name (ja_list mem_job_api s))"
    using ok mem_job_list_names [OF ok]
    by (simp add: mem_job_api_def mem_jobs_ok_def strict_sorted_iff)
  show "set (ja_list mem_job_api s) = ran (ja_get mem_job_api s)"
    using mem_job_list_set [OF ok] by (simp add: mem_job_api_def)
next
  show "ja_due mem_job_api now s = filter (is_due now) (ja_list mem_job_api s)" for now s
    by (simp add: mem_job_api_def mem_job_due_def)
qed

text \<open>The SQLite store, for a codec that reads back what it wrote.\<close>

definition sql_jobs_ok :: "'t job_codec \<Rightarrow> 't SqliteJobStore \<Rightarrow> bool" where
  "sql_jobs_ok c t = (distinct (map fst t) \<and> (\<forall>p \<in> set t. jb_name (load_job c (snd p)) = fst p))"

definition sql_job_api :: "'t job_codec \<Rightarrow> 't SqliteJobStore job_api" where
  "sql_job_api c = \<lparr>ja_add = sql_job_add c, ja_get = sql_job_get c, ja_delete = sql_job_delete,
     ja_update = sql_job_update c, ja_list = sql_job_list c, ja_due = sql_job_due c\<rparr>"

lemma sql_job_get_eq: "sql_job_get c t n = map_option (load_job c) (map_of t n)"
proof -
  have "(case filter (\<lambda>p. fst p = n) t of [] \<Rightarrow> None | p # _ \<Rightarrow> Some (load_job c (snd p)))
      = map_option (load_job c) (map_of t n)" by (induction t) auto
  then show ?thesis by (simp add: sql_job_get_def)
qed

lemma sql_job_get_write:
  "job_codec_ok c \<Longrightarrow> sql_job_get c (sql_job_write c j t) = (sql_job_get c t)(jb_name j \<mapsto> j)"
  by (rule ext) (simp add: sql_job_get_eq sql_job_write_def job_codec_ok_def map_of_append map_add_def
    map_of_filter_fst split: option.splits)

lemma sql_jobs_ok_write: "job_codec_ok c \<Longrightarrow> sql_jobs_ok c t \<Longrightarrow> sql_jobs_ok c (sql_job_write c j t)"
  by (auto simp: sql_jobs_ok_def sql_job_write_def job_codec_ok_def distinct_map_filter)

lemma sql_job_list_names:
  assumes "sql_jobs_ok c t"
  shows "map jb_name (sql_job_list c t) = sort (map fst t)"
proof -
  have "map jb_name (sql_job_list c t) = map fst (sort_key fst t)"
    using assms by (simp add: sql_job_list_def sql_jobs_ok_def)
  then show ?thesis using sort_key_map [of "\<lambda>x. x" fst t] by simp
qed

lemma sql_job_list_set:
  assumes "sql_jobs_ok c t"
  shows "set (sql_job_list c t) = ran (sql_job_get c t)"
proof -
  have "ran (sql_job_get c t) = load_job c ` ran (map_of t)"
    by (auto simp: ran_def sql_job_get_eq)
  also have "\<dots> = load_job c ` snd ` set t" using assms by (simp add: sql_jobs_ok_def ran_distinct)
  finally show ?thesis by (simp add: sql_job_list_def image_image)
qed

lemma sql_job_deleted: "length t - length (filter (\<lambda>p. fst p \<noteq> n) t) > 0 \<longleftrightarrow> map_of t n \<noteq> None"
proof -
  have "length (filter (\<lambda>p. fst p \<noteq> n) t) < length t \<longleftrightarrow> (\<exists>p \<in> set t. fst p = n)"
    using length_filter_less [of _ t "\<lambda>p. fst p \<noteq> n"] filter_True [of t "\<lambda>p. fst p \<noteq> n"] by (metis order_less_irrefl)
  then show ?thesis by (auto simp: map_of_eq_None_iff image_iff)
qed

lemma sql_job_store:
  assumes c: "job_codec_ok c"
  shows "job_store (sql_job_api c) (sql_jobs_ok c)"
proof
  fix s j n now
  assume ok: "sql_jobs_ok c s"
  show "sql_jobs_ok c (ja_update (sql_job_api c) j s)"
    using sql_jobs_ok_write [OF c ok] by (simp add: sql_job_api_def sql_job_update_def)
  show "ja_get (sql_job_api c) (ja_update (sql_job_api c) j s) = (ja_get (sql_job_api c) s)(jb_name j \<mapsto> j)"
    using sql_job_get_write [OF c] by (simp add: sql_job_api_def sql_job_update_def)
  show "ja_add (sql_job_api c) j s =
      (if ja_get (sql_job_api c) s (jb_name j) \<noteq> None then (Inl (''cron job already exists: '' @ jb_name j), s)
       else (Inr j, ja_update (sql_job_api c) j s))"
    by (simp add: sql_job_api_def sql_job_add_def sql_job_update_def)
  show "fst (ja_delete (sql_job_api c) n s) = (ja_get (sql_job_api c) s n \<noteq> None)"
    using sql_job_deleted [of s n] by (simp add: sql_job_api_def sql_job_delete_def sql_job_get_eq Let_def)
  show "sql_jobs_ok c (snd (ja_delete (sql_job_api c) n s))"
    using ok by (simp add: sql_job_api_def sql_job_delete_def sql_jobs_ok_def distinct_map_filter Let_def)
  show "ja_get (sql_job_api c) (snd (ja_delete (sql_job_api c) n s)) = (ja_get (sql_job_api c) s)(n := None)"
    by (auto simp: sql_job_api_def sql_job_delete_def sql_job_get_eq fun_eq_iff map_of_filter_fst Let_def)
  show "ja_get (sql_job_api c) s n = Some j \<Longrightarrow> jb_name j = n"
    using ok by (auto simp: sql_job_api_def sql_jobs_ok_def sql_job_get_eq dest: map_of_SomeD)
  show "sorted_wrt (<) (map jb_name (ja_list (sql_job_api c) s))"
    using ok sql_job_list_names [OF ok] by (simp add: sql_job_api_def sql_jobs_ok_def strict_sorted_iff)
  show "set (ja_list (sql_job_api c) s) = ran (ja_get (sql_job_api c) s)"
    using sql_job_list_set [OF ok] by (simp add: sql_job_api_def)
next
  show "ja_due (sql_job_api c) now s = filter (is_due now) (ja_list (sql_job_api c) s)" for now s
    by (simp add: sql_job_api_def sql_job_due_def)
qed

section \<open>Guarantees of a tick\<close>

lemma next_run_later: "next_run txt now = Inr t \<Longrightarrow> now < t"
  by (auto simp: next_run_def dest: next_after_later [OF parse_schedule_ok] split: sum.splits)

text \<open>What holds of a job after a tick at \<open>now\<close>: enabled, it has a fire time after \<open>now\<close>.\<close>

lemma ticked_settled:
  "jb_enabled (ticked cf runner now j) \<Longrightarrow> \<exists>t. jb_next_run_at (ticked cf runner now j) = Some t \<and> now < t"
  by (auto simp: ticked_def ensured_def ensure_job_def job_ran_def advance_def is_due_def Let_def not_le
    dest!: next_run_later split: if_splits sum.splits option.splits)

lemma ticked_twice: "ticked cf r2 now (ticked cf r1 now j) = ticked cf r1 now j"
  using ticked_settled [of cf r1 now j]
  by (cases "jb_enabled (ticked cf r1 now j)") (auto simp: ticked_def [of cf r2] ensured_def is_due_def Let_def)

lemma ensured_ticked: "ensured now (ticked cf r1 now j) = ticked cf r1 now j"
  using ticked_settled [of cf r1 now j] by (auto simp: ensured_def)

lemma ticked_not_due: "\<not> is_due now (ticked cf runner now j)"
  using ticked_settled [of cf runner now j] by (auto simp: is_due_def split: option.splits)

text \<open>The failure bound of an enabled job, and the effect of one more failure.\<close>

definition within_failures :: "scheduler_config \<Rightarrow> ScheduledJob \<Rightarrow> bool" where
  "within_failures cf j = (0 \<le> jb_failures j \<and> (jb_enabled j \<longrightarrow> jb_failures j < cf_max_failures cf))"

lemma ensured_within: "within_failures cf j \<Longrightarrow> within_failures cf (ensured now j)"
  by (auto simp: ensured_def ensure_job_def within_failures_def split: sum.splits)

lemma job_ran_within:
  assumes "0 < cf_max_failures cf" "within_failures cf j"
  shows "within_failures cf (job_ran cf runner now j)"
  using assms by (auto simp: job_ran_def advance_def within_failures_def Let_def split: sum.splits)

lemma ticked_within:
  "0 < cf_max_failures cf \<Longrightarrow> within_failures cf j \<Longrightarrow> within_failures cf (ticked cf runner now j)"
  by (simp add: ticked_def Let_def ensured_within job_ran_within)

context job_store
begin

lemma tick_settles:
  assumes "ok s"
  shows "ja_due api now (snd (tick cf api runner now s)) = []"
    and "fst (tick cf api runner' now (snd (tick cf api runner now s))) = []"
    and "ja_get api (snd (tick cf api runner' now (snd (tick cf api runner now s))))
       = ja_get api (snd (tick cf api runner now s))"
proof -
  let ?s = "snd (tick cf api runner now s)"
  let ?s' = "ensure_scheduled api now ?s"
  have ok': "ok ?s" by (rule tick_get(1) [OF assms])
  have g: "ja_get api ?s = map_option (ticked cf runner now) \<circ> ja_get api s"
    using tick_get(2) [OF assms] by (simp add: fun_eq_iff)
  have nd: "filter (is_due now) (ja_list api u) = []"
    if "ok u" "ja_get api u = map_option (ticked cf runner now) \<circ> ja_get api s" for u
    using list_set [OF that(1)] that(2) ticked_not_due by (auto simp: filter_empty_conv ran_def)
  show "ja_due api now ?s = []" using nd [OF ok' g] by (simp add: due_list)
  have "ja_get api ?s' = ja_get api ?s"
    using ensure_scheduled_get(2) [OF ok', of now] g
    by (auto simp: fun_eq_iff option.map_comp comp_def ensured_ticked)
  then show "fst (tick cf api runner' now ?s) = []"
    using tick_get(3) [OF ok'] nd [OF ensure_scheduled_get(1) [OF ok']] g by simp
  show "ja_get api (snd (tick cf api runner' now ?s)) = ja_get api ?s"
    using tick_get(2) [OF ok'] g by (auto simp: fun_eq_iff option.map_comp comp_def ticked_twice)
qed

end

text \<open>Programs over a store: the calls of the host and the ticks of the scheduler.\<close>

datatype job_call =
    Call_Add ScheduledJob | Call_Update ScheduledJob | Call_Get string | Call_Delete string
  | Call_List | Call_Due int | Call_Tick int

datatype job_answer =
    Ans_Added "string + ScheduledJob" | Ans_Updated | Ans_Got "ScheduledJob option" | Ans_Deleted bool
  | Ans_Jobs "ScheduledJob list" | Ans_Reports "JobRunReport list"

fun job_call_exec ::
  "scheduler_config \<Rightarrow> (int \<Rightarrow> ScheduledJob \<Rightarrow> run_end) \<Rightarrow> 's job_api \<Rightarrow> job_call \<Rightarrow> 's \<Rightarrow> job_answer \<times> 's" where
  "job_call_exec cf r api (Call_Add j) s = map_prod Ans_Added id (ja_add api j s)"
| "job_call_exec cf r api (Call_Update j) s = (Ans_Updated, ja_update api j s)"
| "job_call_exec cf r api (Call_Get n) s = (Ans_Got (ja_get api s n), s)"
| "job_call_exec cf r api (Call_Delete n) s = map_prod Ans_Deleted id (ja_delete api n s)"
| "job_call_exec cf r api Call_List s = (Ans_Jobs (ja_list api s), s)"
| "job_call_exec cf r api (Call_Due now) s = (Ans_Jobs (ja_due api now s), s)"
| "job_call_exec cf r api (Call_Tick now) s = map_prod Ans_Reports id (tick cf api r now s)"

fun job_calls ::
  "scheduler_config \<Rightarrow> (int \<Rightarrow> ScheduledJob \<Rightarrow> run_end) \<Rightarrow> 's job_api \<Rightarrow> job_call list \<Rightarrow> 's \<Rightarrow> job_answer list \<times> 's" where
  "job_calls cf r api [] s = ([], s)"
| "job_calls cf r api (c # cs) s =
     (let (a, s1) = job_call_exec cf r api c s; (as, s2) = job_calls cf r api cs s1 in (a # as, s2))"

lemma job_call_agrees:
  assumes A: "job_store api ok" and B: "job_store api' ok'"
    and s: "ok s" and s': "ok' s'" and eq: "ja_get api s = ja_get api' s'"
  shows "fst (job_call_exec cf r api c s) = fst (job_call_exec cf r api' c s')
    \<and> ok (snd (job_call_exec cf r api c s)) \<and> ok' (snd (job_call_exec cf r api' c s'))
    \<and> ja_get api (snd (job_call_exec cf r api c s)) = ja_get api' (snd (job_call_exec cf r api' c s'))"
proof -
  note a = job_store.list_eq [OF A s] job_store.due_list [OF A] job_store.add_def [OF A s]
    job_store.delete_answer [OF A s] job_store.ok_delete [OF A s] job_store.get_delete [OF A s]
    job_store.ok_update [OF A s] job_store.get_update [OF A s]
  note b = job_store.list_eq [OF B s'] job_store.due_list [OF B] job_store.add_def [OF B s']
    job_store.delete_answer [OF B s'] job_store.ok_delete [OF B s'] job_store.get_delete [OF B s']
    job_store.ok_update [OF B s'] job_store.get_update [OF B s']
  show ?thesis
  proof (cases c)
    case (Call_Tick now)
    let ?e = "ensure_scheduled api now s" and ?e' = "ensure_scheduled api' now s'"
    have "ja_get api ?e = ja_get api' ?e'"
      using job_store.ensure_scheduled_get(2) [OF A s] job_store.ensure_scheduled_get(2) [OF B s'] eq by auto
    then have "ja_list api ?e = ja_list api' ?e'"
      by (simp add: job_store.list_eq [OF A job_store.ensure_scheduled_get(1) [OF A s]]
          job_store.list_eq [OF B job_store.ensure_scheduled_get(1) [OF B s']])
    with Call_Tick show ?thesis
      using job_store.tick_get [OF A s] job_store.tick_get [OF B s'] eq by (auto simp: fun_eq_iff)
  qed (use s s' eq a b in auto)
qed

lemma job_calls_agree:
  assumes A: "job_store api ok" and B: "job_store api' ok'"
  shows "ok s \<Longrightarrow> ok' s' \<Longrightarrow> ja_get api s = ja_get api' s' \<Longrightarrow>
    fst (job_calls cf r api cs s) = fst (job_calls cf r api' cs s')
    \<and> ja_get api (snd (job_calls cf r api cs s)) = ja_get api' (snd (job_calls cf r api' cs s'))"
proof (induction cs arbitrary: s s')
  case (Cons c cs)
  from job_call_agrees [OF A B Cons.prems, of cf r c] Cons.IH
  show ?case by (simp add: split_beta Let_def)
qed simp

section \<open>A job that keeps failing\<close>

lemma length_filter_key:
  "distinct (map f xs) \<Longrightarrow> length (filter (\<lambda>x. f x = n) xs) = (if n \<in> f ` set xs then 1 else 0)"
  by (induction xs) (auto simp: image_iff filter_empty_conv)

text \<open>The runs an enabled job has left when all of them fail.\<close>

definition runs_left :: "scheduler_config \<Rightarrow> ScheduledJob \<Rightarrow> nat" where
  "runs_left cf j = (if jb_enabled j then nat (cf_max_failures cf - jb_failures j) else 0)"

lemma runs_left_ticked:
  assumes "within_failures cf j" "\<forall>t k. jb_name k = jb_name j \<longrightarrow> r t k \<noteq> Run_Ok"
  shows "(if is_due now (ensured now j) then 1 else 0) + runs_left cf (ticked cf r now j) \<le> runs_left cf j"
proof -
  have le: "runs_left cf (ensured now j) \<le> runs_left cf j"
    by (auto simp: runs_left_def ensured_def ensure_job_def split: sum.splits)
  show ?thesis
  proof (cases "is_due now (ensured now j)")
    case True
    have "fst (run_status cf r (ensured now j)) \<noteq> ''ok''"
      using assms(2) ensured_name [of now j] by (auto simp: run_status_def Let_def split: run_end.splits)
    with True have "1 + runs_left cf (job_ran cf r now (ensured now j)) \<le> runs_left cf (ensured now j)"
      using ensured_within [OF assms(1), of now]
      by (auto simp: runs_left_def job_ran_def advance_def is_due_def within_failures_def Let_def split: sum.splits)
    with True le show ?thesis by (simp add: ticked_def Let_def)
  qed (use le in \<open>simp add: ticked_def Let_def\<close>)
qed

fun run_ticks ::
  "scheduler_config \<Rightarrow> (int \<Rightarrow> ScheduledJob \<Rightarrow> run_end) \<Rightarrow> 's job_api \<Rightarrow> int list \<Rightarrow> 's \<Rightarrow> JobRunReport list \<times> 's" where
  "run_ticks cf r api [] s = ([], s)"
| "run_ticks cf r api (t # ts) s =
     (let (rs, s1) = tick cf api r t s; (rs', s2) = run_ticks cf r api ts s1 in (rs @ rs', s2))"

context job_store
begin

lemma tick_report_count:
  assumes "ok s" "ja_get api s n = Some j"
  shows "length (filter (\<lambda>x. jr_job_name x = n) (fst (tick cf api r now s)))
       = (if is_due now (ensured now j) then 1 else 0)"
proof -
  let ?e = "ensure_scheduled api now s"
  have e: "ok ?e" "ja_get api ?e n = Some (ensured now j)"
    using ensure_scheduled_get [OF assms(1)] assms(2) by simp_all
  let ?due = "filter (is_due now) (ja_list api ?e)"
  have "distinct (map jb_name ?due)" by (rule distinct_map_filter [OF list_distinct [OF e(1)]])
  from length_filter_key [OF this, of n] due_iff [OF e, of now]
  show ?thesis by (simp add: tick_get(3) [OF assms(1)] job_report_def filter_map comp_def)
qed

lemma failing_runs_bounded:
  assumes "0 < cf_max_failures cf" "\<forall>t k. jb_name k = n \<longrightarrow> r t k \<noteq> Run_Ok"
  shows "ok s \<Longrightarrow> ja_get api s n = Some j \<Longrightarrow> within_failures cf j \<Longrightarrow>
    length (filter (\<lambda>x. jr_job_name x = n) (fst (run_ticks cf r api ts s))) \<le> runs_left cf j"
proof (induction ts arbitrary: s j)
  case (Cons t ts)
  let ?s = "snd (tick cf api r t s)" and ?j = "ticked cf r t j"
  have n: "jb_name j = n" by (rule get_name [OF Cons.prems(1,2)])
  have "length (filter (\<lambda>x. jr_job_name x = n) (fst (run_ticks cf r api ts ?s))) \<le> runs_left cf ?j"
    using Cons.IH [of ?s ?j] tick_get [OF Cons.prems(1)] Cons.prems(2) ticked_within [OF assms(1) Cons.prems(3)]
    by simp
  moreover have "(if is_due t (ensured t j) then 1 else 0) + runs_left cf ?j \<le> runs_left cf j"
    using runs_left_ticked [OF Cons.prems(3)] assms(2) n by blast
  ultimately show ?case
    using tick_report_count [OF Cons.prems(1,2), of cf r t] by (simp add: split_beta Let_def)
qed simp

end

section \<open>Properties\<close>

text \<open>A tick acts job by job, on either store: each job gets its seed time if it needs one, is run
  exactly when it is due then, and its record depends on no other job, whatever the runs of the
  other jobs did.\<close>

lemma tick_acts_per_job:
  assumes "mem_jobs_ok s" "job_codec_ok c" "sql_jobs_ok c t"
  shows "mem_job_get (snd (tick cf mem_job_api r now s)) n = map_option (ticked cf r now) (mem_job_get s n)
    \<and> sql_job_get c (snd (tick cf (sql_job_api c) r now t)) n = map_option (ticked cf r now) (sql_job_get c t n)"
  using mem_jobs.tick_get(2) [OF assms(1)] job_store.tick_get(2) [OF sql_job_store [OF assms(2)] assms(3)]
  by (simp add: mem_job_api_def sql_job_api_def)

text \<open>C34. After a tick no job is due at that moment, and a second tick at the same moment runs nothing
  and changes no job, even when the host's runner behaves differently.\<close>

theorem tick_runs_due_jobs_once:
  assumes "mem_jobs_ok s" "job_codec_ok c" "sql_jobs_ok c t"
  shows "mem_job_due now (snd (tick cf mem_job_api r now s)) = []
    \<and> fst (tick cf mem_job_api r' now (snd (tick cf mem_job_api r now s))) = []
    \<and> mem_job_get (snd (tick cf mem_job_api r' now (snd (tick cf mem_job_api r now s))))
      = mem_job_get (snd (tick cf mem_job_api r now s))
    \<and> sql_job_due c now (snd (tick cf (sql_job_api c) r now t)) = []
    \<and> fst (tick cf (sql_job_api c) r' now (snd (tick cf (sql_job_api c) r now t))) = []
    \<and> sql_job_get c (snd (tick cf (sql_job_api c) r' now (snd (tick cf (sql_job_api c) r now t))))
      = sql_job_get c (snd (tick cf (sql_job_api c) r now t))"
  using mem_jobs.tick_settles [OF assms(1)] job_store.tick_settles [OF sql_job_store [OF assms(2)] assms(3)]
  by (simp add: mem_job_api_def sql_job_api_def)

text \<open>A job whose runs all fail is run at most as often as it has failures left before the limit,
  over any sequence of ticks; then it stays disabled.\<close>

lemma failing_job_is_stopped:
  assumes "0 < cf_max_failures cf" "mem_jobs_ok s" "mem_job_get s n = Some j" "within_failures cf j"
    and "\<forall>t k. jb_name k = n \<longrightarrow> r t k \<noteq> Run_Ok"
  shows "length (filter (\<lambda>x. jr_job_name x = n) (fst (run_ticks cf r mem_job_api ts s)))
       \<le> (if jb_enabled j then nat (cf_max_failures cf - jb_failures j) else 0)"
  using mem_jobs.failing_runs_bounded [OF assms(1,5,2) _ assms(4), of ts] assms(3)
  by (simp add: runs_left_def mem_job_api_def)

text \<open>C38. The SQLite store is observably the in-memory store: any sequence of host calls and scheduler
  ticks gives the same answers and reports.\<close>

theorem job_stores_agree:
  assumes "job_codec_ok c"
  shows "fst (job_calls cf r (sql_job_api c) cs []) = fst (job_calls cf r mem_job_api cs [])
    \<and> sql_job_get c (snd (job_calls cf r (sql_job_api c) cs [])) = mem_job_get (snd (job_calls cf r mem_job_api cs []))"
proof -
  have "ja_get (sql_job_api c) [] = ja_get mem_job_api []"
    by (auto simp: sql_job_api_def mem_job_api_def sql_job_get_eq mem_job_get_def)
  from job_calls_agree [OF sql_job_store [OF assms] mem_jobs.job_store_axioms _ _ this, of cf r cs]
  show ?thesis by (simp add: sql_jobs_ok_def mem_jobs_ok_def sql_job_api_def mem_job_api_def)
qed

section \<open>Witnesses\<close>

text \<open>A job fired every second, a limit of two failures, and a host whose runs raise.\<close>

definition beat_job :: ScheduledJob where
  "beat_job = \<lparr>jb_name = ''beat'', jb_schedule = ''every 1s'', jb_command = ''ping'', jb_enabled = True,
     jb_next_run_at = Some 0, jb_last_run_at = None, jb_last_status = None, jb_last_error = None,
     jb_run_count = 0, jb_failures = 0, jb_created_at = None, jb_metadata = []\<rparr>"

definition two_strikes :: scheduler_config where
  "two_strikes = \<lparr>cf_default_timeout = 300, cf_max_failures = 2\<rparr>"

definition raising_runner :: "int \<Rightarrow> ScheduledJob \<Rightarrow> run_end" where
  "raising_runner t j = Run_Error ''boom''"

definition plain_codec :: "ScheduledJob job_codec" where
  "plain_codec = \<lparr>dump_job = (\<lambda>j. j), load_job = (\<lambda>j. j)\<rparr>"

lemma plain_codec_ok: "job_codec_ok plain_codec"
  by (simp add: plain_codec_def job_codec_ok_def)

lemma beat_stores_ok: "mem_jobs_ok [(''beat'', beat_job)]" "sql_jobs_ok plain_codec [(''beat'', beat_job)]"
  by (simp_all add: mem_jobs_ok_def sql_jobs_ok_def plain_codec_def beat_job_def)

lemma tick_acts_per_job_witness:
  "mem_job_get (snd (tick two_strikes mem_job_api raising_runner 7 [(''beat'', beat_job)])) ''beat''
     = Some (ticked two_strikes raising_runner 7 beat_job)"
  using tick_acts_per_job [OF beat_stores_ok(1) plain_codec_ok beat_stores_ok(2),
      of two_strikes raising_runner 7 "''beat''"]
  by (simp add: mem_job_get_def)

theorem tick_runs_due_jobs_once_witness:
  "fst (tick two_strikes mem_job_api raising_runner 7 (snd (tick two_strikes mem_job_api raising_runner 7 [(''beat'', beat_job)]))) = []"
  using tick_runs_due_jobs_once [OF beat_stores_ok(1) plain_codec_ok beat_stores_ok(2),
      of 7 two_strikes raising_runner raising_runner] by blast

lemma beat_runs: "map jr_status (fst (run_ticks two_strikes raising_runner mem_job_api
    [7, 2000000, 9000000, 20000000] [(''beat'', beat_job)])) = [''error'', ''error'']"
  by code_simp

lemma failing_job_is_stopped_witness:
  "length (filter (\<lambda>x. jr_job_name x = ''beat'')
     (fst (run_ticks two_strikes raising_runner mem_job_api [7, 2000000, 9000000, 20000000] [(''beat'', beat_job)]))) \<le> 2"
proof -
  have "within_failures two_strikes beat_job" by code_simp
  from failing_job_is_stopped [OF _ beat_stores_ok(1) _ this, where n = "''beat''" and r = raising_runner
      and ts = "[7, 2000000, 9000000, 20000000]"]
  show ?thesis by (simp add: two_strikes_def mem_job_get_def raising_runner_def beat_job_def)
qed

theorem job_stores_agree_witness:
  "fst (job_calls two_strikes raising_runner (sql_job_api plain_codec)
      [Call_Add beat_job, Call_Tick 7, Call_Add beat_job, Call_Delete ''beat'', Call_List] [])
   = fst (job_calls two_strikes raising_runner mem_job_api
      [Call_Add beat_job, Call_Tick 7, Call_Add beat_job, Call_Delete ''beat'', Call_List] [])"
  using job_stores_agree [OF plain_codec_ok] by blast

end
