(* ===== verification/Workspace_Paths.thy ===== *)
theory Workspace_Paths
  imports Prelude
begin

text \<open>
  Lexical path safety of a leased workspace (\<open>execution/pathsafety.py\<close>), with the part of
  \<open>pathlib.PurePosixPath\<close> it uses: a path is its root (none, \<open>/\<close>, or the two-slash root) and its
  components. No disk is involved, so confinement is a statement about components.
\<close>

section \<open>Pure paths\<close>

record PurePosixPath =
  px_root :: string
  px_tail :: "string list"

definition slash :: char where "slash = CHR ''/''"

definition px_parse :: "string \<Rightarrow> PurePosixPath" where
  "px_parse s =
     (let root = (if \<not> prefix ''/'' s then [] else if prefix ''//'' s \<and> \<not> prefix ''///'' s then ''//'' else ''/'')
      in \<lparr>px_root = root,
          px_tail = filter (\<lambda>w. w \<noteq> [] \<and> w \<noteq> ''.'') (split_at slash (drop (length root) s))\<rparr>)"

definition px_is_absolute :: "PurePosixPath \<Rightarrow> bool" where
  "px_is_absolute p = (px_root p \<noteq> [])"

definition px_parts :: "PurePosixPath \<Rightarrow> string list" where
  "px_parts p = (if px_root p = [] then px_tail p else px_root p # px_tail p)"

text \<open>Joining: an absolute argument replaces what came before it. \<open>PurePosixPath(*parts)\<close>.\<close>

definition px_join :: "PurePosixPath \<Rightarrow> PurePosixPath \<Rightarrow> PurePosixPath" where
  "px_join p q = (if px_root q \<noteq> [] then q else p\<lparr>px_tail := px_tail p @ px_tail q\<rparr>)"

definition px_of_parts :: "string list \<Rightarrow> PurePosixPath" where
  "px_of_parts ps = foldl (\<lambda>p s. px_join p (px_parse s)) \<lparr>px_root = [], px_tail = []\<rparr> ps"

definition px_str :: "PurePosixPath \<Rightarrow> string" where
  "px_str p =
     (if px_root p = [] \<and> px_tail p = [] then ''.'' else px_root p @ py_join [slash] (px_tail p))"

text \<open>\<open>path.relative_to(root)\<close> does not raise.\<close>

definition is_within :: "PurePosixPath \<Rightarrow> PurePosixPath \<Rightarrow> bool" where
  "is_within p base_dir = (px_root p = px_root base_dir \<and> prefix (px_tail base_dir) (px_tail p))"

section \<open>Validation\<close>

record WorkspacePaths =
  workspace_root :: string
  writable_roots :: "string list"
  allow_symlink_escape :: bool

datatype path_error = Path_Blank | Path_Escapes | Path_Not_Writable

fun norm_segments :: "string list \<Rightarrow> string list \<Rightarrow> string list" where
  "norm_segments [] parts = parts"
| "norm_segments (seg # segs) parts =
     (if seg = [] \<or> seg = ''.'' then norm_segments segs parts
      else if seg = ''..'' then norm_segments segs (if length parts > 1 then butlast parts else parts)
      else norm_segments segs (parts @ [seg]))"

definition normalize_path :: "string \<Rightarrow> PurePosixPath \<Rightarrow> PurePosixPath" where
  "normalize_path path base_dir =
     (let candidate = px_parse path;
          base = (if \<not> px_is_absolute candidate then base_dir else px_parse ''/'');
          parts = norm_segments (px_parts candidate) (px_parts base)
      in if parts \<noteq> [] then px_of_parts parts else px_parse ''/'')"

definition validate_workspace_path :: "string \<Rightarrow> WorkspacePaths \<Rightarrow> bool \<Rightarrow> path_error + string" where
  "validate_workspace_path path paths require_writable =
     (if py_strip path = [] then Inl Path_Blank
      else
        (let base_dir = px_parse (workspace_root paths); normalized = normalize_path path base_dir
         in if \<not> is_within normalized base_dir then Inl Path_Escapes
            else if require_writable \<and> writable_roots paths \<noteq> []
                 \<and> \<not> list_ex (\<lambda>w. is_within normalized (px_parse w)) (writable_roots paths)
            then Inl Path_Not_Writable
            else Inr (px_str normalized)))"

section \<open>Components of a path\<close>

definition component :: "string \<Rightarrow> bool" where
  "component w = (w \<noteq> [] \<and> w \<noteq> ''.'' \<and> slash \<notin> set w)"

definition px_ok :: "PurePosixPath \<Rightarrow> bool" where
  "px_ok p = (px_root p \<in> {[], ''/'', ''//''} \<and> (\<forall>w \<in> set (px_tail p). component w))"

lemma px_parse_ok: "px_ok (px_parse s)"
  by (auto simp: px_ok_def px_parse_def component_def Let_def dest: split_at_no_sep)

lemma component_prefix: "component w \<Longrightarrow> \<not> prefix ''/'' (w @ x)"
  by (cases w) (auto simp: component_def slash_def)

lemma px_parse_component: "component w \<Longrightarrow> px_parse w = \<lparr>px_root = [], px_tail = [w]\<rparr>"
  using component_prefix [of w "[]"] by (simp add: px_parse_def component_def split_at_word)

lemma px_parse_root: "r \<in> {''/'', ''//''} \<Longrightarrow> px_parse r = \<lparr>px_root = r, px_tail = []\<rparr>"
  by (auto simp: px_parse_def)

lemma join_component_prefix: "ws \<noteq> [] \<Longrightarrow> \<forall>w \<in> set ws. component w \<Longrightarrow> \<not> prefix ''/'' (py_join [slash] ws)"
  by (induction "[slash]" ws rule: py_join.induct) (use component_prefix [of _ "[]"] component_prefix in auto)

lemma split_tail:
  assumes "\<forall>w \<in> set ws. component w"
  shows "filter (\<lambda>w. w \<noteq> [] \<and> w \<noteq> ''.'') (split_at slash (py_join [slash] ws)) = ws"
proof (cases "ws = []")
  case False
  then have "split_at slash (py_join [slash] ws) = ws" using assms by (intro split_at_join) (auto simp: component_def)
  then show ?thesis using assms by (auto simp: component_def intro: filter_True)
qed simp

lemma px_parse_str:
  assumes "px_ok p"
  shows "px_parse (px_str p) = p"
proof -
  let ?j = "py_join [slash] (px_tail p)"
  have comp: "\<forall>w \<in> set (px_tail p). component w" using assms by (simp add: px_ok_def)
  have np: "\<not> prefix ''/'' ?j" using join_component_prefix [OF _ comp] by (cases "px_tail p") auto
  then have "prefix ''/'' (''/'' @ ?j) \<and> \<not> prefix ''//'' (''/'' @ ?j) \<and> \<not> prefix ''///'' (''//'' @ ?j)"
    by (cases ?j) auto
  moreover have "px_root p = [] \<or> px_root p = ''/'' \<or> px_root p = ''//''" using assms by (auto simp: px_ok_def)
  ultimately show ?thesis
    using split_tail [OF comp] np
    by (cases p) (auto simp: px_str_def px_parse_def Let_def slash_def)
qed

section \<open>Normalising\<close>

text \<open>What a normalised component can be: one of the base, or a component of the path that is not
  a step up.\<close>

lemma norm_segments_mem:
  "x \<in> set (norm_segments segs parts) \<Longrightarrow> x \<in> set parts \<or> (x \<in> set segs \<and> x \<noteq> ''..'')"
proof (induction segs parts rule: norm_segments.induct)
  case (2 seg segs parts)
  then show ?case by (auto split: if_splits dest: in_set_butlastD)
qed simp

lemma norm_segments_plain:
  "\<forall>w \<in> set segs. w \<noteq> [] \<and> w \<noteq> ''.'' \<and> w \<noteq> ''..'' \<Longrightarrow> norm_segments segs parts = parts @ segs"
  by (induction segs arbitrary: parts) auto

lemma px_of_parts_snoc: "px_of_parts (ps @ [s]) = px_join (px_of_parts ps) (px_parse s)"
  by (simp add: px_of_parts_def)

lemma px_of_parts_ok: "px_ok (px_of_parts ps)"
proof (induction ps rule: rev_induct)
  case (snoc s ps)
  then show ?case using px_parse_ok [of s] unfolding px_of_parts_snoc by (auto simp: px_join_def px_ok_def)
qed (simp add: px_of_parts_def px_ok_def)

lemma px_of_parts_tail: "w \<in> set (px_tail (px_of_parts ps)) \<Longrightarrow> \<exists>s \<in> set ps. w \<in> set (px_tail (px_parse s))"
proof (induction ps rule: rev_induct)
  case (snoc s ps)
  then show ?case unfolding px_of_parts_snoc by (auto simp: px_join_def split: if_splits)
qed (simp add: px_of_parts_def)

lemma px_of_parts_components: "\<forall>w \<in> set ws. component w \<Longrightarrow>
    px_of_parts (ps @ ws) = (px_of_parts ps)\<lparr>px_tail := px_tail (px_of_parts ps) @ ws\<rparr>"
proof (induction ws rule: rev_induct)
  case (snoc w ws)
  then show ?case
    using px_of_parts_snoc [of "ps @ ws" w] px_parse_component [of w] by (simp add: px_join_def)
qed simp

lemma normalize_path_ok: "px_ok (normalize_path path base_dir)"
  using px_of_parts_ok px_parse_ok by (simp add: normalize_path_def Let_def)

lemma px_parts_cases:
  assumes "px_ok p" "x \<in> set (px_parts p)"
  shows "component x \<and> x \<in> set (px_tail p) \<or> x \<in> {''/'', ''//''}"
  using assms by (auto simp: px_parts_def px_ok_def split: if_splits)

lemma normalize_path_no_up:
  assumes "px_ok base_dir" "''..'' \<notin> set (px_tail base_dir)"
  shows "''..'' \<notin> set (px_tail (normalize_path path base_dir))"
proof
  let ?base = "if \<not> px_is_absolute (px_parse path) then base_dir else px_parse ''/''"
  let ?parts = "norm_segments (px_parts (px_parse path)) (px_parts ?base)"
  assume "''..'' \<in> set (px_tail (normalize_path path base_dir))"
  then have "''..'' \<in> set (px_tail (px_of_parts ?parts))"
    by (auto simp: normalize_path_def Let_def px_parse_root split: if_splits)
  then obtain s where s: "s \<in> set ?parts" "''..'' \<in> set (px_tail (px_parse s))"
    using px_of_parts_tail by blast
  have base: "px_ok ?base" "''..'' \<notin> set (px_tail ?base)" 
    using assms px_parse_ok [of "''/''"] px_parse_root [of "''/''"] by simp_all
  from norm_segments_mem [OF s(1)]
  have "component s \<and> s \<noteq> ''..'' \<or> s \<in> {''/'', ''//''}"
    using px_parts_cases [OF base(1), of s] base(2) px_parts_cases [OF px_parse_ok, of s path] by auto
  then show False using s(2) px_parse_component [of s] px_parse_root [of s] by auto
qed

lemma normalize_path_str:
  assumes "px_ok p" "px_is_absolute p" "''..'' \<notin> set (px_tail p)"
  shows "normalize_path (px_str p) base_dir = p"
proof -
  have comp: "\<forall>w \<in> set (px_tail p). component w" using assms(1) by (simp add: px_ok_def)
  have r: "px_root p \<in> {''/'', ''//''}" using assms(1,2) by (auto simp: px_ok_def px_is_absolute_def)
  have parts: "px_parts p = px_root p # px_tail p" using assms(2) by (simp add: px_parts_def px_is_absolute_def)
  have "\<forall>w \<in> set (px_tail p). w \<noteq> [] \<and> w \<noteq> ''.'' \<and> w \<noteq> ''..''"
    using comp assms(3) unfolding component_def by blast
  moreover have "px_root p \<noteq> [] \<and> px_root p \<noteq> ''.'' \<and> px_root p \<noteq> ''..''"
    using r by (elim insertE) simp_all
  ultimately have "\<forall>w \<in> set (px_parts p). w \<noteq> [] \<and> w \<noteq> ''.'' \<and> w \<noteq> ''..''"
    unfolding parts by simp
  then have n: "norm_segments (px_parts p) [''/''] = [''/'', px_root p] @ px_tail p"
    using norm_segments_plain parts by simp
  have head: "px_of_parts [''/'', px_root p] = \<lparr>px_root = px_root p, px_tail = []\<rparr>"
    using r px_parse_root [OF r] px_parse_root [of "''/''"] unfolding px_of_parts_def px_join_def by (elim insertE) simp_all
  have "px_of_parts ([''/'', px_root p] @ px_tail p) = p"
    unfolding px_of_parts_components [OF comp] head by (cases p) simp
  then show ?thesis
    using px_parse_str [OF assms(1)] assms(2) n
    by (simp add: normalize_path_def Let_def px_parse_root px_parts_def [of "\<lparr>px_root = ''/'', px_tail = []\<rparr>"])
qed

lemma strip_Nil_iff: "py_strip s = [] \<longleftrightarrow> (\<forall>c \<in> set s. py_space c)"
proof -
  have "py_strip s = [] \<longleftrightarrow> (\<forall>c \<in> set (dropWhile py_space s). py_space c)"
    by (simp add: py_strip_def py_rstrip_def py_lstrip_def)
  also have "\<dots> \<longleftrightarrow> (\<forall>c \<in> set s. py_space c)"
    by (metis dropWhile_eq_Nil_conv hd_dropWhile hd_in_set set_dropWhileD)
  finally show ?thesis .
qed

lemma px_str_nonblank: "px_ok p \<Longrightarrow> px_is_absolute p \<Longrightarrow> py_strip (px_str p) \<noteq> []"
  by (auto simp: strip_Nil_iff px_str_def px_is_absolute_def px_ok_def py_space_def)

section \<open>Properties\<close>

lemma validate_accepts:
  assumes "validate_workspace_path path paths w = Inr s"
  defines "n \<equiv> normalize_path path (px_parse (workspace_root paths))"
  shows "s = px_str n" "is_within n (px_parse (workspace_root paths))"
    "w \<Longrightarrow> writable_roots paths \<noteq> [] \<Longrightarrow> \<exists>v \<in> set (writable_roots paths). is_within n (px_parse v)"
  using assms(1) unfolding validate_workspace_path_def n_def Let_def
  by (auto simp: list_ex_iff split: if_splits)

text \<open>C19. A validated path stays in the workspace: read as a path, it lies component by component under
  the workspace root and, when a writable location is asked for, under one of the writable roots; and
  if the root has no step up, neither has the path, so no later resolution of such steps leaves the
  root.\<close>

theorem validated_path_confined:
  assumes "validate_workspace_path path paths w = Inr s"
  shows "is_within (px_parse s) (px_parse (workspace_root paths))
    \<and> (w \<and> writable_roots paths \<noteq> [] \<longrightarrow> (\<exists>v \<in> set (writable_roots paths). is_within (px_parse s) (px_parse v)))
    \<and> (''..'' \<notin> set (px_tail (px_parse (workspace_root paths))) \<longrightarrow> ''..'' \<notin> set (px_tail (px_parse s)))"
  using validate_accepts [OF assms] normalize_path_no_up [OF px_parse_ok]
  by (simp add: px_parse_str normalize_path_ok)

text \<open>Validation is stable: under an absolute root without steps up, the text it returns is a path
  that validates to itself, so passing a path through the check twice is the same as once.\<close>

lemma validation_round_trip:
  assumes "validate_workspace_path path paths w = Inr s"
    and "px_is_absolute (px_parse (workspace_root paths))"
    and "''..'' \<notin> set (px_tail (px_parse (workspace_root paths)))"
  shows "validate_workspace_path s paths w = Inr s"
proof -
  let ?root = "px_parse (workspace_root paths)"
  let ?n = "normalize_path path ?root"
  note acc = validate_accepts [OF assms(1)]
  have abs: "px_is_absolute ?n" using acc(2) assms(2) by (simp add: is_within_def px_is_absolute_def)
  have same: "normalize_path s ?root = ?n"
    using normalize_path_str [OF normalize_path_ok abs] normalize_path_no_up [OF px_parse_ok assms(3)] acc(1) by simp
  have "py_strip s \<noteq> []" using px_str_nonblank [OF normalize_path_ok abs] acc(1) by simp
  then show ?thesis
    using acc same by (auto simp: validate_workspace_path_def Let_def list_ex_iff)
qed

text \<open>A step up at the top of a relative root is dropped instead of rejected.\<close>

lemma relative_root_step_up:
  "validate_workspace_path ''../../x'' \<lparr>workspace_root = ''work'', writable_roots = [], allow_symlink_escape = False\<rparr> False
   = Inr ''work/x''"
  by code_simp

section \<open>Witnesses\<close>

definition demo_paths :: WorkspacePaths where
  "demo_paths = \<lparr>workspace_root = ''/work'', writable_roots = [''/work/out''], allow_symlink_escape = False\<rparr>"

lemma demo_validated: "validate_workspace_path ''src/../out/./a'' demo_paths True = Inr ''/work/out/a''"
  by code_simp

lemma demo_rejected: "validate_workspace_path ''../etc'' demo_paths False = Inl Path_Escapes"
  by code_simp

theorem validated_path_confined_witness:
  "is_within (px_parse ''/work/out/a'') (px_parse (workspace_root demo_paths))"
  using validated_path_confined [OF demo_validated] by blast

lemma validation_round_trip_witness:
  "validate_workspace_path ''/work/out/a'' demo_paths True = Inr ''/work/out/a''"
proof (rule validation_round_trip [OF demo_validated])
  show "px_is_absolute (px_parse (workspace_root demo_paths))" by code_simp
  show "''..'' \<notin> set (px_tail (px_parse (workspace_root demo_paths)))" by code_simp
qed

end
