(* ===== verification/Execution_Lease.thy ===== *)
theory Execution_Lease
  imports Workspace_Paths
begin

text \<open>
  Execution leases (\<open>contracts/execution_lease.py\<close>, \<open>execution/lease.py\<close>): the run-scoped manager that
  acquires or attaches one workspace, reuses it and tears it down when it is closed. The backend is
  any object with some of the lease methods; it acts on a world of its own. What the teardown
  guarantees need of it, that only its release and detach methods record a teardown, is the locale
  \<open>lease_provider\<close>. Measured durations are left out of the receipts.
\<close>

section \<open>Contracts\<close>

datatype LeaseOwnership = RUNTIME_OWNED | HOST_OWNED

datatype LeaseState = L_PENDING | L_READY | L_EXPIRED | L_RELEASED | L_DETACHED | L_FAILED

primrec lease_state_value :: "LeaseState \<Rightarrow> string" where
  "lease_state_value L_PENDING = ''pending''"
| "lease_state_value L_READY = ''ready''"
| "lease_state_value L_EXPIRED = ''expired''"
| "lease_state_value L_RELEASED = ''released''"
| "lease_state_value L_DETACHED = ''detached''"
| "lease_state_value L_FAILED = ''failed''"

datatype LeaseLifecyclePhase = PH_QUEUE | PH_ACQUIRE | PH_READY | PH_DETACH | PH_RELEASE | PH_TEARDOWN_PENDING

record ExecutionLeaseRef =
  lr_lease_id :: string
  lr_generation :: string
  lr_backend_id :: string
  lr_ownership :: LeaseOwnership
  lr_workspace_id :: "string option"

definition lease_fences :: "ExecutionLeaseRef \<Rightarrow> ExecutionLeaseRef \<Rightarrow> bool" where
  "lease_fences r other = (lr_lease_id r = lr_lease_id other \<and> lr_generation r \<noteq> lr_generation other)"

record ExecutionLeaseRequest =
  lq_request_id :: string
  lq_backend_id :: string
  lq_workspace_id :: "string option"
  lq_ownership :: LeaseOwnership
  lq_attach_ref :: "ExecutionLeaseRef option"
  lq_ttl_seconds :: "int option"
  lq_metadata :: pydict

datatype CapabilityState = SUPPORTED | UNSUPPORTED | DEGRADED | UNKNOWN

datatype CapabilityName =
    CAP_COMMAND | CAP_FILE_READ | CAP_FILE_WRITE | CAP_EVENT | CAP_CONTROL | CAP_ARTIFACT | CAP_RECONNECT
  | CAP_TIMEOUT | CAP_OUTPUT | CAP_RESOURCE | CAP_TEARDOWN

record CapabilityStatus =
  cs_state :: CapabilityState
  cs_reason :: "string option"

record ProgramInfo =
  pg_name :: string
  pg_version :: "string option"

record ExecutionCapabilitySnapshot =
  sn_backend_id :: string
  sn_environment_revision :: string
  sn_lease_generation :: "string option"
  sn_observed_at :: "string option"
  sn_digest :: "string option"
  sn_capabilities :: "(CapabilityName \<times> CapabilityStatus) list"
  sn_programs :: "ProgramInfo list"
  sn_limitations :: "string list"
  sn_metadata :: pydict

record ExecutionLease =
  le_ref :: ExecutionLeaseRef
  le_state :: LeaseState
  le_expires_at :: "string option"
  le_paths :: "WorkspacePaths option"
  le_capabilities :: "ExecutionCapabilitySnapshot option"
  le_metadata :: pydict

definition is_usable :: "ExecutionLease \<Rightarrow> bool" where
  "is_usable l = (le_state l = L_READY)"

record LeaseReceipt =
  rc_lease_id :: string
  rc_generation :: string
  rc_phase :: LeaseLifecyclePhase
  rc_ownership :: LeaseOwnership
  rc_outcome :: string
  rc_reason_code :: "string option"

section \<open>The backend as the manager sees it\<close>

text \<open>What a lease call gives back: a lease, some other object (with the text the manager reads of its
  state), or an exception. A teardown call gives the name of the exception it raised, if any. A
  method the backend lacks is \<open>None\<close>.\<close>

datatype lease_reply = Lease_Reply ExecutionLease | Other_Reply string | Raised_Reply string

record 'w lease_backend =
  lb_acquire :: "(ExecutionLeaseRequest \<Rightarrow> 'w \<Rightarrow> lease_reply \<times> 'w) option"
  lb_attach :: "(ExecutionLeaseRef \<Rightarrow> 'w \<Rightarrow> lease_reply \<times> 'w) option"
  lb_release :: "(ExecutionLeaseRef \<Rightarrow> 'w \<Rightarrow> string option \<times> 'w) option"
  lb_detach :: "(ExecutionLeaseRef \<Rightarrow> 'w \<Rightarrow> string option \<times> 'w) option"

definition lease_capable :: "'w lease_backend \<Rightarrow> bool" where
  "lease_capable b = (lb_acquire b \<noteq> None \<and> lb_release b \<noteq> None)"

section \<open>The manager\<close>

record ExecutionLeaseManager =
  lm_lease :: "ExecutionLease option"
  lm_request_id :: "string option"
  lm_closed :: bool
  lm_receipts :: "LeaseReceipt list"

definition new_manager :: ExecutionLeaseManager where
  "new_manager = \<lparr>lm_lease = None, lm_request_id = None, lm_closed = False, lm_receipts = []\<rparr>"

datatype lease_error =
    Manager_Closed
  | Unsupported_Leases
  | Non_Lease_Result
  | Lease_Not_Ready string LeaseState
  | Cannot_Attach
  | Attach_Failed_Closed string string
  | Backend_Raised string

definition record_receipt ::
  "ExecutionLeaseRef \<Rightarrow> LeaseLifecyclePhase \<Rightarrow> string \<Rightarrow> string option \<Rightarrow> ExecutionLeaseManager \<Rightarrow> ExecutionLeaseManager" where
  "record_receipt ref phase outcome reason m =
     m\<lparr>lm_receipts := lm_receipts m @ [\<lparr>rc_lease_id = lr_lease_id ref, rc_generation = lr_generation ref,
        rc_phase = phase, rc_ownership = lr_ownership ref, rc_outcome = outcome, rc_reason_code = reason\<rparr>]\<rparr>"

text \<open>The backend call of an acquisition; a missing \<open>attach_lease\<close> raises \<open>AttributeError\<close>.\<close>

definition request_lease :: "'w lease_backend \<Rightarrow> ExecutionLeaseRequest \<Rightarrow> 'w \<Rightarrow> lease_reply \<times> 'w" where
  "request_lease b q w =
     (case lq_attach_ref q of
        Some ref \<Rightarrow> (case lb_attach b of None \<Rightarrow> (Raised_Reply ''AttributeError'', w) | Some f \<Rightarrow> f ref w)
      | None \<Rightarrow> (case lb_acquire b of None \<Rightarrow> (Raised_Reply ''AttributeError'', w) | Some f \<Rightarrow> f q w))"

definition acquire_or_attach ::
  "'w lease_backend \<Rightarrow> ExecutionLeaseRequest \<Rightarrow> ExecutionLeaseManager \<Rightarrow> 'w \<Rightarrow>
   (lease_error + ExecutionLease) \<times> ExecutionLeaseManager \<times> 'w" where
  "acquire_or_attach b q m w =
     (if lm_closed m then (Inl Manager_Closed, m, w)
      else if lm_lease m \<noteq> None \<and> lm_request_id m = Some (lq_request_id q) then (Inr (the (lm_lease m)), m, w)
      else if \<not> lease_capable b then (Inl Unsupported_Leases, m, w)
      else
        (let phase = (if lq_attach_ref q = None then PH_ACQUIRE else PH_READY);
             (reply, w1) = request_lease b q w
         in case reply of
              Raised_Reply e \<Rightarrow> (Inl (Backend_Raised e), m, w1)
            | Other_Reply _ \<Rightarrow> (Inl Non_Lease_Result, m, w1)
            | Lease_Reply lease \<Rightarrow>
                (let m1 = record_receipt (le_ref lease) phase (lease_state_value (le_state lease)) None m
                 in if \<not> is_usable lease
                    then (Inl (Lease_Not_Ready (lr_lease_id (le_ref lease)) (le_state lease)),
                          record_receipt (le_ref lease) PH_READY ''not_usable''
                            (Some (lease_state_value (le_state lease))) m1, w1)
                    else (Inr lease, m1\<lparr>lm_lease := Some lease, lm_request_id := Some (lq_request_id q)\<rparr>, w1))))"

definition attach_by_ref ::
  "'w lease_backend \<Rightarrow> ExecutionLeaseRef \<Rightarrow> ExecutionLeaseManager \<Rightarrow> 'w \<Rightarrow>
   (lease_error + ExecutionLease) \<times> ExecutionLeaseManager \<times> 'w" where
  "attach_by_ref b ref m w =
     (if \<not> lease_capable b then (Inl Cannot_Attach, m, w)
      else
        (case lb_attach b of
           None \<Rightarrow> (Inl Cannot_Attach, m, w)
         | Some f \<Rightarrow>
             (let (reply, w1) = f ref w;
                  stale = (\<lambda>state. (Inl (Attach_Failed_Closed (lr_lease_id ref) state),
                    record_receipt ref PH_READY ''attach_stale'' (Some state) m, w1))
              in case reply of
                   Raised_Reply e \<Rightarrow> (Inl (Backend_Raised e), m, w1)
                 | Other_Reply state \<Rightarrow> stale state
                 | Lease_Reply lease \<Rightarrow>
                     if \<not> is_usable lease then stale (lease_state_value (le_state lease))
                     else (Inr lease,
                       (record_receipt (le_ref lease) PH_READY (lease_state_value (le_state lease)) None m)
                         \<lparr>lm_lease := Some lease\<rparr>, w1))))"

definition close_lease :: "'w lease_backend \<Rightarrow> ExecutionLeaseManager \<Rightarrow> 'w \<Rightarrow> ExecutionLeaseManager \<times> 'w" where
  "close_lease b m w =
     (if lm_closed m then (m, w)
      else
        (let m1 = m\<lparr>lm_closed := True\<rparr>
         in case lm_lease m of
              None \<Rightarrow> (m1, w)
            | Some lease \<Rightarrow>
                (let ref = le_ref lease; host_owned = (lr_ownership ref = HOST_OWNED);
                     phase = (if host_owned then PH_DETACH else PH_RELEASE)
                 in case (if host_owned then lb_detach b else lb_release b) of
                      None \<Rightarrow> (record_receipt ref PH_TEARDOWN_PENDING ''no_teardown_method'' None m1, w)
                    | Some f \<Rightarrow>
                        (let (raised, w1) = f ref w
                         in case raised of
                              None \<Rightarrow> (record_receipt ref phase ''ok'' None m1, w1)
                            | Some e \<Rightarrow> (record_receipt ref PH_TEARDOWN_PENDING ''teardown_error'' (Some e) m1, w1)))))"

section \<open>Histories of one manager\<close>

datatype lease_op = Lease_Acquire ExecutionLeaseRequest | Lease_Attach ExecutionLeaseRef | Lease_Close

fun lease_step :: "'w lease_backend \<Rightarrow> lease_op \<Rightarrow> ExecutionLeaseManager \<times> 'w \<Rightarrow> ExecutionLeaseManager \<times> 'w" where
  "lease_step b (Lease_Acquire q) (m, w) = snd (acquire_or_attach b q m w)"
| "lease_step b (Lease_Attach r) (m, w) = snd (attach_by_ref b r m w)"
| "lease_step b Lease_Close (m, w) = close_lease b m w"

definition lease_run :: "'w lease_backend \<Rightarrow> lease_op list \<Rightarrow> ExecutionLeaseManager \<times> 'w \<Rightarrow> ExecutionLeaseManager \<times> 'w" where
  "lease_run b ops = fold (lease_step b) ops"

lemma record_receipt_fields [simp]:
  "lm_lease (record_receipt r p out e m) = lm_lease m"
  "lm_request_id (record_receipt r p out e m) = lm_request_id m"
  "lm_closed (record_receipt r p out e m) = lm_closed m"
  by (simp_all add: record_receipt_def)

definition manager_ok :: "ExecutionLeaseManager \<Rightarrow> bool" where
  "manager_ok m = (\<forall>l. lm_lease m = Some l \<longrightarrow> is_usable l)"

lemma lease_step_manager_ok: "manager_ok m \<Longrightarrow> manager_ok (fst (lease_step b op (m, w)))"
  by (cases op) (auto simp: manager_ok_def acquire_or_attach_def attach_by_ref_def close_lease_def Let_def
    split: if_splits lease_reply.splits option.splits prod.splits)

lemma lease_run_manager_ok: "manager_ok (fst mw) \<Longrightarrow> manager_ok (fst (lease_run b ops mw))"
proof (induction ops arbitrary: mw)
  case (Cons op ops)
  then show ?case using lease_step_manager_ok [of "fst mw" b op "snd mw"] by (simp add: lease_run_def)
qed (simp add: lease_run_def)

section \<open>Teardown\<close>

locale lease_provider =
  fixes b :: "'w lease_backend"
    and released detached :: "'w \<Rightarrow> ExecutionLeaseRef list"
  assumes acquire_tears_nothing: "lb_acquire b = Some f \<Longrightarrow>
      released (snd (f q w)) = released w \<and> detached (snd (f q w)) = detached w"
    and attach_tears_nothing: "lb_attach b = Some g \<Longrightarrow>
      released (snd (g r w)) = released w \<and> detached (snd (g r w)) = detached w"
    and release_recorded: "lb_release b = Some h \<Longrightarrow>
      released (snd (h r w)) = released w @ [r] \<and> detached (snd (h r w)) = detached w"
    and detach_recorded: "lb_detach b = Some h \<Longrightarrow>
      released (snd (h r w)) = released w \<and> detached (snd (h r w)) = detached w @ [r]"
begin

definition torn :: "'w \<Rightarrow> ExecutionLeaseRef list \<times> ExecutionLeaseRef list" where
  "torn w = (released w, detached w)"

lemma request_lease_torn: "torn (snd (request_lease b q w)) = torn w"
  using acquire_tears_nothing attach_tears_nothing by (auto simp: request_lease_def torn_def split: option.splits)

lemma acquire_torn:
  "torn (snd (snd (acquire_or_attach b q m w))) = torn w"
  "lm_closed (fst (snd (acquire_or_attach b q m w))) = lm_closed m"
  using request_lease_torn [of q w]
  by (auto simp: acquire_or_attach_def Let_def split: if_splits lease_reply.splits prod.splits)

lemma attach_torn:
  "torn (snd (snd (attach_by_ref b r m w))) = torn w"
  "lm_closed (fst (snd (attach_by_ref b r m w))) = lm_closed m"
proof -
  have "torn (snd (g r w)) = torn w" if "lb_attach b = Some g" for g
    using attach_tears_nothing [OF that] by (simp add: torn_def)
  then show "torn (snd (snd (attach_by_ref b r m w))) = torn w"
    "lm_closed (fst (snd (attach_by_ref b r m w))) = lm_closed m"
    by (fastforce simp: attach_by_ref_def Let_def split: if_splits lease_reply.splits prod.splits option.splits)+
qed

text \<open>What one close adds to the teardown records.\<close>

definition close_adds :: "ExecutionLeaseManager \<Rightarrow> ExecutionLeaseRef list \<times> ExecutionLeaseRef list" where
  "close_adds m =
     (if lm_closed m then ([], [])
      else (case lm_lease m of
              None \<Rightarrow> ([], [])
            | Some l \<Rightarrow>
                if lr_ownership (le_ref l) = HOST_OWNED
                then ([], if lb_detach b = None then [] else [le_ref l])
                else (if lb_release b = None then [] else [le_ref l], [])))"

lemma close_torn:
  "torn (snd (close_lease b m w)) = (released w @ fst (close_adds m), detached w @ snd (close_adds m))"
  "lm_closed (fst (close_lease b m w))"
  using release_recorded detach_recorded
  by (auto simp: close_lease_def close_adds_def torn_def Let_def split_beta split: option.splits)

lemma close_adds_owner:
  "length (fst (close_adds m)) + length (snd (close_adds m)) \<le> 1"
  "r \<in> set (fst (close_adds m)) \<Longrightarrow> lr_ownership r = RUNTIME_OWNED"
  "r \<in> set (snd (close_adds m)) \<Longrightarrow> lr_ownership r = HOST_OWNED"
  by (auto simp: close_adds_def split: option.splits if_splits) (metis LeaseOwnership.exhaust)

lemma closed_run_torn:
  "lm_closed (fst mw) \<Longrightarrow> torn (snd (lease_run b ops mw)) = torn (snd mw) \<and> lm_closed (fst (lease_run b ops mw))"
proof (induction ops arbitrary: mw)
  case (Cons op ops)
  obtain m w where mw: "mw = (m, w)" by fastforce
  have "torn (snd (lease_step b op mw)) = torn w \<and> lm_closed (fst (lease_step b op mw))"
    using Cons.prems mw acquire_torn attach_torn by (cases op) (simp_all add: close_lease_def)
  with Cons.IH [of "lease_step b op mw"] mw show ?case by (simp add: lease_run_def)
qed (simp add: lease_run_def)

lemma run_torn:
  "\<exists>rs ds. torn (snd (lease_run b ops (m, w))) = (released w @ rs, detached w @ ds)
    \<and> length rs + length ds \<le> 1
    \<and> (\<forall>r \<in> set rs. lr_ownership r = RUNTIME_OWNED) \<and> (\<forall>r \<in> set ds. lr_ownership r = HOST_OWNED)
    \<and> (\<not> lm_closed (fst (lease_run b ops (m, w))) \<longrightarrow> rs = [] \<and> ds = [])"
proof (induction ops arbitrary: m w)
  case Nil
  then show ?case by (auto simp: lease_run_def torn_def)
next
  case (Cons op ops)
  obtain m1 w1 where s: "lease_step b op (m, w) = (m1, w1)" by fastforce
  have run: "lease_run b (op # ops) (m, w) = lease_run b ops (m1, w1)" using s by (simp add: lease_run_def)
  show ?case
  proof (cases "op = Lease_Close")
    case True
    with s close_torn [of m w] have "torn w1 = (released w @ fst (close_adds m), detached w @ snd (close_adds m))" "lm_closed m1"
      by simp_all
    with closed_run_torn [of "(m1, w1)" ops]
    have "torn (snd (lease_run b (op # ops) (m, w))) = (released w @ fst (close_adds m), detached w @ snd (close_adds m))"
      "lm_closed (fst (lease_run b (op # ops) (m, w)))" unfolding run by simp_all
    with close_adds_owner show ?thesis by blast
  next
    case False
    then have "torn w1 = torn w" using s acquire_torn(1) attach_torn(1) by (cases op) (metis lease_step.simps snd_conv)+
    then show ?thesis using Cons.IH [of m1 w1] unfolding run by (simp add: torn_def)
  qed
qed

end

end
