(* ===== verification/Execution_Jobs.thy ===== *)
theory Execution_Jobs
  imports Execution_Lease
begin

text \<open>
  Reconnectable execution jobs (\<open>contracts/execution_job.py\<close>, \<open>execution/jobs.py\<close>): the observer that
  drops duplicates and stale generations, the session that starts a job, pages through its events
  and resolves the terminal snapshot, and the stop helper. The backend is a record of its job
  methods on a world of its own, any of which may raise; the host's event callback is the list of
  events handed to it. Measured durations are left out of the timings.
\<close>

section \<open>Contracts\<close>

record ExecutionIdentity =
  id_backend_id :: string
  id_run_id :: string
  id_attempt_id :: string
  id_tool_call_id :: string
  id_request_id :: string

datatype ExecutionTerminalState = T_COMPLETED | T_TIMED_OUT | T_FAILED

record ExecutionBounds =
  bd_max_output_chars :: int
  bd_max_bytes :: "int option"

record ArtifactRef =
  ar_artifact_id :: string
  ar_digest :: string
  ar_size_bytes :: int
  ar_media_type :: "string option"
  ar_backend_id :: "string option"
  ar_execution_id :: "string option"

record ExecutionCommandRequest =
  cq_identity :: ExecutionIdentity
  cq_command :: string
  cq_cwd :: string
  cq_timeout_seconds :: int
  cq_max_output_chars :: int

record ExecutionCommandResult =
  cr_identity :: ExecutionIdentity
  cr_terminal_state :: ExecutionTerminalState
  cr_exit_code :: int
  cr_timed_out :: bool
  cr_stdout :: string
  cr_stderr :: string
  cr_truncated :: bool
  cr_bounds :: ExecutionBounds
  cr_artifact :: "ArtifactRef option"

datatype ExecutionJobState =
    J_QUEUED | J_STARTING | J_RUNNING | J_COMPLETED | J_FAILED | J_TIMED_OUT | J_INDETERMINATE | J_LOST

datatype ExecutionEventKind = EV_PROGRESS | EV_OUTPUT | EV_ERROR | EV_TERMINAL

datatype ExecutionControlKind = CANCEL_COOPERATIVE | CTL_STOP | CTL_TEARDOWN

datatype ExecutionReasonCode =
    RS_OK | RS_QUEUE_TIMEOUT | RS_START_TIMEOUT | RS_IDLE_TIMEOUT | RS_EXECUTION_TIMEOUT | RS_CONTROL_TIMEOUT
  | RS_TEARDOWN_TIMEOUT | RS_TRANSPORT_LOST | RS_INDETERMINATE_DISPATCH | RS_STALE_GENERATION
  | RS_DUPLICATE_TERMINAL | RS_PROTOCOL_VIOLATION | RS_UNSUPPORTED

record ExecutionHandle =
  eh_job_id :: string
  eh_idempotency_key :: string
  eh_backend_id :: string
  eh_execution_generation :: string
  eh_lease_id :: "string option"

definition handle_fences :: "ExecutionHandle \<Rightarrow> ExecutionHandle \<Rightarrow> bool" where
  "handle_fences h other =
     (eh_job_id h = eh_job_id other \<and> eh_execution_generation h \<noteq> eh_execution_generation other)"

record ExecutionEvent =
  ee_execution_generation :: string
  ee_sequence :: int
  ee_kind :: ExecutionEventKind
  ee_text :: string
  ee_terminal :: bool
  ee_metadata :: pydict

definition identity_key :: "ExecutionEvent \<Rightarrow> string \<times> int" where
  "identity_key e = (ee_execution_generation e, ee_sequence e)"

definition conflicts_with :: "ExecutionEvent \<Rightarrow> ExecutionEvent \<Rightarrow> bool" where
  "conflicts_with e other =
     (identity_key e = identity_key other
      \<and> (ee_kind e \<noteq> ee_kind other \<or> ee_text e \<noteq> ee_text other \<or> ee_terminal e \<noteq> ee_terminal other))"

record ExecutionEventCursor =
  cu_job_id :: string
  cu_execution_generation :: string
  cu_last_sequence :: int

record ExecutionEventPage =
  pg_events :: "ExecutionEvent list"
  pg_next_cursor :: ExecutionEventCursor
  pg_gap_detected :: bool
  pg_complete :: bool

record ExecutionTerminalSnapshot =
  ts_handle :: ExecutionHandle
  ts_state :: ExecutionJobState
  ts_exit_code :: "int option"
  ts_result :: "ExecutionCommandResult option"
  ts_indeterminate :: bool
  ts_reason_code :: "ExecutionReasonCode option"

record ExecutionControlRequest =
  xq_handle :: ExecutionHandle
  xq_kind :: ExecutionControlKind

record ExecutionControlReceipt =
  xr_handle :: ExecutionHandle
  xr_kind :: ExecutionControlKind
  xr_accepted :: bool
  xr_applied :: bool
  xr_execution_terminal :: bool
  xr_reason_code :: "ExecutionReasonCode option"

record TeardownReceipt =
  td_handle :: ExecutionHandle
  td_ownership :: LeaseOwnership
  td_requested :: bool
  td_confirmed :: bool
  td_reason_code :: "ExecutionReasonCode option"

section \<open>The observer\<close>

definition fence_stale :: "ExecutionHandle \<Rightarrow> string \<Rightarrow> bool" where
  "fence_stale h generation = (generation \<noteq> eh_execution_generation h)"

definition initial_cursor :: "ExecutionHandle \<Rightarrow> ExecutionEventCursor" where
  "initial_cursor h = \<lparr>cu_job_id = eh_job_id h, cu_execution_generation = eh_execution_generation h,
     cu_last_sequence = -1\<rparr>"

record JobObserver =
  jo_handle :: ExecutionHandle
  jo_seen :: "(string \<times> int) set"
  jo_cursor :: ExecutionEventCursor
  jo_needs_snapshot :: bool
  jo_complete :: bool
  jo_terminal :: "ExecutionTerminalSnapshot option"

definition new_observer :: "ExecutionHandle \<Rightarrow> JobObserver" where
  "new_observer h = \<lparr>jo_handle = h, jo_seen = {}, jo_cursor = initial_cursor h, jo_needs_snapshot = False,
     jo_complete = False, jo_terminal = None\<rparr>"

fun ingest_events :: "ExecutionEvent list \<Rightarrow> ExecutionEvent list \<times> JobObserver \<Rightarrow> ExecutionEvent list \<times> JobObserver" where
  "ingest_events [] (fresh, ob) = (fresh, ob)"
| "ingest_events (e # es) (fresh, ob) =
     (if fence_stale (jo_handle ob) (ee_execution_generation e) then ingest_events es (fresh, ob)
      else if identity_key e \<in> jo_seen ob then ingest_events es (fresh, ob)
      else ingest_events es (fresh @ [e],
             ob\<lparr>jo_seen := insert (identity_key e) (jo_seen ob), jo_complete := jo_complete ob \<or> ee_terminal e\<rparr>))"

definition ingest :: "ExecutionEventPage \<Rightarrow> JobObserver \<Rightarrow> ExecutionEvent list \<times> JobObserver" where
  "ingest page ob =
     (let ob1 = (if pg_gap_detected page then ob\<lparr>jo_needs_snapshot := True\<rparr> else ob);
          (fresh, ob2) = ingest_events (pg_events page) ([], ob1);
          ob3 = ob2\<lparr>jo_cursor := pg_next_cursor page\<rparr>
      in (fresh, if pg_complete page then ob3\<lparr>jo_complete := True\<rparr> else ob3))"

datatype terminal_conflict = TerminalConflict string

definition resolve_terminal ::
  "ExecutionTerminalSnapshot \<Rightarrow> JobObserver \<Rightarrow> (terminal_conflict + ExecutionTerminalSnapshot) \<times> JobObserver" where
  "resolve_terminal snapshot ob =
     (if fence_stale (jo_handle ob) (eh_execution_generation (ts_handle snapshot))
      then (Inr (case jo_terminal ob of None \<Rightarrow> snapshot | Some prev \<Rightarrow> prev), ob)
      else if (case jo_terminal ob of None \<Rightarrow> False
               | Some prev \<Rightarrow> ts_state prev \<noteq> ts_state snapshot \<or> ts_exit_code prev \<noteq> ts_exit_code snapshot)
      then (Inl (TerminalConflict (eh_job_id (ts_handle snapshot))), ob)
      else (Inr snapshot, ob\<lparr>jo_terminal := Some snapshot, jo_complete := True\<rparr>))"

section \<open>Recovery state\<close>

text \<open>Serialisation of the handle and the cursor is a parameter.\<close>

record 't recovery_codec =
  dump_handle :: "ExecutionHandle \<Rightarrow> 't"
  dump_cursor :: "ExecutionEventCursor \<Rightarrow> 't"
  validate_handle :: "'t \<Rightarrow> ExecutionHandle option"
  validate_cursor :: "'t \<Rightarrow> ExecutionEventCursor option"

definition persist_job_recovery ::
  "'t recovery_codec \<Rightarrow> ExecutionHandle \<Rightarrow> ExecutionEventCursor \<Rightarrow> (string \<times> 't) list" where
  "persist_job_recovery c h cur = [(''handle'', dump_handle c h), (''cursor'', dump_cursor c cur)]"

definition restore_job_recovery ::
  "'t recovery_codec \<Rightarrow> (string \<times> 't) list \<Rightarrow> (ExecutionHandle \<times> ExecutionEventCursor) option" where
  "restore_job_recovery c raw =
     (case map_of raw ''handle'' of
        None \<Rightarrow> None
      | Some rh \<Rightarrow>
          (case validate_handle c rh of
             None \<Rightarrow> None
           | Some h \<Rightarrow>
               (case map_of raw ''cursor'' of
                  None \<Rightarrow> None
                | Some rc \<Rightarrow> (case validate_cursor c rc of None \<Rightarrow> None | Some cur \<Rightarrow> Some (h, cur)))))"

section \<open>Sessions\<close>

text \<open>An exception of the execution family carries its code; any other exception its text.\<close>

datatype job_exception =
    Execution_Error string | Indeterminate_Start string | Terminal_Conflict_Error string | Other_Exception string

fun is_execution_error :: "job_exception \<Rightarrow> bool" where
  "is_execution_error (Execution_Error _) = True"
| "is_execution_error (Indeterminate_Start _) = True"
| "is_execution_error _ = False"

record 'w job_backend =
  jk_start :: "ExecutionCommandRequest \<Rightarrow> 'w \<Rightarrow> (job_exception + ExecutionHandle) \<times> 'w"
  jk_lookup :: "string \<Rightarrow> 'w \<Rightarrow> (job_exception + ExecutionHandle option) \<times> 'w"
  jk_observe :: "ExecutionHandle \<Rightarrow> ExecutionEventCursor \<Rightarrow> 'w \<Rightarrow> (job_exception + ExecutionEventPage) \<times> 'w"
  jk_snapshot :: "ExecutionHandle \<Rightarrow> 'w \<Rightarrow> (job_exception + ExecutionTerminalSnapshot) \<times> 'w"
  jk_control :: "ExecutionControlRequest \<Rightarrow> 'w \<Rightarrow> (job_exception + ExecutionControlReceipt) \<times> 'w"
  jk_teardown :: "ExecutionHandle \<Rightarrow> 'w \<Rightarrow> (job_exception + TeardownReceipt) \<times> 'w"

record JobStageTiming =
  jt_phase :: string
  jt_reason_code :: "ExecutionReasonCode option"

type_synonym timings = "JobStageTiming list"

definition record_timing :: "string \<Rightarrow> ExecutionReasonCode option \<Rightarrow> timings \<Rightarrow> timings" where
  "record_timing phase reason ts = ts @ [\<lparr>jt_phase = phase, jt_reason_code = reason\<rparr>]"

definition session_start ::
  "'w job_backend \<Rightarrow> ExecutionCommandRequest \<Rightarrow> timings \<Rightarrow> 'w \<Rightarrow> (job_exception + ExecutionHandle) \<times> timings \<times> 'w" where
  "session_start k q ts w =
     (let key = id_request_id (cq_identity q); (started, w1) = jk_start k q w
      in case started of
           Inr h \<Rightarrow> (Inr h, record_timing ''start'' None ts, w1)
         | Inl e \<Rightarrow>
             if \<not> is_execution_error e then (Inl e, ts, w1)
             else
               (let (found, w2) = jk_lookup k key w1
                in case found of
                     Inl e2 \<Rightarrow> (Inl e2, ts, w2)
                   | Inr (Some h) \<Rightarrow> (Inr h, record_timing ''start'' (Some RS_TRANSPORT_LOST) ts, w2)
                   | Inr None \<Rightarrow> (Inl (Indeterminate_Start key),
                       record_timing ''start'' (Some RS_INDETERMINATE_DISPATCH) ts, w2)))"

record 'w paging =
  pa_observer :: JobObserver
  pa_cursor :: ExecutionEventCursor
  pa_first_recorded :: bool
  pa_delivered :: "ExecutionEvent list"
  pa_timings :: timings
  pa_world :: 'w

text \<open>The events of one page reach the callback; the first one ever is timed.\<close>

definition deliver :: "ExecutionEvent list \<Rightarrow> 'w paging \<Rightarrow> 'w paging" where
  "deliver fresh p =
     (if fresh = [] then p
      else p\<lparr>pa_timings := (if pa_first_recorded p then pa_timings p else record_timing ''first_output'' None (pa_timings p)),
             pa_first_recorded := True, pa_delivered := pa_delivered p @ fresh\<rparr>)"

text \<open>The loop \<open>while pages < max_pages\<close>, by the pages still allowed; an exception outside the
  execution family leaves it.\<close>

fun observe_pages ::
  "'w job_backend \<Rightarrow> ExecutionHandle \<Rightarrow> nat \<Rightarrow> 'w paging \<Rightarrow> job_exception option \<times> 'w paging" where
  "observe_pages k h 0 p = (None, p)"
| "observe_pages k h (Suc pages_left) p =
     (let (seen, w1) = jk_observe k h (pa_cursor p) (pa_world p); p1 = p\<lparr>pa_world := w1\<rparr>
      in case seen of
           Inl e \<Rightarrow>
             if is_execution_error e
             then (None, p1\<lparr>pa_timings := record_timing ''observe'' (Some RS_TRANSPORT_LOST) (pa_timings p1)\<rparr>)
             else (Some e, p1)
         | Inr page \<Rightarrow>
             (let (fresh, ob) = ingest page (pa_observer p1);
                  p2 = (deliver fresh p1)\<lparr>pa_observer := ob, pa_cursor := jo_cursor ob\<rparr>
              in if jo_needs_snapshot ob \<or> pg_complete page \<or> jo_complete ob then (None, p2)
                 else if pg_events page = [] then (None, p2)
                 else observe_pages k h pages_left p2))"

definition observe_to_terminal ::
  "'w job_backend \<Rightarrow> ExecutionHandle \<Rightarrow> ExecutionEventCursor option \<Rightarrow> nat \<Rightarrow> timings \<Rightarrow> 'w \<Rightarrow>
   (job_exception + ExecutionTerminalSnapshot) \<times> ExecutionEvent list \<times> timings \<times> 'w" where
  "observe_to_terminal k h start_cursor max_pages ts w =
     (let cursor = (case start_cursor of None \<Rightarrow> initial_cursor h | Some c \<Rightarrow> c);
          (raised, p) = observe_pages k h max_pages
            \<lparr>pa_observer = new_observer h, pa_cursor = cursor, pa_first_recorded = False, pa_delivered = [],
             pa_timings = ts, pa_world = w\<rparr>
      in case raised of
           Some e \<Rightarrow> (Inl e, pa_delivered p, pa_timings p, pa_world p)
         | None \<Rightarrow>
             (let (snap, w1) = jk_snapshot k h (pa_world p)
              in case snap of
                   Inl e \<Rightarrow> (Inl e, pa_delivered p, pa_timings p, w1)
                 | Inr snapshot \<Rightarrow>
                     (let ts1 = record_timing ''terminal'' (ts_reason_code snapshot) (pa_timings p)
                      in case fst (resolve_terminal snapshot (pa_observer p)) of
                           Inl (TerminalConflict j) \<Rightarrow> (Inl (Terminal_Conflict_Error j), pa_delivered p, ts1, w1)
                         | Inr s \<Rightarrow> (Inr s, pa_delivered p, ts1, w1))))"

record JobStopOutcome =
  so_control :: ExecutionControlReceipt
  so_teardown :: "TeardownReceipt option"

definition teardown_confirmed :: "JobStopOutcome \<Rightarrow> bool" where
  "teardown_confirmed out = (case so_teardown out of None \<Rightarrow> False | Some t \<Rightarrow> td_confirmed t)"

definition stop_job ::
  "'w job_backend \<Rightarrow> ExecutionHandle \<Rightarrow> ExecutionControlKind \<Rightarrow> LeaseOwnership \<Rightarrow> bool \<Rightarrow> 'w \<Rightarrow>
   (job_exception + JobStopOutcome) \<times> 'w" where
  "stop_job k h kind ownership with_teardown w =
     (let (ctl, w1) = jk_control k \<lparr>xq_handle = h, xq_kind = kind\<rparr> w
      in case ctl of
           Inl e \<Rightarrow> (Inl e, w1)
         | Inr receipt \<Rightarrow>
             if with_teardown \<and> ownership = RUNTIME_OWNED
             then (let (td, w2) = jk_teardown k h w1
                   in case td of
                        Inl e \<Rightarrow> (Inl e, w2)
                      | Inr t \<Rightarrow> (Inr \<lparr>so_control = receipt, so_teardown = Some t\<rparr>, w2))
             else (Inr \<lparr>so_control = receipt, so_teardown = None\<rparr>, w1))"

section \<open>What the observer lets through\<close>

text \<open>The reference: the events of the current generation whose identity was not seen before.\<close>

fun first_by_key :: "(string \<times> int) set \<Rightarrow> ExecutionEvent list \<Rightarrow> ExecutionEvent list" where
  "first_by_key seen [] = []"
| "first_by_key seen (e # es) =
     (if identity_key e \<in> seen then first_by_key seen es
      else e # first_by_key (insert (identity_key e) seen) es)"

definition in_generation :: "ExecutionHandle \<Rightarrow> ExecutionEvent list \<Rightarrow> ExecutionEvent list" where
  "in_generation h es = filter (\<lambda>e. ee_execution_generation e = eh_execution_generation h) es"

lemma first_by_key_append:
  "first_by_key S (xs @ ys) = first_by_key S xs @ first_by_key (S \<union> identity_key ` set xs) ys"
  by (induction S xs rule: first_by_key.induct) (auto simp: insert_absorb)

lemma first_by_key_keys: "identity_key ` set (first_by_key S xs) = identity_key ` set xs - S"
  by (induction S xs rule: first_by_key.induct) auto

lemma first_by_key_distinct: "distinct (map identity_key (first_by_key S xs))"
proof (induction S xs rule: first_by_key.induct)
  case (2 seen e es)
  then show ?case using first_by_key_keys [of "insert (identity_key e) seen" es] by auto
qed simp

lemma first_by_key_subseq: "subseq (first_by_key S xs) xs"
  by (induction S xs rule: first_by_key.induct) auto

lemma set_subseq: "subseq xs ys \<Longrightarrow> set xs \<subseteq> set ys"
  by (induction rule: list_emb.induct) auto

lemma first_by_key_unseen: "e \<in> set (first_by_key S xs) \<Longrightarrow> identity_key e \<notin> S"
  using first_by_key_keys [of S xs] by (metis DiffD2 imageI)

lemma first_by_key_first:
  "e \<in> set (first_by_key S xs) \<Longrightarrow> find (\<lambda>x. identity_key x = identity_key e) xs = Some e"
proof (induction S xs rule: first_by_key.induct)
  case (2 seen a es)
  have "a = e \<or> identity_key a \<noteq> identity_key e"
    using 2(3) first_by_key_unseen [of e seen es] first_by_key_unseen [of e "insert (identity_key a) seen" es]
    by (cases "identity_key a \<in> seen") auto
  with 2 show ?case by (auto split: if_splits)
qed simp

lemma ingest_events_eq:
  "fst (ingest_events es (fresh, ob)) = fresh @ first_by_key (jo_seen ob) (in_generation (jo_handle ob) es)
   \<and> jo_seen (snd (ingest_events es (fresh, ob))) = jo_seen ob \<union> identity_key ` set (in_generation (jo_handle ob) es)
   \<and> jo_handle (snd (ingest_events es (fresh, ob))) = jo_handle ob"
proof (induction es "(fresh, ob)" arbitrary: fresh ob rule: ingest_events.induct)
  case (2 e es fresh ob)
  show ?case
  proof (cases "fence_stale (jo_handle ob) (ee_execution_generation e) \<or> identity_key e \<in> jo_seen ob")
    case True
    with 2(1,2) show ?thesis by (auto simp: fence_stale_def in_generation_def)
  next
    case False
    with 2(3) show ?thesis by (simp add: fence_stale_def in_generation_def)
  qed
qed (simp add: in_generation_def)

lemma ingest_eq:
  "fst (ingest page ob) = first_by_key (jo_seen ob) (in_generation (jo_handle ob) (pg_events page))"
  "jo_seen (snd (ingest page ob)) = jo_seen ob \<union> identity_key ` set (in_generation (jo_handle ob) (pg_events page))"
  "jo_handle (snd (ingest page ob)) = jo_handle ob"
  using ingest_events_eq [of "pg_events page" "[]" "if pg_gap_detected page then ob\<lparr>jo_needs_snapshot := True\<rparr> else ob"]
  by (auto simp: ingest_def Let_def split_beta)

fun ingest_all :: "ExecutionEventPage list \<Rightarrow> JobObserver \<Rightarrow> ExecutionEvent list \<times> JobObserver" where
  "ingest_all [] ob = ([], ob)"
| "ingest_all (page # pages) ob =
     (let (fresh, ob1) = ingest page ob; (rest, ob2) = ingest_all pages ob1 in (fresh @ rest, ob2))"

lemma ingest_all_eq:
  "fst (ingest_all pages ob) = first_by_key (jo_seen ob) (in_generation (jo_handle ob) (concat (map pg_events pages)))"
  by (induction pages arbitrary: ob)
    (auto simp: split_beta Let_def ingest_eq first_by_key_append in_generation_def)

section \<open>What a session does to the backend\<close>

lemma deliver_fields [simp]:
  "pa_delivered (deliver fresh p) = pa_delivered p @ fresh" "pa_observer (deliver fresh p) = pa_observer p"
  "pa_world (deliver fresh p) = pa_world p"
  by (simp_all add: deliver_def)

text \<open>The pages a reader gets from a cursor on, each read from the cursor the page before returned.\<close>

fun pages_from ::
  "'w job_backend \<Rightarrow> ExecutionHandle \<Rightarrow> ExecutionEventCursor \<Rightarrow> 'w \<Rightarrow> ExecutionEventPage list \<Rightarrow> ExecutionEventCursor \<Rightarrow> 'w \<Rightarrow> bool" where
  "pages_from k h c w [] c' w' = (c' = c \<and> w' = w)"
| "pages_from k h c w (p # ps) c' w' = (\<exists>w1. jk_observe k h c w = (Inr p, w1) \<and> pages_from k h (pg_next_cursor p) w1 ps c' w')"

lemma ingest_events_flags:
  "jo_needs_snapshot (snd (ingest_events es (fresh, ob))) = jo_needs_snapshot ob
   \<and> (jo_complete (snd (ingest_events es (fresh, ob))) \<longrightarrow> jo_complete ob \<or> list_ex ee_terminal (fst (ingest_events es (fresh, ob))))"
proof (induction es arbitrary: fresh ob)
  case (Cons e es)
  let ?ob = "ob\<lparr>jo_seen := insert (identity_key e) (jo_seen ob), jo_complete := jo_complete ob \<or> ee_terminal e\<rparr>"
  have "e \<in> set (fst (ingest_events es (fresh @ [e], ?ob)))" using ingest_events_eq [of es "fresh @ [e]" ?ob] by simp
  then show ?case using Cons.IH [of fresh ob] Cons.IH [of "fresh @ [e]" ?ob] by (auto simp: list_ex_iff)
qed simp

lemma ingest_flags:
  "jo_needs_snapshot (snd (ingest page ob)) = (jo_needs_snapshot ob \<or> pg_gap_detected page)"
  "jo_complete (snd (ingest page ob)) \<Longrightarrow> jo_complete ob \<or> pg_complete page \<or> list_ex ee_terminal (fst (ingest page ob))"
  "jo_cursor (snd (ingest page ob)) = pg_next_cursor page"
  using ingest_events_flags [of "pg_events page" "[]" "if pg_gap_detected page then ob\<lparr>jo_needs_snapshot := True\<rparr> else ob"]
  by (auto simp: ingest_def Let_def split_beta split: if_splits)

text \<open>The paging loop delivers exactly what the observer lets through of the pages it reads, and stops only for a reason.\<close>

lemma observe_pages_exact:
  assumes "\<not> jo_complete (pa_observer p)" "\<not> jo_needs_snapshot (pa_observer p)"
  shows "\<exists>read c' w'. pages_from k h (pa_cursor p) (pa_world p) read c' w' \<and> length read \<le> n
    \<and> pa_delivered (snd (observe_pages k h n p)) = pa_delivered p @ fst (ingest_all read (pa_observer p))
    \<and> (length read = n \<or> isl (fst (jk_observe k h c' w'))
       \<or> read \<noteq> [] \<and> (pg_events (last read) = [] \<or> pg_complete (last read) \<or> pg_gap_detected (last read)
           \<or> list_ex ee_terminal (fst (ingest_all read (pa_observer p)))))"
  using assms
proof (induction n arbitrary: p)
  case (Suc n)
  obtain seen w1 where o: "jk_observe k h (pa_cursor p) (pa_world p) = (seen, w1)" by fastforce
  show ?case
  proof (cases seen)
    case (Inl e)
    then show ?thesis using o by (intro exI [of _ "[]"]) (auto simp: Let_def)
  next
    case (Inr page)
    obtain fresh ob where i: "ingest page (pa_observer p) = (fresh, ob)" by fastforce
    let ?p2 = "(deliver fresh (p\<lparr>pa_world := w1\<rparr>))\<lparr>pa_observer := ob, pa_cursor := jo_cursor ob\<rparr>"
    have c: "jo_cursor ob = pg_next_cursor page" "jo_needs_snapshot ob = pg_gap_detected page"
      "jo_complete ob \<Longrightarrow> pg_complete page \<or> list_ex ee_terminal fresh"
      using ingest_flags [of page "pa_observer p"] i Suc.prems by auto
    show ?thesis
    proof (cases "jo_needs_snapshot ob \<or> pg_complete page \<or> jo_complete ob \<or> pg_events page = []")
      case True
      then have "snd (observe_pages k h (Suc n) p) = ?p2" using o Inr i by (auto simp: Let_def)
      with True c o Inr i show ?thesis by (intro exI [of _ "[page]"]) auto
    next
      case False
      then have run: "observe_pages k h (Suc n) p = observe_pages k h n ?p2" using o Inr i by (auto simp: Let_def)
      obtain read c' w' where "pages_from k h (pg_next_cursor page) w1 read c' w'" "length read \<le> n"
        "pa_delivered (snd (observe_pages k h n ?p2)) = (pa_delivered p @ fresh) @ fst (ingest_all read ob)"
        "length read = n \<or> isl (fst (jk_observe k h c' w'))
          \<or> read \<noteq> [] \<and> (pg_events (last read) = [] \<or> pg_complete (last read) \<or> pg_gap_detected (last read) \<or> list_ex ee_terminal (fst (ingest_all read ob)))"
        using Suc.IH [of ?p2] False c(1) by auto
      then show ?thesis unfolding run using o Inr i by (intro exI [of _ "page # read"] exI [of _ c'] exI [of _ w']) (auto simp: split_beta)
    qed
  qed
qed auto

locale job_dispatcher =
  fixes k :: "'w job_backend"
    and dispatches :: "'w \<Rightarrow> nat"
    and teardowns :: "'w \<Rightarrow> ExecutionHandle list"
  assumes start_once: "dispatches (snd (jk_start k q w)) \<le> Suc (dispatches w)" "teardowns (snd (jk_start k q w)) = teardowns w"
    and lookup_reads: "dispatches (snd (jk_lookup k key w)) = dispatches w" "teardowns (snd (jk_lookup k key w)) = teardowns w"
    and observe_reads: "dispatches (snd (jk_observe k h c w)) = dispatches w" "teardowns (snd (jk_observe k h c w)) = teardowns w"
    and snapshot_reads: "dispatches (snd (jk_snapshot k h w)) = dispatches w" "teardowns (snd (jk_snapshot k h w)) = teardowns w"
    and control_reads: "dispatches (snd (jk_control k r w)) = dispatches w" "teardowns (snd (jk_control k r w)) = teardowns w"
    and teardown_recorded: "dispatches (snd (jk_teardown k h w)) = dispatches w" "teardowns (snd (jk_teardown k h w)) = teardowns w @ [h]"
begin

lemma session_start_once:
  "dispatches (snd (snd (session_start k q ts w))) \<le> Suc (dispatches w)"
  "teardowns (snd (snd (session_start k q ts w))) = teardowns w"
  using start_once [of q w] lookup_reads
  by (auto simp: session_start_def Let_def split_beta split: sum.splits option.splits)

lemma observe_pages_reads:
  "dispatches (pa_world (snd (observe_pages k h n p))) = dispatches (pa_world p)
   \<and> teardowns (pa_world (snd (observe_pages k h n p))) = teardowns (pa_world p)"
proof (induction n arbitrary: p)
  case (Suc n)
  then show ?case
    using observe_reads [of h "pa_cursor p" "pa_world p"]
    by (auto simp: Let_def split_beta simp del: job_backend.simps split: sum.splits)
qed simp

lemma observe_to_terminal_reads:
  "dispatches (snd (snd (snd (observe_to_terminal k h c n ts w)))) = dispatches w"
  "teardowns (snd (snd (snd (observe_to_terminal k h c n ts w)))) = teardowns w"
  using observe_pages_reads [of h n] snapshot_reads
  by (auto simp: observe_to_terminal_def Let_def split_beta split: option.splits sum.splits terminal_conflict.splits)

lemma stop_job_effect:
  "dispatches (snd (stop_job k h kind own td w)) = dispatches w"
  "teardowns (snd (stop_job k h kind own td w)) = teardowns w
   \<or> (td \<and> own = RUNTIME_OWNED \<and> teardowns (snd (stop_job k h kind own td w)) = teardowns w @ [h])"
  using control_reads teardown_recorded
  by (auto simp: stop_job_def Let_def split_beta split: sum.splits)

end

end
