(* ===== verification/Py_Patterns.thy ===== *)
theory Py_Patterns
  imports Prelude
begin

text \<open>
  The two pattern languages of the standard library that the permission code uses, on characters
  below 256: the part of \<open>re\<close> its fixed patterns need, as syntax trees with the set of end positions
  of a match (backtracking finds a match exactly when one exists, so a search is the existence of a
  start position with an end), and \<open>fnmatch\<close> on a POSIX system, where names keep their case.
\<close>

section \<open>Regular expressions\<close>

text \<open>\<open>\w\<close>: letters, digits, numerals and the underscore of Latin-1.\<close>

definition word_char :: "char \<Rightarrow> bool" where
  "word_char c = (let n = of_char c :: nat in
     (48 \<le> n \<and> n \<le> 57) \<or> (65 \<le> n \<and> n \<le> 90) \<or> n = 95 \<or> (97 \<le> n \<and> n \<le> 122)
     \<or> n \<in> {170, 178, 179, 181, 185, 186, 188, 189, 190} \<or> (192 \<le> n \<and> n \<noteq> 215 \<and> n \<noteq> 247))"

definition lower_letter :: "char \<Rightarrow> bool" where
  "lower_letter c = (let n = of_char c :: nat in 97 \<le> n \<and> n \<le> 122)"

datatype rx =
    Eps
  | Sat "char \<Rightarrow> bool"      \<comment> \<open>one character of a class\<close>
  | Many "char \<Rightarrow> bool"     \<comment> \<open>\<open>*\<close> of a class\<close>
  | Lit string
  | Seq rx rx
  | Alt rx rx
  | Opt rx
  | Boundary               \<comment> \<open>\<open>\b\<close>\<close>
  | At_End                 \<comment> \<open>\<open>$\<close> without the multi-line flag\<close>

definition word_at :: "string \<Rightarrow> nat \<Rightarrow> bool" where
  "word_at s i = (i < length s \<and> word_char (s ! i))"

definition boundary_at :: "string \<Rightarrow> nat \<Rightarrow> bool" where
  "boundary_at s i = ((0 < i \<and> word_at s (i - 1)) \<noteq> word_at s i)"

fun rx_ends :: "rx \<Rightarrow> string \<Rightarrow> nat \<Rightarrow> nat list" where
  "rx_ends Eps s i = [i]"
| "rx_ends (Sat p) s i = (if i < length s \<and> p (s ! i) then [Suc i] else [])"
| "rx_ends (Many p) s i = [i ..< Suc (i + length (takeWhile p (drop i s)))]"
| "rx_ends (Lit w) s i = (if prefix w (drop i s) then [i + length w] else [])"
| "rx_ends (Seq a b) s i = remdups (concat (map (rx_ends b s) (rx_ends a s i)))"
| "rx_ends (Alt a b) s i = rx_ends a s i @ rx_ends b s i"
| "rx_ends (Opt a) s i = rx_ends a s i @ [i]"
| "rx_ends Boundary s i = (if boundary_at s i then [i] else [])"
| "rx_ends At_End s i = (if i = length s \<or> (Suc i = length s \<and> s ! i = CHR 0x0A) then [i] else [])"

text \<open>\<open>pattern.search(text)\<close> as a truth value.\<close>

definition re_search :: "rx \<Rightarrow> string \<Rightarrow> bool" where
  "re_search r s = list_ex (\<lambda>i. rx_ends r s i \<noteq> []) [0 ..< Suc (length s)]"

definition rx_seq :: "rx list \<Rightarrow> rx" where
  "rx_seq rs = foldr Seq rs Eps"

definition rx_alt :: "rx list \<Rightarrow> rx" where
  "rx_alt rs = foldr Alt (butlast rs) (last rs)"

text \<open>\<open>\bword\b\<close>\<close>

definition rx_word :: "string \<Rightarrow> rx" where
  "rx_word w = rx_seq [Boundary, Lit w, Boundary]"

lemma re_search_iff: "re_search r s \<longleftrightarrow> (\<exists>i \<le> length s. rx_ends r s i \<noteq> [])"
  by (simp del: upt_Suc add: re_search_def list_ex_iff Bex_def less_Suc_eq_le)

text \<open>A search for a whole word finds exactly the occurrences that no word character touches.\<close>

definition isolated :: "string \<Rightarrow> string \<Rightarrow> bool" where
  "isolated pre post = ((pre = [] \<or> \<not> word_char (last pre)) \<and> (post = [] \<or> \<not> word_char (hd post)))"

lemma boundary_before:
  assumes "w \<noteq> []" "word_char (hd w)"
  shows "boundary_at (pre @ w @ post) (length pre) \<longleftrightarrow> pre = [] \<or> \<not> word_char (last pre)"
  using assms by (cases w; cases pre rule: rev_cases) (auto simp: boundary_at_def word_at_def nth_append)

lemma boundary_after:
  assumes "w \<noteq> []" "word_char (last w)"
  shows "boundary_at (pre @ w @ post) (length pre + length w) \<longleftrightarrow> post = [] \<or> \<not> word_char (hd post)"
  using assms by (cases w rule: rev_cases; cases post) (auto simp: boundary_at_def word_at_def nth_append)

lemma rx_word_ends:
  "rx_ends (rx_word w) s i \<noteq> [] \<longleftrightarrow>
     boundary_at s i \<and> prefix w (drop i s) \<and> boundary_at s (i + length w)"
  by (auto simp: rx_word_def rx_seq_def)

lemma re_search_word:
  assumes "w \<noteq> []" "word_char (hd w)" "word_char (last w)"
  shows "re_search (rx_word w) s \<longleftrightarrow> (\<exists>pre post. s = pre @ w @ post \<and> isolated pre post)"
proof
  assume "re_search (rx_word w) s"
  then obtain i where i: "i \<le> length s" "boundary_at s i" "prefix w (drop i s)" "boundary_at s (i + length w)"
    by (auto simp: re_search_iff rx_word_ends)
  then obtain post where post: "drop i s = w @ post" by (auto simp: prefix_def)
  let ?pre = "take i s"
  have s: "s = ?pre @ w @ post" and len: "length ?pre = i" using post i(1) by (metis append_take_drop_id, simp)
  have "isolated ?pre post"
    using i(2,4) boundary_before [OF assms(1,2), of ?pre post] boundary_after [OF assms(1,3), of ?pre post] s len
    by (simp add: isolated_def)
  with s show "\<exists>pre post. s = pre @ w @ post \<and> isolated pre post" by blast
next
  assume "\<exists>pre post. s = pre @ w @ post \<and> isolated pre post"
  then obtain pre post where s: "s = pre @ w @ post" and iso: "isolated pre post" by blast
  then have "rx_ends (rx_word w) s (length pre) \<noteq> []"
    using boundary_before [OF assms(1,2), of pre post] boundary_after [OF assms(1,3), of pre post]
    by (auto simp: rx_word_ends isolated_def)
  then show "re_search (rx_word w) s" unfolding re_search_iff using s by (intro exI [of _ "length pre"]) simp
qed

section \<open>Shell-style patterns\<close>

datatype glob_item = Glob_Char char | Glob_Range char char

datatype glob_token = Glob_Star | Glob_Any | Glob_Lit char | Glob_Set bool "glob_item list"

text \<open>The inside of a bracket: \<open>a-b\<close> is a range, any other character stands for itself.\<close>

fun glob_items :: "string \<Rightarrow> glob_item list" where
  "glob_items (a # b # c # cs) =
     (if b = CHR ''-'' then Glob_Range a c # glob_items cs else Glob_Char a # glob_items (b # c # cs))"
| "glob_items (a # cs) = Glob_Char a # glob_items cs"
| "glob_items [] = []"

text \<open>The text after an opening bracket: the inside (negation, and a closing bracket in first place,
  belong to it) and what follows; \<open>None\<close> when the bracket is not closed.\<close>

definition bracket_split :: "string \<Rightarrow> (bool \<times> string \<times> string) option" where
  "bracket_split s =
     (let neg = (s \<noteq> [] \<and> hd s = CHR ''!''); b = (if neg then tl s else s);
          first = (if b \<noteq> [] \<and> hd b = CHR '']'' then [CHR '']''] else []);
          r = drop (length first) b;
          inside = takeWhile (\<lambda>c. c \<noteq> CHR '']'') r; rest = dropWhile (\<lambda>c. c \<noteq> CHR '']'') r
      in if rest = [] then None else Some (neg, first @ inside, tl rest))"

lemma bracket_split_shorter:
  assumes "bracket_split s = Some (n, i, r)"
  shows "length r < length s"
proof -
  define b where "b = (if s \<noteq> [] \<and> hd s = CHR ''!'' then tl s else s)"
  define f where "f = (if b \<noteq> [] \<and> hd b = CHR '']'' then [CHR '']''] else [])"
  define d where "d = dropWhile (\<lambda>c. c \<noteq> CHR '']'') (drop (length f) b)"
  have "d \<noteq> [] \<and> r = tl d"
    using assms unfolding bracket_split_def Let_def b_def [symmetric] f_def [symmetric] d_def [symmetric]
    by (cases "d = []") simp_all
  moreover have "length d \<le> length b"
    using length_dropWhile_le [of "\<lambda>c. c \<noteq> CHR '']''" "drop (length f) b"] by (simp add: d_def)
  moreover have "length b \<le> length s" by (simp add: b_def)
  ultimately show ?thesis by (cases d) auto
qed

function glob_tokens :: "string \<Rightarrow> glob_token list" where
  "glob_tokens [] = []"
| "glob_tokens (c # cs) =
     (if c = CHR ''*'' then Glob_Star # glob_tokens cs
      else if c = CHR ''?'' then Glob_Any # glob_tokens cs
      else if c = CHR ''['' then
        (case bracket_split cs of
           None \<Rightarrow> Glob_Lit c # glob_tokens cs
         | Some (neg, inside, rest) \<Rightarrow> Glob_Set neg (glob_items inside) # glob_tokens rest)
      else Glob_Lit c # glob_tokens cs)"
  by pat_completeness auto
termination by (relation "measure length") (auto dest!: bracket_split_shorter)

fun item_has :: "char \<Rightarrow> glob_item \<Rightarrow> bool" where
  "item_has x (Glob_Char c) = (x = c)"
| "item_has x (Glob_Range a b) = (a \<le> x \<and> x \<le> b)"

fun token_has :: "glob_token \<Rightarrow> char \<Rightarrow> bool" where
  "token_has (Glob_Lit c) x = (x = c)"
| "token_has (Glob_Set neg items) x = (list_ex (item_has x) items \<noteq> neg)"
| "token_has _ x = True"

fun glob_match :: "glob_token list \<Rightarrow> string \<Rightarrow> bool" where
  "glob_match [] s = (s = [])"
| "glob_match (Glob_Star # ts) s =
     (glob_match ts s \<or> (case s of [] \<Rightarrow> False | _ # r \<Rightarrow> glob_match (Glob_Star # ts) r))"
| "glob_match (t # ts) s = (case s of [] \<Rightarrow> False | x # r \<Rightarrow> token_has t x \<and> glob_match ts r)"

definition fnmatch :: "string \<Rightarrow> string \<Rightarrow> bool" where
  "fnmatch name pat = glob_match (glob_tokens pat) name"

definition glob_chars :: string where
  "glob_chars = ''*?[''"

text \<open>Every name a pattern matches starts with the text before its first wildcard; a pattern with no
  wildcard matches itself alone.\<close>

lemma glob_tokens_lit:
  "\<forall>c \<in> set h. c \<notin> set glob_chars \<Longrightarrow> glob_tokens (h @ g) = map Glob_Lit h @ glob_tokens g"
  by (induction h) (auto simp: glob_chars_def)

lemma glob_match_lits: "glob_match (map Glob_Lit h @ ts) s \<longleftrightarrow> (\<exists>r. s = h @ r \<and> glob_match ts r)"
proof (induction h arbitrary: s)
  case (Cons c h)
  then show ?case by (cases s) auto
qed simp

lemma fnmatch_anchor:
  assumes "\<forall>c \<in> set h. c \<notin> set glob_chars"
  shows "fnmatch q (h @ g) \<longleftrightarrow> (\<exists>r. q = h @ r \<and> fnmatch r g)"
  by (simp add: fnmatch_def glob_tokens_lit [OF assms] glob_match_lits)

lemma fnmatch_literal: "\<forall>c \<in> set h. c \<notin> set glob_chars \<Longrightarrow> fnmatch q h \<longleftrightarrow> q = h"
  using fnmatch_anchor [of h q "[]"] by (auto simp: fnmatch_def)

end
