(* ===== verification/Fake_Backend.thy ===== *)
theory Fake_Backend
  imports Execution_Jobs Py_Patterns
begin

text \<open>
  The deterministic in-memory execution backend (\<open>execution/fake.py\<close>): scripted commands, files in a
  dictionary, scripted leases and jobs, with every request recorded. It is the backend that
  discharges the laws of \<open>lease_provider\<close> and \<open>job_dispatcher\<close>, and the guarantees of the lease
  manager and of job sessions are stated here. Compiling a regular expression is a parameter.
\<close>

section \<open>Workspace contracts\<close>

record ExecutionReadRequest =
  rq_identity :: ExecutionIdentity
  rq_path :: string
  rq_max_bytes :: int

record ExecutionReadResult =
  rr_identity :: ExecutionIdentity
  rr_path :: string
  rr_content :: string
  rr_size_bytes :: int

record ExecutionWriteRequest =
  wq_identity :: ExecutionIdentity
  wq_path :: string
  wq_content :: string

record ExecutionWriteResult =
  wr_identity :: ExecutionIdentity
  wr_path :: string
  wr_bytes_written :: int

record WorkspaceEntry =
  we_path :: string
  we_is_dir :: bool
  we_size_bytes :: "int option"

record ExecutionListRequest =
  dq_identity :: ExecutionIdentity
  dq_path :: string
  dq_recursive :: bool
  dq_max_entries :: nat

record ExecutionListResult =
  dr_identity :: ExecutionIdentity
  dr_entries :: "WorkspaceEntry list"
  dr_truncated :: bool

record ExecutionGlobRequest =
  gq_identity :: ExecutionIdentity
  gq_base_path :: string
  gq_pattern :: string
  gq_max_entries :: nat

record ExecutionGlobResult =
  gr_identity :: ExecutionIdentity
  gr_paths :: "string list"
  gr_truncated :: bool

record GrepMatch =
  gm_path :: string
  gm_line_number :: nat
  gm_line :: string

record ExecutionGrepRequest =
  pq_identity :: ExecutionIdentity
  pq_base_path :: string
  pq_pattern :: string
  pq_path_glob :: "string option"
  pq_max_matches :: nat

record ExecutionGrepResult =
  pq_r_identity :: ExecutionIdentity
  pq_r_matches :: "GrepMatch list"
  pq_r_truncated :: bool

record ExecutionStatResult =
  sr_path :: string
  sr_exists :: bool
  sr_is_dir :: bool
  sr_size_bytes :: "int option"

record ExecutionDeleteRequest =
  xd_identity :: ExecutionIdentity
  xd_path :: string
  xd_recursive :: bool

record ExecutionDeleteResult =
  xd_r_identity :: ExecutionIdentity
  xd_r_path :: string
  xd_r_deleted :: bool

section \<open>The backend\<close>

record CommandOutcome =
  co_stdout :: string
  co_stderr :: string
  co_exit_code :: int
  co_timed_out :: bool
  co_truncated :: bool
  co_artifact :: "ArtifactRef option"

record FakeExecutionBackend =
  fk_backend_id :: string
  fk_commands :: "(string \<times> CommandOutcome) list"
  fk_default_outcome :: CommandOutcome
  fk_files :: "(string \<times> string) list"
  fk_raise_timeout_for :: "string list"
  fk_capability_snapshot :: ExecutionCapabilitySnapshot
  fk_raise_on_capabilities :: bool
  fk_acquire_state :: "LeaseState option"
  fk_known_generations :: "(string \<times> string) list"
  fk_command_calls :: "ExecutionCommandRequest list"
  fk_read_calls :: "ExecutionReadRequest list"
  fk_write_calls :: "ExecutionWriteRequest list"
  fk_lease_acquires :: "ExecutionLeaseRequest list"
  fk_lease_attaches :: "ExecutionLeaseRef list"
  fk_lease_releases :: "ExecutionLeaseRef list"
  fk_lease_detaches :: "ExecutionLeaseRef list"
  fk_lease_seq :: nat
  fk_job_pages :: "ExecutionEventPage list"
  fk_job_terminal :: "ExecutionTerminalSnapshot option"
  fk_lose_start :: bool
  fk_control_receipt :: "ExecutionControlReceipt option"
  fk_teardown_confirmed :: bool
  fk_job_starts :: "ExecutionHandle list"
  fk_job_controls :: "ExecutionControlRequest list"
  fk_job_teardowns :: "ExecutionHandle list"
  fk_job_observe_calls :: nat
  fk_known_jobs :: "(string \<times> ExecutionHandle) list"

definition default_fake_snapshot :: ExecutionCapabilitySnapshot where
  "default_fake_snapshot =
     \<lparr>sn_backend_id = ''fake'', sn_environment_revision = ''fake-1'', sn_lease_generation = None,
      sn_observed_at = None, sn_digest = None,
      sn_capabilities = map (\<lambda>c. (c, \<lparr>cs_state = SUPPORTED, cs_reason = None\<rparr>)) [CAP_COMMAND, CAP_FILE_READ, CAP_FILE_WRITE],
      sn_programs = [], sn_limitations = [], sn_metadata = []\<rparr>"

definition new_fake :: FakeExecutionBackend where
  "new_fake =
     \<lparr>fk_backend_id = ''fake'', fk_commands = [],
      fk_default_outcome = \<lparr>co_stdout = [], co_stderr = [], co_exit_code = 0, co_timed_out = False,
        co_truncated = False, co_artifact = None\<rparr>,
      fk_files = [], fk_raise_timeout_for = [], fk_capability_snapshot = default_fake_snapshot,
      fk_raise_on_capabilities = False, fk_acquire_state = None, fk_known_generations = [],
      fk_command_calls = [], fk_read_calls = [], fk_write_calls = [], fk_lease_acquires = [],
      fk_lease_attaches = [], fk_lease_releases = [], fk_lease_detaches = [], fk_lease_seq = 0,
      fk_job_pages = [], fk_job_terminal = None, fk_lose_start = False, fk_control_receipt = None,
      fk_teardown_confirmed = False, fk_job_starts = [], fk_job_controls = [], fk_job_teardowns = [],
      fk_job_observe_calls = 0, fk_known_jobs = []\<rparr>"

subsection \<open>Commands and files\<close>

definition fake_run_command ::
  "ExecutionCommandRequest \<Rightarrow> FakeExecutionBackend \<Rightarrow> (job_exception + ExecutionCommandResult) \<times> FakeExecutionBackend" where
  "fake_run_command q w =
     (let w1 = w\<lparr>fk_command_calls := fk_command_calls w @ [q]\<rparr>
      in if cq_command q \<in> set (fk_raise_timeout_for w) then (Inl (Execution_Error ''execution_timeout''), w1)
         else
           (let out = (case map_of (fk_commands w) (cq_command q) of None \<Rightarrow> fk_default_outcome w | Some c \<Rightarrow> c)
            in (Inr \<lparr>cr_identity = cq_identity q,
                     cr_terminal_state = (if co_timed_out out then T_TIMED_OUT else T_COMPLETED),
                     cr_exit_code = co_exit_code out, cr_timed_out = co_timed_out out,
                     cr_stdout = co_stdout out, cr_stderr = co_stderr out, cr_truncated = co_truncated out,
                     cr_bounds = \<lparr>bd_max_output_chars = cq_max_output_chars q, bd_max_bytes = None\<rparr>,
                     cr_artifact = co_artifact out\<rparr>, w1)))"

definition fake_read_text ::
  "ExecutionReadRequest \<Rightarrow> FakeExecutionBackend \<Rightarrow> (job_exception + ExecutionReadResult) \<times> FakeExecutionBackend" where
  "fake_read_text q w =
     (let w1 = w\<lparr>fk_read_calls := fk_read_calls w @ [q]\<rparr>
      in case map_of (fk_files w) (rq_path q) of
           None \<Rightarrow> (Inl (Other_Exception (rq_path q)), w1)
         | Some content \<Rightarrow>
             (let size = utf8_len content
              in if size > rq_max_bytes q then (Inl (Execution_Error ''output_limit_exceeded''), w1)
                 else (Inr \<lparr>rr_identity = rq_identity q, rr_path = rq_path q, rr_content = content,
                            rr_size_bytes = size\<rparr>, w1)))"

definition fake_write_text ::
  "ExecutionWriteRequest \<Rightarrow> FakeExecutionBackend \<Rightarrow> ExecutionWriteResult \<times> FakeExecutionBackend" where
  "fake_write_text q w =
     (\<lparr>wr_identity = wq_identity q, wr_path = wq_path q, wr_bytes_written = utf8_len (wq_content q)\<rparr>,
      w\<lparr>fk_write_calls := fk_write_calls w @ [q], fk_files := alist_set (wq_path q) (wq_content q) (fk_files w)\<rparr>)"

definition fake_capabilities :: "FakeExecutionBackend \<Rightarrow> job_exception + ExecutionCapabilitySnapshot" where
  "fake_capabilities w =
     (if fk_raise_on_capabilities w then Inl (Execution_Error ''execution_timeout'') else Inr (fk_capability_snapshot w))"

subsection \<open>Leases\<close>

definition fake_new_lease :: "string \<Rightarrow> string \<Rightarrow> LeaseOwnership \<Rightarrow> FakeExecutionBackend \<Rightarrow> ExecutionLease" where
  "fake_new_lease lease_id generation ownership w =
     \<lparr>le_ref = \<lparr>lr_lease_id = lease_id, lr_generation = generation, lr_backend_id = fk_backend_id w,
        lr_ownership = ownership, lr_workspace_id = None\<rparr>,
      le_state = (case fk_acquire_state w of None \<Rightarrow> L_READY | Some st \<Rightarrow> st), le_expires_at = None,
      le_paths = Some \<lparr>workspace_root = ''/work'', writable_roots = [''/work''], allow_symlink_escape = False\<rparr>,
      le_capabilities = Some (fk_capability_snapshot w), le_metadata = []\<rparr>"

definition fake_attach_lease :: "ExecutionLeaseRef \<Rightarrow> FakeExecutionBackend \<Rightarrow> ExecutionLease \<times> FakeExecutionBackend" where
  "fake_attach_lease r w =
     (let w1 = w\<lparr>fk_lease_attaches := fk_lease_attaches w @ [r]\<rparr>;
          lease = fake_new_lease (lr_lease_id r) (lr_generation r) (lr_ownership r) w1
      in if map_of (fk_known_generations w) (lr_lease_id r) \<noteq> Some (lr_generation r)
         then (lease\<lparr>le_state := L_EXPIRED\<rparr>, w1) else (lease, w1))"

definition fake_acquire_lease :: "ExecutionLeaseRequest \<Rightarrow> FakeExecutionBackend \<Rightarrow> ExecutionLease \<times> FakeExecutionBackend" where
  "fake_acquire_lease q w =
     (let w1 = w\<lparr>fk_lease_acquires := fk_lease_acquires w @ [q]\<rparr>
      in case lq_attach_ref q of
           Some r \<Rightarrow> fake_attach_lease r w1
         | None \<Rightarrow>
             (let n = Suc (fk_lease_seq w1); lease_id = ''lease-'' @ nat_str n;
                  w2 = w1\<lparr>fk_lease_seq := n, fk_known_generations := alist_set lease_id ''gen-1'' (fk_known_generations w1)\<rparr>
              in (fake_new_lease lease_id ''gen-1'' (lq_ownership q) w2, w2)))"

definition fake_release_lease :: "ExecutionLeaseRef \<Rightarrow> FakeExecutionBackend \<Rightarrow> FakeExecutionBackend" where
  "fake_release_lease r w =
     w\<lparr>fk_lease_releases := fk_lease_releases w @ [r],
       fk_known_generations := filter (\<lambda>p. fst p \<noteq> lr_lease_id r) (fk_known_generations w)\<rparr>"

definition fake_detach_lease :: "ExecutionLeaseRef \<Rightarrow> FakeExecutionBackend \<Rightarrow> FakeExecutionBackend" where
  "fake_detach_lease r w = w\<lparr>fk_lease_detaches := fk_lease_detaches w @ [r]\<rparr>"

subsection \<open>The workspace\<close>

definition dir_prefix :: "string \<Rightarrow> string" where
  "dir_prefix base = rev (dropWhile (\<lambda>c. c = CHR ''/'') (rev base)) @ ''/''"

definition fake_under :: "string \<Rightarrow> FakeExecutionBackend \<Rightarrow> string list" where
  "fake_under base w = filter (\<lambda>p. p = base \<or> prefix (dir_prefix base) p) (map fst (fk_files w))"

text \<open>The loop over the files: a deeper file contributes the directory it lies in (kept when already
  there), a direct one or any file of a recursive listing its own entry.\<close>

fun list_entries :: "string \<Rightarrow> bool \<Rightarrow> (string \<times> string) list \<Rightarrow> (string \<times> WorkspaceEntry) list \<Rightarrow> (string \<times> WorkspaceEntry) list" where
  "list_entries pre recursive [] seen = seen"
| "list_entries pre recursive ((p, content) # fs) seen =
     (if \<not> prefix pre p then list_entries pre recursive fs seen
      else
        (let rest = drop (length pre) p
         in if \<not> recursive \<and> CHR ''/'' \<in> set rest
            then (let child = pre @ takeWhile (\<lambda>c. c \<noteq> CHR ''/'') rest
                  in list_entries pre recursive fs
                       (if child \<in> fst ` set seen then seen
                        else alist_set child \<lparr>we_path = child, we_is_dir = True, we_size_bytes = None\<rparr> seen))
            else list_entries pre recursive fs
                   (alist_set p \<lparr>we_path = p, we_is_dir = False, we_size_bytes = Some (utf8_len content)\<rparr> seen)))"

definition fake_list_dir :: "ExecutionListRequest \<Rightarrow> FakeExecutionBackend \<Rightarrow> ExecutionListResult" where
  "fake_list_dir q w =
     (let seen = list_entries (dir_prefix (dq_path q)) (dq_recursive q) (fk_files w) []
      in \<lparr>dr_identity = dq_identity q, dr_entries = take (dq_max_entries q) (map snd seen),
          dr_truncated = (length seen > dq_max_entries q)\<rparr>)"

definition fake_glob :: "ExecutionGlobRequest \<Rightarrow> FakeExecutionBackend \<Rightarrow> ExecutionGlobResult" where
  "fake_glob q w =
     (let pre = dir_prefix (gq_base_path q);
          matches = filter (\<lambda>p. prefix pre p \<and> fnmatch (drop (length pre) p) (gq_pattern q)) (sort (map fst (fk_files w)))
      in \<lparr>gr_identity = gq_identity q, gr_paths = take (gq_max_entries q) matches,
          gr_truncated = (length matches > gq_max_entries q)\<rparr>)"

text \<open>\<open>str.splitlines()\<close> on the modelled range.\<close>

definition line_break :: "char \<Rightarrow> bool" where
  "line_break c = (let n = of_char c :: nat in (10 \<le> n \<and> n \<le> 13) \<or> (28 \<le> n \<and> n \<le> 30) \<or> n = 133)"

function splitlines :: "string \<Rightarrow> string list" where
  "splitlines s =
     (if s = [] then []
      else
        (let l = takeWhile (\<lambda>c. \<not> line_break c) s; r = dropWhile (\<lambda>c. \<not> line_break c) s
         in l # splitlines (if prefix [CHR 0x0D, CHR 0x0A] r then drop 2 r else drop 1 r)))"
  by pat_completeness auto
termination
proof (relation "measure length", simp)
  fix s l r :: string
  assume "s \<noteq> []" "r = dropWhile (\<lambda>c. \<not> line_break c) s"
  then have "length (drop 1 r) < length s" "length (drop 2 r) < length s"
    using length_dropWhile_le [of "\<lambda>c. \<not> line_break c" s] by (cases s; auto simp: less_Suc_eq_le)+
  then show "(if prefix [CHR 0x0D, CHR 0x0A] r then drop 2 r else drop 1 r, s) \<in> measure length" by simp
qed

declare splitlines.simps [simp del]

text \<open>The search of a file's lines stops when the limit is reached (flag).\<close>

fun grep_lines :: "(string \<Rightarrow> bool) \<Rightarrow> nat \<Rightarrow> string \<Rightarrow> nat \<Rightarrow> string list \<Rightarrow> GrepMatch list \<Rightarrow> bool \<times> GrepMatch list" where
  "grep_lines hit limit p i [] ms = (False, ms)"
| "grep_lines hit limit p i (l # ls) ms =
     (if hit l
      then (let ms1 = ms @ [\<lparr>gm_path = p, gm_line_number = i, gm_line = l\<rparr>]
            in if length ms1 \<ge> limit then (True, ms1) else grep_lines hit limit p (Suc i) ls ms1)
      else grep_lines hit limit p (Suc i) ls ms)"

fun grep_files :: "(string \<Rightarrow> bool) \<Rightarrow> ExecutionGrepRequest \<Rightarrow> (string \<times> string) list \<Rightarrow> string list \<Rightarrow> GrepMatch list \<Rightarrow> bool \<times> GrepMatch list" where
  "grep_files hit q fs [] ms = (False, ms)"
| "grep_files hit q fs (p # ps) ms =
     (if \<not> (p = pq_base_path q \<or> prefix (dir_prefix (pq_base_path q)) p) then grep_files hit q fs ps ms
      else if (case pq_path_glob q of None \<Rightarrow> False | Some g \<Rightarrow> g \<noteq> [] \<and> \<not> fnmatch p g) then grep_files hit q fs ps ms
      else
        (let (full, ms1) = grep_lines hit (pq_max_matches q) p 1 (splitlines (the (map_of fs p))) ms
         in if full then (True, ms1) else grep_files hit q fs ps ms1))"

definition fake_grep ::
  "(string \<Rightarrow> (string \<Rightarrow> bool) option) \<Rightarrow> ExecutionGrepRequest \<Rightarrow> FakeExecutionBackend \<Rightarrow> job_exception + ExecutionGrepResult" where
  "fake_grep compile q w =
     (case compile (pq_pattern q) of
        None \<Rightarrow> Inl (Other_Exception ''re.error'')
      | Some hit \<Rightarrow>
          (let (full, ms) = grep_files hit q (fk_files w) (sort (map fst (fk_files w))) []
           in Inr \<lparr>pq_r_identity = pq_identity q, pq_r_matches = ms, pq_r_truncated = full\<rparr>))"

definition fake_stat :: "string \<Rightarrow> FakeExecutionBackend \<Rightarrow> ExecutionStatResult" where
  "fake_stat path w =
     (case map_of (fk_files w) path of
        Some content \<Rightarrow> \<lparr>sr_path = path, sr_exists = True, sr_is_dir = False, sr_size_bytes = Some (utf8_len content)\<rparr>
      | None \<Rightarrow>
          (let is_dir = list_ex (\<lambda>p. prefix (dir_prefix path) p) (map fst (fk_files w))
           in \<lparr>sr_path = path, sr_exists = is_dir, sr_is_dir = is_dir, sr_size_bytes = None\<rparr>))"

definition fake_delete :: "ExecutionDeleteRequest \<Rightarrow> FakeExecutionBackend \<Rightarrow> ExecutionDeleteResult \<times> FakeExecutionBackend" where
  "fake_delete q w =
     (let targets = (if xd_recursive q then fake_under (xd_path q) w
                     else if map_of (fk_files w) (xd_path q) \<noteq> None then [xd_path q] else [])
      in (\<lparr>xd_r_identity = xd_identity q, xd_r_path = xd_path q, xd_r_deleted = (targets \<noteq> [])\<rparr>,
          w\<lparr>fk_files := filter (\<lambda>p. fst p \<notin> set targets) (fk_files w)\<rparr>))"

subsection \<open>Jobs\<close>

definition fake_handle_for :: "ExecutionCommandRequest \<Rightarrow> FakeExecutionBackend \<Rightarrow> ExecutionHandle" where
  "fake_handle_for q w =
     (let key = id_request_id (cq_identity q)
      in \<lparr>eh_job_id = ''job-'' @ key, eh_idempotency_key = key, eh_backend_id = fk_backend_id w,
          eh_execution_generation = ''gen-1'', eh_lease_id = None\<rparr>)"

definition fake_start_job ::
  "ExecutionCommandRequest \<Rightarrow> FakeExecutionBackend \<Rightarrow> (job_exception + ExecutionHandle) \<times> FakeExecutionBackend" where
  "fake_start_job q w =
     (let h = fake_handle_for q w;
          w1 = w\<lparr>fk_known_jobs := alist_set (eh_idempotency_key h) h (fk_known_jobs w)\<rparr>
      in if fk_lose_start w1 then (Inl (Execution_Error ''execution_timeout''), w1)
         else (Inr h, w1\<lparr>fk_job_starts := fk_job_starts w1 @ [h]\<rparr>))"

definition fake_lookup_job :: "string \<Rightarrow> FakeExecutionBackend \<Rightarrow> ExecutionHandle option" where
  "fake_lookup_job key w = map_of (fk_known_jobs w) key"

definition fake_observe ::
  "ExecutionHandle \<Rightarrow> ExecutionEventCursor \<Rightarrow> FakeExecutionBackend \<Rightarrow> ExecutionEventPage \<times> FakeExecutionBackend" where
  "fake_observe h c w =
     (let i = fk_job_observe_calls w; w1 = w\<lparr>fk_job_observe_calls := Suc i\<rparr>
      in if i < length (fk_job_pages w) then (fk_job_pages w ! i, w1)
         else (\<lparr>pg_events = [], pg_next_cursor = c, pg_gap_detected = False, pg_complete = (fk_job_terminal w \<noteq> None)\<rparr>, w1))"

definition fake_snapshot :: "ExecutionHandle \<Rightarrow> FakeExecutionBackend \<Rightarrow> ExecutionTerminalSnapshot" where
  "fake_snapshot h w =
     (case fk_job_terminal w of
        Some t \<Rightarrow> t
      | None \<Rightarrow> \<lparr>ts_handle = h, ts_state = J_INDETERMINATE, ts_exit_code = None, ts_result = None,
                 ts_indeterminate = True, ts_reason_code = None\<rparr>)"

definition fake_control ::
  "ExecutionControlRequest \<Rightarrow> FakeExecutionBackend \<Rightarrow> ExecutionControlReceipt \<times> FakeExecutionBackend" where
  "fake_control q w =
     (case fk_control_receipt w of
        Some r \<Rightarrow> r
      | None \<Rightarrow> \<lparr>xr_handle = xq_handle q, xr_kind = xq_kind q, xr_accepted = True, xr_applied = False,
                 xr_execution_terminal = False, xr_reason_code = Some RS_UNSUPPORTED\<rparr>,
      w\<lparr>fk_job_controls := fk_job_controls w @ [q]\<rparr>)"

definition fake_teardown :: "ExecutionHandle \<Rightarrow> FakeExecutionBackend \<Rightarrow> TeardownReceipt \<times> FakeExecutionBackend" where
  "fake_teardown h w =
     (\<lparr>td_handle = h, td_ownership = RUNTIME_OWNED, td_requested = True, td_confirmed = fk_teardown_confirmed w,
       td_reason_code = Some (if fk_teardown_confirmed w then RS_OK else RS_UNSUPPORTED)\<rparr>,
      w\<lparr>fk_job_teardowns := fk_job_teardowns w @ [h]\<rparr>)"

section \<open>The backend meets the interfaces\<close>

definition fake_leases :: "FakeExecutionBackend lease_backend" where
  "fake_leases =
     \<lparr>lb_acquire = Some (\<lambda>q w. map_prod Lease_Reply id (fake_acquire_lease q w)),
      lb_attach = Some (\<lambda>r w. map_prod Lease_Reply id (fake_attach_lease r w)),
      lb_release = Some (\<lambda>r w. (None, fake_release_lease r w)),
      lb_detach = Some (\<lambda>r w. (None, fake_detach_lease r w))\<rparr>"

definition fake_jobs :: "FakeExecutionBackend job_backend" where
  "fake_jobs =
     \<lparr>jk_start = fake_start_job,
      jk_lookup = (\<lambda>key w. (Inr (fake_lookup_job key w), w)),
      jk_observe = (\<lambda>h c w. map_prod Inr id (fake_observe h c w)),
      jk_snapshot = (\<lambda>h w. (Inr (fake_snapshot h w), w)),
      jk_control = (\<lambda>q w. map_prod Inr id (fake_control q w)),
      jk_teardown = (\<lambda>h w. map_prod Inr id (fake_teardown h w))\<rparr>"

lemmas fake_lease_defs = fake_leases_def fake_acquire_lease_def fake_attach_lease_def fake_release_lease_def
  fake_detach_lease_def

lemmas fake_job_defs = fake_jobs_def fake_start_job_def fake_observe_def fake_control_def fake_teardown_def

interpretation fake_leases: lease_provider fake_leases fk_lease_releases fk_lease_detaches
  by unfold_locales (auto simp: fake_lease_defs Let_def split: option.splits)

interpretation fake_jobs: job_dispatcher fake_jobs "\<lambda>w. length (fk_job_starts w)" fk_job_teardowns
  by unfold_locales (auto simp: fake_job_defs Let_def)

section \<open>Guarantees of the lease manager\<close>









text \<open>The manager fails closed: after any history the lease it holds is ready, a failed acquisition
  leaves the held lease as it was, a closed manager acquires nothing, and asking again under the
  request id of the held lease returns that lease without touching the backend.\<close>

lemma lease_manager_fails_closed:
  assumes "lease_run b ops (new_manager, w) = (m, w')"
  shows "(\<forall>l. lm_lease m = Some l \<longrightarrow> le_state l = L_READY)
    \<and> (\<forall>e. fst (acquire_or_attach b q m w') = Inl e \<longrightarrow>
        lm_lease (fst (snd (acquire_or_attach b q m w'))) = lm_lease m)
    \<and> (lm_closed m \<longrightarrow> acquire_or_attach b q m w' = (Inl Manager_Closed, m, w'))
    \<and> (\<forall>l. \<not> lm_closed m \<and> lm_lease m = Some l \<and> lm_request_id m = Some (lq_request_id q) \<longrightarrow>
        acquire_or_attach b q m w' = (Inr l, m, w'))"
proof -
  have "manager_ok m"
    using lease_run_manager_ok [of "(new_manager, w)" b ops] assms by (simp add: manager_ok_def new_manager_def)
  then have ready: "\<forall>l. lm_lease m = Some l \<longrightarrow> le_state l = L_READY" by (simp add: manager_ok_def is_usable_def)
  have "lm_lease (fst (snd (acquire_or_attach b q m w'))) = lm_lease m"
    if "fst (acquire_or_attach b q m w') = Inl e" for e
    using that by (auto simp: acquire_or_attach_def Let_def split: if_splits lease_reply.splits prod.splits)
  with ready show ?thesis by (auto simp: acquire_or_attach_def)
qed

section \<open>Guarantees of job sessions\<close>

text \<open>The contract of the events: one identity never comes with two contents.\<close>

definition no_conflict :: "ExecutionEventPage list \<Rightarrow> bool" where
  "no_conflict pages = (\<forall>e \<in> set (concat (map pg_events pages)). \<forall>d \<in> set (concat (map pg_events pages)). \<not> conflicts_with e d)"

text \<open>\<open>out\<close> holds every event of the current generation on the pages exactly once: identities are distinct, the order is
  that of the pages, each entry is the first occurrence of its identity, and every event is there with its content.\<close>

definition observed_once :: "ExecutionHandle \<Rightarrow> ExecutionEventPage list \<Rightarrow> ExecutionEvent list \<Rightarrow> bool" where
  "observed_once h pages out =
     (let events = filter (\<lambda>e. ee_execution_generation e = eh_execution_generation h) (concat (map pg_events pages))
      in distinct (map identity_key out) \<and> subseq out events
         \<and> (\<forall>e \<in> set out. find (\<lambda>x. identity_key x = identity_key e) events = Some e)
         \<and> (\<forall>e \<in> set events. \<exists>d \<in> set out. identity_key d = identity_key e \<and> ee_kind d = ee_kind e \<and> ee_text d = ee_text e
              \<and> ee_terminal d = ee_terminal e))"

lemma first_by_key_observed:
  assumes "no_conflict pages"
  shows "observed_once h pages (first_by_key {} (in_generation h (concat (map pg_events pages))))"
proof -
  let ?events = "in_generation h (concat (map pg_events pages))"
  let ?out = "first_by_key {} ?events"
  have "\<exists>d \<in> set ?out. identity_key d = identity_key e \<and> ee_kind d = ee_kind e \<and> ee_text d = ee_text e \<and> ee_terminal d = ee_terminal e"
    if e: "e \<in> set ?events" for e
  proof -
    have "identity_key e \<in> identity_key ` set ?out" using first_by_key_keys [of "{}" ?events] e by simp
    then obtain d where d: "d \<in> set ?out" "identity_key d = identity_key e" by auto
    have "d \<in> set ?events" using d(1) set_subseq [OF first_by_key_subseq] by blast
    then have "\<not> conflicts_with d e" using assms e by (auto simp: no_conflict_def in_generation_def)
    then show ?thesis using d by (auto simp: conflicts_with_def)
  qed
  then show ?thesis
    using first_by_key_distinct [of "{}" ?events] first_by_key_subseq [of "{}" ?events] first_by_key_first [of _ "{}" ?events]
    by (auto simp: observed_once_def in_generation_def)
qed

text \<open>C17. Over any pages whose events never conflict, in whatever order a reconnecting backend replays them, the observer
  lets through every event of the current generation exactly once, namely its first occurrence, in order; events of
  another generation never pass. A session hands the host exactly that of the pages it reads, over any backend: it reads
  page after page, each from the cursor the page before returned, until its limit, a failing read, an empty page, a
  complete page, a gap or a terminal event. Conflicting events, a protocol violation, are outside:
  \<open>conflicting_event_dropped\<close> below.\<close>

theorem events_observed_exactly_once:
  "(no_conflict pages \<longrightarrow> observed_once h pages (fst (ingest_all pages (new_observer h))))
   \<and> (let handed = fst (snd (observe_to_terminal k h c n ts w))
      in \<exists>read c' w'. pages_from k h (case c of None \<Rightarrow> initial_cursor h | Some x \<Rightarrow> x) w read c' w' \<and> length read \<le> n
         \<and> (no_conflict read \<longrightarrow> observed_once h read handed)
         \<and> (length read = n \<or> isl (fst (jk_observe k h c' w'))
            \<or> read \<noteq> [] \<and> (pg_events (last read) = [] \<or> pg_complete (last read) \<or> pg_gap_detected (last read) \<or> list_ex ee_terminal handed)))"
proof -
  let ?p = "\<lparr>pa_observer = new_observer h, pa_cursor = (case c of None \<Rightarrow> initial_cursor h | Some c \<Rightarrow> c),
    pa_first_recorded = False, pa_delivered = [], pa_timings = ts, pa_world = w\<rparr>"
  have out: "fst (ingest_all read (new_observer h)) = first_by_key {} (in_generation h (concat (map pg_events read)))" for read
    unfolding ingest_all_eq by (simp add: new_observer_def)
  have handed: "fst (snd (observe_to_terminal k h c n ts w)) = pa_delivered (snd (observe_pages k h n ?p))"
    by (auto simp: observe_to_terminal_def Let_def split_beta split: option.splits sum.splits terminal_conflict.splits)
  have "\<not> jo_complete (pa_observer ?p)" "\<not> jo_needs_snapshot (pa_observer ?p)" by (simp_all add: new_observer_def)
  from observe_pages_exact [OF this, of k h n] out show ?thesis
    unfolding handed Let_def using first_by_key_observed by fastforce
qed

text \<open>What a host does with a job once it is started.\<close>

datatype job_act = Act_Observe "ExecutionEventCursor option" nat | Act_Stop ExecutionControlKind LeaseOwnership bool

fun job_act_step :: "'w job_backend \<Rightarrow> ExecutionHandle \<Rightarrow> job_act \<Rightarrow> 'w \<Rightarrow> 'w" where
  "job_act_step k h (Act_Observe c n) w = snd (snd (snd (observe_to_terminal k h c n [] w)))"
| "job_act_step k h (Act_Stop kind own td) w = snd (stop_job k h kind own td w)"

fun tears_down :: "job_act \<Rightarrow> bool" where
  "tears_down (Act_Stop kind own td) = (td \<and> own = RUNTIME_OWNED)"
| "tears_down _ = False"

context job_dispatcher
begin

lemma job_acts_effect:
  "dispatches (fold (job_act_step k h) acts w) = dispatches w
   \<and> (list_all (\<lambda>a. \<not> tears_down a) acts \<longrightarrow> teardowns (fold (job_act_step k h) acts w) = teardowns w)"
proof (induction acts arbitrary: w)
  case (Cons a acts)
  have "dispatches (job_act_step k h a w) = dispatches w
      \<and> (\<not> tears_down a \<longrightarrow> teardowns (job_act_step k h a w) = teardowns w)"
  proof (cases a)
    case (Act_Stop kind own td)
    then show ?thesis using stop_job_effect [of h kind own td w] by auto
  qed (simp add: observe_to_terminal_reads)
  with Cons show ?case by simp
qed simp

end

text \<open>A job is dispatched at most once: a lost start reply is looked up and never re-sent, observing,
  reconnecting and stopping dispatch nothing, and the environment is torn down only by a stop that
  asks for it on a runtime-owned environment.\<close>

lemma job_dispatched_at_most_once:
  assumes "job_dispatcher k dispatches teardowns" "session_start k q ts w = (started, ts', w1)"
  shows "dispatches (fold (job_act_step k h) acts w1) \<le> Suc (dispatches w)
    \<and> (list_all (\<lambda>a. \<not> tears_down a) acts \<longrightarrow> teardowns (fold (job_act_step k h) acts w1) = teardowns w)"
  using job_dispatcher.job_acts_effect [OF assms(1), of h acts w1]
    job_dispatcher.session_start_once [OF assms(1), of q ts w] assms(2) by simp

text \<open>C40. A lost start reply is resolved: on the in-memory backend a session's start returns the handle of
  the job whether or not the reply was lost, and the job is known to the backend afterwards.\<close>

theorem lost_start_resolved:
  "\<exists>ts' w'. session_start fake_jobs q ts w = (Inr (fake_handle_for q w), ts', w')
    \<and> fake_lookup_job (id_request_id (cq_identity q)) w' = Some (fake_handle_for q w)
    \<and> length (fk_job_starts w') = length (fk_job_starts w) + (if fk_lose_start w then 0 else 1)"
  by (simp add: session_start_def fake_jobs_def fake_start_job_def fake_lookup_job_def fake_handle_for_def Let_def)

section \<open>Round trips of the file store\<close>

lemma fake_write_then_read:
  assumes "utf8_len (wq_content wq) \<le> rq_max_bytes rq" "rq_path rq = wq_path wq"
  shows "fst (fake_read_text rq (snd (fake_write_text wq w)))
    = Inr \<lparr>rr_identity = rq_identity rq, rr_path = wq_path wq, rr_content = wq_content wq,
           rr_size_bytes = wr_bytes_written (fst (fake_write_text wq w))\<rparr>"
  using assms by (simp add: fake_read_text_def fake_write_text_def Let_def)

lemma fake_deleted_gone:
  "map_of (fk_files (snd (fake_delete q w))) (xd_path q) = None"
proof -
  have "map_of (filter (\<lambda>p. fst p \<notin> T) d) k = (if k \<in> T then None else map_of d k)" for T d and k :: string
    by (induction d) auto
  then show ?thesis
    by (auto simp: fake_delete_def fake_under_def Let_def map_of_eq_None_iff)
qed

section \<open>Behaviours worth knowing\<close>

definition demo_lease_request :: "string \<Rightarrow> ExecutionLeaseRequest" where
  "demo_lease_request i = \<lparr>lq_request_id = i, lq_backend_id = ''fake'', lq_workspace_id = None,
     lq_ownership = RUNTIME_OWNED, lq_attach_ref = None, lq_ttl_seconds = None, lq_metadata = []\<rparr>"

definition attached_ref :: ExecutionLeaseRef where
  "attached_ref = \<lparr>lr_lease_id = ''warm-1'', lr_generation = ''gen-1'', lr_backend_id = ''fake'', lr_ownership = RUNTIME_OWNED, lr_workspace_id = None\<rparr>"

text \<open>A second request id replaces the held lease, and only the second environment is released; a
  lease that arrives unusable is not released either.\<close>

lemma replaced_lease_not_released:
  "map lr_lease_id (fk_lease_releases (snd (lease_run fake_leases
     [Lease_Acquire (demo_lease_request ''a''), Lease_Acquire (demo_lease_request ''b''), Lease_Close] (new_manager, new_fake))))
   = [''lease-2'']"
  by code_simp

lemma unusable_lease_not_released:
  "fk_lease_releases (snd (lease_run fake_leases
     [Lease_Acquire (demo_lease_request ''a''), Lease_Close] (new_manager, new_fake\<lparr>fk_acquire_state := Some L_PENDING\<rparr>)))
   = []"
  by code_simp

text \<open>A closed manager still accepts a lease by reference, and nothing tears that one down.\<close>

lemma closed_manager_attaches:
  "(let (m, w) = lease_run fake_leases [Lease_Acquire (demo_lease_request ''a''), Lease_Close, Lease_Attach attached_ref, Lease_Close]
      (new_manager, new_fake\<lparr>fk_known_generations := [(''warm-1'', ''gen-1'')]\<rparr>)
    in (map_option (\<lambda>l. lr_lease_id (le_ref l)) (lm_lease m), map lr_lease_id (fk_lease_releases w), fk_lease_detaches w))
   = (Some ''warm-1'', [''lease-1''], [])"
  by code_simp

text \<open>A terminal snapshot of another generation is returned as the outcome when none was recorded, and
  conflicting content under a seen identity is dropped without an error.\<close>

lemma stale_snapshot_returned:
  "eh_execution_generation (ts_handle s) \<noteq> eh_execution_generation h \<Longrightarrow>
   fst (resolve_terminal s (new_observer h)) = Inr s"
  by (simp add: resolve_terminal_def fence_stale_def new_observer_def)

lemma conflicting_event_dropped:
  "ee_execution_generation e = eh_execution_generation h \<Longrightarrow> conflicts_with e e' \<Longrightarrow>
   fst (ingest_events [e, e'] ([], new_observer h)) = [e]"
  by (auto simp: conflicts_with_def identity_key_def fence_stale_def new_observer_def)

section \<open>Witnesses\<close>

lemma demo_lease_run: "fk_lease_releases (snd (lease_run fake_leases [Lease_Acquire (demo_lease_request ''a''), Lease_Close] (new_manager, new_fake)))
    = [\<lparr>lr_lease_id = ''lease-1'', lr_generation = ''gen-1'', lr_backend_id = ''fake'', lr_ownership = RUNTIME_OWNED, lr_workspace_id = None\<rparr>]"
  by code_simp

lemma new_fake_logs [simp]: "fk_lease_releases new_fake = []" "fk_lease_detaches new_fake = []" "fk_job_starts new_fake = []"
  by (simp_all add: new_fake_def)


lemma lease_manager_fails_closed_witness:
  "\<exists>m w'. lease_run fake_leases [Lease_Acquire (demo_lease_request ''a'')] (new_manager, new_fake) = (m, w')
    \<and> (\<forall>l. lm_lease m = Some l \<longrightarrow> le_state l = L_READY)"
proof -
  obtain m w' where run: "lease_run fake_leases [Lease_Acquire (demo_lease_request ''a'')] (new_manager, new_fake) = (m, w')"
    by fastforce
  from lease_manager_fails_closed [OF run] run show ?thesis by blast
qed

definition demo_command :: ExecutionCommandRequest where
  "demo_command = \<lparr>cq_identity = \<lparr>id_backend_id = ''fake'', id_run_id = ''r'', id_attempt_id = ''1'', id_tool_call_id = ''t'',
     id_request_id = ''k''\<rparr>, cq_command = ''make'', cq_cwd = ''/work'', cq_timeout_seconds = 60, cq_max_output_chars = 100\<rparr>"

lemma job_dispatched_at_most_once_witness:
  "length (fk_job_starts (fold (job_act_step fake_jobs (fake_handle_for demo_command new_fake)) [Act_Observe None 5, Act_Stop CTL_STOP HOST_OWNED True]
     (snd (snd (session_start fake_jobs demo_command [] new_fake))))) \<le> 1"
proof -
  obtain st ts' w1 where s: "session_start fake_jobs demo_command [] new_fake = (st, ts', w1)" by (metis prod_cases3)
  from job_dispatched_at_most_once [OF fake_jobs.job_dispatcher_axioms s]
  show ?thesis unfolding s by (simp del: fold_Cons fold_simps)
qed

definition demo_event :: "int \<Rightarrow> ExecutionEvent" where
  "demo_event i = \<lparr>ee_execution_generation = ''gen-1'', ee_sequence = i, ee_kind = EV_OUTPUT, ee_text = [], ee_terminal = False,
     ee_metadata = []\<rparr>"

definition demo_page :: "int list \<Rightarrow> ExecutionEventPage" where
  "demo_page is = \<lparr>pg_events = map demo_event is,
     pg_next_cursor = \<lparr>cu_job_id = ''job-k'', cu_execution_generation = ''gen-1'', cu_last_sequence = 0\<rparr>,
     pg_gap_detected = False, pg_complete = False\<rparr>"

text \<open>Two overlapping pages, then an empty one, on the in-memory backend.\<close>

definition demo_pages :: "ExecutionEventPage list" where
  "demo_pages = [demo_page [0, 1], demo_page [1, 2], demo_page []]"

lemma fake_pages_from:
  "pages_from fake_jobs h c w read c' w' \<Longrightarrow>
   set (concat (map pg_events read)) \<subseteq> set (concat (map pg_events (fk_job_pages w)))"
proof (induction read arbitrary: c w)
  case (Cons p read)
  then obtain w1 where o: "fake_observe h c w = (p, w1)" "pages_from fake_jobs h (pg_next_cursor p) w1 read c' w'"
    by (auto simp: fake_jobs_def map_prod_def split: prod.splits)
  then have "fk_job_pages w1 = fk_job_pages w" "set (pg_events p) \<subseteq> set (concat (map pg_events (fk_job_pages w)))"
    by (auto simp: fake_observe_def Let_def split: if_splits intro: nth_mem)
  with Cons.IH [OF o(2)] show ?case by simp
qed simp

theorem events_observed_exactly_once_witness:
  "distinct (map identity_key (fst (ingest_all demo_pages (new_observer (fake_handle_for demo_command new_fake)))))
   \<and> (\<exists>read. no_conflict read \<and> observed_once (fake_handle_for demo_command new_fake) read
        (fst (snd (observe_to_terminal fake_jobs (fake_handle_for demo_command new_fake) None 5 [] (new_fake\<lparr>fk_job_pages := demo_pages\<rparr>)))))"
proof -
  let ?h = "fake_handle_for demo_command new_fake"
  let ?w = "new_fake\<lparr>fk_job_pages := demo_pages\<rparr>"
  have ok: "no_conflict demo_pages" by (auto simp: no_conflict_def demo_pages_def demo_page_def demo_event_def conflicts_with_def identity_key_def)
  obtain read c' w' where r: "pages_from fake_jobs ?h (initial_cursor ?h) ?w read c' w'" "length read \<le> 5"
    "no_conflict read \<longrightarrow> observed_once ?h read (fst (snd (observe_to_terminal fake_jobs ?h None 5 [] ?w)))"
    using events_observed_exactly_once [of demo_pages ?h fake_jobs None 5 "[]" ?w] by (auto simp: Let_def)
  have "set (concat (map pg_events read)) \<subseteq> set (concat (map pg_events demo_pages))" using fake_pages_from [OF r(1)] by simp
  then have "no_conflict read" using ok unfolding no_conflict_def by blast
  then have "\<exists>read. no_conflict read \<and> observed_once ?h read (fst (snd (observe_to_terminal fake_jobs ?h None 5 [] ?w)))"
    using r(3) by blast
  moreover have "observed_once ?h demo_pages (fst (ingest_all demo_pages (new_observer ?h)))"
    using conjunct1 [OF events_observed_exactly_once [of demo_pages ?h]] ok by simp
  ultimately show ?thesis by (simp add: observed_once_def Let_def)
qed

end
