(* ===== verification/Tool_Policy.thy ===== *)
theory Tool_Policy
  imports Execution_Lease
begin

text \<open>
  The static tool policy (\<open>tools/policy/evaluator.py\<close>, \<open>tools/policy/risk.py\<close>, \<open>contracts/tools/\<close>) with
  the run's strategy-grant ledger (\<open>tools/context.py\<close>), and the partition of planned calls into
  parallel batches and serial calls (\<open>tools/executor/partition.py\<close>). Validation of a planning policy
  given as a dictionary and the fingerprint of a call are parameters.
\<close>

section \<open>Manifests and calls\<close>

datatype ToolRisk = R_LOW | R_MEDIUM | R_HIGH

primrec tool_risk_value :: "ToolRisk \<Rightarrow> string" where
  "tool_risk_value R_LOW = ''low''"
| "tool_risk_value R_MEDIUM = ''medium''"
| "tool_risk_value R_HIGH = ''high''"

text \<open>\<open>ToolRisk(text)\<close>; \<open>None\<close> is a raised \<open>ValueError\<close>.\<close>

definition tool_risk_of :: "string \<Rightarrow> ToolRisk option" where
  "tool_risk_of s = map_of [(''low'', R_LOW), (''medium'', R_MEDIUM), (''high'', R_HIGH)] s"

primrec risk_order :: "ToolRisk \<Rightarrow> nat" where
  "risk_order R_LOW = 1"
| "risk_order R_MEDIUM = 2"
| "risk_order R_HIGH = 3"

datatype SideEffectClass = SE_NONE | SE_READ_ONLY | SE_REVERSIBLE_WRITE | SE_IRREVERSIBLE_WRITE | SE_EXTERNAL_ACTION

primrec side_effect_value :: "SideEffectClass \<Rightarrow> string" where
  "side_effect_value SE_NONE = ''none''"
| "side_effect_value SE_READ_ONLY = ''read_only''"
| "side_effect_value SE_REVERSIBLE_WRITE = ''reversible_write''"
| "side_effect_value SE_IRREVERSIBLE_WRITE = ''irreversible_write''"
| "side_effect_value SE_EXTERNAL_ACTION = ''external_action''"

datatype interrupt_behavior = IB_CANCEL | IB_BLOCK

datatype ApprovalMode = AM_NEVER | AM_ON_POLICY_MATCH | AM_ALWAYS | AM_STEP_BY_STEP

record ToolExecutionRequirement =
  er_required :: "CapabilityName list"
  er_hard :: bool

text \<open>The fields the registry, the policy and the executor read.\<close>

record ToolManifest =
  tm_name :: string
  tm_risk :: ToolRisk
  tm_side_effect :: SideEffectClass
  tm_approval_mode :: ApprovalMode
  tm_output_char_budget :: "int option"
  tm_idempotent :: bool
  tm_concurrency_safe :: "bool option"
  tm_interrupt_behavior :: "interrupt_behavior option"
  tm_should_defer :: bool
  tm_always_load :: bool
  tm_max_result_size_chars :: "int option"
  tm_success_field :: "string option"
  tm_args_schema :: "pydict option"
  tm_aliases :: "string list"
  tm_execution_requirement :: "ToolExecutionRequirement option"

definition is_concurrency_safe :: "ToolManifest \<Rightarrow> bool" where
  "is_concurrency_safe m =
     (case tm_concurrency_safe m of
        Some b \<Rightarrow> b
      | None \<Rightarrow> tm_idempotent m \<and> tm_side_effect m \<in> {SE_NONE, SE_READ_ONLY})"

definition resolved_interrupt_behavior :: "ToolManifest \<Rightarrow> interrupt_behavior" where
  "resolved_interrupt_behavior m =
     (case tm_interrupt_behavior m of
        Some b \<Rightarrow> b
      | None \<Rightarrow> if tm_side_effect m \<in> {SE_IRREVERSIBLE_WRITE, SE_EXTERNAL_ACTION} then IB_BLOCK else IB_CANCEL)"

definition is_deferred :: "ToolManifest \<Rightarrow> bool" where
  "is_deferred m = (if tm_always_load m then False else tm_should_defer m)"

record ToolCall =
  tc_tool_name :: string
  tc_args :: pydict
  tc_tool_call_id :: "string option"
  tc_metadata :: pydict

definition is_risk_at_or_above :: "ToolManifest \<Rightarrow> ToolRisk \<Rightarrow> bool" where
  "is_risk_at_or_above m threshold = (risk_order (tm_risk m) \<ge> risk_order threshold)"

section \<open>The strategy-grant ledger\<close>

record strategy_ledger =
  sg_first_denial_fingerprint :: "string option"
  sg_first_denial_tool :: "string option"
  sg_armed :: bool
  sg_consumed :: bool
  sg_arm_refused :: "string option"

text \<open>The context variable: no ledger before the first use.\<close>

type_synonym grant_var = "strategy_ledger option"

definition strategy_grant_state :: "grant_var \<Rightarrow> strategy_ledger" where
  "strategy_grant_state v =
     (case v of
        Some st \<Rightarrow> st
      | None \<Rightarrow> \<lparr>sg_first_denial_fingerprint = None, sg_first_denial_tool = None, sg_armed = False,
                 sg_consumed = False, sg_arm_refused = None\<rparr>)"

definition record_first_strategy_denial :: "string \<Rightarrow> string \<Rightarrow> grant_var \<Rightarrow> grant_var" where
  "record_first_strategy_denial fp tool v =
     (let st = strategy_grant_state v
      in if str_truthy (sg_first_denial_fingerprint st) then Some st
         else Some (st\<lparr>sg_first_denial_fingerprint := Some fp, sg_first_denial_tool := Some tool\<rparr>))"

record arm_answer =
  aa_armed :: bool
  aa_tool :: "string option"
  aa_refused :: "string option"

definition arm_strategy_grant :: "grant_var \<Rightarrow> arm_answer \<times> grant_var" where
  "arm_strategy_grant v =
     (let st = strategy_grant_state v;
          st1 = (if sg_consumed st then st\<lparr>sg_armed := False, sg_arm_refused := Some ''grant_already_consumed''\<rparr>
                 else if \<not> str_truthy (sg_first_denial_fingerprint st)
                 then st\<lparr>sg_armed := False, sg_arm_refused := Some ''no_denied_gated_call''\<rparr>
                 else st\<lparr>sg_armed := True, sg_arm_refused := None\<rparr>)
      in (\<lparr>aa_armed = sg_armed st1, aa_tool = sg_first_denial_tool st1, aa_refused = sg_arm_refused st1\<rparr>, Some st1))"

definition consume_strategy_grant :: "string \<Rightarrow> grant_var \<Rightarrow> bool \<times> grant_var" where
  "consume_strategy_grant fp v =
     (let st = strategy_grant_state v
      in if \<not> sg_armed st \<or> sg_consumed st then (False, Some st)
         else if (case sg_first_denial_fingerprint st of None \<Rightarrow> [] | Some x \<Rightarrow> x) \<noteq> fp then (False, Some st)
         else (True, Some (st\<lparr>sg_armed := False, sg_consumed := True\<rparr>)))"

section \<open>Planning policies\<close>

datatype PlanningPolicyMode =
    PM_OFF | PM_PROMPT_ONLY | PM_REQUIRED_FOR_WRITES | PM_REQUIRED_FOR_RISKY_TOOLS | PM_ALWAYS_FOR_MULTISTEP
  | PM_STRATEGY_REQUIRED

primrec planning_mode_value :: "PlanningPolicyMode \<Rightarrow> string" where
  "planning_mode_value PM_OFF = ''off''"
| "planning_mode_value PM_PROMPT_ONLY = ''prompt_only''"
| "planning_mode_value PM_REQUIRED_FOR_WRITES = ''required_for_writes''"
| "planning_mode_value PM_REQUIRED_FOR_RISKY_TOOLS = ''required_for_risky_tools''"
| "planning_mode_value PM_ALWAYS_FOR_MULTISTEP = ''always_for_multistep''"
| "planning_mode_value PM_STRATEGY_REQUIRED = ''strategy_required_before_execution''"

record PlanningPolicyInput =
  pl_enabled :: "bool option"
  pl_mode :: PlanningPolicyMode
  pl_approved :: bool
  pl_approved_plan_id :: "string option"
  pl_approved_plan :: "pydict option"
  pl_continue_without_plan :: bool
  pl_required_plan_hash :: "string option"
  pl_exempt_tools :: "string list option"
  pl_gated_tools :: "string list option"
  pl_gated_side_effects :: "string list option"
  pl_min_risk :: "string option"
  pl_multistep :: bool
  pl_expected_steps :: "int option"
  pl_step_threshold :: int

definition default_planning :: PlanningPolicyInput where
  "default_planning =
     \<lparr>pl_enabled = None, pl_mode = PM_REQUIRED_FOR_WRITES, pl_approved = False, pl_approved_plan_id = None,
      pl_approved_plan = None, pl_continue_without_plan = False, pl_required_plan_hash = None,
      pl_exempt_tools = None, pl_gated_tools = None, pl_gated_side_effects = None, pl_min_risk = None,
      pl_multistep = False, pl_expected_steps = None, pl_step_threshold = 2\<rparr>"

text \<open>The texts of a list of signals; a signal that is not a string is written by a parameter.\<close>

definition signal_texts :: "(pyval \<Rightarrow> string) \<Rightarrow> pyval \<Rightarrow> string list" where
  "signal_texts str v =
     (case v of
        PList xs \<Rightarrow> filter (\<lambda>s. py_strip s \<noteq> []) (map (\<lambda>x. case x of PStr s \<Rightarrow> s | _ \<Rightarrow> str x) xs)
      | _ \<Rightarrow> [])"

text \<open>\<open>validate\<close> is \<open>model_validate\<close>; \<open>Inl\<close> is its \<open>ValidationError\<close>.\<close>

definition planning_from_metadata ::
  "(pydict \<Rightarrow> string + PlanningPolicyInput) \<Rightarrow> (pyval \<Rightarrow> string) \<Rightarrow> pydict \<Rightarrow> string + PlanningPolicyInput option" where
  "planning_from_metadata validate str md =
     (case dict_get md ''force_planning'' of
        PDict raw \<Rightarrow>
          (let payload = (if map_of raw ''mode'' \<noteq> None \<and> map_of raw ''enabled'' = None
                          then dict_set ''enabled'' (PBool True) raw else raw)
           in case validate payload of Inl e \<Rightarrow> Inl e | Inr p \<Rightarrow> Inr (Some p))
      | _ \<Rightarrow>
          if dict_get md ''force_planning_enabled'' = PBool True then Inr (Some (default_planning\<lparr>pl_enabled := Some True\<rparr>))
          else if dict_get md ''planning_hint_enforce'' = PBool True
          then (case dict_get md ''planning_hint'' of
                  PDict hint \<Rightarrow>
                    if dict_get hint ''level'' = PStr ''required''
                    then (let signals = signal_texts str (dict_get hint ''signals'')
                          in if ''subagent_spawn_requested'' \<in> set signals
                             then Inr (Some (default_planning\<lparr>pl_enabled := Some True, pl_gated_tools := Some [''agent_tool'']\<rparr>))
                             else if ''expected_steps_ge_4'' \<in> set signals
                             then Inr (Some (default_planning\<lparr>pl_enabled := Some True, pl_mode := PM_ALWAYS_FOR_MULTISTEP,
                                               pl_expected_steps := Some 4\<rparr>))
                             else Inr (Some (default_planning\<lparr>pl_enabled := Some True\<rparr>)))
                    else Inr None
                | _ \<Rightarrow> Inr None)
          else Inr None)"

definition default_exempt_tools :: "string list" where
  "default_exempt_tools =
     [''ask_user_question'', ''continue_without_plan'', ''enter_plan_mode'', ''exit_plan_mode_v2'',
      ''planning_state_update'', ''todo_write'']"

definition default_gated_side_effects :: "string list" where
  "default_gated_side_effects =
     map side_effect_value [SE_REVERSIBLE_WRITE, SE_IRREVERSIBLE_WRITE, SE_EXTERNAL_ACTION]"

definition force_planning_enabled :: "PlanningPolicyInput \<Rightarrow> bool" where
  "force_planning_enabled p =
     (if pl_mode p \<in> {PM_OFF, PM_PROMPT_ONLY} then False
      else if pl_enabled p = Some False then False
      else pl_enabled p = Some True \<or> pl_mode p \<noteq> PM_REQUIRED_FOR_WRITES)"

text \<open>\<open>isinstance(x, str) and x.strip()\<close> on an optional text.\<close>

definition nonblank_opt :: "string option \<Rightarrow> bool" where
  "nonblank_opt x = (case x of None \<Rightarrow> False | Some s \<Rightarrow> py_strip s \<noteq> [])"

definition approved_content_hash :: "PlanningPolicyInput \<Rightarrow> string" where
  "approved_content_hash p =
     (case pl_approved_plan p of
        None \<Rightarrow> []
      | Some d \<Rightarrow> (case dict_get d ''content_hash'' of PStr h \<Rightarrow> py_strip h | _ \<Rightarrow> []))"

definition has_approved_plan :: "PlanningPolicyInput \<Rightarrow> bool" where
  "has_approved_plan p =
     (if nonblank_opt (pl_required_plan_hash p)
      then approved_content_hash p = py_strip (the (pl_required_plan_hash p))
      else if pl_approved p then True
      else if nonblank_opt (pl_approved_plan_id p) then True
      else (case pl_approved_plan p of
              None \<Rightarrow> False
            | Some d \<Rightarrow> if nonblank (dict_get d ''plan_id'') then True else dict_get d ''approved'' = PBool True))"

definition force_planning_applies :: "PlanningPolicyInput \<Rightarrow> ToolManifest \<Rightarrow> ToolCall \<Rightarrow> int \<Rightarrow> bool" where
  "force_planning_applies p m c calls =
     (if tc_tool_name c \<in> set (case pl_exempt_tools p of Some xs \<Rightarrow> xs | None \<Rightarrow> default_exempt_tools) then False
      else if (case pl_gated_tools p of Some xs \<Rightarrow> tc_tool_name c \<in> set xs | None \<Rightarrow> False) then True
      else if pl_mode p = PM_ALWAYS_FOR_MULTISTEP then
        (if pl_multistep p then True
         else if (case pl_expected_steps p of Some n \<Rightarrow> n \<ge> pl_step_threshold p | None \<Rightarrow> False) then True
         else calls + 1 \<ge> pl_step_threshold p)
      else if pl_mode p = PM_REQUIRED_FOR_RISKY_TOOLS then
        is_risk_at_or_above m
          (case tool_risk_of (py_strip (case pl_min_risk p of Some r \<Rightarrow> if r = [] then ''medium'' else r | None \<Rightarrow> ''medium'')) of
             Some r \<Rightarrow> r | None \<Rightarrow> R_MEDIUM)
      else if side_effect_value (tm_side_effect m)
                \<in> set (case pl_gated_side_effects p of Some xs \<Rightarrow> xs | None \<Rightarrow> default_gated_side_effects) then True
      else if nonblank_opt (pl_min_risk p) then
        (case tool_risk_of (py_strip (the (pl_min_risk p))) of Some r \<Rightarrow> is_risk_at_or_above m r | None \<Rightarrow> False)
      else False)"

section \<open>The evaluator\<close>

datatype ToolPolicyMode = TP_ALLOW_TOOLS | TP_NO_TOOLS | TP_CLARIFY | TP_APPROVAL_REQUIRED

datatype ToolPolicyDecision = TD_ALLOW | TD_DENY | TD_INTERRUPT

text \<open>The reason of an outcome, with the data its text mentions; the constructors of the third line on are
  those of the executor, and \<open>Host_Text\<close> is a text a host callback supplied.\<close>

datatype policy_reason =
    Policy_Passed | Tools_Disabled | Clarification_Mode | Approval_Mode | Not_Allowed string | Denied_Tool string
  | Budget_Exceeded | Plan_Required string | Strategy_Required string | Risk_Needs_Approval ToolRisk
  | Approval_Previously_Granted | Matches_Prompt string | Gate_Raised string | Gate_Provenance_Rejected
  | Gate_Denied string | Gate_Unsupported string | Hook_Error string | Host_Text string
  | With_Feedback policy_reason string

record ToolPolicyOutcome =
  to_decision :: ToolPolicyDecision
  to_reason :: policy_reason
  to_interrupt_reason :: "string option"
  to_interrupt_title :: "string option"
  to_metadata :: pydict

record ToolPolicyInput =
  ti_mode :: ToolPolicyMode
  ti_allowed_tools :: "string list option"
  ti_denied_tools :: "string list option"
  ti_max_tool_calls :: "int option"
  ti_approval_required_for_risk :: "ToolRisk option"
  ti_metadata :: pydict

text \<open>The parameters of the evaluator.\<close>

record policy_params =
  ep_validate :: "pydict \<Rightarrow> string + PlanningPolicyInput"
  ep_str :: "pyval \<Rightarrow> string"
  ep_fingerprint :: "string \<Rightarrow> pydict \<Rightarrow> string"

definition outcome :: "ToolPolicyDecision \<Rightarrow> policy_reason \<Rightarrow> string option \<Rightarrow> pydict \<Rightarrow> ToolPolicyOutcome" where
  "outcome d r i md =
     \<lparr>to_decision = d, to_reason = r, to_interrupt_reason = i, to_interrupt_title = None, to_metadata = md\<rparr>"

text \<open>The metadata of a denial by the planning gate; the state of the grant is recorded in strategy mode.\<close>

definition force_planning_metadata :: "PlanningPolicyInput \<Rightarrow> ToolManifest \<Rightarrow> ToolCall \<Rightarrow> pydict \<Rightarrow> pydict" where
  "force_planning_metadata p m c grant =
     [(''force_planning'', PDict
        ([(''required'', PBool True), (''tool_name'', PStr (tc_tool_name c)),
          (''risk'', PStr (tool_risk_value (tm_risk m))),
          (''side_effect'', PStr (side_effect_value (tm_side_effect m))),
          (''mode'', PStr (planning_mode_value (pl_mode p)))] @ grant))]"

definition strategy_grant_view :: "strategy_ledger \<Rightarrow> string \<Rightarrow> pydict" where
  "strategy_grant_view st fp =
     [(''strategy_grant'', PDict
        [(''armed'', PBool (sg_armed st \<and> \<not> sg_consumed st)), (''consumed'', PBool (sg_consumed st)),
         (''bound_to_this_call'',
            PBool ((case sg_first_denial_fingerprint st of None \<Rightarrow> [] | Some x \<Rightarrow> x) = fp))])]"

definition evaluate_force_planning ::
  "policy_params \<Rightarrow> ToolPolicyInput \<Rightarrow> ToolManifest \<Rightarrow> ToolCall \<Rightarrow> int \<Rightarrow> grant_var \<Rightarrow>
   (string + ToolPolicyOutcome option) \<times> grant_var" where
  "evaluate_force_planning ep pol m c calls v =
     (case planning_from_metadata (ep_validate ep) (ep_str ep) (ti_metadata pol) of
        Inl e \<Rightarrow> (Inl e, v)
      | Inr None \<Rightarrow> (Inr None, v)
      | Inr (Some p) \<Rightarrow>
          if \<not> force_planning_enabled p then (Inr None, v)
          else if pl_mode p = PM_STRATEGY_REQUIRED \<and> pl_continue_without_plan p then (Inr None, v)
          else if has_approved_plan p then (Inr None, v)
          else if \<not> force_planning_applies p m c calls then (Inr None, v)
          else if pl_mode p = PM_STRATEGY_REQUIRED then
            (let fp = ep_fingerprint ep (tc_tool_name c) (tc_args c); (granted, v1) = consume_strategy_grant fp v
             in if granted then (Inr None, v1)
                else
                  (let v2 = record_first_strategy_denial fp (tc_tool_name c) v1; st = strategy_grant_state v2
                   in (Inr (Some (outcome TD_DENY (Strategy_Required (tc_tool_name c)) None
                              (force_planning_metadata p m c (strategy_grant_view st fp)))), v2)))
          else (Inr (Some (outcome TD_DENY (Plan_Required (tc_tool_name c)) None (force_planning_metadata p m c []))), v))"

definition evaluate_tool_policy ::
  "policy_params \<Rightarrow> ToolPolicyInput \<Rightarrow> ToolManifest \<Rightarrow> ToolCall \<Rightarrow> int \<Rightarrow> grant_var \<Rightarrow>
   (string + ToolPolicyOutcome) \<times> grant_var" where
  "evaluate_tool_policy ep pol m c calls v =
     (if ti_mode pol = TP_NO_TOOLS then (Inr (outcome TD_DENY Tools_Disabled None []), v)
      else if ti_mode pol = TP_CLARIFY then (Inr (outcome TD_INTERRUPT Clarification_Mode (Some ''clarification_required'') []), v)
      else if ti_mode pol = TP_APPROVAL_REQUIRED then (Inr (outcome TD_INTERRUPT Approval_Mode (Some ''approval_required'') []), v)
      else if (case ti_allowed_tools pol of Some xs \<Rightarrow> tc_tool_name c \<notin> set xs | None \<Rightarrow> False)
      then (Inr (outcome TD_DENY (Not_Allowed (tc_tool_name c)) None []), v)
      else if tc_tool_name c \<in> set (case ti_denied_tools pol of Some xs \<Rightarrow> xs | None \<Rightarrow> [])
      then (Inr (outcome TD_DENY (Denied_Tool (tc_tool_name c)) None []), v)
      else if (case ti_max_tool_calls pol of Some n \<Rightarrow> calls \<ge> n | None \<Rightarrow> False)
      then (Inr (outcome TD_DENY Budget_Exceeded None []), v)
      else
        (case evaluate_force_planning ep pol m c calls v of
           (Inl e, v1) \<Rightarrow> (Inl e, v1)
         | (Inr (Some out), v1) \<Rightarrow> (Inr out, v1)
         | (Inr None, v1) \<Rightarrow>
             (case ti_approval_required_for_risk pol of
                Some t \<Rightarrow>
                  if is_risk_at_or_above m t
                  then (Inr (outcome TD_INTERRUPT (Risk_Needs_Approval (tm_risk m)) (Some ''approval_required'')
            [(''risk_threshold'', PStr (tool_risk_value t))]), v1)
                  else (Inr (outcome TD_ALLOW Policy_Passed None []), v1)
              | None \<Rightarrow> (Inr (outcome TD_ALLOW Policy_Passed None []), v1))))"

section \<open>Partition of planned calls\<close>

datatype 'a ExecutionUnit = ParallelBatch "'a list" | SerialCall 'a

text \<open>\<open>pending[start : start + batch_limit]\<close> for every start; the limit is positive.\<close>

function chunks :: "nat \<Rightarrow> 'a list \<Rightarrow> 'a list list" where
  "chunks n xs = (if xs = [] \<or> n = 0 then [] else take n xs # chunks n (drop n xs))"
  by pat_completeness auto
termination by (relation "measure (\<lambda>(n, xs). length xs)") auto

declare chunks.simps [simp del]

definition flush_pending :: "nat option \<Rightarrow> 'a list \<Rightarrow> 'a ExecutionUnit list" where
  "flush_pending limit pending =
     (if pending = [] then []
      else (case limit of None \<Rightarrow> [ParallelBatch pending] | Some n \<Rightarrow> map ParallelBatch (chunks n pending)))"

fun partition_loop ::
  "('a \<Rightarrow> bool) \<Rightarrow> nat option \<Rightarrow> 'a list \<Rightarrow> 'a ExecutionUnit list \<Rightarrow> 'a list \<Rightarrow> 'a ExecutionUnit list" where
  "partition_loop safe limit [] units pending = units @ flush_pending limit pending"
| "partition_loop safe limit (c # cs) units pending =
     (if safe c then partition_loop safe limit cs units (pending @ [c])
      else partition_loop safe limit cs (units @ flush_pending limit pending @ [SerialCall c]) [])"

definition partition_concurrent_calls ::
  "('a \<Rightarrow> bool) \<Rightarrow> int option \<Rightarrow> 'a list \<Rightarrow> string + 'a ExecutionUnit list" where
  "partition_concurrent_calls safe limit calls =
     (if (case limit of None \<Rightarrow> False | Some n \<Rightarrow> n \<le> 0) then Inl ''batch_limit must be positive when set''
      else Inr (partition_loop safe (map_option nat limit) calls [] []))"

text \<open>What the lookup of a tool name finds: nothing, an object without the method, one whose method
  raises, or a manifest.\<close>

datatype manifest_view = No_Manifest | No_Safety_Method | Safety_Method_Raises | Manifest ToolManifest

definition is_call_concurrency_safe :: "(string \<Rightarrow> manifest_view) \<Rightarrow> ToolCall \<Rightarrow> bool" where
  "is_call_concurrency_safe lookup c =
     (case lookup (tc_tool_name c) of Manifest m \<Rightarrow> is_concurrency_safe m | _ \<Rightarrow> False)"

section \<open>Partitions keep the order\<close>

primrec unit_items :: "'a ExecutionUnit \<Rightarrow> 'a list" where
  "unit_items (ParallelBatch xs) = xs"
| "unit_items (SerialCall x) = [x]"

text \<open>A unit of the right shape, and two batches side by side only when the first is full.\<close>

definition unit_ok :: "('a \<Rightarrow> bool) \<Rightarrow> nat option \<Rightarrow> 'a ExecutionUnit \<Rightarrow> bool" where
  "unit_ok safe limit u =
     (case u of
        SerialCall c \<Rightarrow> \<not> safe c
      | ParallelBatch b \<Rightarrow> b \<noteq> [] \<and> list_all safe b \<and> (\<forall>n. limit = Some n \<longrightarrow> length b \<le> n))"

definition may_follow :: "nat option \<Rightarrow> 'a ExecutionUnit \<Rightarrow> 'a ExecutionUnit \<Rightarrow> bool" where
  "may_follow limit u v = (\<forall>a b. u = ParallelBatch a \<and> v = ParallelBatch b \<longrightarrow> limit = Some (length a))"

lemma chunks_Nil [simp]: "chunks n [] = []"
  by (subst chunks.simps) simp

lemma chunks_concat: "0 < n \<Longrightarrow> concat (chunks n xs) = xs"
proof (induction n xs rule: chunks.induct)
  case (1 n xs)
  then show ?case by (cases "xs = []") (simp_all add: chunks.simps [of n xs])
qed

lemma chunks_bound: "b \<in> set (chunks n xs) \<Longrightarrow> b \<noteq> [] \<and> length b \<le> n \<and> set b \<subseteq> set xs"
proof (induction n xs rule: chunks.induct)
  case (1 n xs)
  then show ?case
    by (auto simp: chunks.simps [of n xs] split: if_splits dest: in_set_takeD in_set_dropD)
qed

lemma chunks_full: "0 < n \<Longrightarrow> successively (\<lambda>a b. length a = n) (chunks n xs)"
proof (induction n xs rule: chunks.induct)
  case (1 n xs)
  show ?case
  proof (cases "drop n xs")
    case Nil
    then show ?thesis by (simp add: chunks.simps [of n xs])
  next
    case (Cons y ys)
    then have long: "n < length xs" by (metis drop_eq_Nil leI list.distinct(1))
    obtain c cs where c: "chunks n (drop n xs) = c # cs" using 1(2) Cons by (metis chunks.simps list.distinct(1) neq0_conv)
    have "xs \<noteq> []" using long by auto
    then have "chunks n xs = take n xs # c # cs" using c 1(2) by (simp add: chunks.simps [of n xs])
    moreover have "successively (\<lambda>a b. length a = n) (c # cs)" using 1 \<open>xs \<noteq> []\<close> c by simp
    ultimately show ?thesis using long by simp
  qed
qed

lemma flush_ok:
  assumes "list_all safe pending" "limit \<noteq> Some 0"
  shows "concat (map unit_items (flush_pending limit pending)) = pending"
    and "\<forall>u \<in> set (flush_pending limit pending). unit_ok safe limit u"
    and "successively (may_follow limit) (flush_pending limit pending)"
proof -
  show "concat (map unit_items (flush_pending limit pending)) = pending"
    using assms(2) by (auto simp: flush_pending_def comp_def chunks_concat split: option.splits)
  show "\<forall>u \<in> set (flush_pending limit pending). unit_ok safe limit u"
    using assms by (auto simp: flush_pending_def unit_ok_def list_all_iff split: option.splits dest: chunks_bound)
  show "successively (may_follow limit) (flush_pending limit pending)"
  proof (cases limit)
    case (Some n)
    then have "successively (\<lambda>a b. length a = n) (chunks n pending)" using assms(2) by (intro chunks_full) auto
    then have "successively (\<lambda>a b. may_follow limit (ParallelBatch a) (ParallelBatch b)) (chunks n pending)"
      by (rule successively_mono) (auto simp: may_follow_def Some)
    then show ?thesis by (simp add: flush_pending_def Some successively_map)
  qed (simp add: flush_pending_def)
qed

lemma serial_follows: "may_follow limit u (SerialCall c)" "may_follow limit (SerialCall c) u"
  by (simp_all add: may_follow_def)

lemma successively_serial_join:
  assumes "successively (may_follow limit) us" "successively (may_follow limit) vs"
    and "us = [] \<or> (\<exists>c. last us = SerialCall c)"
  shows "successively (may_follow limit) (us @ vs)"
  using assms by (auto simp: successively_append_iff serial_follows)

lemma successively_serial_snoc:
  "successively (may_follow limit) us \<Longrightarrow> successively (may_follow limit) (us @ [SerialCall c])"
  by (simp add: successively_append_iff serial_follows)

lemma partition_loop_ok:
  assumes "list_all safe pending" "limit \<noteq> Some 0"
    and "\<forall>u \<in> set units. unit_ok safe limit u" "successively (may_follow limit) units"
    and "units = [] \<or> (\<exists>c. last units = SerialCall c)"
  shows "concat (map unit_items (partition_loop safe limit calls units pending)) = concat (map unit_items units) @ pending @ calls
    \<and> (\<forall>u \<in> set (partition_loop safe limit calls units pending). unit_ok safe limit u)
    \<and> successively (may_follow limit) (partition_loop safe limit calls units pending)"
  using assms
proof (induction safe limit calls units pending rule: partition_loop.induct)
  case (1 safe limit units pending)
  note f = flush_ok [OF 1(1,2)]
  have "successively (may_follow limit) (units @ flush_pending limit pending)"
    by (rule successively_serial_join [OF 1(4) f(3) 1(5)])
  with f 1(3) show ?case by auto
next
  case (2 safe limit c cs units pending)
  show ?case
  proof (cases "safe c")
    case True
    have "list_all safe (pending @ [c])" using 2(3) True by simp
    from 2(1) [OF True this 2(4) 2(5) 2(6) 2(7)] show ?thesis by (simp add: True)
  next
    case False
    note f = flush_ok [OF 2(3,4)]
    have "successively (may_follow limit) (units @ flush_pending limit pending @ [SerialCall c])"
      by (rule successively_serial_join [OF 2(6) successively_serial_snoc [OF f(3)] 2(7)])
    moreover have "\<forall>u \<in> set (units @ flush_pending limit pending @ [SerialCall c]). unit_ok safe limit u"
      using 2(5) f(2) False by (auto simp: unit_ok_def)
    ultimately show ?thesis using 2(2) [OF False _ 2(4)] f(1) by (simp add: False del: set_append)
  qed
qed

text \<open>Partitioning planned calls keeps every call and their order; a call runs alone exactly when it
  is not safe, batches are non-empty, consist of safe calls and respect the limit, and are as large as
  possible: two batches stand side by side only when the first is full.\<close>

lemma partition_keeps_order:
  assumes "partition_concurrent_calls safe limit calls = Inr units"
  shows "concat (map unit_items units) = calls
    \<and> (\<forall>u \<in> set units. case u of
          SerialCall c \<Rightarrow> \<not> safe c
        | ParallelBatch b \<Rightarrow> b \<noteq> [] \<and> list_all safe b \<and> (\<forall>n. limit = Some n \<longrightarrow> int (length b) \<le> n))
    \<and> successively (\<lambda>u v. \<forall>a b. u = ParallelBatch a \<and> v = ParallelBatch b \<longrightarrow> limit = Some (int (length a))) units"
proof -
  let ?l = "map_option nat limit"
  have l: "limit = None \<or> (\<exists>n. limit = Some n \<and> 0 < n)" and u: "units = partition_loop safe ?l calls [] []"
    using assms by (auto simp: partition_concurrent_calls_def not_le split: if_splits option.splits)
  then have ok: "concat (map unit_items units) = calls \<and> (\<forall>u \<in> set units. unit_ok safe ?l u) \<and> successively (may_follow ?l) units"
    using partition_loop_ok [of safe "[]" ?l "[]" calls] by auto
  have "successively (\<lambda>u v. \<forall>a b. u = ParallelBatch a \<and> v = ParallelBatch b \<longrightarrow> limit = Some (int (length a))) units"
    using l by (intro successively_mono [OF conjunct2 [OF conjunct2 [OF ok]]]) (auto simp: may_follow_def)
  moreover have "case u of SerialCall c \<Rightarrow> \<not> safe c
      | ParallelBatch b \<Rightarrow> b \<noteq> [] \<and> list_all safe b \<and> (\<forall>n. limit = Some n \<longrightarrow> int (length b) \<le> n)"
    if "u \<in> set units" for u
    using ok that l by (auto simp: unit_ok_def le_nat_iff split: ExecutionUnit.splits)
  ultimately show ?thesis using ok by blast
qed

lemma partition_keeps_order_witness:
  "partition_concurrent_calls (\<lambda>n::nat. n < 10) (Some 2) [1, 2, 3, 20, 4]
     = Inr [ParallelBatch [1, 2], ParallelBatch [3], SerialCall 20, ParallelBatch [4]]
   \<and> concat (map unit_items [ParallelBatch [1, 2], ParallelBatch [3], SerialCall 20, ParallelBatch [4]]) = [1, 2, 3, 20, 4 :: nat]"
proof -
  have r: "partition_concurrent_calls (\<lambda>n::nat. n < 10) (Some 2) [1, 2, 3, 20, 4]
     = Inr [ParallelBatch [1, 2], ParallelBatch [3], SerialCall 20, ParallelBatch [4]]"
    by (simp add: partition_concurrent_calls_def flush_pending_def chunks.simps)
  from partition_keeps_order [OF r] r show ?thesis by (metis (no_types, lifting))
qed

section \<open>What an allowed call satisfies\<close>

text \<open>The planning gate stands in the way of a call: a plan is required, none is approved, and the gate
  covers the call.\<close>

definition planning_gates :: "policy_params \<Rightarrow> ToolPolicyInput \<Rightarrow> ToolManifest \<Rightarrow> ToolCall \<Rightarrow> int \<Rightarrow> PlanningPolicyInput \<Rightarrow> bool" where
  "planning_gates ep pol m c calls p =
     (planning_from_metadata (ep_validate ep) (ep_str ep) (ti_metadata pol) = Inr (Some p)
      \<and> force_planning_enabled p \<and> \<not> (pl_mode p = PM_STRATEGY_REQUIRED \<and> pl_continue_without_plan p)
      \<and> \<not> has_approved_plan p \<and> force_planning_applies p m c calls)"

lemma evaluate_force_planning_gated:
  assumes "planning_gates ep pol m c calls p"
  shows "evaluate_force_planning ep pol m c calls v =
     (if pl_mode p = PM_STRATEGY_REQUIRED then
        (let fp = ep_fingerprint ep (tc_tool_name c) (tc_args c); (granted, v1) = consume_strategy_grant fp v
         in if granted then (Inr None, v1)
            else
              (let v2 = record_first_strategy_denial fp (tc_tool_name c) v1; st = strategy_grant_state v2
               in (Inr (Some (outcome TD_DENY (Strategy_Required (tc_tool_name c)) None
                          (force_planning_metadata p m c (strategy_grant_view st fp)))), v2)))
      else (Inr (Some (outcome TD_DENY (Plan_Required (tc_tool_name c)) None (force_planning_metadata p m c []))), v))"
  using assms unfolding planning_gates_def evaluate_force_planning_def by auto

lemma evaluate_force_planning_open:
  assumes "\<forall>p. \<not> planning_gates ep pol m c calls p"
  shows "(\<exists>e. evaluate_force_planning ep pol m c calls v = (Inl e, v))
    \<or> evaluate_force_planning ep pol m c calls v = (Inr None, v)"
  using assms unfolding planning_gates_def evaluate_force_planning_def by (auto split: sum.splits option.splits)

text \<open>The first six checks, in one condition.\<close>

definition within_limits :: "ToolPolicyInput \<Rightarrow> ToolCall \<Rightarrow> int \<Rightarrow> bool" where
  "within_limits pol c calls =
     (ti_mode pol = TP_ALLOW_TOOLS
      \<and> (\<forall>xs. ti_allowed_tools pol = Some xs \<longrightarrow> tc_tool_name c \<in> set xs)
      \<and> (\<forall>xs. ti_denied_tools pol = Some xs \<longrightarrow> tc_tool_name c \<notin> set xs)
      \<and> (\<forall>n. ti_max_tool_calls pol = Some n \<longrightarrow> calls < n))"

lemma outcome_fields [simp]: "to_decision (outcome d r i md) = d" "to_reason (outcome d r i md) = r"
  by (simp_all add: outcome_def)

lemma evaluate_outside_limits:
  assumes "\<not> within_limits pol c calls"
  shows "\<exists>out. evaluate_tool_policy ep pol m c calls v = (Inr out, v) \<and> to_decision out \<noteq> TD_ALLOW
    \<and> to_reason out \<noteq> Strategy_Required (tc_tool_name c)"
  using assms unfolding within_limits_def evaluate_tool_policy_def
  by (cases "ti_mode pol") (auto simp: not_less split: option.splits)

text \<open>The last check, of the risk.\<close>

definition risk_outcome :: "ToolPolicyInput \<Rightarrow> ToolManifest \<Rightarrow> ToolPolicyOutcome" where
  "risk_outcome pol m =
     (case ti_approval_required_for_risk pol of
        Some t \<Rightarrow>
          if is_risk_at_or_above m t
          then outcome TD_INTERRUPT (Risk_Needs_Approval (tm_risk m)) (Some ''approval_required'')
            [(''risk_threshold'', PStr (tool_risk_value t))]
          else outcome TD_ALLOW Policy_Passed None []
      | None \<Rightarrow> outcome TD_ALLOW Policy_Passed None [])"

lemma risk_outcome_reason [simp]: "to_reason (risk_outcome pol m) \<noteq> Strategy_Required t"
  by (auto simp: risk_outcome_def split: option.split)

lemma risk_outcome_allow [simp]:
  "to_decision (risk_outcome pol m) = TD_ALLOW \<longleftrightarrow>
     (\<forall>t. ti_approval_required_for_risk pol = Some t \<longrightarrow> risk_order (tm_risk m) < risk_order t)"
  by (auto simp: risk_outcome_def is_risk_at_or_above_def not_le split: option.split)

lemma evaluate_within_limits:
  assumes "within_limits pol c calls"
  shows "evaluate_tool_policy ep pol m c calls v =
        (case evaluate_force_planning ep pol m c calls v of
           (Inl e, v1) \<Rightarrow> (Inl e, v1)
         | (Inr (Some out), v1) \<Rightarrow> (Inr out, v1)
         | (Inr None, v1) \<Rightarrow> (Inr (risk_outcome pol m), v1))"
  using assms unfolding within_limits_def evaluate_tool_policy_def risk_outcome_def
  by (cases "evaluate_force_planning ep pol m c calls v") (auto simp: not_le split: option.split sum.split)

lemma evaluate_gated_cases:
  assumes "within_limits pol c calls" "planning_gates ep pol m c calls p"
    and "fp = ep_fingerprint ep (tc_tool_name c) (tc_args c)"
  obtains (plan) "pl_mode p \<noteq> PM_STRATEGY_REQUIRED"
      "evaluate_tool_policy ep pol m c calls v = (Inr (outcome TD_DENY (Plan_Required (tc_tool_name c)) None (force_planning_metadata p m c [])), v)"
  | (denied) out where "pl_mode p = PM_STRATEGY_REQUIRED" "\<not> fst (consume_strategy_grant fp v)"
      "evaluate_tool_policy ep pol m c calls v
         = (Inr out, record_first_strategy_denial fp (tc_tool_name c) (snd (consume_strategy_grant fp v)))"
      "to_decision out = TD_DENY" "to_reason out = Strategy_Required (tc_tool_name c)"
  | (granted) "pl_mode p = PM_STRATEGY_REQUIRED" "fst (consume_strategy_grant fp v)"
      "evaluate_tool_policy ep pol m c calls v = (Inr (risk_outcome pol m), snd (consume_strategy_grant fp v))"
proof (cases "pl_mode p = PM_STRATEGY_REQUIRED")
  case False
  then show ?thesis
    using plan by (simp add: evaluate_within_limits [OF assms(1)] evaluate_force_planning_gated [OF assms(2)])
next
  case True
  note e = evaluate_within_limits [OF assms(1), of ep m v] evaluate_force_planning_gated [OF assms(2), of v]
  show ?thesis
  proof (cases "fst (consume_strategy_grant fp v)")
    case g: True
    have "evaluate_tool_policy ep pol m c calls v = (Inr (risk_outcome pol m), snd (consume_strategy_grant fp v))"
      using g True assms(3) e by (simp add: Let_def split_beta)
    then show ?thesis using granted True g by blast
  next
    case g: False
    have "\<exists>out. evaluate_tool_policy ep pol m c calls v
         = (Inr out, record_first_strategy_denial fp (tc_tool_name c) (snd (consume_strategy_grant fp v)))
        \<and> to_decision out = TD_DENY \<and> to_reason out = Strategy_Required (tc_tool_name c)"
      using g True assms(3) e by (simp add: Let_def split_beta)
    then show ?thesis using denied True g by blast
  qed
qed

lemma evaluate_open_cases:
  assumes "within_limits pol c calls" "\<forall>p. \<not> planning_gates ep pol m c calls p"
  obtains (error) e where "evaluate_tool_policy ep pol m c calls v = (Inl e, v)"
  | (passed) "evaluate_tool_policy ep pol m c calls v = (Inr (risk_outcome pol m), v)"
  using evaluate_force_planning_open [OF assms(2), of v] evaluate_within_limits [OF assms(1), of ep m v] by auto

lemma planning_gates_unique: "planning_gates ep pol m c n p \<Longrightarrow> planning_gates ep pol m c n q \<Longrightarrow> q = p"
  by (simp add: planning_gates_def)

text \<open>C25. A planned call is allowed exactly when tools are enabled without clarification or blanket
  approval, the tool is on the allow list if there is one and not on the deny list, the call budget is not
  used up, its risk lies strictly below the approval threshold, and no planning gate covers it, except that a
  strategy gate lets the one call through that an armed grant is bound to.\<close>

theorem policy_allows_iff:
  assumes "evaluate_tool_policy ep pol m c calls v = (Inr out, v')"
  shows "to_decision out = TD_ALLOW \<longleftrightarrow>
    (ti_mode pol = TP_ALLOW_TOOLS
     \<and> (\<forall>xs. ti_allowed_tools pol = Some xs \<longrightarrow> tc_tool_name c \<in> set xs)
     \<and> (\<forall>xs. ti_denied_tools pol = Some xs \<longrightarrow> tc_tool_name c \<notin> set xs)
     \<and> (\<forall>n. ti_max_tool_calls pol = Some n \<longrightarrow> calls < n)
     \<and> (\<forall>t. ti_approval_required_for_risk pol = Some t \<longrightarrow> risk_order (tm_risk m) < risk_order t)
     \<and> (\<forall>p. planning_gates ep pol m c calls p \<longrightarrow>
           pl_mode p = PM_STRATEGY_REQUIRED \<and>
           fst (consume_strategy_grant (ep_fingerprint ep (tc_tool_name c) (tc_args c)) v)))"
proof (cases "within_limits pol c calls")
  case False
  with evaluate_outside_limits [OF False, of ep m v] assms show ?thesis by (auto simp: within_limits_def)
next
  case lim: True
  show ?thesis
  proof (cases "\<exists>p. planning_gates ep pol m c calls p")
    case True
    then obtain p where p: "planning_gates ep pol m c calls p" by blast
    then have one: "(\<forall>q. planning_gates ep pol m c calls q \<longrightarrow> R q) \<longleftrightarrow> R p" for R by (blast dest: planning_gates_unique)
    show ?thesis unfolding one
      by (rule evaluate_gated_cases [OF lim p refl, of v]) (use lim assms in \<open>auto simp: within_limits_def\<close>)
  next
    case False
    then have "\<forall>p. \<not> planning_gates ep pol m c calls p" by blast
    then show ?thesis
      by (rule evaluate_open_cases [OF lim, of ep m v]) (use False assms lim in \<open>auto simp: within_limits_def\<close>)
  qed
qed

section \<open>The grant is one-shot\<close>

text \<open>What happens to the ledger during a run: the policy is evaluated on a planned call, or the model
  declares that it continues without a plan.\<close>

datatype policy_op = Evaluate ToolPolicyInput ToolManifest ToolCall int | Declare

primrec policy_step :: "policy_params \<Rightarrow> policy_op \<Rightarrow> grant_var \<Rightarrow> grant_var" where
  "policy_step ep (Evaluate pol m c n) v = snd (evaluate_tool_policy ep pol m c n v)"
| "policy_step ep Declare v = snd (arm_strategy_grant v)"

text \<open>The evaluation denies the call for want of a strategy; the evaluation uses the grant.\<close>

primrec strategy_denied :: "policy_params \<Rightarrow> policy_op \<Rightarrow> grant_var \<Rightarrow> bool" where
  "strategy_denied ep (Evaluate pol m c n) v =
     (case fst (evaluate_tool_policy ep pol m c n v) of Inr out \<Rightarrow> to_reason out = Strategy_Required (tc_tool_name c) | Inl _ \<Rightarrow> False)"
| "strategy_denied ep Declare v = False"

primrec grant_used :: "policy_params \<Rightarrow> policy_op \<Rightarrow> grant_var \<Rightarrow> bool" where
  "grant_used ep (Evaluate pol m c n) v =
     (within_limits pol c n \<and> (\<exists>p. planning_gates ep pol m c n p \<and> pl_mode p = PM_STRATEGY_REQUIRED)
      \<and> fst (consume_strategy_grant (ep_fingerprint ep (tc_tool_name c) (tc_args c)) v))"
| "grant_used ep Declare v = False"

primrec op_fingerprint :: "policy_params \<Rightarrow> policy_op \<Rightarrow> string" where
  "op_fingerprint ep (Evaluate pol m c n) = ep_fingerprint ep (tc_tool_name c) (tc_args c)"
| "op_fingerprint ep Declare = []"

text \<open>The ledger before the operation with number \<open>i\<close> of a run.\<close>

definition ledger_at :: "policy_params \<Rightarrow> policy_op list \<Rightarrow> nat \<Rightarrow> grant_var" where
  "ledger_at ep ops i = fold (policy_step ep) (take i ops) None"

lemma ledger_at_Suc: "i < length ops \<Longrightarrow> ledger_at ep ops (Suc i) = policy_step ep (ops ! i) (ledger_at ep ops i)"
  by (simp add: ledger_at_def take_Suc_conv_app_nth)

text \<open>The three ways an evaluation treats the ledger.\<close>

lemma evaluate_ledger_cases:
  fixes pol m c n
  defines "op \<equiv> Evaluate pol m c n"
  obtains (used) "grant_used ep op v" "\<not> strategy_denied ep op v" "fst (consume_strategy_grant (op_fingerprint ep op) v)"
      "policy_step ep op v = snd (consume_strategy_grant (op_fingerprint ep op) v)"
  | (denied) "\<not> grant_used ep op v" "strategy_denied ep op v" "\<not> fst (consume_strategy_grant (op_fingerprint ep op) v)"
      "policy_step ep op v
         = record_first_strategy_denial (op_fingerprint ep op) (tc_tool_name c) (snd (consume_strategy_grant (op_fingerprint ep op) v))"
  | (untouched) "\<not> grant_used ep op v" "\<not> strategy_denied ep op v" "policy_step ep op v = v"
proof (cases "within_limits pol c n")
  case False
  with evaluate_outside_limits [OF False, of ep m v] untouched show ?thesis by (auto simp: op_def)
next
  case lim: True
  show ?thesis
  proof (cases "\<exists>p. planning_gates ep pol m c n p")
    case True
    then obtain p where p: "planning_gates ep pol m c n p" by blast
    then have use: "grant_used ep op v \<longleftrightarrow> pl_mode p = PM_STRATEGY_REQUIRED \<and> fst (consume_strategy_grant (op_fingerprint ep op) v)"
      using lim by (auto simp: op_def dest: planning_gates_unique)
    show ?thesis
    proof (rule evaluate_gated_cases [OF lim p, of "op_fingerprint ep op" v])
      show "op_fingerprint ep op = ep_fingerprint ep (tc_tool_name c) (tc_args c)" by (simp add: op_def)
    qed (use use in \<open>simp_all add: op_def used denied untouched\<close>)
  next
    case False
    then have no: "\<forall>p. \<not> planning_gates ep pol m c n p" by blast
    show ?thesis
      by (rule evaluate_open_cases [OF lim no, of v]) (rule untouched; simp add: op_def no)+
  qed
qed

text \<open>What the ledger says about the operations before the one with number \<open>n\<close>: it is bound to the first
  call denied for want of a strategy, and armed only by a declaration after that denial.\<close>

definition ledger_ok :: "policy_params \<Rightarrow> policy_op list \<Rightarrow> nat \<Rightarrow> strategy_ledger \<Rightarrow> bool" where
  "ledger_ok ep ops n st =
     ((sg_armed st \<longrightarrow> \<not> sg_consumed st)
      \<and> (case sg_first_denial_fingerprint st of
           None \<Rightarrow> \<not> sg_armed st \<and> (\<forall>e<n. \<not> strategy_denied ep (ops ! e) (ledger_at ep ops e))
         | Some f \<Rightarrow> f \<noteq> []
             \<and> (\<exists>d<n. strategy_denied ep (ops ! d) (ledger_at ep ops d) \<and> op_fingerprint ep (ops ! d) = f
                  \<and> (\<forall>e<d. \<not> strategy_denied ep (ops ! e) (ledger_at ep ops e))
                  \<and> (sg_armed st \<longrightarrow> (\<exists>a. d < a \<and> a < n \<and> ops ! a = Declare)))))"

lemma ledger_ok_boundI:
  assumes "sg_first_denial_fingerprint st = Some f" "sg_armed st \<longrightarrow> \<not> sg_consumed st" "f \<noteq> []" "d < n"
    and "strategy_denied ep (ops ! d) (ledger_at ep ops d)" "op_fingerprint ep (ops ! d) = f"
    and "\<forall>e<d. \<not> strategy_denied ep (ops ! e) (ledger_at ep ops e)"
    and "sg_armed st \<longrightarrow> (\<exists>a. d < a \<and> a < n \<and> ops ! a = Declare)"
  shows "ledger_ok ep ops n st"
  using assms unfolding ledger_ok_def by (simp, intro exI [of _ d]) simp

lemma ledger_ok_boundE:
  assumes "ledger_ok ep ops n st" "sg_first_denial_fingerprint st = Some f"
  obtains d where "f \<noteq> []" "d < n" "strategy_denied ep (ops ! d) (ledger_at ep ops d)" "op_fingerprint ep (ops ! d) = f"
    "\<forall>e<d. \<not> strategy_denied ep (ops ! e) (ledger_at ep ops e)" "sg_armed st \<longrightarrow> (\<exists>a. d < a \<and> a < n \<and> ops ! a = Declare)"
  using assms unfolding ledger_ok_def by auto

lemma ledger_ok_same:
  assumes "ledger_ok ep ops n st" "\<not> strategy_denied ep (ops ! n) (ledger_at ep ops n) \<or> sg_first_denial_fingerprint st \<noteq> None"
    and "sg_first_denial_fingerprint st' = sg_first_denial_fingerprint st" "sg_armed st' \<longrightarrow> sg_armed st \<and> \<not> sg_consumed st'"
  shows "ledger_ok ep ops (Suc n) st'"
proof (cases "sg_first_denial_fingerprint st")
  case None
  with assms show ?thesis by (auto simp: ledger_ok_def less_Suc_eq)
next
  case (Some f)
  from assms(1) this show ?thesis
  proof (rule ledger_ok_boundE)
    fix d assume d: "f \<noteq> []" "d < n" "strategy_denied ep (ops ! d) (ledger_at ep ops d)" "op_fingerprint ep (ops ! d) = f"
      "\<forall>e<d. \<not> strategy_denied ep (ops ! e) (ledger_at ep ops e)" "sg_armed st \<longrightarrow> (\<exists>a. d < a \<and> a < n \<and> ops ! a = Declare)"
    have "sg_armed st' \<longrightarrow> (\<exists>a. d < a \<and> a < Suc n \<and> ops ! a = Declare)" using d(6) assms(4) less_SucI by blast
    then show ?thesis using d Some assms(3,4) by (intro ledger_ok_boundI [of st' f d]) auto
  qed
qed

lemma ledger_ok_declare:
  assumes "ledger_ok ep ops n st" "sg_first_denial_fingerprint st = Some f" "ops ! n = Declare"
    and "sg_first_denial_fingerprint st' = Some f" "sg_armed st' \<longrightarrow> \<not> sg_consumed st'"
  shows "ledger_ok ep ops (Suc n) st'"
  using assms(1,2)
proof (rule ledger_ok_boundE)
  fix d assume d: "f \<noteq> []" "d < n" "strategy_denied ep (ops ! d) (ledger_at ep ops d)" "op_fingerprint ep (ops ! d) = f"
    "\<forall>e<d. \<not> strategy_denied ep (ops ! e) (ledger_at ep ops e)"
  have "\<exists>a. d < a \<and> a < Suc n \<and> ops ! a = Declare" using assms(3) d(2) by auto
  then show ?thesis using d assms(4,5) by (intro ledger_ok_boundI [of st' f d]) auto
qed

lemma ledger_ok_first:
  assumes "ledger_ok ep ops n st" "sg_first_denial_fingerprint st = None" "strategy_denied ep (ops ! n) (ledger_at ep ops n)"
    and "sg_first_denial_fingerprint st' = Some (op_fingerprint ep (ops ! n))" "\<not> sg_armed st'" "op_fingerprint ep (ops ! n) \<noteq> []"
  shows "ledger_ok ep ops (Suc n) st'"
  using assms by (intro ledger_ok_boundI [of st' _ n]) (auto simp: ledger_ok_def)

lemma strategy_grant_state_Some [simp]: "strategy_grant_state (Some st) = st"
  by (simp add: strategy_grant_state_def)

lemma consume_refused: "\<not> fst (consume_strategy_grant fp v) \<Longrightarrow> strategy_grant_state (snd (consume_strategy_grant fp v)) = strategy_grant_state v"
  by (auto simp: consume_strategy_grant_def Let_def split: if_splits)

lemma consume_granted:
  assumes "fst (consume_strategy_grant fp v)"
  shows "strategy_grant_state (snd (consume_strategy_grant fp v)) = (strategy_grant_state v)\<lparr>sg_armed := False, sg_consumed := True\<rparr>"
    and "sg_armed (strategy_grant_state v)" "\<not> sg_consumed (strategy_grant_state v)"
    and "(case sg_first_denial_fingerprint (strategy_grant_state v) of None \<Rightarrow> [] | Some x \<Rightarrow> x) = fp"
  using assms by (auto simp: consume_strategy_grant_def Let_def split: if_splits)

text \<open>The laws of a run: the ledger stays bound as described, and a used grant stays used.\<close>

lemma ledger_ok_step:
  assumes ok: "ledger_ok ep ops n (strategy_grant_state (ledger_at ep ops n))" and n: "n < length ops"
    and fp: "\<And>t a. ep_fingerprint ep t a \<noteq> []"
  shows "ledger_ok ep ops (Suc n) (strategy_grant_state (ledger_at ep ops (Suc n)))"
proof (cases "ops ! n")
  case Declare
  let ?st = "strategy_grant_state (ledger_at ep ops n)"
  show ?thesis
  proof (cases "sg_first_denial_fingerprint ?st")
    case None
    then show ?thesis
      by (intro ledger_ok_same [OF ok]) (simp_all add: ledger_at_Suc [OF n] Declare arm_strategy_grant_def Let_def)
  next
    case (Some f)
    then show ?thesis
      using ok by (intro ledger_ok_declare [OF ok Some Declare])
        (simp_all add: ledger_at_Suc [OF n] Declare arm_strategy_grant_def Let_def ledger_ok_def)
  qed
next
  case (Evaluate pol m c k)
  let ?v = "ledger_at ep ops n" and ?f = "op_fingerprint ep (ops ! n)"
  show ?thesis
  proof (rule evaluate_ledger_cases [of ep pol m c k ?v])
    assume "\<not> strategy_denied ep (Evaluate pol m c k) ?v" "fst (consume_strategy_grant (op_fingerprint ep (Evaluate pol m c k)) ?v)"
      "policy_step ep (Evaluate pol m c k) ?v = snd (consume_strategy_grant (op_fingerprint ep (Evaluate pol m c k)) ?v)"
    then show ?thesis
      by (intro ledger_ok_same [OF ok]) (simp_all add: ledger_at_Suc [OF n] Evaluate consume_granted)
  next
    assume "\<not> strategy_denied ep (Evaluate pol m c k) ?v" "policy_step ep (Evaluate pol m c k) ?v = ?v"
    then show ?thesis
      using ok by (intro ledger_ok_same [OF ok]) (simp_all add: ledger_at_Suc [OF n] Evaluate ledger_ok_def)
  next
    assume d: "strategy_denied ep (Evaluate pol m c k) ?v" "\<not> fst (consume_strategy_grant (op_fingerprint ep (Evaluate pol m c k)) ?v)"
      "policy_step ep (Evaluate pol m c k) ?v = record_first_strategy_denial (op_fingerprint ep (Evaluate pol m c k)) (tc_tool_name c)
         (snd (consume_strategy_grant (op_fingerprint ep (Evaluate pol m c k)) ?v))"
    note r = ledger_at_Suc [OF n] Evaluate record_first_strategy_denial_def Let_def consume_refused
    show ?thesis
    proof (cases "sg_first_denial_fingerprint (strategy_grant_state ?v)")
      case None
      then show ?thesis
        using d ok fp by (intro ledger_ok_first [OF ok None]) (simp_all add: r ledger_ok_def)
    next
      case (Some f)
      then show ?thesis
        using d ok by (intro ledger_ok_same [OF ok]) (simp_all add: r ledger_ok_def)
    qed
  qed
qed

lemma ledger_ok_run:
  assumes "\<And>t a. ep_fingerprint ep t a \<noteq> []" "n \<le> length ops"
  shows "ledger_ok ep ops n (strategy_grant_state (ledger_at ep ops n))"
  using assms(2)
proof (induction n)
  case 0
  show ?case by (simp add: ledger_at_def ledger_ok_def strategy_grant_state_def)
next
  case (Suc n)
  then show ?case using assms(1) by (intro ledger_ok_step) auto
qed

lemma consumed_step:
  "sg_consumed (strategy_grant_state v) \<Longrightarrow> sg_consumed (strategy_grant_state (policy_step ep op v))"
proof (cases op)
  case Declare
  then show "sg_consumed (strategy_grant_state v) \<Longrightarrow> sg_consumed (strategy_grant_state (policy_step ep op v))"
    by (simp add: arm_strategy_grant_def Let_def)
next
  case (Evaluate pol m c k)
  then show "sg_consumed (strategy_grant_state v) \<Longrightarrow> sg_consumed (strategy_grant_state (policy_step ep op v))"
    by (rule_tac evaluate_ledger_cases [of ep pol m c k v])
      (simp_all add: consume_granted consume_refused record_first_strategy_denial_def Let_def)
qed

lemma consumed_later:
  assumes "i \<le> j" "j \<le> length ops" "sg_consumed (strategy_grant_state (ledger_at ep ops i))"
  shows "sg_consumed (strategy_grant_state (ledger_at ep ops j))"
  using assms by (induction j rule: dec_induct) (auto simp: ledger_at_Suc consumed_step)

lemma grant_used_facts:
  assumes "grant_used ep op v"
  shows "sg_armed (strategy_grant_state v)" "\<not> sg_consumed (strategy_grant_state v)"
    and "sg_consumed (strategy_grant_state (policy_step ep op v))"
    and "(case sg_first_denial_fingerprint (strategy_grant_state v) of None \<Rightarrow> [] | Some x \<Rightarrow> x) = op_fingerprint ep op"
proof -
  obtain pol m c k where op: "op = Evaluate pol m c k" using assms by (cases op) auto
  have g: "fst (consume_strategy_grant (op_fingerprint ep op) v)" using assms op by simp
  have "policy_step ep op v = snd (consume_strategy_grant (op_fingerprint ep op) v)"
    using assms op by (rule_tac evaluate_ledger_cases [of ep pol m c k v]) auto
  then show "sg_armed (strategy_grant_state v)" "\<not> sg_consumed (strategy_grant_state v)"
    "sg_consumed (strategy_grant_state (policy_step ep op v))"
    "(case sg_first_denial_fingerprint (strategy_grant_state v) of None \<Rightarrow> [] | Some x \<Rightarrow> x) = op_fingerprint ep op"
    using consume_granted [OF g] by simp_all
qed

text \<open>C24. During a run at most one evaluation passes through the strategy grant, and it is a call with the
  fingerprint of the first call that was denied for want of a strategy, evaluated after the model
  declared, after that denial, that it continues without a plan.\<close>

theorem strategy_grant_one_shot:
  assumes fp: "\<And>t a. ep_fingerprint ep t a \<noteq> []" and k: "k < length ops"
    and used: "grant_used ep (ops ! k) (ledger_at ep ops k)"
  shows "(\<forall>j < length ops. grant_used ep (ops ! j) (ledger_at ep ops j) \<longrightarrow> j = k)
    \<and> (\<exists>d a. d < a \<and> a < k \<and> ops ! a = Declare
        \<and> strategy_denied ep (ops ! d) (ledger_at ep ops d)
        \<and> (\<forall>e<d. \<not> strategy_denied ep (ops ! e) (ledger_at ep ops e))
        \<and> op_fingerprint ep (ops ! d) = op_fingerprint ep (ops ! k))"
proof
  let ?c = "\<lambda>i. sg_consumed (strategy_grant_state (ledger_at ep ops i))"
  have no_later: "\<not> (i < j \<and> j < length ops \<and> grant_used ep (ops ! i) (ledger_at ep ops i)
      \<and> grant_used ep (ops ! j) (ledger_at ep ops j))" for i j
  proof
    assume a: "i < j \<and> j < length ops \<and> grant_used ep (ops ! i) (ledger_at ep ops i) \<and> grant_used ep (ops ! j) (ledger_at ep ops j)"
    then have used: "grant_used ep (ops ! i) (ledger_at ep ops i)" "grant_used ep (ops ! j) (ledger_at ep ops j)" "i < length ops"
      by simp_all
    have "?c (Suc i)" unfolding ledger_at_Suc [OF used(3)] by (rule grant_used_facts(3) [OF used(1)])
    from consumed_later [OF _ _ this, of j] a have "?c j" by simp
    with grant_used_facts(2) [OF used(2)] show False by blast
  qed
  show "\<forall>j < length ops. grant_used ep (ops ! j) (ledger_at ep ops j) \<longrightarrow> j = k"
    using no_later k used by (metis linorder_neqE_nat)
  have ok: "ledger_ok ep ops k (strategy_grant_state (ledger_at ep ops k))" using fp k by (intro ledger_ok_run) auto
  note g = grant_used_facts [OF used]
  then obtain f where f: "sg_first_denial_fingerprint (strategy_grant_state (ledger_at ep ops k)) = Some f"
    using ok by (cases "sg_first_denial_fingerprint (strategy_grant_state (ledger_at ep ops k))") (auto simp: ledger_ok_def)
  show "\<exists>d a. d < a \<and> a < k \<and> ops ! a = Declare \<and> strategy_denied ep (ops ! d) (ledger_at ep ops d)
        \<and> (\<forall>e<d. \<not> strategy_denied ep (ops ! e) (ledger_at ep ops e)) \<and> op_fingerprint ep (ops ! d) = op_fingerprint ep (ops ! k)"
    using ledger_ok_boundE [OF ok f] g(1,4) f by (metis option.simps(5))
qed

text \<open>A call that the grant lets through but whose risk needs approval is only interrupted, and its next
  evaluation, with the ledger left behind or with a fresh one, is denied for want of a strategy again.\<close>

lemma interrupted_grant_is_lost:
  assumes lim: "within_limits pol c n" and p: "planning_gates ep pol m c n p" "pl_mode p = PM_STRATEGY_REQUIRED"
    and g: "fst (consume_strategy_grant (ep_fingerprint ep (tc_tool_name c) (tc_args c)) v)"
    and t: "ti_approval_required_for_risk pol = Some t" "risk_order t \<le> risk_order (tm_risk m)"
    and again: "v' = snd (evaluate_tool_policy ep pol m c n v) \<or> v' = None"
  shows "(\<exists>out. fst (evaluate_tool_policy ep pol m c n v) = Inr out \<and> to_decision out = TD_INTERRUPT)
    \<and> (\<exists>out. fst (evaluate_tool_policy ep pol m c n v') = Inr out \<and> to_decision out = TD_DENY
        \<and> to_reason out = Strategy_Required (tc_tool_name c))"
proof
  let ?fp = "ep_fingerprint ep (tc_tool_name c) (tc_args c)"
  have e: "evaluate_tool_policy ep pol m c n v = (Inr (risk_outcome pol m), snd (consume_strategy_grant ?fp v))"
    by (rule evaluate_gated_cases [OF lim p(1) refl, of v]) (use g p(2) in auto)
  moreover have "to_decision (risk_outcome pol m) = TD_INTERRUPT"
    using t by (simp add: risk_outcome_def is_risk_at_or_above_def)
  ultimately show "\<exists>out. fst (evaluate_tool_policy ep pol m c n v) = Inr out \<and> to_decision out = TD_INTERRUPT" by simp
  have "\<not> fst (consume_strategy_grant ?fp v')"
    using again consume_granted(1) [OF g] e by (auto simp: consume_strategy_grant_def strategy_grant_state_def Let_def split: if_splits)
  then show "\<exists>out. fst (evaluate_tool_policy ep pol m c n v') = Inr out \<and> to_decision out = TD_DENY
        \<and> to_reason out = Strategy_Required (tc_tool_name c)"
    by (rule_tac evaluate_gated_cases [OF lim p(1) refl, of v']) (use p(2) in auto)
qed

text \<open>A run under a policy that requires a strategy: a write is denied, the model declares that it continues
  without a plan, and the repeated call passes.\<close>

definition sample_params :: policy_params where
  "sample_params =
     \<lparr>ep_validate = (\<lambda>d. Inr (default_planning\<lparr>pl_enabled := Some True, pl_mode := PM_STRATEGY_REQUIRED\<rparr>)),
      ep_str = (\<lambda>v. []), ep_fingerprint = (\<lambda>tool args. CHR ''#'' # tool)\<rparr>"

definition sample_policy :: ToolPolicyInput where
  "sample_policy =
     \<lparr>ti_mode = TP_ALLOW_TOOLS, ti_allowed_tools = None, ti_denied_tools = Some [''bash''], ti_max_tool_calls = Some 5,
      ti_approval_required_for_risk = Some R_HIGH, ti_metadata = [(''force_planning'', PDict [(''mode'', PStr ''strategy_required'')])]\<rparr>"

definition sample_manifest :: ToolManifest where
  "sample_manifest =
     \<lparr>tm_name = ''write'', tm_risk = R_MEDIUM, tm_side_effect = SE_REVERSIBLE_WRITE, tm_approval_mode = AM_NEVER,
      tm_output_char_budget = Some 4000, tm_idempotent = False, tm_concurrency_safe = None, tm_interrupt_behavior = None,
      tm_should_defer = False, tm_always_load = False, tm_max_result_size_chars = None, tm_success_field = None,
      tm_args_schema = None, tm_aliases = [], tm_execution_requirement = None\<rparr>"

definition sample_call :: ToolCall where
  "sample_call = \<lparr>tc_tool_name = ''write'', tc_args = [], tc_tool_call_id = None, tc_metadata = []\<rparr>"

definition sample_ops :: "policy_op list" where
  "sample_ops =
     [Evaluate sample_policy sample_manifest sample_call 0, Declare, Evaluate sample_policy sample_manifest sample_call 1]"

lemmas sample_defs =
  sample_params_def sample_policy_def sample_manifest_def sample_call_def sample_ops_def default_planning_def
  ledger_at_def within_limits_def planning_gates_def

lemma sample_gated: "planning_gates sample_params sample_policy sample_manifest sample_call n
    (default_planning\<lparr>pl_enabled := Some True, pl_mode := PM_STRATEGY_REQUIRED\<rparr>)"
  by (simp add: sample_defs planning_from_metadata_def dict_get_or_def force_planning_enabled_def has_approved_plan_def
      nonblank_opt_def force_planning_applies_def default_exempt_tools_def default_gated_side_effects_def)

lemma sample_allowed:
  "evaluate_tool_policy sample_params sample_policy sample_manifest sample_call 1 (ledger_at sample_params sample_ops 2)
     = (Inr (outcome TD_ALLOW Policy_Passed None []),
        Some \<lparr>sg_first_denial_fingerprint = Some ''#write'', sg_first_denial_tool = Some ''write'', sg_armed = False,
              sg_consumed = True, sg_arm_refused = None\<rparr>)"
  by code_simp

theorem policy_allows_iff_witness:
  "to_decision (outcome TD_ALLOW Policy_Passed None []) = TD_ALLOW
   \<and> ''write'' \<notin> set [''bash''] \<and> risk_order R_MEDIUM < risk_order R_HIGH
   \<and> fst (consume_strategy_grant (ep_fingerprint sample_params ''write'' []) (ledger_at sample_params sample_ops 2))"
proof -
  have o: "to_decision (outcome TD_ALLOW Policy_Passed None []) = TD_ALLOW" by (simp add: outcome_def)
  from policy_allows_iff [OF sample_allowed, THEN iffD1, OF o] sample_gated [of 1] o show ?thesis
    by (simp add: sample_call_def sample_policy_def sample_manifest_def)
qed

theorem strategy_grant_one_shot_witness:
  "grant_used sample_params (sample_ops ! 2) (ledger_at sample_params sample_ops 2)
   \<and> {j. j < length sample_ops \<and> grant_used sample_params (sample_ops ! j) (ledger_at sample_params sample_ops j)} = {2}"
proof -
  have "fst (consume_strategy_grant (ep_fingerprint sample_params (tc_tool_name sample_call) (tc_args sample_call)) (ledger_at sample_params sample_ops 2))"
    by code_simp
  moreover have "within_limits sample_policy sample_call 1" by (simp add: sample_defs)
  ultimately have u: "grant_used sample_params (sample_ops ! 2) (ledger_at sample_params sample_ops 2)"
    using sample_gated [of 1] by (auto simp: sample_ops_def numeral_2_eq_2)
  have "\<And>t a. ep_fingerprint sample_params t a \<noteq> []" "2 < length sample_ops" by (simp_all add: sample_defs)
  from strategy_grant_one_shot [OF this u] this(2) u show ?thesis by blast
qed

end
