(* ===== verification/Tool_Registry.thy ===== *)
theory Tool_Registry
  imports Tool_Policy
begin

text \<open>
  The tool registry (\<open>tools/registry/in_memory.py\<close>): tools by canonical name with an index of aliases.
  Lookups by alias resolve to the tool that declared the alias, and registering, replacing and
  removing tools keep the index and the manifests in step.
\<close>

section \<open>Operations\<close>

record 'h RegisteredTool =
  rt_manifest :: ToolManifest
  rt_handler :: 'h

record 'h ToolRegistry =
  rg_items :: "(string \<times> 'h RegisteredTool) list"
  rg_alias_index :: "(string \<times> string) list"

definition empty_registry :: "'h ToolRegistry" where
  "empty_registry = \<lparr>rg_items = [], rg_alias_index = []\<rparr>"

text \<open>The loop over the aliases of a manifest; \<open>Some alias\<close> is the raised collision.\<close>

fun register_aliases :: "string \<Rightarrow> string list \<Rightarrow> 'h ToolRegistry \<Rightarrow> string option \<times> 'h ToolRegistry" where
  "register_aliases name [] reg = (None, reg)"
| "register_aliases name (a # as) reg =
     (if a = name then register_aliases name as reg
      else if map_of (rg_items reg) a \<noteq> None then (Some a, reg)
      else register_aliases name as (reg\<lparr>rg_alias_index := alist_set a name (rg_alias_index reg)\<rparr>))"

definition drop_aliases_of :: "string \<Rightarrow> 'h ToolRegistry \<Rightarrow> 'h ToolRegistry" where
  "drop_aliases_of name reg = reg\<lparr>rg_alias_index := filter (\<lambda>(a, c). c \<noteq> name) (rg_alias_index reg)\<rparr>"

definition register :: "ToolManifest \<Rightarrow> 'h \<Rightarrow> 'h ToolRegistry \<Rightarrow> string option \<times> 'h ToolRegistry" where
  "register m h reg =
     (let reg1 = drop_aliases_of (tm_name m) reg;
          reg2 = reg1\<lparr>rg_items := alist_set (tm_name m) \<lparr>rt_manifest = m, rt_handler = h\<rparr> (rg_items reg1)\<rparr>
      in register_aliases (tm_name m) (tm_aliases m) reg2)"

definition unregister :: "string \<Rightarrow> 'h ToolRegistry \<Rightarrow> bool \<times> 'h ToolRegistry" where
  "unregister name reg =
     (if map_of (rg_items reg) name = None then (False, reg)
      else (True, drop_aliases_of name (reg\<lparr>rg_items := filter (\<lambda>(n, t). n \<noteq> name) (rg_items reg)\<rparr>)))"

definition registry_get :: "'h ToolRegistry \<Rightarrow> string \<Rightarrow> 'h RegisteredTool option" where
  "registry_get reg name =
     (case map_of (rg_items reg) name of
        Some t \<Rightarrow> Some t
      | None \<Rightarrow> (case map_of (rg_alias_index reg) name of None \<Rightarrow> None | Some c \<Rightarrow> map_of (rg_items reg) c))"

definition list_names :: "'h ToolRegistry \<Rightarrow> string list" where
  "list_names reg = sort (map fst (rg_items reg))"

definition list_registered :: "'h ToolRegistry \<Rightarrow> 'h RegisteredTool list" where
  "list_registered reg = map (\<lambda>n. the (map_of (rg_items reg) n)) (list_names reg)"

definition list_non_deferred :: "'h ToolRegistry \<Rightarrow> 'h RegisteredTool list" where
  "list_non_deferred reg = filter (\<lambda>t. \<not> is_deferred (rt_manifest t)) (list_registered reg)"

section \<open>The invariant\<close>

declare map_of_eq_Some_iff [simp del] Some_eq_map_of_iff [simp del]

text \<open>Names are distinct, an item is filed under the name of its manifest, and an alias leads to a registered
  tool that declares it.\<close>

definition registry_ok :: "'h ToolRegistry \<Rightarrow> bool" where
  "registry_ok reg =
     (distinct (map fst (rg_items reg)) \<and> distinct (map fst (rg_alias_index reg))
      \<and> (\<forall>n t. map_of (rg_items reg) n = Some t \<longrightarrow> tm_name (rt_manifest t) = n)
      \<and> (\<forall>a c. map_of (rg_alias_index reg) a = Some c \<longrightarrow>
           a \<noteq> c \<and> (\<exists>t. map_of (rg_items reg) c = Some t \<and> a \<in> set (tm_aliases (rt_manifest t)))))"

lemma register_aliases_items [simp]: "rg_items (snd (register_aliases name as reg)) = rg_items reg"
  by (induction name as reg rule: register_aliases.induct) auto

lemma register_aliases_ok:
  assumes "registry_ok reg" "map_of (rg_items reg) name = Some t" "set as \<subseteq> set (tm_aliases (rt_manifest t))"
  shows "registry_ok (snd (register_aliases name as reg))"
  using assms
proof (induction name as reg rule: register_aliases.induct)
  case (2 name a as reg)
  have "registry_ok (reg\<lparr>rg_alias_index := alist_set a name (rg_alias_index reg)\<rparr>)" if "a \<noteq> name"
    using 2(3-5) that by (auto simp: registry_ok_def map_of_alist_set distinct_alist_set)
  then show ?case using 2 by auto
qed simp

lemma map_of_filter_key: "map_of (filter (\<lambda>(k, v). P k) xs) k = (if P k then map_of xs k else None)"
  by (induction xs) auto

lemma map_of_filter_value:
  "distinct (map fst xs) \<Longrightarrow> map_of (filter (\<lambda>(k, v). P v) xs) k = (case map_of xs k of None \<Rightarrow> None | Some v \<Rightarrow> if P v then Some v else None)"
  by (induction xs) (auto simp: map_of_eq_None_iff dest: map_of_SomeD split: option.splits)

lemma drop_aliases_of_simps [simp]:
  "rg_items (drop_aliases_of name reg) = rg_items reg"
  "distinct (map fst (rg_alias_index reg)) \<Longrightarrow>
     map_of (rg_alias_index (drop_aliases_of name reg)) a = Some c \<longleftrightarrow> map_of (rg_alias_index reg) a = Some c \<and> c \<noteq> name"
  "distinct (map fst (rg_alias_index reg)) \<Longrightarrow> distinct (map fst (rg_alias_index (drop_aliases_of name reg)))"
  by (auto simp: drop_aliases_of_def map_of_filter_value distinct_map_filter split: option.splits if_splits)

lemma registry_okI:
  assumes "distinct (map fst (rg_items reg))" "distinct (map fst (rg_alias_index reg))"
    and "\<And>n t. map_of (rg_items reg) n = Some t \<Longrightarrow> tm_name (rt_manifest t) = n"
    and "\<And>a c. map_of (rg_alias_index reg) a = Some c \<Longrightarrow>
           a \<noteq> c \<and> (\<exists>t. map_of (rg_items reg) c = Some t \<and> a \<in> set (tm_aliases (rt_manifest t)))"
  shows "registry_ok reg"
  using assms by (simp add: registry_ok_def)

lemma registry_okD:
  assumes "registry_ok reg"
  shows "distinct (map fst (rg_items reg))" "distinct (map fst (rg_alias_index reg))"
    and "map_of (rg_items reg) n = Some t \<Longrightarrow> tm_name (rt_manifest t) = n"
    and "map_of (rg_alias_index reg) a = Some c \<Longrightarrow>
           a \<noteq> c \<and> (\<exists>t. map_of (rg_items reg) c = Some t \<and> a \<in> set (tm_aliases (rt_manifest t)))"
  using assms by (simp_all add: registry_ok_def)

lemma register_ok:
  assumes "registry_ok reg"
  shows "registry_ok (snd (register m h reg))"
proof -
  let ?reg = "(drop_aliases_of (tm_name m) reg)\<lparr>rg_items := alist_set (tm_name m) \<lparr>rt_manifest = m, rt_handler = h\<rparr> (rg_items reg)\<rparr>"
  note D = registry_okD [OF assms]
  have idx: "rg_alias_index ?reg = rg_alias_index (drop_aliases_of (tm_name m) reg)" by simp
  have "registry_ok ?reg"
  proof (rule registry_okI, unfold idx)
    show "distinct (map fst (rg_items ?reg))" using D(1) by (simp add: distinct_alist_set)
    show "distinct (map fst (rg_alias_index (drop_aliases_of (tm_name m) reg)))" using D(2) by simp
    show "tm_name (rt_manifest t) = n" if "map_of (rg_items ?reg) n = Some t" for n t
      using that D(3) by (auto split: if_splits)
    show "a \<noteq> c \<and> (\<exists>t. map_of (rg_items ?reg) c = Some t \<and> a \<in> set (tm_aliases (rt_manifest t)))"
      if "map_of (rg_alias_index (drop_aliases_of (tm_name m) reg)) a = Some c" for a c
      using that D(2) D(4) [of a c] by auto
  qed
  moreover have "map_of (rg_items ?reg) (tm_name m) = Some \<lparr>rt_manifest = m, rt_handler = h\<rparr>" by simp
  ultimately have "registry_ok (snd (register_aliases (tm_name m) (tm_aliases m) ?reg))"
    by (rule register_aliases_ok) simp
  then show ?thesis by (simp add: register_def)
qed

lemma unregister_ok:
  assumes "registry_ok reg"
  shows "registry_ok (snd (unregister name reg))"
proof -
  let ?reg = "drop_aliases_of name (reg\<lparr>rg_items := filter (\<lambda>(n, t). n \<noteq> name) (rg_items reg)\<rparr>)"
  note D = registry_okD [OF assms]
  have "registry_ok ?reg"
  proof (rule registry_okI)
    show "distinct (map fst (rg_items ?reg))" "distinct (map fst (rg_alias_index ?reg))"
      using D(1,2) by (simp_all add: distinct_map_filter)
    show "tm_name (rt_manifest t) = n" if "map_of (rg_items ?reg) n = Some t" for n t
      using that D(3) by (simp add: map_of_filter_key split: if_splits)
    show "a \<noteq> c \<and> (\<exists>t. map_of (rg_items ?reg) c = Some t \<and> a \<in> set (tm_aliases (rt_manifest t)))"
      if "map_of (rg_alias_index ?reg) a = Some c" for a c
      using that D(2) D(4) [of a c] by (auto simp: map_of_filter_key)
  qed
  with assms show ?thesis by (simp add: unregister_def)
qed

section \<open>Histories\<close>

datatype 'h registry_call = Register ToolManifest 'h | Unregister string

primrec registry_step :: "'h registry_call \<Rightarrow> 'h ToolRegistry \<Rightarrow> 'h ToolRegistry" where
  "registry_step (Register m h) reg = snd (register m h reg)"
| "registry_step (Unregister n) reg = snd (unregister n reg)"

lemma registry_steps_ok: "registry_ok reg \<Longrightarrow> registry_ok (fold registry_step calls reg)"
proof (induction calls arbitrary: reg)
  case (Cons call calls)
  then show ?case by (cases call) (simp_all add: register_ok unregister_ok)
qed simp

lemma empty_registry_ok: "registry_ok empty_registry"
  by (simp add: registry_ok_def empty_registry_def)

lemma registry_get_ok:
  assumes "registry_ok reg" "registry_get reg name = Some t"
  shows "name = tm_name (rt_manifest t) \<or> name \<in> set (tm_aliases (rt_manifest t))"
    and "map_of (rg_items reg) (tm_name (rt_manifest t)) = Some t"
  using assms(2) registry_okD(3,4) [OF assms(1)]
  by (fastforce simp: registry_get_def split: option.splits)+

text \<open>A call that neither replaces nor removes the tool of a name, and one that does not claim an alias.\<close>

primrec keeps_tool :: "string \<Rightarrow> 'h registry_call \<Rightarrow> bool" where
  "keeps_tool n (Register m h) = (tm_name m \<noteq> n)"
| "keeps_tool n (Unregister k) = (k \<noteq> n)"

primrec leaves_alias :: "string \<Rightarrow> 'h registry_call \<Rightarrow> bool" where
  "leaves_alias a (Register m h) = (tm_name m \<noteq> a \<and> a \<notin> set (tm_aliases m))"
| "leaves_alias a (Unregister k) = True"

lemma register_items: "rg_items (snd (register m h reg)) = alist_set (tm_name m) \<lparr>rt_manifest = m, rt_handler = h\<rparr> (rg_items reg)"
  by (simp add: register_def)

lemma registry_steps_keep:
  "map_of (rg_items reg) n = Some t \<Longrightarrow> list_all (keeps_tool n) calls \<Longrightarrow> map_of (rg_items (fold registry_step calls reg)) n = Some t"
proof (induction calls arbitrary: reg)
  case (Cons call calls)
  then have "map_of (rg_items (registry_step call reg)) n = Some t"
    by (cases call) (auto simp: register_items unregister_def map_of_filter_key)
  with Cons show ?case by simp
qed simp

lemma register_aliases_other:
  "a \<notin> set as \<Longrightarrow> map_of (rg_alias_index (snd (register_aliases n as reg))) a = map_of (rg_alias_index reg) a"
  by (induction n as reg rule: register_aliases.induct) (auto simp: map_of_alist_set)

lemma register_aliases_indexes:
  "fst (register_aliases n as reg) = None \<Longrightarrow> a \<in> set as \<Longrightarrow> a \<noteq> n \<Longrightarrow>
   map_of (rg_items reg) a = None \<and> map_of (rg_alias_index (snd (register_aliases n as reg))) a = Some n"
proof (induction n as reg rule: register_aliases.induct)
  case (2 n b as reg)
  then show ?case by (cases "a \<in> set as") (auto simp: register_aliases_other map_of_alist_set split: if_splits)
qed simp

lemma register_indexes:
  assumes "fst (register m h reg) = None" "a \<in> set (tm_aliases m)" "a \<noteq> tm_name m"
  shows "map_of (rg_items (snd (register m h reg))) a = None" "map_of (rg_alias_index (snd (register m h reg))) a = Some (tm_name m)"
proof -
  let ?reg = "(drop_aliases_of (tm_name m) reg)\<lparr>rg_items := alist_set (tm_name m) \<lparr>rt_manifest = m, rt_handler = h\<rparr> (rg_items reg)\<rparr>"
  have r: "register m h reg = register_aliases (tm_name m) (tm_aliases m) ?reg" by (simp add: register_def)
  show "map_of (rg_items (snd (register m h reg))) a = None" "map_of (rg_alias_index (snd (register m h reg))) a = Some (tm_name m)"
    using register_aliases_indexes [of "tm_name m" "tm_aliases m" ?reg a] assms unfolding r by simp_all
qed

lemma registry_step_keeps_alias:
  assumes "registry_ok reg" "map_of (rg_items reg) a = None" "map_of (rg_alias_index reg) a = Some n" "keeps_tool n call" "leaves_alias a call"
  shows "map_of (rg_items (registry_step call reg)) a = None \<and> map_of (rg_alias_index (registry_step call reg)) a = Some n"
proof (cases call)
  case (Register m h)
  then have "map_of (rg_alias_index (snd (register m h reg))) a = map_of (rg_alias_index (drop_aliases_of (tm_name m) reg)) a"
    using assms(5) by (simp add: register_def register_aliases_other)
  then show ?thesis using Register assms registry_okD(2) [OF assms(1)] by (auto simp: register_items)
next
  case (Unregister k)
  then show ?thesis using assms registry_okD(2) [OF assms(1)] by (auto simp: unregister_def map_of_filter_key)
qed

lemma registry_steps_keep_alias:
  "registry_ok reg \<Longrightarrow> map_of (rg_items reg) a = None \<Longrightarrow> map_of (rg_alias_index reg) a = Some n \<Longrightarrow>
   list_all (keeps_tool n) calls \<Longrightarrow> list_all (leaves_alias a) calls \<Longrightarrow>
   map_of (rg_items (fold registry_step calls reg)) a = None \<and> map_of (rg_alias_index (fold registry_step calls reg)) a = Some n"
proof (induction calls arbitrary: reg)
  case (Cons call calls)
  have "registry_ok (registry_step call reg)" using registry_steps_ok [OF Cons.prems(1), of "[call]"] by simp
  then show ?case using Cons registry_step_keeps_alias [OF Cons.prems(1-3), of call] by simp
qed simp

lemma registered_found:
  assumes "list_all (keeps_tool (tm_name m)) later"
    and "reg = fold registry_step (before @ Register m h # later) empty_registry"
  shows "registry_get reg (tm_name m) = Some \<lparr>rt_manifest = m, rt_handler = h\<rparr>"
    and "fst (register m h (fold registry_step before empty_registry)) = None \<Longrightarrow> a \<in> set (tm_aliases m) \<Longrightarrow>
      list_all (leaves_alias a) later \<Longrightarrow> registry_get reg a = Some \<lparr>rt_manifest = m, rt_handler = h\<rparr>"
proof -
  let ?r0 = "fold registry_step before empty_registry"
  let ?r1 = "snd (register m h ?r0)"
  have reg: "reg = fold registry_step later ?r1" using assms(2) by simp
  have "map_of (rg_items ?r1) (tm_name m) = Some \<lparr>rt_manifest = m, rt_handler = h\<rparr>" by (simp add: register_items)
  then have item: "map_of (rg_items reg) (tm_name m) = Some \<lparr>rt_manifest = m, rt_handler = h\<rparr>"
    unfolding reg using assms(1) by (rule registry_steps_keep)
  then show name: "registry_get reg (tm_name m) = Some \<lparr>rt_manifest = m, rt_handler = h\<rparr>" by (simp add: registry_get_def)
  assume a: "fst (register m h ?r0) = None" "a \<in> set (tm_aliases m)" "list_all (leaves_alias a) later"
  have "registry_ok ?r1" using register_ok [OF registry_steps_ok [OF empty_registry_ok]] .
  then have "map_of (rg_items reg) a = None \<and> map_of (rg_alias_index reg) a = Some (tm_name m)" if "a \<noteq> tm_name m"
    unfolding reg using registry_steps_keep_alias register_indexes [OF a(1,2) that] assms(1) a(3) by blast
  with name item show "registry_get reg a = Some \<lparr>rt_manifest = m, rt_handler = h\<rparr>"
    by (cases "a = tm_name m") (auto simp: registry_get_def)
qed

text \<open>C29. Whatever tools were registered, replaced and removed, even by calls that were refused halfway, a
  lookup finds what was registered and nothing else. A tool that was not replaced or removed since is found under its
  canonical name, and under each alias it declared if its registration was accepted and no later registration used that
  alias as a name or an alias; a lookup returns a tool only under its canonical name or an alias it declares; and the
  listing shows each tool once under its own name, sorted.\<close>

theorem registry_lookup_faithful:
  assumes "reg = fold registry_step calls empty_registry"
  shows "(\<forall>before m h later. calls = before @ Register m h # later \<and> list_all (keeps_tool (tm_name m)) later \<longrightarrow>
            registry_get reg (tm_name m) = Some \<lparr>rt_manifest = m, rt_handler = h\<rparr>
            \<and> (fst (register m h (fold registry_step before empty_registry)) = None \<longrightarrow>
               (\<forall>a \<in> set (tm_aliases m). list_all (leaves_alias a) later \<longrightarrow> registry_get reg a = Some \<lparr>rt_manifest = m, rt_handler = h\<rparr>)))
    \<and> (\<forall>name t. registry_get reg name = Some t \<longrightarrow>
            (name = tm_name (rt_manifest t) \<or> name \<in> set (tm_aliases (rt_manifest t)))
            \<and> registry_get reg (tm_name (rt_manifest t)) = Some t)
    \<and> (\<forall>a c. map_of (rg_alias_index reg) a = Some c \<longrightarrow> registry_get reg a \<noteq> None)
    \<and> map (\<lambda>t. tm_name (rt_manifest t)) (list_registered reg) = list_names reg \<and> distinct (list_names reg) \<and> sorted (list_names reg)"
proof -
  have ok: "registry_ok reg" using assms registry_steps_ok empty_registry_ok by blast
  note D = registry_okD [OF ok]
  have "tm_name (rt_manifest (the (map_of (rg_items reg) n))) = n" if "n \<in> set (list_names reg)" for n
  proof -
    have "map_of (rg_items reg) n \<noteq> None" using that by (simp add: list_names_def map_of_eq_None_iff)
    then obtain t where "map_of (rg_items reg) n = Some t" by blast
    then show ?thesis using D(3) by simp
  qed
  then have "map (\<lambda>t. tm_name (rt_manifest t)) (list_registered reg) = list_names reg"
    by (simp add: list_registered_def map_idI)
  moreover have "distinct (list_names reg)" "sorted (list_names reg)" using D(1) by (simp_all add: list_names_def)
  moreover have "registry_get reg a \<noteq> None" if "map_of (rg_alias_index reg) a = Some c" for a c
    using D(4) [OF that] that by (auto simp: registry_get_def split: option.splits)
  moreover have "registry_get reg (tm_name (rt_manifest t)) = Some t" if "registry_get reg name = Some t" for name t
    using registry_get_ok(2) [OF ok that] by (simp add: registry_get_def)
  moreover have "registry_get reg (tm_name m) = Some \<lparr>rt_manifest = m, rt_handler = h\<rparr>
      \<and> (fst (register m h (fold registry_step before empty_registry)) = None \<longrightarrow>
         (\<forall>a \<in> set (tm_aliases m). list_all (leaves_alias a) later \<longrightarrow> registry_get reg a = Some \<lparr>rt_manifest = m, rt_handler = h\<rparr>))"
    if "calls = before @ Register m h # later" "list_all (keeps_tool (tm_name m)) later" for before m h later
    using registered_found [OF that(2), of reg before h] assms that(1) by blast
  ultimately show ?thesis using registry_get_ok(1) [OF ok] by blast
qed

text \<open>An alias that two tools declare leads to the second, and removing the second leaves it unresolved although the
  first still declares it.\<close>

lemma shared_alias_lost:
  "(let reg = fold registry_step [Register (sample_manifest\<lparr>tm_aliases := [''save'']\<rparr>) 1,
        Register (sample_manifest\<lparr>tm_name := ''store'', tm_aliases := [''save'']\<rparr>) 2, Unregister ''store''] (empty_registry :: nat ToolRegistry)
    in (map_option rt_handler (registry_get reg ''write''), map_option rt_handler (registry_get reg ''save''))) = (Some 1, None)"
  by code_simp

text \<open>A refused registration is not undone: the tool and the aliases before the collision stay registered.\<close>

lemma refused_registration_stays:
  assumes "register m h reg = (Some a, reg')"
  shows "registry_get reg' (tm_name m) = Some \<lparr>rt_manifest = m, rt_handler = h\<rparr>"
proof -
  have "reg' = snd (register m h reg)" using assms by simp
  then have "rg_items reg' = alist_set (tm_name m) \<lparr>rt_manifest = m, rt_handler = h\<rparr> (rg_items reg)"
    by (simp add: register_def)
  then show ?thesis by (simp add: registry_get_def)
qed

section \<open>A registry\<close>

definition sample_registry_calls :: "nat registry_call list" where
  "sample_registry_calls =
     [Register (sample_manifest\<lparr>tm_aliases := [''file_write'']\<rparr>) 1, Register (sample_manifest\<lparr>tm_name := ''bash''\<rparr>) 2,
      Unregister ''bash'']"

theorem registry_lookup_faithful_witness:
  "\<exists>t. registry_get (fold registry_step sample_registry_calls empty_registry) ''file_write'' = Some t \<and> rt_handler t = 1
    \<and> registry_get (fold registry_step sample_registry_calls empty_registry) ''write'' = Some t"
proof -
  let ?m = "sample_manifest\<lparr>tm_aliases := [''file_write'']\<rparr>"
  let ?later = "[Register (sample_manifest\<lparr>tm_name := ''bash''\<rparr>) (2 :: nat), Unregister ''bash'']"
  let ?t = "\<lparr>rt_manifest = ?m, rt_handler = 1 :: nat\<rparr>"
  have c: "sample_registry_calls = [] @ Register ?m 1 # ?later" by (simp add: sample_registry_calls_def)
  have k: "list_all (keeps_tool (tm_name ?m)) ?later" "list_all (leaves_alias ''file_write'') ?later"
    "fst (register ?m (1 :: nat) (fold registry_step [] empty_registry)) = None" by code_simp+
  have a: "''file_write'' \<in> set (tm_aliases ?m)" by simp
  have "registry_get (fold registry_step sample_registry_calls empty_registry) (tm_name ?m) = Some ?t"
    "registry_get (fold registry_step sample_registry_calls empty_registry) ''file_write'' = Some ?t"
    using conjunct1 [OF registry_lookup_faithful [OF refl, of sample_registry_calls]] c k a by blast+
  then show ?thesis by (auto simp: sample_manifest_def)
qed

end
