(* ===== verification/Planned_Calls.thy ===== *)
theory Planned_Calls
  imports Tool_Registry
begin

text \<open>
  Planned tool calls (\<open>tools/executor/planned.py\<close>): reading them from a model response, dropping calls
  whose arguments were repaired when the stream was cut, and renaming colliding call identifiers; and
  the planning hint the executor adds to the run policy (\<open>runtime/planning_policy.py\<close>). Validation of a
  call given as a dictionary and the parser of calls written in the text of a message are parameters.
\<close>

section \<open>Colliding identifiers\<close>

text \<open>The loop; \<open>seen\<close> counts the occurrences of an identifier so far.\<close>

fun dedupe_loop :: "(string \<times> nat) list \<Rightarrow> ToolCall list \<Rightarrow> ToolCall list" where
  "dedupe_loop seen [] = []"
| "dedupe_loop seen (c # cs) =
     (if str_truthy (tc_tool_call_id c)
      then (let cid = the (tc_tool_call_id c); count = (case map_of seen cid of None \<Rightarrow> 0 | Some n \<Rightarrow> n)
            in (if count \<noteq> 0 then c\<lparr>tc_tool_call_id := Some (cid @ ''_d'' @ nat_str count)\<rparr> else c)
                 # dedupe_loop (alist_set cid (Suc count) seen) cs)
      else c # dedupe_loop seen cs)"

definition dedupe_tool_call_ids :: "ToolCall list \<Rightarrow> ToolCall list" where
  "dedupe_tool_call_ids calls = dedupe_loop [] calls"

section \<open>Reading the calls of a response\<close>

datatype LlmFinishReason = FR_STOP | FR_LENGTH | FR_TOOL_CALLS | FR_ERROR | FR_UNKNOWN

record LlmResponse =
  lm_content :: string
  lm_finish_reason :: LlmFinishReason
  lm_metadata :: pydict

text \<open>\<open>Inl\<close> is the \<open>ValidationError\<close> of the first invalid row; rows that are no dictionaries are skipped.\<close>

fun validate_rows :: "(pydict \<Rightarrow> string + ToolCall) \<Rightarrow> pyval list \<Rightarrow> string + ToolCall list" where
  "validate_rows validate [] = Inr []"
| "validate_rows validate (x # xs) =
     (case as_dict x of
        None \<Rightarrow> validate_rows validate xs
      | Some d \<Rightarrow>
          (case validate d of
             Inl e \<Rightarrow> Inl e
           | Inr c \<Rightarrow> (case validate_rows validate xs of Inl e \<Rightarrow> Inl e | Inr cs \<Rightarrow> Inr (c # cs))))"

definition extract_planned_tool_calls ::
  "(pydict \<Rightarrow> string + ToolCall) \<Rightarrow> (string \<Rightarrow> pyval list) \<Rightarrow> LlmResponse \<Rightarrow> string + ToolCall list" where
  "extract_planned_tool_calls validate text_form r =
     (let payload0 = (case dict_get (lm_metadata r) ''planned_tool_calls'' of PList xs \<Rightarrow> xs | _ \<Rightarrow> []);
          payload = (if payload0 = [] \<and> lm_content r \<noteq> []
                        \<and> dict_get (lm_metadata r) ''suppress_text_form_tool_calls'' \<noteq> PBool True
                     then text_form (lm_content r) else payload0)
      in case validate_rows validate payload of
           Inl e \<Rightarrow> Inl e
         | Inr calls \<Rightarrow>
             Inr (dedupe_tool_call_ids
                    (if lm_finish_reason r = FR_UNKNOWN
                     then filter (\<lambda>c. dict_get (tc_metadata c) ''text_form_args_repaired'' \<noteq> PBool True) calls
                     else calls)))"

section \<open>The planning hint\<close>

datatype PlanningHintLevel = HL_NONE | HL_SUGGESTED | HL_REQUIRED

primrec hint_level_value :: "PlanningHintLevel \<Rightarrow> string" where
  "hint_level_value HL_NONE = ''none''"
| "hint_level_value HL_SUGGESTED = ''suggested''"
| "hint_level_value HL_REQUIRED = ''required''"

record PlanningHint =
  ph_level :: PlanningHintLevel
  ph_reason :: string
  ph_signals :: "string list"

text \<open>\<open>classify_planning_hint\<close> on the empty message, the only one the executor passes.\<close>

definition classify_planning_hint :: "bool \<Rightarrow> bool \<Rightarrow> int option \<Rightarrow> PlanningHint" where
  "classify_planning_hint side_effecting subagent expected =
     (let signals = (if side_effecting then [''side_effecting_tool_planned''] else [])
                  @ (if subagent then [''subagent_spawn_requested''] else [])
                  @ (if (case expected of None \<Rightarrow> False | Some n \<Rightarrow> n \<ge> 4) then [''expected_steps_ge_4''] else [])
      in if signals \<noteq> []
         then \<lparr>ph_level = HL_REQUIRED, ph_reason = ''runtime safety boundary requires approved planning'', ph_signals = signals\<rparr>
         else \<lparr>ph_level = HL_NONE, ph_reason = ''planning not needed'', ph_signals = []\<rparr>)"

definition classify_planning_hint_for_tool_calls :: "ToolCall list \<Rightarrow> (string \<Rightarrow> ToolManifest option) \<Rightarrow> int \<Rightarrow> PlanningHint" where
  "classify_planning_hint_for_tool_calls calls lookup current =
     (let side_effecting = list_ex (\<lambda>c. case lookup (tc_tool_name c) of None \<Rightarrow> False
            | Some m \<Rightarrow> tm_side_effect m \<in> {SE_REVERSIBLE_WRITE, SE_IRREVERSIBLE_WRITE, SE_EXTERNAL_ACTION}) calls;
          subagent = list_ex (\<lambda>c. tc_tool_name c = ''agent_tool'') calls;
          expected = current + int (length calls)
      in classify_planning_hint side_effecting subagent (if expected \<ge> 4 then Some expected else None))"

definition hint_rank :: "string \<Rightarrow> nat" where
  "hint_rank lv = (if lv = ''required'' then 2 else if lv = ''suggested'' then 1 else 0)"

text \<open>\<open>str(existing.get("level") or "")\<close> for a level that is a string; another value is written by a parameter.\<close>

definition existing_level :: "(pyval \<Rightarrow> string) \<Rightarrow> pydict \<Rightarrow> string" where
  "existing_level str md =
     (case dict_get md ''planning_hint'' of
        PDict d \<Rightarrow> (case dict_get d ''level'' of PStr s \<Rightarrow> s | v \<Rightarrow> if truthy v then str v else [])
      | _ \<Rightarrow> ''none'')"

definition hint_document :: "PlanningHint \<Rightarrow> pyval" where
  "hint_document h = PDict
     [(''level'', PStr (hint_level_value (ph_level h))), (''reason'', PStr (ph_reason h)),
      (''signals'', PList (map PStr (ph_signals h))), (''metadata'', PDict [])]"

definition tool_policy_with_planned_tool_hint ::
  "(pyval \<Rightarrow> string) \<Rightarrow> ToolPolicyInput \<Rightarrow> ToolCall list \<Rightarrow> (string \<Rightarrow> ToolManifest option) \<Rightarrow> int \<Rightarrow> ToolPolicyInput" where
  "tool_policy_with_planned_tool_hint str pol calls lookup current =
     (let h = classify_planning_hint_for_tool_calls calls lookup current
      in if ph_level h = HL_NONE then pol
         else if hint_rank (existing_level str (ti_metadata pol)) \<ge> hint_rank (hint_level_value (ph_level h)) then pol
         else pol\<lparr>ti_metadata := dict_set ''planning_hint'' (hint_document h) (ti_metadata pol)\<rparr>)"

section \<open>Renamed identifiers are distinct\<close>

lemma nat_str_digits: "\<forall>c \<in> set (nat_str n). is_digit c"
proof (induction n rule: nat_str.induct)
  case (1 n)
  then show ?case by (subst nat_str.simps) (auto simp: is_digit_def)
qed

lemma nat_str_inject: "nat_str m = nat_str n \<Longrightarrow> m = n"
proof (induction m arbitrary: n rule: nat_str.induct)
  case (1 m)
  have last: "last (nat_str k) = char_of (48 + k mod 10)" for k by (subst nat_str.simps) simp
  have butlast: "butlast (nat_str k) = (if k < 10 then [] else nat_str (k div 10))" for k by (subst nat_str.simps) simp
  have ne: "nat_str k \<noteq> []" for k by (subst nat_str.simps) simp
  have "char_of (48 + m mod 10) = (char_of (48 + n mod 10) :: char)" using 1(2) last by metis
  then have "of_char (char_of (48 + m mod 10) :: char) = (of_char (char_of (48 + n mod 10) :: char) :: nat)" by simp
  then have d: "m mod 10 = n mod 10" by simp
  have b: "(if m < 10 then [] else nat_str (m div 10)) = (if n < 10 then [] else nat_str (n div 10))"
    using 1(2) butlast by metis
  show ?case
  proof (cases "m < 10")
    case True
    with b have "n < 10" by (metis ne)
    with True d show ?thesis by simp
  next
    case False
    with b have "\<not> n < 10" "nat_str (m div 10) = nat_str (n div 10)" by (metis ne)+
    with False 1(1) d show ?thesis by (metis div_mult_mod_eq)
  qed
qed

definition renamed :: "string \<Rightarrow> nat \<Rightarrow> string" where
  "renamed cid k = (if k = 0 then cid else cid @ ''_d'' @ nat_str k)"

lemma takeWhile_stop: "\<forall>d \<in> set rs. P d \<Longrightarrow> \<not> P c \<Longrightarrow> takeWhile P (rs @ c # zs) = rs"
  by (induction rs) auto

lemma digit_suffix_unique:
  assumes "xs @ c # ds = ys @ c' # ds'" "\<forall>d \<in> set ds. P d" "\<forall>d \<in> set ds'. P d" "\<not> P c" "\<not> P c'"
  shows "xs = ys \<and> c = c' \<and> ds = ds'"
proof -
  have "takeWhile P (rev (xs @ c # ds)) = rev ds" "takeWhile P (rev (ys @ c' # ds')) = rev ds'"
    using assms(2-5) by (simp_all add: takeWhile_stop)
  then have "ds = ds'" using assms(1) by (metis rev_rev_ident)
  with assms(1) show ?thesis by simp
qed

lemma renamed_inject_suffix:
  assumes "x @ ''_d'' @ nat_str m = y @ ''_d'' @ nat_str n"
  shows "x = y \<and> m = n"
proof -
  have "(x @ ''_'') @ CHR ''d'' # nat_str m = (y @ ''_'') @ CHR ''d'' # nat_str n" using assms by simp
  moreover have "\<not> is_digit (CHR ''d'')" by (simp add: is_digit_def)
  ultimately have "x @ ''_'' = y @ ''_''" "nat_str m = nat_str n"
    using digit_suffix_unique [of "x @ ''_''" "CHR ''d''" "nat_str m" "y @ ''_''" "CHR ''d''" "nat_str n" is_digit] nat_str_digits
    by blast+
  then show ?thesis using nat_str_inject by simp
qed

text \<open>No identifier of the batch looks like another one renamed.\<close>

definition no_lookalikes :: "string set \<Rightarrow> bool" where
  "no_lookalikes ids = (\<forall>x \<in> ids. \<forall>y \<in> ids. \<forall>k. k \<noteq> 0 \<longrightarrow> y \<noteq> renamed x k)"

lemma renamed_inject:
  assumes "no_lookalikes ids" "x \<in> ids" "y \<in> ids" "renamed x j = renamed y k"
  shows "x = y \<and> j = k"
proof (cases "j = 0 \<or> k = 0")
  case True
  then have "j = 0 \<and> k = 0" using assms unfolding no_lookalikes_def by (metis renamed_def)
  then show ?thesis using assms(4) by (simp add: renamed_def)
next
  case False
  with assms(4) renamed_inject_suffix [of x j y k] show ?thesis by (simp add: renamed_def)
qed

definition call_ids :: "ToolCall list \<Rightarrow> string list" where
  "call_ids calls = map (\<lambda>c. the (tc_tool_call_id c)) (filter (\<lambda>c. str_truthy (tc_tool_call_id c)) calls)"

definition times_seen :: "(string \<times> nat) list \<Rightarrow> string \<Rightarrow> nat" where
  "times_seen seen cid = (case map_of seen cid of None \<Rightarrow> 0 | Some n \<Rightarrow> n)"

lemma times_seen_set [simp]: "times_seen (alist_set x n seen) y = (if y = x then n else times_seen seen y)"
  by (simp add: times_seen_def)

lemma call_ids_simps [simp]:
  "call_ids [] = []"
  "call_ids (c # cs) = (if str_truthy (tc_tool_call_id c) then the (tc_tool_call_id c) # call_ids cs else call_ids cs)"
  by (simp_all add: call_ids_def)

lemma dedupe_loop_Cons:
  "dedupe_loop seen (c # cs) =
     (if str_truthy (tc_tool_call_id c)
      then c\<lparr>tc_tool_call_id := Some (renamed (the (tc_tool_call_id c)) (times_seen seen (the (tc_tool_call_id c))))\<rparr>
             # dedupe_loop (alist_set (the (tc_tool_call_id c)) (Suc (times_seen seen (the (tc_tool_call_id c)))) seen) cs
      else c # dedupe_loop seen cs)"
  by (cases "tc_tool_call_id c") (auto simp: Let_def times_seen_def renamed_def split: option.splits)

declare dedupe_loop.simps(2) [simp del]

lemma renamed_nonempty [simp]: "renamed x k = [] \<longleftrightarrow> x = [] \<and> k = 0"
  by (auto simp: renamed_def)

lemma str_truthy_iff: "str_truthy x \<longleftrightarrow> (\<exists>s. x = Some s \<and> s \<noteq> [])"
  by (cases x) auto

lemma dedupe_loop_ids:
  "\<exists>ks. length ks = length (call_ids calls) \<and> call_ids (dedupe_loop seen calls) = map2 renamed (call_ids calls) ks
    \<and> (\<forall>i < length ks. times_seen seen (call_ids calls ! i) \<le> ks ! i)
    \<and> (\<forall>i j. i < j \<and> j < length ks \<and> call_ids calls ! i = call_ids calls ! j \<longrightarrow> ks ! i < ks ! j)"
proof (induction calls arbitrary: seen)
  case (Cons c cs)
  show ?case
  proof (cases "str_truthy (tc_tool_call_id c)")
    case False
    with Cons [of seen] show ?thesis by (simp add: dedupe_loop_Cons)
  next
    case True
    then obtain cid where cid: "tc_tool_call_id c = Some cid" "cid \<noteq> []" by (auto simp: str_truthy_iff)
    let ?k = "times_seen seen cid"
    obtain ks where ks: "length ks = length (call_ids cs)"
      "call_ids (dedupe_loop (alist_set cid (Suc ?k) seen) cs) = map2 renamed (call_ids cs) ks"
      "\<forall>i < length ks. times_seen (alist_set cid (Suc ?k) seen) (call_ids cs ! i) \<le> ks ! i"
      "\<forall>i j. i < j \<and> j < length ks \<and> call_ids cs ! i = call_ids cs ! j \<longrightarrow> ks ! i < ks ! j"
      using Cons.IH [of "alist_set cid (Suc ?k) seen"] by blast
    have le: "times_seen seen (call_ids cs ! i) \<le> ks ! i \<and> (call_ids cs ! i = cid \<longrightarrow> ?k < ks ! i)" if "i < length ks" for i
      using ks(3) that by (force split: if_splits)
    show ?thesis
    proof (intro exI [of _ "?k # ks"] conjI allI impI)
      show "length (?k # ks) = length (call_ids (c # cs))" using ks(1) cid by simp
      show "call_ids (dedupe_loop seen (c # cs)) = map2 renamed (call_ids (c # cs)) (?k # ks)"
        using ks(2) cid by (simp add: dedupe_loop_Cons)
      show "times_seen seen (call_ids (c # cs) ! i) \<le> (?k # ks) ! i" if "i < length (?k # ks)" for i
        using that le cid by (cases i) auto
      show "(?k # ks) ! i < (?k # ks) ! j"
        if "i < j \<and> j < length (?k # ks) \<and> call_ids (c # cs) ! i = call_ids (c # cs) ! j" for i j
        using that le ks(4) cid by (cases i; cases j) auto
    qed
  qed
qed simp

lemma dedupe_loop_rest: "map (tc_tool_call_id_update (\<lambda>_. None)) (dedupe_loop seen calls) = map (tc_tool_call_id_update (\<lambda>_. None)) calls"
  by (induction calls arbitrary: seen) (auto simp: dedupe_loop_Cons)

text \<open>Renaming keeps every call of the batch in place, changes nothing but identifiers, and leaves no two
  calls with the same identifier, provided no identifier the provider sent already looks like another one
  renamed.\<close>

lemma dedupe_ids_distinct:
  assumes "no_lookalikes (set (call_ids calls))"
  shows "distinct (call_ids (dedupe_tool_call_ids calls))
    \<and> map (tc_tool_call_id_update (\<lambda>_. None)) (dedupe_tool_call_ids calls) = map (tc_tool_call_id_update (\<lambda>_. None)) calls"
proof
  obtain ks where ks: "length ks = length (call_ids calls)" "call_ids (dedupe_loop [] calls) = map2 renamed (call_ids calls) ks"
    "\<forall>i j. i < j \<and> j < length ks \<and> call_ids calls ! i = call_ids calls ! j \<longrightarrow> ks ! i < ks ! j"
    using dedupe_loop_ids [of calls "[]"] by blast
  have "map2 renamed (call_ids calls) ks ! i \<noteq> map2 renamed (call_ids calls) ks ! j" if "i < j" "j < length ks" for i j
  proof
    assume "map2 renamed (call_ids calls) ks ! i = map2 renamed (call_ids calls) ks ! j"
    then have "renamed (call_ids calls ! i) (ks ! i) = renamed (call_ids calls ! j) (ks ! j)" using that ks(1) by simp
    then have "call_ids calls ! i = call_ids calls ! j \<and> ks ! i = ks ! j"
      using assms that ks(1) by (intro renamed_inject) auto
    with ks(3) that show False by fastforce
  qed
  then have "distinct (map2 renamed (call_ids calls) ks)"
    using ks(1) by (auto simp: distinct_conv_nth) (metis linorder_neqE_nat)
  then show "distinct (call_ids (dedupe_tool_call_ids calls))" using ks(2) by (simp add: dedupe_tool_call_ids_def)
  show "map (tc_tool_call_id_update (\<lambda>_. None)) (dedupe_tool_call_ids calls) = map (tc_tool_call_id_update (\<lambda>_. None)) calls"
    by (simp add: dedupe_tool_call_ids_def dedupe_loop_rest)
qed

text \<open>Without the proviso two calls can leave with one identifier.\<close>

definition call_with_id :: "string \<Rightarrow> ToolCall" where
  "call_with_id cid = \<lparr>tc_tool_name = ''read_file'', tc_args = [], tc_tool_call_id = Some cid, tc_metadata = []\<rparr>"

lemma nat_str_one: "nat_str (Suc 0) = ''1''"
  by code_simp

lemma dedupe_can_collide:
  "call_ids (dedupe_tool_call_ids (map call_with_id [''a'', ''a'', ''a_d1''])) = [''a'', ''a_d1'', ''a_d1'']"
  by (simp add: dedupe_tool_call_ids_def dedupe_loop_Cons call_with_id_def renamed_def times_seen_def nat_str_one)

lemma dedupe_ids_distinct_witness:
  "distinct (call_ids (dedupe_tool_call_ids (map call_with_id [''a'', ''b'', ''a''])))
   \<and> call_ids (dedupe_tool_call_ids (map call_with_id [''a'', ''b'', ''a''])) = [''a'', ''b'', ''a_d1'']"
proof -
  have "no_lookalikes (set (call_ids (map call_with_id [''a'', ''b'', ''a''])))"
    by (auto simp: no_lookalikes_def call_with_id_def renamed_def)
  from dedupe_ids_distinct [OF this] show ?thesis
    by (simp add: dedupe_tool_call_ids_def dedupe_loop_Cons call_with_id_def renamed_def times_seen_def nat_str_one)
qed

section \<open>The hint only raises the planning level\<close>

text \<open>The hint stage leaves every check of the policy but the planning gate alone, and a hint already present
  is replaced only by a stronger one.\<close>

lemma hint_keeps_limits:
  "within_limits (tool_policy_with_planned_tool_hint str pol calls lookup current) c n = within_limits pol c n"
  "ti_approval_required_for_risk (tool_policy_with_planned_tool_hint str pol calls lookup current) = ti_approval_required_for_risk pol"
  "ti_max_tool_calls (tool_policy_with_planned_tool_hint str pol calls lookup current) = ti_max_tool_calls pol"
  "ti_mode (tool_policy_with_planned_tool_hint str pol calls lookup current) = ti_mode pol"
  by (simp_all add: tool_policy_with_planned_tool_hint_def Let_def within_limits_def)

lemma hint_never_lowered:
  "hint_rank (existing_level str (ti_metadata pol))
     \<le> hint_rank (existing_level str (ti_metadata (tool_policy_with_planned_tool_hint str pol calls lookup current)))"
  by (simp add: tool_policy_with_planned_tool_hint_def Let_def existing_level_def hint_document_def dict_get_or_def)

end
