(* ===== verification/Permissions.thy ===== *)
theory Permissions
  imports Py_Patterns
begin

text \<open>
  The permission layer (\<open>permissions/command_classifier.py\<close>, \<open>permissions/policy.py\<close>,
  \<open>permissions/gate.py\<close>): the risk classifier of shell commands with its table of patterns, the
  ordered rules with the mode default, the path scope of a rule, and the gate built from a policy.
  The regular expression of an operator's rule is searched by a parameter; the classifier's own
  patterns are syntax trees.
\<close>

section \<open>The command classifier\<close>

datatype CommandRiskLevel = SAFE | CAUTION | DANGEROUS | CRITICAL

primrec risk_value :: "CommandRiskLevel \<Rightarrow> nat" where
  "risk_value SAFE = 0"
| "risk_value CAUTION = 1"
| "risk_value DANGEROUS = 2"
| "risk_value CRITICAL = 3"

lemma risk_value_inj: "risk_value a = risk_value b \<Longrightarrow> a = b"
  by (cases a; cases b) auto

instantiation CommandRiskLevel :: linorder
begin

definition less_eq_CommandRiskLevel :: "CommandRiskLevel \<Rightarrow> CommandRiskLevel \<Rightarrow> bool" where
  "a \<le> b \<longleftrightarrow> risk_value a \<le> risk_value b"

definition less_CommandRiskLevel :: "CommandRiskLevel \<Rightarrow> CommandRiskLevel \<Rightarrow> bool" where
  "a < b \<longleftrightarrow> risk_value a < risk_value b"

instance
  by standard (auto simp: less_eq_CommandRiskLevel_def less_CommandRiskLevel_def intro: risk_value_inj)

end

record CommandRisk =
  level :: CommandRiskLevel
  reasons :: "string list"

text \<open>Character classes of the patterns: \<open>[^\n|;&]\<close>, \<open>[^\n]\<close>, \<open>[rf]\<close>.\<close>

definition in_command :: "char \<Rightarrow> bool" where
  "in_command c = (c \<notin> {CHR 0x0A, CHR ''|'', CHR '';'', CHR ''&''})"

definition in_line :: "char \<Rightarrow> bool" where
  "in_line c = (c \<noteq> CHR 0x0A)"

text \<open>\<open>\brm\b[^\n|;&]*\s-[a-z]*[rf][a-z]*\b\<close>\<close>

definition rx_forced_rm :: "rx list" where
  "rx_forced_rm =
     [rx_word ''rm'', Many in_command, Sat py_space, Lit ''-'', Many lower_letter,
      Sat (\<lambda>c. c = CHR ''r'' \<or> c = CHR ''f''), Many lower_letter, Boundary]"

definition rx_disk :: rx where
  "rx_disk = rx_alt [Lit ''sd'', Lit ''nvme'', Lit ''disk'', Lit ''hd'']"

definition rx_download :: rx where
  "rx_download = rx_seq [Boundary, rx_alt [Lit ''curl'', Lit ''wget'', Lit ''fetch''], Boundary]"

abbreviation "sp0 \<equiv> Many py_space"

definition risk_rules :: "(rx \<times> CommandRiskLevel \<times> string) list" where
  "risk_rules =
     [(rx_seq (rx_forced_rm @ [Many in_command, Sat py_space,
         rx_alt [Lit ''/'', Lit ''~'', Lit ''$HOME'', Lit ''*''], sp0, At_End]),
       CRITICAL, ''recursive force-delete of a root/home/glob path''),
      (rx_seq (rx_forced_rm @ [Many in_command, Sat py_space,
         rx_alt [Seq (Lit ''/'') (Sat py_space), Lit ''/*'', rx_seq [Lit ''/'', sp0, At_End]]]),
       CRITICAL, ''recursive force-delete targeting /''),
      (rx_seq [Lit '':()'', sp0, Lit ''{'', sp0, Lit '':'', sp0, Lit ''|'', sp0, Lit '':'', sp0, Lit ''&'', sp0,
         Lit ''}'', sp0, Lit '';'', sp0, Lit '':''],
       CRITICAL, ''fork bomb''),
      (rx_seq [Boundary, Lit ''mkfs'', Opt (rx_seq [Lit ''.'', Sat word_char, Many word_char]), Boundary],
       CRITICAL, ''filesystem format (mkfs)''),
      (rx_seq [rx_word ''dd'', Many in_line, Boundary, Lit ''of=/dev/'', rx_disk],
       CRITICAL, ''raw write to a block device (dd of=/dev/...)''),
      (rx_seq [Lit ''>'', sp0, Lit ''/dev/'', rx_disk, Many word_char],
       CRITICAL, ''redirect to a raw block device''),
      (rx_seq [Boundary, rx_alt [Lit ''chmod'', Lit ''chown''], Boundary, Many in_line, Lit ''-'',
         Many lower_letter, Lit ''R'', Many lower_letter, Boundary, Many in_line, Sat py_space, Lit ''/'',
         rx_alt [Sat py_space, At_End]],
       CRITICAL, ''recursive permission/ownership change on /''),
      (rx_seq [rx_download, Many in_line, Lit ''|'', sp0, Opt (rx_seq [Lit ''sudo'', Sat py_space, sp0]),
         rx_alt [Lit ''sh'', Lit ''bash'', Lit ''zsh'', Seq (Lit ''python'') (Opt (Sat is_digit))], Boundary],
       DANGEROUS, ''pipe network download directly into a shell/interpreter''),
      (rx_word ''sudo'', DANGEROUS, ''privilege escalation (sudo)''),
      (rx_seq rx_forced_rm, DANGEROUS, ''recursive/forced delete''),
      (rx_seq [rx_word ''git'', Many in_line, rx_word ''push'', Many in_line,
         rx_alt [Seq (Lit ''--force'') Boundary, Seq (Lit ''-f'') Boundary, Lit ''+'']],
       DANGEROUS, ''force push''),
      (rx_word ''eval'', DANGEROUS, ''dynamic command evaluation (eval)''),
      (rx_seq [rx_word ''kill'', Many in_line, Sat py_space, Lit ''-'', Opt (Lit ''9''), sp0, Lit ''-1'', Boundary],
       DANGEROUS, ''signal to every process''),
      (rx_word ''rm'', CAUTION, ''file deletion''),
      (rx_download, CAUTION, ''network access''),
      (Seq (Lit ''>'') (Opt (Lit ''>'')), CAUTION, ''output redirection to a file''),
      (rx_seq [Boundary, rx_alt [Lit ''mv'', Lit ''cp'', Lit ''truncate'', Lit ''tee''], Boundary],
       CAUTION, ''filesystem mutation'')]"

text \<open>The loop over the table with its two accumulators.\<close>

fun classify_loop :: "string \<Rightarrow> (rx \<times> CommandRiskLevel \<times> string) list \<Rightarrow> CommandRisk \<Rightarrow> CommandRisk" where
  "classify_loop txt [] acc = acc"
| "classify_loop txt ((r, l, why) # rules) acc =
     classify_loop txt rules
       (if re_search r txt then \<lparr>level = max (level acc) l, reasons = reasons acc @ [why]\<rparr> else acc)"

definition classify_command :: "string \<Rightarrow> CommandRisk" where
  "classify_command cmd =
     (let txt = py_strip cmd in
      if txt = [] then \<lparr>level = SAFE, reasons = []\<rparr>
      else classify_loop txt risk_rules \<lparr>level = SAFE, reasons = []\<rparr>)"

section \<open>Policies\<close>

datatype PermissionMode = YOLO | STANDARD | STRICT

datatype PermissionDecision = P_ALLOW | P_ASK | P_DENY

record PermissionOutcome =
  po_decision :: PermissionDecision
  po_reason :: string

record PermissionRule =
  pr_decision :: PermissionDecision
  pr_tools :: "string list"
  pr_command_includes :: "string option"
  pr_command_regex :: "string option"
  pr_path_under :: "string option"
  pr_reason :: string

record PermissionPolicy =
  pp_mode :: PermissionMode
  pp_rules :: "PermissionRule list"

fun first_text :: "pydict \<Rightarrow> string list \<Rightarrow> string option" where
  "first_text args [] = None"
| "first_text args (k # ks) =
     (case dict_get args k of
        PStr s \<Rightarrow> if py_strip s \<noteq> [] then Some s else first_text args ks
      | _ \<Rightarrow> first_text args ks)"

definition command_text :: "pydict \<Rightarrow> string option" where
  "command_text args = first_text args [''command'', ''cmd'', ''script'']"

definition path_text :: "pydict \<Rightarrow> string option" where
  "path_text args = first_text args [''path'', ''file_path'', ''dir'', ''base_dir'', ''directory'', ''target'']"

text \<open>\<open>path.rstrip("/")\<close> and \<open>x or "/"\<close>.\<close>

definition rstrip_slash :: "string \<Rightarrow> string" where
  "rstrip_slash s = rev (dropWhile (\<lambda>c. c = CHR ''/'') (rev s))"

definition or_root :: "string \<Rightarrow> string" where
  "or_root s = (if s = [] then ''/'' else s)"

definition path_anchor :: "string \<Rightarrow> string" where
  "path_anchor path = or_root (rstrip_slash (takeWhile (\<lambda>c. c \<notin> set glob_chars) path))"

definition path_overlaps :: "string \<Rightarrow> string \<Rightarrow> bool" where
  "path_overlaps path protected =
     (let anchor = or_root (rstrip_slash (path_anchor path)); prot = or_root (rstrip_slash protected);
          a = (if anchor = ''/'' then anchor else anchor @ ''/'');
          p = (if prot = ''/'' then prot else prot @ ''/'')
      in prefix p a \<or> prefix a p)"

definition or_empty :: "string option \<Rightarrow> string" where
  "or_empty x = (case x of None \<Rightarrow> [] | Some s \<Rightarrow> s)"

definition rule_matches :: "(string \<Rightarrow> string \<Rightarrow> bool) \<Rightarrow> PermissionRule \<Rightarrow> string \<Rightarrow> pydict \<Rightarrow> bool" where
  "rule_matches search r tool args =
     (if pr_tools r \<noteq> [] \<and> \<not> list_ex (fnmatch tool) (pr_tools r) then False
      else
        (let cmd = command_text args in
         if (case pr_command_includes r of None \<Rightarrow> False
             | Some inc \<Rightarrow> \<not> sublist (py_lower inc) (py_lower (or_empty cmd))) then False
         else if (case pr_command_regex r of None \<Rightarrow> False
             | Some e \<Rightarrow> \<not> search e (or_empty cmd)) then False
         else (case pr_path_under r of None \<Rightarrow> True
             | Some scope \<Rightarrow>
                 (case path_text args of None \<Rightarrow> False | Some target \<Rightarrow> path_overlaps target scope))))"

text \<open>The levels that deny and that ask; a lookup of the mode without an entry would raise.\<close>

definition mode_thresholds :: "(PermissionMode \<times> CommandRiskLevel \<times> CommandRiskLevel) list" where
  "mode_thresholds = [(STANDARD, CRITICAL, DANGEROUS), (STRICT, DANGEROUS, CAUTION)]"

definition classify_default :: "PermissionMode \<Rightarrow> string \<Rightarrow> PermissionOutcome option" where
  "classify_default mode cmd =
     (let risk = classify_command cmd in
      case map_of mode_thresholds mode of
        None \<Rightarrow> None
      | Some (deny_at, ask_at) \<Rightarrow>
          (let reason = py_join ''; '' (reasons risk) in
           if deny_at \<le> level risk then Some \<lparr>po_decision = P_DENY, po_reason = reason\<rparr>
           else if ask_at \<le> level risk then Some \<lparr>po_decision = P_ASK, po_reason = reason\<rparr>
           else Some \<lparr>po_decision = P_ALLOW, po_reason = reason\<rparr>))"

fun decide_rules ::
  "(string \<Rightarrow> string \<Rightarrow> bool) \<Rightarrow> PermissionRule list \<Rightarrow> string \<Rightarrow> pydict \<Rightarrow> PermissionOutcome option" where
  "decide_rules search [] tool args = None"
| "decide_rules search (r # rs) tool args =
     (if rule_matches search r tool args then Some \<lparr>po_decision = pr_decision r, po_reason = pr_reason r\<rparr>
      else decide_rules search rs tool args)"

text \<open>\<open>None\<close> stands for a raised \<open>KeyError\<close>.\<close>

definition decide ::
  "(string \<Rightarrow> string \<Rightarrow> bool) \<Rightarrow> PermissionPolicy \<Rightarrow> string \<Rightarrow> pydict \<Rightarrow> PermissionOutcome option" where
  "decide search pol tool args =
     (case decide_rules search (pp_rules pol) tool args of
        Some outcome \<Rightarrow> Some outcome
      | None \<Rightarrow>
          if pp_mode pol = YOLO then Some \<lparr>po_decision = P_ALLOW, po_reason = []\<rparr>
          else (case command_text args of
                  None \<Rightarrow> Some \<lparr>po_decision = P_ALLOW, po_reason = []\<rparr>
                | Some cmd \<Rightarrow> if cmd = [] then Some \<lparr>po_decision = P_ALLOW, po_reason = []\<rparr>
                              else classify_default (pp_mode pol) cmd))"

section \<open>The gate\<close>

text \<open>The reason text of a gate result: the policy's own, or the default sentence for the tool.\<close>

datatype gate_text = Policy_Reason string | Default_Denied string | Default_Ask string

datatype ToolGateResult =
    ToolGateAllow "gate_text option" | ToolGateDeny gate_text | ToolGateAsk gate_text

definition permission_gate ::
  "(string \<Rightarrow> string \<Rightarrow> bool) \<Rightarrow> PermissionPolicy \<Rightarrow> string \<Rightarrow> pydict \<Rightarrow> ToolGateResult option" where
  "permission_gate search pol tool args =
     (case decide search pol tool args of
        None \<Rightarrow> None
      | Some outcome \<Rightarrow>
          (let why = po_reason outcome in
           if po_decision outcome = P_DENY
           then Some (ToolGateDeny (if why \<noteq> [] then Policy_Reason why else Default_Denied tool))
           else if po_decision outcome = P_ASK
           then Some (ToolGateAsk (if why \<noteq> [] then Policy_Reason why else Default_Ask tool))
           else Some (ToolGateAllow (if why \<noteq> [] then Some (Policy_Reason why) else None))))"

section \<open>The classifier takes the maximum\<close>

lemma classify_loop_eq:
  "classify_loop txt rules acc =
     \<lparr>level = fold (\<lambda>(r, l, why) m. max m l) (filter (\<lambda>(r, l, why). re_search r txt) rules) (level acc),
      reasons = reasons acc @ map (\<lambda>(r, l, why). why) (filter (\<lambda>(r, l, why). re_search r txt) rules)\<rparr>"
  by (induction rules arbitrary: acc) auto

lemma le_fold_max:
  "b \<le> fold (\<lambda>(r, l, why) m. max m l) rules (a :: CommandRiskLevel)
     \<longleftrightarrow> b \<le> a \<or> (\<exists>(r, l, why) \<in> set rules. b \<le> l)"
  by (induction rules arbitrary: a) (auto simp: le_max_iff_disj)

definition risk_hits :: "string \<Rightarrow> (rx \<times> CommandRiskLevel \<times> string) list" where
  "risk_hits txt = filter (\<lambda>(r, l, why). re_search r txt) risk_rules"

lemma classify_command_hits:
  assumes "py_strip cmd \<noteq> []"
  shows "reasons (classify_command cmd) = map (\<lambda>(r, l, why). why) (risk_hits (py_strip cmd))"
    and "b \<le> level (classify_command cmd) \<longleftrightarrow> b = SAFE \<or> (\<exists>(r, l, why) \<in> set (risk_hits (py_strip cmd)). b \<le> l)"
proof -
  have [simp]: "b \<le> SAFE \<longleftrightarrow> b = SAFE" by (cases b) (simp_all add: less_eq_CommandRiskLevel_def)
  show "reasons (classify_command cmd) = map (\<lambda>(r, l, why). why) (risk_hits (py_strip cmd))"
    "b \<le> level (classify_command cmd) \<longleftrightarrow> b = SAFE \<or> (\<exists>(r, l, why) \<in> set (risk_hits (py_strip cmd)). b \<le> l)"
    using assms by (simp_all add: classify_command_def Let_def classify_loop_eq risk_hits_def le_fold_max)
qed

text \<open>The text of a command is never blank, so the default of a checking mode always classifies.\<close>

lemma first_text_nonblank: "first_text args ks = Some s \<Longrightarrow> py_strip s \<noteq> []"
  by (induction ks) (auto split: pyval.splits if_splits)

lemma command_text_nonblank: "command_text args = Some cmd \<Longrightarrow> py_strip cmd \<noteq> [] \<and> cmd \<noteq> []"
  using first_text_nonblank [of args _ cmd] by (cases "cmd = []") (auto simp del: first_text.simps simp: command_text_def)

definition decision_for :: "CommandRiskLevel \<Rightarrow> CommandRiskLevel \<Rightarrow> CommandRiskLevel \<Rightarrow> PermissionDecision" where
  "decision_for deny_at ask_at l = (if deny_at \<le> l then P_DENY else if ask_at \<le> l then P_ASK else P_ALLOW)"

lemma decide_unmatched:
  assumes "decide_rules search (pp_rules pol) tool args = None" "command_text args = Some cmd"
    and "map_of mode_thresholds (pp_mode pol) = Some (deny_at, ask_at)"
  shows "decide search pol tool args = Some
    \<lparr>po_decision = decision_for deny_at ask_at (level (classify_command cmd)),
     po_reason = py_join ''; '' (reasons (classify_command cmd))\<rparr>"
proof -
  have "pp_mode pol \<noteq> YOLO" using assms(3) by (auto simp: mode_thresholds_def)
  then show ?thesis
    using assms command_text_nonblank [OF assms(2)]
    by (simp add: decide_def classify_default_def decision_for_def Let_def)
qed

section \<open>Words in a command\<close>

lemma last_dropWhile: "dropWhile P xs \<noteq> [] \<Longrightarrow> last (dropWhile P xs) = last xs"
  by (induction xs) auto

lemma strip_around:
  assumes "w \<noteq> []" "\<not> py_space (hd w)" "\<not> py_space (last w)"
  shows "py_strip (pre @ w @ post) = py_lstrip pre @ w @ py_rstrip post"
proof -
  have l: "py_lstrip (pre @ w @ post) = py_lstrip pre @ w @ post"
    using assms(1,2) by (induction pre; cases w) (auto simp: py_lstrip_def)
  have "dropWhile py_space (rev post @ rev w @ x) = dropWhile py_space (rev post) @ rev w @ x" for x
    using assms(1,3) by (induction post rule: rev_induct; cases w rule: rev_cases) auto
  from this [of "rev (py_lstrip pre)"] show ?thesis
    unfolding py_strip_def l by (simp add: py_rstrip_def)
qed

lemma isolated_strip:
  assumes "isolated pre post"
  shows "isolated (py_lstrip pre) (py_rstrip post)"
proof -
  have "py_lstrip pre = [] \<or> last (py_lstrip pre) = last pre"
    using last_dropWhile [of py_space pre] by (auto simp: py_lstrip_def)
  moreover have "py_rstrip post = [] \<or> hd (py_rstrip post) = hd post"
    using last_dropWhile [of py_space "rev post"] by (auto simp: py_rstrip_def hd_rev last_rev)
  moreover have "pre = [] \<Longrightarrow> py_lstrip pre = []" "post = [] \<Longrightarrow> py_rstrip post = []"
    by (simp_all add: py_lstrip_def py_rstrip_def)
  ultimately show ?thesis using assms unfolding isolated_def by metis
qed

lemma word_not_space: "word_char c \<Longrightarrow> \<not> py_space c"
  by (auto simp: word_char_def py_space_def Let_def)

lemma risk_rules_length: "length risk_rules = 17"
  by (simp add: risk_rules_def)

lemma privileged_rules:
  "(rx_word ''sudo'', DANGEROUS, ''privilege escalation (sudo)'') \<in> set risk_rules"
  "(rx_word ''eval'', DANGEROUS, ''dynamic command evaluation (eval)'') \<in> set risk_rules"
proof -
  have "risk_rules ! 8 = (rx_word ''sudo'', DANGEROUS, ''privilege escalation (sudo)'')"
    "risk_rules ! 11 = (rx_word ''eval'', DANGEROUS, ''dynamic command evaluation (eval)'')"
    by (simp_all add: risk_rules_def)
  then show "(rx_word ''sudo'', DANGEROUS, ''privilege escalation (sudo)'') \<in> set risk_rules"
    "(rx_word ''eval'', DANGEROUS, ''dynamic command evaluation (eval)'') \<in> set risk_rules"
    using nth_mem [of 8 risk_rules] nth_mem [of 11 risk_rules] risk_rules_length by simp_all
qed

lemma word_hit:
  assumes "(rx_word w, l, why) \<in> set risk_rules" "w \<noteq> []" "word_char (hd w)" "word_char (last w)"
    and "isolated pre post"
  shows "l \<le> level (classify_command (pre @ w @ post))"
proof -
  let ?s = "py_strip (pre @ w @ post)"
  have s: "?s = py_lstrip pre @ w @ py_rstrip post"
    using assms word_not_space by (intro strip_around) auto
  then have ne: "?s \<noteq> []" using assms(2) by simp
  have "re_search (rx_word w) ?s"
    using re_search_word [OF assms(2-4)] s isolated_strip [OF assms(5)] by blast
  then have "(rx_word w, l, why) \<in> set (risk_hits ?s)" using assms(1) by (simp add: risk_hits_def)
  then show ?thesis unfolding classify_command_hits(2) [OF ne] by force
qed

section \<open>Paths in segments\<close>

abbreviation segments :: "string \<Rightarrow> string list" where
  "segments \<equiv> split_at (CHR ''/'')"

declare split_at.simps(2) [simp del]

lemmas segments_simps = split_at_Cons split_at_sep

lemma prefix_single: "prefix [a] xs \<longleftrightarrow> xs \<noteq> [] \<and> hd xs = a"
  by (cases xs) auto

text \<open>Comparing paths that end in a slash as texts is comparing their segments.\<close>

lemma prefix_segments: "prefix (x @ ''/'') (y @ ''/'') \<longleftrightarrow> prefix (segments x) (segments y)"
proof (induction x arbitrary: y)
  case Nil
  show ?case
  proof (cases y)
    case (Cons c cs)
    then show ?thesis by (cases "c = CHR ''/''") (simp_all add: segments_simps prefix_single)
  qed (simp add: prefix_single)
next
  case (Cons a x)
  show ?case
  proof (cases y)
    case Nil
    then show ?thesis by (cases "a = CHR ''/''") (simp_all add: segments_simps)
  next
    case y: (Cons b y')
    have hd_tl: "prefix (segments x) (segments y') \<longleftrightarrow>
        hd (segments x) = hd (segments y') \<and> prefix (tl (segments x)) (tl (segments y'))"
      by (cases "segments x"; cases "segments y'") (use split_at_ne in auto)
    consider "a = CHR ''/''" "b = CHR ''/''" | "a \<noteq> CHR ''/''" "b \<noteq> CHR ''/''" | "(a = CHR ''/'') \<noteq> (b = CHR ''/'')" by blast
    then show ?thesis
    proof cases
      case 2
      then show ?thesis using Cons.IH [of y'] y hd_tl by (auto simp: segments_simps)
    next
      case 3
      then show ?thesis using y
        by (cases "a = CHR ''/''") (auto simp: segments_simps)
    qed (use Cons.IH [of y'] y in \<open>simp add: segments_simps\<close>)
  qed
qed

lemma rstrip_slash_simps [simp]:
  "rstrip_slash [] = []"
  "rstrip_slash (xs @ [c]) = (if c = CHR ''/'' then rstrip_slash xs else xs @ [c])"
  by (simp_all add: rstrip_slash_def)

lemma rstrip_slash_end: "rstrip_slash x = ys @ [c] \<Longrightarrow> c \<noteq> CHR ''/''"
  by (induction x rule: rev_induct) (auto split: if_splits)

lemma rstrip_slash_idem [simp]: "rstrip_slash (rstrip_slash x) = rstrip_slash x"
  by (induction x rule: rev_induct) auto

lemma slashed: "(if or_root (rstrip_slash x) = ''/'' then or_root (rstrip_slash x) else or_root (rstrip_slash x) @ ''/'')
    = rstrip_slash x @ ''/''"
  using rstrip_slash_end [of x "[]"] by (auto simp: or_root_def)

lemma rstrip_or_root: "rstrip_slash (or_root (rstrip_slash x)) = rstrip_slash x"
  using rstrip_slash_simps(2) [of "[]" "CHR ''/''"] by (cases "rstrip_slash x = []") (auto simp: or_root_def)

text \<open>The path before its first wildcard.\<close>

definition literal_head :: "string \<Rightarrow> string" where
  "literal_head path = takeWhile (\<lambda>c. c \<notin> set glob_chars) path"

lemma path_overlaps_slashed:
  "path_overlaps path protected \<longleftrightarrow>
     prefix (rstrip_slash protected @ ''/'') (rstrip_slash (literal_head path) @ ''/'')
   \<or> prefix (rstrip_slash (literal_head path) @ ''/'') (rstrip_slash protected @ ''/'')"
  by (simp only: path_overlaps_def path_anchor_def Let_def rstrip_or_root slashed literal_head_def)

lemma rstrip_slash_split: "\<exists>n. x = rstrip_slash x @ replicate n (CHR ''/'')"
proof (induction x rule: rev_induct)
  case (snoc c xs)
  then obtain n where "xs = rstrip_slash xs @ replicate n (CHR ''/'')" by blast
  then have "c = CHR ''/'' \<Longrightarrow> xs @ [c] = rstrip_slash (xs @ [c]) @ replicate (Suc n) (CHR ''/'')"
    by (simp add: replicate_append_same [symmetric])
  then show ?case by (cases "c = CHR ''/''") (blast, simp)
qed simp

lemma head_slashed:
  assumes "h = q \<or> (h \<noteq> [] \<and> last h = CHR ''/'')" "prefix h q"
  shows "prefix (rstrip_slash h @ ''/'') (q @ ''/'')"
proof -
  obtain n where n: "h = rstrip_slash h @ replicate n (CHR ''/'')" using rstrip_slash_split by blast
  show ?thesis
  proof (cases n)
    case 0
    have "h = q"
    proof (rule ccontr)
      assume "h \<noteq> q"
      then have "h \<noteq> []" "last h = CHR ''/''" using assms(1) by auto
      moreover have "rstrip_slash h = h" using n 0 by simp
      ultimately show False using rstrip_slash_end [of h "butlast h" "last h"] by simp
    qed
    then show ?thesis using n 0 by simp
  next
    case (Suc m)
    then have "h = (rstrip_slash h @ ''/'') @ replicate m (CHR ''/'')" using n by simp
    then have "prefix (rstrip_slash h @ ''/'') h" by (metis prefixI)
    then show ?thesis using assms(2) by (meson prefix_order.trans prefix_prefix)
  qed
qed

section \<open>Properties\<close>

text \<open>When no rule matches, a checking mode decides by the highest level among the patterns found
  in the command: it denies exactly when a pattern at or above its deny level is found, asks exactly
  when none is but one at or above its ask level is, and gives the found patterns' reasons in the
  order of the table.\<close>

lemma default_decided_by_worst_pattern:
  assumes "decide_rules search (pp_rules pol) tool args = None" "command_text args = Some cmd"
    and "map_of mode_thresholds (pp_mode pol) = Some (deny_at, ask_at)"
  shows "\<exists>out. decide search pol tool args = Some out
    \<and> (po_decision out = P_DENY \<longleftrightarrow> (\<exists>(r, l, why) \<in> set risk_rules. re_search r (py_strip cmd) \<and> deny_at \<le> l))
    \<and> (po_decision out = P_ASK \<longleftrightarrow>
        \<not> (\<exists>(r, l, why) \<in> set risk_rules. re_search r (py_strip cmd) \<and> deny_at \<le> l)
        \<and> (\<exists>(r, l, why) \<in> set risk_rules. re_search r (py_strip cmd) \<and> ask_at \<le> l))
    \<and> po_reason out = py_join ''; '' [why. (r, l, why) \<leftarrow> risk_rules, re_search r (py_strip cmd)]"
proof -
  have ne: "py_strip cmd \<noteq> []" using command_text_nonblank [OF assms(2)] by simp
  have pos: "deny_at \<noteq> SAFE" "ask_at \<noteq> SAFE" using assms(3) by (auto simp: mode_thresholds_def split: if_splits)
  have hit: "b \<le> level (classify_command cmd) \<longleftrightarrow> (\<exists>(r, l, why) \<in> set risk_rules. re_search r (py_strip cmd) \<and> b \<le> l)"
    if "b \<noteq> SAFE" for b
    unfolding classify_command_hits(2) [OF ne] using that by (fastforce simp: risk_hits_def)
  have comp: "map (\<lambda>(r, l, why). why) (filter (\<lambda>(r, l, why). re_search r x) rules)
      = [why. (r, l, why) \<leftarrow> rules, re_search r x]" for x and rules :: "(rx \<times> CommandRiskLevel \<times> string) list"
    by (induction rules) auto
  show ?thesis
    unfolding decide_unmatched [OF assms] classify_command_hits(1) [OF ne] risk_hits_def comp
      hit [OF pos(1), symmetric] hit [OF pos(2), symmetric]
    by (auto simp: decision_for_def)
qed

lemma privileged_word_held:
  assumes "decide_rules search (pp_rules pol) tool args = None" "command_text args = Some (pre @ w @ post)"
    and "w \<in> {''sudo'', ''eval''}" "isolated pre post" "pp_mode pol \<noteq> YOLO"
  shows "\<exists>out. decide search pol tool args = Some out \<and> po_decision out \<noteq> P_ALLOW
    \<and> (pp_mode pol = STRICT \<longrightarrow> po_decision out = P_DENY)"
proof -
  obtain why where "(rx_word w, DANGEROUS, why) \<in> set risk_rules" 
    using assms(3) privileged_rules by blast
  moreover have "w \<noteq> []" "word_char (hd w)" "word_char (last w)"
    using assms(3) by (auto simp: word_char_def Let_def)
  ultimately have lv: "DANGEROUS \<le> level (classify_command (pre @ w @ post))" using word_hit assms(4) by blast
  then have "CAUTION \<le> level (classify_command (pre @ w @ post))" by (auto simp: less_eq_CommandRiskLevel_def)
  then show ?thesis
    using decide_unmatched [OF assms(1,2)] lv assms(5)
    by (cases "pp_mode pol") (auto simp: mode_thresholds_def decision_for_def)
qed

text \<open>A command that contains \<open>sudo\<close> or \<open>eval\<close> as a word, anywhere and whatever surrounds it, is never
  let through by the default of a checking mode: the standard mode asks or denies and the strict
  mode denies.\<close>

lemma privileged_word_never_passes:
  assumes "decide_rules search (pp_rules pol) tool args = None" "command_text args = Some (pre @ w @ post)"
    and "w \<in> {''sudo'', ''eval''}" "isolated pre post" "pp_mode pol \<noteq> YOLO"
  shows "\<exists>out. decide search pol tool args = Some out \<and> po_decision out \<noteq> P_ALLOW
    \<and> (pp_mode pol = STRICT \<longrightarrow> po_decision out = P_DENY)"
  using assms by (rule privileged_word_held)

primrec strictness :: "PermissionDecision \<Rightarrow> nat" where
  "strictness P_ALLOW = 0"
| "strictness P_ASK = 1"
| "strictness P_DENY = 2"

text \<open>For the same rules and the same call the modes are ordered: every mode gives an outcome, and
  going from the permissive to the standard and from there to the strict mode the decision never
  moves from deny towards allow.\<close>

lemma stricter_mode_decides_stricter:
  "\<exists>y s t. decide search \<lparr>pp_mode = YOLO, pp_rules = rules\<rparr> tool args = Some y
    \<and> decide search \<lparr>pp_mode = STANDARD, pp_rules = rules\<rparr> tool args = Some s
    \<and> decide search \<lparr>pp_mode = STRICT, pp_rules = rules\<rparr> tool args = Some t
    \<and> strictness (po_decision y) \<le> strictness (po_decision s)
    \<and> strictness (po_decision s) \<le> strictness (po_decision t)"
proof (cases "decide_rules search rules tool args")
  case (Some out)
  then show ?thesis by (simp add: decide_def)
next
  case None
  show ?thesis
  proof (cases "command_text args")
    case c: (Some cmd)
    have "strictness (decision_for CRITICAL DANGEROUS l) \<le> strictness (decision_for DANGEROUS CAUTION l)" for l
      by (cases l) (simp_all add: decision_for_def less_eq_CommandRiskLevel_def)
    then show ?thesis
      using None c decide_unmatched [of search "\<lparr>pp_mode = STANDARD, pp_rules = rules\<rparr>" tool args cmd]
        decide_unmatched [of search "\<lparr>pp_mode = STRICT, pp_rules = rules\<rparr>" tool args cmd]
      by (simp add: mode_thresholds_def decide_def [of _ "\<lparr>pp_mode = YOLO, pp_rules = rules\<rparr>"])
  qed (use None in \<open>simp add: decide_def\<close>)
qed

text \<open>The path scope of a rule compares whole segments: a path overlaps a protected prefix exactly
  when the segments of one, up to the first wildcard and without trailing slashes, are an initial part
  of the segments of the other. A sibling with a common name prefix is not touched.\<close>

lemma path_scope_by_segments:
  "path_overlaps path protected \<longleftrightarrow>
     prefix (segments (rstrip_slash protected)) (segments (rstrip_slash (literal_head path)))
   \<or> prefix (segments (rstrip_slash (literal_head path))) (segments (rstrip_slash protected))"
  by (simp only: path_overlaps_slashed prefix_segments)

text \<open>A rule with a path scope is not evaded by wildcards that start a segment: if the path argument
  has no wildcard, or its first wildcard follows a slash, and some path it matches lies in the
  protected directory, then the scope check fires.\<close>

lemma scope_catches_segment_globs:
  assumes "fnmatch q path" "prefix (rstrip_slash protected @ ''/'') (q @ ''/'')"
    and "literal_head path = path \<or> (literal_head path \<noteq> [] \<and> last (literal_head path) = CHR ''/'')"
  shows "path_overlaps path protected"
proof -
  let ?h = "literal_head path"
  have lit: "\<forall>c \<in> set ?h. c \<notin> set glob_chars" by (auto simp: literal_head_def dest: set_takeWhileD)
  have split: "path = ?h @ dropWhile (\<lambda>c. c \<notin> set glob_chars) path" by (simp add: literal_head_def)
  have "prefix ?h q" using assms(1) fnmatch_anchor [OF lit] split by (metis prefixI)
  moreover have "?h = q \<or> (?h \<noteq> [] \<and> last ?h = CHR ''/'')"
    using assms(1,3) fnmatch_literal [OF lit, of q] by auto
  ultimately have "prefix (rstrip_slash ?h @ ''/'') (q @ ''/'')" by (intro head_slashed)
  with assms(2) show ?thesis unfolding path_overlaps_slashed by (metis prefix_same_cases)
qed

text \<open>The condition on the wildcard is needed: the anchor keeps the partial segment before a wildcard.\<close>

lemma partial_segment_glob_missed: "fnmatch ''/etc'' ''/et*'' \<and> \<not> path_overlaps ''/et*'' ''/etc''"
  by code_simp

section \<open>Witnesses\<close>

definition standard_policy :: PermissionPolicy where
  "standard_policy = \<lparr>pp_mode = STANDARD, pp_rules = []\<rparr>"

definition strict_policy :: PermissionPolicy where
  "strict_policy = \<lparr>pp_mode = STRICT, pp_rules = []\<rparr>"

lemma rm_hits:
  "\<not> (\<exists>(r, l, why) \<in> set risk_rules. re_search r (py_strip ''rm'') \<and> DANGEROUS \<le> l)"
  "\<exists>(r, l, why) \<in> set risk_rules. re_search r (py_strip ''rm'') \<and> CAUTION \<le> l"
  by code_simp+

lemma default_decided_by_worst_pattern_witness:
  "\<exists>out. decide (\<lambda>e s. False) strict_policy ''bash'' [(''cmd'', PStr ''rm'')] = Some out
    \<and> po_decision out = P_ASK"
proof -
  have c: "command_text [(''cmd'', PStr ''rm'')] = Some ''rm''" by code_simp
  have "decide_rules (\<lambda>e s. False) (pp_rules strict_policy) ''bash'' [(''cmd'', PStr ''rm'')] = None"
    "map_of mode_thresholds (pp_mode strict_policy) = Some (DANGEROUS, CAUTION)"
    by (simp_all add: strict_policy_def mode_thresholds_def)
  from default_decided_by_worst_pattern [OF this(1) c this(2)] rm_hits show ?thesis by blast
qed

lemma privileged_word_never_passes_witness:
  "\<exists>out. decide (\<lambda>e s. False) standard_policy ''bash'' [(''cmd'', PStr ''ls; sudo reboot'')] = Some out
    \<and> po_decision out \<noteq> P_ALLOW"
proof -
  have c: "command_text [(''cmd'', PStr ''ls; sudo reboot'')] = Some (''ls; '' @ ''sudo'' @ '' reboot'')"
    by code_simp
  have i: "isolated ''ls; '' '' reboot''" by code_simp
  from privileged_word_never_passes [of "\<lambda>e s. False" standard_policy "''bash''", OF _ c _ i]
  show ?thesis by (auto simp: standard_policy_def)
qed

lemma scope_catches_segment_globs_witness: "path_overlaps ''/srv/*/key'' ''/srv/app''"
proof (rule scope_catches_segment_globs)
  show "fnmatch ''/srv/app/key'' ''/srv/*/key''" by code_simp
  show "prefix (rstrip_slash ''/srv/app'' @ ''/'') (''/srv/app/key'' @ ''/'')" by code_simp
  show "literal_head ''/srv/*/key'' = ''/srv/*/key'' \<or> (literal_head ''/srv/*/key'' \<noteq> [] \<and> last (literal_head ''/srv/*/key'') = CHR ''/'')"
    by code_simp
qed

end
