(* ===== verification/Tool_Gate.thy ===== *)
theory Tool_Gate
  imports Planned_Calls Permissions Control_Contracts
begin

text \<open>
  The decision about one planned call (\<open>tools/executor/governed.py\<close>): the static policy, the approvals that
  lift an interrupt, the caller's gate with its provenance (\<open>runtime/tool_gate.py\<close>), and the host's
  decision hooks (\<open>tools/policy/decision_hooks.py\<close>), with the bounds on host metadata
  (\<open>contracts/validation.py\<close>) and the approved prompt categories (\<open>contracts/interrupts.py\<close>). The
  gate, the hooks, regular-expression search and the validation of a prompt category are parameters.
\<close>

section \<open>Bounded metadata\<close>

text \<open>\<open>json.dumps(value, sort_keys=True)\<close>: everything outside the printable range is escaped, so the length of
  the text is the number of its bytes.\<close>

definition json_escape_ascii :: "char \<Rightarrow> string" where
  "json_escape_ascii c =
     (let n = of_char c :: nat in
      if n < 127 then json_escape c
      else char_of (92 :: nat) # ''u00'' @ [hex_digit (n div 16), hex_digit (n mod 16)])"

definition json_string_ascii :: "string \<Rightarrow> string" where
  "json_string_ascii s = char_of (34 :: nat) # concat (map json_escape_ascii s) @ [char_of (34 :: nat)]"

function json_text :: "pyval \<Rightarrow> string" where
  "json_text PNone = ''null''"
| "json_text (PBool b) = (if b then ''true'' else ''false'')"
| "json_text (PInt i) = show_int i"
| "json_text (PStr s) = json_string_ascii s"
| "json_text (PList xs) = ''['' @ intercalate '', '' (map json_text xs) @ '']''"
| "json_text (PDict d) =
     ''{'' @ intercalate '', ''
       (map (\<lambda>(k, v). json_string_ascii k @ '': '' @ v)
         (sort_key fst (map (\<lambda>(k, v). (k, json_text v)) d))) @ ''}''"
  by pat_completeness auto
termination
  by (relation "measure size") (auto simp: size_pyval_dict less_Suc_eq_le size_list_estimation')

datatype metadata_error = Too_Large | Too_Deep | Too_Many_Keys | Reserved_Key string

definition reserved_prefix :: string where
  "reserved_prefix = ''_ad_''"

fun meta_walk :: "bool \<Rightarrow> nat \<Rightarrow> nat \<Rightarrow> pyval \<Rightarrow> nat \<Rightarrow> nat \<Rightarrow> metadata_error + nat"
  and meta_walk_items :: "bool \<Rightarrow> nat \<Rightarrow> nat \<Rightarrow> pydict \<Rightarrow> nat \<Rightarrow> nat \<Rightarrow> metadata_error + nat"
  and meta_walk_list :: "bool \<Rightarrow> nat \<Rightarrow> nat \<Rightarrow> pyval list \<Rightarrow> nat \<Rightarrow> nat \<Rightarrow> metadata_error + nat" where
  "meta_walk allow max_depth max_keys (PDict d) depth used =
     (if depth > max_depth then Inl Too_Deep else meta_walk_items allow max_depth max_keys d depth used)"
| "meta_walk allow max_depth max_keys (PList xs) depth used =
     (if depth > max_depth then Inl Too_Deep else meta_walk_list allow max_depth max_keys xs depth used)"
| "meta_walk allow max_depth max_keys _ depth used = (if depth > max_depth then Inl Too_Deep else Inr used)"
| "meta_walk_items allow max_depth max_keys [] depth used = Inr used"
| "meta_walk_items allow max_depth max_keys ((k, v) # d) depth used =
     (if Suc used > max_keys then Inl Too_Many_Keys
      else if \<not> allow \<and> prefix reserved_prefix k then Inl (Reserved_Key k)
      else (case meta_walk allow max_depth max_keys v (Suc depth) (Suc used) of
              Inl e \<Rightarrow> Inl e
            | Inr used1 \<Rightarrow> meta_walk_items allow max_depth max_keys d depth used1))"
| "meta_walk_list allow max_depth max_keys [] depth used = Inr used"
| "meta_walk_list allow max_depth max_keys (v # xs) depth used =
     (case meta_walk allow max_depth max_keys v (Suc depth) used of
        Inl e \<Rightarrow> Inl e
      | Inr used1 \<Rightarrow> meta_walk_list allow max_depth max_keys xs depth used1)"

text \<open>\<open>None\<close> when the value passes, with the default limits.\<close>

definition ensure_bounded_json_metadata :: "bool \<Rightarrow> pyval \<Rightarrow> metadata_error option" where
  "ensure_bounded_json_metadata allow v =
     (if length (json_text v) > 16384 then Some Too_Large
      else (case meta_walk allow 8 256 v 1 0 of Inl e \<Rightarrow> Some e | Inr _ \<Rightarrow> None))"

section \<open>The gate\<close>

record GateProvenance =
  gp_decision_id :: "string option"
  gp_policy_snapshot_id :: "string option"
  gp_metadata :: "pydict option"

definition gate_provenance_key :: string where
  "gate_provenance_key = reserved_prefix @ ''gate_provenance''"

definition gate_decision_key :: string where
  "gate_decision_key = reserved_prefix @ ''gate_decision''"

definition build_gate_provenance_metadata :: "GateProvenance \<Rightarrow> metadata_error + pydict" where
  "build_gate_provenance_metadata p =
     (case (case gp_metadata p of None \<Rightarrow> None | Some d \<Rightarrow> ensure_bounded_json_metadata False (PDict d)) of
        Some e \<Rightarrow> Inl e
      | None \<Rightarrow>
          (let packed = PDict [(''decision_id'', opt_str (gp_decision_id p)),
                               (''policy_snapshot_id'', opt_str (gp_policy_snapshot_id p)),
                               (''metadata'', (case gp_metadata p of None \<Rightarrow> PNone | Some d \<Rightarrow> PDict d))]
           in case ensure_bounded_json_metadata True (PDict [(gate_provenance_key, packed)]) of
                Some e \<Rightarrow> Inl e
              | None \<Rightarrow> Inr [(gate_provenance_key, packed)]))"

definition extract_reserved_metadata :: "pydict \<Rightarrow> pydict" where
  "extract_reserved_metadata md = filter (\<lambda>(k, v). prefix reserved_prefix k) md"

record ToolGateContext =
  gc_tool_name :: string
  gc_args :: pydict
  gc_run_id :: "string option"
  gc_thread_id :: "string option"
  gc_agent_id :: string
  gc_risk :: string
  gc_side_effect :: string
  gc_current_tool_calls :: int
  gc_tool_call_id :: "string option"
  gc_attempt_id :: "string option"

text \<open>What awaiting the gate gives: an exception, one of the three results, or an object of another type.\<close>

datatype gate_reply =
    Gate_Raises string
  | Gate_Allow "GateProvenance option"
  | Gate_Deny string "GateProvenance option"
  | Gate_Ask string "string option" "GateProvenance option"
  | Gate_Other string "GateProvenance option"

fun reply_provenance :: "gate_reply \<Rightarrow> GateProvenance option" where
  "reply_provenance (Gate_Raises e) = None"
| "reply_provenance (Gate_Allow p) = p"
| "reply_provenance (Gate_Deny r p) = p"
| "reply_provenance (Gate_Ask m t p) = p"
| "reply_provenance (Gate_Other t p) = p"

definition gate_denies :: "policy_reason \<Rightarrow> ToolPolicyOutcome \<Rightarrow> ToolPolicyOutcome" where
  "gate_denies r pol = pol\<lparr>to_decision := TD_DENY, to_reason := r\<rparr>"

text \<open>The marker and the provenance go under reserved keys, merged over the metadata of the outcome.\<close>

definition with_reserved :: "string \<Rightarrow> pydict \<Rightarrow> ToolPolicyOutcome \<Rightarrow> ToolPolicyOutcome" where
  "with_reserved mark prov pol =
     pol\<lparr>to_metadata := dict_merge (to_metadata pol) (dict_merge [(gate_decision_key, PStr mark)] prov)\<rparr>"

definition apply_tool_gate :: "gate_reply \<Rightarrow> ToolPolicyOutcome \<Rightarrow> ToolPolicyOutcome" where
  "apply_tool_gate reply pol =
     (case reply of
        Gate_Raises e \<Rightarrow> gate_denies (Gate_Raised e) pol
      | _ \<Rightarrow>
          (case (case reply_provenance reply of None \<Rightarrow> Inr [] | Some p \<Rightarrow> build_gate_provenance_metadata p) of
             Inl e \<Rightarrow> gate_denies Gate_Provenance_Rejected pol
           | Inr prov \<Rightarrow>
               (case reply of
                  Gate_Allow _ \<Rightarrow> if prov = [] then pol else with_reserved ''allow'' prov pol
                | Gate_Deny why _ \<Rightarrow> with_reserved ''deny'' prov (gate_denies (Gate_Denied why) pol)
                | Gate_Ask msg title _ \<Rightarrow>
                    with_reserved ''ask'' prov
                      (pol\<lparr>to_decision := TD_INTERRUPT, to_reason := Host_Text msg,
                           to_interrupt_reason := Some ''approval_required'', to_interrupt_title := title\<rparr>)
                | Gate_Other t _ \<Rightarrow> gate_denies (Gate_Unsupported t) pol)))"

section \<open>Decision hooks\<close>

primrec decision_rank :: "ToolPolicyDecision \<Rightarrow> nat" where
  "decision_rank TD_ALLOW = 0"
| "decision_rank TD_INTERRUPT = 1"
| "decision_rank TD_DENY = 2"

definition tighten_decision :: "ToolPolicyDecision \<Rightarrow> ToolPolicyDecision \<Rightarrow> ToolPolicyDecision" where
  "tighten_decision current proposed = (if decision_rank proposed > decision_rank current then proposed else current)"

datatype hook_reply = Hook_Raises string | Hook_None | Hook_Result ToolPolicyDecision "string option" "string option"

type_synonym decision_hook = "ToolCall \<Rightarrow> ToolManifest \<Rightarrow> ToolPolicyDecision \<Rightarrow> policy_reason \<Rightarrow> hook_reply"

text \<open>One turn of the loop: \<open>out.reason or eff_reason\<close>, \<open>out.feedback or eff_feedback\<close>.\<close>

definition hook_turn ::
  "hook_reply \<Rightarrow> ToolPolicyDecision \<times> policy_reason \<times> string option \<Rightarrow> ToolPolicyDecision \<times> policy_reason \<times> string option" where
  "hook_turn reply acc =
     (case acc of (d, r, fb) \<Rightarrow>
        (case reply of
           Hook_None \<Rightarrow> acc
         | Hook_Raises t \<Rightarrow>
             (let d1 = tighten_decision d TD_DENY in if d1 \<noteq> d then (d1, Hook_Error t, fb) else acc)
         | Hook_Result p why f \<Rightarrow>
             (let d1 = tighten_decision d p
              in if d1 \<noteq> d
                 then (d1, (case why of Some s \<Rightarrow> if s \<noteq> [] then Host_Text s else r | None \<Rightarrow> r), opt_or f fb)
                 else acc)))"

fun apply_decision_hooks ::
  "decision_hook list \<Rightarrow> ToolCall \<Rightarrow> ToolManifest \<Rightarrow> ToolPolicyDecision \<times> policy_reason \<times> string option
     \<Rightarrow> ToolPolicyDecision \<times> policy_reason \<times> string option" where
  "apply_decision_hooks [] c m acc = acc"
| "apply_decision_hooks (h # hs) c m acc =
     apply_decision_hooks hs c m (hook_turn (h c m (fst acc) (fst (snd acc))) acc)"

section \<open>Approved prompt categories\<close>

record AllowedPromptPattern =
  pt_arg_name :: string
  pt_regex :: string

record AllowedPrompt =
  ap_category_id :: string
  ap_tool_name :: string
  ap_arg_patterns :: "AllowedPromptPattern list"
  ap_expires_at :: "string option"

text \<open>The parameters of the decision: those of the static policy, \<open>re.search\<close>, \<open>AllowedPrompt.model_validate\<close>
  of a list entry (\<open>None\<close> when it raises), and the host's hooks.\<close>

record gate_env =
  ge_policy :: policy_params
  ge_search :: "string \<Rightarrow> string \<Rightarrow> bool"
  ge_prompt :: "pydict \<Rightarrow> AllowedPrompt option"
  ge_hooks :: "decision_hook list"

definition pattern_matches :: "(string \<Rightarrow> string \<Rightarrow> bool) \<Rightarrow> pydict \<Rightarrow> AllowedPromptPattern \<Rightarrow> bool" where
  "pattern_matches search args pt =
     (case map_of args (pt_arg_name pt) of
        None \<Rightarrow> False
      | Some (PStr s) \<Rightarrow> search (pt_regex pt) s
      | Some v \<Rightarrow> search (pt_regex pt) (json_text v))"

definition matches_allowed_prompt :: "(string \<Rightarrow> string \<Rightarrow> bool) \<Rightarrow> string \<Rightarrow> pydict \<Rightarrow> AllowedPrompt \<Rightarrow> bool" where
  "matches_allowed_prompt search tool args a =
     (if tool \<noteq> ap_tool_name a then False else list_all (pattern_matches search args) (ap_arg_patterns a))"

definition find_matching_prompt :: "(string \<Rightarrow> string \<Rightarrow> bool) \<Rightarrow> string \<Rightarrow> pydict \<Rightarrow> AllowedPrompt list \<Rightarrow> AllowedPrompt option" where
  "find_matching_prompt search tool args approved = List.find (matches_allowed_prompt search tool args) approved"

record RunInput =
  ri_run_id :: "string option"
  ri_thread_id :: "string option"
  ri_agent_id :: string
  ri_agent_profile :: string
  ri_prompt_template_id :: "string option"
  ri_prompt_template_version :: "int option"
  ri_tool_policy :: ToolPolicyInput
  ri_app_metadata :: pydict

definition approved_prompts :: "gate_env \<Rightarrow> RunInput \<Rightarrow> AllowedPrompt list" where
  "approved_prompts env ri =
     (case dict_get (ri_app_metadata ri) ''approved_prompts'' of
        PList xs \<Rightarrow> List.map_filter (\<lambda>x. case as_dict x of None \<Rightarrow> None | Some d \<Rightarrow> ge_prompt env d) xs
      | _ \<Rightarrow> [])"

definition match_run_approved_prompts :: "gate_env \<Rightarrow> RunInput \<Rightarrow> ToolCall \<Rightarrow> AllowedPrompt option" where
  "match_run_approved_prompts env ri c =
     find_matching_prompt (ge_search env) (tc_tool_name c) (tc_args c) (approved_prompts env ri)"

section \<open>The decision about a call\<close>

definition approved_by_interrupt :: "ToolCall \<Rightarrow> bool" where
  "approved_by_interrupt c = nonblank (dict_get (tc_metadata c) ''approved_interrupt_id'')"

definition lift_interrupt :: "policy_reason \<Rightarrow> ToolPolicyOutcome \<Rightarrow> ToolPolicyOutcome" where
  "lift_interrupt r pol = pol\<lparr>to_decision := TD_ALLOW, to_reason := r, to_interrupt_reason := None\<rparr>"

definition gate_context :: "RunInput \<Rightarrow> ToolCall \<Rightarrow> ToolManifest \<Rightarrow> nat \<Rightarrow> int \<Rightarrow> ToolGateContext" where
  "gate_context ri c m index current =
     \<lparr>gc_tool_name = tc_tool_name c, gc_args = tc_args c, gc_run_id = ri_run_id ri, gc_thread_id = ri_thread_id ri,
      gc_agent_id = ri_agent_id ri, gc_risk = tool_risk_value (tm_risk m),
      gc_side_effect = side_effect_value (tm_side_effect m), gc_current_tool_calls = current,
      gc_tool_call_id = tc_tool_call_id c, gc_attempt_id = Some (''attempt_'' @ nat_str index)\<rparr>"

definition add_feedback :: "policy_reason \<Rightarrow> string \<Rightarrow> policy_reason" where
  "add_feedback r fb = (if r = Host_Text [] then Host_Text fb else With_Feedback r fb)"

definition hook_stage :: "decision_hook list \<Rightarrow> ToolCall \<Rightarrow> ToolManifest \<Rightarrow> ToolPolicyOutcome \<Rightarrow> ToolPolicyOutcome" where
  "hook_stage hooks c m pol =
     (if hooks = [] then pol
      else
        (case apply_decision_hooks hooks c m (to_decision pol, to_reason pol, None) of
           (d, r, fb) \<Rightarrow>
             if d = to_decision pol then pol
             else
               (let r1 = (if r = Host_Text [] then to_reason pol else r)
                in case fb of
                     Some f \<Rightarrow>
                       if f \<noteq> []
                       then pol\<lparr>to_decision := d, to_reason := add_feedback r1 f,
                                to_metadata := dict_merge (to_metadata pol) [(''decision_hook_feedback'', PStr f)]\<rparr>
                       else pol\<lparr>to_decision := d, to_reason := r1\<rparr>
                   | None \<Rightarrow> pol\<lparr>to_decision := d, to_reason := r1\<rparr>)))"

definition lifted_policy :: "gate_env \<Rightarrow> RunInput \<Rightarrow> ToolCall \<Rightarrow> ToolPolicyOutcome \<Rightarrow> ToolPolicyOutcome" where
  "lifted_policy env ri c pol =
     (let pol1 = (if to_decision pol = TD_INTERRUPT \<and> approved_by_interrupt c
                  then lift_interrupt Approval_Previously_Granted pol else pol)
      in if to_decision pol1 = TD_INTERRUPT
         then (case match_run_approved_prompts env ri c of
                 Some a \<Rightarrow> lift_interrupt (Matches_Prompt (ap_category_id a)) pol1
               | None \<Rightarrow> pol1)
         else pol1)"

definition gated_policy ::
  "(ToolGateContext \<Rightarrow> gate_reply) option \<Rightarrow> ToolGateContext \<Rightarrow> ToolCall \<Rightarrow> ToolPolicyOutcome \<Rightarrow> ToolPolicyOutcome" where
  "gated_policy gate ctx c pol =
     (case gate of
        Some g \<Rightarrow>
          if to_decision pol = TD_ALLOW \<and> \<not> approved_by_interrupt c then apply_tool_gate (g ctx) pol else pol
      | None \<Rightarrow> pol)"

definition resolve_call_policy ::
  "gate_env \<Rightarrow> RunInput \<Rightarrow> (ToolGateContext \<Rightarrow> gate_reply) option \<Rightarrow> ToolCall \<Rightarrow> ToolManifest \<Rightarrow> nat \<Rightarrow> int \<Rightarrow> grant_var
     \<Rightarrow> (string + ToolPolicyOutcome) \<times> grant_var" where
  "resolve_call_policy env ri gate c m index current v =
     (let used = current + int index - 1
      in case evaluate_tool_policy (ge_policy env) (ri_tool_policy ri) m c used v of
           (Inl e, v1) \<Rightarrow> (Inl e, v1)
         | (Inr pol, v1) \<Rightarrow>
             (Inr (hook_stage (ge_hooks env) c m
                     (gated_policy gate (gate_context ri c m index used) c (lifted_policy env ri c pol))), v1))"

section \<open>Metadata within bounds\<close>

text \<open>All keys of a value, at every depth, and the depth of its nesting.\<close>

fun all_keys :: "pyval \<Rightarrow> string list"
  and all_keys_items :: "pydict \<Rightarrow> string list"
  and all_keys_list :: "pyval list \<Rightarrow> string list" where
  "all_keys (PDict d) = all_keys_items d"
| "all_keys (PList xs) = all_keys_list xs"
| "all_keys _ = []"
| "all_keys_items [] = []"
| "all_keys_items ((k, v) # d) = k # all_keys v @ all_keys_items d"
| "all_keys_list [] = []"
| "all_keys_list (v # xs) = all_keys v @ all_keys_list xs"

fun nesting :: "pyval \<Rightarrow> nat"
  and nesting_items :: "pydict \<Rightarrow> nat"
  and nesting_list :: "pyval list \<Rightarrow> nat" where
  "nesting (PDict d) = Suc (nesting_items d)"
| "nesting (PList xs) = Suc (nesting_list xs)"
| "nesting _ = 1"
| "nesting_items [] = 0"
| "nesting_items ((k, v) # d) = max (nesting v) (nesting_items d)"
| "nesting_list [] = 0"
| "nesting_list (v # xs) = max (nesting v) (nesting_list xs)"

definition keys_ok :: "bool \<Rightarrow> nat \<Rightarrow> nat \<Rightarrow> string list \<Rightarrow> bool" where
  "keys_ok allow max_keys used ks =
     ((ks = [] \<or> used + length ks \<le> max_keys) \<and> (allow \<or> list_all (\<lambda>k. \<not> prefix reserved_prefix k) ks))"

lemma keys_ok_Nil [simp]: "keys_ok allow max_keys used []"
  by (simp add: keys_ok_def)

lemma keys_ok_Cons:
  "keys_ok allow max_keys used (k # ks) \<longleftrightarrow>
     Suc used \<le> max_keys \<and> (allow \<or> \<not> prefix reserved_prefix k) \<and> keys_ok allow max_keys (Suc used) ks"
  by (auto simp: keys_ok_def)

lemma keys_ok_append:
  "keys_ok allow max_keys used (ks @ ks') \<longleftrightarrow> keys_ok allow max_keys used ks \<and> keys_ok allow max_keys (used + length ks) ks'"
  by (auto simp: keys_ok_def)

lemma case_sum_exact:
  assumes "\<And>u. W = Inr u \<longleftrightarrow> u = x \<and> A"
  shows "(case W of Inl e \<Rightarrow> Inl e | Inr u \<Rightarrow> F u) = Inr n \<longleftrightarrow> A \<and> F x = Inr n"
proof (cases W)
  case (Inl e)
  with assms [of x] show ?thesis by simp
next
  case (Inr u)
  with assms [of u] show ?thesis by simp
qed

lemma meta_walk_exact:
  "meta_walk allow max_depth max_keys v depth used = Inr n \<longleftrightarrow>
     n = used + length (all_keys v) \<and> depth + nesting v \<le> Suc max_depth \<and> keys_ok allow max_keys used (all_keys v)"
  "meta_walk_items allow max_depth max_keys d depth used = Inr n \<longleftrightarrow>
     n = used + length (all_keys_items d) \<and> (d = [] \<or> depth + nesting_items d \<le> max_depth) \<and> keys_ok allow max_keys used (all_keys_items d)"
  "meta_walk_list allow max_depth max_keys xs depth used = Inr n \<longleftrightarrow>
     n = used + length (all_keys_list xs) \<and> (xs = [] \<or> depth + nesting_list xs \<le> max_depth) \<and> keys_ok allow max_keys used (all_keys_list xs)"
proof (induction v and d and xs arbitrary: depth used n and depth used n and depth used n rule: all_keys_all_keys_items_all_keys_list.induct)
  case (1 d)
  show ?case by (cases "d = []") (auto simp: 1)
next
  case (2 xs)
  show ?case by (cases "xs = []") (auto simp: 2)
next
  case (5 k v d)
  have "depth + max (nesting v) (nesting_items d) \<le> max_depth \<longleftrightarrow>
      Suc depth + nesting v \<le> Suc max_depth \<and> (d = [] \<or> depth + nesting_items d \<le> max_depth)" by (cases d) auto
  then show ?case by (auto simp: case_sum_exact [OF 5(1)] 5(2) keys_ok_Cons keys_ok_append)
next
  case (7 v xs)
  have "depth + max (nesting v) (nesting_list xs) \<le> max_depth \<longleftrightarrow>
      Suc depth + nesting v \<le> Suc max_depth \<and> (xs = [] \<or> depth + nesting_list xs \<le> max_depth)" by (cases xs) auto
  then show ?case by (auto simp: case_sum_exact [OF 7(1)] 7(2) keys_ok_append)
qed auto

text \<open>C28. Host metadata is accepted exactly when its JSON text has at most 16384 bytes, it nests at most eight
  levels deep, it has at most 256 keys counted over all levels, and, unless reserved keys are permitted, no
  key at any depth lies in the reserved name space.\<close>

theorem bounded_metadata_exact:
  "ensure_bounded_json_metadata allow v = None \<longleftrightarrow>
     length (json_text v) \<le> 16384 \<and> nesting v \<le> 8 \<and> length (all_keys v) \<le> 256
     \<and> (allow \<or> list_all (\<lambda>k. \<not> prefix reserved_prefix k) (all_keys v))"
proof -
  have "(case meta_walk allow 8 256 v 1 0 of Inl e \<Rightarrow> Some e | Inr _ \<Rightarrow> None) = None \<longleftrightarrow>
      (\<exists>n. meta_walk allow 8 256 v 1 0 = Inr n)" by (auto split: sum.split)
  then show ?thesis by (auto simp: ensure_bounded_json_metadata_def meta_walk_exact keys_ok_def)
qed

section \<open>Hooks only tighten\<close>

lemma hook_turn_tightens: "decision_rank (fst acc) \<le> decision_rank (fst (hook_turn reply acc))"
  by (cases acc; cases reply) (auto simp: hook_turn_def tighten_decision_def Let_def)

lemma hooks_tighten: "decision_rank (fst acc) \<le> decision_rank (fst (apply_decision_hooks hooks c m acc))"
proof (induction hooks arbitrary: acc)
  case (Cons h hooks)
  from Cons [of "hook_turn (h c m (fst acc) (fst (snd acc))) acc"] hook_turn_tightens [of acc] show ?case
    by (simp, meson le_trans)
qed simp

fun passive_reply :: "hook_reply \<Rightarrow> bool" where
  "passive_reply Hook_None = True"
| "passive_reply (Hook_Result TD_ALLOW why fb) = True"
| "passive_reply _ = False"

lemma hook_turn_allow:
  "hook_turn reply (TD_ALLOW, r, fb) = (if passive_reply reply then (TD_ALLOW, r, fb) else hook_turn reply (TD_ALLOW, r, fb))"
  "\<not> passive_reply reply \<Longrightarrow> fst (hook_turn reply (TD_ALLOW, r, fb)) \<noteq> TD_ALLOW"
  by (cases reply rule: passive_reply.cases; simp add: hook_turn_def tighten_decision_def Let_def)+

lemma rank_zero_iff: "decision_rank d = 0 \<longleftrightarrow> d = TD_ALLOW"
  by (cases d) auto

lemma hooks_allow_iff:
  "fst (apply_decision_hooks hooks c m (TD_ALLOW, r, fb)) = TD_ALLOW \<longleftrightarrow> list_all (\<lambda>h. passive_reply (h c m TD_ALLOW r)) hooks"
proof (induction hooks)
  case (Cons h hooks)
  show ?case
  proof (cases "passive_reply (h c m TD_ALLOW r)")
    case True
    then show ?thesis using Cons hook_turn_allow(1) [of "h c m TD_ALLOW r" r fb] by simp
  next
    case False
    let ?acc = "hook_turn (h c m TD_ALLOW r) (TD_ALLOW, r, fb)"
    have "decision_rank (fst ?acc) \<noteq> 0" using hook_turn_allow(2) [OF False] rank_zero_iff by metis
    then have "decision_rank (fst (apply_decision_hooks hooks c m ?acc)) \<noteq> 0"
      using hooks_tighten [of ?acc hooks c m] by linarith
    then have "fst (apply_decision_hooks hooks c m ?acc) \<noteq> TD_ALLOW" using rank_zero_iff by metis
    with False show ?thesis by simp
  qed
qed simp

lemma hook_stage_decision:
  "to_decision (hook_stage hooks c m pol) = fst (apply_decision_hooks hooks c m (to_decision pol, to_reason pol, None))"
  by (auto simp: hook_stage_def Let_def split: prod.splits option.splits)

section \<open>What an allowed decision needs\<close>

definition provenance_ok :: "GateProvenance option \<Rightarrow> bool" where
  "provenance_ok p = (case p of None \<Rightarrow> True | Some q \<Rightarrow> (\<exists>md. build_gate_provenance_metadata q = Inr md))"

lemma apply_tool_gate_allow:
  assumes "to_decision pol = TD_ALLOW"
  shows "to_decision (apply_tool_gate reply pol) = TD_ALLOW \<longleftrightarrow> (\<exists>p. reply = Gate_Allow p \<and> provenance_ok p)"
  using assms
  by (cases reply)
    (auto simp: apply_tool_gate_def gate_denies_def with_reserved_def provenance_ok_def split: sum.splits option.splits)

text \<open>The static decision stands, or it was an interrupt that an approval lifts.\<close>

definition statically_permitted :: "gate_env \<Rightarrow> RunInput \<Rightarrow> ToolCall \<Rightarrow> ToolPolicyOutcome \<Rightarrow> bool" where
  "statically_permitted env ri c pol =
     (to_decision pol = TD_ALLOW
      \<or> (to_decision pol = TD_INTERRUPT \<and> (approved_by_interrupt c \<or> match_run_approved_prompts env ri c \<noteq> None)))"

lemma lifted_allow_iff: "to_decision (lifted_policy env ri c pol) = TD_ALLOW \<longleftrightarrow> statically_permitted env ri c pol"
  by (cases "to_decision pol")
    (auto simp: lifted_policy_def statically_permitted_def lift_interrupt_def Let_def split: option.splits)

lemma lifted_deny: "to_decision pol = TD_DENY \<Longrightarrow> lifted_policy env ri c pol = pol"
  by (simp add: lifted_policy_def)

definition gate_permits :: "(ToolGateContext \<Rightarrow> gate_reply) option \<Rightarrow> ToolGateContext \<Rightarrow> ToolCall \<Rightarrow> bool" where
  "gate_permits gate ctx c =
     (case gate of None \<Rightarrow> True | Some g \<Rightarrow> approved_by_interrupt c \<or> (\<exists>p. g ctx = Gate_Allow p \<and> provenance_ok p))"

lemma gated_allow_iff:
  "to_decision (gated_policy gate ctx c pol) = TD_ALLOW \<longleftrightarrow> to_decision pol = TD_ALLOW \<and> gate_permits gate ctx c"
  by (auto simp: gated_policy_def gate_permits_def apply_tool_gate_allow split: option.splits)

lemma hook_stage_allow_iff:
  "to_decision (hook_stage hooks c m pol) = TD_ALLOW \<longleftrightarrow>
     to_decision pol = TD_ALLOW \<and> list_all (\<lambda>h. passive_reply (h c m TD_ALLOW (to_reason pol))) hooks"
proof (cases "to_decision pol = TD_ALLOW")
  case True
  then show ?thesis by (simp add: hook_stage_decision hooks_allow_iff)
next
  case False
  then have "decision_rank (to_decision pol) \<noteq> 0" using rank_zero_iff by metis
  then have "decision_rank (to_decision (hook_stage hooks c m pol)) \<noteq> 0"
    using hooks_tighten [of "(to_decision pol, to_reason pol, None)" hooks c m] by (simp add: hook_stage_decision)
  then have "to_decision (hook_stage hooks c m pol) \<noteq> TD_ALLOW" using rank_zero_iff by metis
  with False show ?thesis by simp
qed

lemma resolve_allow_iff:
  assumes "resolve_call_policy env ri gate c m index current v = (Inr out, v')"
  shows "\<exists>pol. evaluate_tool_policy (ge_policy env) (ri_tool_policy ri) m c (current + int index - 1) v = (Inr pol, v')
    \<and> (to_decision out = TD_ALLOW \<longleftrightarrow>
         statically_permitted env ri c pol
         \<and> gate_permits gate (gate_context ri c m index (current + int index - 1)) c
         \<and> list_all (\<lambda>h. passive_reply (h c m TD_ALLOW
               (to_reason (gated_policy gate (gate_context ri c m index (current + int index - 1)) c (lifted_policy env ri c pol)))))
             (ge_hooks env))"
  using assms
  by (auto simp: resolve_call_policy_def hook_stage_allow_iff gated_allow_iff lifted_allow_iff Let_def split: prod.splits sum.splits)

lemma gated_deny: "to_decision pol = TD_DENY \<Longrightarrow> gated_policy gate ctx c pol = pol"
  by (auto simp: gated_policy_def split: option.splits)

lemma rank_two_iff: "2 \<le> decision_rank d \<longleftrightarrow> d = TD_DENY"
  by (cases d) auto

text \<open>A denial of the static policy is final: no approval, gate or hook changes the decision.\<close>

lemma static_denial_final:
  assumes "evaluate_tool_policy (ge_policy env) (ri_tool_policy ri) m c (current + int index - 1) v = (Inr pol, v')"
    and "to_decision pol = TD_DENY"
  shows "\<exists>out. resolve_call_policy env ri gate c m index current v = (Inr out, v') \<and> to_decision out = TD_DENY"
proof -
  have "2 \<le> decision_rank (to_decision (hook_stage (ge_hooks env) c m pol))"
    using hooks_tighten [of "(to_decision pol, to_reason pol, None)" "ge_hooks env" c m] assms(2) by (simp add: hook_stage_decision)
  then show ?thesis
    using assms by (simp add: resolve_call_policy_def lifted_deny gated_deny rank_two_iff)
qed

text \<open>A category of calls keeps its approval whatever its expiry says.\<close>

lemma prompt_expiry_ignored:
  "matches_allowed_prompt search tool args (a\<lparr>ap_expires_at := e\<rparr>) = matches_allowed_prompt search tool args a"
  by (simp add: matches_allowed_prompt_def)

text \<open>A hook that asks for approval of a call asks again after the approval: the answer to the interrupt lifts
  the interrupt of the static policy and of the gate, not that of the hook.\<close>

lemma hook_interrupt_repeats:
  assumes "evaluate_tool_policy (ge_policy env) (ri_tool_policy ri) m c (current + int index - 1) v = (Inr pol, v')"
    and "to_decision pol = TD_ALLOW" "approved_by_interrupt c"
    and "ge_hooks env = [\<lambda>c m d r. Hook_Result TD_INTERRUPT why fb]"
  shows "\<exists>out. resolve_call_policy env ri gate c m index current v = (Inr out, v') \<and> to_decision out = TD_INTERRUPT"
proof -
  have "gated_policy gate ctx c (lifted_policy env ri c pol) = pol" for ctx
    using assms(2,3) by (simp add: gated_policy_def lifted_policy_def split: option.split)
  then show ?thesis
    using assms by (simp add: resolve_call_policy_def hook_stage_decision hook_turn_def tighten_decision_def)
qed

section \<open>The permission policy as a gate\<close>

text \<open>\<open>build_permission_gate\<close>: the texts of its answers are written by a parameter.\<close>

definition permission_tool_gate ::
  "(gate_text \<Rightarrow> string) \<Rightarrow> (string \<Rightarrow> string \<Rightarrow> bool) \<Rightarrow> PermissionPolicy \<Rightarrow> ToolGateContext \<Rightarrow> gate_reply" where
  "permission_tool_gate render search pol ctx =
     (case permission_gate search pol (gc_tool_name ctx) (gc_args ctx) of
        None \<Rightarrow> Gate_Raises []
      | Some (ToolGateAllow r) \<Rightarrow> Gate_Allow None
      | Some (ToolGateDeny r) \<Rightarrow> Gate_Deny (render r) None
      | Some (ToolGateAsk r) \<Rightarrow> Gate_Ask (render r) None None)"

lemma permission_gate_permits:
  assumes "gate_permits (Some (permission_tool_gate render search pol)) ctx c" "\<not> approved_by_interrupt c"
    "decide search pol (gc_tool_name ctx) (gc_args ctx) = Some out"
  shows "po_decision out = P_ALLOW"
  using assms
  by (cases "po_decision out") (auto simp: gate_permits_def permission_tool_gate_def permission_gate_def Let_def)

end
