(* ===== verification/Result_Spill.thy ===== *)
theory Result_Spill
  imports Tool_Gate
begin

text \<open>
  Oversized results of handlers (\<open>tools/executor/spill.py\<close>) and the preview that shortens a text
  (\<open>safe_preview\<close> of \<open>tools/tool_result_preview.py\<close>). The artifact store, the copy of a result in the
  workspace and the random part of an identifier are parameters, and so is the text that names the number
  of omitted characters, which lies outside the modelled character range.
\<close>

section \<open>Texts\<close>

text \<open>\<open>json.dumps(value)\<close>: the keys in insertion order.\<close>

function json_plain :: "pyval \<Rightarrow> string" where
  "json_plain PNone = ''null''"
| "json_plain (PBool b) = (if b then ''true'' else ''false'')"
| "json_plain (PInt i) = show_int i"
| "json_plain (PStr s) = json_string_ascii s"
| "json_plain (PList xs) = ''['' @ intercalate '', '' (map json_plain xs) @ '']''"
| "json_plain (PDict d) = ''{'' @ intercalate '', '' (map (\<lambda>(k, v). json_string_ascii k @ '': '' @ json_plain v) d) @ ''}''"
  by pat_completeness auto
termination
  by (relation "measure size") (auto simp: size_pyval_dict less_Suc_eq_le size_list_estimation')

definition last_newline :: "string \<Rightarrow> nat option" where
  "last_newline s = (case filter (\<lambda>i. s ! i = char_of (10 :: nat)) (rev [0..<length s]) of [] \<Rightarrow> None | i # _ \<Rightarrow> Some i)"

definition safe_preview :: "(nat \<Rightarrow> string) \<Rightarrow> string \<Rightarrow> int \<Rightarrow> string" where
  "safe_preview omission s max_chars =
     (if max_chars \<le> 0 \<or> int (length s) \<le> max_chars then s
      else (let kept = take (nat max_chars) s;
                kept1 = (case last_newline kept of
                           Some i \<Rightarrow> if int i \<ge> max_chars div 4 then take i kept else kept
                         | None \<Rightarrow> kept);
                kept2 = py_rstrip kept1
            in kept2 @ omission (length s - length kept2)))"

lemma py_rstrip_prefix: "\<exists>ws. s = py_rstrip s @ ws"
  unfolding py_rstrip_def by (metis rev_append rev_rev_ident takeWhile_dropWhile_id)

text \<open>A preview is a prefix of at most the given length and the note on what follows.\<close>

lemma safe_preview_prefix:
  assumes "0 < n" "n < int (length s)"
  obtains kept rest where "s = kept @ rest" "int (length kept) \<le> n" "safe_preview omission s n = kept @ omission (length rest)"
proof -
  define kept1 where "kept1 = (case last_newline (take (nat n) s) of
      Some i \<Rightarrow> if int i \<ge> n div 4 then take i (take (nat n) s) else take (nat n) s | None \<Rightarrow> take (nat n) s)"
  obtain m where m: "kept1 = take m s" "int m \<le> n"
  proof (cases "last_newline (take (nat n) s)")
    case None
    then show ?thesis using assms by (intro that [of "nat n"]) (auto simp: kept1_def)
  next
    case (Some i)
    then show ?thesis using assms by (intro that [of "if int i \<ge> n div 4 then min i (nat n) else nat n"]) (auto simp: kept1_def)
  qed
  obtain ws where "kept1 = py_rstrip kept1 @ ws" using py_rstrip_prefix by blast
  then have s: "s = py_rstrip kept1 @ ws @ drop m s" by (metis m(1) append_assoc append_take_drop_id)
  have "int (length (py_rstrip kept1)) \<le> n"
    using m \<open>kept1 = py_rstrip kept1 @ ws\<close> by (metis length_append length_take min.cobounded2 le_add1 of_nat_mono order_trans)
  moreover have "safe_preview omission s n = py_rstrip kept1 @ omission (length s - length (py_rstrip kept1))"
    using assms by (simp add: safe_preview_def Let_def kept1_def)
  ultimately show ?thesis using s by (metis that length_append add_diff_cancel_left')
qed

text \<open>\<open>f"{n:,}"\<close>: a comma before every group of three digits.\<close>

function thousands :: "nat \<Rightarrow> string" where
  "thousands n =
     (if n < 1000 then nat_str n
      else thousands (n div 1000) @ '','' @ nat_str (n div 100 mod 10) @ nat_str (n div 10 mod 10) @ nat_str (n mod 10))"
  by auto
termination
  by (relation "measure id") auto

declare thousands.simps [simp del]

section \<open>Spilling\<close>

record StoredArtifact =
  sa_artifact_id :: string
  sa_size_bytes :: nat
  sa_ref_metadata :: pydict
  sa_content :: string
  sa_preview_text :: string
  sa_preview_truncated :: bool
  sa_metadata :: pydict

text \<open>The parameters: \<open>put\<close> of the store (\<open>None\<close> when it raises), twelve random hexadecimal digits, and the
  copy in the workspace, which may raise, and gives no path when there is no workspace.\<close>

record spill_env =
  sp_store :: "(StoredArtifact \<Rightarrow> (string \<times> int option) option) option"
  sp_uuid :: "nat \<Rightarrow> string"
  sp_mirror :: "string \<Rightarrow> string \<Rightarrow> string \<Rightarrow> string option \<Rightarrow> string + string option"
  sp_omission :: "nat \<Rightarrow> string"

definition should_spill_payload :: "spill_env \<Rightarrow> int option \<Rightarrow> pyval \<Rightarrow> bool" where
  "should_spill_payload se max_size v =
     (sp_store se \<noteq> None
      \<and> (case max_size of None \<Rightarrow> False | Some n \<Rightarrow> n > 0 \<and> int (length (json_plain v)) > n))"

definition build_preview_text :: "spill_env \<Rightarrow> string \<Rightarrow> string \<times> bool" where
  "build_preview_text se encoded =
     (if length encoded \<le> 2000 then (encoded, False) else (safe_preview (sp_omission se) encoded 2000, True))"

definition spilled_artifact :: "spill_env \<Rightarrow> nat \<Rightarrow> string \<Rightarrow> string \<Rightarrow> string option \<Rightarrow> pyval \<Rightarrow> StoredArtifact" where
  "spilled_artifact se index tool run_id call_id v =
     (let encoded = json_plain v
      in \<lparr>sa_artifact_id = ''tool_result:'' @ tool @ '':'' @ sp_uuid se index, sa_size_bytes = length encoded,
          sa_ref_metadata = [(''tool_name'', PStr tool), (''run_id'', PStr run_id),
                             (''tool_call_id'', PStr (case call_id of Some s \<Rightarrow> s | None \<Rightarrow> []))],
          sa_content = encoded, sa_preview_text = fst (build_preview_text se encoded),
          sa_preview_truncated = snd (build_preview_text se encoded),
          sa_metadata = [(''tool_name'', PStr tool), (''run_id'', PStr run_id)]\<rparr>)"

datatype spill = Not_Spilled | Spill_Raises string | Spilled pydict

definition spill_payload_to_artifact ::
  "spill_env \<Rightarrow> nat \<Rightarrow> string \<Rightarrow> string \<Rightarrow> string option \<Rightarrow> pyval \<Rightarrow> spill" where
  "spill_payload_to_artifact se index tool run_id call_id v =
     (let a = spilled_artifact se index tool run_id call_id v
      in case (case sp_store se of None \<Rightarrow> None | Some put \<Rightarrow> put a) of
           None \<Rightarrow> Not_Spilled
         | Some (aid, stored) \<Rightarrow>
             (case sp_mirror se (sa_content a) aid tool call_id of
                Inl e \<Rightarrow> Spill_Raises e
              | Inr path \<Rightarrow>
                  (let where_to = (\<lambda>k. case path of None \<Rightarrow> [] | Some p \<Rightarrow> [(k, PStr p)])
                   in Spilled
                        ([(''summary'', PStr (''<persisted-output> '' @ thousands (length (sa_content a)) @ '' chars stored as ''
                              @ ''artifact '' @ aid @ ''; preview follows'')),
                          (''persisted_artifact'', PDict
                             ([(''artifact_id'', PStr aid), (''kind'', PStr ''tool_result''),
                               (''size_bytes'', (case stored of None \<Rightarrow> PNone | Some n \<Rightarrow> PInt n)), (''tool_name'', PStr tool)]
                              @ where_to ''workspace_path'')),
                          (''preview'', PStr (sa_preview_text a)), (''persisted'', PBool True), (''truncated'', PBool False)]
                         @ where_to ''workspace_artifact_path''))))"

text \<open>The value that goes on through the path of the call.\<close>

definition spilled_or_same ::
  "spill_env \<Rightarrow> int option \<Rightarrow> nat \<Rightarrow> string \<Rightarrow> string \<Rightarrow> string option \<Rightarrow> pyval \<Rightarrow> string + pyval" where
  "spilled_or_same se max_size index tool run_id call_id v =
     (if should_spill_payload se max_size v
      then (case spill_payload_to_artifact se index tool run_id call_id v of
              Not_Spilled \<Rightarrow> Inr v
            | Spill_Raises e \<Rightarrow> Inl e
            | Spilled d \<Rightarrow> Inr (PDict d))
      else Inr v)"

text \<open>Nothing is lost: a value either goes on unchanged, or the store accepted its whole text and the preview in
  its place is that text or a prefix of at most 2000 characters with the note on what follows.\<close>

lemma spill_loses_nothing:
  assumes "spilled_or_same se max_size index tool run_id call_id v = Inr w"
  shows "w = v \<or> (\<exists>put a rest kept. sp_store se = Some put \<and> put a \<noteq> None \<and> sa_content a = json_plain v
      \<and> sa_content a = kept @ rest \<and> length kept \<le> 2000
      \<and> (\<exists>d. w = PDict d \<and> map_of d ''preview'' = Some (PStr (if rest = [] then kept else kept @ sp_omission se (length rest)))))"
proof (cases "w = v")
  case False
  let ?a = "spilled_artifact se index tool run_id call_id v"
  obtain d where d: "spill_payload_to_artifact se index tool run_id call_id v = Spilled d" "w = PDict d"
    using assms False by (auto simp: spilled_or_same_def split: if_splits spill.splits)
  obtain put where put: "sp_store se = Some put" "put ?a \<noteq> None"
    using d(1) by (auto simp: spill_payload_to_artifact_def Let_def split: option.splits)
  have p: "map_of d ''preview'' = Some (PStr (sa_preview_text ?a))"
    using d(1) by (auto simp: spill_payload_to_artifact_def Let_def split: option.splits sum.splits)
  have c: "sa_content ?a = json_plain v" by (simp add: spilled_artifact_def Let_def)
  obtain kept rest where "json_plain v = kept @ rest" "length kept \<le> 2000"
    "sa_preview_text ?a = (if rest = [] then kept else kept @ sp_omission se (length rest))"
  proof (cases "length (json_plain v) \<le> 2000")
    case True
    then show ?thesis by (intro that [of "json_plain v" "[]"]) (auto simp: spilled_artifact_def build_preview_text_def Let_def)
  next
    case False
    then obtain kept rest where k: "json_plain v = kept @ rest" "int (length kept) \<le> 2000"
      "safe_preview (sp_omission se) (json_plain v) 2000 = kept @ sp_omission se (length rest)"
      using safe_preview_prefix [of 2000 "json_plain v" "sp_omission se"] by auto
    moreover from k(1,2) False have "rest \<noteq> []" by auto
    ultimately show ?thesis
      using False by (intro that [of kept rest]) (auto simp: spilled_artifact_def build_preview_text_def Let_def)
  qed
  with put p c d(2) show ?thesis
    by (intro disjI2 exI [of _ put] exI [of _ ?a] exI [of _ rest] exI [of _ kept]) simp
qed simp

end
