(* ===== verification/Allowed_Path.thy ===== *)
theory Allowed_Path
  imports Result_Spill
begin

text \<open>
  Results of tool calls (\<open>contracts/tools/results.py\<close>, \<open>tools/executor/result.py\<close>, \<open>trace.py\<close>, \<open>blocks.py\<close>,
  \<open>policy_interrupt.py\<close>, \<open>interrupt_ids.py\<close>) and the path of an allowed call through guardrails, handler and
  output bounds (\<open>tools/executor/allowed.py\<close>). Handlers, guardrails, the artifact store and
  the writing of values and reasons as text are parameters.
\<close>

section \<open>Results\<close>

datatype GuardrailDecision = GD_ALLOW | GD_SANITIZE | GD_BLOCK

primrec guardrail_value :: "GuardrailDecision \<Rightarrow> string" where
  "guardrail_value GD_ALLOW = ''allow''"
| "guardrail_value GD_SANITIZE = ''sanitize''"
| "guardrail_value GD_BLOCK = ''block''"

primrec tool_decision_value :: "ToolPolicyDecision \<Rightarrow> string" where
  "tool_decision_value TD_ALLOW = ''allow''"
| "tool_decision_value TD_DENY = ''deny''"
| "tool_decision_value TD_INTERRUPT = ''interrupt''"

primrec approval_mode_value :: "ApprovalMode \<Rightarrow> string" where
  "approval_mode_value AM_NEVER = ''never''"
| "approval_mode_value AM_ON_POLICY_MATCH = ''on_policy_match''"
| "approval_mode_value AM_ALWAYS = ''always''"
| "approval_mode_value AM_STEP_BY_STEP = ''step_by_step''"

record GuardrailResult =
  gu_decision :: GuardrailDecision
  gu_reason :: "string option"

definition merge_guardrail_decisions :: "GuardrailDecision list \<Rightarrow> GuardrailDecision" where
  "merge_guardrail_decisions ds =
     (if GD_BLOCK \<in> set ds then GD_BLOCK else if GD_SANITIZE \<in> set ds then GD_SANITIZE else GD_ALLOW)"

datatype ToolTraceStatus = TS_STARTED | TS_COMPLETED | TS_FAILED | TS_DENIED | TS_TIMED_OUT

record ToolTrace =
  tt_step :: nat
  tt_tool_name :: string
  tt_tool_call_id :: "string option"
  tt_status :: ToolTraceStatus
  tt_result_summary :: "string option"
  tt_risk :: ToolRisk
  tt_side_effect :: SideEffectClass
  tt_approval_mode :: ApprovalMode
  tt_error_code :: "string option"
  tt_truncated :: bool

record InterruptRequest =
  ir_interrupt_id :: string
  ir_run_id :: string
  ir_attempt_id :: string
  ir_checkpoint_id :: string
  ir_reason :: string
  ir_title :: string
  ir_description :: string
  ir_risk :: "ToolRisk option"
  ir_proposed_action :: pydict
  ir_allowed_actions :: "string list"
  ir_editable_fields :: "string list"
  ir_proposed_prompts :: "AllowedPrompt list"
  ir_metadata :: pydict

record ToolError =
  te_code :: string
  te_message :: string

record ToolResultEnvelope =
  ev_call :: ToolCall
  ev_decision :: ToolPolicyDecision
  ev_guardrail_decision :: GuardrailDecision
  ev_summary :: "string option"
  ev_structured_output :: "pydict option"
  ev_truncated :: bool
  ev_error :: "ToolError option"
  ev_interrupt :: "InterruptRequest option"
  ev_metadata :: pydict

record TurnBudgetAudit =
  ta_spilled_count :: nat
  ta_chars_saved :: int
  ta_total_chars_after :: int

record GovernedExecutionResult =
  gr_traces :: "ToolTrace list"
  gr_envelopes :: "ToolResultEnvelope list"
  gr_interrupt :: "InterruptRequest option"
  gr_turn_audit :: "TurnBudgetAudit option"

definition empty_result :: GovernedExecutionResult where
  "empty_result = \<lparr>gr_traces = [], gr_envelopes = [], gr_interrupt = None, gr_turn_audit = None\<rparr>"

definition append_result ::
  "ToolResultEnvelope \<Rightarrow> ToolTrace \<Rightarrow> InterruptRequest option \<Rightarrow> GovernedExecutionResult \<Rightarrow> GovernedExecutionResult" where
  "append_result ev tr i r =
     r\<lparr>gr_envelopes := gr_envelopes r @ [ev], gr_traces := gr_traces r @ [tr],
       gr_interrupt := (case i of Some x \<Rightarrow> Some x | None \<Rightarrow> gr_interrupt r)\<rparr>"

definition build_tool_trace ::
  "nat \<Rightarrow> ToolCall \<Rightarrow> ToolManifest \<Rightarrow> ToolTraceStatus \<Rightarrow> string option \<Rightarrow> string option \<Rightarrow> bool \<Rightarrow> ToolTrace" where
  "build_tool_trace index c m status summary code truncated =
     \<lparr>tt_step = index, tt_tool_name = tc_tool_name c, tt_tool_call_id = tc_tool_call_id c, tt_status = status,
      tt_result_summary = summary, tt_risk = tm_risk m, tt_side_effect = tm_side_effect m,
      tt_approval_mode = tm_approval_mode m, tt_error_code = code, tt_truncated = truncated\<rparr>"

definition trace_denied :: "nat \<Rightarrow> ToolCall \<Rightarrow> ToolManifest \<Rightarrow> string option \<Rightarrow> string option \<Rightarrow> ToolTrace" where
  "trace_denied index c m summary code = build_tool_trace index c m TS_DENIED summary code False"

section \<open>Identifiers\<close>

definition build_interrupt_id :: "string option \<Rightarrow> string option \<Rightarrow> nat \<Rightarrow> string" where
  "build_interrupt_id run_id call_id index =
     ''int_'' @ (case run_id of Some s \<Rightarrow> if s \<noteq> [] then s else ''runtime'' | None \<Rightarrow> ''runtime'')
       @ ''_'' @ (case call_id of Some s \<Rightarrow> if py_strip s \<noteq> [] then py_strip s else nat_str index | None \<Rightarrow> nat_str index)"

definition build_attempt_id :: "nat \<Rightarrow> string option \<Rightarrow> string" where
  "build_attempt_id index attempt =
     (case attempt of Some s \<Rightarrow> if py_strip s \<noteq> [] then s else ''attempt_'' @ nat_str index | None \<Rightarrow> ''attempt_'' @ nat_str index)"

section \<open>Blocked calls\<close>

definition management_tool_names :: "string list" where
  "management_tool_names =
     [''todo_write'', ''planning_state_update'', ''ask_user_question'', ''continue_without_plan'', ''enter_plan_mode'',
      ''exit_plan_mode_v2'', ''exit_plan_mode'']"

definition disallowed_management_tool_remediation :: "string \<Rightarrow> string list \<Rightarrow> pydict" where
  "disallowed_management_tool_remediation tool allowed_tools =
     (let allowed = filter (\<lambda>n. n \<noteq> []) allowed_tools;
          allowed_text = (if allowed \<noteq> [] then py_join '', '' allowed else ''(none configured)'')
      in [(''error_kind'', PStr ''disallowed_management_tool''), (''blocked_tool'', PStr tool),
          (''allowed_tools'', PList (map PStr allowed)), (''retry_expected'', PBool True),
          (''remediation'', PStr (''The management tool '' @ [CHR 39] @ tool @ [CHR 39] @ '' is unavailable for this run ''
             @ ''(this node executes a fixed tool allowlist). Do not call it again. ''
             @ ''Call one of the allowed executable tools now: '' @ allowed_text @ ''.''))])"

definition management_tool_denial_remediation :: "ToolPolicyInput \<Rightarrow> string \<Rightarrow> pydict option" where
  "management_tool_denial_remediation pol tool =
     (if tool \<notin> set management_tool_names then None
      else (case ti_allowed_tools pol of
              None \<Rightarrow> None
            | Some allowed \<Rightarrow>
                if allowed = [] \<or> tool \<in> set allowed then None
                else Some (disallowed_management_tool_remediation tool allowed)))"

definition force_planning_remediation :: "string \<Rightarrow> string \<Rightarrow> string \<Rightarrow> pydict option" where
  "force_planning_remediation code reason tool =
     (if code \<noteq> ''policy_denied'' then None
      else if sublist ''planning strategy requires an explicit model choice'' reason
      then Some [(''error_kind'', PStr ''planning_strategy_required''),
                 (''remediation'', PStr (''Reassess the user'' @ [CHR 39] @ ''s whole requested outcome before execution. ''
                    @ ''For broad or substantial multi-step material work, call ''
                    @ ''enter_plan_mode and finish with exit_plan_mode_v2. For one ''
                    @ ''narrow concrete action, call continue_without_plan with a ''
                    @ ''concise reason, then retry the blocked tool.'')),
                 (''next_tools'', PList [PStr ''enter_plan_mode'', PStr ''continue_without_plan'']), (''blocked_tool'', PStr tool)]
      else if sublist ''force planning requires an approved plan'' reason
      then Some [(''error_kind'', PStr ''force_planning_required''),
                 (''remediation'', PStr (''Before retrying this side-effecting tool, enter plan mode, create ''
                    @ ''a concrete plan, and call exit_plan_mode_v2 so the user can approve it'')),
                 (''next_tools'', PList [PStr ''enter_plan_mode'', PStr ''exit_plan_mode_v2'']), (''blocked_tool'', PStr tool)]
      else None)"

record BlockSpec =
  bs_reason :: string
  bs_code :: string
  bs_stage :: "string option"
  bs_structured_output :: "pydict option"
  bs_reserved_metadata :: pydict

definition block :: "string \<Rightarrow> string \<Rightarrow> string option \<Rightarrow> BlockSpec" where
  "block reason code stage =
     \<lparr>bs_reason = reason, bs_code = code, bs_stage = stage, bs_structured_output = None, bs_reserved_metadata = []\<rparr>"

definition blocked_envelope :: "ToolCall \<Rightarrow> BlockSpec \<Rightarrow> ToolResultEnvelope" where
  "blocked_envelope c b =
     \<lparr>ev_call = c, ev_decision = TD_DENY,
      ev_guardrail_decision = (if bs_stage b \<noteq> None then GD_BLOCK else GD_ALLOW), ev_summary = None,
      ev_structured_output =
        (case bs_structured_output b of
           Some d \<Rightarrow> if d \<noteq> [] then Some d else force_planning_remediation (bs_code b) (bs_reason b) (tc_tool_name c)
         | None \<Rightarrow> force_planning_remediation (bs_code b) (bs_reason b) (tc_tool_name c)),
      ev_truncated = False, ev_error = Some \<lparr>te_code = bs_code b, te_message = bs_reason b\<rparr>, ev_interrupt = None,
      ev_metadata = dict_merge
        (case bs_stage b of None \<Rightarrow> [(''policy_reason'', PStr (bs_reason b))] | Some s \<Rightarrow> [(''guardrail_stage'', PStr s)])
        (bs_reserved_metadata b)\<rparr>"

definition append_blocked_call ::
  "nat \<Rightarrow> ToolCall \<Rightarrow> ToolManifest \<Rightarrow> BlockSpec \<Rightarrow> GovernedExecutionResult \<Rightarrow> GovernedExecutionResult" where
  "append_blocked_call index c m b r =
     append_result (blocked_envelope c b) (trace_denied index c m (Some (bs_reason b)) (Some (bs_code b))) None r"

section \<open>Approval interrupts\<close>

definition all_actions :: "string list" where
  "all_actions = [''approve'', ''reject'', ''edit'', ''clarify'', ''cancel'']"

definition args_preview :: "pydict \<Rightarrow> string" where
  "args_preview args =
     (let s = json_text (PDict args) in if length s > 280 then py_rstrip (take 280 s) @ ''...'' else s)"

definition run_metadata :: "RunInput \<Rightarrow> nat \<Rightarrow> pydict" where
  "run_metadata ri index =
     [(''run_id'', opt_str (ri_run_id ri)), (''thread_id'', opt_str (ri_thread_id ri)),
      (''attempt_id'', PStr (''attempt_'' @ nat_str index)), (''agent_id'', PStr (ri_agent_id ri)),
      (''agent_profile'', PStr (ri_agent_profile ri)), (''prompt_template_id'', opt_str (ri_prompt_template_id ri)),
      (''prompt_template_version'', (case ri_prompt_template_version ri of None \<Rightarrow> PNone | Some n \<Rightarrow> PInt n))]"

definition text_or :: "string option \<Rightarrow> string \<Rightarrow> string" where
  "text_or x y = (case x of Some s \<Rightarrow> if s \<noteq> [] then s else y | None \<Rightarrow> y)"

definition build_tool_approval_interrupt ::
  "(policy_reason \<Rightarrow> string) \<Rightarrow> RunInput \<Rightarrow> ToolCall \<Rightarrow> nat \<Rightarrow> ToolManifest \<Rightarrow> ToolPolicyOutcome \<Rightarrow> InterruptRequest" where
  "build_tool_approval_interrupt render ri c index m pol =
     \<lparr>ir_interrupt_id = build_interrupt_id (ri_run_id ri) (tc_tool_call_id c) index,
      ir_run_id = text_or (ri_run_id ri) ''run_pending'',
      ir_attempt_id = build_attempt_id index (Some (''attempt_'' @ nat_str index)),
      ir_checkpoint_id = ''checkpoint_pending'',
      ir_reason = text_or (to_interrupt_reason pol) ''approval_required'',
      ir_title = text_or (to_interrupt_title pol) (''Approval required for '' @ [CHR 39] @ tc_tool_name c @ [CHR 39]),
      ir_description = render (to_reason pol), ir_risk = Some (tm_risk m),
      ir_proposed_action =
        [(''tool_name'', PStr (tc_tool_name c)), (''tool_call_id'', opt_str (tc_tool_call_id c)),
         (''args'', PDict (tc_args c)), (''args_preview'', PStr (args_preview (tc_args c))),
         (''risk'', PStr (tool_risk_value (tm_risk m))), (''side_effect'', PStr (side_effect_value (tm_side_effect m))),
         (''approval_mode'', PStr (approval_mode_value (tm_approval_mode m)))],
      ir_allowed_actions = all_actions, ir_editable_fields = [''args''], ir_proposed_prompts = [],
      ir_metadata = dict_merge (dict_merge [(''policy_reason'', PStr (render (to_reason pol)))] (run_metadata ri index))
        (extract_reserved_metadata (to_metadata pol))\<rparr>"

definition record_interrupt_and_trace ::
  "(policy_reason \<Rightarrow> string) \<Rightarrow> RunInput \<Rightarrow> ToolCall \<Rightarrow> nat \<Rightarrow> ToolManifest \<Rightarrow> ToolPolicyOutcome
     \<Rightarrow> GovernedExecutionResult \<Rightarrow> GovernedExecutionResult" where
  "record_interrupt_and_trace render ri c index m pol r =
     (let i = build_tool_approval_interrupt render ri c index m pol
      in append_result
           \<lparr>ev_call = c, ev_decision = to_decision pol, ev_guardrail_decision = GD_ALLOW, ev_summary = None,
            ev_structured_output = None, ev_truncated = False, ev_error = None, ev_interrupt = Some i,
            ev_metadata = dict_merge (dict_merge [(''policy_reason'', PStr (render (to_reason pol)))] (run_metadata ri index))
              (extract_reserved_metadata (to_metadata pol))\<rparr>
           (trace_denied index c m (Some (render (to_reason pol))) (Some ''approval_required'')) (Some i) r)"

section \<open>The parameters of execution\<close>

datatype handler_reply = Handler_Raises string string | Handler_Returns pyval

record subscription =
  sb_event_key :: string
  sb_description :: string
  sb_deadline_seconds :: int
  sb_document :: pydict

text \<open>What awaiting a tool hook gives: an exception or a time-out, nothing, a value, an aggregation envelope
  with an optional value, the request to stop the chain and more context, or an object of another type.\<close>

datatype 'a tool_hook_reply =
    Tool_Hook_Fails
  | Tool_Hook_None
  | Tool_Hook_Value 'a
  | Tool_Hook_Response "'a option" bool pydict
  | Tool_Hook_Invalid

text \<open>A handler, the guardrails, the abort flag, and the spilling of an oversized payload answer by the index of
  the call, so that repeated calls may be answered differently.\<close>

record 'h exec_env =
  xe_gate :: gate_env
  xe_registry :: "'h ToolRegistry"
  xe_run :: "'h \<Rightarrow> ToolCall \<Rightarrow> nat \<Rightarrow> handler_reply"
  xe_on_input :: "ToolCall \<Rightarrow> nat \<Rightarrow> GuardrailResult"
  xe_on_args :: "ToolCall \<Rightarrow> nat \<Rightarrow> GuardrailResult"
  xe_on_result :: "ToolCall \<Rightarrow> pyval \<Rightarrow> GuardrailResult"
  xe_on_final :: "ToolResultEnvelope \<Rightarrow> GuardrailResult"
  xe_snapshot :: "ExecutionCapabilitySnapshot option"
  xe_aborted :: "(nat \<Rightarrow> bool) option"
  xe_render :: "policy_reason \<Rightarrow> string"
  xe_str :: "pyval \<Rightarrow> string"
  xe_unknown_tool :: "string \<Rightarrow> string list \<Rightarrow> string"
  xe_subscription :: "pydict \<Rightarrow> string + subscription"
  xe_spill :: spill_env
  xe_loads :: "string \<Rightarrow> pyval option"
  xe_turn_budget :: "int option"
  xe_pre_hooks :: "(ToolCall \<Rightarrow> pydict \<Rightarrow> ToolCall tool_hook_reply) list"
  xe_post_hooks :: "(ToolResultEnvelope \<Rightarrow> pydict \<Rightarrow> ToolResultEnvelope tool_hook_reply) list"

text \<open>\<open>str(x)\<close>, \<open>str(x or default)\<close>.\<close>

definition py_str :: "'h exec_env \<Rightarrow> pyval \<Rightarrow> string" where
  "py_str env v = (case v of PStr s \<Rightarrow> s | _ \<Rightarrow> xe_str env v)"

definition str_or :: "'h exec_env \<Rightarrow> pyval \<Rightarrow> string \<Rightarrow> string" where
  "str_or env v d = (if truthy v then py_str env v else d)"

section \<open>Bounds on outputs\<close>

fun cut_first_list :: "string list \<Rightarrow> int \<Rightarrow> pydict \<Rightarrow> pydict option" where
  "cut_first_list [] n d = None"
| "cut_first_list (k # ks) n d =
     (case dict_get d k of
        PList xs \<Rightarrow>
          if length xs > 20
          then Some (dict_set ''omitted_count'' (PInt (int (length xs) - 20)) (dict_set ''limit_value'' (PInt n)
                 (dict_set ''limit'' (PStr ''output_char_budget'') (dict_set ''truncated'' (PBool True)
                    (dict_set k (PList (take 20 xs)) d)))))
          else cut_first_list ks n d
      | _ \<Rightarrow> cut_first_list ks n d)"

definition bounded_structured_output :: "pyval \<Rightarrow> int option \<Rightarrow> pyval \<times> bool" where
  "bounded_structured_output raw max_chars =
     (case (raw, max_chars) of
        (PDict d, Some n) \<Rightarrow>
          if n \<le> 0 \<or> int (length (json_plain raw)) \<le> n then (raw, False)
          else (case cut_first_list [''results'', ''matches'', ''tools'', ''skills'', ''symbols''] n d of
                  Some d1 \<Rightarrow> (PDict d1, True)
                | None \<Rightarrow>
                    (case dict_get d ''content'' of
                       PStr s \<Rightarrow>
                         if int (length s) > n
                         then (PDict (dict_set ''omitted_count'' (PInt (int (length s) - n)) (dict_set ''limit_value'' (PInt n)
                                 (dict_set ''limit'' (PStr ''output_char_budget'') (dict_set ''truncated'' (PBool True)
                                    (dict_set ''content'' (PStr (take (nat n) s)) d))))), True)
                         else (raw, False)
                     | _ \<Rightarrow> (raw, False)))
      | _ \<Rightarrow> (raw, False))"

definition raw_summary_candidate :: "pyval \<Rightarrow> string option" where
  "raw_summary_candidate raw =
     (case raw of
        PDict d \<Rightarrow>
          (case List.find (\<lambda>k. nonblank (dict_get d k)) [''summary'', ''result_summary'', ''observation''] of
             Some k \<Rightarrow> as_str (dict_get d k)
           | None \<Rightarrow>
               (case List.find (\<lambda>k. nonblank (dict_get d k) \<and> length (the (as_str (dict_get d k))) \<le> 2000)
                       [''output_preview'', ''content''] of
                  Some k \<Rightarrow> as_str (dict_get d k)
                | None \<Rightarrow> None))
      | _ \<Rightarrow> None)"

definition enforce_output_budget :: "string option \<Rightarrow> int option \<Rightarrow> string option \<times> bool" where
  "enforce_output_budget summary max_chars =
     (case (summary, max_chars) of
        (Some s, Some n) \<Rightarrow>
          if int (length s) \<le> n then (summary, False)
          else if n \<le> 0 then (Some [], True)
          else (Some (take (nat n) s), True)
      | _ \<Rightarrow> (summary, False))"

definition planning_update_payload :: "pyval \<Rightarrow> pyval" where
  "planning_update_payload raw =
     (let d = (case raw of PDict d \<Rightarrow> d | _ \<Rightarrow> [])
      in PDict [(''summary'', dict_get_or d ''summary'' (PStr ''planning updated'')),
                (''applied_args'', (case dict_get d ''applied_args'' of PDict a \<Rightarrow> PDict a | _ \<Rightarrow> PDict [])),
                (''planning_step'', dict_get d ''planning_step''), (''planning_state'', dict_get d ''planning_state'')])"

definition success_field_failure :: "'h exec_env \<Rightarrow> ToolManifest \<Rightarrow> pyval \<Rightarrow> (string \<times> string) option" where
  "success_field_failure env m raw =
     (case (tm_success_field m, raw) of
        (Some field, PDict d) \<Rightarrow>
          if field = [] \<or> map_of d field = None \<or> truthy (dict_get d field) then None
          else
            (case dict_get d ''error'' of
               PDict e \<Rightarrow>
                 Some (str_or env (dict_get e ''message'') (py_str env (PDict e)),
                       str_or env (dict_get e ''code'') ''tool_reported_failure'')
             | v \<Rightarrow>
                 if truthy v then Some (py_str env v, ''tool_reported_failure'')
                 else Some (tm_name m @ '' reported '' @ field @ ''=False'', ''tool_reported_failure''))
      | _ \<Rightarrow> None)"

section \<open>The allowed path\<close>

record 'h AllowedSpec =
  as_call :: ToolCall
  as_index :: nat
  as_manifest :: ToolManifest
  as_registered :: "'h RegisteredTool option"
  as_input_guard :: GuardrailDecision
  as_run_metadata :: pydict
  as_forbidden_terms :: "string list"
  as_available_tools :: "string list"
  as_effective_tools :: "string list"

text \<open>What a part of the path does to the result: it appends one pair and says whether the loop stops, it
  appends nothing and lets the loop go on, or it raises.\<close>

datatype allow_step =
    Appended bool ToolResultEnvelope ToolTrace "InterruptRequest option"
  | Nothing_Appended
  | Step_Raises string string

definition blocked_step :: "'h AllowedSpec \<Rightarrow> bool \<Rightarrow> BlockSpec \<Rightarrow> allow_step" where
  "blocked_step sp stop b =
     Appended stop (blocked_envelope (as_call sp) b)
       (trace_denied (as_index sp) (as_call sp) (as_manifest sp) (Some (bs_reason b)) (Some (bs_code b))) None"

definition handler_exception_step :: "'h AllowedSpec \<Rightarrow> string \<Rightarrow> string \<Rightarrow> allow_step" where
  "handler_exception_step sp kind msg =
     (let text = (if py_strip msg \<noteq> [] then py_strip msg else kind)
      in Appended False
           \<lparr>ev_call = as_call sp, ev_decision = TD_DENY, ev_guardrail_decision = GD_ALLOW, ev_summary = None,
            ev_structured_output = None, ev_truncated = False,
            ev_error = Some \<lparr>te_code = ''tool_handler_error'', te_message = text\<rparr>, ev_interrupt = None,
            ev_metadata = dict_merge [(''error_type'', PStr kind)] (as_run_metadata sp)\<rparr>
           (trace_denied (as_index sp) (as_call sp) (as_manifest sp) (Some text) (Some ''tool_handler_error'')) None)"

definition missing_required_args :: "ToolManifest \<Rightarrow> pydict \<Rightarrow> string list" where
  "missing_required_args m args =
     (case tm_args_schema m of
        None \<Rightarrow> []
      | Some schema \<Rightarrow>
          (case dict_get schema ''required'' of
             PList xs \<Rightarrow> filter (\<lambda>k. map_of args k = None) (List.map_filter as_str xs)
           | _ \<Rightarrow> []))"

text \<open>The precheck: \<open>Some\<close> is the block that keeps the handler from running.\<close>

definition allowed_precheck :: "'h exec_env \<Rightarrow> 'h AllowedSpec \<Rightarrow> GuardrailResult \<Rightarrow> BlockSpec option" where
  "allowed_precheck env sp args_guard =
     (if gu_decision args_guard = GD_BLOCK
      then Some (block (text_or (gu_reason args_guard) ''guardrail blocked tool args'') ''guardrail_blocked'' (Some ''tool_args''))
      else if as_registered sp = None
      then Some (block (if as_available_tools sp \<noteq> [] then xe_unknown_tool env (tc_tool_name (as_call sp)) (as_available_tools sp)
                        else ''tool is not registered'') ''tool_not_registered'' None)
      else if is_deferred (as_manifest sp) \<and> missing_required_args (as_manifest sp) (tc_args (as_call sp)) \<noteq> []
      then Some (block (xe_str env (PList (map PStr (missing_required_args (as_manifest sp) (tc_args (as_call sp))))))
                   ''deferred_tool_schema_probe'' None)
      else if (case xe_aborted env of None \<Rightarrow> False | Some check \<Rightarrow> check (as_index sp))
      then Some (block ''run aborted before tool execution'' ''run_aborted'' None)
      else None)"

definition interrupt_run_id :: "'h exec_env \<Rightarrow> 'h AllowedSpec \<Rightarrow> string" where
  "interrupt_run_id env sp = str_or env (dict_get (as_run_metadata sp) ''run_id'') ''run_pending''"

definition interrupt_attempt_id :: "'h AllowedSpec \<Rightarrow> string" where
  "interrupt_attempt_id sp = build_attempt_id (as_index sp) (as_str (dict_get (as_run_metadata sp) ''attempt_id''))"

text \<open>The interrupt of a special tool, its envelope and its trace.\<close>

definition special_interrupt ::
  "'h exec_env \<Rightarrow> 'h AllowedSpec \<Rightarrow> string \<Rightarrow> string \<Rightarrow> string \<Rightarrow> pydict \<Rightarrow> string list \<Rightarrow> string list \<Rightarrow> AllowedPrompt list \<Rightarrow> pydict
     \<Rightarrow> InterruptRequest" where
  "special_interrupt env sp reason title description action actions editable prompts md =
     \<lparr>ir_interrupt_id = build_interrupt_id (Some (interrupt_run_id env sp)) (tc_tool_call_id (as_call sp)) (as_index sp),
      ir_run_id = interrupt_run_id env sp, ir_attempt_id = interrupt_attempt_id sp, ir_checkpoint_id = ''checkpoint_pending'',
      ir_reason = reason, ir_title = title, ir_description = description, ir_risk = None, ir_proposed_action = action,
      ir_allowed_actions = actions, ir_editable_fields = editable, ir_proposed_prompts = prompts, ir_metadata = md\<rparr>"

definition interrupt_step :: "'h AllowedSpec \<Rightarrow> InterruptRequest \<Rightarrow> string \<Rightarrow> pydict \<Rightarrow> string \<Rightarrow> string \<Rightarrow> allow_step" where
  "interrupt_step sp i summary structured trace_text code =
     Appended True
       \<lparr>ev_call = as_call sp, ev_decision = TD_INTERRUPT, ev_guardrail_decision = GD_ALLOW, ev_summary = Some summary,
        ev_structured_output = Some structured, ev_truncated = False, ev_error = None, ev_interrupt = Some i,
        ev_metadata = as_run_metadata sp\<rparr>
       (trace_denied (as_index sp) (as_call sp) (as_manifest sp) (Some trace_text) (Some code)) (Some i)"

definition call_action :: "ToolCall \<Rightarrow> pydict" where
  "call_action c = [(''tool_name'', PStr (tc_tool_name c)), (''tool_call_id'', opt_str (tc_tool_call_id c))]"

definition clarification_step :: "'h exec_env \<Rightarrow> 'h AllowedSpec \<Rightarrow> pyval \<Rightarrow> allow_step" where
  "clarification_step env sp raw =
     (case raw of
        PDict d \<Rightarrow>
          (let prompt = py_strip (str_or env (dict_get d ''prompt'') [])
           in if prompt = [] then Step_Raises ''ValueError'' ''ask_user_question requires prompt''
              else interrupt_step sp
                     (special_interrupt env sp ''clarification_required'' ''User clarification required'' prompt
                        (call_action (as_call sp) @
                         [(''args'', PDict (tc_args (as_call sp))), (''prompt'', PStr prompt),
                          (''choices'', (case dict_get d ''choices'' of PList xs \<Rightarrow> PList xs | _ \<Rightarrow> PList [])),
                          (''questions'', (case dict_get d ''questions'' of PList xs \<Rightarrow> PList xs | _ \<Rightarrow> PList [])),
                          (''allow_multiple'', PBool (truthy (dict_get d ''allow_multiple'')))])
                        [''clarify'', ''cancel''] [''message''] [] (as_run_metadata sp))
                     (str_or env (dict_get d ''summary'') ''clarification requested'') d
                     ''clarification requested'' ''clarification_required'')
      | _ \<Rightarrow> Step_Raises ''AttributeError'' ''object has no attribute get'')"

definition wait_for_event_step :: "'h exec_env \<Rightarrow> 'h AllowedSpec \<Rightarrow> pyval \<Rightarrow> allow_step" where
  "wait_for_event_step env sp raw =
     (case raw of
        PDict d \<Rightarrow>
          (case dict_get d ''wait_for_event'' of
             PDict sub \<Rightarrow>
               (case xe_subscription env sub of
                  Inl e \<Rightarrow> Step_Raises ''ValidationError'' e
                | Inr sb \<Rightarrow>
                    interrupt_step sp
                      (special_interrupt env sp ''wait_for_event''
                         (''Waiting for event '' @ [CHR 39] @ sb_event_key sb @ [CHR 39])
                         (if sb_description sb \<noteq> [] then sb_description sb
                          else ''Parked on '' @ [CHR 39] @ sb_event_key sb @ [CHR 39])
                         (call_action (as_call sp) @ [(''wait_for_event'', PDict (sb_document sb))])
                         [''clarify'', ''cancel''] [''message''] []
                         (dict_merge (as_run_metadata sp)
                            [(''wait_for_event_key'', PStr (sb_event_key sb)),
                             (''wait_for_event_deadline_seconds'', PInt (sb_deadline_seconds sb))]))
                      (str_or env (dict_get d ''summary'') ''waiting for event'') d ''waiting for event'' ''wait_for_event'')
           | _ \<Rightarrow> Step_Raises ''ValueError'' ''wait_for_event requires a subscription payload'')
      | _ \<Rightarrow> Step_Raises ''ValueError'' ''wait_for_event requires a subscription payload'')"

section \<open>Plan approval\<close>

text \<open>\<open>dict.fromkeys(xs)\<close>: the first occurrences in order.\<close>

definition unique_texts :: "string list \<Rightarrow> string list" where
  "unique_texts xs = rev (remdups (rev xs))"

text \<open>Iterating over a value: a list, the characters of a string, the keys of a dictionary; \<open>None\<close> raises.\<close>

definition iterate :: "pyval \<Rightarrow> pyval list option" where
  "iterate v =
     (case v of PList xs \<Rightarrow> Some xs | PStr s \<Rightarrow> Some (map (\<lambda>c. PStr [c]) s) | PDict d \<Rightarrow> Some (map (\<lambda>(k, w). PStr k) d) | _ \<Rightarrow> None)"

definition current_execution_tools :: "'h AllowedSpec \<Rightarrow> string list" where
  "current_execution_tools sp =
     (let names = (if as_effective_tools sp \<noteq> [] then as_effective_tools sp else as_available_tools sp)
      in unique_texts (filter (\<lambda>n. n \<noteq> [] \<and> n \<notin> set management_tool_names) (map py_strip names)))"

text \<open>The case-insensitive search for a literal, isolated by look-arounds or not: the first position.\<close>

definition mention_at :: "bool \<Rightarrow> string \<Rightarrow> string \<Rightarrow> nat \<Rightarrow> bool" where
  "mention_at alone name content i =
     (prefix (py_lower name) (drop i (py_lower content))
      \<and> (alone \<longrightarrow> (i = 0 \<or> \<not> ident_char (content ! (i - 1)))
                  \<and> (i + length name = length content \<or> \<not> ident_char (content ! (i + length name)))))"

definition first_mention :: "bool \<Rightarrow> string \<Rightarrow> string \<Rightarrow> nat option" where
  "first_mention alone name content = List.find (mention_at alone name content) [0..<Suc (length content)]"

text \<open>The mentioned candidates, by position and name.\<close>

definition mentioned :: "(string \<Rightarrow> bool) \<Rightarrow> string list \<Rightarrow> string \<Rightarrow> string list" where
  "mentioned alone candidates content =
     map snd (sort (List.map_filter (\<lambda>n. map_option (\<lambda>i. (i, n)) (first_mention (alone n) n content)) candidates))"

definition mentioned_unavailable_plan_tools :: "string \<Rightarrow> string list \<Rightarrow> string list \<Rightarrow> string list" where
  "mentioned_unavailable_plan_tools content current available =
     mentioned (\<lambda>n. True)
       (filter (\<lambda>n. n \<noteq> [] \<and> n \<notin> set current \<union> set management_tool_names) (unique_texts (map py_strip available))) content"

definition mentioned_forbidden_plan_terms :: "string \<Rightarrow> string list \<Rightarrow> string list" where
  "mentioned_forbidden_plan_terms content terms =
     mentioned (\<lambda>t. list_all ident_char t) (filter (\<lambda>t. t \<noteq> []) (unique_texts (map py_strip terms))) content"

definition or_none :: "string list \<Rightarrow> string" where
  "or_none xs = (if xs \<noteq> [] then py_join '', '' xs else ''none'')"

definition plan_block :: "string \<Rightarrow> string \<Rightarrow> pydict \<Rightarrow> BlockSpec" where
  "plan_block code reason out = (block reason code None)\<lparr>bs_structured_output := Some out\<rparr>"

text \<open>The values of a field of the plan as a list, \<open>list(plan.get(key) or [])\<close>.\<close>

definition plan_list :: "pydict \<Rightarrow> string \<Rightarrow> pyval list option" where
  "plan_list plan k = (if truthy (dict_get plan k) then iterate (dict_get plan k) else Some [])"

definition plan_interrupt ::
  "'h exec_env \<Rightarrow> 'h AllowedSpec \<Rightarrow> pydict \<Rightarrow> pydict \<Rightarrow> string \<Rightarrow> string list \<Rightarrow> pyval list \<Rightarrow> pyval list \<Rightarrow> allow_step" where
  "plan_interrupt env sp d plan content requested raw_requested urls =
     (let c = as_call sp; tools = PList (map PStr (current_execution_tools sp));
          plan_id = str_or env (dict_get plan ''plan_id'')
             (''plan_'' @ text_or (tc_tool_call_id c) (nat_str (as_index sp)));
          content_hash = str_or env (dict_get plan ''content_hash'') [];
          path = (case dict_get plan ''path'' of PNone \<Rightarrow> PNone | v \<Rightarrow> PStr (py_str env v));
          payload = PDict
            [(''plan_id'', PStr plan_id), (''run_id'', PStr (interrupt_run_id env sp)),
             (''agent_id'', PStr (str_or env (dict_get (as_run_metadata sp) ''agent_id'') ''agent'')),
             (''content'', PStr content), (''content_hash'', PStr content_hash), (''path'', path),
             (''title'', PStr ''Approve plan?''),
             (''description'', PStr ''Review the proposed plan before execution continues.''),
             (''metadata'', PDict (dict_merge (as_run_metadata sp)
                [(''source_tool'', PStr (tc_tool_name c)), (''objective'', dict_get plan ''objective''),
                 (''requested_tools'', PList raw_requested), (''target_urls'', PList urls), (''tool_ids'', tools)]))];
          prompts = map (\<lambda>(i, t). \<lparr>ap_category_id = ''plan:'' @ plan_id @ '':'' @ nat_str i @ '':'' @ t,
                                    ap_tool_name = t, ap_arg_patterns = [], ap_expires_at = None\<rparr>)
                      (enumerate 1 requested)
      in interrupt_step sp
           (special_interrupt env sp ''plan_approval_required'' ''Approve plan?''
              ''Review the proposed plan before execution continues.''
              (call_action c @ [(''args'', PDict (tc_args c)), (''plan_approval'', payload)])
              all_actions [''content'', ''path''] prompts
              (dict_merge (as_run_metadata sp)
                 [(''plan_id'', PStr plan_id), (''content_hash'', PStr content_hash), (''objective'', dict_get plan ''objective''),
                  (''requested_tools'', PList (map PStr requested)), (''target_urls'', PList urls), (''tool_ids'', tools)]))
           (str_or env (dict_get d ''summary'') ''plan approval requested'') (dict_merge d [(''plan_approval'', payload)])
           ''plan approval requested'' ''plan_approval_required'')"

definition plan_approval_step :: "'h exec_env \<Rightarrow> 'h AllowedSpec \<Rightarrow> pyval \<Rightarrow> allow_step" where
  "plan_approval_step env sp raw =
     (case raw of
        PDict d \<Rightarrow>
          (case dict_get d ''plan_approval'' of
             PDict plan \<Rightarrow>
               (let content = py_strip (str_or env (dict_get plan ''content'') []); current = current_execution_tools sp
                in if content = [] then Nothing_Appended
                   else
                     (case (plan_list plan ''requested_tools'', plan_list plan ''target_urls'') of
                        (Some vs, urls) \<Rightarrow>
                          (let requested = unique_texts (filter (\<lambda>t. t \<noteq> []) (map (\<lambda>v. py_strip (py_str env v)) vs));
                               invalid = filter (\<lambda>t. t \<notin> set current) requested;
                               unavailable = mentioned_unavailable_plan_tools content current (as_available_tools sp);
                               forbidden = mentioned_forbidden_plan_terms content (as_forbidden_terms sp)
                           in if invalid \<noteq> []
                              then blocked_step sp True (plan_block ''plan_requested_tools_unavailable''
                                     (''plan requested unavailable tools: '' @ or_none invalid @ ''; current executable tools: '' @ or_none current)
                                     [(''error_kind'', PStr ''plan_requested_tools_unavailable''),
                                      (''invalid_requested_tools'', PList (map PStr invalid)),
                                      (''requested_tools'', PList (map PStr requested)),
                                      (''current_executable_tools'', PList (map PStr current)), (''retry_expected'', PBool True)])
                              else if unavailable \<noteq> []
                              then blocked_step sp True (plan_block ''plan_content_mentions_unavailable_tools''
                                     (''plan content mentioned unavailable tools: '' @ or_none unavailable @ ''; current executable tools: '' @ or_none current)
                                     [(''error_kind'', PStr ''plan_content_mentions_unavailable_tools''),
                                      (''mentioned_unavailable_tools'', PList (map PStr unavailable)),
                                      (''current_executable_tools'', PList (map PStr current)), (''retry_expected'', PBool True)])
                              else if forbidden \<noteq> []
                              then blocked_step sp True (plan_block ''plan_content_forbidden_terms''
                                     (''plan content mentioned forbidden terms: '' @ or_none forbidden)
                                     [(''error_kind'', PStr ''plan_content_forbidden_terms''),
                                      (''forbidden_terms'', PList (map PStr forbidden)), (''retry_expected'', PBool True)])
                              else (case urls of
                                      Some us \<Rightarrow> plan_interrupt env sp d plan content requested vs us
                                    | None \<Rightarrow> Step_Raises ''TypeError'' ''object is not iterable''))
                      | (None, _) \<Rightarrow> Step_Raises ''TypeError'' ''object is not iterable''))
           | _ \<Rightarrow> Nothing_Appended)
      | _ \<Rightarrow> Nothing_Appended)"

definition is_exit_plan_mode_tool :: "string \<Rightarrow> bool" where
  "is_exit_plan_mode_tool name = (name \<in> {''exit_plan_mode_v2'', ''exit_plan_mode''})"

section \<open>The envelope of a handler's output\<close>

definition finalize_allowed_envelope ::
  "'h exec_env \<Rightarrow> 'h AllowedSpec \<Rightarrow> pydict option \<Rightarrow> string option \<Rightarrow> bool \<Rightarrow> GuardrailDecision \<Rightarrow> GuardrailDecision \<Rightarrow> allow_step" where
  "finalize_allowed_envelope env sp out summary truncated args_guard raw_guard =
     (let g = merge_guardrail_decisions [as_input_guard sp, args_guard, raw_guard];
          ev = \<lparr>ev_call = as_call sp, ev_decision = TD_ALLOW, ev_guardrail_decision = g, ev_summary = summary,
                ev_structured_output = out, ev_truncated = truncated, ev_error = None, ev_interrupt = None,
                ev_metadata = dict_merge [(''idempotent'', PBool (tm_idempotent (as_manifest sp)))] (as_run_metadata sp)\<rparr>;
          fg = xe_on_final env ev
      in if gu_decision fg = GD_BLOCK
         then Appended False
                \<lparr>ev_call = as_call sp, ev_decision = TD_DENY, ev_guardrail_decision = GD_BLOCK, ev_summary = None,
                 ev_structured_output = None, ev_truncated = False,
                 ev_error = Some \<lparr>te_code = ''guardrail_blocked'',
                                  te_message = text_or (gu_reason fg) ''guardrail blocked final output''\<rparr>,
                 ev_interrupt = None,
                 ev_metadata = dict_merge [(''guardrail_stage'', PStr ''final_output'')] (as_run_metadata sp)\<rparr>
                (trace_denied (as_index sp) (as_call sp) (as_manifest sp) None (Some ''guardrail_blocked'')) None
         else
           (let ev1 = ev\<lparr>ev_guardrail_decision := merge_guardrail_decisions [g, gu_decision fg]\<rparr>
            in case success_field_failure env (as_manifest sp) (case out of Some d \<Rightarrow> PDict d | None \<Rightarrow> PNone) of
                 Some (message, code) \<Rightarrow>
                   Appended False (ev1\<lparr>ev_error := Some \<lparr>te_code = code, te_message = message\<rparr>\<rparr>)
                     (build_tool_trace (as_index sp) (as_call sp) (as_manifest sp) TS_FAILED (Some message) (Some code) truncated) None
               | None \<Rightarrow>
                   Appended False ev1
                     (build_tool_trace (as_index sp) (as_call sp) (as_manifest sp) TS_COMPLETED summary None truncated) None))"

text \<open>What follows a handler that returned.\<close>

text \<open>The output within the character budget of the tool.\<close>

definition bounded_output_step :: "'h exec_env \<Rightarrow> 'h AllowedSpec \<Rightarrow> pyval \<Rightarrow> GuardrailDecision \<Rightarrow> GuardrailDecision \<Rightarrow> allow_step" where
  "bounded_output_step env sp raw args_guard raw_guard =
     (let budget = tm_output_char_budget (as_manifest sp);
          (raw1, cut) = bounded_structured_output raw budget;
          (summary, truncated) = enforce_output_budget (raw_summary_candidate raw1) budget
      in case raw1 of
           PDict d \<Rightarrow> finalize_allowed_envelope env sp (Some d) summary (truncated \<or> cut) args_guard raw_guard
         | PNone \<Rightarrow> finalize_allowed_envelope env sp None summary (truncated \<or> cut) args_guard raw_guard
         | _ \<Rightarrow> Step_Raises ''ValidationError'' ''structured_output'')"

definition after_handler :: "'h exec_env \<Rightarrow> 'h AllowedSpec \<Rightarrow> GuardrailDecision \<Rightarrow> pyval \<Rightarrow> allow_step" where
  "after_handler env sp args_guard raw =
     (let c = as_call sp; m = as_manifest sp; rg = xe_on_result env c raw
      in if gu_decision rg = GD_BLOCK
         then blocked_step sp False
                (block (text_or (gu_reason rg) ''guardrail blocked tool result'') ''guardrail_blocked'' (Some ''tool_result''))
         else
           (let raw1 = (if tc_tool_name c = ''planning_state_update'' then planning_update_payload raw else raw)
            in if tc_tool_name c = ''ask_user_question'' then clarification_step env sp raw1
               else if tc_tool_name c = ''wait_for_event'' then wait_for_event_step env sp raw1
               else if is_exit_plan_mode_tool (tc_tool_name c) \<and> \<not> truthy (dict_get (tc_metadata c) ''approved_interrupt_id'')
               then plan_approval_step env sp raw1
               else
                 (case spilled_or_same (xe_spill env) (tm_max_result_size_chars m) (as_index sp) (tc_tool_name c)
                         (str_or env (dict_get (as_run_metadata sp) ''run_id'') []) (tc_tool_call_id c) raw1 of
                    Inl e \<Rightarrow> Step_Raises ''OSError'' e
                  | Inr raw2 \<Rightarrow>
                      bounded_output_step env sp raw2 args_guard (gu_decision rg))))"

text \<open>The whole path: whether the handler was awaited, whether the loop stops, and the result.\<close>

definition perform :: "'h AllowedSpec \<Rightarrow> allow_step \<Rightarrow> GovernedExecutionResult \<Rightarrow> bool \<times> GovernedExecutionResult" where
  "perform sp step r =
     (case (case step of Step_Raises kind msg \<Rightarrow> handler_exception_step sp kind msg | _ \<Rightarrow> step) of
        Appended stop ev tr i \<Rightarrow> (stop, append_result ev tr i r)
      | _ \<Rightarrow> (False, r))"

definition execute_allowed_path ::
  "'h exec_env \<Rightarrow> 'h AllowedSpec \<Rightarrow> GovernedExecutionResult \<Rightarrow> bool \<times> bool \<times> GovernedExecutionResult" where
  "execute_allowed_path env sp r =
     (let ag = xe_on_args env (as_call sp) (as_index sp)
      in case allowed_precheck env sp ag of
           Some b \<Rightarrow> (False, perform sp (blocked_step sp False b) r)
         | None \<Rightarrow>
             (case as_registered sp of
                None \<Rightarrow> (False, False, r)
              | Some t \<Rightarrow>
                  (True, perform sp
                     (case xe_run env (rt_handler t) (as_call sp) (as_index sp) of
                        Handler_Raises kind msg \<Rightarrow> Step_Raises kind msg
                      | Handler_Returns raw \<Rightarrow> after_handler env sp (gu_decision ag) raw) r)))"

section \<open>One pair per call\<close>

text \<open>The check of the envelope contract.\<close>

definition envelope_ok :: "ToolResultEnvelope \<Rightarrow> bool" where
  "envelope_ok ev =
     ((ev_decision ev = TD_DENY \<longrightarrow> ev_error ev \<noteq> None) \<and> (ev_decision ev = TD_INTERRUPT \<longrightarrow> ev_interrupt ev \<noteq> None))"

definition trace_of :: "ToolCall \<Rightarrow> nat \<Rightarrow> ToolTrace \<Rightarrow> bool" where
  "trace_of c index tr =
     (tt_step tr = index \<and> tt_tool_name tr = tc_tool_name c \<and> tt_tool_call_id tr = tc_tool_call_id c)"

text \<open>A step that appends, appends a consistent envelope and a trace of this call, and sets an interrupt only
  if it stops the loop.\<close>

fun step_ok :: "'h AllowedSpec \<Rightarrow> allow_step \<Rightarrow> bool" where
  "step_ok sp (Appended stop ev tr i) =
     (ev_call ev = as_call sp \<and> trace_of (as_call sp) (as_index sp) tr \<and> envelope_ok ev \<and> (i \<noteq> None \<longrightarrow> stop))"
| "step_ok sp _ = True"

named_theorems step_oks \<open>steps of the allowed path append a pair of their call\<close>

lemma trace_of_built [simp]: "trace_of c index (trace_denied index c m s code)" "trace_of c index (build_tool_trace index c m st s code t)"
  by (simp_all add: trace_of_def trace_denied_def build_tool_trace_def)

lemma blocked_step_ok [step_oks, simp]: "step_ok sp (blocked_step sp stop b)"
  by (simp add: blocked_step_def blocked_envelope_def envelope_ok_def)

lemma interrupt_step_ok [step_oks, simp]: "step_ok sp (interrupt_step sp i summary out text code)"
  by (simp add: interrupt_step_def envelope_ok_def)

lemma handler_exception_step_ok [step_oks, simp]: "step_ok sp (handler_exception_step sp kind msg)"
  by (simp add: handler_exception_step_def Let_def envelope_ok_def)

lemma clarification_step_ok [step_oks]: "step_ok sp (clarification_step env sp raw)"
  by (simp add: clarification_step_def Let_def split: pyval.split)

lemma wait_for_event_step_ok [step_oks]: "step_ok sp (wait_for_event_step env sp raw)"
  by (simp add: wait_for_event_step_def split: pyval.split sum.split)

lemma plan_interrupt_ok [step_oks, simp]: "step_ok sp (plan_interrupt env sp d plan content requested vs us)"
  by (simp add: plan_interrupt_def Let_def)

lemma plan_approval_step_ok [step_oks]: "step_ok sp (plan_approval_step env sp raw)"
  by (simp add: plan_approval_step_def Let_def split: pyval.split option.split)

lemma finalize_ok [step_oks]: "step_ok sp (finalize_allowed_envelope env sp out summary truncated ag rg)"
  by (simp add: finalize_allowed_envelope_def Let_def envelope_ok_def split: option.split)

lemma bounded_output_ok [step_oks]: "step_ok sp (bounded_output_step env sp raw ag rg)"
  by (simp add: bounded_output_step_def Let_def split_beta step_oks split: pyval.split)

lemma after_handler_ok [step_oks]: "step_ok sp (after_handler env sp ag raw)"
  by (simp add: after_handler_def Let_def step_oks split: sum.split)

text \<open>The only way to append nothing is the exit from plan mode without a plan to approve.\<close>

lemma finalize_appends: "finalize_allowed_envelope env sp out summary truncated ag rg \<noteq> Nothing_Appended"
  by (simp add: finalize_allowed_envelope_def Let_def split: option.split)

lemma bounded_output_appends: "bounded_output_step env sp raw ag rg \<noteq> Nothing_Appended"
  by (simp add: bounded_output_step_def Let_def split_beta finalize_appends split: pyval.split)

lemma special_appends:
  "clarification_step env sp raw \<noteq> Nothing_Appended" "wait_for_event_step env sp raw \<noteq> Nothing_Appended"
  "blocked_step sp stop b \<noteq> Nothing_Appended"
  by (simp_all add: clarification_step_def wait_for_event_step_def interrupt_step_def blocked_step_def Let_def
      split: pyval.split sum.split)

lemma after_handler_appends:
  assumes "\<not> is_exit_plan_mode_tool (tc_tool_name (as_call sp)) \<or> truthy (dict_get (tc_metadata (as_call sp)) ''approved_interrupt_id'')"
  shows "after_handler env sp ag raw \<noteq> Nothing_Appended"
  using assms by (auto simp: after_handler_def Let_def special_appends bounded_output_appends split: sum.split)

text \<open>One pair of the call was appended.\<close>

definition one_result :: "ToolCall \<Rightarrow> nat \<Rightarrow> GovernedExecutionResult \<Rightarrow> GovernedExecutionResult \<Rightarrow> bool" where
  "one_result c index r r' =
     (\<exists>ev tr. gr_envelopes r' = gr_envelopes r @ [ev] \<and> gr_traces r' = gr_traces r @ [tr]
        \<and> ev_call ev = c \<and> trace_of c index tr \<and> envelope_ok ev)"

lemma append_result_one:
  "ev_call ev = c \<Longrightarrow> trace_of c index tr \<Longrightarrow> envelope_ok ev \<Longrightarrow> one_result c index r (append_result ev tr i r)"
  by (simp add: one_result_def append_result_def)

lemma perform_one:
  assumes "step_ok sp step" "step \<noteq> Nothing_Appended"
  shows "one_result (as_call sp) (as_index sp) r (snd (perform sp step r))"
proof (cases step)
  case (Step_Raises kind msg)
  have "step_ok sp (handler_exception_step sp kind msg)" by simp
  with Step_Raises show ?thesis
    by (cases "handler_exception_step sp kind msg") (auto simp: perform_def append_result_one handler_exception_step_def Let_def)
qed (use assms in \<open>auto simp: perform_def append_result_one\<close>)

text \<open>Outside plan approval the loop stops only for an interrupt.\<close>

fun stop_ok :: "allow_step \<Rightarrow> bool" where
  "stop_ok (Appended stop ev tr i) = (stop \<longrightarrow> i \<noteq> None)"
| "stop_ok _ = True"

lemma after_handler_stop_ok:
  assumes "\<not> is_exit_plan_mode_tool (tc_tool_name (as_call sp)) \<or> truthy (dict_get (tc_metadata (as_call sp)) ''approved_interrupt_id'')"
  shows "stop_ok (after_handler env sp ag raw)"
proof -
  have "stop_ok (finalize_allowed_envelope env sp out summary truncated a r)" for out summary truncated a r
    by (simp add: finalize_allowed_envelope_def Let_def split: option.split)
  then have "stop_ok (bounded_output_step env sp raw' a r)" for raw' a r
    by (simp add: bounded_output_step_def Let_def split_beta split: pyval.split)
  moreover have "stop_ok (clarification_step env sp raw')" "stop_ok (wait_for_event_step env sp raw')" for raw'
    by (simp_all add: clarification_step_def wait_for_event_step_def interrupt_step_def Let_def split: pyval.split sum.split)
  ultimately show ?thesis
    using assms by (auto simp: after_handler_def Let_def blocked_step_def split: sum.split)
qed

lemma perform_stop:
  assumes "stop_ok step" "fst (perform sp step r)"
  shows "gr_interrupt (snd (perform sp step r)) \<noteq> None"
  using assms
  by (cases step) (auto simp: perform_def append_result_def handler_exception_step_def Let_def split: option.splits)

lemma perform_interrupt:
  assumes "step_ok sp step" "gr_interrupt r = None" "gr_interrupt (snd (perform sp step r)) \<noteq> None"
  shows "fst (perform sp step r)"
  using assms
  by (cases step) (auto simp: perform_def append_result_def handler_exception_step_def Let_def split: option.splits)

end
