(* ===== verification/Turn_Budget.thy ===== *)
theory Turn_Budget
  imports Allowed_Path
begin

text \<open>
  The budget for the outputs of a turn (\<open>tools/executor/turn_budget.py\<close>): the largest summaries are replaced
  by previews until the turn fits.
\<close>

section \<open>The budget\<close>

definition envelope_output_size :: "ToolResultEnvelope \<Rightarrow> int" where
  "envelope_output_size ev =
     int (length (text_or (ev_summary ev) []))
     + (case ev_structured_output ev of
          Some d \<Rightarrow> if d \<noteq> [] then int (length (json_plain (PDict d))) else 0
        | None \<Rightarrow> 0)"

text \<open>What the loop does with one envelope: nothing, or the characters it saves and the new envelope.\<close>

definition trim_envelope :: "(nat \<Rightarrow> string) \<Rightarrow> int \<Rightarrow> ToolResultEnvelope \<Rightarrow> (int \<times> ToolResultEnvelope) option" where
  "trim_envelope omission preview ev =
     (let s = text_or (ev_summary ev) []
      in if truthy (dict_get (ev_metadata ev) ''turn_budget_truncated'') \<or> int (length s) \<le> preview then None
         else (let t = safe_preview omission s preview; delta = int (length s) - int (length t)
               in if delta \<le> 0 then None
                  else Some (delta, ev\<lparr>ev_summary := Some t, ev_truncated := True,
                         ev_metadata := dict_set ''turn_budget_truncated'' (PBool True) (ev_metadata ev)\<rparr>)))"

fun trim_loop ::
  "(nat \<Rightarrow> string) \<Rightarrow> int \<Rightarrow> int \<Rightarrow> nat list \<Rightarrow> ToolResultEnvelope list \<Rightarrow> TurnBudgetAudit \<Rightarrow> ToolResultEnvelope list \<times> TurnBudgetAudit" where
  "trim_loop omission preview budget [] evs au = (evs, au)"
| "trim_loop omission preview budget (i # is) evs au =
     (if ta_total_chars_after au \<le> budget then (evs, au)
      else (case trim_envelope omission preview (evs ! i) of
              None \<Rightarrow> trim_loop omission preview budget is evs au
            | Some (delta, ev) \<Rightarrow>
                trim_loop omission preview budget is (evs[i := ev])
                  \<lparr>ta_spilled_count = Suc (ta_spilled_count au), ta_chars_saved = ta_chars_saved au + delta,
                   ta_total_chars_after = ta_total_chars_after au - delta\<rparr>))"

definition turn_size :: "ToolResultEnvelope list \<Rightarrow> int" where
  "turn_size evs = sum_list (map envelope_output_size evs)"

text \<open>\<open>None\<close> is an audit that says nothing but that the pass was not activated.\<close>

definition enforce_turn_output_budget ::
  "(nat \<Rightarrow> string) \<Rightarrow> int option \<Rightarrow> int \<Rightarrow> ToolResultEnvelope list \<Rightarrow> ToolResultEnvelope list \<times> TurnBudgetAudit option" where
  "enforce_turn_output_budget omission budget_chars preview evs =
     (case budget_chars of
        None \<Rightarrow> (evs, None)
      | Some budget \<Rightarrow>
          if budget \<le> 0 \<or> turn_size evs \<le> budget then (evs, None)
          else (let order = sort_key (\<lambda>i. - envelope_output_size (evs ! i)) [0..<length evs]
                in map_prod id Some (trim_loop omission preview budget order evs
                     \<lparr>ta_spilled_count = 0, ta_chars_saved = 0, ta_total_chars_after = turn_size evs\<rparr>)))"

text \<open>\<open>_apply_turn_output_budget\<close> with the default length of a preview.\<close>

definition apply_turn_output_budget ::
  "(nat \<Rightarrow> string) \<Rightarrow> int option \<Rightarrow> GovernedExecutionResult \<Rightarrow> GovernedExecutionResult" where
  "apply_turn_output_budget omission budget_chars r =
     (if budget_chars = None \<or> budget_chars = Some 0 then r
      else (case enforce_turn_output_budget omission budget_chars 2000 (gr_envelopes r) of
              (evs, Some au) \<Rightarrow> if ta_spilled_count au > 0 then r\<lparr>gr_envelopes := evs, gr_turn_audit := Some au\<rparr> else r
            | _ \<Rightarrow> r))"

section \<open>The pass reaches the budget or trims all it can\<close>

lemma trim_envelopeD:
  assumes "trim_envelope omission preview ev = Some (delta, ev')"
  shows "delta > 0" "envelope_output_size ev' = envelope_output_size ev - delta" "trim_envelope omission preview ev' = None"
    "int (length (text_or (ev_summary ev) [])) > preview" "ev_call ev' = ev_call ev" "ev_decision ev' = ev_decision ev"
    "ev_structured_output ev' = ev_structured_output ev" "ev_error ev' = ev_error ev" "ev_interrupt ev' = ev_interrupt ev"
  using assms
  by (auto simp: trim_envelope_def envelope_output_size_def text_or_def Let_def split: if_splits option.splits)

lemma turn_size_update:
  "i < length evs \<Longrightarrow> turn_size (evs[i := ev]) = turn_size evs - envelope_output_size (evs ! i) + envelope_output_size ev"
  by (induction evs arbitrary: i) (auto simp: turn_size_def split: nat.split)

text \<open>An envelope after the pass: the same, or trimmed once.\<close>

definition trimmed_once :: "(nat \<Rightarrow> string) \<Rightarrow> int \<Rightarrow> ToolResultEnvelope \<Rightarrow> ToolResultEnvelope \<Rightarrow> bool" where
  "trimmed_once omission preview ev ev' = (ev' = ev \<or> (\<exists>delta. trim_envelope omission preview ev = Some (delta, ev')))"

lemma trim_loop_ok:
  assumes "trim_loop omission preview budget is evs au = (evs', au')" "distinct is" "set is \<subseteq> {..<length evs}"
    "ta_total_chars_after au = turn_size evs"
  shows "length evs' = length evs \<and> ta_total_chars_after au' = turn_size evs'
    \<and> ta_chars_saved au' - ta_chars_saved au = turn_size evs - turn_size evs'
    \<and> (\<forall>i \<in> {..<length evs} - set is. evs' ! i = evs ! i)
    \<and> (\<forall>i \<in> set is. trimmed_once omission preview (evs ! i) (evs' ! i))
    \<and> (turn_size evs' \<le> budget \<or> (\<forall>i \<in> set is. trim_envelope omission preview (evs' ! i) = None))
    \<and> (ta_spilled_count au' = ta_spilled_count au \<longrightarrow> evs' = evs) \<and> ta_spilled_count au \<le> ta_spilled_count au'"
  using assms
proof (induction omission preview budget "is" evs au arbitrary: evs' au' rule: trim_loop.induct)
  case (2 omission preview budget i "is" evs au)
  have i: "i < length evs" "i \<notin> set is" "distinct is" "set is \<subseteq> {..<length evs}" using 2(4,5) by auto
  consider (stop) "ta_total_chars_after au \<le> budget"
    | (skip) "\<not> ta_total_chars_after au \<le> budget" "trim_envelope omission preview (evs ! i) = None"
    | (trim) delta ev where "\<not> ta_total_chars_after au \<le> budget" "trim_envelope omission preview (evs ! i) = Some (delta, ev)"
    by fastforce
  then show ?case
  proof cases
    case stop
    with 2(3,6) show ?thesis by (auto simp: trimmed_once_def)
  next
    case skip
    with 2(3) have "trim_loop omission preview budget is evs au = (evs', au')" by simp
    from 2(1) [OF skip this i(3,4) 2(6)] i skip show ?thesis by (auto simp: trimmed_once_def)
  next
    case trim
    note t = trim_envelopeD [OF trim(2)]
    let ?au = "\<lparr>ta_spilled_count = Suc (ta_spilled_count au), ta_chars_saved = ta_chars_saved au + delta,
                 ta_total_chars_after = ta_total_chars_after au - delta\<rparr>"
    from trim 2(3) have run: "trim_loop omission preview budget is (evs[i := ev]) ?au = (evs', au')" by simp
    have size: "turn_size (evs[i := ev]) = turn_size evs - delta" using t(2) i(1) by (simp add: turn_size_update)
    have "set is \<subseteq> {..<length (evs[i := ev])}" "ta_total_chars_after ?au = turn_size (evs[i := ev])"
      using i 2(6) size by simp_all
    note ih = 2(2) [OF trim(1,2) refl run i(3) this]
    from ih have "evs' ! i = ev" using i by auto
    moreover have "trimmed_once omission preview (evs ! j) (evs' ! j)" if "j \<in> set is" for j
    proof -
      from that i(2) have "evs[i := ev] ! j = evs ! j" by (metis nth_list_update_neq)
      with ih that show ?thesis by metis
    qed
    ultimately show ?thesis
      using ih size t(3) i trim(2) by (auto simp: trimmed_once_def)
  qed
qed (auto simp: trimmed_once_def)

lemma enforce_cases:
  assumes "enforce_turn_output_budget omission (Some budget) preview evs = (evs', au)"
  obtains (idle) "evs' = evs" "au = None" "budget \<le> 0 \<or> turn_size evs \<le> budget"
  | (run) au' where "au = Some au'" "budget > 0" "turn_size evs > budget" "length evs' = length evs"
      "ta_total_chars_after au' = turn_size evs'" "ta_chars_saved au' = turn_size evs - turn_size evs'"
      "\<forall>i < length evs. trimmed_once omission preview (evs ! i) (evs' ! i)"
      "turn_size evs' \<le> budget \<or> (\<forall>i < length evs. trim_envelope omission preview (evs' ! i) = None)"
      "ta_spilled_count au' = 0 \<longrightarrow> evs' = evs"
proof (cases "budget \<le> 0 \<or> turn_size evs \<le> budget")
  case True
  with assms show ?thesis by (intro idle) (auto simp: enforce_turn_output_budget_def)
next
  case False
  let ?order = "sort_key (\<lambda>i. - envelope_output_size (evs ! i)) [0..<length evs]"
  obtain au' where l: "trim_loop omission preview budget ?order evs
      \<lparr>ta_spilled_count = 0, ta_chars_saved = 0, ta_total_chars_after = turn_size evs\<rparr> = (evs', au')" "au = Some au'"
    using assms False by (auto simp: enforce_turn_output_budget_def Let_def map_prod_def split: prod.splits)
  from trim_loop_ok [OF l(1)] have "length evs' = length evs" "ta_total_chars_after au' = turn_size evs'"
      "ta_chars_saved au' = turn_size evs - turn_size evs'"
      "\<forall>i < length evs. trimmed_once omission preview (evs ! i) (evs' ! i)"
      "turn_size evs' \<le> budget \<or> (\<forall>i < length evs. trim_envelope omission preview (evs' ! i) = None)"
      "ta_spilled_count au' = 0 \<longrightarrow> evs' = evs"
    by (auto simp: atLeast0LessThan subset_iff)
  with False l(2) show ?thesis by (intro run) auto
qed

text \<open>C33. The pass over the outputs of a turn changes no envelope but by trimming a summary longer than the
  preview, once; afterwards the turn is within its budget or nothing is left to trim, the audit counts the
  saved and the remaining characters exactly, and a second pass changes nothing.\<close>

theorem turn_budget_converges:
  assumes "0 < budget" "enforce_turn_output_budget omission (Some budget) preview evs = (evs', au)"
  shows "length evs' = length evs
    \<and> (\<forall>i < length evs. trimmed_once omission preview (evs ! i) (evs' ! i))
    \<and> (turn_size evs' \<le> budget \<or> (\<forall>i < length evs. trim_envelope omission preview (evs' ! i) = None))
    \<and> (\<forall>a. au = Some a \<longrightarrow> ta_chars_saved a = turn_size evs - turn_size evs' \<and> ta_total_chars_after a = turn_size evs')
    \<and> fst (enforce_turn_output_budget omission (Some budget) preview evs') = evs'"
proof -
  have 1: "length evs' = length evs \<and> (\<forall>i < length evs. trimmed_once omission preview (evs ! i) (evs' ! i))
    \<and> (turn_size evs' \<le> budget \<or> (\<forall>i < length evs. trim_envelope omission preview (evs' ! i) = None))
    \<and> (\<forall>a. au = Some a \<longrightarrow> ta_chars_saved a = turn_size evs - turn_size evs' \<and> ta_total_chars_after a = turn_size evs')"
    using assms(2) by (cases rule: enforce_cases) (use assms(1) in \<open>auto simp: trimmed_once_def\<close>)
  obtain evs'' au'' where e: "enforce_turn_output_budget omission (Some budget) preview evs' = (evs'', au'')" by fastforce
  then have "evs'' = evs'"
  proof (cases rule: enforce_cases)
    case (run a)
    then have "\<forall>i < length evs'. evs'' ! i = evs' ! i" using 1 by (auto simp: trimmed_once_def)
    then show ?thesis using run(4) by (simp add: nth_equalityI)
  qed
  with 1 e show ?thesis by simp
qed

lemma budget_keeps_rest [simp]:
  "gr_traces (apply_turn_output_budget omission b r) = gr_traces r"
  "gr_interrupt (apply_turn_output_budget omission b r) = gr_interrupt r"
  by (simp_all add: apply_turn_output_budget_def split: prod.split option.split)

lemma budget_keeps_length [simp]: "length (gr_envelopes (apply_turn_output_budget omission b r)) = length (gr_envelopes r)"
proof (cases b)
  case (Some n)
  obtain evs au where e: "enforce_turn_output_budget omission (Some n) 2000 (gr_envelopes r) = (evs, au)" by fastforce
  then have "length evs = length (gr_envelopes r)" by (cases rule: enforce_cases) auto
  with e Some show ?thesis by (auto simp: apply_turn_output_budget_def split: option.split)
qed (simp add: apply_turn_output_budget_def)

lemma budget_idle [simp]: "apply_turn_output_budget omission None r = r"
  by (simp add: apply_turn_output_budget_def)

definition long_envelope :: ToolResultEnvelope where
  "long_envelope =
     \<lparr>ev_call = \<lparr>tc_tool_name = ''grep'', tc_args = [], tc_tool_call_id = None, tc_metadata = []\<rparr>, ev_decision = TD_ALLOW,
      ev_guardrail_decision = GD_ALLOW, ev_summary = Some ''abcdefgh'', ev_structured_output = None, ev_truncated = False,
      ev_error = None, ev_interrupt = None, ev_metadata = []\<rparr>"

theorem turn_budget_converges_witness:
  "map envelope_output_size (fst (enforce_turn_output_budget (\<lambda>n. ''..'') (Some 14) 4 [long_envelope, long_envelope])) = [6, 8]
   \<and> fst (enforce_turn_output_budget (\<lambda>n. ''..'') (Some 14) 4
        (fst (enforce_turn_output_budget (\<lambda>n. ''..'') (Some 14) 4 [long_envelope, long_envelope])))
      = fst (enforce_turn_output_budget (\<lambda>n. ''..'') (Some 14) 4 [long_envelope, long_envelope])"
proof -
  let ?e = "enforce_turn_output_budget (\<lambda>n. ''..'') (Some 14) 4 [long_envelope, long_envelope]"
  have m: "map envelope_output_size (fst ?e) = [6, 8]" by code_simp
  have e: "?e = (fst ?e, snd ?e)" by simp
  from turn_budget_converges [OF _ e] have "fst (enforce_turn_output_budget (\<lambda>n. ''..'') (Some 14) 4 (fst ?e)) = fst ?e" by simp
  with m show ?thesis by blast
qed

end
