(* ===== verification/Call_Normalization.thy ===== *)
theory Call_Normalization
  imports Planned_Calls
begin

text \<open>
  Normalization of planned calls (\<open>tools/executor/normalization.py\<close>): synonyms of tool names, arguments
  written as JSON text, synonyms of argument names. \<open>json.loads\<close> is a parameter, \<open>None\<close> when it raises.
\<close>

section \<open>Arguments\<close>

definition tool_aliases :: "(string \<times> string) list" where
  "tool_aliases =
     [(''file_read'', ''read_file''), (''read'', ''read_file''), (''skill_search'', ''skill_tool''),
      (''web_search_tool'', ''web_search''), (''write'', ''file_write'')]"

definition url_arg_aliases :: "string list" where
  "url_arg_aliases = [''url'', ''uri'', ''href'']"

definition path_arg_aliases :: "string list" where
  "path_arg_aliases = [''path'', ''file_path'', ''filepath'']"

text \<open>The text of a string argument without a code fence.\<close>

definition fence :: string where
  "fence = replicate 3 (char_of (96 :: nat))"

definition unfenced :: "string \<Rightarrow> string" where
  "unfenced s =
     (let t = py_strip s
      in if prefix fence t
         then (let t1 = dropWhile py_space (dropWhile ident_char (drop 3 t));
                   t2 = (if suffix fence t1 then py_rstrip (take (length t1 - 3) t1) else t1)
               in py_strip t2)
         else t)"

definition json_container :: "(string \<Rightarrow> pyval option) \<Rightarrow> string \<Rightarrow> pyval option" where
  "json_container loads s =
     (let t = unfenced s
      in if prefix ''{'' t \<or> prefix ''['' t
         then (case loads t of
                 Some (PDict d) \<Rightarrow> Some (PDict d)
               | Some (PList xs) \<Rightarrow> Some (PList xs)
               | _ \<Rightarrow> None)
         else None)"

definition coerce_value :: "(string \<Rightarrow> pyval option) \<Rightarrow> pyval \<Rightarrow> pyval" where
  "coerce_value loads v =
     (case v of PStr s \<Rightarrow> (case json_container loads s of Some w \<Rightarrow> w | None \<Rightarrow> v) | _ \<Rightarrow> v)"

definition coerce_json_string_args :: "(string \<Rightarrow> pyval option) \<Rightarrow> pydict \<Rightarrow> pydict" where
  "coerce_json_string_args loads args = map (\<lambda>(k, v). (k, coerce_value loads v)) args"

text \<open>The first synonym with a text fills a missing argument.\<close>

definition fill_missing :: "string \<Rightarrow> string list \<Rightarrow> pydict \<Rightarrow> pydict" where
  "fill_missing target keys args =
     (if map_of args target \<noteq> None then args
      else (case List.find (\<lambda>k. nonblank (dict_get args k)) keys of
              Some k \<Rightarrow> dict_set target (dict_get args k) args
            | None \<Rightarrow> args))"

text \<open>The lines of a text; the pair of carriage return and line feed is split in two, which only adds an
  empty line.\<close>

definition splits_line :: "char \<Rightarrow> bool" where
  "splits_line c = (let n = of_char c :: nat in (10 \<le> n \<and> n \<le> 13) \<or> (28 \<le> n \<and> n \<le> 30) \<or> n = 133)"

fun text_lines :: "string \<Rightarrow> string list" where
  "text_lines [] = [[]]"
| "text_lines (c # s) =
     (if splits_line c then [] # text_lines s
      else (case text_lines s of [] \<Rightarrow> [[c]] | w # ws \<Rightarrow> (c # w) # ws))"

definition short_description :: "string \<Rightarrow> string" where
  "short_description s =
     (case filter (\<lambda>l. l \<noteq> []) (map py_strip (text_lines s)) of
        [] \<Rightarrow> ''Delegated research task''
      | l # _ \<Rightarrow> take 96 l)"

definition set_default :: "string \<Rightarrow> pyval \<Rightarrow> pydict \<Rightarrow> pydict" where
  "set_default k v args = (if map_of args k \<noteq> None then args else dict_set k v args)"

definition normalize_agent_tool_args :: "pydict \<Rightarrow> pydict" where
  "normalize_agent_tool_args args =
     (let a1 = fill_missing ''task'' [''instructions'', ''prompt'', ''query'', ''description''] args;
          description = (case dict_get a1 ''task'' of
                           PStr s \<Rightarrow> if py_strip s \<noteq> [] then short_description s else ''Delegated research task''
                         | _ \<Rightarrow> ''Delegated research task'');
          a2 = set_default ''description'' (PStr description) a1
      in set_default ''execution_mode'' (PStr ''sync'') (set_default ''task_type'' (PStr ''research'') a2))"

definition normalize_skill_args :: "(string \<Rightarrow> pyval option) \<Rightarrow> pydict \<Rightarrow> pydict" where
  "normalize_skill_args loads args =
     (case dict_get args ''trusted_roots'' of
        PStr s \<Rightarrow> (case loads s of Some (PList xs) \<Rightarrow> dict_set ''trusted_roots'' (PList xs) args | _ \<Rightarrow> args)
      | _ \<Rightarrow> args)"

text \<open>A string parsed if it parses.\<close>

definition parsed_or_same :: "(string \<Rightarrow> pyval option) \<Rightarrow> pyval \<Rightarrow> pyval" where
  "parsed_or_same loads v = (case v of PStr s \<Rightarrow> (case loads s of Some w \<Rightarrow> w | None \<Rightarrow> v) | _ \<Rightarrow> v)"

definition merge_flag :: "string \<Rightarrow> pyval" where
  "merge_flag s = PBool (py_lower (py_strip s) \<in> {''1'', ''true'', ''yes'', ''y''})"

definition flag_value :: "pyval \<Rightarrow> pyval" where
  "flag_value v = (case v of PStr s \<Rightarrow> merge_flag s | _ \<Rightarrow> PBool (truthy v))"

definition normalize_todo_write_args :: "(string \<Rightarrow> pyval option) \<Rightarrow> pydict \<Rightarrow> pydict" where
  "normalize_todo_write_args loads args =
     (let a1 = (if map_of args ''todos'' = None \<and> map_of args ''todo_items'' \<noteq> None
                then dict_set ''todos'' (parsed_or_same loads (dict_get args ''todo_items'')) args
                else (case dict_get args ''todos'' of
                        PStr s \<Rightarrow> dict_set ''todos'' (parsed_or_same loads (PStr s)) args
                      | _ \<Rightarrow> args))
      in if map_of a1 ''merge'' = None \<and> map_of a1 ''todo_merge'' \<noteq> None
         then dict_set ''merge'' (flag_value (dict_get a1 ''todo_merge'')) a1
         else (case dict_get a1 ''merge'' of PStr s \<Rightarrow> dict_set ''merge'' (merge_flag s) a1 | _ \<Rightarrow> a1))"

definition normalize_tool_args :: "(string \<Rightarrow> pyval option) \<Rightarrow> string \<Rightarrow> pydict \<Rightarrow> pydict" where
  "normalize_tool_args loads tool args =
     (let a1 = coerce_json_string_args loads args;
          a2 = (case dict_get args ''content'' of
                  PStr s \<Rightarrow> if tool = ''file_write'' then dict_set ''content'' (PStr s) a1 else a1
                | _ \<Rightarrow> a1);
          a3 = (if tool \<in> {''web_fetch'', ''source_read'', ''pdf_read'', ''browser_read''}
                then fill_missing ''url'' url_arg_aliases a2 else a2);
          a4 = (if tool \<in> {''artifact_read'', ''file_edit'', ''file_patch'', ''file_write'', ''glob_search'', ''grep_search'',
                           ''notebook_edit'', ''read_file''}
                then fill_missing ''path'' path_arg_aliases a3 else a3);
          a5 = (if tool = ''agent_tool'' then normalize_agent_tool_args a4 else a4);
          a6 = (if tool \<in> {''skill_tool'', ''skill_view''} then normalize_skill_args loads a5 else a5)
      in if tool = ''todo_write'' then normalize_todo_write_args loads a6 else a6)"

section \<open>Calls\<close>

definition normalize_tool_call_args :: "(string \<Rightarrow> pyval option) \<Rightarrow> ToolCall \<Rightarrow> ToolCall" where
  "normalize_tool_call_args loads c =
     (let args = normalize_tool_args loads (tc_tool_name c) (tc_args c)
      in if args = tc_args c then c
         else c\<lparr>tc_args := args, tc_metadata := dict_set ''tool_args_normalized'' (PBool True) (tc_metadata c)\<rparr>)"

definition tool_alias_shape_matches :: "pydict \<Rightarrow> string \<Rightarrow> bool" where
  "tool_alias_shape_matches args target =
     (let has_path = list_ex (\<lambda>k. nonblank (dict_get args k)) path_arg_aliases
      in if target = ''read_file'' then has_path
         else if target = ''file_write'' then has_path \<and> as_str (dict_get args ''content'') \<noteq> None
         else True)"

definition normalize_tool_alias :: "(string \<Rightarrow> pyval option) \<Rightarrow> string list \<Rightarrow> ToolCall \<Rightarrow> ToolCall" where
  "normalize_tool_alias loads available c =
     (case map_of tool_aliases (tc_tool_name c) of
        None \<Rightarrow> normalize_tool_call_args loads c
      | Some target \<Rightarrow>
          if target \<notin> set available \<or> \<not> tool_alias_shape_matches (tc_args c) target
          then normalize_tool_call_args loads c
          else c\<lparr>tc_tool_name := target, tc_args := normalize_tool_args loads target (tc_args c),
                 tc_metadata := dict_merge (tc_metadata c)
                   [(''original_tool_name'', PStr (tc_tool_name c)), (''tool_alias_normalized'', PBool True)]\<rparr>)"

section \<open>What normalization keeps\<close>

text \<open>How an argument may be rewritten: not at all, or from text to the value it spells.\<close>

definition rewritten :: "(string \<Rightarrow> pyval option) \<Rightarrow> string \<Rightarrow> pyval \<Rightarrow> pyval \<Rightarrow> bool" where
  "rewritten loads k v w =
     (w = v \<or> (\<exists>s. v = PStr s \<and> (json_container loads s = Some w \<or> loads s = Some w \<or> (k = ''merge'' \<and> w = merge_flag s))))"

text \<open>Every argument is still there, rewritten at most.\<close>

definition keeps_args :: "(string \<Rightarrow> pyval option) \<Rightarrow> pydict \<Rightarrow> pydict \<Rightarrow> bool" where
  "keeps_args loads a b = (\<forall>k v. map_of a k = Some v \<longrightarrow> (\<exists>w. map_of b k = Some w \<and> rewritten loads k v w))"

lemma rewritten_refl [simp]: "rewritten loads k v v"
  by (simp add: rewritten_def)

lemma keeps_args_refl [simp]: "keeps_args loads a a"
  by (simp add: keeps_args_def)

text \<open>A rewritten text that is still a text may be rewritten again.\<close>

definition settled :: "(string \<Rightarrow> pyval option) \<Rightarrow> pydict \<Rightarrow> pydict \<Rightarrow> bool" where
  "settled loads a b = (\<forall>k v. map_of a k = Some v \<longrightarrow> (\<exists>w. map_of b k = Some w \<and> (w = v \<or> \<not> (\<exists>s. w = PStr s) \<and> rewritten loads k v w)))"

lemma settledD:
  assumes "settled loads a b" "map_of a k = Some v"
  obtains w where "map_of b k = Some w" "w = v \<or> \<not> (\<exists>s. w = PStr s) \<and> rewritten loads k v w"
  using assms unfolding settled_def by blast

lemma rewritten_nontext: "rewritten loads k v w \<Longrightarrow> \<not> (\<exists>s. v = PStr s) \<Longrightarrow> w = v"
  by (auto simp: rewritten_def)

lemma settled_keeps: "settled loads a b \<Longrightarrow> keeps_args loads b c \<Longrightarrow> keeps_args loads a c"
  unfolding keeps_args_def by (metis settledD rewritten_nontext)

lemma settled_trans:
  assumes "settled loads a b" "settled loads b c"
  shows "settled loads a c"
  unfolding settled_def
proof (intro allI impI)
  fix k v assume v: "map_of a k = Some v"
  from settledD [OF assms(1) v] obtain w where
    w: "map_of b k = Some w" "w = v \<or> \<not> (\<exists>s. w = PStr s) \<and> rewritten loads k v w" .
  from settledD [OF assms(2) w(1)] obtain u where
    "map_of c k = Some u" "u = w \<or> \<not> (\<exists>s. u = PStr s) \<and> rewritten loads k w u" .
  with w(2) rewritten_nontext show "\<exists>u. map_of c k = Some u \<and> (u = v \<or> \<not> (\<exists>s. u = PStr s) \<and> rewritten loads k v u)"
    by blast
qed

lemma settled_new: "map_of a k = None \<Longrightarrow> settled loads a (dict_set k v a)"
  by (auto simp: settled_def)

lemma settled_refl [simp]: "settled loads a a"
  by (simp add: settled_def)

lemma settled_fill_missing: "settled loads a (fill_missing t ks a)"
  by (auto simp: fill_missing_def settled_new split: option.split)

lemma settled_set_default: "settled loads a (set_default k v a)"
  by (auto simp: set_default_def settled_new)

lemma map_of_coerce: "map_of (coerce_json_string_args loads a) k = map_option (coerce_value loads) (map_of a k)"
  by (induction a) (auto simp: coerce_json_string_args_def)

lemma settled_coerce: "settled loads a (coerce_json_string_args loads a)"
  by (auto simp: settled_def map_of_coerce coerce_value_def json_container_def rewritten_def Let_def
      split: pyval.splits option.splits if_splits)

lemma settled_content: "map_of a ''content'' = Some (PStr s) \<Longrightarrow> settled loads a b \<Longrightarrow> settled loads a (dict_set ''content'' (PStr s) b)"
  by (auto simp: settled_def)

lemma settled_agent: "settled loads a (normalize_agent_tool_args a)"
  unfolding normalize_agent_tool_args_def Let_def
  by (intro settled_trans [OF _ settled_set_default] settled_fill_missing)

lemma dict_get_PStr: "dict_get a k = PStr s \<longleftrightarrow> map_of a k = Some (PStr s)"
  by (auto simp: dict_get_or_def split: option.splits)

lemma settled_skill: "settled loads a (normalize_skill_args loads a)"
  by (auto simp: normalize_skill_args_def settled_def rewritten_def dict_get_PStr split: pyval.splits option.splits)

lemma keeps_parsed: "map_of a k = Some (PStr s) \<Longrightarrow> keeps_args loads a (dict_set k (parsed_or_same loads (PStr s)) a)"
  by (auto simp: keeps_args_def rewritten_def parsed_or_same_def split: option.splits)

lemma keeps_args_set:
  "keeps_args loads a b \<Longrightarrow> (\<And>v. map_of a k = Some v \<Longrightarrow> rewritten loads k v w) \<Longrightarrow> keeps_args loads a (dict_set k w b)"
  by (auto simp: keeps_args_def)

lemma keeps_merge:
  assumes "keeps_args loads a b" "map_of a ''merge'' = map_of b ''merge''"
  shows "keeps_args loads a (if map_of b ''merge'' = None \<and> map_of b ''todo_merge'' \<noteq> None
         then dict_set ''merge'' (flag_value (dict_get b ''todo_merge'')) b
         else (case dict_get b ''merge'' of PStr s \<Rightarrow> dict_set ''merge'' (merge_flag s) b | _ \<Rightarrow> b))"
proof -
  have "keeps_args loads a (dict_set ''merge'' x b)" if "map_of b ''merge'' = None" for x
    using assms that by (intro keeps_args_set) auto
  moreover have "keeps_args loads a (dict_set ''merge'' (merge_flag s) b)" if "map_of b ''merge'' = Some (PStr s)" for s
    using assms that by (intro keeps_args_set) (auto simp: rewritten_def)
  ultimately show ?thesis using assms(1) by (simp add: dict_get_PStr split: pyval.split)
qed

lemma keeps_todo: "keeps_args loads a (normalize_todo_write_args loads a)"
proof -
  let ?b = "if map_of a ''todos'' = None \<and> map_of a ''todo_items'' \<noteq> None
      then dict_set ''todos'' (parsed_or_same loads (dict_get a ''todo_items'')) a
      else (case dict_get a ''todos'' of PStr s \<Rightarrow> dict_set ''todos'' (parsed_or_same loads (PStr s)) a | _ \<Rightarrow> a)"
  have "keeps_args loads a ?b"
    using keeps_parsed [of a "''todos''"] by (auto simp: dict_get_PStr keeps_args_def split: pyval.split)
  moreover have "map_of a ''merge'' = map_of ?b ''merge''" by (auto split: pyval.split)
  ultimately show ?thesis unfolding normalize_todo_write_args_def Let_def by (rule keeps_merge)
qed

lemma keeps_settled: "settled loads a b \<Longrightarrow> keeps_args loads a b"
  using settled_keeps [OF _ keeps_args_refl] .

lemma keeps_normalize_tool_args: "keeps_args loads args (normalize_tool_args loads tool args)"
proof -
  let ?a2 = "case dict_get args ''content'' of
      PStr s \<Rightarrow> if tool = ''file_write'' then dict_set ''content'' (PStr s) (coerce_json_string_args loads args)
                else coerce_json_string_args loads args
    | _ \<Rightarrow> coerce_json_string_args loads args"
  have a2: "settled loads args ?a2"
    using settled_coerce settled_content by (auto simp: dict_get_PStr split: pyval.split)
  have opt: "settled loads args (if b then f x else x)" if "settled loads args x" "\<And>y. settled loads y (f y)" for b f x
    using that settled_trans by auto
  show ?thesis
    unfolding normalize_tool_args_def Let_def
    by (rule if_split [THEN iffD2])
      (intro conjI impI settled_keeps [OF _ keeps_todo] keeps_settled opt a2 settled_fill_missing settled_agent settled_skill)
qed

text \<open>Normalization keeps the identifier of a call and every argument, rewriting a text at most to the value
  it spells, and changes the name of the tool only by the table of synonyms and to a registered tool.\<close>

lemma normalization_conservative:
  "tc_tool_call_id (normalize_tool_alias loads available c) = tc_tool_call_id c
   \<and> keeps_args loads (tc_args c) (tc_args (normalize_tool_alias loads available c))
   \<and> (tc_tool_name (normalize_tool_alias loads available c) = tc_tool_name c
      \<or> (map_of tool_aliases (tc_tool_name c) = Some (tc_tool_name (normalize_tool_alias loads available c))
         \<and> tc_tool_name (normalize_tool_alias loads available c) \<in> set available))"
proof -
  have "keeps_args loads (tc_args c) (tc_args (normalize_tool_call_args loads c))"
    using keeps_normalize_tool_args [of loads "tc_args c" "tc_tool_name c"]
    by (simp add: normalize_tool_call_args_def Let_def)
  moreover have "tc_tool_name (normalize_tool_call_args loads c) = tc_tool_name c"
    "tc_tool_call_id (normalize_tool_call_args loads c) = tc_tool_call_id c"
    by (simp_all add: normalize_tool_call_args_def Let_def)
  ultimately show ?thesis
    using keeps_normalize_tool_args [of loads "tc_args c"]
    by (auto simp: normalize_tool_alias_def split: option.split)
qed

end
