(* ===== verification/Governed_Executor.thy ===== *)
theory Governed_Executor
  imports Turn_Budget Call_Normalization "HOL-Library.Multiset"
begin

text \<open>
  The governed tool executor (\<open>tools/executor/governed.py\<close>): hooks around calls, the decision about a call,
  the checks before dispatch, serial calls and parallel batches, the loop over the units of a batch. A run
  of the executor threads the result, the strategy-grant ledger and the list of calls whose handler was
  awaited. The tasks of a parallel batch run under \<open>asyncio.gather\<close>: the order in which they evaluate the policy and
  the order in which they leave the gate and the guardrails are given by a schedule, which is arbitrary. They share
  the ledger when it exists already and otherwise each has one of its own, which is what the copied contexts of tasks
  give. The semaphore of a batch only excludes some of the schedules.
\<close>

section \<open>Tool hooks\<close>

text \<open>The chain of hooks: the value so far and the context collected.\<close>

fun hook_chain ::
  "('a \<Rightarrow> pydict \<Rightarrow> 'a tool_hook_reply) list \<Rightarrow> ('a \<Rightarrow> pydict) \<Rightarrow> 'a \<Rightarrow> pydict \<Rightarrow> 'a \<times> pydict" where
  "hook_chain [] base x ctx = (x, ctx)"
| "hook_chain (h # hs) base x ctx =
     (case h x (dict_merge ctx (base x)) of
        Tool_Hook_Value y \<Rightarrow> hook_chain hs base y ctx
      | Tool_Hook_Response y stop extra \<Rightarrow>
          (let x1 = (case y of Some z \<Rightarrow> z | None \<Rightarrow> x); ctx1 = dict_merge ctx extra
           in if stop then (x1, ctx1) else hook_chain hs base x1 ctx1)
      | _ \<Rightarrow> hook_chain hs base x ctx)"

definition apply_pre_hooks :: "'h exec_env \<Rightarrow> ToolCall \<Rightarrow> ToolCall" where
  "apply_pre_hooks env c =
     fst (hook_chain (xe_pre_hooks env)
       (\<lambda>c. [(''tool_name'', PStr (tc_tool_name c)), (''args'', PDict (tc_args c))]) c [])"

definition apply_post_hooks :: "'h exec_env \<Rightarrow> ToolResultEnvelope \<Rightarrow> ToolResultEnvelope" where
  "apply_post_hooks env ev =
     (case hook_chain (xe_post_hooks env)
             (\<lambda>e. [(''tool_name'', PStr (tc_tool_name (ev_call e))), (''decision'', PStr (tool_decision_value (ev_decision e))),
                   (''guardrail_decision'', PStr (guardrail_value (ev_guardrail_decision e)))]) ev [] of
        (e, ctx) \<Rightarrow>
          if ctx \<noteq> [] then e\<lparr>ev_metadata := dict_set ''hook_chain_context'' (PDict ctx) (ev_metadata e)\<rparr> else e)"

definition postprocess_new_envelopes ::
  "'h exec_env \<Rightarrow> nat \<Rightarrow> ToolPolicyOutcome \<Rightarrow> GovernedExecutionResult \<Rightarrow> GovernedExecutionResult" where
  "postprocess_new_envelopes env before pol r =
     (let reserved = extract_reserved_metadata (to_metadata pol)
      in r\<lparr>gr_envelopes := take before (gr_envelopes r)
             @ map (\<lambda>e. let e1 = (if xe_post_hooks env \<noteq> [] then apply_post_hooks env e else e)
                        in if reserved \<noteq> [] then e1\<lparr>ev_metadata := dict_merge (ev_metadata e1) reserved\<rparr> else e1)
                 (drop before (gr_envelopes r))\<rparr>)"

section \<open>Checks before dispatch\<close>

definition python_keywords :: "string list" where
  "python_keywords =
     [''False'', ''None'', ''True'', ''and'', ''as'', ''assert'', ''async'', ''await'', ''break'', ''class'', ''continue'', ''def'',
      ''del'', ''elif'', ''else'', ''except'', ''finally'', ''for'', ''from'', ''global'', ''if'', ''import'', ''in'', ''is'',
      ''lambda'', ''nonlocal'', ''not'', ''or'', ''pass'', ''raise'', ''return'', ''try'', ''while'', ''with'', ''yield'']"

text \<open>\<open>[A-Za-z_][A-Za-z0-9_]*\<close> and no keyword: what a manifest for all profiles requires of a name.\<close>

definition identifier_name :: "string \<Rightarrow> bool" where
  "identifier_name s =
     (s \<noteq> [] \<and> list_all (\<lambda>c. ident_char c \<and> c \<noteq> CHR ''-'') s \<and> \<not> is_digit (hd s) \<and> s \<notin> set python_keywords)"

text \<open>The manifest of an unregistered tool; \<open>None\<close> is the \<open>ValidationError\<close> of its validators.\<close>

definition safe_manifest :: "string \<Rightarrow> ToolManifest option" where
  "safe_manifest name =
     (if identifier_name name
      then Some \<lparr>tm_name = name, tm_risk = R_HIGH, tm_side_effect = SE_EXTERNAL_ACTION, tm_approval_mode = AM_ALWAYS,
                 tm_output_char_budget = Some 4000, tm_idempotent = True, tm_concurrency_safe = None,
                 tm_interrupt_behavior = None, tm_should_defer = False, tm_always_load = False,
                 tm_max_result_size_chars = None, tm_success_field = None, tm_args_schema = None, tm_aliases = [],
                 tm_execution_requirement = None\<rparr>
      else None)"

definition status_of :: "ExecutionCapabilitySnapshot \<Rightarrow> CapabilityName \<Rightarrow> CapabilityState" where
  "status_of sn cap = (case map_of (sn_capabilities sn) cap of Some st \<Rightarrow> cs_state st | None \<Rightarrow> CapabilityState.UNKNOWN)"

text \<open>\<open>check_manifest_requirement\<close>: the capabilities that block the call.\<close>

definition unmet_capabilities :: "ExecutionCapabilitySnapshot option \<Rightarrow> ToolManifest \<Rightarrow> CapabilityName list" where
  "unmet_capabilities snapshot m =
     (case (snapshot, tm_execution_requirement m) of
        (Some sn, Some rq) \<Rightarrow> if er_hard rq then filter (\<lambda>cap. status_of sn cap \<noteq> SUPPORTED) (er_required rq) else []
      | _ \<Rightarrow> [])"

definition plan_content_forbidden_terms :: "'h exec_env \<Rightarrow> ToolPolicyInput \<Rightarrow> string list" where
  "plan_content_forbidden_terms env pol =
     (let raw0 = dict_get (ti_metadata pol) ''plan_content_forbidden_terms'';
          raw1 = (case raw0 of PDict d \<Rightarrow> dict_get d ''terms'' | v \<Rightarrow> v);
          items = (case raw1 of PStr s \<Rightarrow> [PStr s] | PList xs \<Rightarrow> xs | _ \<Rightarrow> []);
          term_of = (\<lambda>x. py_strip (str_or env (case x of PDict d \<Rightarrow> dict_get d ''term'' | v \<Rightarrow> v) []))
      in unique_texts (filter (\<lambda>t. t \<noteq> []) (map term_of items)))"

definition effective_tool_names :: "'h exec_env \<Rightarrow> ToolPolicyInput \<Rightarrow> string list" where
  "effective_tool_names env pol =
     (let names = list_names (xe_registry env);
          allowed = (case dict_get (ti_metadata pol) ''plan_refinement_required'' of
                       PDict d \<Rightarrow>
                         (case map_of d ''previous_allowed_tools'' of
                            None \<Rightarrow> ti_allowed_tools pol
                          | Some (PList xs) \<Rightarrow> Some (map (py_str env) xs)
                          | Some _ \<Rightarrow> None)
                     | _ \<Rightarrow> ti_allowed_tools pol)
      in case allowed of
           None \<Rightarrow> names
         | Some xs \<Rightarrow> unique_texts (filter (\<lambda>n. n \<noteq> [] \<and> n \<in> set names) (map py_strip xs)))"

section \<open>One call\<close>

record exec_state =
  xs_result :: GovernedExecutionResult
  xs_grant :: grant_var
  xs_handled :: "(nat \<times> ToolCall) list"

definition call_manifest :: "'h exec_env \<Rightarrow> ToolCall \<Rightarrow> ToolManifest option" where
  "call_manifest env c =
     (case registry_get (xe_registry env) (tc_tool_name c) of
        Some t \<Rightarrow> Some (rt_manifest t)
      | None \<Rightarrow> safe_manifest (tc_tool_name c))"

definition allowed_spec :: "'h exec_env \<Rightarrow> RunInput \<Rightarrow> ToolCall \<Rightarrow> nat \<Rightarrow> ToolManifest \<Rightarrow> GuardrailDecision \<Rightarrow> 'h AllowedSpec" where
  "allowed_spec env ri c index m ig =
     \<lparr>as_call = c, as_index = index, as_manifest = m, as_registered = registry_get (xe_registry env) (tc_tool_name c),
      as_input_guard = ig, as_run_metadata = run_metadata ri index,
      as_forbidden_terms = plan_content_forbidden_terms env (ri_tool_policy ri),
      as_available_tools = list_names (xe_registry env), as_effective_tools = effective_tool_names env (ri_tool_policy ri)\<rparr>"

text \<open>The part after the decision.\<close>

definition dispatch_call ::
  "'h exec_env \<Rightarrow> RunInput \<Rightarrow> ToolCall \<Rightarrow> nat \<Rightarrow> ToolManifest \<Rightarrow> ToolPolicyOutcome \<Rightarrow> exec_state \<Rightarrow> bool \<times> exec_state" where
  "dispatch_call env ri c index m pol st =
     (let r = xs_result st in
      if to_decision pol = TD_DENY
      then (False, st\<lparr>xs_result := append_blocked_call index c m
              \<lparr>bs_reason = xe_render env (to_reason pol), bs_code = ''policy_denied'', bs_stage = None,
               bs_structured_output = management_tool_denial_remediation (ri_tool_policy ri) (tc_tool_name c),
               bs_reserved_metadata = extract_reserved_metadata (to_metadata pol)\<rparr> r\<rparr>)
      else if to_decision pol = TD_INTERRUPT
      then (True, st\<lparr>xs_result := record_interrupt_and_trace (xe_render env) ri c index m pol r\<rparr>)
      else
        (let ig = xe_on_input env c index in
         if gu_decision ig = GD_BLOCK
         then (False, st\<lparr>xs_result := append_blocked_call index c m
                 (block (text_or (gu_reason ig) ''guardrail blocked tool input'') ''guardrail_blocked'' (Some ''input'')) r\<rparr>)
         else if unmet_capabilities (xe_snapshot env) m \<noteq> []
         then (False, st\<lparr>xs_result := append_blocked_call index c m
                 (block ''unmet capabilities'' ''capability_unmet'' (Some ''capability'')) r\<rparr>)
         else
           (case execute_allowed_path env (allowed_spec env ri c index m (gu_decision ig)) r of
              (awaited, stop, r1) \<Rightarrow>
                (stop, st\<lparr>xs_result := postprocess_new_envelopes env (length (gr_envelopes r)) pol r1,
                          xs_handled := xs_handled st @ (if awaited then [(index, c)] else [])\<rparr>))))"

definition execute_one_call ::
  "'h exec_env \<Rightarrow> RunInput \<Rightarrow> (ToolGateContext \<Rightarrow> gate_reply) option \<Rightarrow> int \<Rightarrow> ToolCall \<Rightarrow> nat \<Rightarrow> exec_state
     \<Rightarrow> (string + bool) \<times> exec_state" where
  "execute_one_call env ri gate current c index st =
     (case call_manifest env c of
        None \<Rightarrow> (Inl ''ValidationError'', st)
      | Some m \<Rightarrow>
          (case resolve_call_policy (xe_gate env) ri gate c m index current (xs_grant st) of
             (Inl e, v) \<Rightarrow> (Inl e, st\<lparr>xs_grant := v\<rparr>)
           | (Inr pol, v) \<Rightarrow>
               (case dispatch_call env ri c index m pol (st\<lparr>xs_grant := v\<rparr>) of (stop, st1) \<Rightarrow> (Inr stop, st1))))"

section \<open>Batches and units\<close>

text \<open>The moments of a parallel batch that other tasks can observe, by the position of the call: when its task
  evaluates the static policy, and when its decision is settled, so that it awaits its handler, appends a blocked result
  or raises. Any order of either arises from some schedule.\<close>

record schedule =
  sd_evaluate :: "nat \<Rightarrow> nat"
  sd_settle :: "nat \<Rightarrow> nat"

text \<open>The tasks in the order in which they evaluate the policy, each with its own result.\<close>

fun run_tasks ::
  "'h exec_env \<Rightarrow> RunInput \<Rightarrow> (ToolGateContext \<Rightarrow> gate_reply) option \<Rightarrow> int \<Rightarrow> (nat \<times> ToolCall) list \<Rightarrow> grant_var
     \<Rightarrow> (nat \<times> (string + bool) \<times> exec_state) list \<times> grant_var" where
  "run_tasks env ri gate current [] v = ([], v)"
| "run_tasks env ri gate current ((i, c) # ts) v =
     (case execute_one_call env ri gate current c i \<lparr>xs_result = empty_result, xs_grant = v, xs_handled = []\<rparr> of
        (out, st) \<Rightarrow>
          (case run_tasks env ri gate current ts (if v = None then None else xs_grant st) of
             (rs, v1) \<Rightarrow> ((i, out, st) # rs, v1)))"

definition sub_result :: "nat \<times> (string + bool) \<times> exec_state \<Rightarrow> string + GovernedExecutionResult" where
  "sub_result t = (case t of (i, out, st) \<Rightarrow> (case out of Inl e \<Rightarrow> Inl e | Inr stop \<Rightarrow> Inr (xs_result st)))"

text \<open>The sub-results by position, the sub-results in the order of settling, the ledger, and the calls whose handler was
  awaited. An exception of one task leaves the others running: what they await afterwards is in the list too.\<close>

definition run_batch ::
  "'h exec_env \<Rightarrow> schedule \<Rightarrow> RunInput \<Rightarrow> (ToolGateContext \<Rightarrow> gate_reply) option \<Rightarrow> int \<Rightarrow> ToolCall list \<Rightarrow> nat \<Rightarrow> grant_var
     \<Rightarrow> (string + GovernedExecutionResult) list \<times> (string + GovernedExecutionResult) list \<times> grant_var \<times> (nat \<times> ToolCall) list" where
  "run_batch env sd ri gate current cs index v =
     (case run_tasks env ri gate current (sort_key (\<lambda>t. sd_evaluate sd (fst t)) (enumerate index cs)) v of
        (rs, v1) \<Rightarrow>
          (let timeline = sort_key (\<lambda>t. sd_settle sd (fst t)) rs
           in (map sub_result (sort_key fst rs), map sub_result timeline, v1, concat (map (\<lambda>(i, out, st). xs_handled st) timeline))))"

definition merge_sub :: "GovernedExecutionResult \<Rightarrow> GovernedExecutionResult \<Rightarrow> GovernedExecutionResult" where
  "merge_sub r s =
     \<lparr>gr_traces = gr_traces r @ gr_traces s, gr_envelopes = gr_envelopes r @ gr_envelopes s,
      gr_interrupt = (case gr_interrupt r of Some i \<Rightarrow> Some i | None \<Rightarrow> gr_interrupt s),
      gr_turn_audit = gr_turn_audit r\<rparr>"

definition first_error :: "('e + 'a) list \<Rightarrow> 'e option" where
  "first_error xs = (case filter isl xs of [] \<Rightarrow> None | x # _ \<Rightarrow> Some (projl x))"

text \<open>The exception that leaves the batch is the first in time. The loop stops after a batch that set the interrupt of the
  result.\<close>

definition execute_parallel_batch ::
  "'h exec_env \<Rightarrow> schedule \<Rightarrow> RunInput \<Rightarrow> (ToolGateContext \<Rightarrow> gate_reply) option \<Rightarrow> int \<Rightarrow> ToolCall list \<Rightarrow> nat \<Rightarrow> exec_state
     \<Rightarrow> (string + bool) \<times> exec_state" where
  "execute_parallel_batch env sd ri gate current calls index st =
     (case run_batch env sd ri gate current calls index (xs_grant st) of
        (subs, timeline, v, handled) \<Rightarrow>
          (let st1 = st\<lparr>xs_grant := v, xs_handled := xs_handled st @ handled\<rparr>
           in case first_error timeline of
                Some e \<Rightarrow> (Inl e, st1)
              | None \<Rightarrow>
                  (let r = fold (\<lambda>s r. merge_sub r s) (map projr subs) (xs_result st)
                   in (Inr (gr_interrupt (xs_result st) = None \<and> gr_interrupt r \<noteq> None), st1\<lparr>xs_result := r\<rparr>))))"

fun execute_units_stage ::
  "'h exec_env \<Rightarrow> schedule \<Rightarrow> RunInput \<Rightarrow> (ToolGateContext \<Rightarrow> gate_reply) option \<Rightarrow> int \<Rightarrow> ToolCall ExecutionUnit list \<Rightarrow> nat \<Rightarrow> exec_state
     \<Rightarrow> string option \<times> exec_state" where
  "execute_units_stage env sd ri gate current [] index st = (None, st)"
| "execute_units_stage env sd ri gate current (SerialCall c # us) index st =
     (case execute_one_call env ri gate current c index st of
        (Inl e, st1) \<Rightarrow> (Some e, st1)
      | (Inr stop, st1) \<Rightarrow> if stop then (None, st1) else execute_units_stage env sd ri gate current us (Suc index) st1)"
| "execute_units_stage env sd ri gate current (ParallelBatch cs # us) index st =
     (case execute_parallel_batch env sd ri gate current cs index st of
        (Inl e, st1) \<Rightarrow> (Some e, st1)
      | (Inr stop, st1) \<Rightarrow>
          if stop then (None, st1) else execute_units_stage env sd ri gate current us (index + length cs) st1)"

definition lookup_manifest :: "'h exec_env \<Rightarrow> string \<Rightarrow> ToolManifest option" where
  "lookup_manifest env name = map_option rt_manifest (registry_get (xe_registry env) name)"

definition manifest_lookup_view :: "'h exec_env \<Rightarrow> string \<Rightarrow> manifest_view" where
  "manifest_lookup_view env name = (case lookup_manifest env name of None \<Rightarrow> No_Manifest | Some m \<Rightarrow> Manifest m)"

definition apply_policy_hint_stage :: "'h exec_env \<Rightarrow> RunInput \<Rightarrow> ToolCall list \<Rightarrow> int \<Rightarrow> RunInput" where
  "apply_policy_hint_stage env ri calls current =
     (if calls = [] then ri
      else ri\<lparr>ri_tool_policy := tool_policy_with_planned_tool_hint (xe_str env) (ri_tool_policy ri) calls (lookup_manifest env) current\<rparr>)"

text \<open>\<open>execute\<close> on the calls extracted from the response; \<open>Some\<close> is an exception that leaves it.\<close>

definition prepared_calls :: "'h exec_env \<Rightarrow> ToolCall list \<Rightarrow> ToolCall list" where
  "prepared_calls env planned = map (\<lambda>c. apply_pre_hooks env (normalize_tool_alias (xe_loads env) (list_names (xe_registry env)) c)) planned"

definition execute ::
  "'h exec_env \<Rightarrow> schedule \<Rightarrow> RunInput \<Rightarrow> (ToolGateContext \<Rightarrow> gate_reply) option \<Rightarrow> int \<Rightarrow> ToolCall list \<Rightarrow> grant_var
     \<Rightarrow> string option \<times> exec_state" where
  "execute env sd ri gate current planned v =
     (let calls = prepared_calls env planned;
          ri1 = apply_policy_hint_stage env ri calls current;
          start = \<lparr>xs_result = empty_result, xs_grant = v, xs_handled = []\<rparr>
      in case partition_concurrent_calls (is_call_concurrency_safe (manifest_lookup_view env)) None calls of
           Inl e \<Rightarrow> (Some e, start)
         | Inr units \<Rightarrow>
             (case execute_units_stage env sd ri1 gate current units 1 start of
                (Some e, st) \<Rightarrow> (Some e, st)
              | (None, st) \<Rightarrow> (None, st\<lparr>xs_result := apply_turn_output_budget (sp_omission (xe_spill env)) (xe_turn_budget env) (xs_result st)\<rparr>)))"

section \<open>When a handler runs\<close>

text \<open>All checks a call passes before its handler is awaited; \<open>v\<close> is the ledger at that moment.\<close>

definition handler_permitted ::
  "'h exec_env \<Rightarrow> RunInput \<Rightarrow> (ToolGateContext \<Rightarrow> gate_reply) option \<Rightarrow> int \<Rightarrow> ToolCall \<Rightarrow> nat \<Rightarrow> grant_var \<Rightarrow> bool" where
  "handler_permitted env ri gate current c index v =
     (\<exists>t pol v'. registry_get (xe_registry env) (tc_tool_name c) = Some t
        \<and> evaluate_tool_policy (ge_policy (xe_gate env)) (ri_tool_policy ri) (rt_manifest t) c (current + int index - 1) v = (Inr pol, v')
        \<and> statically_permitted (xe_gate env) ri c pol
        \<and> gate_permits gate (gate_context ri c (rt_manifest t) index (current + int index - 1)) c
        \<and> list_all (\<lambda>h. passive_reply (h c (rt_manifest t) TD_ALLOW
              (to_reason (gated_policy gate (gate_context ri c (rt_manifest t) index (current + int index - 1)) c
                 (lifted_policy (xe_gate env) ri c pol))))) (ge_hooks (xe_gate env))
        \<and> gu_decision (xe_on_input env c index) \<noteq> GD_BLOCK \<and> gu_decision (xe_on_args env c index) \<noteq> GD_BLOCK
        \<and> unmet_capabilities (xe_snapshot env) (rt_manifest t) = []
        \<and> (\<forall>check. xe_aborted env = Some check \<longrightarrow> \<not> check index))"

lemma allowed_path_awaits:
  assumes "fst (execute_allowed_path env sp r)"
  shows "as_registered sp \<noteq> None" "gu_decision (xe_on_args env (as_call sp) (as_index sp)) \<noteq> GD_BLOCK"
    "\<forall>check. xe_aborted env = Some check \<longrightarrow> \<not> check (as_index sp)"
  using assms
  by (auto simp: execute_allowed_path_def allowed_precheck_def Let_def split: option.splits if_splits)

lemma dispatch_handled:
  "xs_handled (snd (dispatch_call env ri c index m pol st)) = xs_handled st
   \<or> (xs_handled (snd (dispatch_call env ri c index m pol st)) = xs_handled st @ [(index, c)]
      \<and> to_decision pol = TD_ALLOW \<and> gu_decision (xe_on_input env c index) \<noteq> GD_BLOCK
      \<and> unmet_capabilities (xe_snapshot env) m = []
      \<and> fst (execute_allowed_path env (allowed_spec env ri c index m (gu_decision (xe_on_input env c index))) (xs_result st)))"
  by (cases "to_decision pol") (auto simp: dispatch_call_def Let_def split: prod.splits)

lemma one_call_handled:
  assumes "execute_one_call env ri gate current c index st = (out, st')"
  shows "xs_handled st' = xs_handled st
    \<or> (xs_handled st' = xs_handled st @ [(index, c)] \<and> handler_permitted env ri gate current c index (xs_grant st))"
proof (cases "call_manifest env c")
  case None
  with assms show ?thesis by (auto simp: execute_one_call_def)
next
  case (Some m)
  show ?thesis
  proof (cases "resolve_call_policy (xe_gate env) ri gate c m index current (xs_grant st)")
    case (Pair o' v)
    show ?thesis
    proof (cases o')
      case (Inl e)
      with assms Some Pair show ?thesis by (auto simp: execute_one_call_def)
    next
      case (Inr pol)
      let ?st = "st\<lparr>xs_grant := v\<rparr>"
      have st': "st' = snd (dispatch_call env ri c index m pol ?st)"
        using assms Some Pair Inr by (simp add: execute_one_call_def split: prod.splits)
      from dispatch_handled [of env ri c index m pol ?st] show ?thesis
      proof (elim disjE conjE)
        assume h: "xs_handled (snd (dispatch_call env ri c index m pol ?st)) = xs_handled ?st @ [(index, c)]"
          and allow: "to_decision pol = TD_ALLOW" and ig: "gu_decision (xe_on_input env c index) \<noteq> GD_BLOCK"
          and cap: "unmet_capabilities (xe_snapshot env) m = []"
          and path: "fst (execute_allowed_path env (allowed_spec env ri c index m (gu_decision (xe_on_input env c index))) (xs_result ?st))"
        note a = allowed_path_awaits [OF path]
        obtain t where t: "registry_get (xe_registry env) (tc_tool_name c) = Some t"
          using a(1) by (auto simp: allowed_spec_def)
        then have m: "m = rt_manifest t" using Some by (simp add: call_manifest_def)
        from resolve_allow_iff [OF Pair [unfolded Inr]] allow t m ig cap a(2,3)
        have "handler_permitted env ri gate current c index (xs_grant st)"
          unfolding handler_permitted_def by (auto simp: allowed_spec_def)
        then show ?thesis using h st' by simp
      qed (use st' in simp)
    qed
  qed
qed

text \<open>What the evaluation of one call leaves of the ledger, and of several calls, given by their positions, one after the
  other.\<close>

definition ledger_step :: "'h exec_env \<Rightarrow> RunInput \<Rightarrow> int \<Rightarrow> ToolCall \<Rightarrow> nat \<Rightarrow> grant_var \<Rightarrow> grant_var" where
  "ledger_step env ri current c i v = (case call_manifest env c of
       None \<Rightarrow> v
     | Some m \<Rightarrow> snd (evaluate_tool_policy (ge_policy (xe_gate env)) (ri_tool_policy ri) m c (current + int i - 1) v))"

definition ledger_after :: "'h exec_env \<Rightarrow> RunInput \<Rightarrow> int \<Rightarrow> (nat \<Rightarrow> ToolCall) \<Rightarrow> nat list \<Rightarrow> grant_var \<Rightarrow> grant_var" where
  "ledger_after env ri current call positions v = fold (\<lambda>i. ledger_step env ri current (call i) i) positions v"

lemma one_call_ledger:
  "xs_grant (snd (execute_one_call env ri gate current c i st)) = ledger_step env ri current c i (xs_grant st)"
proof -
  have "xs_grant (snd (dispatch_call env ri c i m pol st)) = xs_grant st" for m pol st
    by (simp add: dispatch_call_def Let_def split: prod.split)
  then show ?thesis
    by (auto simp: execute_one_call_def ledger_step_def resolve_call_policy_def Let_def split: option.splits prod.splits sum.splits)
      (metis snd_conv exec_state.select_convs(2) exec_state.update_convs(2) exec_state.surjective)+
qed

text \<open>A handler may run under the ledger that some of the other calls left, each of them evaluated once.\<close>

definition permitted_at ::
  "'h exec_env \<Rightarrow> RunInput \<Rightarrow> (ToolGateContext \<Rightarrow> gate_reply) option \<Rightarrow> int \<Rightarrow> (nat \<Rightarrow> ToolCall) \<Rightarrow> nat set \<Rightarrow> grant_var \<Rightarrow> nat \<Rightarrow> bool" where
  "permitted_at env ri gate current call I v i \<longleftrightarrow>
     (\<exists>pre. distinct pre \<and> i \<notin> set pre \<and> set pre \<subseteq> I
        \<and> handler_permitted env ri gate current (call i) i (ledger_after env ri current call pre v))"

lemma permitted_at_mono: "permitted_at env ri gate current call I v i \<Longrightarrow> I \<subseteq> J \<Longrightarrow> permitted_at env ri gate current call J v i"
  unfolding permitted_at_def by blast

lemma permitted_at_now: "handler_permitted env ri gate current (call i) i v \<Longrightarrow> permitted_at env ri gate current call I v i"
  unfolding permitted_at_def by (intro exI [of _ "[]"]) (simp add: ledger_after_def)

lemma permitted_at_later:
  assumes "permitted_at env ri gate current call J (ledger_after env ri current call pre v) i" "distinct pre" "set pre \<subseteq> I" "i \<notin> I" "I \<inter> J = {}"
  shows "permitted_at env ri gate current call (I \<union> J) v i"
proof -
  obtain p where p: "distinct p" "i \<notin> set p" "set p \<subseteq> J"
    "handler_permitted env ri gate current (call i) i (ledger_after env ri current call (pre @ p) v)"
    using assms(1) by (auto simp: permitted_at_def ledger_after_def)
  have "distinct (pre @ p)" "i \<notin> set (pre @ p)" "set (pre @ p) \<subseteq> I \<union> J" using assms p by auto
  with p(4) show ?thesis unfolding permitted_at_def by blast
qed

text \<open>The calls awaited at positions of \<open>I\<close>: each at most once, in the order \<open>R\<close>, each permitted under the ledger left by
  calls that may come before it in that order; the last argument is the ledger afterwards.\<close>

definition awaited_ok ::
  "'h exec_env \<Rightarrow> RunInput \<Rightarrow> (ToolGateContext \<Rightarrow> gate_reply) option \<Rightarrow> int \<Rightarrow> (nat \<Rightarrow> ToolCall) \<Rightarrow> (nat \<Rightarrow> nat \<Rightarrow> bool)
     \<Rightarrow> nat set \<Rightarrow> grant_var \<Rightarrow> (nat \<times> ToolCall) list \<Rightarrow> grant_var \<Rightarrow> bool" where
  "awaited_ok env ri gate current call R I v new v' \<longleftrightarrow>
     distinct (map fst new) \<and> sorted_wrt (\<lambda>i j. i < j \<or> R i j) (map fst new) \<and> new = map (\<lambda>i. (i, call i)) (map fst new)
     \<and> (\<exists>pre. distinct pre \<and> set pre \<subseteq> I \<and> v' = ledger_after env ri current call pre v)
     \<and> (\<forall>i \<in> set (map fst new). i \<in> I \<and> permitted_at env ri gate current call {j \<in> I. j < i \<or> R j i} v i)"

lemma awaited_okD:
  assumes "awaited_ok env ri gate current call R I v new v'" "(i, c) \<in> set new"
  shows "i \<in> I" "c = call i" "permitted_at env ri gate current call {j \<in> I. j < i \<or> R j i} v i"
proof -
  have "i \<in> set (map fst new)" using assms(2) by force
  then show "i \<in> I" "permitted_at env ri gate current call {j \<in> I. j < i \<or> R j i} v i" using assms(1) unfolding awaited_ok_def by blast+
  have "(i, c) \<in> set (map (\<lambda>i. (i, call i)) (map fst new))" using assms unfolding awaited_ok_def by metis
  then show "c = call i" by auto
qed

lemma awaited_ok_Nil: "awaited_ok env ri gate current call R I v [] v"
  by (auto simp: awaited_ok_def ledger_after_def intro!: exI [of _ "[]"])

lemma awaited_ok_mono:
  assumes "awaited_ok env ri gate current call R I v new v'" "\<And>i j. R i j \<Longrightarrow> S i j" "I \<subseteq> J"
  shows "awaited_ok env ri gate current call S J v new v'"
proof -
  have "sorted_wrt (\<lambda>i j. i < j \<or> S i j) (map fst new)"
  proof (rule sorted_wrt_mono_rel [where P = "\<lambda>i j. i < j \<or> R i j"])
    show "sorted_wrt (\<lambda>i j. i < j \<or> R i j) (map fst new)" using assms(1) unfolding awaited_ok_def by blast
  qed (use assms(2) in blast)
  moreover have "\<exists>pre. distinct pre \<and> set pre \<subseteq> J \<and> v' = ledger_after env ri current call pre v"
    using assms(1,3) unfolding awaited_ok_def by blast
  moreover have "i \<in> J \<and> permitted_at env ri gate current call {j \<in> J. j < i \<or> S j i} v i" if "i \<in> set (map fst new)" for i
  proof -
    have "i \<in> I" "permitted_at env ri gate current call {j \<in> I. j < i \<or> R j i} v i" using assms(1) that unfolding awaited_ok_def by blast+
    moreover have "{j \<in> I. j < i \<or> R j i} \<subseteq> {j \<in> J. j < i \<or> S j i}" using assms(2,3) by blast
    ultimately show ?thesis using permitted_at_mono assms(3) by blast
  qed
  ultimately show ?thesis using assms(1) unfolding awaited_ok_def by blast
qed

lemma awaited_ok_append:
  assumes a: "awaited_ok env ri gate current call R I v new v1" and b: "awaited_ok env ri gate current call R J v1 new' v2"
    and IJ: "\<And>i j. i \<in> I \<Longrightarrow> j \<in> J \<Longrightarrow> i < j"
  shows "awaited_ok env ri gate current call R (I \<union> J) v (new @ new') v2"
proof -
  have dis: "I \<inter> J = {}" using IJ by blast
  have pos: "set (map fst new) \<subseteq> I" "set (map fst new') \<subseteq> J" using a b unfolding awaited_ok_def by blast+
  obtain pre where pre: "distinct pre" "set pre \<subseteq> I" "v1 = ledger_after env ri current call pre v" using a unfolding awaited_ok_def by blast
  obtain pre' where pre': "distinct pre'" "set pre' \<subseteq> J" "v2 = ledger_after env ri current call pre' v1" using b unfolding awaited_ok_def by blast
  have "distinct (map fst (new @ new'))" using a b pos dis unfolding awaited_ok_def map_append distinct_append by blast
  moreover have "sorted_wrt (\<lambda>i j. i < j \<or> R i j) (map fst (new @ new'))"
    using a b pos IJ unfolding awaited_ok_def map_append sorted_wrt_append by blast
  moreover have "map (\<lambda>i. (i, call i)) (map fst new) = new" "map (\<lambda>i. (i, call i)) (map fst new') = new'"
    using a b unfolding awaited_ok_def by simp_all
  then have "new @ new' = map (\<lambda>i. (i, call i)) (map fst (new @ new'))" by (simp only: map_append)
  moreover have "\<exists>p. distinct p \<and> set p \<subseteq> I \<union> J \<and> v2 = ledger_after env ri current call p v"
    using pre pre' dis by (intro exI [of _ "pre @ pre'"]) (auto simp: ledger_after_def)
  moreover have "i \<in> I \<union> J \<and> permitted_at env ri gate current call {j \<in> I \<union> J. j < i \<or> R j i} v i" if "i \<in> set (map fst (new @ new'))" for i
  proof (cases "i \<in> set (map fst new)")
    case True
    then have "i \<in> I" "permitted_at env ri gate current call {j \<in> I. j < i \<or> R j i} v i" using a unfolding awaited_ok_def by blast+
    then show ?thesis using permitted_at_mono [of env ri gate current call _ v i "{j \<in> I \<union> J. j < i \<or> R j i}"] by blast
  next
    case False
    let ?J = "{j \<in> J. j < i \<or> R j i}"
    from False have "i \<in> set (map fst new')" using that by simp
    then have i: "i \<in> J" "permitted_at env ri gate current call ?J v1 i" using b unfolding awaited_ok_def by blast+
    have "permitted_at env ri gate current call (I \<union> ?J) v i"
      by (rule permitted_at_later [where pre = pre]) (use i pre dis in auto)
    moreover have "I \<union> ?J \<subseteq> {j \<in> I \<union> J. j < i \<or> R j i}" using IJ i(1) by blast
    ultimately show ?thesis using permitted_at_mono i(1) by blast
  qed
  ultimately show ?thesis unfolding awaited_ok_def by blast
qed

lemma one_call_awaited:
  assumes "execute_one_call env ri gate current (call i) i st = (out, st')"
  shows "\<exists>new. xs_handled st' = xs_handled st @ new \<and> awaited_ok env ri gate current call R {i} (xs_grant st) new (xs_grant st')"
proof -
  have "xs_grant st' = ledger_after env ri current call [i] (xs_grant st)"
    using one_call_ledger [of env ri gate current "call i" i st] assms by (simp add: ledger_after_def)
  then have "\<exists>pre. distinct pre \<and> set pre \<subseteq> {i} \<and> xs_grant st' = ledger_after env ri current call pre (xs_grant st)"
    by (intro exI [of _ "[i]"]) simp
  then have "awaited_ok env ri gate current call R {i} (xs_grant st) new (xs_grant st')"
    if "new = [] \<or> new = [(i, call i)] \<and> handler_permitted env ri gate current (call i) i (xs_grant st)" for new
    using that permitted_at_now [of env ri gate current call i "xs_grant st"] by (auto simp: awaited_ok_def)
  then show ?thesis using one_call_handled [OF assms] by auto
qed

text \<open>Each task sees the ledger of the tasks that evaluated the policy before it, or its own when there was none.\<close>

lemma run_tasks_positions: "map fst (fst (run_tasks env ri gate current ts v)) = map fst ts"
proof (induction ts arbitrary: v)
  case (Cons t ts)
  then show ?case by (cases t) (simp add: split_beta)
qed simp

lemma run_tasks_ran:
  "(i, out, st) \<in> set (fst (run_tasks env ri gate current ts v)) \<Longrightarrow>
     \<exists>c v0. (i, c) \<in> set ts \<and> execute_one_call env ri gate current c i \<lparr>xs_result = empty_result, xs_grant = v0, xs_handled = []\<rparr> = (out, st)"
proof (induction env ri gate current ts v rule: run_tasks.induct)
  case (2 env ri gate current j c ts v)
  obtain o1 s1 where one: "execute_one_call env ri gate current c j \<lparr>xs_result = empty_result, xs_grant = v, xs_handled = []\<rparr> = (o1, s1)"
    by fastforce
  with 2 show ?case by (fastforce simp: split_beta)
qed simp

definition task_ok ::
  "'h exec_env \<Rightarrow> RunInput \<Rightarrow> (ToolGateContext \<Rightarrow> gate_reply) option \<Rightarrow> int \<Rightarrow> (nat \<Rightarrow> ToolCall) \<Rightarrow> nat set \<Rightarrow> grant_var
     \<Rightarrow> nat \<times> (string + bool) \<times> exec_state \<Rightarrow> bool" where
  "task_ok env ri gate current call I v t \<longleftrightarrow> xs_handled (snd (snd t)) = []
     \<or> xs_handled (snd (snd t)) = [(fst t, call (fst t))] \<and> permitted_at env ri gate current call I v (fst t)"

lemma run_tasks_awaited:
  assumes "distinct (map fst ts)" "\<And>i c. (i, c) \<in> set ts \<Longrightarrow> c = call i"
  shows "(\<exists>pre. distinct pre \<and> set pre \<subseteq> set (map fst ts) \<and> snd (run_tasks env ri gate current ts v) = ledger_after env ri current call pre v)
    \<and> (\<forall>t \<in> set (fst (run_tasks env ri gate current ts v)). task_ok env ri gate current call (set (map fst ts)) v t)"
  using assms
proof (induction ts arbitrary: v)
  case Nil
  show ?case by (auto simp: ledger_after_def intro!: exI [of _ "[]"])
next
  case (Cons t ts)
  obtain i c where t: "t = (i, c)" by (cases t)
  have c: "c = call i" using Cons.prems(2) t by simp
  let ?st = "\<lparr>xs_result = empty_result, xs_grant = v, xs_handled = []\<rparr>"
  obtain out st where one: "execute_one_call env ri gate current c i ?st = (out, st)" by fastforce
  define v1 where "v1 = (if v = None then None else xs_grant st)"
  let ?run = "run_tasks env ri gate current ts v1" and ?I = "set (map fst ts)"
  have run: "run_tasks env ri gate current (t # ts) v = ((i, out, st) # fst ?run, snd ?run)" using one t by (simp add: split_beta v1_def)
  have "xs_grant st = ledger_after env ri current call [i] v"
    using one_call_ledger [of env ri gate current c i ?st] one c by (simp add: ledger_after_def)
  then obtain h where h: "v1 = ledger_after env ri current call h v" "set h \<subseteq> {i}" "distinct h"
    by (cases "v = None") (auto simp: v1_def ledger_after_def intro: that [of "[]"] that [of "[i]"])
  have i: "i \<notin> ?I" "distinct (map fst ts)" using Cons.prems(1) t by simp_all
  have "\<And>i c. (i, c) \<in> set ts \<Longrightarrow> c = call i" using Cons.prems(2) by simp
  note ih = Cons.IH [OF i(2) this, of v1]
  obtain p where p: "distinct p" "set p \<subseteq> ?I" "snd ?run = ledger_after env ri current call p v1" using ih by blast
  have "\<exists>pre. distinct pre \<and> set pre \<subseteq> set (map fst (t # ts)) \<and> snd ?run = ledger_after env ri current call pre v"
    using p h i t by (intro exI [of _ "h @ p"]) (auto simp: ledger_after_def)
  moreover have "task_ok env ri gate current call (set (map fst (t # ts))) v (i, out, st)"
    using one_call_handled [OF one] c permitted_at_now [of env ri gate current call i v] by (auto simp: task_ok_def)
  moreover have "task_ok env ri gate current call (set (map fst (t # ts))) v x" if x: "x \<in> set (fst ?run)" for x
  proof -
    have "fst x \<in> ?I" using x run_tasks_positions [of env ri gate current ts v1] by (metis image_eqI list.set_map)
    then have "fst x \<notin> {i}" using i(1) by auto
    with permitted_at_later [of env ri gate current call ?I h v "fst x" "{i}"] h i(1)
    have "permitted_at env ri gate current call ?I v1 (fst x) \<Longrightarrow> permitted_at env ri gate current call (set (map fst (t # ts))) v (fst x)"
      by (simp add: t)
    then show ?thesis using ih x unfolding task_ok_def by blast
  qed
  ultimately show ?case unfolding run by simp
qed

lemma awaited_once:
  assumes "\<And>t. t \<in> set q \<Longrightarrow> task_ok env ri gate current call I v t" "distinct (map fst q)"
  shows "distinct (map fst (concat (map (\<lambda>t. xs_handled (snd (snd t))) q)))
    \<and> concat (map (\<lambda>t. xs_handled (snd (snd t))) q) = map (\<lambda>i. (i, call i)) (map fst (concat (map (\<lambda>t. xs_handled (snd (snd t))) q)))
    \<and> (\<forall>i \<in> set (map fst (concat (map (\<lambda>t. xs_handled (snd (snd t))) q))). i \<in> set (map fst q) \<and> permitted_at env ri gate current call I v i)"
  using assms
proof (induction q)
  case (Cons t q)
  define hs where "hs = concat (map (\<lambda>t. xs_handled (snd (snd t))) q)"
  have ih: "distinct (map fst hs)" "hs = map (\<lambda>i. (i, call i)) (map fst hs)"
    "\<forall>i \<in> set (map fst hs). i \<in> set (map fst q) \<and> permitted_at env ri gate current call I v i"
    using Cons unfolding hs_def by auto
  have t: "concat (map (\<lambda>t. xs_handled (snd (snd t))) (t # q)) = xs_handled (snd (snd t)) @ hs" by (simp add: hs_def)
  have n: "fst t \<notin> set (map fst q)" using Cons.prems(2) by simp
  have "task_ok env ri gate current call I v t" using Cons.prems(1) by simp
  then show ?case unfolding t task_ok_def
  proof (elim disjE conjE)
    assume "xs_handled (snd (snd t)) = []"
    then show "distinct (map fst (xs_handled (snd (snd t)) @ hs))
      \<and> xs_handled (snd (snd t)) @ hs = map (\<lambda>i. (i, call i)) (map fst (xs_handled (snd (snd t)) @ hs))
      \<and> (\<forall>i \<in> set (map fst (xs_handled (snd (snd t)) @ hs)). i \<in> set (map fst (t # q)) \<and> permitted_at env ri gate current call I v i)"
      using ih by simp
  next
    assume h: "xs_handled (snd (snd t)) = [(fst t, call (fst t))]" and "permitted_at env ri gate current call I v (fst t)"
    moreover have "fst t \<notin> set (map fst hs)" using ih(3) n by blast
    ultimately show "distinct (map fst (xs_handled (snd (snd t)) @ hs))
      \<and> xs_handled (snd (snd t)) @ hs = map (\<lambda>i. (i, call i)) (map fst (xs_handled (snd (snd t)) @ hs))
      \<and> (\<forall>i \<in> set (map fst (xs_handled (snd (snd t)) @ hs)). i \<in> set (map fst (t # q)) \<and> permitted_at env ri gate current call I v i)"
      using ih by simp
  qed
qed simp

text \<open>The tasks of a batch cover its positions once, in whatever order they are taken.\<close>

lemma batch_tasks:
  assumes "ts = sort_key (\<lambda>t. sd_evaluate sd (fst t)) (enumerate index cs)"
  shows "distinct (map fst ts)" "set (map fst ts) = {index..<index + length cs}" "(i, c) \<in> set ts \<Longrightarrow> c = cs ! (i - index)"
proof -
  have "mset (map fst ts) = mset (map fst (enumerate index cs))" unfolding assms by (simp only: mset_map mset_sort)
  then have "mset (map fst ts) = mset [index..<index + length cs]" by (simp only: map_fst_enumerate)
  from mset_eq_imp_distinct_iff [OF this] mset_eq_setD [OF this]
  show "distinct (map fst ts)" "set (map fst ts) = {index..<index + length cs}" by simp_all
  show "(i, c) \<in> set ts \<Longrightarrow> c = cs ! (i - index)" by (auto simp: assms in_set_enumerate_eq)
qed

lemma run_batch_awaited:
  assumes call: "\<And>j. j < length cs \<Longrightarrow> call (index + j) = cs ! j" and R: "\<And>i j. {i, j} \<subseteq> {index..<index + length cs} \<Longrightarrow> R i j"
    and b: "run_batch env sd ri gate current cs index v = (subs, timeline, v', handled)"
  shows "awaited_ok env ri gate current call R {index..<index + length cs} v handled v'"
proof -
  let ?I = "{index..<index + length cs}"
  define ts where "ts = sort_key (\<lambda>t. sd_evaluate sd (fst t)) (enumerate index cs)"
  obtain rs where rs: "run_tasks env ri gate current ts v = (rs, v')"
    and h: "handled = concat (map (\<lambda>(i, out, st). xs_handled st) (sort_key (\<lambda>t. sd_settle sd (fst t)) rs))"
    using b by (auto simp: run_batch_def ts_def Let_def split: prod.splits)
  define q where "q = sort_key (\<lambda>t. sd_settle sd (fst t)) rs"
  have h': "handled = concat (map (\<lambda>t. xs_handled (snd (snd t))) q)" by (simp add: h q_def case_prod_unfold)
  note ts = batch_tasks [OF ts_def]
  have c: "c = call i" if "(i, c) \<in> set ts" for i c
  proof -
    have "i \<in> ?I" using ts(2) that by (metis fst_conv image_eqI list.set_map)
    then have "i - index < length cs" "index + (i - index) = i" by auto
    then show ?thesis using ts(3) [OF that] call [of "i - index"] by simp
  qed
  note t = run_tasks_awaited [OF ts(1) c, where env = env and ri = ri and gate = gate and current = current and v = v]
  have rs': "fst (run_tasks env ri gate current ts v) = rs" "snd (run_tasks env ri gate current ts v) = v'" using rs by simp_all
  have "map fst rs = map fst ts" using run_tasks_positions [of env ri gate current ts v] rs' by simp
  moreover have "mset (map fst q) = mset (map fst rs)" by (simp add: q_def)
  ultimately have q: "distinct (map fst q)" "set (map fst q) = ?I" using ts(1,2) by (metis mset_eq_imp_distinct_iff, metis mset_eq_setD)
  have "set q = set rs" by (simp add: q_def)
  then have "x \<in> set q \<Longrightarrow> task_ok env ri gate current call ?I v x" for x using t ts(2) rs' by auto
  from awaited_once [OF this q(1), folded h'] have once: "distinct (map fst handled)" "handled = map (\<lambda>i. (i, call i)) (map fst handled)"
    "\<forall>i \<in> set (map fst handled). i \<in> ?I \<and> permitted_at env ri gate current call ?I v i" unfolding q(2) by blast+
  moreover have "sorted_wrt (\<lambda>i j. i < j \<or> R i j) (map fst handled)"
    unfolding sorted_wrt_iff_nth_less
  proof (intro allI impI)
    fix a b assume "a < b" "b < length (map fst handled)"
    then have "map fst handled ! a \<in> ?I" "map fst handled ! b \<in> ?I" using once(3) nth_mem by (meson order_less_trans)+
    then show "map fst handled ! a < map fst handled ! b \<or> R (map fst handled ! a) (map fst handled ! b)" using R by simp
  qed
  moreover have "\<exists>pre. distinct pre \<and> set pre \<subseteq> ?I \<and> v' = ledger_after env ri current call pre v" using t ts(2) rs' by simp
  moreover have "permitted_at env ri gate current call {j \<in> ?I. j < i \<or> R j i} v i" if "i \<in> set (map fst handled)" for i
  proof -
    have "i \<in> ?I" "permitted_at env ri gate current call ?I v i" using once(3) that by blast+
    moreover have "?I \<subseteq> {j \<in> ?I. j < i \<or> R j i}" using R calculation(1) by blast
    ultimately show ?thesis using permitted_at_mono by blast
  qed
  ultimately show ?thesis unfolding awaited_ok_def by blast
qed

text \<open>Positions that belong to the same parallel batch of a partition that starts at a position.\<close>

fun same_batch :: "ToolCall ExecutionUnit list \<Rightarrow> nat \<Rightarrow> nat \<Rightarrow> nat \<Rightarrow> bool" where
  "same_batch [] b i j = False"
| "same_batch (SerialCall c # us) b i j = same_batch us (Suc b) i j"
| "same_batch (ParallelBatch cs # us) b i j = ({i, j} \<subseteq> {b..<b + length cs} \<or> same_batch us (b + length cs) i j)"

lemma units_awaited:
  assumes "\<And>j. j < length (concat (map unit_items us)) \<Longrightarrow> call (index + j) = concat (map unit_items us) ! j"
  shows "\<exists>new. xs_handled (snd (execute_units_stage env sd ri gate current us index st)) = xs_handled st @ new
     \<and> awaited_ok env ri gate current call (same_batch us index) {index..<index + length (concat (map unit_items us))} (xs_grant st) new
         (xs_grant (snd (execute_units_stage env sd ri gate current us index st)))"
  using assms
proof (induction env sd ri gate current us index st rule: execute_units_stage.induct)
  case (1 env sd ri gate current index st)
  then show ?case by (simp add: awaited_ok_Nil)
next
  case (2 env sd ri gate current c us index st)
  let ?n = "length (concat (map unit_items us))"
  have c: "c = call index" using 2(2) [of 0] by simp
  obtain out st1 where one: "execute_one_call env ri gate current c index st = (out, st1)" by fastforce
  from one_call_awaited [of env ri gate current call index st out st1 "same_batch us (Suc index)"] one c obtain new where
    new: "xs_handled st1 = xs_handled st @ new" "awaited_ok env ri gate current call (same_batch us (Suc index)) {index} (xs_grant st) new (xs_grant st1)"
    by auto
  show ?case
  proof (cases "out = Inr False")
    case True
    have "call (Suc index + j) = concat (map unit_items us) ! j" if "j < ?n" for j using 2(2) [of "Suc j"] that by simp
    with 2(1) [OF one [symmetric] True] obtain new' where
      n': "xs_handled (snd (execute_units_stage env sd ri gate current us (Suc index) st1)) = xs_handled st1 @ new'"
      "awaited_ok env ri gate current call (same_batch us (Suc index)) {Suc index..<Suc index + ?n} (xs_grant st1) new'
         (xs_grant (snd (execute_units_stage env sd ri gate current us (Suc index) st1)))" by auto
    have eq: "{index} \<union> {Suc index..<Suc index + ?n} = {index..<index + Suc ?n}" by auto
    show ?thesis using n' new True one awaited_ok_append [OF new(2) n'(2)] unfolding eq by (intro exI [of _ "new @ new'"]) simp
  next
    case False
    with new one show ?thesis
      by (cases out) (auto intro!: exI [of _ new] awaited_ok_mono [OF new(2)])
  qed
next
  case (3 env sd ri gate current cs us index st)
  let ?n = "length (concat (map unit_items us))" and ?R = "same_batch (ParallelBatch cs # us) index"
  obtain out st1 where bat: "execute_parallel_batch env sd ri gate current cs index st = (out, st1)" by fastforce
  obtain subs timeline v' handled where b: "run_batch env sd ri gate current cs index (xs_grant st) = (subs, timeline, v', handled)"
    by (metis surj_pair)
  have st1: "xs_handled st1 = xs_handled st @ handled" "xs_grant st1 = v'"
    using bat b by (auto simp: execute_parallel_batch_def Let_def split: option.splits)
  have call: "call (index + j) = cs ! j" if "j < length cs" for j using 3(2) [of j] that by (simp add: nth_append)
  have ok: "awaited_ok env ri gate current call ?R {index..<index + length cs} (xs_grant st) handled v'"
    by (rule run_batch_awaited [OF call _ b]) simp_all
  show ?case
  proof (cases "out = Inr False")
    case True
    have "call (index + length cs + j) = concat (map unit_items us) ! j" if "j < ?n" for j
      using 3(2) [of "length cs + j"] that by (simp add: nth_append add.assoc)
    with 3(1) [OF bat [symmetric] True] obtain new' where
      n': "xs_handled (snd (execute_units_stage env sd ri gate current us (index + length cs) st1)) = xs_handled st1 @ new'"
      "awaited_ok env ri gate current call (same_batch us (index + length cs)) {index + length cs..<index + length cs + ?n} (xs_grant st1) new'
         (xs_grant (snd (execute_units_stage env sd ri gate current us (index + length cs) st1)))" by auto
    have n2: "awaited_ok env ri gate current call ?R {index + length cs..<index + length cs + ?n} v' new'
         (xs_grant (snd (execute_units_stage env sd ri gate current us (index + length cs) st1)))"
      using awaited_ok_mono [OF n'(2), of ?R] st1 by simp
    have eq: "{index..<index + length cs} \<union> {index + length cs..<index + length cs + ?n} = {index..<index + (length cs + ?n)}" by auto
    have "awaited_ok env ri gate current call ?R {index..<index + (length cs + ?n)} (xs_grant st) (handled @ new')
         (xs_grant (snd (execute_units_stage env sd ri gate current us (index + length cs) st1)))"
      unfolding eq [symmetric] by (rule awaited_ok_append [OF ok n2]) simp
    then show ?thesis using n' st1 True bat by (intro exI [of _ "handled @ new'"]) (simp del: same_batch.simps)
  next
    case False
    have "awaited_ok env ri gate current call ?R {index..<index + (length cs + ?n)} (xs_grant st) handled (xs_grant st1)"
      unfolding st1 by (rule awaited_ok_mono [OF ok]) auto
    with False st1 bat show ?thesis by (cases out) (auto simp del: same_batch.simps)
  qed
qed

lemma partition_items:
  assumes "partition_concurrent_calls safe None calls = Inr units"
  shows "concat (map unit_items units) = calls"
  using assms partition_loop_ok [of safe "[]" None "[]" calls] by (auto simp: partition_concurrent_calls_def)

text \<open>The units into which the executor groups the calls.\<close>

definition planned_units :: "'h exec_env \<Rightarrow> ToolCall list \<Rightarrow> ToolCall ExecutionUnit list" where
  "planned_units env planned = projr (partition_concurrent_calls (is_call_concurrency_safe (manifest_lookup_view env)) None (prepared_calls env planned))"

lemma planned_units_eq: "partition_concurrent_calls (is_call_concurrency_safe (manifest_lookup_view env)) None (prepared_calls env planned)
    = Inr (planned_units env planned)"
  by (simp add: partition_concurrent_calls_def planned_units_def)

lemma execute_awaited:
  assumes "execute env sd ri gate current planned v = (e, st)"
  shows "awaited_ok env (apply_policy_hint_stage env ri (prepared_calls env planned) current) gate current
    (\<lambda>i. prepared_calls env planned ! (i - 1)) (same_batch (planned_units env planned) 1) {1..<1 + length planned} v (xs_handled st) (xs_grant st)"
proof -
  let ?ri = "apply_policy_hint_stage env ri (prepared_calls env planned) current"
  let ?start = "\<lparr>xs_result = empty_result, xs_grant = v, xs_handled = []\<rparr>"
  let ?run = "execute_units_stage env sd ?ri gate current (planned_units env planned) 1 ?start"
  have st: "xs_handled st = xs_handled (snd ?run)" "xs_grant st = xs_grant (snd ?run)"
    using assms planned_units_eq [of env planned] by (auto simp: execute_def Let_def split: prod.splits option.splits)
  have len: "length (prepared_calls env planned) = length planned" by (simp add: prepared_calls_def)
  show ?thesis
    using units_awaited [of "planned_units env planned" "\<lambda>i. prepared_calls env planned ! (i - 1)" 1 env sd ?ri gate current ?start]
    unfolding st partition_items [OF planned_units_eq] len by auto
qed


section \<open>Limits of the policy\<close>

lemma outside_limits_denied:
  assumes "\<not> within_limits pol c calls" "ti_mode pol = TP_ALLOW_TOOLS"
  shows "\<exists>out. evaluate_tool_policy ep pol m c calls v = (Inr out, v) \<and> to_decision out = TD_DENY"
  using assms unfolding within_limits_def evaluate_tool_policy_def by (auto simp: not_less split: option.splits)

lemma permitted_within_limits:
  assumes "handler_permitted env ri gate current c index v" "ti_mode (ri_tool_policy ri) = TP_ALLOW_TOOLS"
  shows "within_limits (ri_tool_policy ri) c (current + int index - 1)"
proof (rule ccontr)
  assume out: "\<not> ?thesis"
  obtain t pol v' where "registry_get (xe_registry env) (tc_tool_name c) = Some t"
    "evaluate_tool_policy (ge_policy (xe_gate env)) (ri_tool_policy ri) (rt_manifest t) c (current + int index - 1) v = (Inr pol, v')"
    "statically_permitted (xe_gate env) ri c pol" using assms(1) unfolding handler_permitted_def by blast
  with outside_limits_denied [OF out assms(2), of "ge_policy (xe_gate env)" "rt_manifest t" v] show False
    by (auto simp: statically_permitted_def)
qed

lemma hint_stage_limits [simp]:
  "within_limits (ri_tool_policy (apply_policy_hint_stage env ri calls current)) c n = within_limits (ri_tool_policy ri) c n"
  "ti_mode (ri_tool_policy (apply_policy_hint_stage env ri calls current)) = ti_mode (ri_tool_policy ri)"
  by (simp_all add: apply_policy_hint_stage_def hint_keeps_limits)

text \<open>C14. In the mode that allows tools (in the mode that asks for approval of every call neither the lists nor the budget
  are consulted), every call whose handler runs is spelled by a name on the allow list, if there is one, and by none on
  the deny list, and one execution awaits at most as many handlers as the call budget leaves, in whatever order
  parallel calls proceed. The lists are compared with the name as the call spells it: an alias of a denied tool is a
  name of its own.\<close>

theorem handlers_within_limits:
  assumes "execute env sd ri gate current planned v = (e, st)" "ti_mode (ri_tool_policy ri) = TP_ALLOW_TOOLS"
  shows "(\<forall>(i, c) \<in> set (xs_handled st).
            (\<forall>xs. ti_allowed_tools (ri_tool_policy ri) = Some xs \<longrightarrow> tc_tool_name c \<in> set xs)
          \<and> (\<forall>xs. ti_denied_tools (ri_tool_policy ri) = Some xs \<longrightarrow> tc_tool_name c \<notin> set xs))
    \<and> (\<forall>n. ti_max_tool_calls (ri_tool_policy ri) = Some n \<longrightarrow> length (xs_handled st) \<le> nat (n - current))"
proof -
  note ok = execute_awaited [OF assms(1)]
  have at: "1 \<le> i \<and> within_limits (ri_tool_policy ri) c (current + int i - 1)" if "(i, c) \<in> set (xs_handled st)" for i c
    using awaited_okD [OF ok that] permitted_within_limits assms(2) by (fastforce simp: permitted_at_def)
  have "length (xs_handled st) \<le> nat (n - current)" if n: "ti_max_tool_calls (ri_tool_policy ri) = Some n" for n
  proof -
    have "set (map fst (xs_handled st)) \<subseteq> {1..<Suc (nat (n - current))}"
      using at n by (fastforce simp: within_limits_def)
    moreover have "length (map fst (xs_handled st)) = card (set (map fst (xs_handled st)))"
      using ok by (simp add: awaited_ok_def distinct_card del: set_map length_map)
    ultimately show ?thesis using card_mono [of "{1..<Suc (nat (n - current))}"] by (metis card_atLeastLessThan diff_Suc_1 finite_atLeastLessThan length_map)
  qed
  then show ?thesis using at by (fastforce simp: within_limits_def)
qed

section \<open>The permission gate in the executor\<close>

text \<open>C20. With the permission policy as the gate, in any mode but \<open>YOLO\<close> and with no rule that covers the
  call, the handler of a call whose command has \<open>sudo\<close> or \<open>eval\<close> as an isolated word (not inside another word) runs only after an operator
  approved the call.\<close>

theorem privileged_command_needs_approval:
  assumes run: "execute env sd ri (Some (permission_tool_gate render search pp)) current planned v = (e, st)"
    and mode: "pp_mode pp \<noteq> YOLO" and call: "(i, c) \<in> set (xs_handled st)"
    and rules: "decide_rules search (pp_rules pp) (tc_tool_name c) (tc_args c) = None"
    and cmd: "command_text (tc_args c) = Some (pre @ w @ post)" "w \<in> {''sudo'', ''eval''}" "isolated pre post"
  shows "approved_by_interrupt c"
proof (rule ccontr)
  assume na: "\<not> approved_by_interrupt c"
  obtain out where out: "decide search pp (tc_tool_name c) (tc_args c) = Some out" "po_decision out \<noteq> P_ALLOW"
    using privileged_word_held [OF rules cmd mode] by blast
  obtain v0 where "handler_permitted env (apply_policy_hint_stage env ri (prepared_calls env planned) current)
      (Some (permission_tool_gate render search pp)) current c i v0"
    using awaited_okD [OF execute_awaited [OF run] call] by (auto simp: permitted_at_def)
  then obtain ctx where ctx: "gate_permits (Some (permission_tool_gate render search pp)) ctx c"
      "gc_tool_name ctx = tc_tool_name c" "gc_args ctx = tc_args c"
    by (auto simp: handler_permitted_def gate_context_def)
  from permission_gate_permits [OF ctx(1) na] ctx(2,3) out show False by simp
qed

section \<open>One result per call\<close>

text \<open>Calls that always get a result: all but an exit from plan mode that was not approved.\<close>

definition answered :: "ToolCall \<Rightarrow> bool" where
  "answered c = (\<not> is_exit_plan_mode_tool (tc_tool_name c) \<or> truthy (dict_get (tc_metadata c) ''approved_interrupt_id''))"

text \<open>Post-hooks may replace an envelope; \<open>keep\<close> says that they leave the call in it.\<close>

definition hooks_keep_call :: "'h exec_env \<Rightarrow> bool" where
  "hooks_keep_call env = (\<forall>ev. ev_call (apply_post_hooks env ev) = ev_call ev)"

definition grows :: "bool \<Rightarrow> ToolCall list \<Rightarrow> nat \<Rightarrow> GovernedExecutionResult \<Rightarrow> GovernedExecutionResult \<Rightarrow> bool" where
  "grows keep cs index r r' =
     (\<exists>evs trs. gr_envelopes r' = gr_envelopes r @ evs \<and> gr_traces r' = gr_traces r @ trs \<and> length evs = length cs
        \<and> (keep \<longrightarrow> map ev_call evs = cs)
        \<and> list_all2 (\<lambda>(i, c) tr. trace_of c i tr) (enumerate index cs) trs)"

lemma grows_Nil [simp]: "grows keep [] index r r"
  by (simp add: grows_def)

lemma grows_trans: "grows keep xs index r r1 \<Longrightarrow> grows keep ys (index + length xs) r1 r2 \<Longrightarrow> grows keep (xs @ ys) index r r2"
  unfolding grows_def by (force simp: enumerate_append_eq list_all2_appendI)

lemma one_result_grows: "one_result c index r r' \<Longrightarrow> grows keep [c] index r r'"
  unfolding one_result_def grows_def by force

lemma postprocess_grows:
  assumes "grows (hooks_keep_call env) [c] index r r1"
  shows "grows (hooks_keep_call env) [c] index r (postprocess_new_envelopes env (length (gr_envelopes r)) pol r1)"
  using assms by (auto simp: grows_def postprocess_new_envelopes_def Let_def hooks_keep_call_def)

lemma postprocess_interrupt [simp]: "gr_interrupt (postprocess_new_envelopes env n pol r) = gr_interrupt r"
  by (simp add: postprocess_new_envelopes_def Let_def)

lemma blocked_grows: "grows keep [c] index r (append_blocked_call index c m b r)"
  unfolding append_blocked_call_def
  by (intro one_result_grows append_result_one) (simp_all add: blocked_envelope_def envelope_ok_def)

lemma blocked_interrupt [simp]: "gr_interrupt (append_blocked_call index c m b r) = gr_interrupt r"
  by (simp add: append_blocked_call_def append_result_def)

lemma interrupt_grows: "to_decision pol = TD_INTERRUPT \<Longrightarrow> grows keep [c] index r (record_interrupt_and_trace render ri c index m pol r)"
  unfolding record_interrupt_and_trace_def Let_def
  by (intro one_result_grows append_result_one) (simp_all add: envelope_ok_def)

lemma interrupt_set [simp]: "\<exists>i. gr_interrupt (record_interrupt_and_trace render ri c index m pol r) = Some i"
  by (simp add: record_interrupt_and_trace_def Let_def append_result_def)

lemma allowed_path_grows:
  assumes "answered (as_call sp)" "execute_allowed_path env sp r = (awaited, stop, r')"
  shows "grows keep [as_call sp] (as_index sp) r r'" and "stop \<longrightarrow> gr_interrupt r' \<noteq> None"
    and "\<not> stop \<and> gr_interrupt r = None \<longrightarrow> gr_interrupt r' = None"
proof -
  have step: "\<exists>step. step_ok sp step \<and> stop_ok step \<and> step \<noteq> Nothing_Appended \<and> perform sp step r = (stop, r')"
  proof (cases "allowed_precheck env sp (xe_on_args env (as_call sp) (as_index sp))")
    case (Some b)
    have "stop_ok (blocked_step sp False b)" by (simp add: blocked_step_def)
    with Some assms(2) show ?thesis
      by (intro exI [of _ "blocked_step sp False b"]) (simp add: execute_allowed_path_def Let_def special_appends)
  next
    case None
    then obtain t where t: "as_registered sp = Some t" by (auto simp: allowed_precheck_def split: if_splits)
    show ?thesis
    proof (cases "xe_run env (rt_handler t) (as_call sp) (as_index sp)")
      case (Handler_Raises kind msg)
      with None t assms(2) show ?thesis
        by (intro exI [of _ "Step_Raises kind msg"]) (simp add: execute_allowed_path_def Let_def)
    next
      case (Handler_Returns raw)
      let ?step = "after_handler env sp (gu_decision (xe_on_args env (as_call sp) (as_index sp))) raw"
      have "step_ok sp ?step" "stop_ok ?step" "?step \<noteq> Nothing_Appended"
        using assms(1) by (simp_all add: answered_def after_handler_ok after_handler_stop_ok after_handler_appends)
      with None t Handler_Returns assms(2) show ?thesis
        by (intro exI [of _ ?step]) (simp add: execute_allowed_path_def Let_def)
    qed
  qed
  then obtain step where s: "step_ok sp step" "stop_ok step" "step \<noteq> Nothing_Appended" "perform sp step r = (stop, r')" by blast
  show "grows keep [as_call sp] (as_index sp) r r'" using one_result_grows [OF perform_one [OF s(1,3), of r]] s(4) by simp
  show "stop \<longrightarrow> gr_interrupt r' \<noteq> None" using perform_stop [OF s(2), of sp r] s(4) by simp
  show "\<not> stop \<and> gr_interrupt r = None \<longrightarrow> gr_interrupt r' = None"
    using perform_interrupt [OF s(1), of r] s(4) by (metis fst_conv snd_conv)
qed

lemma dispatch_grows:
  assumes "answered c" "dispatch_call env ri c index m pol st = (stop, st')"
  shows "grows (hooks_keep_call env) [c] index (xs_result st) (xs_result st') \<and> (stop \<longrightarrow> gr_interrupt (xs_result st') \<noteq> None)
    \<and> (\<not> stop \<and> gr_interrupt (xs_result st) = None \<longrightarrow> gr_interrupt (xs_result st') = None)"
proof (cases "to_decision pol = TD_ALLOW \<and> gu_decision (xe_on_input env c index) \<noteq> GD_BLOCK
    \<and> unmet_capabilities (xe_snapshot env) m = []")
  case True
  let ?sp = "allowed_spec env ri c index m (gu_decision (xe_on_input env c index))"
  obtain awaited stop' r1 where p: "execute_allowed_path env ?sp (xs_result st) = (awaited, stop', r1)"
    by (metis surj_pair)
  have c: "as_call ?sp = c" "as_index ?sp = index" by (simp_all add: allowed_spec_def)
  note g = allowed_path_grows(1) [where keep = "hooks_keep_call env" and sp = ?sp and env = env, unfolded c, OF assms(1) p]
    allowed_path_grows(2,3) [where sp = ?sp and env = env, unfolded c, OF assms(1) p]
  have st': "stop = stop'" "xs_result st' = postprocess_new_envelopes env (length (gr_envelopes (xs_result st))) pol r1"
    using assms(2) True p by (auto simp: dispatch_call_def Let_def)
  show ?thesis unfolding st' using g postprocess_grows [OF g(1)] by simp
next
  case False
  then show ?thesis
    using assms(2) by (cases "to_decision pol") (auto simp: dispatch_call_def Let_def blocked_grows interrupt_grows split: if_splits)
qed

lemma one_call_grows:
  assumes "answered c" "execute_one_call env ri gate current c index st = (Inr stop, st')"
  shows "grows (hooks_keep_call env) [c] index (xs_result st) (xs_result st') \<and> (stop \<longrightarrow> gr_interrupt (xs_result st') \<noteq> None)
    \<and> (\<not> stop \<and> gr_interrupt (xs_result st) = None \<longrightarrow> gr_interrupt (xs_result st') = None)"
proof -
  obtain m pol v where "dispatch_call env ri c index m pol (st\<lparr>xs_grant := v\<rparr>) = (stop, st')"
    using assms(2) by (auto simp: execute_one_call_def split: option.splits prod.splits sum.splits)
  from dispatch_grows [OF assms(1) this] show ?thesis by simp
qed

lemma merge_sub_grows: "grows (hooks_keep_call env) cs index empty_result s \<Longrightarrow> grows (hooks_keep_call env) cs index r (merge_sub r s)"
  by (auto simp: grows_def merge_sub_def empty_result_def)

lemma first_error_Cons:
  "first_error (x # xs) = (case x of Inl e \<Rightarrow> Some e | Inr _ \<Rightarrow> first_error xs)"
  by (cases x) (simp_all add: first_error_def)

lemma first_error_None: "first_error xs = None \<longleftrightarrow> (\<forall>x \<in> set xs. \<not> isl x)"
proof (induction xs)
  case Nil
  show ?case by (simp add: first_error_def)
next
  case (Cons x xs)
  then show ?case by (cases x) (simp_all add: first_error_Cons)
qed

lemma tasks_grow:
  assumes "list_all answered cs" "map fst ts = [index..<index + length cs]"
    and "\<And>i out st. (i, out, st) \<in> set ts \<Longrightarrow> \<exists>stop v. out = Inr stop
      \<and> execute_one_call env ri gate current (cs ! (i - index)) i \<lparr>xs_result = empty_result, xs_grant = v, xs_handled = []\<rparr> = (out, st)"
  shows "grows (hooks_keep_call env) cs index r (fold (\<lambda>s r. merge_sub r s) (map (\<lambda>t. projr (sub_result t)) ts) r)"
  using assms
proof (induction cs arbitrary: index ts r)
  case (Cons c cs)
  have up: "[index..<index + length (c # cs)] = index # [Suc index..<Suc index + length cs]" by (simp add: upt_conv_Cons del: upt_Suc)
  then obtain i out st ts' where ts: "ts = (i, out, st) # ts'" using Cons.prems(2) by (cases ts) auto
  have i: "i = index" "map fst ts' = [Suc index..<Suc index + length cs]" using Cons.prems(2) unfolding up ts by simp_all
  obtain stop v where one: "out = Inr stop"
    "execute_one_call env ri gate current c index \<lparr>xs_result = empty_result, xs_grant = v, xs_handled = []\<rparr> = (out, st)"
    using Cons.prems(3) [of i out st] ts i(1) by auto
  have head: "grows (hooks_keep_call env) [c] index r (merge_sub r (xs_result st))"
    using one_call_grows [of c env ri gate current index _ stop st] one Cons.prems(1) by (intro merge_sub_grows) fastforce
  have "\<exists>stop v. out = Inr stop \<and> execute_one_call env ri gate current (cs ! (k - Suc index)) k
      \<lparr>xs_result = empty_result, xs_grant = v, xs_handled = []\<rparr> = (out, st)" if "(k, out, st) \<in> set ts'" for k out st
  proof -
    have "k \<in> set (map fst ts')" using that by force
    then have "k - index = Suc (k - Suc index)" unfolding i(2) by auto
    then show ?thesis using Cons.prems(3) [of k out st] that ts by simp
  qed
  with Cons.IH [where index = "Suc index" and ts = ts' and r = "merge_sub r (xs_result st)"] i(2) Cons.prems(1)
  have "grows (hooks_keep_call env) cs (Suc index) (merge_sub r (xs_result st))
    (fold (\<lambda>s r. merge_sub r s) (map (\<lambda>t. projr (sub_result t)) ts') (merge_sub r (xs_result st)))" by simp
  from grows_trans [OF head, of cs] this show ?case by (simp add: ts one(1) sub_result_def)
qed simp

lemma run_batch_grows:
  assumes "list_all answered cs" "run_batch env sd ri gate current cs index v = (subs, timeline, v', handled)" "first_error timeline = None"
  shows "grows (hooks_keep_call env) cs index r (fold (\<lambda>s r. merge_sub r s) (map projr subs) r)"
proof -
  define ts where "ts = sort_key (\<lambda>t. sd_evaluate sd (fst t)) (enumerate index cs)"
  obtain rs where rs: "run_tasks env ri gate current ts v = (rs, v')"
    and subs: "subs = map sub_result (sort_key fst rs)" and tl: "timeline = map sub_result (sort_key (\<lambda>t. sd_settle sd (fst t)) rs)"
    using assms(2) by (auto simp: run_batch_def ts_def Let_def split: prod.splits)
  have "map fst rs = map fst ts" using run_tasks_positions [of env ri gate current ts v] rs by simp
  moreover have "mset (map fst ts) = mset [index..<index + length cs]"
    unfolding ts_def by (simp only: mset_map mset_sort flip: map_fst_enumerate)
  moreover have "mset (map fst (sort_key fst rs)) = mset (map fst rs)" by (simp only: mset_map mset_sort)
  ultimately have "map fst (sort_key fst rs) = sort [index..<index + length cs]"
    by (intro properties_for_sort [symmetric]) simp_all
  then have pos: "map fst (sort_key fst rs) = [index..<index + length cs]" by (simp add: sorted_sort_id)
  have "grows (hooks_keep_call env) cs index r (fold (\<lambda>s r. merge_sub r s) (map (\<lambda>t. projr (sub_result t)) (sort_key fst rs)) r)"
  proof (rule tasks_grow [OF assms(1) pos])
    fix i out st assume "(i, out, st) \<in> set (sort_key fst rs)"
    then have m: "(i, out, st) \<in> set rs" by simp
    have "\<not> isl (sub_result (i, out, st))" using assms(3) m unfolding first_error_None tl by auto
    then obtain stop where out: "out = Inr stop" by (cases out) (simp_all add: sub_result_def)
    obtain c v0 where "(i, c) \<in> set ts"
      "execute_one_call env ri gate current c i \<lparr>xs_result = empty_result, xs_grant = v0, xs_handled = []\<rparr> = (out, st)"
      using run_tasks_ran [of i out st env ri gate current ts v] m rs by auto
    then show "\<exists>stop v. out = Inr stop \<and> execute_one_call env ri gate current (cs ! (i - index)) i
        \<lparr>xs_result = empty_result, xs_grant = v, xs_handled = []\<rparr> = (out, st)"
      using batch_tasks(3) [OF ts_def] out by blast
  qed
  then show ?thesis by (simp add: subs comp_def)
qed

lemma batch_grows:
  assumes "list_all answered cs" "execute_parallel_batch env sd ri gate current cs index st = (Inr stop, st')"
    and "gr_interrupt (xs_result st) = None"
  shows "grows (hooks_keep_call env) cs index (xs_result st) (xs_result st') \<and> stop = (gr_interrupt (xs_result st') \<noteq> None)"
proof -
  obtain subs timeline v' handled where b: "run_batch env sd ri gate current cs index (xs_grant st) = (subs, timeline, v', handled)"
    by (metis surj_pair)
  have e: "first_error timeline = None"
    using assms(2) b by (auto simp: execute_parallel_batch_def Let_def split: option.splits)
  then have "xs_result st' = fold (\<lambda>s r. merge_sub r s) (map projr subs) (xs_result st)" "stop = (gr_interrupt (xs_result st') \<noteq> None)"
    using assms(2,3) b by (auto simp: execute_parallel_batch_def Let_def)
  then show ?thesis using run_batch_grows [OF assms(1) b e] by simp
qed

lemma units_grow:
  assumes "list_all answered (concat (map unit_items us))" "execute_units_stage env sd ri gate current us index st = (None, st')"
    and "gr_interrupt (xs_result st) = None"
  shows "\<exists>k \<le> length (concat (map unit_items us)). grows (hooks_keep_call env) (take k (concat (map unit_items us))) index (xs_result st) (xs_result st')
    \<and> (gr_interrupt (xs_result st') = None \<longrightarrow> k = length (concat (map unit_items us)))"
  using assms
proof (induction env sd ri gate current us index st rule: execute_units_stage.induct)
  case (1 env sd ri gate current index st)
  then show ?case by simp
next
  case (2 env sd ri gate current c us index st)
  obtain out st1 where one: "execute_one_call env ri gate current c index st = (out, st1)" by fastforce
  then obtain stop where out: "out = Inr stop" using 2(3) by (cases out) auto
  note g = one_call_grows [OF _ one [unfolded out]]
  show ?case
  proof (cases stop)
    case True
    then have "st' = st1" using 2(3) one out by simp
    with g 2(2) True show ?thesis by (intro exI [of _ 1]) auto
  next
    case False
    then have "gr_interrupt (xs_result st1) = None" "execute_units_stage env sd ri gate current us (Suc index) st1 = (None, st')"
      using g 2(2-4) one out by auto
    with 2(1) [OF one [symmetric] out False] 2(2) obtain k where
      k: "k \<le> length (concat (map unit_items us))"
      "grows (hooks_keep_call env) (take k (concat (map unit_items us))) (Suc index) (xs_result st1) (xs_result st')"
      "gr_interrupt (xs_result st') = None \<longrightarrow> k = length (concat (map unit_items us))" by auto
    have "grows (hooks_keep_call env) ([c] @ take k (concat (map unit_items us))) index (xs_result st) (xs_result st')"
      using g 2(2) k(2) by (intro grows_trans [where xs = "[c]"]) auto
    with k show ?thesis by (intro exI [of _ "Suc k"]) auto
  qed
next
  case (3 env sd ri gate current cs us index st)
  obtain out st1 where bat: "execute_parallel_batch env sd ri gate current cs index st = (out, st1)" by fastforce
  then obtain stop where out: "out = Inr stop" using 3(3) by (cases out) auto
  have g: "grows (hooks_keep_call env) cs index (xs_result st) (xs_result st1)" "stop = (gr_interrupt (xs_result st1) \<noteq> None)"
    using batch_grows [OF _ bat [unfolded out] 3(4)] 3(2) by auto
  show ?case
  proof (cases stop)
    case True
    then have "st' = st1" using 3(3) bat out by simp
    with g True show ?thesis by (intro exI [of _ "length cs"]) auto
  next
    case False
    then have "gr_interrupt (xs_result st1) = None" "execute_units_stage env sd ri gate current us (index + length cs) st1 = (None, st')"
      using g 3(3) bat out by auto
    with 3(1) [OF bat [symmetric] out False] 3(2) obtain k where
      k: "k \<le> length (concat (map unit_items us))"
      "grows (hooks_keep_call env) (take k (concat (map unit_items us))) (index + length cs) (xs_result st1) (xs_result st')"
      "gr_interrupt (xs_result st') = None \<longrightarrow> k = length (concat (map unit_items us))" by auto
    with grows_trans [OF g(1) k(2)] show ?thesis by (intro exI [of _ "length cs + k"]) auto
  qed
qed

lemma grows_traces:
  assumes "grows keep cs index empty_result r"
  shows "map tt_step (gr_traces r) = [index..<index + length cs]" "map tt_tool_name (gr_traces r) = map tc_tool_name cs"
    "map tt_tool_call_id (gr_traces r) = map tc_tool_call_id cs" "length (gr_envelopes r) = length cs"
    "keep \<Longrightarrow> map ev_call (gr_envelopes r) = cs"
proof -
  have l: "list_all2 (\<lambda>(i, c) tr. trace_of c i tr) (enumerate index cs) (gr_traces r)" and e: "length (gr_envelopes r) = length cs"
    "keep \<Longrightarrow> map ev_call (gr_envelopes r) = cs"
    using assms by (auto simp: grows_def empty_result_def)
  note len = list_all2_lengthD [OF l]
  have n: "trace_of (cs ! j) (index + j) (gr_traces r ! j)" if "j < length cs" for j
    using list_all2_nthD [OF l, of j] that by (simp add: nth_enumerate_eq)
  show "map tt_step (gr_traces r) = [index..<index + length cs]" "map tt_tool_name (gr_traces r) = map tc_tool_name cs"
    "map tt_tool_call_id (gr_traces r) = map tc_tool_call_id cs" "length (gr_envelopes r) = length cs"
    "keep \<Longrightarrow> map ev_call (gr_envelopes r) = cs"
    using len n e by (auto intro!: nth_equalityI simp: trace_of_def)
qed

lemma turn_budget_keeps_calls: "map ev_call (gr_envelopes (apply_turn_output_budget om budget r)) = map ev_call (gr_envelopes r)"
proof (cases budget)
  case (Some b)
  obtain evs au where e: "enforce_turn_output_budget om (Some b) 2000 (gr_envelopes r) = (evs, au)" by fastforce
  then have "map ev_call evs = map ev_call (gr_envelopes r)"
  proof (cases rule: enforce_cases)
    case (run au')
    then have "ev_call (evs ! i) = ev_call (gr_envelopes r ! i)" if "i < length evs" for i
      using that trim_envelopeD(5) by (fastforce simp: trimmed_once_def)
    then show ?thesis using run by (intro nth_equalityI) auto
  qed simp
  then show ?thesis using Some e by (auto simp: apply_turn_output_budget_def split: option.split)
qed (simp add: apply_turn_output_budget_def)

text \<open>C26. When no planned call is an unapproved exit from plan mode (such a call may leave no result) and the executor
  returns, its traces and envelopes are those of a prefix of the planned calls, one pair per call: the traces carry the
  position, the name and the identifier of their call, in the planned order whatever the order in which parallel calls
  proceeded, and, unless a post-hook swaps the call in an envelope, the envelopes are those of the same calls in the same
  order. The prefix is the whole list unless an interrupt was recorded.\<close>

theorem results_in_call_order:
  assumes "execute env sd ri gate current planned v = (None, st)" "list_all answered (prepared_calls env planned)"
  shows "\<exists>k \<le> length planned. map tt_step (gr_traces (xs_result st)) = [1..<1 + k]
    \<and> map tt_tool_name (gr_traces (xs_result st)) = map tc_tool_name (take k (prepared_calls env planned))
    \<and> map tt_tool_call_id (gr_traces (xs_result st)) = map tc_tool_call_id (take k (prepared_calls env planned))
    \<and> length (gr_envelopes (xs_result st)) = k
    \<and> (hooks_keep_call env \<longrightarrow> map ev_call (gr_envelopes (xs_result st)) = take k (prepared_calls env planned))
    \<and> (gr_interrupt (xs_result st) = None \<longrightarrow> k = length planned)"
proof -
  let ?calls = "prepared_calls env planned"
  have len: "length ?calls = length planned" by (simp add: prepared_calls_def)
  let ?ri = "apply_policy_hint_stage env ri ?calls current"
  let ?start = "\<lparr>xs_result = empty_result, xs_grant = v, xs_handled = []\<rparr>"
  obtain st1 where run: "execute_units_stage env sd ?ri gate current (planned_units env planned) 1 ?start = (None, st1)"
    and st: "xs_result st = apply_turn_output_budget (sp_omission (xe_spill env)) (xe_turn_budget env) (xs_result st1)"
    using assms(1) planned_units_eq [of env planned] by (auto simp: execute_def Let_def split: prod.splits option.splits)
  have start: "gr_interrupt (xs_result ?start) = None" by (simp add: empty_result_def)
  note items = partition_items [OF planned_units_eq [of env planned]]
  obtain k where k: "k \<le> length ?calls" "grows (hooks_keep_call env) (take k ?calls) 1 empty_result (xs_result st1)"
    "gr_interrupt (xs_result st1) = None \<longrightarrow> k = length ?calls"
    using units_grow [OF _ run start, unfolded items, OF assms(2)] by auto
  show ?thesis using grows_traces [OF k(2)] k(1,3) len turn_budget_keeps_calls
    by (intro exI [of _ k]) (simp add: min_absorb2 st)
qed

section \<open>Provenance of the gate\<close>

lemma dict_merge_Cons: "dict_merge a ((k, v) # b) = dict_merge (dict_set k v a) b"
  by (simp add: dict_merge_def)

lemma distinct_dict_merge: "distinct (map fst a) \<Longrightarrow> distinct (map fst (dict_merge a b))"
  by (induction b arbitrary: a) (auto simp: dict_merge_Cons, simp add: dict_merge_def)

lemma map_of_dict_merge: "distinct (map fst b) \<Longrightarrow> map_of (dict_merge a b) = map_of a ++ map_of b"
proof (induction b arbitrary: a)
  case (Cons x b)
  obtain k v where x: "x = (k, v)" by fastforce
  have "map_of b k = None" using Cons.prems by (simp add: x map_of_eq_None_iff)
  with Cons show ?case by (auto simp: x dict_merge_Cons map_add_def fun_eq_iff split: option.splits)
qed (simp add: dict_merge_def)

lemma merge_reserved:
  assumes "distinct (map fst md)" "map_of md k = Some x" "prefix reserved_prefix k"
  shows "map_of (dict_merge a (extract_reserved_metadata md)) k = Some x"
  using assms by (simp add: extract_reserved_metadata_def map_of_dict_merge distinct_map_filter map_of_filter_key map_add_Some_iff)

lemma evaluate_metadata: "evaluate_tool_policy ep pol m c calls v = (Inr out, v') \<Longrightarrow> distinct (map fst (to_metadata out))"
proof (cases "within_limits pol c calls")
  case False
  assume "evaluate_tool_policy ep pol m c calls v = (Inr out, v')"
  moreover have "\<exists>d r i. evaluate_tool_policy ep pol m c calls v = (Inr (outcome d r i []), v)"
    using False unfolding within_limits_def evaluate_tool_policy_def
    by (cases "ti_mode pol") (auto simp: not_less split: option.splits)
  ultimately show ?thesis by (auto simp: outcome_def)
next
  case True
  assume e: "evaluate_tool_policy ep pol m c calls v = (Inr out, v')"
  have "distinct (map fst (to_metadata (risk_outcome pol m)))" by (simp add: risk_outcome_def outcome_def split: option.split)
  moreover have "distinct (map fst (to_metadata out'))" if "fst (evaluate_force_planning ep pol m c calls v) = Inr (Some out')" for out'
    using that unfolding evaluate_force_planning_def
    by (auto simp: outcome_def force_planning_metadata_def Let_def split_beta split: sum.splits option.splits if_splits)
  ultimately show ?thesis
    using e unfolding evaluate_within_limits [OF True]
    by (cases "evaluate_force_planning ep pol m c calls v") (auto split: sum.splits option.splits)
qed

lemma lifted_policy_metadata [simp]: "to_metadata (lifted_policy env ri c pol) = to_metadata pol"
  by (simp add: lifted_policy_def lift_interrupt_def Let_def split: option.split)

lemma resolve_metadata:
  assumes "resolve_call_policy env ri gate c m index current v = (Inr out, v')"
  shows "distinct (map fst (to_metadata out))"
proof -
  have gated: "distinct (map fst (to_metadata (gated_policy gate ctx c pol)))" if "distinct (map fst (to_metadata pol))" for pol ctx
    using that by (auto simp: gated_policy_def apply_tool_gate_def gate_denies_def with_reserved_def distinct_dict_merge
        split: option.splits gate_reply.splits sum.splits)
  have hook: "distinct (map fst (to_metadata (hook_stage hooks c m pol)))" if "distinct (map fst (to_metadata pol))" for pol hooks
    using that by (auto simp: hook_stage_def Let_def distinct_dict_merge split: prod.splits option.splits)
  show ?thesis
    using assms evaluate_metadata gated hook
    by (auto simp: resolve_call_policy_def Let_def split: prod.splits sum.splits)
qed

text \<open>Reserved entries of a resolved policy reach the envelope of the call.\<close>

lemma reserved_on_envelope:
  assumes "distinct (map fst (to_metadata pol))"
    and "dispatch_call env ri c index m pol st = (stop, st')"
    and "gr_envelopes (xs_result st') = gr_envelopes (xs_result st) @ [ev]"
    and "to_decision pol = TD_ALLOW \<longrightarrow> gu_decision (xe_on_input env c index) \<noteq> GD_BLOCK \<and> unmet_capabilities (xe_snapshot env) m = []"
    and "map_of (to_metadata pol) k = Some x" "prefix reserved_prefix k"
  shows "map_of (ev_metadata ev) k = Some x"
proof (cases "to_decision pol")
  case TD_ALLOW
  let ?r = "xs_result st"
  have res: "extract_reserved_metadata (to_metadata pol) \<noteq> []"
    using map_of_SomeD [OF assms(5)] assms(6) by (auto simp: extract_reserved_metadata_def filter_empty_conv)
  obtain r1 where r1: "xs_result st' = postprocess_new_envelopes env (length (gr_envelopes ?r)) pol r1"
    using TD_ALLOW assms(2,4) by (auto simp: dispatch_call_def Let_def split: prod.splits)
  define F where "F = (\<lambda>e. let e1 = (if xe_post_hooks env \<noteq> [] then apply_post_hooks env e else e)
      in e1\<lparr>ev_metadata := dict_merge (ev_metadata e1) (extract_reserved_metadata (to_metadata pol))\<rparr>)"
  have eq: "take (length (gr_envelopes ?r)) (gr_envelopes r1) @ map F (drop (length (gr_envelopes ?r)) (gr_envelopes r1))
        = gr_envelopes ?r @ [ev]"
    using res assms(3) r1 by (simp add: postprocess_new_envelopes_def Let_def F_def)
  have "length (gr_envelopes r1) = Suc (length (gr_envelopes ?r))" using arg_cong [OF eq, of length] by simp
  then have "map F (drop (length (gr_envelopes ?r)) (gr_envelopes r1)) = [ev]"
    using append_eq_append_conv [of "take (length (gr_envelopes ?r)) (gr_envelopes r1)" "gr_envelopes ?r"] eq by auto
  then obtain e where "ev = F e" by auto
  then obtain e1 where "ev = e1\<lparr>ev_metadata := dict_merge (ev_metadata e1) (extract_reserved_metadata (to_metadata pol))\<rparr>"
    unfolding F_def Let_def by blast
  then show ?thesis using merge_reserved [OF assms(1,5,6)] by simp
next
  case TD_DENY
  then show ?thesis
    using assms(2,3) merge_reserved [OF assms(1,5,6)]
    by (auto simp: dispatch_call_def append_blocked_call_def append_result_def blocked_envelope_def Let_def)
next
  case TD_INTERRUPT
  then show ?thesis
    using assms(2,3) merge_reserved [OF assms(1,5,6)]
    by (auto simp: dispatch_call_def record_interrupt_and_trace_def Let_def append_result_def)
qed

text \<open>The entries that a reply of the gate leaves: its marker and the host's provenance, or none for a plain allow.\<close>

definition reply_mark :: "gate_reply \<Rightarrow> string option" where
  "reply_mark reply = (case reply of Gate_Allow _ \<Rightarrow> Some ''allow'' | Gate_Deny _ _ \<Rightarrow> Some ''deny'' | Gate_Ask _ _ _ \<Rightarrow> Some ''ask'' | _ \<Rightarrow> None)"

lemma provenance_reserved:
  assumes "build_gate_provenance_metadata p = Inr prov"
  shows "\<exists>packed. prov = [(gate_provenance_key, packed)]"
  using assms by (auto simp: build_gate_provenance_metadata_def Let_def split: option.splits if_splits sum.splits)

lemma reserved_keys: "prefix reserved_prefix gate_decision_key" "prefix reserved_prefix gate_provenance_key" "gate_decision_key \<noteq> gate_provenance_key"
  by code_simp+

lemma gate_stamps:
  assumes "reply_mark reply = Some mark" "reply_provenance reply = p"
    and "case p of None \<Rightarrow> prov = [] | Some q \<Rightarrow> build_gate_provenance_metadata q = Inr prov" "mark = ''allow'' \<longrightarrow> p \<noteq> None"
    and "distinct (map fst (to_metadata pol))" "(k, x) = (gate_decision_key, PStr mark) \<or> (k, x) \<in> set prov"
  shows "map_of (to_metadata (apply_tool_gate reply pol)) k = Some x"
proof -
  have prov: "prov = [] \<or> (\<exists>packed. prov = [(gate_provenance_key, packed)])" using assms(3) provenance_reserved by (auto split: option.splits)
  have ne: "mark = ''allow'' \<Longrightarrow> prov \<noteq> []" using assms(3,4) provenance_reserved by (auto split: option.splits)
  have built: "(case p of None \<Rightarrow> Inr [] | Some q \<Rightarrow> build_gate_provenance_metadata q) = Inr prov" using assms(3) by (auto split: option.splits)
  have "\<exists>pol'. to_metadata pol' = to_metadata pol \<and> apply_tool_gate reply pol = with_reserved mark prov pol'"
  proof (cases reply)
    case (Gate_Deny why q)
    then show ?thesis using assms(1,2) built
      by (intro exI [of _ "gate_denies (Gate_Denied why) pol"]) (simp add: reply_mark_def apply_tool_gate_def gate_denies_def)
  next
    case (Gate_Ask msg title q)
    then show ?thesis using assms(1,2) built
      by (intro exI [of _ "pol\<lparr>to_decision := TD_INTERRUPT, to_reason := Host_Text msg,
        to_interrupt_reason := Some ''approval_required'', to_interrupt_title := title\<rparr>"]) (simp add: reply_mark_def apply_tool_gate_def)
  qed (use assms(1,2) built ne in \<open>auto simp: reply_mark_def apply_tool_gate_def\<close>)
  then show ?thesis using assms(5,6) prov reserved_keys(3)
    by (auto simp: with_reserved_def map_of_dict_merge dict_merge_def)
qed

lemma hook_stage_metadata: "map_of (to_metadata pol) k = Some x \<Longrightarrow> prefix reserved_prefix k \<Longrightarrow> map_of (to_metadata (hook_stage hooks c m pol)) k = Some x"
proof -
  assume k: "map_of (to_metadata pol) k = Some x" "prefix reserved_prefix k"
  have "\<not> prefix reserved_prefix ''decision_hook_feedback''" by code_simp
  then have "k \<noteq> ''decision_hook_feedback''" using k(2) by blast
  then show ?thesis using k(1)
    by (auto simp: hook_stage_def Let_def map_of_dict_merge map_add_def split: prod.splits option.splits)
qed

text \<open>C27. When the static decision about a call lets it reach the gate and the gate replies with an allow that carries
  provenance, with a deny or with a question to the operator, and its provenance is accepted, then the envelope of the
  call carries the marker of that reply and the packed provenance, whatever the tool, the post-hooks, the decision hooks
  or the run metadata put there. For a call that remains allowed this is stated once it has passed the input guardrail
  and the capability check; a call blocked by one of these is not stamped.\<close>

theorem gate_provenance_preserved:
  assumes "call_manifest env c = Some m"
    and static: "evaluate_tool_policy (ge_policy (xe_gate env)) (ri_tool_policy ri) m c (current + int index - 1) (xs_grant st) = (Inr pol0, v')"
      "to_decision (lifted_policy (xe_gate env) ri c pol0) = TD_ALLOW" "\<not> approved_by_interrupt c"
    and reply: "reply = g (gate_context ri c m index (current + int index - 1))" "reply_mark reply = Some mark"
      "case reply_provenance reply of None \<Rightarrow> prov = [] | Some q \<Rightarrow> build_gate_provenance_metadata q = Inr prov"
      "mark = ''allow'' \<longrightarrow> reply_provenance reply \<noteq> None"
    and run: "execute_one_call env ri (Some g) current c index st = (Inr stop, st')"
      "gr_envelopes (xs_result st') = gr_envelopes (xs_result st) @ [ev]"
    and passed: "mark = ''allow'' \<longrightarrow> gu_decision (xe_on_input env c index) \<noteq> GD_BLOCK \<and> unmet_capabilities (xe_snapshot env) m = []"
    and entry: "(k, x) = (gate_decision_key, PStr mark) \<or> (k, x) \<in> set prov"
  shows "map_of (ev_metadata ev) k = Some x"
proof -
  define pol where "pol = hook_stage (ge_hooks (xe_gate env)) c m (apply_tool_gate reply (lifted_policy (xe_gate env) ri c pol0))"
  have res: "resolve_call_policy (xe_gate env) ri (Some g) c m index current (xs_grant st) = (Inr pol, v')"
    using static reply(1) by (simp add: resolve_call_policy_def Let_def gated_policy_def pol_def)
  have disp: "dispatch_call env ri c index m pol (st\<lparr>xs_grant := v'\<rparr>) = (stop, st')"
    using run(1) assms(1) res by (auto simp: execute_one_call_def split: prod.splits)
  have "distinct (map fst (to_metadata (lifted_policy (xe_gate env) ri c pol0)))"
    using evaluate_metadata [OF static(1)] by simp
  from gate_stamps [OF reply(2) refl reply(3,4) this entry]
  have stamped: "map_of (to_metadata (apply_tool_gate reply (lifted_policy (xe_gate env) ri c pol0))) k = Some x" .
  have key: "prefix reserved_prefix k"
    using entry reply(3) provenance_reserved reserved_keys(1,2) by (auto split: option.splits) fastforce
  have "to_decision pol = TD_ALLOW \<Longrightarrow> mark = ''allow''"
    using apply_tool_gate_allow [OF static(2), of reply] reply(2) by (auto simp: pol_def hook_stage_allow_iff reply_mark_def)
  then show ?thesis
    using reserved_on_envelope [OF resolve_metadata [OF res] disp, of ev k x] run(2) passed hook_stage_metadata [OF stamped key] key
    by (simp add: pol_def)
qed

section \<open>Where the checks do not reach\<close>

text \<open>An unregistered name that is no identifier makes the executor raise instead of answering that the tool is
  not registered.\<close>

lemma odd_unregistered_name_raises:
  assumes "registry_get (xe_registry env) (tc_tool_name c) = None" "\<not> identifier_name (tc_tool_name c)"
  shows "execute_one_call env ri gate current c index st = (Inl ''ValidationError'', st)"
  using assms by (simp add: execute_one_call_def call_manifest_def safe_manifest_def)

text \<open>An exit from plan mode whose handler asks for no approval leaves no envelope and no trace.\<close>

lemma exit_plan_mode_unanswered:
  assumes "is_exit_plan_mode_tool (tc_tool_name (as_call sp))" "\<not> truthy (dict_get (tc_metadata (as_call sp)) ''approved_interrupt_id'')"
    and "gu_decision (xe_on_result env (as_call sp) (PDict d)) \<noteq> GD_BLOCK" "dict_get d ''plan_approval'' = PNone"
  shows "perform sp (after_handler env sp ag (PDict d)) r = (False, r)"
  using assms by (auto simp: after_handler_def plan_approval_step_def perform_def is_exit_plan_mode_tool_def Let_def)

text \<open>When the mode asks for approval of every call, the lists and the budget are not consulted: a call to a
  denied tool beyond the budget passes the static part of the decision once it is approved.\<close>

lemma approval_mode_skips_lists:
  assumes "ti_mode pol = TP_APPROVAL_REQUIRED" "approved_by_interrupt c \<or> match_run_approved_prompts env ri c \<noteq> None"
  shows "\<exists>out. evaluate_tool_policy ep pol m c calls v = (Inr out, v) \<and> statically_permitted env ri c out"
  using assms by (auto simp: evaluate_tool_policy_def statically_permitted_def)

section \<open>A run of the executor\<close>

definition demo_manifest :: "string \<Rightarrow> SideEffectClass \<Rightarrow> ToolManifest" where
  "demo_manifest name se = sample_manifest\<lparr>tm_name := name, tm_side_effect := se, tm_idempotent := True, tm_output_char_budget := None\<rparr>"

definition demo_registry :: "unit ToolRegistry" where
  "demo_registry = fold registry_step
     [Register ((demo_manifest ''write'' SE_REVERSIBLE_WRITE)\<lparr>tm_aliases := [''put'']\<rparr>) (),
      Register (demo_manifest ''grep'' SE_READ_ONLY) (), Register (demo_manifest ''bash'' SE_EXTERNAL_ACTION) ()] empty_registry"

definition demo_env :: "unit exec_env" where
  "demo_env =
     \<lparr>xe_gate = \<lparr>ge_policy = sample_params, ge_search = (\<lambda>r s. False), ge_prompt = (\<lambda>d. None), ge_hooks = []\<rparr>,
      xe_registry = demo_registry, xe_run = (\<lambda>h c i. Handler_Returns (PDict [(''summary'', PStr ''ok'')])),
      xe_on_input = (\<lambda>c i. \<lparr>gu_decision = GD_ALLOW, gu_reason = None\<rparr>),
      xe_on_args = (\<lambda>c i. \<lparr>gu_decision = GD_ALLOW, gu_reason = None\<rparr>),
      xe_on_result = (\<lambda>c v. \<lparr>gu_decision = GD_ALLOW, gu_reason = None\<rparr>),
      xe_on_final = (\<lambda>e. \<lparr>gu_decision = GD_ALLOW, gu_reason = None\<rparr>),
      xe_snapshot = None, xe_aborted = None, xe_render = (\<lambda>r. ''reason''), xe_str = (\<lambda>v. []),
      xe_unknown_tool = (\<lambda>n ns. []), xe_subscription = (\<lambda>d. Inl []), 
      xe_spill = \<lparr>sp_store = None, sp_uuid = (\<lambda>n. []), sp_mirror = (\<lambda>x a t i. Inr None), sp_omission = (\<lambda>n. [])\<rparr>,
      xe_loads = (\<lambda>s. None), xe_turn_budget = None,
      xe_pre_hooks = [], xe_post_hooks = []\<rparr>"

text \<open>A schedule under which the second of two parallel calls evaluates its policy and reaches its handler first.\<close>

definition demo_schedule :: schedule where
  "demo_schedule = \<lparr>sd_evaluate = (\<lambda>i. 10 - i), sd_settle = (\<lambda>i. 10 - i)\<rparr>"

definition demo_ri :: RunInput where
  "demo_ri =
     \<lparr>ri_run_id = Some ''r1'', ri_thread_id = None, ri_agent_id = ''a'', ri_agent_profile = ''tool_calling'',
      ri_prompt_template_id = None, ri_prompt_template_version = None,
      ri_tool_policy = \<lparr>ti_mode = TP_ALLOW_TOOLS, ti_allowed_tools = None, ti_denied_tools = Some [''write''],
                        ti_max_tool_calls = Some 3, ti_approval_required_for_risk = None, ti_metadata = []\<rparr>,
      ri_app_metadata = []\<rparr>"

definition demo_call :: "string \<Rightarrow> pydict \<Rightarrow> pydict \<Rightarrow> ToolCall" where
  "demo_call name args md = \<lparr>tc_tool_name = name, tc_args = args, tc_tool_call_id = None, tc_metadata = md\<rparr>"

definition demo_calls :: "ToolCall list" where
  "demo_calls =
     [demo_call ''grep'' [] [], demo_call ''grep'' [] [], demo_call ''write'' [] [], demo_call ''put'' [] []]"

abbreviation demo_result :: exec_state where
  "demo_result \<equiv> snd (execute demo_env demo_schedule demo_ri None 0 demo_calls None)"

lemma demo_run:
  "execute demo_env demo_schedule demo_ri None 0 demo_calls None = (None, demo_result)"
  "xs_handled demo_result = [(2, demo_call ''grep'' [] []), (1, demo_call ''grep'' [] [])]"
  by code_simp+

text \<open>A call that spells a denied tool by its alias is executed.\<close>

lemma alias_evades_deny_list:
  "ti_denied_tools (ri_tool_policy demo_ri) = Some [''write'']
   \<and> map_option (\<lambda>t. tm_name (rt_manifest t)) (registry_get demo_registry ''put'') = Some ''write''
   \<and> xs_handled (snd (execute demo_env demo_schedule demo_ri None 0 [demo_call ''put'' [] []] None)) = [(1, demo_call ''put'' [] [])]"
  by code_simp


theorem handlers_within_limits_witness:
  "length (xs_handled demo_result) \<le> 3 \<and> ''write'' \<notin> (\<lambda>(i, c). tc_tool_name c) ` set (xs_handled demo_result)"
  using handlers_within_limits [OF demo_run(1)] by (auto simp: demo_ri_def)

theorem results_in_call_order_witness:
  "map tt_step (gr_traces (xs_result demo_result)) = [1, 2, 3, 4]
   \<and> map tt_tool_name (gr_traces (xs_result demo_result)) = [''grep'', ''grep'', ''write'', ''put'']"
proof -
  have i: "gr_interrupt (xs_result demo_result) = None" by code_simp
  have p: "prepared_calls demo_env demo_calls = demo_calls" by code_simp
  have "list_all answered (prepared_calls demo_env demo_calls)" by code_simp
  from results_in_call_order [OF demo_run(1) this] i
  have "map tt_step (gr_traces (xs_result demo_result)) = [1..<1 + length demo_calls]"
    "map tt_tool_name (gr_traces (xs_result demo_result)) = map tc_tool_name (take (length demo_calls) demo_calls)"
    unfolding p by auto
  then show ?thesis by (simp add: demo_calls_def demo_call_def upt_rec)
qed

definition sudo_call :: ToolCall where
  "sudo_call = demo_call ''bash'' [(''command'', PStr ''sudo reboot'')] [(''approved_interrupt_id'', PStr ''int_r1_1'')]"

theorem privileged_command_needs_approval_witness:
  "sudo_call \<in> snd ` set (xs_handled (snd (execute demo_env demo_schedule demo_ri
       (Some (permission_tool_gate (\<lambda>r. []) (\<lambda>r s. False) \<lparr>pp_mode = STANDARD, pp_rules = []\<rparr>)) 0 [sudo_call] None)))
   \<and> approved_by_interrupt sudo_call"
proof -
  let ?run = "execute demo_env demo_schedule demo_ri (Some (permission_tool_gate (\<lambda>r. []) (\<lambda>r s. False) \<lparr>pp_mode = STANDARD, pp_rules = []\<rparr>)) 0 [sudo_call] None"
  have run: "?run = (fst ?run, snd ?run)" by simp
  have h: "xs_handled (snd ?run) = [(1, sudo_call)]" by code_simp
  have c: "command_text (tc_args sudo_call) = Some ([] @ ''sudo'' @ '' reboot'')" by code_simp
  have i: "isolated [] '' reboot''" by code_simp
  have "approved_by_interrupt sudo_call"
    by (rule privileged_command_needs_approval [OF run, of 1 sudo_call]) (use h c i in auto)
  with h show ?thesis by simp
qed

definition demo_gate :: "ToolGateContext \<Rightarrow> gate_reply" where
  "demo_gate ctx = Gate_Deny ''no'' (Some \<lparr>gp_decision_id = Some ''d1'', gp_policy_snapshot_id = None, gp_metadata = None\<rparr>)"

theorem gate_provenance_preserved_witness:
  "\<exists>st ev. execute_one_call demo_env demo_ri (Some demo_gate) 0 (demo_call ''grep'' [] []) 1
        \<lparr>xs_result = empty_result, xs_grant = None, xs_handled = []\<rparr> = (Inr False, st)
      \<and> gr_envelopes (xs_result st) = [ev] \<and> map_of (ev_metadata ev) gate_decision_key = Some (PStr ''deny'')
      \<and> map_of (ev_metadata ev) gate_provenance_key \<noteq> None"
proof -
  let ?c = "demo_call ''grep'' [] []" and ?m = "demo_manifest ''grep'' SE_READ_ONLY"
  let ?st = "\<lparr>xs_result = empty_result, xs_grant = None, xs_handled = []\<rparr>"
  let ?run = "execute_one_call demo_env demo_ri (Some demo_gate) 0 ?c 1 ?st"
  let ?q = "\<lparr>gp_decision_id = Some ''d1'', gp_policy_snapshot_id = None, gp_metadata = None\<rparr>"
  let ?pol = "outcome TD_ALLOW Policy_Passed None []"
  have m: "call_manifest demo_env ?c = Some ?m" by code_simp
  have e: "evaluate_tool_policy (ge_policy (xe_gate demo_env)) (ri_tool_policy demo_ri) ?m ?c (0 + int 1 - 1) (xs_grant ?st) = (Inr ?pol, None)"
    by code_simp
  have l: "to_decision (lifted_policy (xe_gate demo_env) demo_ri ?c ?pol) = TD_ALLOW" "\<not> approved_by_interrupt ?c" by code_simp+
  obtain packed where q: "build_gate_provenance_metadata ?q = Inr [(gate_provenance_key, packed)]"
    using provenance_reserved [of ?q] by (cases "build_gate_provenance_metadata ?q") (auto, code_simp)
  have r: "reply_mark (demo_gate ctx) = Some ''deny''" "reply_provenance (demo_gate ctx) = Some ?q" for ctx
    by (simp_all add: demo_gate_def reply_mark_def)
  have f: "fst ?run = Inr False" "length (gr_envelopes (xs_result (snd ?run))) = 1" by code_simp+
  then have run: "?run = (Inr False, snd ?run)" by (metis prod.collapse)
  have one: "length xs = 1 \<Longrightarrow> \<exists>x. xs = [x]" for xs :: "ToolResultEnvelope list" by (cases xs) auto
  from one [OF f(2)] obtain ev where ev: "gr_envelopes (xs_result (snd ?run)) = [ev]" by blast
  have "map_of (ev_metadata ev) k = Some x" if "(k, x) = (gate_decision_key, PStr ''deny'') \<or> (k, x) \<in> set [(gate_provenance_key, packed)]" for k x
    by (rule gate_provenance_preserved [OF m e l refl, where g = demo_gate and mark = "''deny''" and prov = "[(gate_provenance_key, packed)]"
          and st' = "snd ?run" and stop = False])
      (use r q run ev that in \<open>simp_all add: empty_result_def\<close>)
  from this [of gate_decision_key] this [of gate_provenance_key packed] run ev show ?thesis by auto
qed

end
