(* ===== verification/Subagent_Store.thy ===== *)
theory Subagent_Store
  imports Prelude
begin

text \<open>
  Rows of child runs and groups (\<open>contracts/subagents.py\<close>), the in-memory and the SQLite store
  (\<open>subagents/store.py\<close>), the control operations on them (\<open>subagents/control.py\<close>), and the join policies
  (\<open>subagents/join.py\<close>) and merge modes (\<open>subagents/merge.py\<close>). A payload is stored as the row it encodes; fields no operation reads are kept
  together.
\<close>

section \<open>Rows\<close>

datatype SubagentStatus = SS_PENDING | SS_RUNNING | SS_COMPLETED | SS_FAILED | SS_CANCELLED | SS_TIMED_OUT

datatype SubagentTerminalState = ST_SUCCEEDED | ST_FAILED | ST_CANCELLED | ST_KILLED | ST_TIMED_OUT

datatype SubagentJoinPolicy =
  WAIT_ALL | WAIT_ANY | K_OF_N | BEST_EFFORT_UNTIL_DEADLINE | RACE | MANUAL_REVIEW

record SubagentRun =
  sr_subagent_run_id :: string
  sr_parent_run_id :: string
  sr_child_run_id :: "string option"
  sr_task_id :: string
  sr_status :: SubagentStatus
  sr_terminal_state :: "SubagentTerminalState option"
  sr_latency_ms :: "int option"
  sr_metadata :: pydict
  sr_other_fields :: pydict

record SubagentGroup =
  sg_group_id :: string
  sg_parent_run_id :: string
  sg_join_policy :: SubagentJoinPolicy
  sg_child_run_ids :: "string list"
  sg_other_fields :: pydict

text \<open>The first row with the same key is replaced, or the row is appended.\<close>

fun put_row :: "('a \<Rightarrow> 'k) \<Rightarrow> 'a \<Rightarrow> 'a list \<Rightarrow> 'a list" where
  "put_row key x [] = [x]"
| "put_row key x (y # ys) = (if key y = key x then x # ys else y # put_row key x ys)"

lemma set_put_row: "distinct (map key ys) \<Longrightarrow> set (put_row key x ys) = insert x {y \<in> set ys. key y \<noteq> key x}"
  by (induction ys) (auto simp: rev_image_eqI)

lemma keys_put_row: "key ` set (put_row key x ys) = insert (key x) (key ` set ys)"
  by (induction ys) auto

lemma distinct_put_row: "distinct (map key ys) \<Longrightarrow> distinct (map key (put_row key x ys))"
  using keys_put_row [of key x] by (induction ys) (auto simp: image_iff)

lemma set_put_row_subset: "set (put_row key x ys) \<subseteq> insert x (set ys)"
  by (induction ys) auto

section \<open>The in-memory store\<close>

record InMemorySubagentStore =
  mg_runs_by_parent :: "(string \<times> SubagentRun list) list"
  mg_groups_by_parent :: "(string \<times> SubagentGroup list) list"
  mg_run_by_idempotency :: "((string \<times> string) \<times> SubagentRun) list"

definition empty_memory :: InMemorySubagentStore where
  "empty_memory = \<lparr>mg_runs_by_parent = [], mg_groups_by_parent = [], mg_run_by_idempotency = []\<rparr>"

definition rows_of_parent :: "(string \<times> 'a list) list \<Rightarrow> string \<Rightarrow> 'a list" where
  "rows_of_parent d p = (case map_of d p of None \<Rightarrow> [] | Some xs \<Rightarrow> xs)"

definition memory_upsert_group :: "SubagentGroup \<Rightarrow> InMemorySubagentStore \<Rightarrow> SubagentGroup \<times> InMemorySubagentStore" where
  "memory_upsert_group g s =
     (g, s\<lparr>mg_groups_by_parent := alist_set (sg_parent_run_id g)
            (put_row sg_group_id g (rows_of_parent (mg_groups_by_parent s) (sg_parent_run_id g))) (mg_groups_by_parent s)\<rparr>)"

definition memory_list_groups :: "InMemorySubagentStore \<Rightarrow> string \<Rightarrow> SubagentGroup list" where
  "memory_list_groups s p = rows_of_parent (mg_groups_by_parent s) p"

definition memory_upsert_run ::
  "SubagentRun \<Rightarrow> string option \<Rightarrow> InMemorySubagentStore \<Rightarrow> (string + SubagentRun) \<times> InMemorySubagentStore" where
  "memory_upsert_run run key s =
     (let (run1, s1) =
        (case key of
           None \<Rightarrow> (run, s)
         | Some k \<Rightarrow>
             if k = [] then (run, s)
             else
               (let dedup = (sr_parent_run_id run, k);
                    r = (case map_of (mg_run_by_idempotency s) dedup of
                           Some x \<Rightarrow> run\<lparr>sr_subagent_run_id := sr_subagent_run_id x\<rparr>
                         | None \<Rightarrow> run)
                in (r, s\<lparr>mg_run_by_idempotency := alist_set dedup r (mg_run_by_idempotency s)\<rparr>)))
      in (Inr run1, s1\<lparr>mg_runs_by_parent := alist_set (sr_parent_run_id run1)
            (put_row sr_subagent_run_id run1 (rows_of_parent (mg_runs_by_parent s1) (sr_parent_run_id run1))) (mg_runs_by_parent s1)\<rparr>))"

definition memory_list_runs :: "InMemorySubagentStore \<Rightarrow> string \<Rightarrow> SubagentRun list" where
  "memory_list_runs s p = rows_of_parent (mg_runs_by_parent s) p"

definition memory_find_run_by_child_run_id :: "InMemorySubagentStore \<Rightarrow> string \<Rightarrow> SubagentRun option" where
  "memory_find_run_by_child_run_id s cid =
     (if cid = [] then None
      else List.find (\<lambda>r. sr_child_run_id r = Some cid) (concat (map snd (mg_runs_by_parent s))))"

section \<open>The SQLite store\<close>

record subagent_run_row =
  rr_subagent_run_id :: string
  rr_parent_run_id :: string
  rr_idempotency_key :: "string option"
  rr_payload :: SubagentRun

record SqliteSubagentStore =
  sq_subagent_groups :: "SubagentGroup list"
  sq_subagent_runs :: "subagent_run_row list"

definition empty_sqlite :: SqliteSubagentStore where
  "empty_sqlite = \<lparr>sq_subagent_groups = [], sq_subagent_runs = []\<rparr>"

definition sqlite_upsert_group :: "SubagentGroup \<Rightarrow> SqliteSubagentStore \<Rightarrow> SubagentGroup \<times> SqliteSubagentStore" where
  "sqlite_upsert_group g s = (g, s\<lparr>sq_subagent_groups := put_row sg_group_id g (sq_subagent_groups s)\<rparr>)"

definition sqlite_list_groups :: "SqliteSubagentStore \<Rightarrow> string \<Rightarrow> SubagentGroup list" where
  "sqlite_list_groups s p = sort_key sg_group_id (filter (\<lambda>g. sg_parent_run_id g = p) (sq_subagent_groups s))"

text \<open>The row with a key under a parent, and the unique index over parent and key.\<close>

definition keyed_row :: "subagent_run_row list \<Rightarrow> string \<Rightarrow> string \<Rightarrow> subagent_run_row option" where
  "keyed_row t p k = List.find (\<lambda>row. rr_parent_run_id row = p \<and> rr_idempotency_key row = Some k) t"

definition index_conflict :: "subagent_run_row list \<Rightarrow> subagent_run_row \<Rightarrow> bool" where
  "index_conflict t row =
     (rr_idempotency_key row \<noteq> None
      \<and> list_ex (\<lambda>x. rr_subagent_run_id x \<noteq> rr_subagent_run_id row \<and> rr_parent_run_id x = rr_parent_run_id row
                     \<and> rr_idempotency_key x = rr_idempotency_key row) t)"

definition run_row :: "SubagentRun \<Rightarrow> string option \<Rightarrow> subagent_run_row" where
  "run_row run key = \<lparr>rr_subagent_run_id = sr_subagent_run_id run, rr_parent_run_id = sr_parent_run_id run,
     rr_idempotency_key = key, rr_payload = run\<rparr>"

definition sqlite_upsert_run ::
  "SubagentRun \<Rightarrow> string option \<Rightarrow> SqliteSubagentStore \<Rightarrow> (string + SubagentRun) \<times> SqliteSubagentStore" where
  "sqlite_upsert_run run key s =
     (let run1 = (case key of
                    None \<Rightarrow> run
                  | Some k \<Rightarrow>
                      if k = [] then run
                      else (case keyed_row (sq_subagent_runs s) (sr_parent_run_id run) k of
                              Some row \<Rightarrow> run\<lparr>sr_subagent_run_id := sr_subagent_run_id (rr_payload row)\<rparr>
                            | None \<Rightarrow> run));
          row = run_row run1 key
      in if index_conflict (sq_subagent_runs s) row then (Inl ''IntegrityError'', s)
         else (Inr run1, s\<lparr>sq_subagent_runs := put_row rr_subagent_run_id row (sq_subagent_runs s)\<rparr>))"

definition sqlite_list_runs :: "SqliteSubagentStore \<Rightarrow> string \<Rightarrow> SubagentRun list" where
  "sqlite_list_runs s p =
     map rr_payload (sort_key rr_subagent_run_id (filter (\<lambda>row. rr_parent_run_id row = p) (sq_subagent_runs s)))"

definition sqlite_find_run_by_child_run_id :: "SqliteSubagentStore \<Rightarrow> string \<Rightarrow> SubagentRun option" where
  "sqlite_find_run_by_child_run_id s cid =
     (if cid = [] then None
      else List.find (\<lambda>r. sr_child_run_id r = Some cid) (map rr_payload (sq_subagent_runs s)))"

section \<open>Control operations\<close>

definition clean_optional_id :: "string option \<Rightarrow> string option" where
  "clean_optional_id x = (case x of None \<Rightarrow> None | Some s \<Rightarrow> if py_strip s = [] then None else Some (py_strip s))"

definition find_subagent_run ::
  "('s \<Rightarrow> string \<Rightarrow> SubagentRun list) \<Rightarrow> 's \<Rightarrow> string \<Rightarrow> string option \<Rightarrow> string option \<Rightarrow> SubagentRun option" where
  "find_subagent_run list_runs s p sid cid =
     (let sid1 = clean_optional_id sid; cid1 = clean_optional_id cid
      in if sid1 = None \<and> cid1 = None then None
         else List.find (\<lambda>r. (sid1 \<noteq> None \<and> sid1 = Some (sr_subagent_run_id r)) \<or> (cid1 \<noteq> None \<and> sr_child_run_id r = cid1))
                (list_runs s p))"

definition stopped_row :: "string \<Rightarrow> string option \<Rightarrow> string \<Rightarrow> SubagentRun \<Rightarrow> SubagentRun" where
  "stopped_row now reason source r =
     r\<lparr>sr_status := SS_CANCELLED, sr_terminal_state := Some ST_CANCELLED,
       sr_metadata := dict_merge (sr_metadata r)
         [(''stop_requested'', PBool True),
          (''stop_reason'', PStr (case reason of Some t \<Rightarrow> if t \<noteq> [] then t else ''parent_requested_stop''
                                             | None \<Rightarrow> ''parent_requested_stop'')),
          (''stop_source'', PStr source), (''stopped_at'', PStr now)]\<rparr>"

definition stop_subagent_run ::
  "(SubagentRun \<Rightarrow> string option \<Rightarrow> 's \<Rightarrow> (string + SubagentRun) \<times> 's) \<Rightarrow> ('s \<Rightarrow> string \<Rightarrow> SubagentRun list) \<Rightarrow> string
     \<Rightarrow> string \<Rightarrow> string option \<Rightarrow> string option \<Rightarrow> string option \<Rightarrow> string \<Rightarrow> 's \<Rightarrow> (string + SubagentRun option) \<times> 's" where
  "stop_subagent_run upsert list_runs now p sid cid reason source s =
     (case find_subagent_run list_runs s p sid cid of
        None \<Rightarrow> (Inr None, s)
      | Some r \<Rightarrow>
          (case upsert (stopped_row now reason source r) None s of
             (Inl e, s1) \<Rightarrow> (Inl e, s1)
           | (Inr x, s1) \<Rightarrow> (Inr (Some x), s1)))"

section \<open>Join policies\<close>

record JoinDecision =
  jd_done :: bool
  jd_state :: string
  jd_completed_ids :: "string list"
  jd_failed_ids :: "string list"
  jd_cancelled_ids :: "string list"

definition ids_with :: "SubagentStatus set \<Rightarrow> SubagentRun list \<Rightarrow> string list" where
  "ids_with sts runs = map sr_subagent_run_id (filter (\<lambda>r. sr_status r \<in> sts) runs)"

definition evaluate_join_policy :: "SubagentJoinPolicy \<Rightarrow> SubagentRun list \<Rightarrow> int option \<Rightarrow> bool \<Rightarrow> JoinDecision" where
  "evaluate_join_policy policy runs k deadline_reached =
     (let completed = ids_with {SS_COMPLETED} runs; failed = ids_with {SS_FAILED} runs;
          cancelled = ids_with {SS_CANCELLED, SS_TIMED_OUT} runs;
          decision = (\<lambda>joined state. \<lparr>jd_done = joined, jd_state = (if joined then state else ''waiting''),
                        jd_completed_ids = completed, jd_failed_ids = failed, jd_cancelled_ids = cancelled\<rparr>)
      in case policy of
           WAIT_ALL \<Rightarrow>
             decision (length runs > 0 \<and> length completed + length failed + length cancelled = length runs) ''joined''
         | WAIT_ANY \<Rightarrow> decision (length completed \<ge> 1) ''joined''
         | K_OF_N \<Rightarrow>
             decision (int (length completed) \<ge> max 1 (case k of Some n \<Rightarrow> if n \<noteq> 0 then n else 1 | None \<Rightarrow> 1)) ''joined''
         | BEST_EFFORT_UNTIL_DEADLINE \<Rightarrow> decision deadline_reached ''partial_joined''
         | RACE \<Rightarrow> decision (length completed \<ge> 1) ''race_won''
         | MANUAL_REVIEW \<Rightarrow>
             \<lparr>jd_done = False, jd_state = ''manual_review_pending'', jd_completed_ids = completed, jd_failed_ids = failed,
              jd_cancelled_ids = cancelled\<rparr>)"

definition terminal_status :: "SubagentStatus \<Rightarrow> bool" where
  "terminal_status st = (st \<in> {SS_COMPLETED, SS_FAILED, SS_CANCELLED, SS_TIMED_OUT})"

lemma filter_all_length: "length (filter P xs) = length xs \<longleftrightarrow> list_all P xs"
  unfolding list_all_iff by (metis filter_True length_filter_less less_irrefl)

text \<open>Waiting for all ends exactly when there is a child and every child is in a terminal status.\<close>

lemma wait_all_done:
  "jd_done (evaluate_join_policy WAIT_ALL runs k d) \<longleftrightarrow> runs \<noteq> [] \<and> list_all (\<lambda>r. terminal_status (sr_status r)) runs"
proof -
  have "length (ids_with {SS_COMPLETED} runs) + length (ids_with {SS_FAILED} runs) + length (ids_with {SS_CANCELLED, SS_TIMED_OUT} runs)
      = length (filter (\<lambda>r. terminal_status (sr_status r)) runs)"
    by (induction runs) (auto simp: ids_with_def terminal_status_def)
  then show ?thesis by (simp add: evaluate_join_policy_def filter_all_length)
qed

text \<open>A group that waits for any child waits forever once all its children have ended without success.\<close>

lemma wait_any_stuck:
  assumes "list_all (\<lambda>r. sr_status r \<in> {SS_FAILED, SS_CANCELLED, SS_TIMED_OUT}) runs" "policy \<in> {WAIT_ANY, RACE, K_OF_N}"
  shows "\<not> jd_done (evaluate_join_policy policy runs k d)"
proof -
  have "ids_with {SS_COMPLETED} runs = []" using assms(1) by (auto simp: ids_with_def list_all_iff filter_empty_conv)
  then show ?thesis using assms(2) by (auto simp: evaluate_join_policy_def)
qed

section \<open>Merging outputs\<close>

datatype SubagentMergeMode = MM_APPEND | MM_RANK | MM_SYNTHESIZE | MM_VOTE | MM_MANUAL

primrec merge_mode_value :: "SubagentMergeMode \<Rightarrow> string" where
  "merge_mode_value MM_APPEND = ''append''"
| "merge_mode_value MM_RANK = ''rank''"
| "merge_mode_value MM_SYNTHESIZE = ''synthesize''"
| "merge_mode_value MM_VOTE = ''vote''"
| "merge_mode_value MM_MANUAL = ''manual''"

datatype ParentStateWriteMode = BOUNDED_APPEND_ONLY | REPLACE | WRITE_NONE

record MergeProvenance =
  mp_strategy :: string
  mp_source_kind :: string
  mp_carried_keys :: "string list"
  mp_parent_state_write :: ParentStateWriteMode
  mp_metadata :: pydict

definition child_snippet :: "(pyval \<Rightarrow> string) \<Rightarrow> SubagentRun \<Rightarrow> string" where
  "child_snippet str r =
     (let note = dict_get (sr_metadata r) ''summary''
      in if truthy note then (case note of PStr s \<Rightarrow> s | _ \<Rightarrow> str note) else ''child '' @ sr_subagent_run_id r @ '' completed'')"

text \<open>\<open>vote\<close> is the choice \<open>max(set(snippets), key=snippets.count)\<close> makes among the most frequent snippets.\<close>

definition merged_snippets :: "(string list \<Rightarrow> string) \<Rightarrow> SubagentMergeMode \<Rightarrow> string list \<Rightarrow> string list" where
  "merged_snippets vote mode snippets =
     (case mode of
        MM_RANK \<Rightarrow> sort_key (\<lambda>s. - int (length s)) snippets
      | MM_VOTE \<Rightarrow> [vote snippets]
      | MM_MANUAL \<Rightarrow> [''manual review required: '' @ nat_str (length snippets) @ '' candidates'']
      | _ \<Rightarrow> snippets)"

definition merge_subagent_outputs ::
  "(pyval \<Rightarrow> string) \<Rightarrow> (string list \<Rightarrow> string) \<Rightarrow> SubagentMergeMode \<Rightarrow> SubagentRun list \<Rightarrow> string \<times> MergeProvenance" where
  "merge_subagent_outputs str vote mode runs =
     (let completed = filter (\<lambda>r. sr_status r = SS_COMPLETED) runs
      in if completed = []
         then (''No successful child outputs.'',
               \<lparr>mp_strategy = merge_mode_value mode, mp_source_kind = ''subagent_runs'', mp_carried_keys = [],
                mp_parent_state_write = WRITE_NONE, mp_metadata = [(''completed'', PInt 0)]\<rparr>)
         else (let snippets = merged_snippets vote mode (map (child_snippet str) completed)
               in (take 2000 (py_join [char_of (10 :: nat)] (take 5 snippets)),
                   \<lparr>mp_strategy = merge_mode_value mode, mp_source_kind = ''subagent_runs'', mp_carried_keys = [''summary''],
                    mp_parent_state_write = BOUNDED_APPEND_ONLY,
                    mp_metadata = [(''completed'', PInt (int (length completed))), (''mode'', PStr (merge_mode_value mode)),
                                   (''discarded_count'', PInt (max 0 (int (length snippets) - 5)))]\<rparr>)))"

text \<open>The merged text is bounded, and nothing is written to the parent unless a child completed.\<close>

lemma merge_bounded:
  "length (fst (merge_subagent_outputs str vote mode runs)) \<le> 2000
   \<and> (mp_parent_state_write (snd (merge_subagent_outputs str vote mode runs)) = WRITE_NONE
      \<longleftrightarrow> \<not> list_ex (\<lambda>r. sr_status r = SS_COMPLETED) runs)"
  by (auto simp: merge_subagent_outputs_def Let_def list_ex_iff filter_empty_conv)

section \<open>What both stores promise\<close>

text \<open>No identifier is listed under two parents.\<close>

definition unshared :: "('s \<Rightarrow> string \<Rightarrow> SubagentRun list) \<Rightarrow> 's \<Rightarrow> bool" where
  "unshared list_runs s = (\<forall>p q x y. x \<in> set (list_runs s p) \<longrightarrow> y \<in> set (list_runs s q) \<longrightarrow>
     sr_subagent_run_id x = sr_subagent_run_id y \<longrightarrow> p = q)"

text \<open>The lists after an operation that rewrites the row it found, if any, and nothing else.\<close>

definition rewrites_one ::
  "('s \<Rightarrow> string \<Rightarrow> SubagentRun list) \<Rightarrow> 's \<Rightarrow> string \<Rightarrow> SubagentRun option \<Rightarrow> (SubagentRun \<Rightarrow> SubagentRun) \<Rightarrow> 's \<Rightarrow> bool" where
  "rewrites_one list_runs s p found f s' =
     (\<forall>q. set (list_runs s' q) =
        (case found of
           Some r \<Rightarrow> if q = p then insert (f r) (set (list_runs s p) - {r}) else set (list_runs s q)
         | None \<Rightarrow> set (list_runs s q)))"

text \<open>
  The operations the control tools use and the laws they rely on: the answer to an upsert is the row that was
  given, under the identifier its key already has, and it takes the place of the row with that identifier
  in the list of its parent and changes no other list, provided no other parent owns the identifier.
\<close>

locale subagent_rows =
  fixes upsert :: "SubagentRun \<Rightarrow> string option \<Rightarrow> 's \<Rightarrow> (string + SubagentRun) \<times> 's"
    and list_runs :: "'s \<Rightarrow> string \<Rightarrow> SubagentRun list"
    and ok :: "'s \<Rightarrow> bool"
  assumes upsert_ok: "ok s \<Longrightarrow> ok (snd (upsert r k s))"
    and listed_parent: "ok s \<Longrightarrow> r \<in> set (list_runs s p) \<Longrightarrow> sr_parent_run_id r = p"
    and listed_distinct: "ok s \<Longrightarrow> distinct (map sr_subagent_run_id (list_runs s p))"
    and upsert_keyless: "ok s \<Longrightarrow> fst (upsert r None s) = Inr r"
    and upsert_list: "ok s \<Longrightarrow> fst (upsert r k s) = Inr r' \<Longrightarrow>
      (\<And>q x. x \<in> set (list_runs s q) \<Longrightarrow> sr_subagent_run_id x = sr_subagent_run_id r' \<Longrightarrow> q = sr_parent_run_id r) \<Longrightarrow>
      set (list_runs (snd (upsert r k s)) p) =
        (if p = sr_parent_run_id r then insert r' {x \<in> set (list_runs s p). sr_subagent_run_id x \<noteq> sr_subagent_run_id r'}
         else set (list_runs s p))"
begin

lemma found_listed:
  assumes "find_subagent_run list_runs s p sid cid = Some r"
  shows "r \<in> set (list_runs s p)"
  using assms by (auto simp: find_subagent_run_def Let_def find_Some_iff split: if_splits)

lemma same_id_same_row:
  assumes "ok s" "x \<in> set (list_runs s p)" "y \<in> set (list_runs s p)" "sr_subagent_run_id x = sr_subagent_run_id y"
  shows "x = y"
  using listed_distinct [OF assms(1), of p] assms(2-4) by (auto simp: distinct_map inj_on_def)

text \<open>Writing a found row back without a key, with its identifiers, rewrites it alone.\<close>

lemma write_back:
  assumes "ok s" "unshared list_runs s" "find_subagent_run list_runs s p sid cid = Some r"
    and f: "sr_subagent_run_id (f r) = sr_subagent_run_id r" "sr_parent_run_id (f r) = sr_parent_run_id r"
  shows "\<exists>s'. upsert (f r) None s = (Inr (f r), s') \<and> ok s' \<and> rewrites_one list_runs s p (Some r) f s'"
proof -
  note r = found_listed [OF assms(3)]
  have p: "sr_parent_run_id r = p" using listed_parent [OF assms(1) r] .
  obtain s' where u: "upsert (f r) None s = (Inr (f r), s')"
    using upsert_keyless [OF assms(1), of "f r"] by (metis prod.collapse)
  have own: "q = sr_parent_run_id (f r)" if "x \<in> set (list_runs s q)" "sr_subagent_run_id x = sr_subagent_run_id (f r)" for q x
    using assms(2) r that f p unfolding unshared_def by metis
  have l: "set (list_runs s' q) = (if q = p then insert (f r) {x \<in> set (list_runs s q). sr_subagent_run_id x \<noteq> sr_subagent_run_id r}
      else set (list_runs s q))" for q
    using upsert_list [OF assms(1), of "f r" None "f r" q] own u f p by simp
  have "{x \<in> set (list_runs s p). sr_subagent_run_id x \<noteq> sr_subagent_run_id r} = set (list_runs s p) - {r}"
    using same_id_same_row [OF assms(1) _ r] by auto
  with u l upsert_ok [OF assms(1), of "f r" None] show ?thesis by (auto simp: rewrites_one_def)
qed

lemma stop_effect:
  assumes "ok s" "unshared list_runs s"
  shows "\<exists>s'. stop_subagent_run upsert list_runs now p sid cid reason source s
        = (Inr (map_option (stopped_row now reason source) (find_subagent_run list_runs s p sid cid)), s')
      \<and> ok s' \<and> rewrites_one list_runs s p (find_subagent_run list_runs s p sid cid) (stopped_row now reason source) s'"
proof (cases "find_subagent_run list_runs s p sid cid")
  case None
  then show ?thesis using assms(1) by (simp add: stop_subagent_run_def rewrites_one_def)
next
  case (Some r)
  from write_back [OF assms Some, of "stopped_row now reason source"] Some show ?thesis
    by (auto simp: stop_subagent_run_def stopped_row_def)
qed

end

text \<open>The in-memory store.\<close>

definition memory_ok :: "InMemorySubagentStore \<Rightarrow> bool" where
  "memory_ok s = (\<forall>p rs. map_of (mg_runs_by_parent s) p = Some rs \<longrightarrow>
     distinct (map sr_subagent_run_id rs) \<and> (\<forall>r \<in> set rs. sr_parent_run_id r = p))"

lemma rows_of_parent_set [simp]: "rows_of_parent (alist_set p rs d) q = (if q = p then rs else rows_of_parent d q)"
  by (simp add: rows_of_parent_def)

lemma memory_ok_rows:
  "memory_ok s \<longleftrightarrow> (\<forall>p. distinct (map sr_subagent_run_id (memory_list_runs s p)) \<and> (\<forall>r \<in> set (memory_list_runs s p). sr_parent_run_id r = p))"
  by (auto simp: memory_ok_def memory_list_runs_def rows_of_parent_def split: option.splits)

text \<open>The identifier a keyed upsert runs under.\<close>

definition memory_row :: "SubagentRun \<Rightarrow> string option \<Rightarrow> InMemorySubagentStore \<Rightarrow> SubagentRun" where
  "memory_row r key s =
     (case key of
        None \<Rightarrow> r
      | Some k \<Rightarrow> if k = [] then r
          else (case map_of (mg_run_by_idempotency s) (sr_parent_run_id r, k) of
                  Some x \<Rightarrow> r\<lparr>sr_subagent_run_id := sr_subagent_run_id x\<rparr> | None \<Rightarrow> r))"

lemma memory_upsert_run_row:
  "fst (memory_upsert_run r key s) = Inr (memory_row r key s)"
  "memory_list_runs (snd (memory_upsert_run r key s)) p =
     (if p = sr_parent_run_id r then put_row sr_subagent_run_id (memory_row r key s) (memory_list_runs s p) else memory_list_runs s p)"
  "map_of (mg_run_by_idempotency (snd (memory_upsert_run r key s))) =
     (case key of None \<Rightarrow> map_of (mg_run_by_idempotency s)
        | Some k \<Rightarrow> if k = [] then map_of (mg_run_by_idempotency s)
            else (map_of (mg_run_by_idempotency s))((sr_parent_run_id r, k) \<mapsto> memory_row r key s))"
  by (auto simp: memory_upsert_run_def memory_row_def memory_list_runs_def Let_def split: option.splits)

lemma memory_row_parent [simp]: "sr_parent_run_id (memory_row r key s) = sr_parent_run_id r"
  by (simp add: memory_row_def split: option.split)

interpretation memory_rows: subagent_rows memory_upsert_run memory_list_runs memory_ok
proof (unfold_locales, goal_cases)
  case (1 s r k)
  then show ?case
    using set_put_row_subset [of sr_subagent_run_id "memory_row r k s" "memory_list_runs s (sr_parent_run_id r)"]
    by (auto simp: memory_ok_rows memory_upsert_run_row distinct_put_row)
next
  case (5 s r k r' p)
  then show ?case by (auto simp: memory_upsert_run_row memory_ok_rows set_put_row)
qed (auto simp: memory_ok_rows memory_upsert_run_row memory_row_def)

text \<open>The SQLite store.\<close>

definition sqlite_ok :: "SqliteSubagentStore \<Rightarrow> bool" where
  "sqlite_ok s = (distinct (map rr_subagent_run_id (sq_subagent_runs s))
     \<and> (\<forall>row \<in> set (sq_subagent_runs s). row = run_row (rr_payload row) (rr_idempotency_key row)))"

definition sqlite_row :: "SubagentRun \<Rightarrow> string option \<Rightarrow> SqliteSubagentStore \<Rightarrow> SubagentRun" where
  "sqlite_row r key s =
     (case key of
        None \<Rightarrow> r
      | Some k \<Rightarrow> if k = [] then r
          else (case keyed_row (sq_subagent_runs s) (sr_parent_run_id r) k of
                  Some row \<Rightarrow> r\<lparr>sr_subagent_run_id := sr_subagent_run_id (rr_payload row)\<rparr> | None \<Rightarrow> r))"

lemma sqlite_upsert_run_eq:
  "sqlite_upsert_run r key s =
     (if index_conflict (sq_subagent_runs s) (run_row (sqlite_row r key s) key) then (Inl ''IntegrityError'', s)
      else (Inr (sqlite_row r key s),
            s\<lparr>sq_subagent_runs := put_row rr_subagent_run_id (run_row (sqlite_row r key s) key) (sq_subagent_runs s)\<rparr>))"
  by (simp add: sqlite_upsert_run_def sqlite_row_def Let_def)

lemma sqlite_row_parent [simp]: "sr_parent_run_id (sqlite_row r key s) = sr_parent_run_id r"
  by (simp add: sqlite_row_def split: option.split)

lemma run_row_simps [simp]:
  "rr_subagent_run_id (run_row r k) = sr_subagent_run_id r" "rr_parent_run_id (run_row r k) = sr_parent_run_id r"
  "rr_idempotency_key (run_row r k) = k" "rr_payload (run_row r k) = r"
  by (simp_all add: run_row_def)

lemma sqlite_okD:
  assumes "sqlite_ok s" "row \<in> set (sq_subagent_runs s)"
  shows "rr_subagent_run_id row = sr_subagent_run_id (rr_payload row)" "rr_parent_run_id row = sr_parent_run_id (rr_payload row)"
  using assms unfolding sqlite_ok_def by (metis run_row_simps)+

lemma set_sqlite_list_runs: "set (sqlite_list_runs s p) = rr_payload ` {row \<in> set (sq_subagent_runs s). rr_parent_run_id row = p}"
  by (auto simp: sqlite_list_runs_def)

lemma sqlite_put_ok: "sqlite_ok s \<Longrightarrow> sqlite_ok (s\<lparr>sq_subagent_runs := put_row rr_subagent_run_id (run_row r k) (sq_subagent_runs s)\<rparr>)"
  using set_put_row_subset [of rr_subagent_run_id "run_row r k" "sq_subagent_runs s"]
  by (auto simp: sqlite_ok_def distinct_put_row)

lemma sqlite_put_list:
  assumes "sqlite_ok s" "\<And>q x. x \<in> set (sqlite_list_runs s q) \<Longrightarrow> sr_subagent_run_id x = sr_subagent_run_id r' \<Longrightarrow> q = sr_parent_run_id r'"
  shows "set (sqlite_list_runs (s\<lparr>sq_subagent_runs := put_row rr_subagent_run_id (run_row r' k) (sq_subagent_runs s)\<rparr>) p) =
    (if p = sr_parent_run_id r' then insert r' {x \<in> set (sqlite_list_runs s p). sr_subagent_run_id x \<noteq> sr_subagent_run_id r'}
     else set (sqlite_list_runs s p))"
proof -
  have d: "distinct (map rr_subagent_run_id (sq_subagent_runs s))" using assms(1) by (simp add: sqlite_ok_def)
  have own: "rr_parent_run_id row = sr_parent_run_id r'"
    if "row \<in> set (sq_subagent_runs s)" "rr_subagent_run_id row = sr_subagent_run_id r'" for row
    using assms(2) [of "rr_payload row" "rr_parent_run_id row"] that sqlite_okD [OF assms(1) that(1)]
    by (auto simp: set_sqlite_list_runs)
  let ?T = "set (sq_subagent_runs s)" and ?i = "sr_subagent_run_id r'"
  have "rr_payload ` {row \<in> ?T. rr_subagent_run_id row \<noteq> ?i \<and> rr_parent_run_id row = p}
      = {x \<in> rr_payload ` {row \<in> ?T. rr_parent_run_id row = p}. sr_subagent_run_id x \<noteq> ?i}"
    using sqlite_okD(1) [OF assms(1)] by auto
  moreover have "{row \<in> insert (run_row r' k) {row \<in> ?T. rr_subagent_run_id row \<noteq> ?i}. rr_parent_run_id row = p} =
      (if p = sr_parent_run_id r'
       then insert (run_row r' k) {row \<in> ?T. rr_subagent_run_id row \<noteq> ?i \<and> rr_parent_run_id row = p}
       else {row \<in> ?T. rr_parent_run_id row = p})"
    using own by auto
  ultimately show ?thesis
    by (cases "p = sr_parent_run_id r'") (auto simp: set_sqlite_list_runs set_put_row [OF d])
qed

interpretation sqlite_rows: subagent_rows sqlite_upsert_run sqlite_list_runs sqlite_ok
proof (unfold_locales, goal_cases)
  case (1 s r k)
  then show ?case by (simp add: sqlite_upsert_run_eq sqlite_put_ok)
next
  case (2 s r p)
  then show ?case using sqlite_okD by (auto simp: set_sqlite_list_runs)
next
  case (3 s p)
  let ?rows = "sort_key rr_subagent_run_id (filter (\<lambda>row. rr_parent_run_id row = p) (sq_subagent_runs s))"
  have "map sr_subagent_run_id (map rr_payload ?rows) = map rr_subagent_run_id ?rows"
    using sqlite_okD [OF 3] by simp
  moreover have "distinct (map rr_subagent_run_id ?rows)"
    using 3 by (auto simp: sqlite_ok_def distinct_map inj_on_def)
  ultimately show ?case unfolding sqlite_list_runs_def by metis
next
  case (4 s r)
  then show ?case by (simp add: sqlite_upsert_run_eq index_conflict_def sqlite_row_def)
next
  case (5 s r k r' p)
  then have r': "r' = sqlite_row r k s" "\<not> index_conflict (sq_subagent_runs s) (run_row (sqlite_row r k s) k)"
    by (auto simp: sqlite_upsert_run_eq split: if_splits)
  with 5 sqlite_put_list [of s r' k p] show ?case by (auto simp: sqlite_upsert_run_eq)
qed

section \<open>Stopping a child\<close>

text \<open>In both stores a stop of a child marks exactly the row it finds as cancelled, keeps every other row of
  every parent, and without such a row changes nothing, as long as no identifier is shared between parents.\<close>

lemma stop_cancels_one_child:
  assumes "memory_ok m" "unshared memory_list_runs m" "sqlite_ok q" "unshared sqlite_list_runs q"
  shows "(\<exists>m'. stop_subagent_run memory_upsert_run memory_list_runs now p sid cid reason source m
          = (Inr (map_option (stopped_row now reason source) (find_subagent_run memory_list_runs m p sid cid)), m')
        \<and> rewrites_one memory_list_runs m p (find_subagent_run memory_list_runs m p sid cid) (stopped_row now reason source) m')
    \<and> (\<exists>q'. stop_subagent_run sqlite_upsert_run sqlite_list_runs now p sid cid reason source q
          = (Inr (map_option (stopped_row now reason source) (find_subagent_run sqlite_list_runs q p sid cid)), q')
        \<and> rewrites_one sqlite_list_runs q p (find_subagent_run sqlite_list_runs q p sid cid) (stopped_row now reason source) q')"
  using memory_rows.stop_effect [OF assms(1,2), of now p sid cid reason source]
    sqlite_rows.stop_effect [OF assms(3,4), of now p sid cid reason source] by blast

section \<open>Spawning a child under a key\<close>

datatype subagent_call = Upsert_Run SubagentRun "string option" | Upsert_Group SubagentGroup

fun memory_call :: "subagent_call \<Rightarrow> InMemorySubagentStore \<Rightarrow> InMemorySubagentStore" where
  "memory_call (Upsert_Run r k) s = snd (memory_upsert_run r k s)"
| "memory_call (Upsert_Group g) s = snd (memory_upsert_group g s)"

fun sqlite_call :: "subagent_call \<Rightarrow> SqliteSubagentStore \<Rightarrow> SqliteSubagentStore" where
  "sqlite_call (Upsert_Run r k) s = snd (sqlite_upsert_run r k s)"
| "sqlite_call (Upsert_Group g) s = snd (sqlite_upsert_group g s)"

lemma memory_key_call:
  assumes "map_option sr_subagent_run_id (map_of (mg_run_by_idempotency s) (p, k)) = Some i"
  shows "map_option sr_subagent_run_id (map_of (mg_run_by_idempotency (memory_call c s)) (p, k)) = Some i"
  using assms
  by (cases c) (auto simp: memory_upsert_run_row memory_row_def memory_upsert_group_def split: option.splits)

lemma memory_key_calls:
  "map_option sr_subagent_run_id (map_of (mg_run_by_idempotency s) (p, k)) = Some i \<Longrightarrow>
   map_option sr_subagent_run_id (map_of (mg_run_by_idempotency (fold memory_call cs s)) (p, k)) = Some i"
proof (induction cs arbitrary: s)
  case (Cons c cs)
  from Cons.IH [OF memory_key_call [OF Cons.prems]] show ?case by simp
qed simp

text \<open>In the SQLite table the key of an identifier is what its last update carried.\<close>

definition sqlite_index_ok :: "SqliteSubagentStore \<Rightarrow> bool" where
  "sqlite_index_ok s = (\<forall>x \<in> set (sq_subagent_runs s). \<forall>y \<in> set (sq_subagent_runs s).
     rr_idempotency_key x \<noteq> None \<longrightarrow> rr_idempotency_key x = rr_idempotency_key y \<longrightarrow> rr_parent_run_id x = rr_parent_run_id y \<longrightarrow>
     rr_subagent_run_id x = rr_subagent_run_id y)"

lemma sqlite_index_call: "sqlite_ok s \<Longrightarrow> sqlite_index_ok s \<Longrightarrow> sqlite_ok (sqlite_call c s) \<and> sqlite_index_ok (sqlite_call c s)"
proof (cases c)
  case (Upsert_Run r k)
  assume s: "sqlite_ok s" "sqlite_index_ok s"
  let ?row = "run_row (sqlite_row r k s) k"
  have d: "distinct (map rr_subagent_run_id (sq_subagent_runs s))" using s(1) by (simp add: sqlite_ok_def)
  show ?thesis
  proof (cases "index_conflict (sq_subagent_runs s) ?row")
    case False
    let ?put = "insert ?row {x \<in> set (sq_subagent_runs s). rr_subagent_run_id x \<noteq> rr_subagent_run_id ?row}"
    have new: "rr_parent_run_id z \<noteq> rr_parent_run_id ?row \<or> rr_idempotency_key z \<noteq> rr_idempotency_key ?row"
      if "z \<in> ?put" "z \<noteq> ?row" "rr_idempotency_key ?row \<noteq> None" for z
      using False that unfolding index_conflict_def list_ex_iff by blast
    have uniq: "rr_subagent_run_id x = rr_subagent_run_id y"
      if xy: "x \<in> ?put" "y \<in> ?put" "rr_idempotency_key x \<noteq> None" "rr_idempotency_key x = rr_idempotency_key y"
        "rr_parent_run_id x = rr_parent_run_id y" for x y
    proof (cases "x = ?row \<or> y = ?row")
      case True
      with new [OF xy(1)] new [OF xy(2)] xy(3-5) show ?thesis by metis
    next
      case False
      with xy have "x \<in> set (sq_subagent_runs s)" "y \<in> set (sq_subagent_runs s)" by auto
      with s(2) xy(3-5) show ?thesis unfolding sqlite_index_ok_def by blast
    qed
    have put: "set (sq_subagent_runs (s\<lparr>sq_subagent_runs := put_row rr_subagent_run_id ?row (sq_subagent_runs s)\<rparr>)) = ?put"
      by (simp add: set_put_row [OF d])
    have "sqlite_index_ok (s\<lparr>sq_subagent_runs := put_row rr_subagent_run_id ?row (sq_subagent_runs s)\<rparr>)"
      unfolding sqlite_index_ok_def put by (intro ballI impI uniq)
    with False s(1) Upsert_Run show ?thesis by (simp add: sqlite_upsert_run_eq sqlite_put_ok)
  qed (use s Upsert_Run in \<open>simp add: sqlite_upsert_run_eq\<close>)
qed (simp add: sqlite_upsert_group_def sqlite_ok_def sqlite_index_ok_def)

definition has_key :: "SqliteSubagentStore \<Rightarrow> string \<Rightarrow> string \<Rightarrow> string \<Rightarrow> bool" where
  "has_key s p k i = (\<exists>row \<in> set (sq_subagent_runs s).
     rr_subagent_run_id row = i \<and> rr_parent_run_id row = p \<and> rr_idempotency_key row = Some k)"

text \<open>The calls that keep the key of an identifier: those on other rows, and those that carry the key.\<close>

fun carries_key :: "string \<Rightarrow> string \<Rightarrow> string \<Rightarrow> subagent_call \<Rightarrow> bool" where
  "carries_key p k i (Upsert_Run r key) = (sr_subagent_run_id r = i \<longrightarrow> key = Some k \<and> sr_parent_run_id r = p)"
| "carries_key p k i (Upsert_Group g) = True"

lemma keyed_row_SomeD:
  "keyed_row t p k = Some row \<Longrightarrow> row \<in> set t \<and> rr_parent_run_id row = p \<and> rr_idempotency_key row = Some k"
  by (auto simp: keyed_row_def find_Some_iff)

lemma has_key_call:
  assumes "sqlite_ok s" "has_key s p k i" "carries_key p k i c"
  shows "has_key (sqlite_call c s) p k i"
proof (cases c)
  case (Upsert_Run r key)
  let ?r = "sqlite_row r key s"
  obtain row where row: "row \<in> set (sq_subagent_runs s)" "rr_subagent_run_id row = i" "rr_parent_run_id row = p"
    "rr_idempotency_key row = Some k" using assms(2) by (auto simp: has_key_def)
  have d: "distinct (map rr_subagent_run_id (sq_subagent_runs s))" using assms(1) by (simp add: sqlite_ok_def)
  have same: "key = Some k \<and> sr_parent_run_id r = p" if id: "sr_subagent_run_id ?r = i"
  proof (cases "sr_subagent_run_id r = i")
    case True
    with assms(3) Upsert_Run show ?thesis by simp
  next
    case False
    with id obtain k' row' where k': "key = Some k'" "keyed_row (sq_subagent_runs s) (sr_parent_run_id r) k' = Some row'"
        "sr_subagent_run_id (rr_payload row') = i"
      by (auto simp: sqlite_row_def split: option.splits if_splits)
    note row' = keyed_row_SomeD [OF k'(2)]
    with k'(3) sqlite_okD(1) [OF assms(1)] have "rr_subagent_run_id row' = rr_subagent_run_id row" using row(2) by simp
    with d row(1) row' have "row' = row" by (auto simp: distinct_map inj_on_def)
    with row row' k'(1) show ?thesis by simp
  qed
  show ?thesis
    using row same Upsert_Run
    by (auto simp: has_key_def sqlite_upsert_run_eq set_put_row [OF d] intro: bexI [of _ row])
qed (use assms(2) in \<open>simp add: has_key_def sqlite_upsert_group_def\<close>)

lemma has_key_calls:
  assumes "sqlite_ok s" "sqlite_index_ok s" "has_key s p k i" "list_all (carries_key p k i) cs"
  shows "sqlite_ok (fold sqlite_call cs s) \<and> sqlite_index_ok (fold sqlite_call cs s) \<and> has_key (fold sqlite_call cs s) p k i"
  using assms by (induction cs arbitrary: s) (auto simp: has_key_call sqlite_index_call)

lemma has_key_spawn:
  assumes "sqlite_index_ok s" "sqlite_ok s" "has_key s (sr_parent_run_id r) k i" "k \<noteq> []" "fst (sqlite_upsert_run r (Some k) s) = Inr r'"
  shows "sr_subagent_run_id r' = i"
proof -
  obtain row where row: "keyed_row (sq_subagent_runs s) (sr_parent_run_id r) k = Some row"
    using assms(3) by (cases "keyed_row (sq_subagent_runs s) (sr_parent_run_id r) k") (auto simp: has_key_def keyed_row_def find_None_iff)
  note D = keyed_row_SomeD [OF row]
  then have "rr_subagent_run_id row = i" using assms(1,3) unfolding has_key_def sqlite_index_ok_def by (metis option.distinct(1))
  then have "sr_subagent_run_id (rr_payload row) = i" using sqlite_okD(1) [OF assms(2)] D by simp
  with assms(4,5) row show ?thesis by (auto simp: sqlite_upsert_run_eq sqlite_row_def split: if_splits)
qed

lemma spawn_has_key:
  assumes "sqlite_ok s" "k \<noteq> []" "fst (sqlite_upsert_run r (Some k) s) = Inr r'"
  shows "has_key (snd (sqlite_upsert_run r (Some k) s)) (sr_parent_run_id r) k (sr_subagent_run_id r')"
proof -
  have "distinct (map rr_subagent_run_id (sq_subagent_runs s))" using assms(1) by (simp add: sqlite_ok_def)
  with assms(3) show ?thesis by (auto simp: sqlite_upsert_run_eq has_key_def set_put_row split: if_splits)
qed

text \<open>C32. A child spawned under a key keeps its identifier: after any calls, spawning again under the same parent
  and key answers with the same identifier. The SQLite store keeps this promise only if every update of the
  child in between carries the key.\<close>

theorem child_spawn_idempotent:
  assumes "k \<noteq> []" "sr_parent_run_id r2 = sr_parent_run_id r"
  shows "(fst (memory_upsert_run r (Some k) m) = Inr spawned \<longrightarrow>
          fst (memory_upsert_run r2 (Some k) (fold memory_call cs (snd (memory_upsert_run r (Some k) m)))) = Inr again \<longrightarrow>
          sr_subagent_run_id again = sr_subagent_run_id spawned)
    \<and> (sqlite_ok q \<longrightarrow> sqlite_index_ok q \<longrightarrow> fst (sqlite_upsert_run r (Some k) q) = Inr spawned \<longrightarrow>
          list_all (carries_key (sr_parent_run_id r) k (sr_subagent_run_id spawned)) cs \<longrightarrow>
          fst (sqlite_upsert_run r2 (Some k) (fold sqlite_call cs (snd (sqlite_upsert_run r (Some k) q)))) = Inr again \<longrightarrow>
          sr_subagent_run_id again = sr_subagent_run_id spawned)"
proof (intro conjI impI)
  assume 1: "fst (memory_upsert_run r (Some k) m) = Inr spawned"
    and 3: "fst (memory_upsert_run r2 (Some k) (fold memory_call cs (snd (memory_upsert_run r (Some k) m)))) = Inr again"
  let ?m = "fold memory_call cs (snd (memory_upsert_run r (Some k) m))"
  have "map_option sr_subagent_run_id (map_of (mg_run_by_idempotency ?m) (sr_parent_run_id r, k)) = Some (sr_subagent_run_id spawned)"
    using 1 assms(1) by (intro memory_key_calls) (simp add: memory_upsert_run_row)
  then show "sr_subagent_run_id again = sr_subagent_run_id spawned"
    using 3 assms by (auto simp: memory_upsert_run_row memory_row_def)
next
  assume q: "sqlite_ok q" "sqlite_index_ok q" and 1: "fst (sqlite_upsert_run r (Some k) q) = Inr spawned"
    and cs: "list_all (carries_key (sr_parent_run_id r) k (sr_subagent_run_id spawned)) cs"
    and 3: "fst (sqlite_upsert_run r2 (Some k) (fold sqlite_call cs (snd (sqlite_upsert_run r (Some k) q)))) = Inr again"
  have "sqlite_ok (snd (sqlite_upsert_run r (Some k) q)) \<and> sqlite_index_ok (snd (sqlite_upsert_run r (Some k) q))"
    using sqlite_index_call [OF q, of "Upsert_Run r (Some k)"] by simp
  with has_key_calls [OF _ _ spawn_has_key [OF q(1) assms(1) 1] cs]
  show "sr_subagent_run_id again = sr_subagent_run_id spawned" by (intro has_key_spawn [OF _ _ _ assms(1) 3]) (simp_all add: assms(2))
qed

section \<open>A stop forgets the key\<close>

definition sample_child :: "string \<Rightarrow> SubagentRun" where
  "sample_child i = \<lparr>sr_subagent_run_id = i, sr_parent_run_id = ''run'', sr_child_run_id = None, sr_task_id = ''t'',
     sr_status = SS_RUNNING, sr_terminal_state = None, sr_latency_ms = None, sr_metadata = [], sr_other_fields = []\<rparr>"

definition sample_memory :: InMemorySubagentStore where
  "sample_memory = snd (memory_upsert_run (sample_child ''a'') (Some ''key'') empty_memory)"

definition sample_sqlite :: SqliteSubagentStore where
  "sample_sqlite = snd (sqlite_upsert_run (sample_child ''a'') (Some ''key'') empty_sqlite)"

text \<open>After a stop, which writes the row back without its key, the SQLite store spawns a second child where the
  in-memory store answers with the first.\<close>

lemma stop_forgets_key:
  "(let m = snd (stop_subagent_run memory_upsert_run memory_list_runs ''now'' ''run'' (Some ''a'') None None ''tool'' sample_memory)
    in map_sum id sr_subagent_run_id (fst (memory_upsert_run (sample_child ''b'') (Some ''key'') m))) = Inr ''a''"
  "(let q = snd (stop_subagent_run sqlite_upsert_run sqlite_list_runs ''now'' ''run'' (Some ''a'') None None ''tool'' sample_sqlite)
    in map_sum id sr_subagent_run_id (fst (sqlite_upsert_run (sample_child ''b'') (Some ''key'') q))) = Inr ''b''"
  by code_simp+

lemma memory_empty [simp]: "memory_list_runs empty_memory p = []" "mg_run_by_idempotency empty_memory = []"
  by (simp_all add: empty_memory_def memory_list_runs_def rows_of_parent_def)

lemma sample_child_simps [simp]: "sr_subagent_run_id (sample_child i) = i" "sr_parent_run_id (sample_child i) = ''run''"
  by (simp_all add: sample_child_def)

lemma sample_ok:
  "memory_ok sample_memory" "sqlite_ok sample_sqlite" "sqlite_index_ok empty_sqlite" "sqlite_ok empty_sqlite"
  "memory_list_runs sample_memory p = (if p = ''run'' then [sample_child ''a''] else [])"
  "sqlite_list_runs sample_sqlite p = (if p = ''run'' then [sample_child ''a''] else [])"
proof -
  show m: "memory_list_runs sample_memory p = (if p = ''run'' then [sample_child ''a''] else [])" for p
    by (simp add: sample_memory_def memory_upsert_run_row memory_row_def)
  show "memory_ok sample_memory" by (simp add: memory_ok_rows m)
  have q: "sq_subagent_runs sample_sqlite = [run_row (sample_child ''a'') (Some ''key'')]"
    by (simp add: sample_sqlite_def sqlite_upsert_run_eq empty_sqlite_def sqlite_row_def keyed_row_def index_conflict_def)
  show "sqlite_ok sample_sqlite" by (simp add: sqlite_ok_def q)
  show "sqlite_list_runs sample_sqlite p = (if p = ''run'' then [sample_child ''a''] else [])"
    by (simp add: sqlite_list_runs_def q)
  show "sqlite_index_ok empty_sqlite" "sqlite_ok empty_sqlite" by (simp_all add: sqlite_index_ok_def sqlite_ok_def empty_sqlite_def)
qed

lemma stop_cancels_one_child_witness:
  "\<exists>q'. stop_subagent_run sqlite_upsert_run sqlite_list_runs ''now'' ''run'' (Some ''a'') None None ''tool'' sample_sqlite
      = (Inr (Some (stopped_row ''now'' None ''tool'' (sample_child ''a''))), q')
    \<and> set (sqlite_list_runs q' ''run'') = {stopped_row ''now'' None ''tool'' (sample_child ''a'')}"
proof -
  have u: "unshared memory_list_runs sample_memory" "unshared sqlite_list_runs sample_sqlite"
    by (simp_all add: unshared_def sample_ok)
  have f: "find_subagent_run sqlite_list_runs sample_sqlite ''run'' (Some ''a'') None = Some (sample_child ''a'')" by code_simp
  from stop_cancels_one_child [OF sample_ok(1) u(1) sample_ok(2) u(2), of "''now''" "''run''" "Some ''a''" None None "''tool''"]
  show ?thesis unfolding f rewrites_one_def by (auto simp: sample_ok)
qed

theorem child_spawn_idempotent_witness:
  "map_sum id sr_subagent_run_id (fst (sqlite_upsert_run (sample_child ''b'') (Some ''key'')
     (sqlite_call (Upsert_Run (sample_child ''c'') None) sample_sqlite))) = Inr ''a''"
proof -
  let ?a = "sample_child ''a''" and ?b = "sample_child ''b''" and ?c = "Upsert_Run (sample_child ''c'') None"
  have s: "fst (sqlite_upsert_run ?a (Some ''key'') empty_sqlite) = Inr ?a"
    by (simp add: sqlite_upsert_run_eq empty_sqlite_def sqlite_row_def keyed_row_def index_conflict_def)
  let ?again = "fst (sqlite_upsert_run ?b (Some ''key'') (sqlite_call ?c sample_sqlite))"
  have "\<not> isl ?again" by code_simp
  then obtain again where again: "?again = Inr again" by (cases ?again) auto
  have "sr_subagent_run_id again = sr_subagent_run_id ?a"
    using child_spawn_idempotent [of "''key''" ?b ?a, where cs = "[?c]" and q = empty_sqlite and spawned = ?a and again = again]
      s again sample_ok(3,4) by (simp add: sample_sqlite_def)
  with again show ?thesis by simp
qed

end
