(* ===== verification/Subagent_Mailbox.thy ===== *)
theory Subagent_Mailbox
  imports Subagent_Store
begin

text \<open>
  The mailbox between a parent and its subagents (\<open>contracts/subagent_mailbox.py\<close>, \<open>subagents/mailbox.py\<close>): the
  in-memory store keeps a dictionary and the order of arrival, the SQLite store a table with a partial
  unique index. Its clients are the continuation of a child (\<open>subagents/control.py\<close>) and the collection of a
  parent's items (\<open>subagents/status.py\<close>).
\<close>

section \<open>Items\<close>

datatype SubagentMailboxDirection = PARENT_TO_CHILD | CHILD_TO_PARENT

datatype SubagentMailboxKind =
    MK_MESSAGE | MK_PERMISSION_REQUEST | MK_PERMISSION_RESPONSE | MK_PLAN_APPROVAL_REQUEST
  | MK_PLAN_APPROVAL_RESPONSE | MK_TASK_NOTIFICATION

datatype SubagentMailboxStatus = MS_QUEUED | MS_DELIVERED | MS_ACKNOWLEDGED | MS_CANCELLED

record SubagentMailboxItem =
  mb_mailbox_id :: string
  mb_parent_run_id :: string
  mb_direction :: SubagentMailboxDirection
  mb_kind :: SubagentMailboxKind
  mb_status :: SubagentMailboxStatus
  mb_subagent_run_id :: "string option"
  mb_child_run_id :: "string option"
  mb_group_id :: "string option"
  mb_payload :: pydict
  mb_source :: string
  mb_dedupe_key :: "string option"
  mb_created_at :: string
  mb_updated_at :: string
  mb_delivered_at :: "string option"
  mb_acknowledged_at :: "string option"
  mb_cancelled_at :: "string option"
  mb_metadata :: pydict

definition matches_mailbox_route :: "SubagentMailboxItem \<Rightarrow> string option \<Rightarrow> string option \<Rightarrow> string option \<Rightarrow> bool" where
  "matches_mailbox_route it p sid cid =
     ((case p of Some x \<Rightarrow> mb_parent_run_id it = x | None \<Rightarrow> True)
      \<and> (sid \<noteq> None \<longrightarrow> mb_subagent_run_id it = sid) \<and> (cid \<noteq> None \<longrightarrow> mb_child_run_id it = cid))"

text \<open>The copy of an item with a new status, the time of the change, and the time stamp of that status.\<close>

fun with_status :: "SubagentMailboxStatus \<Rightarrow> string \<Rightarrow> SubagentMailboxItem \<Rightarrow> SubagentMailboxItem" where
  "with_status MS_QUEUED now it = it\<lparr>mb_status := MS_QUEUED, mb_updated_at := now\<rparr>"
| "with_status MS_DELIVERED now it = it\<lparr>mb_status := MS_DELIVERED, mb_updated_at := now, mb_delivered_at := Some now\<rparr>"
| "with_status MS_ACKNOWLEDGED now it = it\<lparr>mb_status := MS_ACKNOWLEDGED, mb_updated_at := now, mb_acknowledged_at := Some now\<rparr>"
| "with_status MS_CANCELLED now it = it\<lparr>mb_status := MS_CANCELLED, mb_updated_at := now, mb_cancelled_at := Some now\<rparr>"

lemma with_status_simps [simp]:
  "mb_mailbox_id (with_status st now it) = mb_mailbox_id it" "mb_status (with_status st now it) = st"
  "mb_parent_run_id (with_status st now it) = mb_parent_run_id it" "mb_dedupe_key (with_status st now it) = mb_dedupe_key it"
  by (cases st; simp)+

declare with_status.simps [simp del]

text \<open>\<open>_dedupe_match\<close> over the pending items of the parent.\<close>

definition mailbox_dedupe_match :: "SubagentMailboxItem \<Rightarrow> SubagentMailboxItem list \<Rightarrow> SubagentMailboxItem option" where
  "mailbox_dedupe_match it pend =
     (if \<not> str_truthy (mb_dedupe_key it) then None
      else List.find (\<lambda>e. mb_direction e = mb_direction it \<and> mb_kind e = mb_kind it \<and> mb_source e = mb_source it
                          \<and> mb_dedupe_key e = mb_dedupe_key it) pend)"

section \<open>The in-memory store\<close>

record InMemorySubagentMailboxStore =
  mm_items :: "(string \<times> SubagentMailboxItem) list"
  mm_order :: "string list"

definition mailbox_ordered_items :: "InMemorySubagentMailboxStore \<Rightarrow> SubagentMailboxItem list" where
  "mailbox_ordered_items s = List.map_filter (map_of (mm_items s)) (mm_order s)"

definition mm_list_pending ::
  "InMemorySubagentMailboxStore \<Rightarrow> string option \<Rightarrow> string option \<Rightarrow> string option \<Rightarrow> SubagentMailboxItem list" where
  "mm_list_pending s p sid cid = filter (\<lambda>it. mb_status it = MS_QUEUED \<and> matches_mailbox_route it p sid cid) (mailbox_ordered_items s)"

definition mm_list_for_parent :: "InMemorySubagentMailboxStore \<Rightarrow> string \<Rightarrow> SubagentMailboxItem list" where
  "mm_list_for_parent s p = filter (\<lambda>it. mb_parent_run_id it = p) (mailbox_ordered_items s)"

definition mm_get :: "InMemorySubagentMailboxStore \<Rightarrow> string \<Rightarrow> SubagentMailboxItem option" where
  "mm_get s i = map_of (mm_items s) i"

definition mm_enqueue ::
  "SubagentMailboxItem \<Rightarrow> InMemorySubagentMailboxStore \<Rightarrow> (string + SubagentMailboxItem) \<times> InMemorySubagentMailboxStore" where
  "mm_enqueue it s =
     (case mailbox_dedupe_match it (mm_list_pending s (Some (mb_parent_run_id it)) None None) of
        Some e \<Rightarrow> (Inr e, s)
      | None \<Rightarrow> (Inr it, s\<lparr>mm_items := alist_set (mb_mailbox_id it) it (mm_items s), mm_order := mm_order s @ [mb_mailbox_id it]\<rparr>))"

text \<open>\<open>mark_delivered\<close>, \<open>acknowledge\<close> and \<open>cancel\<close> are this operation at their status.\<close>

definition mm_update_status ::
  "SubagentMailboxStatus \<Rightarrow> string \<Rightarrow> string \<Rightarrow> InMemorySubagentMailboxStore
     \<Rightarrow> (string + SubagentMailboxItem option) \<times> InMemorySubagentMailboxStore" where
  "mm_update_status st now i s =
     (case map_of (mm_items s) i of
        None \<Rightarrow> (Inr None, s)
      | Some it \<Rightarrow> (Inr (Some (with_status st now it)), s\<lparr>mm_items := alist_set i (with_status st now it) (mm_items s)\<rparr>))"

section \<open>The SQLite store\<close>

text \<open>A row is the item its payload encodes; the columns copy fields of the item.\<close>

type_synonym SqliteSubagentMailboxStore = "SubagentMailboxItem list"

definition mq_sorted :: "SubagentMailboxItem list \<Rightarrow> SubagentMailboxItem list" where
  "mq_sorted its = sort_key (\<lambda>it. (mb_created_at it, mb_mailbox_id it)) its"

definition mq_list_pending ::
  "SqliteSubagentMailboxStore \<Rightarrow> string option \<Rightarrow> string option \<Rightarrow> string option \<Rightarrow> SubagentMailboxItem list" where
  "mq_list_pending t p sid cid =
     filter (\<lambda>it. matches_mailbox_route it p sid cid) (mq_sorted (filter (\<lambda>it. mb_status it = MS_QUEUED) t))"

definition mq_list_for_parent :: "SqliteSubagentMailboxStore \<Rightarrow> string \<Rightarrow> SubagentMailboxItem list" where
  "mq_list_for_parent t p = mq_sorted (filter (\<lambda>it. mb_parent_run_id it = p) t)"

definition mq_get :: "SqliteSubagentMailboxStore \<Rightarrow> string \<Rightarrow> SubagentMailboxItem option" where
  "mq_get t i = List.find (\<lambda>it. mb_mailbox_id it = i) t"

text \<open>The unique index over parent and key of the queued items with a key.\<close>

definition mq_conflict :: "SqliteSubagentMailboxStore \<Rightarrow> SubagentMailboxItem \<Rightarrow> bool" where
  "mq_conflict t it =
     (mb_dedupe_key it \<noteq> None \<and> mb_status it = MS_QUEUED
      \<and> list_ex (\<lambda>e. mb_mailbox_id e \<noteq> mb_mailbox_id it \<and> mb_status e = MS_QUEUED
                     \<and> mb_parent_run_id e = mb_parent_run_id it \<and> mb_dedupe_key e = mb_dedupe_key it) t)"

definition mq_upsert :: "SubagentMailboxItem \<Rightarrow> SqliteSubagentMailboxStore \<Rightarrow> (string + unit) \<times> SqliteSubagentMailboxStore" where
  "mq_upsert it t = (if mq_conflict t it then (Inl ''IntegrityError'', t) else (Inr (), put_row mb_mailbox_id it t))"

definition mq_enqueue ::
  "SubagentMailboxItem \<Rightarrow> SqliteSubagentMailboxStore \<Rightarrow> (string + SubagentMailboxItem) \<times> SqliteSubagentMailboxStore" where
  "mq_enqueue it t =
     (case mailbox_dedupe_match it (mq_list_pending t (Some (mb_parent_run_id it)) None None) of
        Some e \<Rightarrow> (Inr e, t)
      | None \<Rightarrow> (case mq_upsert it t of (Inl e, t1) \<Rightarrow> (Inl e, t1) | (Inr _, t1) \<Rightarrow> (Inr it, t1)))"

definition mq_update_status ::
  "SubagentMailboxStatus \<Rightarrow> string \<Rightarrow> string \<Rightarrow> SqliteSubagentMailboxStore
     \<Rightarrow> (string + SubagentMailboxItem option) \<times> SqliteSubagentMailboxStore" where
  "mq_update_status st now i t =
     (case mq_get t i of
        None \<Rightarrow> (Inr None, t)
      | Some it \<Rightarrow>
          (case mq_upsert (with_status st now it) t of
             (Inl e, t1) \<Rightarrow> (Inl e, t1)
           | (Inr _, t1) \<Rightarrow> (Inr (Some (with_status st now it)), t1)))"

section \<open>Clients\<close>

fun collect_loop ::
  "(SubagentMailboxStatus \<Rightarrow> string \<Rightarrow> string \<Rightarrow> 's \<Rightarrow> (string + SubagentMailboxItem option) \<times> 's) \<Rightarrow> bool \<Rightarrow> string
     \<Rightarrow> SubagentMailboxItem list \<Rightarrow> 's \<Rightarrow> (string + SubagentMailboxItem list) \<times> 's" where
  "collect_loop update mark now [] s = (Inr [], s)"
| "collect_loop update mark now (it # its) s =
     (let (row, s1) = (if mark then (case update MS_DELIVERED now (mb_mailbox_id it) s of
                                       (Inl e, s1) \<Rightarrow> (Inl e, s1)
                                     | (Inr x, s1) \<Rightarrow> (Inr (case x of Some y \<Rightarrow> y | None \<Rightarrow> it), s1))
                       else (Inr it, s))
      in case row of
           Inl e \<Rightarrow> (Inl e, s1)
         | Inr r \<Rightarrow> (case collect_loop update mark now its s1 of
                        (Inl e, s2) \<Rightarrow> (Inl e, s2)
                      | (Inr rs, s2) \<Rightarrow> (Inr (r # rs), s2)))"

definition collect_subagent_mailbox ::
  "('s \<Rightarrow> string option \<Rightarrow> string option \<Rightarrow> string option \<Rightarrow> SubagentMailboxItem list)
     \<Rightarrow> (SubagentMailboxStatus \<Rightarrow> string \<Rightarrow> string \<Rightarrow> 's \<Rightarrow> (string + SubagentMailboxItem option) \<times> 's)
     \<Rightarrow> string \<Rightarrow> string \<Rightarrow> bool \<Rightarrow> 's \<Rightarrow> (string + SubagentMailboxItem list) \<times> 's" where
  "collect_subagent_mailbox list_pending update now p mark s =
     collect_loop update mark now (list_pending s (Some p) None None) s"

text \<open>\<open>append_subagent_continuation\<close>: the row with the message appended, and the item for the mailbox if there is one.\<close>

definition continued_row :: "string \<Rightarrow> string \<Rightarrow> string \<Rightarrow> pydict \<Rightarrow> SubagentRun \<Rightarrow> SubagentRun" where
  "continued_row now text source md r =
     (let entry = PDict ([(''message'', PStr text), (''source'', PStr source), (''created_at'', PStr now)]
                         @ (if md \<noteq> [] then [(''metadata'', PDict md)] else []));
          old = (case dict_get (sr_metadata r) ''continuation_messages'' of PList xs \<Rightarrow> xs | _ \<Rightarrow> [])
      in r\<lparr>sr_metadata := dict_set ''continuation_messages'' (PList (old @ [entry])) (sr_metadata r)\<rparr>)"

definition continuation_item :: "string \<Rightarrow> string \<Rightarrow> string \<Rightarrow> string \<Rightarrow> string \<Rightarrow> pydict \<Rightarrow> SubagentRun \<Rightarrow> SubagentMailboxItem" where
  "continuation_item fresh now p text source md r =
     \<lparr>mb_mailbox_id = fresh, mb_parent_run_id = p, mb_direction = PARENT_TO_CHILD, mb_kind = MK_MESSAGE, mb_status = MS_QUEUED,
      mb_subagent_run_id = Some (sr_subagent_run_id r), mb_child_run_id = sr_child_run_id r, mb_group_id = None,
      mb_payload = [(''message'', PStr text)], mb_source = source, mb_dedupe_key = None, mb_created_at = now, mb_updated_at = now,
      mb_delivered_at = None, mb_acknowledged_at = None, mb_cancelled_at = None, mb_metadata = md\<rparr>"

definition append_subagent_continuation ::
  "(SubagentRun \<Rightarrow> string option \<Rightarrow> 's \<Rightarrow> (string + SubagentRun) \<times> 's) \<Rightarrow> ('s \<Rightarrow> string \<Rightarrow> SubagentRun list)
     \<Rightarrow> (SubagentMailboxItem \<Rightarrow> 'm \<Rightarrow> (string + SubagentMailboxItem) \<times> 'm) \<Rightarrow> string \<Rightarrow> string \<Rightarrow> string \<Rightarrow> string
     \<Rightarrow> string option \<Rightarrow> string option \<Rightarrow> string \<Rightarrow> pydict \<Rightarrow> 's \<Rightarrow> 'm option \<Rightarrow> (string + SubagentRun option) \<times> 's \<times> 'm option" where
  "append_subagent_continuation upsert list_runs enqueue fresh now p message sid cid source md s mb =
     (let text = py_strip message
      in if text = [] then (Inr None, s, mb)
         else
           (case find_subagent_run list_runs s p sid cid of
              None \<Rightarrow> (Inr None, s, mb)
            | Some r \<Rightarrow>
                (case upsert (continued_row now text source md r) None s of
                   (Inl e, s1) \<Rightarrow> (Inl e, s1, mb)
                 | (Inr saved, s1) \<Rightarrow>
                     (case mb of
                        None \<Rightarrow> (Inr (Some saved), s1, None)
                      | Some box \<Rightarrow>
                          (case enqueue (continuation_item fresh now p text source md saved) box of
                             (Inl e, box1) \<Rightarrow> (Inl e, s1, Some box1)
                           | (Inr _, box1) \<Rightarrow> (Inr (Some saved), s1, Some box1))))))"

section \<open>What both mailboxes promise\<close>

locale mailbox_store =
  fixes enqueue :: "SubagentMailboxItem \<Rightarrow> 's \<Rightarrow> (string + SubagentMailboxItem) \<times> 's"
    and get :: "'s \<Rightarrow> string \<Rightarrow> SubagentMailboxItem option"
    and list_pending :: "'s \<Rightarrow> string option \<Rightarrow> string option \<Rightarrow> string option \<Rightarrow> SubagentMailboxItem list"
    and update_status :: "SubagentMailboxStatus \<Rightarrow> string \<Rightarrow> string \<Rightarrow> 's \<Rightarrow> (string + SubagentMailboxItem option) \<times> 's"
    and ok :: "'s \<Rightarrow> bool"
  assumes get_id: "ok s \<Longrightarrow> get s i = Some it \<Longrightarrow> mb_mailbox_id it = i"
    and pending_iff: "ok s \<Longrightarrow> it \<in> set (list_pending s p sid cid) \<longleftrightarrow>
      get s (mb_mailbox_id it) = Some it \<and> mb_status it = MS_QUEUED \<and> matches_mailbox_route it p sid cid"
    and pending_distinct: "ok s \<Longrightarrow> distinct (map mb_mailbox_id (list_pending s p sid cid))"
    and update_ok: "ok s \<Longrightarrow> st \<noteq> MS_QUEUED \<Longrightarrow> ok (snd (update_status st now i s))"
    and update_answer: "ok s \<Longrightarrow> st \<noteq> MS_QUEUED \<Longrightarrow> fst (update_status st now i s) = Inr (map_option (with_status st now) (get s i))"
    and update_get: "ok s \<Longrightarrow> st \<noteq> MS_QUEUED \<Longrightarrow>
      get (snd (update_status st now i s)) = (get s)(i := map_option (with_status st now) (get s i))"
    and enqueue_dup: "ok s \<Longrightarrow> mailbox_dedupe_match it (list_pending s (Some (mb_parent_run_id it)) None None) = Some e \<Longrightarrow> enqueue it s = (Inr e, s)"
    and enqueue_new: "ok s \<Longrightarrow> get s (mb_mailbox_id it) = None \<Longrightarrow> mailbox_dedupe_match it (list_pending s (Some (mb_parent_run_id it)) None None) = None \<Longrightarrow>
      fst (enqueue it s) = Inr it' \<Longrightarrow> it' = it \<and> ok (snd (enqueue it s)) \<and> get (snd (enqueue it s)) = (get s)(mb_mailbox_id it \<mapsto> it)"
    and enqueue_unkeyed: "ok s \<Longrightarrow> get s (mb_mailbox_id it) = None \<Longrightarrow> mb_dedupe_key it = None \<Longrightarrow> fst (enqueue it s) = Inr it"
begin

lemma collect_loop_marks:
  assumes "ok s" "\<forall>it \<in> set its. get s (mb_mailbox_id it) = Some it" "distinct (map mb_mailbox_id its)"
  shows "\<exists>s'. collect_loop update_status True now its s = (Inr (map (with_status MS_DELIVERED now) its), s') \<and> ok s'
    \<and> (\<forall>i. get s' i = (if i \<in> mb_mailbox_id ` set its then map_option (with_status MS_DELIVERED now) (get s i) else get s i))"
  using assms
proof (induction its arbitrary: s)
  case (Cons it its)
  let ?u = "update_status MS_DELIVERED now (mb_mailbox_id it) s"
  have g: "get s (mb_mailbox_id it) = Some it" using Cons.prems(2) by simp
  have u: "ok (snd ?u)" "fst ?u = Inr (Some (with_status MS_DELIVERED now it))"
    "get (snd ?u) = (get s)(mb_mailbox_id it \<mapsto> with_status MS_DELIVERED now it)"
    by (simp_all add: g update_ok [OF Cons.prems(1)] update_answer [OF Cons.prems(1)] update_get [OF Cons.prems(1)])
  have new: "mb_mailbox_id it \<notin> mb_mailbox_id ` set its" and d: "distinct (map mb_mailbox_id its)" using Cons.prems(3) by simp_all
  have "get (snd ?u) (mb_mailbox_id x) = Some x" if "x \<in> set its" for x
  proof -
    have "mb_mailbox_id x \<noteq> mb_mailbox_id it" using that new by (metis imageI)
    then show ?thesis using Cons.prems(2) that by (simp add: u(3))
  qed
  then obtain s' where s':
    "collect_loop update_status True now its (snd ?u) = (Inr (map (with_status MS_DELIVERED now) its), s')" "ok s'"
    "\<forall>i. get s' i = (if i \<in> mb_mailbox_id ` set its then map_option (with_status MS_DELIVERED now) (get (snd ?u) i) else get (snd ?u) i)"
    using Cons.IH [OF u(1) _ d] by blast
  have "collect_loop update_status True now (it # its) s = (Inr (map (with_status MS_DELIVERED now) (it # its)), s')"
    using u(2) s'(1) by (simp add: Let_def split_beta split: sum.split)
  moreover have "get s' i = (if i \<in> mb_mailbox_id ` set (it # its) then map_option (with_status MS_DELIVERED now) (get s i) else get s i)" for i
    using s'(3) new by (cases "i = mb_mailbox_id it") (simp_all add: u(3) g)
  ultimately show ?case using s'(2) by blast
qed simp

lemma collect_all_once:
  assumes "ok s"
  shows "\<exists>s'. collect_subagent_mailbox list_pending update_status now p True s
      = (Inr (map (with_status MS_DELIVERED now) (list_pending s (Some p) None None)), s')
    \<and> ok s' \<and> list_pending s' (Some p) None None = []
    \<and> (\<forall>q sid cid. q \<noteq> p \<longrightarrow> set (list_pending s' (Some q) sid cid) = set (list_pending s (Some q) sid cid))"
proof -
  let ?its = "list_pending s (Some p) None None"
  have "\<forall>it \<in> set ?its. get s (mb_mailbox_id it) = Some it" using pending_iff [OF assms] by blast
  from collect_loop_marks [OF assms this pending_distinct [OF assms]] obtain s' where
    s': "collect_loop update_status True now ?its s = (Inr (map (with_status MS_DELIVERED now) ?its), s')" "ok s'"
      "\<And>i. get s' i = (if i \<in> mb_mailbox_id ` set ?its then map_option (with_status MS_DELIVERED now) (get s i) else get s i)"
    by metis
  have kept: "get s' i = Some it \<and> mb_status it = MS_QUEUED \<longleftrightarrow> get s i = Some it \<and> mb_status it = MS_QUEUED \<and> mb_parent_run_id it \<noteq> p" for i it
  proof (cases "i \<in> mb_mailbox_id ` set ?its")
    case True
    then obtain x where x: "x \<in> set ?its" "mb_mailbox_id x = i" by auto
    then have "get s i = Some x" "mb_parent_run_id x = p" using pending_iff [OF assms] by (auto simp: matches_mailbox_route_def)
    then show ?thesis using s'(3) True by auto
  next
    case False
    have "mb_parent_run_id it \<noteq> p" if "get s i = Some it" "mb_status it = MS_QUEUED"
    proof
      assume "mb_parent_run_id it = p"
      then have "it \<in> set ?its" using that get_id [OF assms that(1)] pending_iff [OF assms, of it "Some p" None None]
        by (simp add: matches_mailbox_route_def)
      with False get_id [OF assms that(1)] show False by blast
    qed
    then show ?thesis using s'(3) False by auto
  qed
  have pend: "set (list_pending s' r sid cid) = {it \<in> set (list_pending s r sid cid). mb_parent_run_id it \<noteq> p}" for r sid cid
    using pending_iff [OF assms] pending_iff [OF s'(2)] kept by blast
  have "set (list_pending s' (Some p) None None) = {}"
    unfolding pend using pending_iff [OF assms] by (auto simp: matches_mailbox_route_def)
  moreover have "set (list_pending s' (Some q) sid cid) = set (list_pending s (Some q) sid cid)" if "q \<noteq> p" for q sid cid
    unfolding pend using that pending_iff [OF assms] by (auto simp: matches_mailbox_route_def)
  ultimately show ?thesis using s'(1,2) by (auto simp: collect_subagent_mailbox_def)
qed

lemma collect_twice:
  assumes "ok s"
  shows "\<exists>s'. collect_subagent_mailbox list_pending update_status now p True s
        = (Inr (map (with_status MS_DELIVERED now) (list_pending s (Some p) None None)), s')
      \<and> collect_subagent_mailbox list_pending update_status later p True s' = (Inr [], s')
      \<and> (\<forall>r sid cid. r \<noteq> p \<longrightarrow> set (list_pending s' (Some r) sid cid) = set (list_pending s (Some r) sid cid))"
proof -
  from collect_all_once [OF assms, of now p] obtain s' where "list_pending s' (Some p) None None = []"
    "collect_subagent_mailbox list_pending update_status now p True s
        = (Inr (map (with_status MS_DELIVERED now) (list_pending s (Some p) None None)), s')"
    "\<forall>r sid cid. r \<noteq> p \<longrightarrow> set (list_pending s' (Some r) sid cid) = set (list_pending s (Some r) sid cid)" by blast
  then show ?thesis by (intro exI [of _ s']) (simp add: collect_subagent_mailbox_def)
qed

text \<open>An item without a key is added to the pending items.\<close>

lemma enqueue_pending:
  assumes "ok s" "get s (mb_mailbox_id it) = None" "mb_dedupe_key it = None" "mb_status it = MS_QUEUED"
  shows "\<exists>s'. enqueue it s = (Inr it, s') \<and> ok s'
    \<and> (\<forall>p sid cid. set (list_pending s' p sid cid) = (if matches_mailbox_route it p sid cid then {it} else {}) \<union> set (list_pending s p sid cid))"
proof -
  obtain s' where e: "enqueue it s = (Inr it, s')" using enqueue_unkeyed [OF assms(1-3)] by (metis prod.collapse)
  have "mailbox_dedupe_match it (list_pending s (Some (mb_parent_run_id it)) None None) = None" using assms(3) by (simp add: mailbox_dedupe_match_def)
  from enqueue_new [OF assms(1,2) this] e have s': "ok s'" "get s' = (get s)(mb_mailbox_id it \<mapsto> it)" by simp_all
  have "x \<in> set (list_pending s' p sid cid) \<longleftrightarrow> x = it \<and> matches_mailbox_route it p sid cid \<or> x \<in> set (list_pending s p sid cid)" for x p sid cid
    using pending_iff [OF assms(1), of x p sid cid] pending_iff [OF s'(1), of x p sid cid] s'(2) assms(2,4) by auto
  with e s'(1) show ?thesis by auto
qed

end

text \<open>A store of runs beside a mailbox.\<close>

locale continuation =
  rows: subagent_rows upsert list_runs rok + box: mailbox_store enqueue get list_pending update_status bok
  for upsert :: "SubagentRun \<Rightarrow> string option \<Rightarrow> 's \<Rightarrow> (string + SubagentRun) \<times> 's"
    and list_runs :: "'s \<Rightarrow> string \<Rightarrow> SubagentRun list" and rok :: "'s \<Rightarrow> bool"
    and enqueue :: "SubagentMailboxItem \<Rightarrow> 'm \<Rightarrow> (string + SubagentMailboxItem) \<times> 'm"
    and get :: "'m \<Rightarrow> string \<Rightarrow> SubagentMailboxItem option"
    and list_pending :: "'m \<Rightarrow> string option \<Rightarrow> string option \<Rightarrow> string option \<Rightarrow> SubagentMailboxItem list"
    and update_status :: "SubagentMailboxStatus \<Rightarrow> string \<Rightarrow> string \<Rightarrow> 'm \<Rightarrow> (string + SubagentMailboxItem option) \<times> 'm"
    and bok :: "'m \<Rightarrow> bool"
begin

lemma continuation_delivered:
  assumes "rok s" "unshared list_runs s" "bok b" "get b fresh = None" "py_strip message \<noteq> []"
    and "find_subagent_run list_runs s p sid cid = Some r"
  shows "\<exists>s' b'. append_subagent_continuation upsert list_runs enqueue fresh now p message sid cid source md s (Some b)
        = (Inr (Some (continued_row now (py_strip message) source md r)), s', Some b')
      \<and> rewrites_one list_runs s p (Some r) (continued_row now (py_strip message) source md) s'
      \<and> (\<forall>x y z. set (list_pending b' x y z) =
           (if matches_mailbox_route (continuation_item fresh now p (py_strip message) source md r) x y z
            then {continuation_item fresh now p (py_strip message) source md r} else {}) \<union> set (list_pending b x y z))"
proof -
  let ?f = "continued_row now (py_strip message) source md"
  let ?it = "continuation_item fresh now p (py_strip message) source md r"
  have f: "sr_subagent_run_id (?f r) = sr_subagent_run_id r" "sr_parent_run_id (?f r) = sr_parent_run_id r"
    "continuation_item fresh now p (py_strip message) source md (?f r) = ?it"
    by (simp_all add: continued_row_def continuation_item_def Let_def)
  from rows.write_back [OF assms(1,2,6), of ?f] f(1,2) obtain s' where
    s': "upsert (?f r) None s = (Inr (?f r), s')" "rewrites_one list_runs s p (Some r) ?f s'" by blast
  have "get b (mb_mailbox_id ?it) = None" "mb_dedupe_key ?it = None" "mb_status ?it = MS_QUEUED"
    using assms(4) by (simp_all add: continuation_item_def)
  from box.enqueue_pending [OF assms(3) this] obtain b' where
    b': "enqueue ?it b = (Inr ?it, b')" "\<forall>x y z. set (list_pending b' x y z) =
      (if matches_mailbox_route ?it x y z then {?it} else {}) \<union> set (list_pending b x y z)" by blast
  have "append_subagent_continuation upsert list_runs enqueue fresh now p message sid cid source md s (Some b) = (Inr (Some (?f r)), s', Some b')"
    using assms(5,6) s'(1) b'(1) f(3) by (simp add: append_subagent_continuation_def Let_def)
  with s'(2) b'(2) show ?thesis by blast
qed

end

text \<open>The in-memory mailbox: identifiers in the order of arrival, each once.\<close>

definition mm_ok :: "InMemorySubagentMailboxStore \<Rightarrow> bool" where
  "mm_ok s = (distinct (mm_order s) \<and> set (mm_order s) = dom (map_of (mm_items s))
     \<and> (\<forall>i it. map_of (mm_items s) i = Some it \<longrightarrow> mb_mailbox_id it = i))"

lemma set_map_filter_fun: "set (List.map_filter f xs) = {y. \<exists>x \<in> set xs. f x = Some y}"
  by (auto simp: List.map_filter_def image_iff) (metis option.sel)

lemma set_ordered_items: "mm_ok s \<Longrightarrow> set (mailbox_ordered_items s) = {it. map_of (mm_items s) (mb_mailbox_id it) = Some it}"
  unfolding mailbox_ordered_items_def set_map_filter_fun mm_ok_def by (auto simp: dom_def)

lemma map_filter_ids:
  assumes "\<And>i it. f i = Some it \<Longrightarrow> mb_mailbox_id it = i"
  shows "map mb_mailbox_id (List.map_filter f xs) = filter (\<lambda>i. f i \<noteq> None) xs"
  using assms by (induction xs) (auto simp: List.map_filter_simps split: option.split)

lemma distinct_ordered_items:
  assumes "mm_ok s"
  shows "distinct (map mb_mailbox_id (mailbox_ordered_items s))"
proof -
  have "map mb_mailbox_id (mailbox_ordered_items s) = filter (\<lambda>i. map_of (mm_items s) i \<noteq> None) (mm_order s)"
    unfolding mailbox_ordered_items_def using assms by (intro map_filter_ids) (simp add: mm_ok_def)
  then show ?thesis using assms by (simp add: mm_ok_def)
qed

lemma mm_put_ok: "mm_ok s \<Longrightarrow> mb_mailbox_id it = i \<Longrightarrow> i \<in> set (mm_order s) \<Longrightarrow> mm_ok (s\<lparr>mm_items := alist_set i it (mm_items s)\<rparr>)"
  by (auto simp: mm_ok_def)

interpretation memory_mailbox: mailbox_store mm_enqueue mm_get mm_list_pending mm_update_status mm_ok
proof (unfold_locales, goal_cases)
  case (1 s i it)
  then show ?case by (simp add: mm_ok_def mm_get_def)
next
  case (2 s it p sid cid)
  then show ?case by (auto simp: mm_list_pending_def set_ordered_items mm_get_def)
next
  case (3 s p sid cid)
  from distinct_ordered_items [OF this] show ?case by (simp add: mm_list_pending_def distinct_map_filter)
next
  case (4 s st now i)
  have "mm_ok (s\<lparr>mm_items := alist_set i (with_status st now it) (mm_items s)\<rparr>)" if "map_of (mm_items s) i = Some it" for it
    using 4(1) that by (intro mm_put_ok) (auto simp: mm_ok_def)
  with 4 show ?case by (auto simp: mm_update_status_def split: option.split)
next
  case (8 s it it')
  then have "mb_mailbox_id it \<notin> set (mm_order s)" by (auto simp: mm_ok_def mm_get_def)
  with 8 show ?case by (auto simp: mm_enqueue_def mm_ok_def mm_get_def fun_eq_iff)
next
  case (9 s it)
  then show ?case by (simp add: mm_enqueue_def mailbox_dedupe_match_def)
qed (auto simp: mm_update_status_def mm_enqueue_def mm_get_def fun_eq_iff split: option.splits)

text \<open>The SQLite mailbox: the primary key is unique.\<close>

definition mq_ok :: "SqliteSubagentMailboxStore \<Rightarrow> bool" where
  "mq_ok t = distinct (map mb_mailbox_id t)"

lemma mq_get_iff: "mq_ok t \<Longrightarrow> mq_get t i = Some it \<longleftrightarrow> it \<in> set t \<and> mb_mailbox_id it = i"
  unfolding mq_ok_def mq_get_def by (induction t) (auto simp: rev_image_eqI)

lemma mq_get_put:
  assumes "mq_ok t"
  shows "mq_get (put_row mb_mailbox_id it t) = (mq_get t)(mb_mailbox_id it \<mapsto> it)"
proof
  fix i
  have "mq_ok (put_row mb_mailbox_id it t)" using assms by (simp add: mq_ok_def distinct_put_row)
  moreover have "set (put_row mb_mailbox_id it t) = insert it {x \<in> set t. mb_mailbox_id x \<noteq> mb_mailbox_id it}"
    using assms by (intro set_put_row) (simp add: mq_ok_def)
  ultimately have "mq_get (put_row mb_mailbox_id it t) i = Some x \<longleftrightarrow> ((mq_get t)(mb_mailbox_id it \<mapsto> it)) i = Some x" for x
    using mq_get_iff [OF assms] by (auto simp: mq_get_iff)
  then show "mq_get (put_row mb_mailbox_id it t) i = ((mq_get t)(mb_mailbox_id it \<mapsto> it)) i" by (metis not_Some_eq)
qed

lemma mq_upsert_nonqueued: "mb_status it \<noteq> MS_QUEUED \<Longrightarrow> mq_upsert it t = (Inr (), put_row mb_mailbox_id it t)"
  by (simp add: mq_upsert_def mq_conflict_def)

lemma mq_upsert_unkeyed: "mb_dedupe_key it = None \<Longrightarrow> mq_upsert it t = (Inr (), put_row mb_mailbox_id it t)"
  by (simp add: mq_upsert_def mq_conflict_def)

interpretation sqlite_mailbox: mailbox_store mq_enqueue mq_get mq_list_pending mq_update_status mq_ok
proof (unfold_locales, goal_cases)
  case (1 t i it)
  then show ?case by (simp add: mq_get_iff)
next
  case (2 t it p sid cid)
  then show ?case by (auto simp: mq_list_pending_def mq_sorted_def mq_get_iff)
next
  case (3 t p sid cid)
  then show ?case by (auto simp: mq_list_pending_def mq_sorted_def mq_ok_def distinct_map inj_on_def)
next
  case (4 t st now i)
  then show ?case
    by (auto simp: mq_update_status_def mq_upsert_nonqueued mq_ok_def distinct_put_row split: option.split)
next
  case (6 t st now i)
  have "mb_mailbox_id it = i" if "mq_get t i = Some it" for it using mq_get_iff [OF 6(1)] that by blast
  with 6 show ?case by (auto simp: mq_update_status_def mq_upsert_nonqueued mq_get_put split: option.split)
next
  case (8 t it it')
  then show ?case by (auto simp: mq_enqueue_def mq_upsert_def mq_ok_def distinct_put_row mq_get_put [unfolded mq_ok_def] split: if_splits)
qed (auto simp: mq_update_status_def mq_upsert_nonqueued mq_enqueue_def mq_upsert_unkeyed mailbox_dedupe_match_def split: option.split)

section \<open>Collection and continuation\<close>

text \<open>Collecting the mailbox of a parent returns every pending item of that parent once, marked as delivered,
  leaves nothing pending for the parent, so that a second collection returns nothing, and touches no item of
  another parent; in both stores.\<close>

lemma mailbox_collected_once:
  assumes "mm_ok m" "mq_ok q"
  shows "(\<exists>m'. collect_subagent_mailbox mm_list_pending mm_update_status now p True m
          = (Inr (map (with_status MS_DELIVERED now) (mm_list_pending m (Some p) None None)), m')
        \<and> collect_subagent_mailbox mm_list_pending mm_update_status later p True m' = (Inr [], m')
        \<and> (\<forall>r sid cid. r \<noteq> p \<longrightarrow> set (mm_list_pending m' (Some r) sid cid) = set (mm_list_pending m (Some r) sid cid)))
    \<and> (\<exists>q'. collect_subagent_mailbox mq_list_pending mq_update_status now p True q
          = (Inr (map (with_status MS_DELIVERED now) (mq_list_pending q (Some p) None None)), q')
        \<and> collect_subagent_mailbox mq_list_pending mq_update_status later p True q' = (Inr [], q')
        \<and> (\<forall>r sid cid. r \<noteq> p \<longrightarrow> set (mq_list_pending q' (Some r) sid cid) = set (mq_list_pending q (Some r) sid cid)))"
  using memory_mailbox.collect_twice [OF assms(1), of now p later] sqlite_mailbox.collect_twice [OF assms(2), of now p later] by blast

interpretation memory_continuation:
  continuation memory_upsert_run memory_list_runs memory_ok mm_enqueue mm_get mm_list_pending mm_update_status mm_ok
  by unfold_locales

interpretation sqlite_continuation:
  continuation sqlite_upsert_run sqlite_list_runs sqlite_ok mq_enqueue mq_get mq_list_pending mq_update_status mq_ok
  by unfold_locales

text \<open>A message from a parent to one of its children is recorded in the row of exactly that child and queued in
  the mailbox under the child's route, with every item that was pending still pending; for the SQLite row
  store with the SQLite mailbox.\<close>

lemma continuation_reaches_child:
  assumes "sqlite_ok s" "unshared sqlite_list_runs s" "mq_ok b" "mq_get b fresh = None" "py_strip message \<noteq> []"
    and "find_subagent_run sqlite_list_runs s p sid cid = Some r"
  shows "\<exists>s' b'. append_subagent_continuation sqlite_upsert_run sqlite_list_runs mq_enqueue fresh now p message sid cid source md s (Some b)
        = (Inr (Some (continued_row now (py_strip message) source md r)), s', Some b')
      \<and> rewrites_one sqlite_list_runs s p (Some r) (continued_row now (py_strip message) source md) s'
      \<and> (\<forall>x y z. set (mq_list_pending b' x y z) =
           (if matches_mailbox_route (continuation_item fresh now p (py_strip message) source md r) x y z
            then {continuation_item fresh now p (py_strip message) source md r} else {}) \<union> set (mq_list_pending b x y z))"
  by (rule sqlite_continuation.continuation_delivered [OF assms])

section \<open>Where the mailboxes differ\<close>

definition sample_item :: "string \<Rightarrow> SubagentMailboxKind \<Rightarrow> SubagentMailboxItem" where
  "sample_item i kind =
     \<lparr>mb_mailbox_id = i, mb_parent_run_id = ''run'', mb_direction = CHILD_TO_PARENT, mb_kind = kind, mb_status = MS_QUEUED,
      mb_subagent_run_id = Some ''a'', mb_child_run_id = None, mb_group_id = None, mb_payload = [], mb_source = ''runtime'',
      mb_dedupe_key = Some ''k'', mb_created_at = ''t'', mb_updated_at = ''t'', mb_delivered_at = None, mb_acknowledged_at = None,
      mb_cancelled_at = None, mb_metadata = []\<rparr>"

definition empty_mailbox :: InMemorySubagentMailboxStore where
  "empty_mailbox = \<lparr>mm_items = [], mm_order = []\<rparr>"

text \<open>Two items of different kinds under one key: both are queued in memory, the second raises in SQLite, because
  its index does not look at the kind.\<close>

lemma index_rejects_other_kind:
  "map_sum id mb_mailbox_id (fst (mm_enqueue (sample_item ''2'' MK_MESSAGE) (snd (mm_enqueue (sample_item ''1'' MK_TASK_NOTIFICATION) empty_mailbox))))
     = Inr ''2''"
  "fst (mq_enqueue (sample_item ''2'' MK_MESSAGE) (snd (mq_enqueue (sample_item ''1'' MK_TASK_NOTIFICATION) []))) = Inl ''IntegrityError''"
  by code_simp+

text \<open>A status is set whatever the status before: a cancelled item can be delivered.\<close>

lemma cancelled_item_delivered:
  assumes "mq_ok t" "mq_get t i = Some it"
  shows "\<exists>t'. mq_update_status MS_DELIVERED later i (snd (mq_update_status MS_CANCELLED now i t)) =
    (Inr (Some (with_status MS_DELIVERED later (with_status MS_CANCELLED now it))), t')"
  using sqlite_mailbox.update_get [OF assms(1), of MS_CANCELLED now i] sqlite_mailbox.update_ok [OF assms(1), of MS_CANCELLED now i]
    sqlite_mailbox.update_answer [of "snd (mq_update_status MS_CANCELLED now i t)" MS_DELIVERED later i] assms(2)
  by (simp add: prod_eq_iff)

text \<open>The collection does not look at the direction: a parent collects, as delivered, the message it queued for a
  child, which is then no longer pending for that child.\<close>

lemma parent_collects_own_message:
  "let it = continuation_item ''m'' ''t'' ''run'' ''hello'' ''tool'' [] (sample_child ''a'');
       t = snd (collect_subagent_mailbox mq_list_pending mq_update_status ''now'' ''run'' True [it])
   in mq_list_pending [it] None (Some ''a'') None = [it] \<and> mq_list_pending t None (Some ''a'') None = []"
  by code_simp

lemma mailbox_collected_once_witness:
  "\<exists>q'. collect_subagent_mailbox mq_list_pending mq_update_status ''t1'' ''run'' True [sample_item ''1'' MK_MESSAGE]
      = (Inr [with_status MS_DELIVERED ''t1'' (sample_item ''1'' MK_MESSAGE)], q')
    \<and> collect_subagent_mailbox mq_list_pending mq_update_status ''t2'' ''run'' True q' = (Inr [], q')"
proof -
  have "mq_list_pending [sample_item ''1'' MK_MESSAGE] (Some ''run'') None None = [sample_item ''1'' MK_MESSAGE]" by code_simp
  moreover have "mm_ok empty_mailbox" "mq_ok [sample_item ''1'' MK_MESSAGE]" by (simp_all add: mm_ok_def mq_ok_def empty_mailbox_def)
  ultimately show ?thesis using mailbox_collected_once [of empty_mailbox "[sample_item ''1'' MK_MESSAGE]" "''t1''" "''run''" "''t2''"] by auto
qed

lemma continuation_reaches_child_witness:
  "\<exists>s' b'. append_subagent_continuation sqlite_upsert_run sqlite_list_runs mq_enqueue ''m'' ''t'' ''run'' '' go '' (Some ''a'') None ''tool'' []
        sample_sqlite (Some []) = (Inr (Some (continued_row ''t'' ''go'' ''tool'' [] (sample_child ''a''))), s', Some b')
      \<and> set (mq_list_pending b' None (Some ''a'') None) = {continuation_item ''m'' ''t'' ''run'' ''go'' ''tool'' [] (sample_child ''a'')}"
proof -
  have f: "find_subagent_run sqlite_list_runs sample_sqlite ''run'' (Some ''a'') None = Some (sample_child ''a'')" by code_simp
  have u: "unshared sqlite_list_runs sample_sqlite" by (simp add: unshared_def sample_ok)
  have t: "py_strip '' go '' = ''go''" by code_simp
  have e: "set (mq_list_pending [] None (Some ''a'') None) = {}" by (simp add: mq_list_pending_def mq_sorted_def)
  have r: "matches_mailbox_route (continuation_item ''m'' ''t'' ''run'' ''go'' ''tool'' [] (sample_child ''a'')) None (Some ''a'') None"
    by (simp add: matches_mailbox_route_def continuation_item_def)
  from continuation_reaches_child [OF sample_ok(2) u _ _ _ f, of "[]" "''m''" "'' go ''" "''t''" "''tool''" "[]"]
  obtain s' b' where "append_subagent_continuation sqlite_upsert_run sqlite_list_runs mq_enqueue ''m'' ''t'' ''run'' '' go '' (Some ''a'') None ''tool'' []
        sample_sqlite (Some []) = (Inr (Some (continued_row ''t'' ''go'' ''tool'' [] (sample_child ''a''))), s', Some b')"
    "set (mq_list_pending b' None (Some ''a'') None) = {continuation_item ''m'' ''t'' ''run'' ''go'' ''tool'' [] (sample_child ''a'')}"
    unfolding t using r e by (auto simp: mq_ok_def mq_get_def)
  then show ?thesis by blast
qed

end
