(* ===== verification/Jsonl_File.thy ===== *)
theory Jsonl_File
  imports Prelude
begin

text \<open>
  A session file of JSON lines (\<open>runtime/storage/jsonl_store.py\<close>): the text of the file, the lines that are read
  back, and what a crash in the middle of a write leaves. The encoder and the decoder of a row are
  parameters with the named hypothesis \<open>jsonl_codec\<close>.
\<close>

section \<open>Lines\<close>

abbreviation newline :: char where
  "newline \<equiv> char_of (10 :: nat)"

abbreviation carriage_return :: char where
  "carriage_return \<equiv> char_of (13 :: nat)"

text \<open>What \<open>append_event\<close> and \<open>append_checkpoint\<close> write for one row.\<close>

definition row_text :: "('r \<Rightarrow> string) \<Rightarrow> 'r \<Rightarrow> string" where
  "row_text dumps r = dumps r @ [newline]"

definition append_row :: "('r \<Rightarrow> string) \<Rightarrow> 'r \<Rightarrow> string \<Rightarrow> string" where
  "append_row dumps r content = content @ row_text dumps r"

text \<open>A file opened as text has its lines ended by a newline, a carriage return, or both. The empty line that
  splitting between the two adds is skipped like every other empty line.\<close>

definition jsonl_lines :: "string \<Rightarrow> string list" where
  "jsonl_lines content = concat (map (split_at carriage_return) (split_at newline content))"

text \<open>The rows read from a text: lines are stripped, empty ones and those that do not parse are skipped.\<close>

definition row_of_line :: "(string \<Rightarrow> 'r option) \<Rightarrow> string \<Rightarrow> 'r option" where
  "row_of_line loads l = (let t = py_strip l in if t = [] then None else loads t)"

definition iter_rows :: "(string \<Rightarrow> 'r option) \<Rightarrow> string \<Rightarrow> 'r list" where
  "iter_rows loads content = List.map_filter (row_of_line loads) (jsonl_lines content)"

text \<open>What the store relies on: a row is written on one line without outer white space, is read back, and no
  proper beginning of its text is itself a JSON document.\<close>

definition jsonl_codec :: "('r \<Rightarrow> string) \<Rightarrow> (string \<Rightarrow> 'r option) \<Rightarrow> bool" where
  "jsonl_codec dumps loads =
     (\<forall>r. loads (dumps r) = Some r \<and> dumps r \<noteq> [] \<and> py_strip (dumps r) = dumps r \<and> newline \<notin> set (dumps r)
        \<and> carriage_return \<notin> set (dumps r) \<and> (\<forall>n < length (dumps r). loads (py_strip (take n (dumps r))) = None))"

section \<open>Reading back\<close>

lemma split_at_nonempty: "split_at c s \<noteq> []"
  by (induction s) (auto split: list.split)

lemma split_at_both: "split_at c (xs @ c # ys) = split_at c xs @ split_at c ys"
proof (induction xs)
  case (Cons x xs)
  obtain w ws where "split_at c xs = w # ws" using split_at_nonempty [of c xs] by (cases "split_at c xs") auto
  with Cons show ?case by auto
qed simp

lemma map_filter_append: "List.map_filter f (xs @ ys) = List.map_filter f xs @ List.map_filter f ys"
  by (simp add: List.map_filter_def)

lemma map_filter_Cons: "List.map_filter f (x # xs) = (case f x of Some y \<Rightarrow> y # List.map_filter f xs | None \<Rightarrow> List.map_filter f xs)"
  by (simp add: List.map_filter_def split: option.split)

lemma map_filter_Nil [simp]: "List.map_filter f [] = []"
  by (simp add: List.map_filter_def)

lemma iter_rows_line: "newline \<notin> set l \<Longrightarrow> carriage_return \<notin> set l \<Longrightarrow> iter_rows loads l = (case row_of_line loads l of Some r \<Rightarrow> [r] | None \<Rightarrow> [])"
  by (simp add: iter_rows_def jsonl_lines_def split_at_word map_filter_Cons split: option.split)

lemma iter_rows_append: "iter_rows loads (xs @ newline # ys) = iter_rows loads xs @ iter_rows loads ys"
  by (simp add: iter_rows_def jsonl_lines_def split_at_both map_filter_append)

text \<open>A complete line is read by itself; reading a whole file gives the appended rows.\<close>

lemma iter_rows_row:
  assumes "jsonl_codec dumps loads"
  shows "iter_rows loads (row_text dumps r @ rest) = r # iter_rows loads rest"
proof -
  have "row_of_line loads (dumps r) = Some r" "newline \<notin> set (dumps r)" "carriage_return \<notin> set (dumps r)"
    using assms by (simp_all add: jsonl_codec_def row_of_line_def)
  then show ?thesis using iter_rows_append [of loads "dumps r" rest] by (simp add: row_text_def iter_rows_line)
qed

lemma iter_rows_empty [simp]: "iter_rows loads [] = []"
  by (simp add: iter_rows_def jsonl_lines_def map_filter_Cons row_of_line_def py_strip_def py_lstrip_def py_rstrip_def)

lemma iter_rows_rows:
  assumes "jsonl_codec dumps loads"
  shows "iter_rows loads (concat (map (row_text dumps) rows) @ rest) = rows @ iter_rows loads rest"
  by (induction rows) (simp_all add: iter_rows_row [OF assms])

lemma iter_rows_partial:
  assumes "jsonl_codec dumps loads" "n \<le> length (dumps r)"
  shows "iter_rows loads (take n (dumps r)) = (if n = length (dumps r) then [r] else [])"
proof -
  have nl: "newline \<notin> set (take n (dumps r))" "carriage_return \<notin> set (take n (dumps r))"
    using assms(1) by (metis jsonl_codec_def in_set_takeD)+
  show ?thesis
  proof (cases "n = length (dumps r)")
    case True
    then show ?thesis using assms(1) by (simp add: iter_rows_line jsonl_codec_def row_of_line_def)
  next
    case False
    with assms have "loads (py_strip (take n (dumps r))) = None" by (simp add: jsonl_codec_def)
    with False show ?thesis by (simp add: iter_rows_line [OF nl] row_of_line_def Let_def)
  qed
qed

text \<open>The number of rows whose text lies within the first \<open>k\<close> characters, the final newline apart.\<close>

fun rows_within :: "('r \<Rightarrow> string) \<Rightarrow> 'r list \<Rightarrow> nat \<Rightarrow> nat" where
  "rows_within dumps [] k = 0"
| "rows_within dumps (r # rs) k =
     (if k < length (dumps r) then 0 else Suc (rows_within dumps rs (k - length (row_text dumps r))))"

lemma rows_within_zero: "jsonl_codec dumps loads \<Longrightarrow> rows_within dumps rs 0 = 0"
  by (cases rs) (auto simp: jsonl_codec_def)

lemma read_after_crash:
  assumes "jsonl_codec dumps loads"
  shows "iter_rows loads (take k (concat (map (row_text dumps) rows))) = take (rows_within dumps rows k) rows"
proof (induction rows arbitrary: k)
  case (Cons r rs)
  have len: "length (row_text dumps r) = Suc (length (dumps r))" by (simp add: row_text_def)
  show ?case
  proof (cases "k \<le> length (dumps r)")
    case True
    then have "take k (concat (map (row_text dumps) (r # rs))) = take k (dumps r)" by (simp add: row_text_def)
    with iter_rows_partial [OF assms True] True show ?thesis by (auto simp: rows_within_zero [OF assms] len)
  next
    case False
    then have "take k (concat (map (row_text dumps) (r # rs))) =
        row_text dumps r @ take (k - length (row_text dumps r)) (concat (map (row_text dumps) rs))" by (simp add: len)
    with iter_rows_row [OF assms] Cons False show ?thesis by simp
  qed
qed simp

text \<open>C31. A session file survives a crash: after any appends, reading any beginning of the file gives exactly the
  rows whose text it contains in full, in the order they were appended, and reading the whole file gives all
  of them.\<close>

theorem session_file_crash_safe:
  assumes "jsonl_codec dumps loads"
  shows "iter_rows loads (take k (fold (append_row dumps) rows [])) = take (rows_within dumps rows k) rows
    \<and> iter_rows loads (fold (append_row dumps) rows []) = rows"
proof -
  have "fold (append_row dumps) rows c = c @ concat (map (row_text dumps) rows)" for c
    by (induction rows arbitrary: c) (simp_all add: append_row_def)
  then show ?thesis using read_after_crash [OF assms] iter_rows_rows [OF assms, of rows "[]"] by simp
qed

text \<open>After a crash that left an incomplete line, the next append continues that line. The new row is then read
  only if the joined text happens to parse.\<close>

lemma append_after_crash:
  assumes "jsonl_codec dumps loads" "n < length (dumps r)"
  shows "iter_rows loads (append_row dumps r' (concat (map (row_text dumps) rows) @ take n (dumps r)))
    = rows @ (case row_of_line loads (take n (dumps r) @ dumps r') of Some x \<Rightarrow> [x] | None \<Rightarrow> [])"
proof -
  have "newline \<notin> set (take n (dumps r) @ dumps r')" "carriage_return \<notin> set (take n (dumps r) @ dumps r')" using assms(1) by (auto simp: jsonl_codec_def dest: in_set_takeD)
  then have "iter_rows loads ((take n (dumps r) @ dumps r') @ newline # []) = (case row_of_line loads (take n (dumps r) @ dumps r') of Some x \<Rightarrow> [x] | None \<Rightarrow> [])"
    unfolding iter_rows_append by (simp add: iter_rows_line)
  then show ?thesis
    using iter_rows_rows [OF assms(1), of rows "take n (dumps r) @ dumps r' @ [newline]"] by (simp add: append_row_def row_text_def)
qed

section \<open>A sample codec\<close>

definition sample_dumps :: "nat \<Rightarrow> string" where
  "sample_dumps n = ''{'' @ replicate n (CHR ''x'') @ ''}''"

definition sample_loads :: "string \<Rightarrow> nat option" where
  "sample_loads s = (if \<exists>n < length s. s = sample_dumps n then Some (length s - 2) else None)"

lemma py_strip_plain: "s \<noteq> [] \<Longrightarrow> \<not> py_space (hd s) \<Longrightarrow> \<not> py_space (last s) \<Longrightarrow> py_strip s = s"
proof -
  assume s: "s \<noteq> []" "\<not> py_space (hd s)" "\<not> py_space (last s)"
  then have "dropWhile py_space s = s" "dropWhile py_space (rev s) = rev s" by (simp_all add: dropWhile_eq_self_iff hd_rev)
  then show ?thesis by (simp add: py_strip_def py_lstrip_def py_rstrip_def)
qed

lemma newline_other: "newline \<noteq> CHR ''{''" "newline \<noteq> CHR ''}''" "newline \<noteq> CHR ''x''"
  "carriage_return \<noteq> CHR ''{''" "carriage_return \<noteq> CHR ''}''" "carriage_return \<noteq> CHR ''x''"
  by code_simp+

lemma sample_codec: "jsonl_codec sample_dumps sample_loads"
  unfolding jsonl_codec_def
proof (intro allI conjI impI)
  fix r n :: nat
  show "sample_loads (sample_dumps r) = Some r" by (auto simp: sample_loads_def sample_dumps_def)
  show "sample_dumps r \<noteq> []" by (simp add: sample_dumps_def)
  show "py_strip (sample_dumps r) = sample_dumps r" by (rule py_strip_plain) (simp_all add: sample_dumps_def py_space_def)
  show "newline \<notin> set (sample_dumps r)" "carriage_return \<notin> set (sample_dumps r)"
    by (simp_all add: sample_dumps_def newline_other)
  assume n: "n < length (sample_dumps r)"
  have take: "take n (sample_dumps r) = (if n = 0 then [] else CHR ''{'' # replicate (n - 1) (CHR ''x''))"
    using n by (cases n) (auto simp: sample_dumps_def)
  then have "py_strip (take n (sample_dumps r)) = take n (sample_dumps r)"
    by (cases "n \<le> 1") (auto simp: py_strip_plain py_space_def py_strip_def py_lstrip_def py_rstrip_def)
  moreover have "CHR ''}'' \<notin> set (take n (sample_dumps r))" unfolding take by auto
  moreover have "CHR ''}'' \<in> set (sample_dumps m)" for m by (simp add: sample_dumps_def)
  ultimately show "sample_loads (py_strip (take n (sample_dumps r))) = None" unfolding sample_loads_def by metis
qed

theorem session_file_crash_safe_witness:
  "iter_rows sample_loads (take 7 (fold (append_row sample_dumps) [2, 0, 3] [])) = [2, 0]
   \<and> iter_rows sample_loads (fold (append_row sample_dumps) [2, 0, 3] []) = [2, 0, 3]"
  using session_file_crash_safe [OF sample_codec, of 7 "[2, 0, 3]"] by (simp add: sample_dumps_def row_text_def)

text \<open>The row that is appended after a crash is lost.\<close>

lemma append_after_crash_lost:
  "iter_rows sample_loads (append_row sample_dumps 3 (concat (map (row_text sample_dumps) [2]) @ take 1 (sample_dumps 0))) = [2]"
proof -
  let ?l = "take 1 (sample_dumps 0) @ sample_dumps 3"
  have "?l \<noteq> sample_dumps n" for n by (cases n) (simp_all add: sample_dumps_def)
  moreover have "py_strip ?l = ?l" by (rule py_strip_plain) (simp_all add: sample_dumps_def py_space_def)
  ultimately have "row_of_line sample_loads ?l = None" by (simp add: row_of_line_def sample_loads_def)
  moreover have "1 < length (sample_dumps 0)" by (simp add: sample_dumps_def)
  ultimately show ?thesis using append_after_crash [OF sample_codec, of 1 0 3 "[2]"] by simp
qed

end
