(* ===== verification/Runtime_Records.thy ===== *)
theory Runtime_Records
  imports Jsonl_File
begin

text \<open>
  Runtime events and checkpoints as they are stored (\<open>contracts/events.py\<close>, \<open>contracts/checkpoints.py\<close>,
  \<open>runtime/state.py\<close>), the construction of both, and the session files of the JSON-lines backend at the level
  of rows (\<open>runtime/storage/jsonl_store.py\<close>): the handle of a file with the event identifiers it has seen and
  the highest sequence number, and the registry of handles. The text of a session file is in \<open>Jsonl_File\<close>.
  The tool policy of a run's input is given by the fields that the runner rewrites. Identifiers drawn from \<open>uuid4\<close> and the clock reading are arguments. An enumeration member is the string it is
  stored as, and the parts of a run's input and output that no store reads are kept together.
\<close>

section \<open>Events\<close>

record RuntimeEvent =
  re_event_id :: string
  re_type :: string
  re_run_id :: string
  re_attempt_id :: string
  re_seq :: int
  re_created_at :: string
  re_checkpoint_id :: "string option"
  re_node_id :: "string option"
  re_payload :: pydict
  re_trace_id :: "string option"
  re_severity :: string
  re_redaction :: "pyval option"

record RuntimeEventOptions =
  eo_payload :: pydict
  eo_checkpoint_id :: "string option"
  eo_node_id :: "string option"
  eo_trace_id :: "string option"
  eo_severity :: "string option"
  eo_redaction :: "pyval option"

text \<open>The model refuses a sequence number below one. Payloads are JSON values by type.\<close>

definition validate_seq :: "RuntimeEvent \<Rightarrow> string + RuntimeEvent" where
  "validate_seq e = (if re_seq e < 1 then Inl ''seq must be >= 1'' else Inr e)"

definition new_runtime_event ::
  "string \<Rightarrow> string \<Rightarrow> string \<Rightarrow> string \<Rightarrow> string \<Rightarrow> int \<Rightarrow> RuntimeEventOptions \<Rightarrow> string + RuntimeEvent" where
  "new_runtime_event hex now event_type run attempt n opts = validate_seq
     \<lparr>re_event_id = ''evt_'' @ hex, re_type = event_type, re_run_id = run, re_attempt_id = attempt, re_seq = n,
      re_created_at = now, re_checkpoint_id = eo_checkpoint_id opts, re_node_id = eo_node_id opts,
      re_payload = eo_payload opts, re_trace_id = eo_trace_id opts,
      re_severity = (case eo_severity opts of Some s \<Rightarrow> s | None \<Rightarrow> ''info''), re_redaction = eo_redaction opts\<rparr>"

section \<open>Checkpoints\<close>

record CheckpointRef =
  cr_checkpoint_id :: string
  cr_run_id :: string
  cr_attempt_id :: string
  cr_thread_id :: "string option"
  cr_branch_id :: "string option"
  cr_parent_checkpoint_id :: "string option"
  cr_graph_id :: string
  cr_node_id :: "string option"
  cr_created_at :: string
  cr_state_version :: string
  cr_revision :: int
  cr_storage_backend :: string
  cr_metadata :: pydict

record AgentRunInput =
  an_run_id :: "string option"
  an_thread_id :: "string option"
  an_agent_id :: "string option"
  an_app_metadata :: pydict
  an_allowed_tools :: "string list option"
  an_denied_tools :: "string list option"
  an_policy_metadata :: pydict
  an_other_fields :: pydict

record AgentRunOutput =
  ro_attempt_id :: string
  ro_other_fields :: pydict

record RuntimeState =
  rt_run_input :: AgentRunInput
  rt_latest_output :: "AgentRunOutput option"
  rt_events :: "RuntimeEvent list"
  rt_checkpoint :: "CheckpointRef option"
  rt_metadata :: pydict

record CheckpointRecord =
  ck_ref :: CheckpointRef
  ck_state :: RuntimeState

record CheckpointSeed =
  sd_run_id :: string
  sd_attempt_id :: string
  sd_thread_id :: "string option"
  sd_graph_id :: string
  sd_node_id :: "string option"
  sd_storage_backend :: string
  sd_prior_checkpoint_id :: "string option"

definition build_checkpoint_ref :: "string \<Rightarrow> string \<Rightarrow> CheckpointSeed \<Rightarrow> CheckpointRecord option \<Rightarrow> CheckpointRef" where
  "build_checkpoint_ref hex now seed previous_row =
     \<lparr>cr_checkpoint_id = ''chk_'' @ hex, cr_run_id = sd_run_id seed, cr_attempt_id = sd_attempt_id seed,
      cr_thread_id = sd_thread_id seed, cr_branch_id = None,
      cr_parent_checkpoint_id =
        (if str_truthy (sd_prior_checkpoint_id seed) then sd_prior_checkpoint_id seed
         else map_option (\<lambda>row. cr_checkpoint_id (ck_ref row)) previous_row),
      cr_graph_id = sd_graph_id seed, cr_node_id = sd_node_id seed, cr_created_at = now, cr_state_version = ''v1'',
      cr_revision = (case previous_row of Some row \<Rightarrow> cr_revision (ck_ref row) + 1 | None \<Rightarrow> 0),
      cr_storage_backend = sd_storage_backend seed, cr_metadata = []\<rparr>"

text \<open>The run a state belongs to, and the seed of its next checkpoint.\<close>

definition state_run_id :: "RuntimeState \<Rightarrow> string" where
  "state_run_id st = (case an_run_id (rt_run_input st) of Some r \<Rightarrow> if r = [] then ''run_unknown'' else r | None \<Rightarrow> ''run_unknown'')"

definition seed_from_runtime_state :: "string \<Rightarrow> string option \<Rightarrow> string \<Rightarrow> string \<Rightarrow> RuntimeState \<Rightarrow> CheckpointSeed" where
  "seed_from_runtime_state graph node backend run st =
     \<lparr>sd_run_id = run,
      sd_attempt_id = (case rt_latest_output st of Some out \<Rightarrow> ro_attempt_id out | None \<Rightarrow> ''attempt_1''),
      sd_thread_id = an_thread_id (rt_run_input st), sd_graph_id = graph, sd_node_id = node, sd_storage_backend = backend,
      sd_prior_checkpoint_id = map_option cr_checkpoint_id (rt_checkpoint st)\<rparr>"

definition prepare_seed_and_previous ::
  "(string \<Rightarrow> CheckpointRecord option) \<Rightarrow> string \<Rightarrow> string option \<Rightarrow> string \<Rightarrow> RuntimeState \<Rightarrow> CheckpointSeed \<times> CheckpointRecord option" where
  "prepare_seed_and_previous latest_loader graph node backend st =
     (let run = state_run_id st in (seed_from_runtime_state graph node backend run st, latest_loader run))"

text \<open>A state with its checkpoint makes a row, and a state without one makes none.\<close>

definition checkpoint_record_from_state :: "RuntimeState \<Rightarrow> CheckpointRecord option" where
  "checkpoint_record_from_state st = map_option (\<lambda>ref. \<lparr>ck_ref = ref, ck_state = st\<rparr>) (rt_checkpoint st)"

section \<open>Session files\<close>

text \<open>
  What a parsed line of a session file is: an event, a row tagged as an event that does not validate (of which
  only an identifier and a number may be read), a checkpoint, or anything else.
\<close>

datatype jsonl_row =
    Event_Row RuntimeEvent
  | Malformed_Event_Row "string option" "int option"
  | Checkpoint_Row CheckpointRecord
  | Other_Row

definition alnum_char :: "char \<Rightarrow> bool" where
  "alnum_char c = (let n = of_char c :: nat in
     (48 \<le> n \<and> n \<le> 57) \<or> (65 \<le> n \<and> n \<le> 90) \<or> (97 \<le> n \<and> n \<le> 122)
     \<or> n \<in> {170, 178, 179, 181, 185, 186, 188, 189, 190} \<or> (192 \<le> n \<and> n \<noteq> 215 \<and> n \<noteq> 247))"

definition safe_filename :: "string \<Rightarrow> string" where
  "safe_filename run =
     (let mapped = map (\<lambda>c. if alnum_char c \<or> c \<in> set ''._-'' then c else CHR ''_'') run;
          edge = (\<lambda>c. c \<in> set ''._-'');
          cleaned = rev (dropWhile edge (rev (dropWhile edge mapped)))
      in take 200 (if cleaned = [] then ''run_unknown'' else cleaned))"

definition session_file_name :: "string \<Rightarrow> string" where
  "session_file_name run = safe_filename run @ ''.jsonl''"

record JsonlFile =
  jf_seen_event_ids :: "string set"
  jf_max_seq :: int

definition empty_handle :: JsonlFile where
  "empty_handle = \<lparr>jf_seen_event_ids = {}, jf_max_seq = 0\<rparr>"

definition note_event :: "string option \<Rightarrow> int option \<Rightarrow> JsonlFile \<Rightarrow> JsonlFile" where
  "note_event i n h =
     \<lparr>jf_seen_event_ids = (if str_truthy i then insert (the i) (jf_seen_event_ids h) else jf_seen_event_ids h),
      jf_max_seq = (case n of Some k \<Rightarrow> if k > jf_max_seq h then k else jf_max_seq h | None \<Rightarrow> jf_max_seq h)\<rparr>"

fun prime_row :: "jsonl_row \<Rightarrow> JsonlFile \<Rightarrow> JsonlFile" where
  "prime_row (Event_Row e) h = note_event (Some (re_event_id e)) (Some (re_seq e)) h"
| "prime_row (Malformed_Event_Row i n) h = note_event i n h"
| "prime_row (Checkpoint_Row r) h = h"
| "prime_row Other_Row h = h"

definition prime_seen_event_ids :: "jsonl_row list \<Rightarrow> JsonlFile" where
  "prime_seen_event_ids rows = fold prime_row rows empty_handle"

text \<open>A storage directory with the registry of the process that uses it; no entry is a file that does not
  exist.\<close>

record jsonl_store =
  jl_files :: "string \<rightharpoonup> jsonl_row list"
  jl_handles :: "string \<rightharpoonup> JsonlFile"

definition empty_jsonl :: jsonl_store where
  "empty_jsonl = \<lparr>jl_files = Map.empty, jl_handles = Map.empty\<rparr>"

definition file_rows :: "jsonl_store \<Rightarrow> string \<Rightarrow> jsonl_row list" where
  "file_rows s f = (case jl_files s f of Some rows \<Rightarrow> rows | None \<Rightarrow> [])"

definition session_handle :: "string \<Rightarrow> jsonl_store \<Rightarrow> JsonlFile \<times> jsonl_store" where
  "session_handle f s =
     (case jl_handles s f of
        Some h \<Rightarrow> (h, s)
      | None \<Rightarrow> (let h = prime_seen_event_ids (file_rows s f) in (h, s\<lparr>jl_handles := (jl_handles s)(f \<mapsto> h)\<rparr>)))"

definition write_row :: "string \<Rightarrow> jsonl_row \<Rightarrow> jsonl_store \<Rightarrow> jsonl_store" where
  "write_row f row s = s\<lparr>jl_files := (jl_files s)(f \<mapsto> file_rows s f @ [row])\<rparr>"

definition append_event :: "string \<Rightarrow> RuntimeEvent \<Rightarrow> jsonl_store \<Rightarrow> bool \<times> jsonl_store" where
  "append_event f e s =
     (let (h, s1) = session_handle f s
      in if re_event_id e \<noteq> [] \<and> re_event_id e \<in> jf_seen_event_ids h then (False, s1)
         else (True, write_row f (Event_Row e)
                (s1\<lparr>jl_handles := (jl_handles s1)(f \<mapsto> note_event (Some (re_event_id e)) (Some (re_seq e)) h)\<rparr>)))"

definition append_checkpoint :: "string \<Rightarrow> CheckpointRecord \<Rightarrow> jsonl_store \<Rightarrow> jsonl_store" where
  "append_checkpoint f r s = (let (h, s1) = session_handle f s in write_row f (Checkpoint_Row r) s1)"

text \<open>A new process starts with an empty registry.\<close>

definition reopen :: "jsonl_store \<Rightarrow> jsonl_store" where
  "reopen s = s\<lparr>jl_handles := Map.empty\<rparr>"

text \<open>The text of a file with the given rows: writing a row appends its line, and the lines are read back as the
  rows.\<close>

definition session_text :: "(jsonl_row \<Rightarrow> string) \<Rightarrow> jsonl_row list \<Rightarrow> string" where
  "session_text dumps rows = concat (map (row_text dumps) rows)"

lemma session_text_rows: "jsonl_codec dumps loads \<Longrightarrow> iter_rows loads (session_text dumps rows) = rows"
  using iter_rows_rows [of dumps loads rows "[]"] by (simp add: session_text_def)

lemma session_text_write:
  "session_text dumps (file_rows (write_row f row s) f) = append_row dumps row (session_text dumps (file_rows s f))"
  by (simp add: session_text_def append_row_def write_row_def file_rows_def)

section \<open>A cached handle is the primed one\<close>

definition handles_ok :: "jsonl_store \<Rightarrow> bool" where
  "handles_ok s = (\<forall>f h. jl_handles s f = Some h \<longrightarrow> h = prime_seen_event_ids (file_rows s f))"

lemma empty_jsonl_ok: "handles_ok empty_jsonl"
  by (simp add: handles_ok_def empty_jsonl_def)

lemma session_handle_files [simp]:
  "jl_files (snd (session_handle f s)) = jl_files s" "file_rows (snd (session_handle f s)) = file_rows s"
  by (auto simp: session_handle_def file_rows_def fun_eq_iff Let_def split: option.split)

lemma session_handle_handle: "handles_ok s \<Longrightarrow> fst (session_handle f s) = prime_seen_event_ids (file_rows s f)"
  by (auto simp: session_handle_def handles_ok_def Let_def split: option.split)

lemma session_handle_ok: "handles_ok s \<Longrightarrow> handles_ok (snd (session_handle f s))"
  unfolding handles_ok_def session_handle_files
  by (auto simp: session_handle_def Let_def split: option.splits if_splits)

lemma file_rows_write: "file_rows (write_row f row s) g = file_rows s g @ (if g = f then [row] else [])"
  by (simp add: write_row_def file_rows_def)

lemma file_rows_handles [simp]: "file_rows (s\<lparr>jl_handles := hs\<rparr>) = file_rows s"
  by (simp add: file_rows_def fun_eq_iff)

lemma prime_snoc: "prime_seen_event_ids (rows @ [row]) = prime_row row (prime_seen_event_ids rows)"
  by (simp add: prime_seen_event_ids_def)

lemma jl_handles_write [simp]: "jl_handles (write_row f row s) = jl_handles s"
  by (simp add: write_row_def)

lemma append_event_rows:
  assumes "handles_ok s"
  shows "file_rows (snd (append_event f e s)) g = file_rows s g @
    (if g = f \<and> \<not> (re_event_id e \<noteq> [] \<and> re_event_id e \<in> jf_seen_event_ids (prime_seen_event_ids (file_rows s f))) then [Event_Row e] else [])"
  using session_handle_handle [OF assms, of f]
  by (auto simp: append_event_def split_beta Let_def file_rows_write)

lemma append_event_ok:
  assumes "handles_ok s"
  shows "handles_ok (snd (append_event f e s))"
proof -
  have "handles_ok (snd (session_handle f s))" "fst (session_handle f s) = prime_seen_event_ids (file_rows s f)"
    using assms by (simp_all add: session_handle_ok session_handle_handle)
  then show ?thesis by (auto simp: handles_ok_def append_event_def split_beta Let_def file_rows_write prime_snoc)
qed

lemma append_checkpoint_rows: "file_rows (append_checkpoint f r s) g = file_rows s g @ (if g = f then [Checkpoint_Row r] else [])"
  by (auto simp: append_checkpoint_def split_beta Let_def file_rows_write)

lemma append_checkpoint_ok:
  assumes "handles_ok s"
  shows "handles_ok (append_checkpoint f r s)"
  using session_handle_ok [OF assms, of f]
  by (auto simp: handles_ok_def append_checkpoint_def split_beta Let_def file_rows_write prime_snoc)

lemma reopen_ok: "handles_ok (reopen s) \<and> file_rows (reopen s) = file_rows s"
  by (simp add: handles_ok_def reopen_def)

text \<open>The seen identifiers and the highest number of a file, read off its rows.\<close>

fun row_event :: "jsonl_row \<Rightarrow> (string option \<times> int option) option" where
  "row_event (Event_Row e) = Some (Some (re_event_id e), Some (re_seq e))"
| "row_event (Malformed_Event_Row i n) = Some (i, n)"
| "row_event _ = None"

lemma prime_max: "jf_max_seq (prime_seen_event_ids rows) \<ge> 0
   \<and> (\<forall>row \<in> set rows. \<forall>i n. row_event row = Some (i, Some n) \<longrightarrow> n \<le> jf_max_seq (prime_seen_event_ids rows))"
proof (induction rows rule: rev_induct)
  case (snoc row rows)
  then show ?case by (cases row) (fastforce simp: prime_snoc note_event_def split: option.split)+
qed (simp add: prime_seen_event_ids_def empty_handle_def)

lemma prime_seen: "jf_seen_event_ids (prime_seen_event_ids rows) =
   {i. i \<noteq> [] \<and> (\<exists>row \<in> set rows. \<exists>n. row_event row = Some (Some i, n))}"
proof (induction rows rule: rev_induct)
  case (snoc row rows)
  show ?case
  proof (cases row)
    case (Malformed_Event_Row i n)
    with snoc show ?thesis by (cases i) (auto simp: prime_snoc note_event_def)
  qed (use snoc in \<open>auto simp: prime_snoc note_event_def\<close>)
qed (simp add: prime_seen_event_ids_def empty_handle_def)

end
