(* ===== verification/Event_Log.thy ===== *)
theory Event_Log
  imports Runtime_Records
begin

text \<open>
  The event log of a run in its three backends, in memory (\<open>runtime/events.py\<close>), in SQLite
  (\<open>runtime/sqlite_store.py\<close>) and in session files (\<open>runtime/storage/jsonl_store.py\<close>), with the emission of events
  by the runner (\<open>_emit\<close> of \<open>runtime/single_agent/lifecycle/journal.py\<close>). Every backend implements an abstract
  journal: the events of a run are numbered from one without gaps.
\<close>

section \<open>In memory\<close>

record InMemoryEventLog =
  ml_events_by_run :: "string \<rightharpoonup> RuntimeEvent list"
  ml_max_seq_by_run :: "string \<rightharpoonup> int"

definition empty_event_log :: InMemoryEventLog where
  "empty_event_log = \<lparr>ml_events_by_run = Map.empty, ml_max_seq_by_run = Map.empty\<rparr>"

definition memory_run_events :: "InMemoryEventLog \<Rightarrow> string \<Rightarrow> RuntimeEvent list" where
  "memory_run_events s run = (case ml_events_by_run s run of Some es \<Rightarrow> es | None \<Rightarrow> [])"

definition memory_max_seq :: "InMemoryEventLog \<Rightarrow> string \<Rightarrow> int" where
  "memory_max_seq s run = (case ml_max_seq_by_run s run of Some n \<Rightarrow> n | None \<Rightarrow> 0)"

definition memory_append :: "RuntimeEvent \<Rightarrow> InMemoryEventLog \<Rightarrow> InMemoryEventLog" where
  "memory_append e s =
     (let run = re_run_id e; s1 = s\<lparr>ml_events_by_run := (ml_events_by_run s)(run \<mapsto> memory_run_events s run @ [e])\<rparr>
      in if re_seq e > memory_max_seq s run then s1\<lparr>ml_max_seq_by_run := (ml_max_seq_by_run s)(run \<mapsto> re_seq e)\<rparr> else s1)"

definition memory_next_seq :: "string \<Rightarrow> InMemoryEventLog \<Rightarrow> int \<times> InMemoryEventLog" where
  "memory_next_seq run s = (memory_max_seq s run + 1, s)"

definition after_filter :: "int option \<Rightarrow> RuntimeEvent list \<Rightarrow> RuntimeEvent list" where
  "after_filter after es = (case after of None \<Rightarrow> es | Some n \<Rightarrow> filter (\<lambda>e. re_seq e > n) es)"

definition memory_list_for_run :: "string \<Rightarrow> int option \<Rightarrow> InMemoryEventLog \<Rightarrow> RuntimeEvent list \<times> InMemoryEventLog" where
  "memory_list_for_run run after s = (after_filter after (memory_run_events s run), s)"

section \<open>In SQLite\<close>

text \<open>The rows of \<open>run_events\<close> in the order of their row identifiers; \<open>INSERT OR REPLACE\<close> deletes the row with
  the same key and inserts a new one.\<close>

type_synonym run_events_table = "RuntimeEvent list"

definition sqlite_append :: "RuntimeEvent \<Rightarrow> run_events_table \<Rightarrow> run_events_table" where
  "sqlite_append e t = filter (\<lambda>x. re_event_id x \<noteq> re_event_id e) t @ [e]"

definition sql_max :: "int list \<Rightarrow> int option" where
  "sql_max ns = (case ns of [] \<Rightarrow> None | n # ns' \<Rightarrow> Some (fold max ns' n))"

definition sqlite_next_seq :: "string \<Rightarrow> run_events_table \<Rightarrow> int \<times> run_events_table" where
  "sqlite_next_seq run t =
     ((case sql_max (map re_seq (filter (\<lambda>e. re_run_id e = run) t)) of Some n \<Rightarrow> n | None \<Rightarrow> 0) + 1, t)"

definition sqlite_list_for_run :: "string \<Rightarrow> int option \<Rightarrow> run_events_table \<Rightarrow> RuntimeEvent list \<times> run_events_table" where
  "sqlite_list_for_run run after t =
     (sort_key re_seq (filter (\<lambda>e. re_run_id e = run \<and> (case after of None \<Rightarrow> True | Some n \<Rightarrow> re_seq e > n)) t), t)"

section \<open>In session files\<close>

definition jsonl_append :: "RuntimeEvent \<Rightarrow> jsonl_store \<Rightarrow> jsonl_store" where
  "jsonl_append e s = snd (append_event (session_file_name (re_run_id e)) e s)"

definition jsonl_next_seq :: "string \<Rightarrow> jsonl_store \<Rightarrow> int \<times> jsonl_store" where
  "jsonl_next_seq run s = (let (h, s1) = session_handle (session_file_name run) s in (jf_max_seq h + 1, s1))"

text \<open>The loop over the rows of the file.\<close>

fun listed_events :: "string \<Rightarrow> int option \<Rightarrow> jsonl_row list \<Rightarrow> RuntimeEvent list" where
  "listed_events run after [] = []"
| "listed_events run after (Event_Row e # rows) =
     (if re_run_id e \<noteq> run then listed_events run after rows
      else if (case after of None \<Rightarrow> False | Some n \<Rightarrow> re_seq e \<le> n) then listed_events run after rows
      else e # listed_events run after rows)"
| "listed_events run after (_ # rows) = listed_events run after rows"

definition jsonl_list_for_run :: "string \<Rightarrow> int option \<Rightarrow> jsonl_store \<Rightarrow> RuntimeEvent list \<times> jsonl_store" where
  "jsonl_list_for_run run after s =
     (let (h, s1) = session_handle (session_file_name run) s
      in (listed_events run after (file_rows s1 (session_file_name run)), s1))"

section \<open>Emission\<close>

record EventSpec =
  es_run_id :: string
  es_attempt_id :: string
  es_event_type :: string
  es_payload :: "pydict option"
  es_trace_id :: "string option"
  es_severity :: "string option"
  es_redaction :: "pyval option"

text \<open>\<open>sha1_hex\<close> is the hexadecimal digest of the standard library.\<close>

definition deterministic_trace_id :: "(string \<Rightarrow> string) \<Rightarrow> string \<Rightarrow> string \<Rightarrow> string" where
  "deterministic_trace_id sha1_hex run attempt = ''trace_'' @ take 16 (sha1_hex (run @ '':'' @ attempt))"

definition spec_options :: "(string \<Rightarrow> string) \<Rightarrow> EventSpec \<Rightarrow> RuntimeEventOptions" where
  "spec_options sha1_hex spec =
     \<lparr>eo_payload = (case es_payload spec of Some d \<Rightarrow> d | None \<Rightarrow> []), eo_checkpoint_id = None, eo_node_id = None,
      eo_trace_id = opt_or (es_trace_id spec) (Some (deterministic_trace_id sha1_hex (es_run_id spec) (es_attempt_id spec))),
      eo_severity = es_severity spec, eo_redaction = es_redaction spec\<rparr>"

definition emit ::
  "(string \<Rightarrow> string) \<Rightarrow> (string \<Rightarrow> 's \<Rightarrow> int \<times> 's) \<Rightarrow> (RuntimeEvent \<Rightarrow> 's \<Rightarrow> 's) \<Rightarrow> string \<Rightarrow> string \<Rightarrow> EventSpec \<Rightarrow> 's
     \<Rightarrow> (string + RuntimeEvent) \<times> 's" where
  "emit sha1_hex next_seq put hex now spec s =
     (let (n, s1) = next_seq (es_run_id spec) s
      in case new_runtime_event hex now (es_event_type spec) (es_run_id spec) (es_attempt_id spec) n (spec_options sha1_hex spec) of
           Inl err \<Rightarrow> (Inl err, s1)
         | Inr e \<Rightarrow> (Inr e, put e s1))"

text \<open>A run of the program emits one specification after another; \<open>hex\<close> and \<open>now\<close> are what \<open>uuid4\<close> and the
  clock give at each.\<close>

fun emit_all ::
  "(string \<Rightarrow> string) \<Rightarrow> (string \<Rightarrow> 's \<Rightarrow> int \<times> 's) \<Rightarrow> (RuntimeEvent \<Rightarrow> 's \<Rightarrow> 's) \<Rightarrow> (string \<times> string \<times> EventSpec) list \<Rightarrow> 's
     \<Rightarrow> (string + RuntimeEvent) list \<times> 's" where
  "emit_all sha1_hex next_seq put [] s = ([], s)"
| "emit_all sha1_hex next_seq put ((hex, now, spec) # rest) s =
     (let (r, s1) = emit sha1_hex next_seq put hex now spec s;
          (rs, s2) = emit_all sha1_hex next_seq put rest s1
      in (r # rs, s2))"

section \<open>The abstract journal\<close>

text \<open>The event of a specification under a given number; the journal numbers the events of every run by their
  position.\<close>

definition event_of :: "(string \<Rightarrow> string) \<Rightarrow> string \<Rightarrow> string \<Rightarrow> EventSpec \<Rightarrow> int \<Rightarrow> RuntimeEvent" where
  "event_of sha1_hex hex now spec n =
     \<lparr>re_event_id = ''evt_'' @ hex, re_type = es_event_type spec, re_run_id = es_run_id spec,
      re_attempt_id = es_attempt_id spec, re_seq = n, re_created_at = now, re_checkpoint_id = None, re_node_id = None,
      re_payload = (case es_payload spec of Some d \<Rightarrow> d | None \<Rightarrow> []),
      re_trace_id = opt_or (es_trace_id spec) (Some (deterministic_trace_id sha1_hex (es_run_id spec) (es_attempt_id spec))),
      re_severity = (case es_severity spec of Some v \<Rightarrow> v | None \<Rightarrow> ''info''), re_redaction = es_redaction spec\<rparr>"

fun journal_all ::
  "(string \<Rightarrow> string) \<Rightarrow> (string \<times> string \<times> EventSpec) list \<Rightarrow> (string \<Rightarrow> RuntimeEvent list) \<Rightarrow> RuntimeEvent list \<times> (string \<Rightarrow> RuntimeEvent list)" where
  "journal_all sha1_hex [] j = ([], j)"
| "journal_all sha1_hex ((hex, now, spec) # rest) j =
     (let run = es_run_id spec; e = event_of sha1_hex hex now spec (int (length (j run)) + 1);
          (es, j') = journal_all sha1_hex rest (j(run := j run @ [e]))
      in (e # es, j'))"

definition numbered :: "RuntimeEvent list \<Rightarrow> bool" where
  "numbered es = (map re_seq es = [1..int (length es)])"

definition high_seq :: "RuntimeEvent list \<Rightarrow> int" where
  "high_seq es = fold max (map re_seq es) 0"

lemma new_event: "1 \<le> n \<Longrightarrow>
   new_runtime_event hex now (es_event_type spec) (es_run_id spec) (es_attempt_id spec) n (spec_options sha1_hex spec)
   = Inr (event_of sha1_hex hex now spec n)"
  by (simp add: new_runtime_event_def validate_seq_def event_of_def spec_options_def)

lemma event_of_fields [simp]:
  "re_run_id (event_of sha1_hex hex now spec n) = es_run_id spec" "re_seq (event_of sha1_hex hex now spec n) = n"
  "re_event_id (event_of sha1_hex hex now spec n) = ''evt_'' @ hex"
  by (simp_all add: event_of_def)

lemma high_seq_snoc: "high_seq (es @ [e]) = max (re_seq e) (high_seq es)"
  by (simp add: high_seq_def)

lemma high_seq_bound: "0 \<le> high_seq es \<and> (\<forall>e \<in> set es. re_seq e \<le> high_seq es)"
  by (induction es rule: rev_induct) (auto simp: high_seq_snoc, simp add: high_seq_def)

lemma high_seq_Nil [simp]: "high_seq [] = 0"
  by (simp add: high_seq_def)

lemma numbered_snoc: "numbered (es @ [e]) \<longleftrightarrow> numbered es \<and> re_seq e = int (length es) + 1"
  by (simp add: numbered_def upto_rec2 add.commute)

lemma numbered_high: "numbered es \<Longrightarrow> high_seq es = int (length es)"
  by (induction es rule: rev_induct) (simp_all add: high_seq_snoc numbered_snoc)

text \<open>Reading from a known number on gives the rest of a numbered log.\<close>

lemma numbered_after: "numbered es \<Longrightarrow> after_filter (Some k) es = drop (nat k) es"
proof (induction es rule: rev_induct)
  case (snoc e es)
  then have "re_seq e = int (length es) + 1" "filter (\<lambda>e. re_seq e > k) es = drop (nat k) es"
    by (simp_all add: numbered_snoc after_filter_def)
  then show ?case by (auto simp: after_filter_def)
qed (simp add: after_filter_def)

text \<open>Identifiers that are fresh for all steps stay fresh for the rest after the first.\<close>

lemma fresh_rest:
  assumes "distinct (map fst (x # steps))"
    "\<forall>y \<in> set (x # steps). ''evt_'' @ fst y \<notin> known \<and> es_run_id (snd (snd y)) \<in> runs"
    "known' \<subseteq> insert (''evt_'' @ fst x) known"
  shows "\<forall>y \<in> set steps. ''evt_'' @ fst y \<notin> known' \<and> es_run_id (snd (snd y)) \<in> runs"
proof
  fix y assume y: "y \<in> set steps"
  then have "fst y \<in> set (map fst steps)" by simp
  then have "fst y \<noteq> fst x" using assms(1) by (metis distinct.simps(2) list.simps(9))
  with y assms(2,3) show "''evt_'' @ fst y \<notin> known' \<and> es_run_id (snd (snd y)) \<in> runs" by auto
qed

section \<open>What an event log promises\<close>

text \<open>
  \<open>events\<close> is the log of every run and \<open>ids\<close> the event identifiers in use; \<open>runs\<close> are the runs whose log the
  promise covers. An event that carries a fresh identifier and the next number is added at the end of its run's
  log, a listing is the log after the given number, and the next number is above all that are there.
\<close>

locale event_log =
  fixes put :: "RuntimeEvent \<Rightarrow> 's \<Rightarrow> 's"
    and next_seq :: "string \<Rightarrow> 's \<Rightarrow> int \<times> 's"
    and list_for_run :: "string \<Rightarrow> int option \<Rightarrow> 's \<Rightarrow> RuntimeEvent list \<times> 's"
    and events :: "'s \<Rightarrow> string \<Rightarrow> RuntimeEvent list"
    and ids :: "'s \<Rightarrow> string set"
    and inv :: "'s \<Rightarrow> bool"
    and runs :: "string set"
  assumes put_inv: "inv s \<Longrightarrow> re_run_id e \<in> runs \<Longrightarrow> 1 \<le> re_seq e \<Longrightarrow> inv (put e s)"
    and next_inv: "inv s \<Longrightarrow> inv (snd (next_seq r s))"
    and next_keeps: "inv s \<Longrightarrow> events (snd (next_seq r s)) = events s \<and> ids (snd (next_seq r s)) = ids s"
    and next_above: "inv s \<Longrightarrow> high_seq (events s r) < fst (next_seq r s)"
    and next_again: "inv s \<Longrightarrow> fst (next_seq r (snd (next_seq r s))) = fst (next_seq r s)"
    and put_events: "inv s \<Longrightarrow> re_run_id e \<in> runs \<Longrightarrow> re_event_id e \<notin> ids s \<Longrightarrow> re_seq e = fst (next_seq (re_run_id e) s) \<Longrightarrow>
      events (put e s) = (events s)(re_run_id e := events s (re_run_id e) @ [e])"
    and put_ids: "inv s \<Longrightarrow> ids (put e s) \<subseteq> insert (re_event_id e) (ids s)"
    and listed: "inv s \<Longrightarrow> fst (list_for_run r a s) = after_filter a (events s r)"
    and list_inv: "inv s \<Longrightarrow> inv (snd (list_for_run r a s))"
    and list_keeps: "inv s \<Longrightarrow> events (snd (list_for_run r a s)) = events s \<and> ids (snd (list_for_run r a s)) = ids s"
begin

lemma emit_event:
  assumes "inv s" "''evt_'' @ hex \<notin> ids s" "es_run_id spec \<in> runs"
  shows "\<exists>e. fst (emit sha1_hex next_seq put hex now spec s) = Inr e
    \<and> e = event_of sha1_hex hex now spec (fst (next_seq (es_run_id spec) s))
    \<and> events (snd (emit sha1_hex next_seq put hex now spec s)) = (events s)(es_run_id spec := events s (es_run_id spec) @ [e])
    \<and> ids (snd (emit sha1_hex next_seq put hex now spec s)) \<subseteq> insert (''evt_'' @ hex) (ids s)
    \<and> inv (snd (emit sha1_hex next_seq put hex now spec s))"
proof -
  obtain n s1 where n: "next_seq (es_run_id spec) s = (n, s1)" by force
  have "inv s1" "events s1 = events s" "ids s1 = ids s" "high_seq (events s (es_run_id spec)) < n" "fst (next_seq (es_run_id spec) s1) = n"
    using next_inv next_keeps next_above next_again assms(1) n by (metis fst_conv snd_conv)+
  moreover from this have "1 \<le> n" using high_seq_bound [of "events s (es_run_id spec)"] by linarith
  moreover have "emit sha1_hex next_seq put hex now spec s = (Inr (event_of sha1_hex hex now spec n), put (event_of sha1_hex hex now spec n) s1)"
    using \<open>1 \<le> n\<close> by (simp add: emit_def n new_event)
  ultimately show ?thesis
    using assms put_inv [of s1 "event_of sha1_hex hex now spec n"] put_events [of s1 "event_of sha1_hex hex now spec n"]
      put_ids [of s1 "event_of sha1_hex hex now spec n"] n by simp
qed

text \<open>The numbers of a run's events increase strictly, whatever else is emitted between them.\<close>

lemma emitted_increasing:
  assumes "inv s" "distinct (map fst steps)" "\<forall>x \<in> set steps. ''evt_'' @ fst x \<notin> ids s \<and> es_run_id (snd (snd x)) \<in> runs"
    "\<forall>r. sorted_wrt (<) (map re_seq (events s r))"
  shows "sorted_wrt (<) (map re_seq (events (snd (emit_all sha1_hex next_seq put steps s)) r))"
  using assms
proof (induction steps arbitrary: s)
  case (Cons x steps)
  obtain hex now spec where x: "x = (hex, now, spec)" by (cases x)
  let ?n = "fst (next_seq (es_run_id spec) s)"
  let ?s = "snd (emit sha1_hex next_seq put hex now spec s)"
  have ev: "events ?s = (events s)(es_run_id spec := events s (es_run_id spec) @ [event_of sha1_hex hex now spec ?n])"
    and idset: "ids ?s \<subseteq> insert (''evt_'' @ hex) (ids s)" and ok: "inv ?s"
    using emit_event [of s hex spec sha1_hex now] Cons.prems x by auto
  have "\<forall>e \<in> set (events s (es_run_id spec)). re_seq e < ?n"
    using next_above [of s "es_run_id spec"] high_seq_bound [of "events s (es_run_id spec)"] Cons.prems(1) by fastforce
  then have "\<forall>r. sorted_wrt (<) (map re_seq (events ?s r))" using Cons.prems(4) by (auto simp: ev sorted_wrt_append)
  moreover have "\<forall>y \<in> set steps. ''evt_'' @ fst y \<notin> ids ?s \<and> es_run_id (snd (snd y)) \<in> runs"
    using fresh_rest [OF Cons.prems(2,3), of "ids ?s"] idset x by simp
  ultimately show ?case using Cons.IH [of ?s] Cons.prems(2) ok x by (simp add: split_beta)
qed simp

end

text \<open>A log that numbers every run by itself leaves no gaps.\<close>

locale gapless_event_log = event_log +
  assumes next_exact: "inv s \<Longrightarrow> r \<in> runs \<Longrightarrow> fst (next_seq r s) = high_seq (events s r) + 1"
begin

lemma emits_implement_journal:
  assumes "inv s" "distinct (map fst steps)" "\<forall>x \<in> set steps. ''evt_'' @ fst x \<notin> ids s \<and> es_run_id (snd (snd x)) \<in> runs"
    "\<forall>r. numbered (events s r)"
  shows "fst (emit_all sha1_hex next_seq put steps s) = map Inr (fst (journal_all sha1_hex steps (events s)))
    \<and> (\<forall>r a. fst (list_for_run r a (snd (emit_all sha1_hex next_seq put steps s))) = after_filter a (snd (journal_all sha1_hex steps (events s)) r))
    \<and> (\<forall>r. numbered (snd (journal_all sha1_hex steps (events s)) r))"
  using assms
proof (induction steps arbitrary: s)
  case (Cons x steps)
  obtain hex now spec where x: "x = (hex, now, spec)" by (cases x)
  let ?r = "es_run_id spec"
  let ?e = "event_of sha1_hex hex now spec (int (length (events s ?r)) + 1)"
  let ?s = "snd (emit sha1_hex next_seq put hex now spec s)"
  have "fst (next_seq ?r s) = int (length (events s ?r)) + 1"
    using next_exact [of s ?r] numbered_high Cons.prems x by auto
  then have e: "fst (emit sha1_hex next_seq put hex now spec s) = Inr ?e"
    and ev: "events ?s = (events s)(?r := events s ?r @ [?e])"
    and idset: "ids ?s \<subseteq> insert (''evt_'' @ hex) (ids s)" and ok: "inv ?s"
    using emit_event [of s hex spec sha1_hex now] Cons.prems x by auto
  have "\<forall>r. numbered (events ?s r)" using Cons.prems(4) by (simp add: ev numbered_snoc)
  moreover have "\<forall>y \<in> set steps. ''evt_'' @ fst y \<notin> ids ?s \<and> es_run_id (snd (snd y)) \<in> runs"
    using fresh_rest [OF Cons.prems(2,3), of "ids ?s"] idset x by simp
  ultimately have IH: "fst (emit_all sha1_hex next_seq put steps ?s) = map Inr (fst (journal_all sha1_hex steps (events ?s)))
    \<and> (\<forall>r a. fst (list_for_run r a (snd (emit_all sha1_hex next_seq put steps ?s))) = after_filter a (snd (journal_all sha1_hex steps (events ?s)) r))
    \<and> (\<forall>r. numbered (snd (journal_all sha1_hex steps (events ?s)) r))"
    using Cons.IH [of ?s] Cons.prems(2) ok by simp
  have "journal_all sha1_hex (x # steps) (events s) =
      (?e # fst (journal_all sha1_hex steps (events ?s)), snd (journal_all sha1_hex steps (events ?s)))"
    by (simp add: x ev split_beta Let_def)
  moreover have "emit_all sha1_hex next_seq put (x # steps) s =
      (Inr ?e # fst (emit_all sha1_hex next_seq put steps ?s), snd (emit_all sha1_hex next_seq put steps ?s))"
    by (simp add: x e split_beta Let_def)
  ultimately show ?case using IH by simp
qed (simp add: listed)

end

section \<open>The three logs keep the promise\<close>

subsection \<open>In memory\<close>

definition memory_log_ok :: "InMemoryEventLog \<Rightarrow> bool" where
  "memory_log_ok s = (\<forall>r. memory_max_seq s r = high_seq (memory_run_events s r))"

lemma memory_append_events:
  "memory_run_events (memory_append e s) = (memory_run_events s)(re_run_id e := memory_run_events s (re_run_id e) @ [e])"
  by (auto simp: fun_eq_iff memory_append_def memory_run_events_def Let_def)

lemma memory_append_max:
  "memory_max_seq (memory_append e s) r = (if r = re_run_id e then max (re_seq e) (memory_max_seq s r) else memory_max_seq s r)"
  by (simp add: memory_append_def memory_max_seq_def Let_def)

interpretation memory_log: gapless_event_log memory_append memory_next_seq memory_list_for_run memory_run_events
  "\<lambda>s. {}" memory_log_ok UNIV
  by unfold_locales
    (auto simp: memory_log_ok_def memory_append_events memory_append_max high_seq_snoc memory_next_seq_def memory_list_for_run_def)

subsection \<open>In SQLite\<close>

definition table_events :: "run_events_table \<Rightarrow> string \<Rightarrow> RuntimeEvent list" where
  "table_events t r = sort_key re_seq (filter (\<lambda>e. re_run_id e = r) t)"

definition table_ok :: "run_events_table \<Rightarrow> bool" where
  "table_ok t = list_all (\<lambda>e. 1 \<le> re_seq e) t"

lemma high_seq_Max: "high_seq es = Max (insert 0 (re_seq ` set es))"
  using Max.set_eq_fold [of 0 "map re_seq es"] by (simp add: high_seq_def)

lemma sql_max_high: "list_all (\<lambda>e. 1 \<le> re_seq e) es \<Longrightarrow> (case sql_max (map re_seq es) of Some n \<Rightarrow> n | None \<Rightarrow> 0) = high_seq es"
  by (cases es) (auto simp: sql_max_def high_seq_def max_def)

lemma table_next: "table_ok t \<Longrightarrow> fst (sqlite_next_seq r t) = high_seq (table_events t r) + 1"
  using sql_max_high [of "filter (\<lambda>e. re_run_id e = r) t"]
  by (simp add: sqlite_next_seq_def table_events_def table_ok_def high_seq_Max list_all_iff)

lemma insort_key_snoc: "f y < f x \<Longrightarrow> insort_key f y (zs @ [x]) = insort_key f y zs @ [x]"
  by (induction zs) auto

lemma sort_key_snoc_max: "\<forall>y \<in> set ys. f y < f x \<Longrightarrow> sort_key f (ys @ [x]) = sort_key f ys @ [x]"
  by (induction ys) (auto simp: insort_key_snoc)

lemma table_append:
  assumes "table_ok t" "re_event_id e \<notin> re_event_id ` set t" "re_seq e = fst (sqlite_next_seq (re_run_id e) t)"
  shows "table_events (sqlite_append e t) = (table_events t)(re_run_id e := table_events t (re_run_id e) @ [e])"
proof
  fix r
  have t: "sqlite_append e t = t @ [e]" using assms(2) by (auto simp: sqlite_append_def filter_id_conv rev_image_eqI)
  have "re_seq x < re_seq e" if "x \<in> set (filter (\<lambda>e'. re_run_id e' = re_run_id e) t)" for x
    using table_next [OF assms(1), of "re_run_id e"] high_seq_bound [of "table_events t (re_run_id e)"] assms(3) that
    by (fastforce simp: table_events_def)
  then show "table_events (sqlite_append e t) r = ((table_events t)(re_run_id e := table_events t (re_run_id e) @ [e])) r"
    using sort_key_snoc_max [of "filter (\<lambda>e'. re_run_id e' = re_run_id e) t" re_seq e] by (simp add: t table_events_def)
qed

interpretation sqlite_log: gapless_event_log sqlite_append sqlite_next_seq sqlite_list_for_run table_events
  "\<lambda>t. re_event_id ` set t" table_ok UNIV
proof unfold_locales
  fix t :: run_events_table and e r a
  show "table_ok t \<Longrightarrow> 1 \<le> re_seq e \<Longrightarrow> table_ok (sqlite_append e t)"
    by (auto simp: table_ok_def sqlite_append_def list_all_iff)
  show "re_event_id ` set (sqlite_append e t) \<subseteq> insert (re_event_id e) (re_event_id ` set t)"
    by (auto simp: sqlite_append_def)
  show "fst (sqlite_list_for_run r a t) = after_filter a (table_events t r)"
    by (cases a) (simp_all add: sqlite_list_for_run_def after_filter_def table_events_def filter_sort conj_commute)
  show "table_ok t \<Longrightarrow> high_seq (table_events t r) < fst (sqlite_next_seq r t)" by (simp add: table_next)
  show "table_ok t \<Longrightarrow> fst (sqlite_next_seq r t) = high_seq (table_events t r) + 1" by (rule table_next)
qed (simp_all add: table_append, simp_all add: sqlite_next_seq_def sqlite_list_for_run_def)

subsection \<open>In session files\<close>

definition session_events :: "jsonl_store \<Rightarrow> string \<Rightarrow> RuntimeEvent list" where
  "session_events s r = listed_events r None (file_rows s (session_file_name r))"

definition session_ids :: "jsonl_store \<Rightarrow> string set" where
  "session_ids s = {i. \<exists>f. \<exists>row \<in> set (file_rows s f). \<exists>n. row_event row = Some (Some i, n)}"

lemma listed_append: "listed_events r a (rows @ rows') = listed_events r a rows @ listed_events r a rows'"
  by (induction r a rows rule: listed_events.induct) auto

lemma listed_after: "listed_events r a rows = after_filter a (listed_events r None rows)"
  by (induction r a rows rule: listed_events.induct) (auto simp: after_filter_def split: option.splits)

lemma listed_in_rows: "e \<in> set (listed_events r a rows) \<Longrightarrow> Event_Row e \<in> set rows \<and> re_run_id e = r"
  by (induction r a rows rule: listed_events.induct) (auto split: option.splits if_splits)

lemma session_next:
  assumes "handles_ok s"
  shows "fst (jsonl_next_seq r s) = jf_max_seq (prime_seen_event_ids (file_rows s (session_file_name r))) + 1"
    "file_rows (snd (jsonl_next_seq r s)) = file_rows s" "handles_ok (snd (jsonl_next_seq r s))"
  using session_handle_handle [OF assms] session_handle_ok [OF assms] by (simp_all add: jsonl_next_seq_def split_beta)

lemma session_list_keeps:
  "file_rows (snd (jsonl_list_for_run r a s)) = file_rows s" "handles_ok s \<Longrightarrow> handles_ok (snd (jsonl_list_for_run r a s))"
  by (simp_all add: jsonl_list_for_run_def split_beta session_handle_ok)

lemma session_next_above:
  assumes "handles_ok s"
  shows "high_seq (session_events s r) < fst (jsonl_next_seq r s)"
proof -
  let ?rows = "file_rows s (session_file_name r)"
  have "re_seq e \<le> jf_max_seq (prime_seen_event_ids ?rows)" if "e \<in> set (session_events s r)" for e
    using prime_max [of ?rows] listed_in_rows [of e r None ?rows] that by (fastforce simp: session_events_def)
  then have "high_seq (session_events s r) \<le> jf_max_seq (prime_seen_event_ids ?rows)"
    using prime_max [of ?rows] by (auto simp: high_seq_Max)
  then show ?thesis by (simp add: session_next(1) [OF assms])
qed

lemma session_append:
  assumes "handles_ok s" "re_event_id e \<notin> session_ids s"
  shows "session_events (jsonl_append e s) = (session_events s)(re_run_id e := session_events s (re_run_id e) @ [e])"
proof
  fix r
  have "re_event_id e \<notin> jf_seen_event_ids (prime_seen_event_ids (file_rows s (session_file_name (re_run_id e))))"
    using assms(2) by (auto simp: prime_seen session_ids_def)
  then have "file_rows (jsonl_append e s) (session_file_name r) =
      file_rows s (session_file_name r) @ (if session_file_name r = session_file_name (re_run_id e) then [Event_Row e] else [])"
    by (simp add: jsonl_append_def append_event_rows [OF assms(1)])
  then show "session_events (jsonl_append e s) r = ((session_events s)(re_run_id e := session_events s (re_run_id e) @ [e])) r"
    by (simp add: session_events_def listed_append)
qed

lemma session_append_ids: "handles_ok s \<Longrightarrow> session_ids (jsonl_append e s) \<subseteq> insert (re_event_id e) (session_ids s)"
  by (auto simp: session_ids_def jsonl_append_def append_event_rows split: if_splits)

interpretation session_log: event_log jsonl_append jsonl_next_seq jsonl_list_for_run session_events session_ids handles_ok UNIV
proof unfold_locales
  fix s e r a
  show "handles_ok s \<Longrightarrow> handles_ok (jsonl_append e s)" by (simp add: jsonl_append_def append_event_ok)
  show "handles_ok s \<Longrightarrow> fst (jsonl_list_for_run r a s) = after_filter a (session_events s r)"
    by (simp add: jsonl_list_for_run_def split_beta session_events_def listed_after [of r a])
  show "handles_ok s \<Longrightarrow> session_events (snd (jsonl_next_seq r s)) = session_events s \<and> session_ids (snd (jsonl_next_seq r s)) = session_ids s"
    by (simp add: session_events_def session_ids_def session_next fun_eq_iff)
  show "handles_ok s \<Longrightarrow> fst (jsonl_next_seq r (snd (jsonl_next_seq r s))) = fst (jsonl_next_seq r s)"
    by (simp add: session_next)
  show "handles_ok s \<Longrightarrow> high_seq (session_events s r) < fst (jsonl_next_seq r s)" by (rule session_next_above)
  show "session_events (snd (jsonl_list_for_run r a s)) = session_events s \<and> session_ids (snd (jsonl_list_for_run r a s)) = session_ids s"
    by (simp add: session_events_def session_ids_def session_list_keeps fun_eq_iff)
qed (simp_all add: session_next(3) session_append session_append_ids session_list_keeps)

text \<open>
  When the file names of the runs differ, every run has a session file for itself and the log is gapless. Two
  runs with one file name share its highest number.
\<close>

definition own_files :: "string set \<Rightarrow> jsonl_store \<Rightarrow> bool" where
  "own_files runs s = (handles_ok s \<and> (\<forall>f. \<forall>row \<in> set (file_rows s f). row_event row \<noteq> None \<longrightarrow>
     (\<exists>e. row = Event_Row e \<and> re_run_id e \<in> runs \<and> f = session_file_name (re_run_id e))))"

lemma prime_high: "(\<forall>row \<in> set rows. row_event row \<noteq> None \<longrightarrow> (\<exists>e. row = Event_Row e \<and> re_run_id e = r)) \<Longrightarrow>
   jf_max_seq (prime_seen_event_ids rows) = high_seq (listed_events r None rows)"
proof (induction rows rule: rev_induct)
  case (snoc row rows)
  then show ?case
    by (cases row) (auto simp: prime_snoc note_event_def listed_append high_seq_snoc)
qed (simp add: prime_seen_event_ids_def empty_handle_def)

lemma session_next_exact:
  assumes "own_files runs s" "inj_on session_file_name runs" "r \<in> runs"
  shows "fst (jsonl_next_seq r s) = high_seq (session_events s r) + 1"
proof -
  have "\<forall>row \<in> set (file_rows s (session_file_name r)). row_event row \<noteq> None \<longrightarrow> (\<exists>e. row = Event_Row e \<and> re_run_id e = r)"
    using assms unfolding own_files_def by (metis inj_onD)
  moreover have "handles_ok s" using assms(1) by (simp add: own_files_def)
  ultimately show ?thesis by (simp add: session_next(1) prime_high session_events_def)
qed

lemma session_log_gapless:
  assumes "inj_on session_file_name runs"
  shows "gapless_event_log jsonl_append jsonl_next_seq jsonl_list_for_run session_events session_ids (own_files runs) runs"
proof unfold_locales
  fix s e r a
  show "own_files runs s \<Longrightarrow> re_run_id e \<in> runs \<Longrightarrow> own_files runs (jsonl_append e s)"
    by (auto simp: own_files_def jsonl_append_def append_event_ok append_event_rows)
  show "own_files runs s \<Longrightarrow> own_files runs (snd (jsonl_next_seq r s))"
    by (simp add: own_files_def session_next)
  show "own_files runs s \<Longrightarrow> own_files runs (snd (jsonl_list_for_run r a s))"
    by (simp add: own_files_def session_list_keeps)
  show "own_files runs s \<Longrightarrow> r \<in> runs \<Longrightarrow> fst (jsonl_next_seq r s) = high_seq (session_events s r) + 1"
    using session_next_exact assms by blast
qed (auto simp: own_files_def session_log.next_keeps session_log.next_above session_log.next_again session_log.put_events
       session_log.listed session_log.list_keeps dest: session_log.put_ids [THEN subsetD])

section \<open>Emission on every backend\<close>

text \<open>A log keeps the journal of the emitted events: the answers are the journal's events, a listing is the
  journal of the run, numbered from one, and a listing after a number is what follows it.\<close>

definition journal_kept ::
  "(string \<Rightarrow> string) \<Rightarrow> (string \<Rightarrow> 's \<Rightarrow> int \<times> 's) \<Rightarrow> (RuntimeEvent \<Rightarrow> 's \<Rightarrow> 's) \<Rightarrow> (string \<Rightarrow> int option \<Rightarrow> 's \<Rightarrow> RuntimeEvent list \<times> 's)
     \<Rightarrow> (string \<times> string \<times> EventSpec) list \<Rightarrow> 's \<Rightarrow> bool" where
  "journal_kept sha1_hex next_seq put list_for_run steps s0 =
     (fst (emit_all sha1_hex next_seq put steps s0) = map Inr (fst (journal_all sha1_hex steps (\<lambda>_. [])))
      \<and> (\<forall>r. map re_seq (snd (journal_all sha1_hex steps (\<lambda>_. [])) r) = [1..int (length (snd (journal_all sha1_hex steps (\<lambda>_. [])) r))]
           \<and> fst (list_for_run r None (snd (emit_all sha1_hex next_seq put steps s0))) = snd (journal_all sha1_hex steps (\<lambda>_. [])) r
           \<and> (\<forall>k. fst (list_for_run r (Some k) (snd (emit_all sha1_hex next_seq put steps s0)))
                   = drop (nat k) (snd (journal_all sha1_hex steps (\<lambda>_. [])) r))))"

lemma gapless_journal_kept:
  assumes "gapless_event_log put next_seq list_for_run events ids ok runs" "ok s0" "events s0 = (\<lambda>_. [])" "ids s0 = {}"
    "distinct (map fst steps)" "\<forall>x \<in> set steps. es_run_id (snd (snd x)) \<in> runs"
  shows "journal_kept sha1_hex next_seq put list_for_run steps s0"
proof -
  have "\<forall>r. numbered (events s0 r)" by (simp add: assms(3) numbered_def)
  then show ?thesis
    using gapless_event_log.emits_implement_journal [OF assms(1,2,5), of sha1_hex] assms(3,4,6) numbered_after
    unfolding journal_kept_def numbered_def [symmetric] by (simp add: after_filter_def)
qed

text \<open>C11. The three event logs implement one journal, provided every event has a new identifier and the run identifiers
  have different session file names (otherwise the numbers of a run need not start at one: \<open>shared_session_file\<close>
  below). Whatever sequence of events a program emits, every emission succeeds,
  all backends hand out the same events, the events of a run are numbered from one without gaps in the order of
  emission, and a reader that continues after the number it has seen gets exactly the rest.\<close>

theorem event_logs_implement_journal:
  assumes "distinct (map fst steps)" "inj_on session_file_name ((\<lambda>x. es_run_id (snd (snd x))) ` set steps)"
  shows "journal_kept sha1_hex memory_next_seq memory_append memory_list_for_run steps empty_event_log
    \<and> journal_kept sha1_hex sqlite_next_seq sqlite_append sqlite_list_for_run steps []
    \<and> journal_kept sha1_hex jsonl_next_seq jsonl_append jsonl_list_for_run steps empty_jsonl"
proof (intro conjI)
  show "journal_kept sha1_hex memory_next_seq memory_append memory_list_for_run steps empty_event_log"
    by (rule gapless_journal_kept [OF memory_log.gapless_event_log_axioms _ _ _ assms(1)])
      (simp_all add: memory_log_ok_def empty_event_log_def memory_max_seq_def memory_run_events_def fun_eq_iff)
  show "journal_kept sha1_hex sqlite_next_seq sqlite_append sqlite_list_for_run steps []"
    by (rule gapless_journal_kept [OF sqlite_log.gapless_event_log_axioms _ _ _ assms(1)])
      (simp_all add: table_ok_def table_events_def fun_eq_iff)
  show "journal_kept sha1_hex jsonl_next_seq jsonl_append jsonl_list_for_run steps empty_jsonl"
    by (rule gapless_journal_kept [OF session_log_gapless [OF assms(2)] _ _ _ assms(1)])
      (simp_all add: own_files_def handles_ok_def session_events_def session_ids_def file_rows_def empty_jsonl_def fun_eq_iff)
qed

definition sample_spec :: "string \<Rightarrow> EventSpec" where
  "sample_spec run = \<lparr>es_run_id = run, es_attempt_id = ''attempt_1'', es_event_type = ''run_started'', es_payload = None,
     es_trace_id = None, es_severity = None, es_redaction = None\<rparr>"

theorem event_logs_implement_journal_witness:
  "map re_seq (fst (jsonl_list_for_run ''r1'' None (snd (emit_all (\<lambda>s. s) jsonl_next_seq jsonl_append
      [(''a'', ''t0'', sample_spec ''r1''), (''b'', ''t1'', sample_spec ''r2''), (''c'', ''t2'', sample_spec ''r1'')] empty_jsonl)))) = [1, 2]
   \<and> map re_event_id (fst (sqlite_list_for_run ''r1'' (Some 1) (snd (emit_all (\<lambda>s. s) sqlite_next_seq sqlite_append
      [(''a'', ''t0'', sample_spec ''r1''), (''b'', ''t1'', sample_spec ''r2''), (''c'', ''t2'', sample_spec ''r1'')] [])))) = [''evt_c'']"
proof -
  let ?steps = "[(''a'', ''t0'', sample_spec ''r1''), (''b'', ''t1'', sample_spec ''r2''), (''c'', ''t2'', sample_spec ''r1'')]"
  have "session_file_name ''r1'' \<noteq> session_file_name ''r2''" by code_simp
  then have "inj_on session_file_name ((\<lambda>x. es_run_id (snd (snd x))) ` set ?steps)" by (auto simp: sample_spec_def)
  moreover have "distinct (map fst ?steps)" by simp
  ultimately show ?thesis
    using event_logs_implement_journal [of ?steps "\<lambda>s. s"] by (simp add: journal_kept_def sample_spec_def Let_def)
qed

text \<open>Two runs whose names differ only in a replaced character share a session file, and the first event of the
  second run gets number two.\<close>

lemma shared_session_file:
  "map re_seq (fst (jsonl_list_for_run ''a_b'' None (snd (emit_all (\<lambda>s. s) jsonl_next_seq jsonl_append
     [(''x'', ''t0'', sample_spec ''a/b''), (''y'', ''t1'', sample_spec ''a_b'')] empty_jsonl)))) = [2]"
  by code_simp

text \<open>An event that is appended again is listed twice by the log in memory and once by the others.\<close>

lemma memory_append_again:
  "memory_run_events (memory_append e (memory_append e s)) (re_run_id e) = memory_run_events s (re_run_id e) @ [e, e]"
  by (simp add: memory_append_events)

lemma sqlite_append_again: "sqlite_append e (sqlite_append e t) = sqlite_append e t"
  by (simp add: sqlite_append_def)

lemma jsonl_append_again:
  assumes "handles_ok s" "re_event_id e \<noteq> []"
  shows "session_events (jsonl_append e (jsonl_append e s)) = session_events (jsonl_append e s)"
proof -
  let ?f = "session_file_name (re_run_id e)"
  have "re_event_id e \<in> jf_seen_event_ids (prime_seen_event_ids (file_rows (jsonl_append e s) ?f))"
    using assms by (auto simp: jsonl_append_def append_event_rows prime_snoc note_event_def)
  then have "file_rows (jsonl_append e (jsonl_append e s)) = file_rows (jsonl_append e s)"
    using append_event_rows [OF append_event_ok [OF assms(1)], of ?f e ?f e] assms(2)
    by (auto simp: fun_eq_iff jsonl_append_def append_event_rows append_event_ok assms(1))
  then show ?thesis by (simp add: session_events_def fun_eq_iff)
qed

text \<open>A new process that opens the directory lists the same events and continues the numbering.\<close>

lemma session_log_reopened:
  assumes "handles_ok s"
  shows "session_events (reopen s) = session_events s \<and> fst (jsonl_next_seq r (reopen s)) = fst (jsonl_next_seq r s)"
  using reopen_ok [of s] assms by (simp add: session_events_def session_next fun_eq_iff)

end
