(* ===== verification/Checkpoint_Store.thy ===== *)
theory Checkpoint_Store
  imports Runtime_Records
begin

text \<open>
  The checkpoint stores in memory (\<open>runtime/checkpoints.py\<close>), in SQLite (\<open>runtime/sqlite_store.py\<close>) and in session
  files (\<open>runtime/storage/jsonl_store.py\<close>): the checkpoints of a run form a chain with consecutive revisions, the
  newest is the latest, and every saved checkpoint can be loaded. A payload column holds the state it encodes.
\<close>

section \<open>In memory\<close>

record InMemoryCheckpointStore =
  mc_by_run :: "string \<rightharpoonup> CheckpointRecord list"
  mc_by_id :: "string \<rightharpoonup> CheckpointRecord"

definition empty_checkpoints :: InMemoryCheckpointStore where
  "empty_checkpoints = \<lparr>mc_by_run = Map.empty, mc_by_id = Map.empty\<rparr>"

definition memory_rows :: "InMemoryCheckpointStore \<Rightarrow> string \<Rightarrow> CheckpointRecord list" where
  "memory_rows s run = (case mc_by_run s run of Some rows \<Rightarrow> rows | None \<Rightarrow> [])"

text \<open>\<open>rows[-1]\<close> where there is one, and \<open>rows[:limit]\<close>.\<close>

definition last_row :: "'a list \<Rightarrow> 'a option" where
  "last_row rows = (if rows = [] then None else Some (last rows))"

definition py_prefix :: "int \<Rightarrow> 'a list \<Rightarrow> 'a list" where
  "py_prefix n xs = (if n \<ge> 0 then take (nat n) xs else take (nat (int (length xs) + n)) xs)"

definition limited :: "int option \<Rightarrow> 'a list \<Rightarrow> 'a list" where
  "limited limit rows = (case limit of None \<Rightarrow> rows | Some n \<Rightarrow> py_prefix n rows)"

definition memory_latest :: "string \<Rightarrow> InMemoryCheckpointStore \<Rightarrow> CheckpointRecord option \<times> InMemoryCheckpointStore" where
  "memory_latest run s = (last_row (memory_rows s run), s)"

definition memory_load :: "string \<Rightarrow> InMemoryCheckpointStore \<Rightarrow> CheckpointRecord option \<times> InMemoryCheckpointStore" where
  "memory_load cid s = (mc_by_id s cid, s)"

definition memory_list_checkpoints ::
  "string \<Rightarrow> int option \<Rightarrow> InMemoryCheckpointStore \<Rightarrow> CheckpointRecord list \<times> InMemoryCheckpointStore" where
  "memory_list_checkpoints run limit s = (limited limit (rev (memory_rows s run)), s)"

definition stamped :: "CheckpointRef \<Rightarrow> RuntimeState \<Rightarrow> CheckpointRecord" where
  "stamped ref st = \<lparr>ck_ref = ref, ck_state = st\<lparr>rt_checkpoint := Some ref\<rparr>\<rparr>"

definition memory_save ::
  "string \<Rightarrow> string \<Rightarrow> string \<Rightarrow> string option \<Rightarrow> RuntimeState \<Rightarrow> InMemoryCheckpointStore
     \<Rightarrow> (string + CheckpointRef) \<times> InMemoryCheckpointStore" where
  "memory_save hex now graph node st s =
     (let (seed, previous) = prepare_seed_and_previous (\<lambda>run. fst (memory_latest run s)) graph node ''memory'' st;
          ref = build_checkpoint_ref hex now seed previous;
          row = stamped ref st
      in (Inr ref, s\<lparr>mc_by_run := (mc_by_run s)(sd_run_id seed \<mapsto> memory_rows s (sd_run_id seed) @ [row]),
                     mc_by_id := (mc_by_id s)(cr_checkpoint_id ref \<mapsto> row)\<rparr>))"

section \<open>In SQLite\<close>

record checkpoint_row =
  cp_checkpoint_id :: string
  cp_run_id :: string
  cp_payload :: RuntimeState

type_synonym checkpoints_table = "checkpoint_row list"

text \<open>\<open>ORDER BY json_extract(payload, '$.checkpoint.created_at') DESC\<close>: text order, equal keys in the order of the
  rows.\<close>

definition created_key :: "checkpoint_row \<Rightarrow> string" where
  "created_key row = (case rt_checkpoint (cp_payload row) of Some ref \<Rightarrow> cr_created_at ref | None \<Rightarrow> [])"

definition newest_first :: "checkpoint_row list \<Rightarrow> checkpoint_row list" where
  "newest_first rows = rev (sort_key created_key (rev rows))"

definition run_rows :: "checkpoints_table \<Rightarrow> string \<Rightarrow> checkpoint_row list" where
  "run_rows t run = filter (\<lambda>row. cp_run_id row = run) t"

definition sqlite_latest :: "string \<Rightarrow> checkpoints_table \<Rightarrow> CheckpointRecord option \<times> checkpoints_table" where
  "sqlite_latest run t =
     ((case newest_first (run_rows t run) of [] \<Rightarrow> None | row # _ \<Rightarrow> checkpoint_record_from_state (cp_payload row)), t)"

definition sqlite_load :: "string \<Rightarrow> checkpoints_table \<Rightarrow> CheckpointRecord option \<times> checkpoints_table" where
  "sqlite_load cid t =
     ((case filter (\<lambda>row. cp_checkpoint_id row = cid) t of [] \<Rightarrow> None | row # _ \<Rightarrow> checkpoint_record_from_state (cp_payload row)), t)"

definition sqlite_list_checkpoints ::
  "string \<Rightarrow> int option \<Rightarrow> checkpoints_table \<Rightarrow> CheckpointRecord list \<times> checkpoints_table" where
  "sqlite_list_checkpoints run limit t =
     (let rows = newest_first (run_rows t run);
          rows' = (case limit of None \<Rightarrow> rows | Some n \<Rightarrow> if n < 0 then rows else take (nat n) rows)
      in (List.map_filter (\<lambda>row. checkpoint_record_from_state (cp_payload row)) rows', t))"

definition sqlite_save ::
  "string \<Rightarrow> string \<Rightarrow> string \<Rightarrow> string option \<Rightarrow> RuntimeState \<Rightarrow> checkpoints_table
     \<Rightarrow> (string + CheckpointRef) \<times> checkpoints_table" where
  "sqlite_save hex now graph node st t =
     (let (seed, previous) = prepare_seed_and_previous (\<lambda>run. fst (sqlite_latest run t)) graph node ''sqlite'' st;
          ref = build_checkpoint_ref hex now seed previous
      in case checkpoint_record_from_state (st\<lparr>rt_checkpoint := Some ref\<rparr>) of
           None \<Rightarrow> (Inl ''Checkpoint payload missing checkpoint reference'', t)
         | Some row \<Rightarrow>
             (Inr ref, filter (\<lambda>x. cp_checkpoint_id x \<noteq> cr_checkpoint_id ref) t
                @ [\<lparr>cp_checkpoint_id = cr_checkpoint_id ref, cp_run_id = cr_run_id ref, cp_payload = ck_state row\<rparr>]))"

section \<open>In session files\<close>

fun checkpoint_rows :: "jsonl_row list \<Rightarrow> CheckpointRecord list" where
  "checkpoint_rows [] = []"
| "checkpoint_rows (Checkpoint_Row r # rows) = r # checkpoint_rows rows"
| "checkpoint_rows (_ # rows) = checkpoint_rows rows"

definition run_checkpoints :: "string \<Rightarrow> jsonl_row list \<Rightarrow> CheckpointRecord list" where
  "run_checkpoints run rows = filter (\<lambda>r. cr_run_id (ck_ref r) = run) (checkpoint_rows rows)"

definition jsonl_list_checkpoints :: "string \<Rightarrow> int option \<Rightarrow> jsonl_store \<Rightarrow> CheckpointRecord list \<times> jsonl_store" where
  "jsonl_list_checkpoints run limit s =
     (let (h, s1) = session_handle (session_file_name run) s
      in (limited limit (rev (run_checkpoints run (file_rows s1 (session_file_name run)))), s1))"

definition jsonl_latest :: "string \<Rightarrow> jsonl_store \<Rightarrow> CheckpointRecord option \<times> jsonl_store" where
  "jsonl_latest run s =
     (let (records, s1) = jsonl_list_checkpoints run (Some 1) s
      in (case records of [] \<Rightarrow> None | r # _ \<Rightarrow> Some r, s1))"

text \<open>The scan over the files of the directory in sorted order.\<close>

fun load_scan :: "string \<Rightarrow> string list \<Rightarrow> jsonl_store \<Rightarrow> CheckpointRecord option \<times> jsonl_store" where
  "load_scan cid [] s = (None, s)"
| "load_scan cid (f # fs) s =
     (let (h, s1) = session_handle f s
      in case List.find (\<lambda>r. cr_checkpoint_id (ck_ref r) = cid) (checkpoint_rows (file_rows s1 f)) of
           Some r \<Rightarrow> (Some r, s1)
         | None \<Rightarrow> load_scan cid fs s1)"

definition jsonl_load :: "string \<Rightarrow> jsonl_store \<Rightarrow> CheckpointRecord option \<times> jsonl_store" where
  "jsonl_load cid s = load_scan cid (sorted_list_of_set (dom (jl_files s))) s"

definition jsonl_save ::
  "string \<Rightarrow> string \<Rightarrow> string \<Rightarrow> string option \<Rightarrow> RuntimeState \<Rightarrow> jsonl_store \<Rightarrow> (string + CheckpointRef) \<times> jsonl_store" where
  "jsonl_save hex now graph node st s =
     (let run = state_run_id st;
          (previous, s1) = jsonl_latest run s;
          ref = build_checkpoint_ref hex now (seed_from_runtime_state graph node ''jsonl'' run st) previous
      in (Inr ref, append_checkpoint (session_file_name run) (stamped ref st) s1))"

section \<open>What a checkpoint store promises\<close>

text \<open>The reference that a save makes after a chain, and the chain that results.\<close>

definition next_ref :: "string \<Rightarrow> string \<Rightarrow> string \<Rightarrow> string \<Rightarrow> string option \<Rightarrow> RuntimeState \<Rightarrow> CheckpointRecord list \<Rightarrow> CheckpointRef" where
  "next_ref backend hex now graph node st rows =
     build_checkpoint_ref hex now (seed_from_runtime_state graph node backend (state_run_id st) st) (last_row rows)"

lemma next_ref_fields [simp]:
  "cr_checkpoint_id (next_ref backend hex now graph node st rows) = ''chk_'' @ hex"
  "cr_run_id (next_ref backend hex now graph node st rows) = state_run_id st"
  "cr_created_at (next_ref backend hex now graph node st rows) = now"
  by (simp_all add: next_ref_def build_checkpoint_ref_def seed_from_runtime_state_def)

lemma stamped_fields [simp]: "ck_ref (stamped ref st) = ref" "ck_state (stamped ref st) = st\<lparr>rt_checkpoint := Some ref\<rparr>"
  by (simp_all add: stamped_def)

text \<open>
  \<open>chain\<close> is the chain of every run, oldest first; \<open>ready\<close> says that a clock reading may be used. A save under a
  fresh identifier adds its record to the chain of its run, reads answer from the chain.
\<close>

locale checkpoint_store =
  fixes save :: "string \<Rightarrow> string \<Rightarrow> string \<Rightarrow> string option \<Rightarrow> RuntimeState \<Rightarrow> 's \<Rightarrow> (string + CheckpointRef) \<times> 's"
    and latest :: "string \<Rightarrow> 's \<Rightarrow> CheckpointRecord option \<times> 's"
    and load :: "string \<Rightarrow> 's \<Rightarrow> CheckpointRecord option \<times> 's"
    and list_checkpoints :: "string \<Rightarrow> int option \<Rightarrow> 's \<Rightarrow> CheckpointRecord list \<times> 's"
    and chain :: "'s \<Rightarrow> string \<Rightarrow> CheckpointRecord list"
    and inv :: "'s \<Rightarrow> bool"
    and ready :: "string \<Rightarrow> 's \<Rightarrow> bool"
    and runs :: "string set"
    and backend :: string
  assumes save_inv: "inv s \<Longrightarrow> state_run_id st \<in> runs \<Longrightarrow> ready now s \<Longrightarrow> (\<And>r rec. rec \<in> set (chain s r) \<Longrightarrow> cr_checkpoint_id (ck_ref rec) \<noteq> ''chk_'' @ hex) \<Longrightarrow>
      inv (snd (save hex now graph node st s))"
    and save_result: "inv s \<Longrightarrow> fst (save hex now graph node st s) = Inr (next_ref backend hex now graph node st (chain s (state_run_id st)))"
    and save_chain: "inv s \<Longrightarrow> (\<And>r rec. rec \<in> set (chain s r) \<Longrightarrow> cr_checkpoint_id (ck_ref rec) \<noteq> ''chk_'' @ hex) \<Longrightarrow>
      chain (snd (save hex now graph node st s)) =
        (chain s)(state_run_id st := chain s (state_run_id st) @ [stamped (next_ref backend hex now graph node st (chain s (state_run_id st))) st])"
    and save_ready: "inv s \<Longrightarrow> ready now' s \<Longrightarrow> now < now' \<Longrightarrow> ready now' (snd (save hex now graph node st s))"
    and latest_result: "inv s \<Longrightarrow> fst (latest r s) = last_row (chain s r)"
    and list_result: "inv s \<Longrightarrow> fst (list_checkpoints r None s) = rev (chain s r)"
    and load_result: "inv s \<Longrightarrow> rec \<in> set (chain s r) \<Longrightarrow> fst (load (cr_checkpoint_id (ck_ref rec)) s) = Some rec"
    and load_known: "inv s \<Longrightarrow> fst (load cid s) = Some rec \<Longrightarrow> cr_checkpoint_id (ck_ref rec) = cid \<and> rec \<in> set (chain s (cr_run_id (ck_ref rec)))"

subsection \<open>In memory\<close>

definition memory_chain_ok :: "InMemoryCheckpointStore \<Rightarrow> bool" where
  "memory_chain_ok s =
     ((\<forall>r. \<forall>rec \<in> set (memory_rows s r). mc_by_id s (cr_checkpoint_id (ck_ref rec)) = Some rec)
      \<and> (\<forall>cid rec. mc_by_id s cid = Some rec \<longrightarrow> cr_checkpoint_id (ck_ref rec) = cid \<and> rec \<in> set (memory_rows s (cr_run_id (ck_ref rec)))))"

lemma memory_save_eq:
  "memory_save hex now graph node st s =
     (let ref = next_ref ''memory'' hex now graph node st (memory_rows s (state_run_id st))
      in (Inr ref, s\<lparr>mc_by_run := (mc_by_run s)(state_run_id st \<mapsto> memory_rows s (state_run_id st) @ [stamped ref st]),
                     mc_by_id := (mc_by_id s)(''chk_'' @ hex \<mapsto> stamped ref st)\<rparr>))"
  using next_ref_fields(1) [of "''memory''" hex now graph node st "memory_rows s (state_run_id st)"]
  by (simp add: memory_save_def prepare_seed_and_previous_def memory_latest_def next_ref_def seed_from_runtime_state_def Let_def)

lemma memory_save_rows:
  "memory_rows (snd (memory_save hex now graph node st s)) =
     (memory_rows s)(state_run_id st := memory_rows s (state_run_id st) @ [stamped (next_ref ''memory'' hex now graph node st (memory_rows s (state_run_id st))) st])"
  by (auto simp: memory_save_eq Let_def memory_rows_def fun_eq_iff)

interpretation memory_checkpoints: checkpoint_store memory_save memory_latest memory_load memory_list_checkpoints memory_rows
  memory_chain_ok "\<lambda>_ _. True" UNIV "''memory''"
proof unfold_locales
  fix s hex now graph node st r cid rec
  show "memory_chain_ok s \<Longrightarrow> rec \<in> set (memory_rows s r) \<Longrightarrow> fst (memory_load (cr_checkpoint_id (ck_ref rec)) s) = Some rec"
    by (auto simp: memory_chain_ok_def memory_load_def)
  show "memory_chain_ok s \<Longrightarrow> fst (memory_load cid s) = Some rec \<Longrightarrow> cr_checkpoint_id (ck_ref rec) = cid \<and> rec \<in> set (memory_rows s (cr_run_id (ck_ref rec)))"
    by (auto simp: memory_chain_ok_def memory_load_def)
  assume ok: "memory_chain_ok s" and fresh: "\<And>r rec. rec \<in> set (memory_rows s r) \<Longrightarrow> cr_checkpoint_id (ck_ref rec) \<noteq> ''chk_'' @ hex"
  have ids: "mc_by_id (snd (memory_save hex now graph node st s)) =
      (mc_by_id s)(''chk_'' @ hex \<mapsto> stamped (next_ref ''memory'' hex now graph node st (memory_rows s (state_run_id st))) st)"
    by (simp add: memory_save_eq Let_def)
  show "memory_chain_ok (snd (memory_save hex now graph node st s))"
    using ok fresh unfolding memory_chain_ok_def ids memory_save_rows by (auto, metis)
qed (simp_all add: memory_save_rows memory_latest_def memory_list_checkpoints_def limited_def, simp add: memory_save_eq Let_def)

subsection \<open>In SQLite\<close>

definition table_chain :: "checkpoints_table \<Rightarrow> string \<Rightarrow> CheckpointRecord list" where
  "table_chain t r = List.map_filter (\<lambda>row. checkpoint_record_from_state (cp_payload row)) (run_rows t r)"

definition payload_row_ok :: "checkpoint_row \<Rightarrow> bool" where
  "payload_row_ok row = (case rt_checkpoint (cp_payload row) of
     Some ref \<Rightarrow> cr_checkpoint_id ref = cp_checkpoint_id row \<and> cr_run_id ref = cp_run_id row | None \<Rightarrow> False)"

definition table_chain_ok :: "checkpoints_table \<Rightarrow> bool" where
  "table_chain_ok t = (list_all payload_row_ok t \<and> distinct (map cp_checkpoint_id t)
     \<and> (\<forall>r. sorted_wrt (<) (map created_key (run_rows t r))))"

definition clock_ready :: "string \<Rightarrow> checkpoints_table \<Rightarrow> bool" where
  "clock_ready now t = list_all (\<lambda>row. created_key row < now) t"

lemma insort_key_greatest: "\<forall>y \<in> set xs. f y < f x \<Longrightarrow> insort_key f x xs = xs @ [x]"
  by (induction xs) auto

lemma sort_key_rev_sorted: "sorted_wrt (<) (map f xs) \<Longrightarrow> sort_key f (rev xs) = xs"
  by (induction xs rule: rev_induct) (auto simp: sorted_wrt_append insort_key_greatest)

lemma newest_first_sorted: "table_chain_ok t \<Longrightarrow> newest_first (run_rows t r) = rev (run_rows t r)"
  by (simp add: newest_first_def table_chain_ok_def sort_key_rev_sorted)

lemma row_record: "payload_row_ok row \<Longrightarrow> \<exists>rec. checkpoint_record_from_state (cp_payload row) = Some rec
    \<and> cr_checkpoint_id (ck_ref rec) = cp_checkpoint_id row \<and> cr_run_id (ck_ref rec) = cp_run_id row"
  by (auto simp: payload_row_ok_def checkpoint_record_from_state_def split: option.splits)

lemma map_filter_rev: "List.map_filter f (rev xs) = rev (List.map_filter f xs)"
  by (simp add: List.map_filter_def rev_map rev_filter)

lemma last_map_filter: "list_all (\<lambda>x. f x \<noteq> None) xs \<Longrightarrow> last_row (List.map_filter f xs) = (if xs = [] then None else f (last xs))"
  by (cases xs rule: rev_cases) (auto simp: last_row_def map_filter_append map_filter_Cons)

lemma run_rows_known: "table_chain_ok t \<Longrightarrow> list_all (\<lambda>row. checkpoint_record_from_state (cp_payload row) \<noteq> None) (run_rows t r)"
  using row_record by (fastforce simp: table_chain_ok_def run_rows_def list_all_iff)

lemma sqlite_latest_chain: "table_chain_ok t \<Longrightarrow> fst (sqlite_latest r t) = last_row (table_chain t r)"
  using last_map_filter [OF run_rows_known [of t r]] newest_first_sorted [of t r]
  by (cases "run_rows t r" rule: rev_cases) (simp_all add: sqlite_latest_def table_chain_def)

lemma sqlite_save_eq:
  assumes "table_chain_ok t"
  shows "sqlite_save hex now graph node st t =
    (let ref = next_ref ''sqlite'' hex now graph node st (table_chain t (state_run_id st))
     in (Inr ref, filter (\<lambda>x. cp_checkpoint_id x \<noteq> ''chk_'' @ hex) t
           @ [\<lparr>cp_checkpoint_id = ''chk_'' @ hex, cp_run_id = state_run_id st, cp_payload = st\<lparr>rt_checkpoint := Some ref\<rparr>\<rparr>]))"
proof -
  have "build_checkpoint_ref hex now (seed_from_runtime_state graph node ''sqlite'' (state_run_id st) st) (fst (sqlite_latest (state_run_id st) t))
      = next_ref ''sqlite'' hex now graph node st (table_chain t (state_run_id st))"
    by (simp add: sqlite_latest_chain [OF assms] next_ref_def)
  then show ?thesis by (simp add: sqlite_save_def prepare_seed_and_previous_def checkpoint_record_from_state_def Let_def)
qed

lemma in_table_chain:
  assumes "table_chain_ok t"
  shows "rec \<in> set (table_chain t r) \<longleftrightarrow> (\<exists>row \<in> set t. cp_run_id row = r \<and> checkpoint_record_from_state (cp_payload row) = Some rec)"
  by (force simp: table_chain_def run_rows_def List.map_filter_def)

lemma fresh_rows:
  assumes "table_chain_ok t" "\<And>r rec. rec \<in> set (table_chain t r) \<Longrightarrow> cr_checkpoint_id (ck_ref rec) \<noteq> cid"
  shows "filter (\<lambda>x. cp_checkpoint_id x \<noteq> cid) t = t"
  using assms row_record unfolding filter_id_conv in_table_chain [OF assms(1)] by (metis list_all_iff table_chain_ok_def)

lemma filter_key_single: "distinct (map f xs) \<Longrightarrow> x \<in> set xs \<Longrightarrow> filter (\<lambda>y. f y = f x) xs = [x]"
  by (induction xs) (auto simp: filter_empty_conv rev_image_eqI)

lemma sqlite_load_row:
  assumes "table_chain_ok t" "row \<in> set t"
  shows "fst (sqlite_load (cp_checkpoint_id row) t) = checkpoint_record_from_state (cp_payload row)"
  using filter_key_single [of cp_checkpoint_id t row] assms by (simp add: sqlite_load_def table_chain_ok_def)

interpretation sqlite_checkpoints: checkpoint_store sqlite_save sqlite_latest sqlite_load sqlite_list_checkpoints table_chain
  table_chain_ok clock_ready UNIV "''sqlite''"
proof unfold_locales
  fix t :: checkpoints_table and hex now now' graph node st r cid rec
  assume ok: "table_chain_ok t"
  let ?ref = "next_ref ''sqlite'' hex now graph node st (table_chain t (state_run_id st))"
  let ?row = "\<lparr>cp_checkpoint_id = ''chk_'' @ hex, cp_run_id = state_run_id st, cp_payload = st\<lparr>rt_checkpoint := Some ?ref\<rparr>\<rparr>"
  show "fst (sqlite_save hex now graph node st t) = Inr ?ref" by (simp add: sqlite_save_eq [OF ok] Let_def)
  show "fst (sqlite_latest r t) = last_row (table_chain t r)" using ok by (rule sqlite_latest_chain)
  show "fst (sqlite_list_checkpoints r None t) = rev (table_chain t r)"
    by (simp add: sqlite_list_checkpoints_def newest_first_sorted [OF ok] table_chain_def map_filter_rev)
  show "clock_ready now' t \<Longrightarrow> now < now' \<Longrightarrow> clock_ready now' (snd (sqlite_save hex now graph node st t))"
    by (auto simp: sqlite_save_eq [OF ok] Let_def clock_ready_def list_all_iff created_key_def)
  show "fst (sqlite_load (cr_checkpoint_id (ck_ref rec)) t) = Some rec" if "rec \<in> set (table_chain t r)"
    using that sqlite_load_row [OF ok] row_record ok unfolding in_table_chain [OF ok] table_chain_ok_def list_all_iff by fastforce
  show "cr_checkpoint_id (ck_ref rec) = cid \<and> rec \<in> set (table_chain t (cr_run_id (ck_ref rec)))" if known: "fst (sqlite_load cid t) = Some rec"
  proof -
    obtain row where "row \<in> set t" "cp_checkpoint_id row = cid" "checkpoint_record_from_state (cp_payload row) = Some rec"
      using known by (cases "filter (\<lambda>row. cp_checkpoint_id row = cid) t") (auto simp: sqlite_load_def filter_eq_Cons_iff, blast)
    then show ?thesis using ok row_record [of row] by (auto simp: in_table_chain [OF ok] table_chain_ok_def list_all_iff)
  qed
  assume "\<And>r rec. rec \<in> set (table_chain t r) \<Longrightarrow> cr_checkpoint_id (ck_ref rec) \<noteq> ''chk_'' @ hex"
  then have t: "snd (sqlite_save hex now graph node st t) = t @ [?row]" and new: "''chk_'' @ hex \<notin> set (map cp_checkpoint_id t)"
    using fresh_rows [OF ok, of "''chk_'' @ hex"] by (auto simp: sqlite_save_eq [OF ok] Let_def filter_id_conv)
  show "table_chain (snd (sqlite_save hex now graph node st t)) = (table_chain t)(state_run_id st := table_chain t (state_run_id st) @ [stamped ?ref st])"
    by (auto simp: t table_chain_def run_rows_def fun_eq_iff map_filter_append map_filter_Cons checkpoint_record_from_state_def stamped_def)
  show "clock_ready now t \<Longrightarrow> table_chain_ok (snd (sqlite_save hex now graph node st t))"
    using ok new by (auto simp: t table_chain_ok_def payload_row_ok_def run_rows_def sorted_wrt_append clock_ready_def created_key_def list_all_iff)
qed

subsection \<open>In session files\<close>

definition session_chain :: "jsonl_store \<Rightarrow> string \<Rightarrow> CheckpointRecord list" where
  "session_chain s r = run_checkpoints r (file_rows s (session_file_name r))"

definition filed :: "jsonl_store \<Rightarrow> bool" where
  "filed s = (handles_ok s \<and> finite (dom (jl_files s))
     \<and> (\<forall>f. \<forall>rec \<in> set (checkpoint_rows (file_rows s f)). f = session_file_name (cr_run_id (ck_ref rec)))
     \<and> (\<forall>f g. \<forall>rec \<in> set (checkpoint_rows (file_rows s f)). \<forall>rec' \<in> set (checkpoint_rows (file_rows s g)).
          cr_checkpoint_id (ck_ref rec) = cr_checkpoint_id (ck_ref rec') \<longrightarrow> rec = rec'))"

lemma checkpoint_rows_append: "checkpoint_rows (xs @ ys) = checkpoint_rows xs @ checkpoint_rows ys"
  by (induction xs rule: checkpoint_rows.induct) auto

lemma in_session_chain:
  assumes "filed s"
  shows "rec \<in> set (checkpoint_rows (file_rows s f)) \<longleftrightarrow> f = session_file_name (cr_run_id (ck_ref rec)) \<and> rec \<in> set (session_chain s (cr_run_id (ck_ref rec)))"
  using assms by (auto simp: session_chain_def run_checkpoints_def filed_def)

lemma session_latest: "fst (jsonl_latest r s) = last_row (session_chain s r)"
  by (cases "session_chain s r" rule: rev_cases)
    (simp_all add: jsonl_latest_def jsonl_list_checkpoints_def split_beta limited_def py_prefix_def session_chain_def last_row_def)

lemma session_latest_keeps:
  "file_rows (snd (jsonl_latest r s)) = file_rows s" "jl_files (snd (jsonl_latest r s)) = jl_files s"
  "handles_ok s \<Longrightarrow> handles_ok (snd (jsonl_latest r s))"
  by (simp_all add: jsonl_latest_def jsonl_list_checkpoints_def split_beta Let_def session_handle_ok)

lemma find_append: "List.find P (xs @ ys) = (case List.find P xs of Some x \<Rightarrow> Some x | None \<Rightarrow> List.find P ys)"
  by (induction xs) auto

lemma load_scan_result:
  "fst (load_scan cid fs s) =
     List.find (\<lambda>r. cr_checkpoint_id (ck_ref r) = cid) (concat (map (\<lambda>f. checkpoint_rows (file_rows s f)) fs))"
  by (induction fs arbitrary: s) (auto simp: split_beta find_append split: option.split)

lemma session_rows_all: "finite (dom (jl_files s)) \<Longrightarrow> rec \<in> set (checkpoint_rows (file_rows s f)) \<Longrightarrow> f \<in> set (sorted_list_of_set (dom (jl_files s)))"
  by (auto simp: file_rows_def split: option.splits)

lemma in_all_files:
  assumes "filed s"
  shows "rec \<in> set (concat (map (\<lambda>f. checkpoint_rows (file_rows s f)) (sorted_list_of_set (dom (jl_files s))))) \<longleftrightarrow>
    rec \<in> set (session_chain s (cr_run_id (ck_ref rec)))"
proof -
  have "finite (dom (jl_files s))" using assms by (simp add: filed_def)
  then have "rec \<in> set (concat (map (\<lambda>f. checkpoint_rows (file_rows s f)) (sorted_list_of_set (dom (jl_files s))))) \<longleftrightarrow>
      (\<exists>f. rec \<in> set (checkpoint_rows (file_rows s f)))"
    using session_rows_all [of s rec] by (auto, blast)
  then show ?thesis by (simp add: in_session_chain [OF assms])
qed

lemma session_load_known:
  assumes "filed s" "fst (jsonl_load cid s) = Some rec"
  shows "cr_checkpoint_id (ck_ref rec) = cid \<and> rec \<in> set (session_chain s (cr_run_id (ck_ref rec)))"
  using assms(2) in_all_files [OF assms(1), of rec] unfolding jsonl_load_def load_scan_result find_Some_iff by (metis nth_mem)

lemma session_load_result:
  assumes "filed s" "rec \<in> set (session_chain s r)"
  shows "fst (jsonl_load (cr_checkpoint_id (ck_ref rec)) s) = Some rec"
proof -
  let ?all = "concat (map (\<lambda>f. checkpoint_rows (file_rows s f)) (sorted_list_of_set (dom (jl_files s))))"
  have r: "cr_run_id (ck_ref rec) = r" using assms(2) by (simp add: session_chain_def run_checkpoints_def)
  then have "rec \<in> set ?all" using in_all_files [OF assms(1), of rec] assms(2) by simp
  then obtain x where x: "fst (jsonl_load (cr_checkpoint_id (ck_ref rec)) s) = Some x"
    using find_None_iff [of "\<lambda>r. cr_checkpoint_id (ck_ref r) = cr_checkpoint_id (ck_ref rec)" ?all]
    unfolding jsonl_load_def load_scan_result by (metis (no_types, lifting) not_Some_eq)
  then have "x \<in> set (session_chain s (cr_run_id (ck_ref x)))" "cr_checkpoint_id (ck_ref x) = cr_checkpoint_id (ck_ref rec)"
    using session_load_known [OF assms(1)] by auto
  then have "x = rec" using assms r in_session_chain [OF assms(1), of x] in_session_chain [OF assms(1), of rec]
    unfolding filed_def by blast
  with x show ?thesis by simp
qed

lemma session_save_rows:
  "fst (jsonl_save hex now graph node st s) = Inr (next_ref ''jsonl'' hex now graph node st (session_chain s (state_run_id st)))"
  "file_rows (snd (jsonl_save hex now graph node st s)) f = file_rows s f @
     (if f = session_file_name (state_run_id st) then [Checkpoint_Row (stamped (next_ref ''jsonl'' hex now graph node st (session_chain s (state_run_id st))) st)] else [])"
  "handles_ok s \<Longrightarrow> handles_ok (snd (jsonl_save hex now graph node st s))"
  "dom (jl_files (snd (jsonl_save hex now graph node st s))) = insert (session_file_name (state_run_id st)) (dom (jl_files s))"
  by (auto simp: jsonl_save_def Let_def split_beta session_latest session_latest_keeps append_checkpoint_rows append_checkpoint_ok next_ref_def)
    (auto simp: append_checkpoint_def split_beta write_row_def session_latest_keeps)

lemma session_save_chain:
  "session_chain (snd (jsonl_save hex now graph node st s)) = (session_chain s)(state_run_id st :=
     session_chain s (state_run_id st) @ [stamped (next_ref ''jsonl'' hex now graph node st (session_chain s (state_run_id st))) st])"
  by (auto simp: fun_eq_iff session_chain_def run_checkpoints_def session_save_rows checkpoint_rows_append)

lemma session_save_filed:
  assumes "filed s" "\<And>r rec. rec \<in> set (session_chain s r) \<Longrightarrow> cr_checkpoint_id (ck_ref rec) \<noteq> ''chk_'' @ hex"
  shows "filed (snd (jsonl_save hex now graph node st s))"
proof -
  have "cr_checkpoint_id (ck_ref rec) \<noteq> ''chk_'' @ hex" if "rec \<in> set (checkpoint_rows (file_rows s f))" for rec f
    using assms(2) in_session_chain [OF assms(1)] that by blast
  then show ?thesis using assms(1) unfolding filed_def
    by (auto simp: session_save_rows checkpoint_rows_append split: if_splits; metis)
qed

interpretation session_checkpoints: checkpoint_store jsonl_save jsonl_latest jsonl_load jsonl_list_checkpoints session_chain
  filed "\<lambda>_ _. True" UNIV "''jsonl''"
  by unfold_locales
    (simp_all add: session_save_rows session_save_chain session_latest session_load_result session_load_known session_save_filed,
     simp add: jsonl_list_checkpoints_def split_beta limited_def session_chain_def)

end
