(* ===== verification/Run_Journal.thy ===== *)
theory Run_Journal
  imports Event_Log Checkpoint_Store
begin

text \<open>
  The journal of a run (\<open>runtime/single_agent/lifecycle/journal.py\<close>): events and checkpoints of one run over a
  store that keeps both. A bundle pairs an event log with a checkpoint store (\<open>runtime/storage/factory.py\<close>); session
  files keep both in one file. Checkpoints carry consecutive revisions, are linked by their parents, hold the events
  emitted before them, and are announced by the next event.
\<close>

section \<open>The operations\<close>

record JournalContext =
  cx_run_input :: AgentRunInput
  cx_run_id :: string
  cx_attempt_id :: string
  cx_metadata :: pydict
  cx_prior_checkpoint :: "CheckpointRef option"

definition saved_spec :: "JournalContext \<Rightarrow> CheckpointRef \<Rightarrow> EventSpec" where
  "saved_spec ctx ref = \<lparr>es_run_id = cx_run_id ctx, es_attempt_id = cx_attempt_id ctx, es_event_type = ''checkpoint_saved'',
     es_payload = Some [(''checkpoint_id'', PStr (cr_checkpoint_id ref))], es_trace_id = None, es_severity = None, es_redaction = None\<rparr>"

text \<open>What the runner uses of its stores.\<close>

record 's run_stores =
  st_append :: "RuntimeEvent \<Rightarrow> 's \<Rightarrow> 's"
  st_next_seq :: "string \<Rightarrow> 's \<Rightarrow> int \<times> 's"
  st_list_for_run :: "string \<Rightarrow> int option \<Rightarrow> 's \<Rightarrow> RuntimeEvent list \<times> 's"
  st_save :: "string \<Rightarrow> string \<Rightarrow> string \<Rightarrow> string option \<Rightarrow> RuntimeState \<Rightarrow> 's \<Rightarrow> (string + CheckpointRef) \<times> 's"
  st_latest :: "string \<Rightarrow> 's \<Rightarrow> CheckpointRecord option \<times> 's"
  st_load :: "string \<Rightarrow> 's \<Rightarrow> CheckpointRecord option \<times> 's"
  st_list_checkpoints :: "string \<Rightarrow> int option \<Rightarrow> 's \<Rightarrow> CheckpointRecord list \<times> 's"

definition run_emit ::
  "(string \<Rightarrow> string) \<Rightarrow> 's run_stores \<Rightarrow> string \<Rightarrow> string \<Rightarrow> EventSpec \<Rightarrow> 's \<Rightarrow> (string + RuntimeEvent) \<times> 's" where
  "run_emit sha1_hex ops hex now spec s = emit sha1_hex (st_next_seq ops) (st_append ops) hex now spec s"

text \<open>\<open>hex\<close> and \<open>now\<close> are the draws for the checkpoint, \<open>hex'\<close> and \<open>now'\<close> those for its event.\<close>

definition save_checkpoint ::
  "(string \<Rightarrow> string) \<Rightarrow> 's run_stores \<Rightarrow> string \<Rightarrow> string \<times> string \<Rightarrow> string \<times> string \<Rightarrow> AgentRunOutput option \<Rightarrow> string
     \<Rightarrow> JournalContext \<Rightarrow> 's \<Rightarrow> (string + CheckpointRef) \<times> JournalContext \<times> 's" where
  "save_checkpoint sha1_hex ops graph draw draw' out node ctx s =
     (let (es, s1) = st_list_for_run ops (cx_run_id ctx) None s;
          st = \<lparr>rt_run_input = cx_run_input ctx, rt_latest_output = out, rt_events = es,
                rt_checkpoint = cx_prior_checkpoint ctx, rt_metadata = cx_metadata ctx\<rparr>
      in case st_save ops (fst draw) (snd draw) graph (Some node) st s1 of
           (Inl err, s2) \<Rightarrow> (Inl err, ctx, s2)
         | (Inr ref, s2) \<Rightarrow>
             (let ctx1 = ctx\<lparr>cx_prior_checkpoint := Some ref\<rparr>
              in case run_emit sha1_hex ops (fst draw') (snd draw') (saved_spec ctx1 ref) s2 of
                   (Inl err, s3) \<Rightarrow> (Inl err, ctx1, s3)
                 | (Inr e, s3) \<Rightarrow> (Inr ref, ctx1, s3)))"

section \<open>Bundles\<close>

text \<open>An event log and a checkpoint store side by side.\<close>

definition on_log :: "('l \<Rightarrow> 'a \<times> 'l) \<Rightarrow> 'l \<times> 'c \<Rightarrow> 'a \<times> ('l \<times> 'c)" where
  "on_log f p = (fst (f (fst p)), (snd (f (fst p)), snd p))"

definition on_checkpoints :: "('c \<Rightarrow> 'a \<times> 'c) \<Rightarrow> 'l \<times> 'c \<Rightarrow> 'a \<times> ('l \<times> 'c)" where
  "on_checkpoints f p = (fst (f (snd p)), (fst p, snd (f (snd p))))"

definition memory_bundle :: "(InMemoryEventLog \<times> InMemoryCheckpointStore) run_stores" where
  "memory_bundle = \<lparr>st_append = (\<lambda>e p. (memory_append e (fst p), snd p)), st_next_seq = (\<lambda>r. on_log (memory_next_seq r)),
     st_list_for_run = (\<lambda>r a. on_log (memory_list_for_run r a)),
     st_save = (\<lambda>hex now graph node st. on_checkpoints (memory_save hex now graph node st)),
     st_latest = (\<lambda>r. on_checkpoints (memory_latest r)), st_load = (\<lambda>c. on_checkpoints (memory_load c)),
     st_list_checkpoints = (\<lambda>r n. on_checkpoints (memory_list_checkpoints r n))\<rparr>"

definition sqlite_bundle :: "(run_events_table \<times> checkpoints_table) run_stores" where
  "sqlite_bundle = \<lparr>st_append = (\<lambda>e p. (sqlite_append e (fst p), snd p)), st_next_seq = (\<lambda>r. on_log (sqlite_next_seq r)),
     st_list_for_run = (\<lambda>r a. on_log (sqlite_list_for_run r a)),
     st_save = (\<lambda>hex now graph node st. on_checkpoints (sqlite_save hex now graph node st)),
     st_latest = (\<lambda>r. on_checkpoints (sqlite_latest r)), st_load = (\<lambda>c. on_checkpoints (sqlite_load c)),
     st_list_checkpoints = (\<lambda>r n. on_checkpoints (sqlite_list_checkpoints r n))\<rparr>"

definition jsonl_bundle :: "jsonl_store run_stores" where
  "jsonl_bundle = \<lparr>st_append = jsonl_append, st_next_seq = jsonl_next_seq, st_list_for_run = jsonl_list_for_run,
     st_save = jsonl_save, st_latest = jsonl_latest, st_load = jsonl_load, st_list_checkpoints = jsonl_list_checkpoints\<rparr>"

section \<open>A run\<close>

text \<open>What a run writes: an event, or a checkpoint after the loop has left the given output and metadata.\<close>

datatype journal_op =
    Emit_Op "string \<times> string" EventSpec
  | Save_Op "string \<times> string" "string \<times> string" "AgentRunOutput option" string pydict

fun journal_step ::
  "(string \<Rightarrow> string) \<Rightarrow> 's run_stores \<Rightarrow> string \<Rightarrow> journal_op \<Rightarrow> JournalContext \<times> 's \<Rightarrow> bool \<times> JournalContext \<times> 's" where
  "journal_step sha1_hex ops graph (Emit_Op draw spec) (ctx, s) =
     (let (r, s1) = run_emit sha1_hex ops (fst draw) (snd draw) spec s in (\<not> isl r, ctx, s1))"
| "journal_step sha1_hex ops graph (Save_Op draw draw' out node meta) (ctx, s) =
     (let (r, ctx1, s1) = save_checkpoint sha1_hex ops graph draw draw' out node (ctx\<lparr>cx_metadata := meta\<rparr>) s
      in (\<not> isl r, ctx1, s1))"

fun journal_run ::
  "(string \<Rightarrow> string) \<Rightarrow> 's run_stores \<Rightarrow> string \<Rightarrow> journal_op list \<Rightarrow> JournalContext \<times> 's \<Rightarrow> bool \<times> JournalContext \<times> 's" where
  "journal_run sha1_hex ops graph [] cs = (True, cs)"
| "journal_run sha1_hex ops graph (x # xs) cs =
     (let (a, cs1) = journal_step sha1_hex ops graph x cs; (b, cs2) = journal_run sha1_hex ops graph xs cs1 in (a \<and> b, cs2))"

text \<open>The identifiers a sequence of operations draws for events and for checkpoints, its clock readings at
  checkpoints, and the runs it writes to.\<close>

fun event_draws :: "journal_op list \<Rightarrow> string list" where
  "event_draws [] = []"
| "event_draws (Emit_Op d spec # xs) = fst d # event_draws xs"
| "event_draws (Save_Op d d' out node meta # xs) = fst d' # event_draws xs"

fun save_draws :: "journal_op list \<Rightarrow> (string \<times> string) list" where
  "save_draws [] = []"
| "save_draws (Emit_Op d spec # xs) = save_draws xs"
| "save_draws (Save_Op d d' out node meta # xs) = d # save_draws xs"

fun op_runs :: "journal_op list \<Rightarrow> string set" where
  "op_runs [] = {}"
| "op_runs (Emit_Op d spec # xs) = insert (es_run_id spec) (op_runs xs)"
| "op_runs (Save_Op d d' out node meta # xs) = op_runs xs"

section \<open>What the journal of a run looks like\<close>

definition announced :: "RuntimeEvent list \<Rightarrow> CheckpointRecord \<Rightarrow> bool" where
  "announced es c =
     (let k = length (rt_events (ck_state c))
      in k < length es \<and> rt_events (ck_state c) = take k es \<and> re_type (es ! k) = ''checkpoint_saved''
         \<and> re_payload (es ! k) = [(''checkpoint_id'', PStr (cr_checkpoint_id (ck_ref c)))])"

definition linked :: "CheckpointRecord list \<Rightarrow> bool" where
  "linked cs = (map (\<lambda>c. cr_revision (ck_ref c)) cs = [0..int (length cs) - 1]
     \<and> map (\<lambda>c. cr_parent_checkpoint_id (ck_ref c)) cs = take (length cs) (None # map (\<lambda>c. Some (cr_checkpoint_id (ck_ref c))) cs))"

lemma announced_snoc: "announced es c \<Longrightarrow> announced (es @ [e]) c"
  by (auto simp: announced_def Let_def nth_append)

lemma linked_snoc:
  assumes "linked cs" "cr_revision (ck_ref c) = int (length cs)"
    "cr_parent_checkpoint_id (ck_ref c) = map_option (\<lambda>c. cr_checkpoint_id (ck_ref c)) (last_row cs)"
  shows "linked (cs @ [c])"
proof -
  have "take (Suc (length cs)) (None # map (\<lambda>c. Some (cr_checkpoint_id (ck_ref c))) (cs @ [c])) =
      take (length cs) (None # map (\<lambda>c. Some (cr_checkpoint_id (ck_ref c))) cs) @ [map_option (\<lambda>c. cr_checkpoint_id (ck_ref c)) (last_row cs)]"
    by (cases cs rule: rev_cases) (simp_all add: last_row_def)
  with assms show ?thesis by (simp add: linked_def upto_rec2)
qed

lemma linked_next: "linked cs \<Longrightarrow> (case last_row cs of Some c \<Rightarrow> cr_revision (ck_ref c) + 1 | None \<Rightarrow> 0) = int (length cs)"
  by (cases cs rule: rev_cases) (simp_all add: linked_def last_row_def upto_rec2)

text \<open>Between operations the context of a run agrees with its chain and its log.\<close>

definition journal_inv ::
  "string set \<Rightarrow> RuntimeEvent list \<Rightarrow> CheckpointRecord list \<Rightarrow> JournalContext \<Rightarrow> bool" where
  "journal_inv runs es cs ctx =
     (an_run_id (cx_run_input ctx) = Some (cx_run_id ctx) \<and> cx_run_id ctx \<noteq> [] \<and> cx_run_id ctx \<in> runs
      \<and> cx_prior_checkpoint ctx = map_option ck_ref (last_row cs) \<and> linked cs \<and> list_all (announced es) cs)"

lemma journal_inv_emit: "journal_inv runs es cs ctx \<Longrightarrow> journal_inv runs (es @ [e]) cs ctx"
  by (auto simp: journal_inv_def list_all_iff announced_snoc)

definition context_state :: "JournalContext \<Rightarrow> AgentRunOutput option \<Rightarrow> RuntimeEvent list \<Rightarrow> RuntimeState" where
  "context_state ctx out es = \<lparr>rt_run_input = cx_run_input ctx, rt_latest_output = out, rt_events = es,
     rt_checkpoint = cx_prior_checkpoint ctx, rt_metadata = cx_metadata ctx\<rparr>"

lemma journal_inv_save:
  assumes "journal_inv runs es cs ctx"
    and ref: "ref = next_ref backend hex now graph node (context_state ctx out es) cs"
    and e: "re_type e = ''checkpoint_saved''" "re_payload e = [(''checkpoint_id'', PStr (cr_checkpoint_id ref))]"
  shows "journal_inv runs (es @ [e]) (cs @ [stamped ref (context_state ctx out es)]) (ctx\<lparr>cx_prior_checkpoint := Some ref\<rparr>)"
proof -
  have "cr_revision ref = int (length cs)"
    using linked_next [of cs] assms(1) by (simp add: ref next_ref_def build_checkpoint_ref_def journal_inv_def split: option.splits)
  moreover have "cr_parent_checkpoint_id ref = map_option (\<lambda>c. cr_checkpoint_id (ck_ref c)) (last_row cs)"
    using assms(1) by (auto simp: ref next_ref_def build_checkpoint_ref_def seed_from_runtime_state_def context_state_def journal_inv_def option.map_comp comp_def)
  ultimately have "linked (cs @ [stamped ref (context_state ctx out es)])"
    using linked_snoc [of cs "stamped ref (context_state ctx out es)"] assms(1) by (simp add: journal_inv_def)
  moreover have "announced (es @ [e]) (stamped ref (context_state ctx out es))"
    by (simp add: announced_def context_state_def e)
  ultimately show ?thesis using journal_inv_emit [OF assms(1), of e] by (simp add: journal_inv_def last_row_def)
qed

text \<open>The journal of a run read back from its store: every checkpoint is listed, is linked to the one before it,
  holds the events before it, is announced by the event after them, and can be loaded.\<close>

definition journal_sound ::
  "(string \<Rightarrow> string) \<Rightarrow> 's run_stores \<Rightarrow> string \<Rightarrow> journal_op list \<Rightarrow> JournalContext \<Rightarrow> 's \<Rightarrow> bool" where
  "journal_sound sha1_hex ops graph xs ctx s0 =
     (let (ok, ctx', s') = journal_run sha1_hex ops graph xs (ctx, s0);
          es = fst (st_list_for_run ops (cx_run_id ctx) None s');
          cs = rev (fst (st_list_checkpoints ops (cx_run_id ctx) None s'))
      in ok \<and> length cs = length (save_draws xs) \<and> linked cs \<and> list_all (announced es) cs
         \<and> fst (st_latest ops (cx_run_id ctx) s') = last_row cs
         \<and> list_all (\<lambda>c. fst (st_load ops (cr_checkpoint_id (ck_ref c)) s') = Some c) cs)"

text \<open>What a sequence of operations draws: new identifiers, and later clock readings at later checkpoints.\<close>

definition draws_ok :: "journal_op list \<Rightarrow> bool" where
  "draws_ok xs = (distinct (event_draws xs) \<and> distinct (map fst (save_draws xs)) \<and> sorted_wrt (<) (map snd (save_draws xs)))"

definition fresh_context :: "JournalContext \<Rightarrow> bool" where
  "fresh_context ctx = (an_run_id (cx_run_input ctx) = Some (cx_run_id ctx) \<and> cx_run_id ctx \<noteq> [] \<and> cx_prior_checkpoint ctx = None)"

section \<open>What a store of both promises\<close>

text \<open>Neither half of a store disturbs the other.\<close>

locale runtime_store =
  gapless_event_log "st_append ops" "st_next_seq ops" "st_list_for_run ops" events ids inv runs +
  checkpoint_store "st_save ops" "st_latest ops" "st_load ops" "st_list_checkpoints ops" chain inv ready runs backend
  for ops :: "'s run_stores" and events ids inv runs chain ready backend +
  assumes append_chain: "inv s \<Longrightarrow> chain (st_append ops e s) = chain s \<and> (ready now s \<longrightarrow> ready now (st_append ops e s))"
    and next_chain: "inv s \<Longrightarrow> chain (snd (st_next_seq ops r s)) = chain s \<and> (ready now s \<longrightarrow> ready now (snd (st_next_seq ops r s)))"
    and list_chain: "inv s \<Longrightarrow> chain (snd (st_list_for_run ops r a s)) = chain s \<and> (ready now s \<longrightarrow> ready now (snd (st_list_for_run ops r a s)))"
    and save_events: "inv s \<Longrightarrow> events (snd (st_save ops hex now graph node st s)) = events s \<and> ids (snd (st_save ops hex now graph node st s)) = ids s"
begin

lemma run_emit_ok:
  assumes "inv s" "''evt_'' @ hex \<notin> ids s" "es_run_id spec \<in> runs"
  shows "\<exists>e s'. run_emit sha1_hex ops hex now spec s = (Inr e, s') \<and> inv s' \<and> chain s' = chain s \<and> (\<forall>t. ready t s \<longrightarrow> ready t s')
    \<and> e = event_of sha1_hex hex now spec (fst (st_next_seq ops (es_run_id spec) s))
    \<and> events s' = (events s)(es_run_id spec := events s (es_run_id spec) @ [e])
    \<and> ids s' \<subseteq> insert (''evt_'' @ hex) (ids s)"
proof -
  obtain e where e: "fst (run_emit sha1_hex ops hex now spec s) = Inr e"
    "e = event_of sha1_hex hex now spec (fst (st_next_seq ops (es_run_id spec) s))"
    "events (snd (run_emit sha1_hex ops hex now spec s)) = (events s)(es_run_id spec := events s (es_run_id spec) @ [e])"
    "ids (snd (run_emit sha1_hex ops hex now spec s)) \<subseteq> insert (''evt_'' @ hex) (ids s)"
    "inv (snd (run_emit sha1_hex ops hex now spec s))"
    using emit_event [OF assms] unfolding run_emit_def by blast
  obtain n s1 where n: "st_next_seq ops (es_run_id spec) s = (n, s1)" by force
  have "snd (run_emit sha1_hex ops hex now spec s) = st_append ops e s1"
    using e(1) by (simp add: run_emit_def emit_def n split: sum.splits)
  moreover have "inv s1" "chain s1 = chain s" "\<forall>t. ready t s \<longrightarrow> ready t s1"
    using next_chain [OF assms(1), of "es_run_id spec"] next_inv [OF assms(1), of "es_run_id spec"] n by auto
  ultimately show ?thesis using e append_chain [of s1 e] by (metis prod.collapse)
qed

lemma save_checkpoint_ok:
  assumes "inv s" "journal_inv runs (events s r) (chain s r) ctx" "r = cx_run_id ctx" "ready (snd draw) s"
    "''evt_'' @ fst draw' \<notin> ids s" "\<And>q rec. rec \<in> set (chain s q) \<Longrightarrow> cr_checkpoint_id (ck_ref rec) \<noteq> ''chk_'' @ fst draw"
  shows "\<exists>ref ctx' s'. save_checkpoint sha1_hex ops graph draw draw' out node ctx s = (Inr ref, ctx', s') \<and> inv s'
    \<and> journal_inv runs (events s' r) (chain s' r) ctx' \<and> cx_run_id ctx' = r \<and> cr_checkpoint_id ref = ''chk_'' @ fst draw
    \<and> (\<forall>q. q \<noteq> r \<longrightarrow> events s' q = events s q \<and> chain s' q = chain s q)
    \<and> length (chain s' r) = Suc (length (chain s r)) \<and> set (chain s' r) \<subseteq> insert (last (chain s' r)) (set (chain s r)) \<and> ck_ref (last (chain s' r)) = ref
    \<and> ids s' \<subseteq> insert (''evt_'' @ fst draw') (ids s) \<and> (\<forall>t > snd draw. ready t s \<longrightarrow> ready t s')"
proof -
  obtain es s1 where l: "st_list_for_run ops r None s = (es, s1)" by force
  have s1: "inv s1" "es = events s r" "events s1 = events s" "ids s1 = ids s" "chain s1 = chain s" "\<And>t. ready t s \<Longrightarrow> ready t s1"
    using listed [OF assms(1), of r None] list_inv [OF assms(1), of r None] list_keeps [OF assms(1), of r None] list_chain [OF assms(1), of r None] l
    by (auto simp: after_filter_def)
  let ?st = "context_state ctx out (events s r)"
  let ?ref = "next_ref backend (fst draw) (snd draw) graph (Some node) ?st (chain s r)"
  obtain a s2 where sv: "st_save ops (fst draw) (snd draw) graph (Some node) ?st s1 = (a, s2)" by force
  have run: "state_run_id ?st = r" "r \<in> runs" using assms(2,3) by (simp_all add: state_run_id_def context_state_def journal_inv_def)
  have s2: "a = Inr ?ref" "inv s2" "chain s2 = (chain s)(r := chain s r @ [stamped ?ref ?st])" "events s2 = events s" "ids s2 = ids s"
    "\<And>t. snd draw < t \<Longrightarrow> ready t s \<Longrightarrow> ready t s2"
    using save_result [OF s1(1), of "fst draw" "snd draw" graph "Some node" ?st] save_inv [OF s1(1), of ?st "snd draw" "fst draw" graph "Some node"]
      save_chain [OF s1(1), of "fst draw" "snd draw" graph "Some node" ?st] save_events [OF s1(1), of "fst draw" "snd draw" graph "Some node" ?st]
      save_ready [OF s1(1), of _ "snd draw" "fst draw" graph "Some node" ?st] s1 sv run assms(4,6) by simp_all
  let ?ctx = "ctx\<lparr>cx_prior_checkpoint := Some ?ref\<rparr>"
  obtain e s3 where e: "run_emit sha1_hex ops (fst draw') (snd draw') (saved_spec ?ctx ?ref) s2 = (Inr e, s3)" "inv s3" "chain s3 = chain s2"
    "\<forall>t. ready t s2 \<longrightarrow> ready t s3" "e = event_of sha1_hex (fst draw') (snd draw') (saved_spec ?ctx ?ref) (fst (st_next_seq ops r s2))"
    "events s3 = (events s2)(r := events s2 r @ [e])" "ids s3 \<subseteq> insert (''evt_'' @ fst draw') (ids s2)"
    using run_emit_ok [OF s2(2), of "fst draw'" "saved_spec ?ctx ?ref" sha1_hex "snd draw'"] assms(3,5) run s2(5) by (auto simp: saved_spec_def)
  have "save_checkpoint sha1_hex ops graph draw draw' out node ctx s = (Inr ?ref, ?ctx, s3)"
    using l sv s1(2) s2(1) e(1) by (simp add: save_checkpoint_def context_state_def assms(3) Let_def)
  moreover have "journal_inv runs (events s3 r) (chain s3 r) ?ctx"
    using journal_inv_save [OF assms(2) refl, of e backend "fst draw" "snd draw" graph "Some node" out] e s2 by (simp add: event_of_def saved_spec_def)
  ultimately show ?thesis using e s2 assms(3) by (auto simp: Let_def)
qed

lemma journal_run_ok:
  assumes "inv s" "journal_inv runs (events s r) (chain s r) ctx" "r = cx_run_id ctx" "op_runs xs \<subseteq> runs"
    "distinct (event_draws xs)" "\<forall>d \<in> set (event_draws xs). ''evt_'' @ d \<notin> ids s"
    "distinct (map fst (save_draws xs))" "sorted_wrt (<) (map snd (save_draws xs))"
    "\<forall>d \<in> set (save_draws xs). ready (snd d) s \<and> (\<forall>q. \<forall>rec \<in> set (chain s q). cr_checkpoint_id (ck_ref rec) \<noteq> ''chk_'' @ fst d)"
  shows "\<exists>ctx' s'. journal_run sha1_hex ops graph xs (ctx, s) = (True, ctx', s') \<and> inv s'
    \<and> journal_inv runs (events s' r) (chain s' r) ctx' \<and> length (chain s' r) = length (chain s r) + length (save_draws xs)"
  using assms
proof (induction xs arbitrary: ctx s)
  case (Cons x xs)
  show ?case
  proof (cases x)
    case (Emit_Op d spec)
    obtain e s1 where e: "run_emit sha1_hex ops (fst d) (snd d) spec s = (Inr e, s1)" "inv s1" "chain s1 = chain s" "\<forall>t. ready t s \<longrightarrow> ready t s1"
      "events s1 = (events s)(es_run_id spec := events s (es_run_id spec) @ [e])" "ids s1 \<subseteq> insert (''evt_'' @ fst d) (ids s)"
      using run_emit_ok [OF Cons.prems(1), of "fst d" spec sha1_hex "snd d"] Cons.prems Emit_Op by auto
    have "journal_inv runs (events s1 r) (chain s1 r) ctx" using Cons.prems(2) by (auto simp: e journal_inv_emit)
    moreover have "\<forall>d' \<in> set (event_draws xs). ''evt_'' @ d' \<notin> ids s1" using Cons.prems(5,6) e(6) Emit_Op by auto
    ultimately show ?thesis using Cons.IH [of s1 ctx] Cons.prems e Emit_Op by (auto simp: Let_def)
  next
    case (Save_Op d d' out node meta)
    have "journal_inv runs (events s r) (chain s r) (ctx\<lparr>cx_metadata := meta\<rparr>)" using Cons.prems(2) by (simp add: journal_inv_def)
    then obtain ref ctx1 s1 where sv: "save_checkpoint sha1_hex ops graph d d' out node (ctx\<lparr>cx_metadata := meta\<rparr>) s = (Inr ref, ctx1, s1)" "inv s1"
      "journal_inv runs (events s1 r) (chain s1 r) ctx1" "cx_run_id ctx1 = r" "cr_checkpoint_id ref = ''chk_'' @ fst d"
      "\<forall>q. q \<noteq> r \<longrightarrow> events s1 q = events s q \<and> chain s1 q = chain s q" "length (chain s1 r) = Suc (length (chain s r))"
      "set (chain s1 r) \<subseteq> insert (last (chain s1 r)) (set (chain s r))" "ck_ref (last (chain s1 r)) = ref"
      "ids s1 \<subseteq> insert (''evt_'' @ fst d') (ids s)" "\<forall>t > snd d. ready t s \<longrightarrow> ready t s1"
      using save_checkpoint_ok [OF Cons.prems(1), of r "ctx\<lparr>cx_metadata := meta\<rparr>" d d' sha1_hex graph out node] Cons.prems Save_Op by auto
    have "\<forall>d'' \<in> set (event_draws xs). ''evt_'' @ d'' \<notin> ids s1" using Cons.prems(5,6) sv(10) Save_Op by auto
    moreover have "ready (snd x) s1 \<and> (\<forall>q. \<forall>rec \<in> set (chain s1 q). cr_checkpoint_id (ck_ref rec) \<noteq> ''chk_'' @ fst x)" if x: "x \<in> set (save_draws xs)" for x
    proof -
      have "fst x \<noteq> fst d" "snd d < snd x" using Cons.prems(7,8) x Save_Op by (auto simp: image_iff)
      moreover have "cr_checkpoint_id (ck_ref rec) \<noteq> ''chk_'' @ fst x" if "rec \<in> set (chain s1 q)" for q rec
        using that Cons.prems(9) x sv(5,6,8,9) Save_Op \<open>fst x \<noteq> fst d\<close> by (cases "q = r") auto
      ultimately show ?thesis using Cons.prems(9) x sv(11) Save_Op by auto
    qed
    ultimately show ?thesis using Cons.IH [of s1 ctx1] Cons.prems sv Save_Op by (auto simp: Let_def)
  qed
qed simp

lemma empty_journal_sound:
  assumes "inv s" "events s = (\<lambda>_. [])" "chain s = (\<lambda>_. [])" "ids s = {}" "\<And>t. ready t s"
    "fresh_context ctx" "draws_ok xs" "cx_run_id ctx \<in> runs" "op_runs xs \<subseteq> runs"
  shows "journal_sound sha1_hex ops graph xs ctx s"
proof -
  let ?r = "cx_run_id ctx"
  have "journal_inv runs (events s ?r) (chain s ?r) ctx"
    using assms by (simp add: journal_inv_def fresh_context_def last_row_def linked_def)
  then obtain ctx' s' where run: "journal_run sha1_hex ops graph xs (ctx, s) = (True, ctx', s')" "inv s'"
    "journal_inv runs (events s' ?r) (chain s' ?r) ctx'" "length (chain s' ?r) = length (save_draws xs)"
    using journal_run_ok [of s ?r ctx xs sha1_hex graph] assms by (auto simp: draws_ok_def)
  then show ?thesis
    by (simp add: journal_sound_def listed after_filter_def list_result latest_result journal_inv_def list_all_iff load_result)
qed

end

section \<open>The bundles keep the promise\<close>

text \<open>Any event log beside any checkpoint store.\<close>

lemma bundle_runtime_store:
  assumes log: "gapless_event_log put next_seq list_for_run events ids log_inv UNIV"
    and chk: "checkpoint_store save latest load list_checkpoints chain chk_inv ready UNIV backend"
  shows "runtime_store \<lparr>st_append = (\<lambda>e p. (put e (fst p), snd p)), st_next_seq = (\<lambda>r. on_log (next_seq r)),
      st_list_for_run = (\<lambda>r a. on_log (list_for_run r a)), st_save = (\<lambda>hex now graph node st. on_checkpoints (save hex now graph node st)),
      st_latest = (\<lambda>r. on_checkpoints (latest r)), st_load = (\<lambda>c. on_checkpoints (load c)),
      st_list_checkpoints = (\<lambda>r n. on_checkpoints (list_checkpoints r n))\<rparr>
    (\<lambda>p. events (fst p)) (\<lambda>p. ids (fst p)) (\<lambda>p. log_inv (fst p) \<and> chk_inv (snd p)) UNIV
    (\<lambda>p. chain (snd p)) (\<lambda>now p. ready now (snd p)) backend"
proof -
  have ev: "event_log put next_seq list_for_run events ids log_inv UNIV" using log by (simp add: gapless_event_log_def)
  show ?thesis
    by (unfold_locales)
      (simp_all add: on_log_def on_checkpoints_def event_log.put_inv [OF ev] event_log.next_inv [OF ev] event_log.next_keeps [OF ev]
        event_log.next_above [OF ev] event_log.next_again [OF ev] event_log.put_events [OF ev] event_log.put_ids [OF ev]
        event_log.listed [OF ev] event_log.list_inv [OF ev] event_log.list_keeps [OF ev] gapless_event_log.next_exact [OF log]
        checkpoint_store.save_inv [OF chk] checkpoint_store.save_result [OF chk] checkpoint_store.save_chain [OF chk]
        checkpoint_store.save_ready [OF chk] checkpoint_store.latest_result [OF chk] checkpoint_store.list_result [OF chk]
        checkpoint_store.load_result [OF chk], use checkpoint_store.load_known [OF chk] in blast)
qed

interpretation memory_runtime: runtime_store memory_bundle "\<lambda>p. memory_run_events (fst p)" "\<lambda>p. {}"
  "\<lambda>p. memory_log_ok (fst p) \<and> memory_chain_ok (snd p)" UNIV "\<lambda>p. memory_rows (snd p)" "\<lambda>now p. True" "''memory''"
  unfolding memory_bundle_def
  by (rule bundle_runtime_store [OF memory_log.gapless_event_log_axioms memory_checkpoints.checkpoint_store_axioms])

interpretation sqlite_runtime: runtime_store sqlite_bundle "\<lambda>p. table_events (fst p)" "\<lambda>p. re_event_id ` set (fst p)"
  "\<lambda>p. table_ok (fst p) \<and> table_chain_ok (snd p)" UNIV "\<lambda>p. table_chain (snd p)" "\<lambda>now p. clock_ready now (snd p)" "''sqlite''"
  unfolding sqlite_bundle_def
  by (rule bundle_runtime_store [OF sqlite_log.gapless_event_log_axioms sqlite_checkpoints.checkpoint_store_axioms])

text \<open>In session files events and checkpoints share the rows of a file.\<close>

lemma session_chain_rows: "(\<And>f. checkpoint_rows (file_rows s' f) = checkpoint_rows (file_rows s f)) \<Longrightarrow> session_chain s' = session_chain s"
  by (simp add: session_chain_def run_checkpoints_def fun_eq_iff)

lemma jsonl_append_keeps:
  assumes "handles_ok s"
  shows "checkpoint_rows (file_rows (jsonl_append e s) f) = checkpoint_rows (file_rows s f)"
  by (simp add: jsonl_append_def append_event_rows [OF assms] checkpoint_rows_append)

lemma filed_rows:
  assumes "filed s" "handles_ok s'" "finite (dom (jl_files s'))" "\<And>f. checkpoint_rows (file_rows s' f) = checkpoint_rows (file_rows s f)"
  shows "filed s'"
  using assms by (simp add: filed_def)

lemma jsonl_append_ok: "handles_ok s \<Longrightarrow> handles_ok (jsonl_append e s)"
  by (simp add: jsonl_append_def append_event_ok)

lemma jsonl_append_finite: "finite (dom (jl_files s)) \<Longrightarrow> finite (dom (jl_files (jsonl_append e s)))"
  by (auto simp: jsonl_append_def append_event_def split_beta Let_def write_row_def)

lemma jsonl_reads_files: "jl_files (snd (jsonl_next_seq r s)) = jl_files s" "jl_files (snd (jsonl_list_for_run r a s)) = jl_files s"
  by (simp_all add: jsonl_next_seq_def jsonl_list_for_run_def split_beta)

lemma jsonl_save_events:
  "session_events (snd (jsonl_save hex now graph node st s)) = session_events s" "session_ids (snd (jsonl_save hex now graph node st s)) = session_ids s"
  by (auto simp: session_events_def session_ids_def session_save_rows fun_eq_iff listed_append split: if_splits)

lemma jsonl_save_own_files: "own_files runs s \<Longrightarrow> own_files runs (snd (jsonl_save hex now graph node st s))"
  by (auto simp: own_files_def session_save_rows split: if_splits)

lemma session_runtime_store:
  assumes "inj_on session_file_name runs"
  shows "runtime_store jsonl_bundle session_events session_ids (\<lambda>s. own_files runs s \<and> filed s) runs session_chain (\<lambda>now s. True) ''jsonl''"
proof -
  have log: "gapless_event_log jsonl_append jsonl_next_seq jsonl_list_for_run session_events session_ids (own_files runs) runs"
    using assms by (rule session_log_gapless)
  then have ev: "event_log jsonl_append jsonl_next_seq jsonl_list_for_run session_events session_ids (own_files runs) runs"
    by (simp add: gapless_event_log_def)
  have h: "own_files runs s \<Longrightarrow> handles_ok s" "filed s \<Longrightarrow> finite (dom (jl_files s))" for s by (simp_all add: own_files_def filed_def)
  have put: "filed (jsonl_append e s)" "filed (snd (jsonl_next_seq r s))" "filed (snd (jsonl_list_for_run r a s))" if "own_files runs s" "filed s" for s e r a
    using that filed_rows [of s] h by (auto simp: jsonl_append_keeps jsonl_append_finite jsonl_append_ok session_next session_list_keeps jsonl_reads_files)
  have chain: "session_chain (jsonl_append e s) = session_chain s" "session_chain (snd (jsonl_next_seq r s)) = session_chain s"
    "session_chain (snd (jsonl_list_for_run r a s)) = session_chain s" if "own_files runs s" for s e r a
    by (rule session_chain_rows, use that h in \<open>simp add: jsonl_append_keeps session_next session_list_keeps\<close>)+
  show ?thesis
    unfolding jsonl_bundle_def
    by (unfold_locales)
      (simp_all add: put chain jsonl_save_own_files jsonl_save_events event_log.put_inv [OF ev] event_log.next_inv [OF ev] event_log.next_keeps [OF ev]
        event_log.next_above [OF ev] event_log.next_again [OF ev] event_log.put_events [OF ev] event_log.put_ids [OF ev]
        event_log.listed [OF ev] event_log.list_inv [OF ev] event_log.list_keeps [OF ev] gapless_event_log.next_exact [OF log]
        session_checkpoints.save_inv session_checkpoints.save_result session_checkpoints.save_chain
        session_checkpoints.latest_result session_checkpoints.list_result session_checkpoints.load_result,
       use session_checkpoints.load_known in blast)
qed

section \<open>The journal of a run on every backend\<close>

text \<open>C9. The journal of a run is sound on every backend under three conditions: identifiers are new, the clock texts of
  later checkpoints are strictly later in the order of strings (which \<open>isoformat\<close> does not promise,
  \<open>sqlite_revision_repeats\<close> below), and different runs have different session file names (\<open>shared_session_file\<close> in
  \<open>Event_Log\<close>). Then, whatever events and checkpoints a run writes into fresh stores, all writes succeed; the checkpoints of the run are listed completely, with
  revisions counting from zero and each with the one before it as its parent; each holds exactly the events emitted
  before it and is announced by the next event; the newest is the latest, and each can be loaded by its
  identifier.\<close>

theorem run_journal_sound:
  assumes "fresh_context ctx" "draws_ok xs" "inj_on session_file_name (insert (cx_run_id ctx) (op_runs xs))"
  shows "journal_sound sha1_hex memory_bundle graph xs ctx (empty_event_log, empty_checkpoints)
    \<and> journal_sound sha1_hex sqlite_bundle graph xs ctx ([], [])
    \<and> journal_sound sha1_hex jsonl_bundle graph xs ctx empty_jsonl"
proof (intro conjI)
  show "journal_sound sha1_hex memory_bundle graph xs ctx (empty_event_log, empty_checkpoints)"
    by (rule memory_runtime.empty_journal_sound)
      (simp_all add: assms memory_log_ok_def memory_chain_ok_def empty_event_log_def empty_checkpoints_def memory_max_seq_def
        memory_run_events_def memory_rows_def fun_eq_iff)
  show "journal_sound sha1_hex sqlite_bundle graph xs ctx ([], [])"
    by (rule sqlite_runtime.empty_journal_sound)
      (simp_all add: assms table_ok_def table_events_def table_chain_def table_chain_ok_def run_rows_def clock_ready_def fun_eq_iff)
  show "journal_sound sha1_hex jsonl_bundle graph xs ctx empty_jsonl"
    by (rule runtime_store.empty_journal_sound [OF session_runtime_store [OF assms(3)]])
      (auto simp: assms own_files_def filed_def handles_ok_def session_events_def session_ids_def session_chain_def run_checkpoints_def
        file_rows_def empty_jsonl_def fun_eq_iff)
qed

definition sample_context :: JournalContext where
  "sample_context = \<lparr>cx_run_input = \<lparr>an_run_id = Some ''r1'', an_thread_id = None, an_agent_id = None, an_app_metadata = [],
       an_allowed_tools = None, an_denied_tools = None, an_policy_metadata = [], an_other_fields = []\<rparr>, cx_run_id = ''r1'',
     cx_attempt_id = ''attempt_1'', cx_metadata = [], cx_prior_checkpoint = None\<rparr>"

definition sample_journal_ops :: "journal_op list" where
  "sample_journal_ops = [Emit_Op (''a'', ''t0'') (sample_spec ''r1''), Save_Op (''k'', ''t1'') (''b'', ''t2'') None ''llm'' [],
     Emit_Op (''c'', ''t3'') (sample_spec ''r2''), Save_Op (''l'', ''t4'') (''d'', ''t5'') None ''tools'' []]"

theorem run_journal_sound_witness:
  "journal_sound (\<lambda>s. s) sqlite_bundle ''graph'' sample_journal_ops sample_context ([], []) \<and> length (save_draws sample_journal_ops) = 2
   \<and> fresh_context sample_context \<and> draws_ok sample_journal_ops"
proof -
  have "session_file_name ''r1'' \<noteq> session_file_name ''r2''" by code_simp
  then have "inj_on session_file_name (insert (cx_run_id sample_context) (op_runs sample_journal_ops))"
    by (auto simp: sample_context_def sample_journal_ops_def sample_spec_def)
  moreover have "fresh_context sample_context" "draws_ok sample_journal_ops"
    by (simp_all add: fresh_context_def sample_context_def draws_ok_def sample_journal_ops_def)
  ultimately show ?thesis using run_journal_sound [of sample_context sample_journal_ops "\<lambda>s. s" "''graph''"] by (simp add: sample_journal_ops_def)
qed

text \<open>A clock reading without a fraction is written without one and so sorts after later readings in the same
  second: the SQLite store then takes the older checkpoint for the latest and repeats a revision.\<close>

definition sample_state :: RuntimeState where
  "sample_state = context_state sample_context None []"

lemma sqlite_revision_repeats:
  "(let (a, t1) = sqlite_save ''x'' ''2026-01-01T00:00:00Z'' ''g'' None sample_state [];
        (b, t2) = sqlite_save ''y'' ''2026-01-01T00:00:00.100000Z'' ''g'' None sample_state t1;
        (c, t3) = sqlite_save ''z'' ''2026-01-01T00:00:00.200000Z'' ''g'' None sample_state t2
    in (map (\<lambda>r. case r of Inr ref \<Rightarrow> cr_revision ref | Inl _ \<Rightarrow> -1) [a, b, c],
        map_option (\<lambda>row. cr_checkpoint_id (ck_ref row)) (fst (sqlite_latest ''r1'' t3)))) = ([0, 1, 1], Some ''chk_x'')"
  by code_simp

end
