(* ===== verification/Plan_Artifacts.thy ===== *)
theory Plan_Artifacts
  imports Prelude
begin

text \<open>
  Plan artifacts and their two stores (\<open>context/planning/artifacts.py\<close>, \<open>contracts/context/planning.py\<close>): the document
  an operator approves, bound to a digest of its content. The digest and the clock are arguments; a payload
  column holds the artifact it encodes.
\<close>

section \<open>Artifacts\<close>

datatype PlanningModeState = PM_DISABLED | PM_COLLECTING | PM_AWAITING_APPROVAL | PM_APPROVED | PM_REJECTED | PM_EXPIRED

record PlanArtifact =
  pa_plan_id :: string
  pa_run_id :: string
  pa_thread_id :: "string option"
  pa_agent_id :: string
  pa_path :: "string option"
  pa_content :: string
  pa_content_hash :: string
  pa_status :: PlanningModeState
  pa_created_at :: string
  pa_updated_at :: string
  pa_approved_at :: "string option"
  pa_approved_by :: "string option"
  pa_rejected_at :: "string option"
  pa_rejected_by :: "string option"
  pa_rejection_reason :: "string option"
  pa_metadata :: pydict

definition detect_plan_revision :: "(string \<Rightarrow> string) \<Rightarrow> string \<Rightarrow> string \<Rightarrow> bool" where
  "detect_plan_revision content_hash approved candidate = (if approved = [] then True else content_hash candidate \<noteq> approved)"

definition create_plan_artifact ::
  "(string \<Rightarrow> string) \<Rightarrow> string \<Rightarrow> string \<Rightarrow> string \<Rightarrow> string \<Rightarrow> string \<Rightarrow> string option \<Rightarrow> string option \<Rightarrow> pydict option \<Rightarrow> PlanArtifact" where
  "create_plan_artifact content_hash now plan run agent content thread path metadata =
     \<lparr>pa_plan_id = plan, pa_run_id = run, pa_thread_id = thread, pa_agent_id = agent, pa_path = path, pa_content = content,
      pa_content_hash = content_hash content, pa_status = PM_COLLECTING, pa_created_at = now, pa_updated_at = now,
      pa_approved_at = None, pa_approved_by = None, pa_rejected_at = None, pa_rejected_by = None, pa_rejection_reason = None,
      pa_metadata = (case metadata of Some d \<Rightarrow> d | None \<Rightarrow> [])\<rparr>"

definition update_plan_artifact_content :: "(string \<Rightarrow> string) \<Rightarrow> string \<Rightarrow> string \<Rightarrow> string option \<Rightarrow> PlanArtifact \<Rightarrow> PlanArtifact" where
  "update_plan_artifact_content content_hash now content path a =
     a\<lparr>pa_content := content, pa_content_hash := content_hash content,
       pa_path := (case path of Some p \<Rightarrow> Some p | None \<Rightarrow> pa_path a), pa_status := PM_COLLECTING, pa_updated_at := now,
       pa_approved_at := None, pa_approved_by := None, pa_rejected_at := None, pa_rejected_by := None, pa_rejection_reason := None\<rparr>"

definition mark_plan_awaiting_approval :: "string \<Rightarrow> PlanArtifact \<Rightarrow> PlanArtifact" where
  "mark_plan_awaiting_approval now a = a\<lparr>pa_status := PM_AWAITING_APPROVAL, pa_updated_at := now\<rparr>"

definition approve_plan_artifact :: "string \<Rightarrow> string option \<Rightarrow> PlanArtifact \<Rightarrow> PlanArtifact" where
  "approve_plan_artifact now approver a =
     a\<lparr>pa_status := PM_APPROVED, pa_updated_at := now, pa_approved_at := Some now, pa_approved_by := approver,
       pa_rejected_at := None, pa_rejected_by := None, pa_rejection_reason := None\<rparr>"

definition reject_plan_artifact :: "string \<Rightarrow> string option \<Rightarrow> string option \<Rightarrow> PlanArtifact \<Rightarrow> PlanArtifact" where
  "reject_plan_artifact now rejector reason a =
     a\<lparr>pa_status := PM_REJECTED, pa_updated_at := now, pa_rejected_at := Some now, pa_rejected_by := rejector,
       pa_rejection_reason := reason, pa_approved_at := None, pa_approved_by := None\<rparr>"

text \<open>What every operation keeps: the digest belongs to the content, and the approval and rejection marks belong to
  the status.\<close>

definition artifact_ok :: "(string \<Rightarrow> string) \<Rightarrow> PlanArtifact \<Rightarrow> bool" where
  "artifact_ok content_hash a =
     (pa_content_hash a = content_hash (pa_content a)
      \<and> (pa_approved_at a \<noteq> None \<longrightarrow> pa_status a = PM_APPROVED) \<and> (pa_rejected_at a \<noteq> None \<longrightarrow> pa_status a = PM_REJECTED)
      \<and> (pa_status a = PM_APPROVED \<longrightarrow> pa_approved_at a \<noteq> None) \<and> (pa_status a = PM_REJECTED \<longrightarrow> pa_rejected_at a \<noteq> None))"

named_theorems artifact_simps \<open>operations on plan artifacts\<close>

declare create_plan_artifact_def [artifact_simps] update_plan_artifact_content_def [artifact_simps]
  mark_plan_awaiting_approval_def [artifact_simps] approve_plan_artifact_def [artifact_simps] reject_plan_artifact_def [artifact_simps]

lemma created_artifact_ok: "artifact_ok h (create_plan_artifact h now plan run agent content thread path md)"
  by (simp add: artifact_ok_def artifact_simps)

lemma updated_artifact_ok: "artifact_ok h a \<Longrightarrow> artifact_ok h (update_plan_artifact_content h now content path a)"
  by (simp add: artifact_ok_def artifact_simps)

lemma awaiting_artifact_ok:
  "artifact_ok h a \<Longrightarrow> pa_status a \<in> {PM_COLLECTING, PM_AWAITING_APPROVAL} \<Longrightarrow> artifact_ok h (mark_plan_awaiting_approval now a)"
  by (elim insertE emptyE) (simp_all add: artifact_ok_def artifact_simps)

lemma decided_artifact_ok:
  "artifact_ok h a \<Longrightarrow> artifact_ok h (approve_plan_artifact now who a)"
  "artifact_ok h a \<Longrightarrow> artifact_ok h (reject_plan_artifact now who why a)"
  by (simp_all add: artifact_ok_def artifact_simps)

lemmas artifact_ops_ok = created_artifact_ok updated_artifact_ok awaiting_artifact_ok decided_artifact_ok

section \<open>Stores\<close>

record InMemoryPlanArtifactStore =
  pm_by_id :: "string \<rightharpoonup> PlanArtifact"
  pm_ids_by_run :: "string \<rightharpoonup> string list"

definition empty_plans :: InMemoryPlanArtifactStore where
  "empty_plans = \<lparr>pm_by_id = Map.empty, pm_ids_by_run = Map.empty\<rparr>"

definition plan_ids :: "InMemoryPlanArtifactStore \<Rightarrow> string \<Rightarrow> string list" where
  "plan_ids s run = (case pm_ids_by_run s run of Some ids \<Rightarrow> ids | None \<Rightarrow> [])"

definition memory_put_plan :: "PlanArtifact \<Rightarrow> InMemoryPlanArtifactStore \<Rightarrow> InMemoryPlanArtifactStore" where
  "memory_put_plan a s =
     (let known = pm_by_id s (pa_plan_id a) \<noteq> None; s1 = s\<lparr>pm_by_id := (pm_by_id s)(pa_plan_id a \<mapsto> a)\<rparr>
      in if known then s1
         else s1\<lparr>pm_ids_by_run := (pm_ids_by_run s)(pa_run_id a \<mapsto> plan_ids s (pa_run_id a) @ [pa_plan_id a])\<rparr>)"

definition memory_get_plan :: "InMemoryPlanArtifactStore \<Rightarrow> string \<Rightarrow> PlanArtifact option" where
  "memory_get_plan s plan = pm_by_id s plan"

definition memory_list_plans :: "InMemoryPlanArtifactStore \<Rightarrow> string \<Rightarrow> PlanArtifact list" where
  "memory_list_plans s run = List.map_filter (pm_by_id s) (plan_ids s run)"

type_synonym plan_table = "PlanArtifact list"

definition sqlite_put_plan :: "PlanArtifact \<Rightarrow> plan_table \<Rightarrow> plan_table" where
  "sqlite_put_plan a t = filter (\<lambda>x. pa_plan_id x \<noteq> pa_plan_id a) t @ [a]"

definition sqlite_get_plan :: "plan_table \<Rightarrow> string \<Rightarrow> PlanArtifact option" where
  "sqlite_get_plan t plan = List.find (\<lambda>x. pa_plan_id x = plan) t"

definition sqlite_list_plans :: "plan_table \<Rightarrow> string \<Rightarrow> PlanArtifact list" where
  "sqlite_list_plans t run = sort_key (\<lambda>x. (pa_created_at x, pa_plan_id x)) (filter (\<lambda>x. pa_run_id x = run) t)"

section \<open>What a plan store promises\<close>

text \<open>The last artifact under an identifier is returned, and the list of a run holds its artifacts, provided an
  identifier stays with its run.\<close>

locale plan_store =
  fixes put :: "PlanArtifact \<Rightarrow> 's \<Rightarrow> 's"
    and fetch :: "'s \<Rightarrow> string \<Rightarrow> PlanArtifact option"
    and list_for_run :: "'s \<Rightarrow> string \<Rightarrow> PlanArtifact list"
    and ok :: "'s \<Rightarrow> bool"
  assumes put_ok: "ok s \<Longrightarrow> (\<And>b. fetch s (pa_plan_id a) = Some b \<Longrightarrow> pa_run_id b = pa_run_id a) \<Longrightarrow> ok (put a s)"
    and fetch_put: "ok s \<Longrightarrow> fetch (put a s) p = (if p = pa_plan_id a then Some a else fetch s p)"
    and fetch_id: "ok s \<Longrightarrow> fetch s p = Some a \<Longrightarrow> pa_plan_id a = p"
    and listed: "ok s \<Longrightarrow> set (list_for_run s r) = {a. fetch s (pa_plan_id a) = Some a \<and> pa_run_id a = r}"
begin

text \<open>A stored artifact stays in the list of its run until its identifier is written again.\<close>

lemma put_listed:
  assumes "ok s" "\<And>b. fetch s (pa_plan_id a) = Some b \<Longrightarrow> pa_run_id b = pa_run_id a"
  shows "set (list_for_run (put a s) r) = (if pa_run_id a = r then {a} else {}) \<union> {b \<in> set (list_for_run s r). pa_plan_id b \<noteq> pa_plan_id a}"
  using listed [OF put_ok [OF assms]] listed [OF assms(1)] fetch_put [OF assms(1)] by auto

end

definition memory_plans_ok :: "InMemoryPlanArtifactStore \<Rightarrow> bool" where
  "memory_plans_ok s =
     ((\<forall>p a. pm_by_id s p = Some a \<longrightarrow> pa_plan_id a = p \<and> p \<in> set (plan_ids s (pa_run_id a)))
      \<and> (\<forall>r. \<forall>p \<in> set (plan_ids s r). \<exists>a. pm_by_id s p = Some a \<and> pa_run_id a = r))"

lemma memory_put_ids: "plan_ids (memory_put_plan a s) r = plan_ids s r @ (if pm_by_id s (pa_plan_id a) = None \<and> r = pa_run_id a then [pa_plan_id a] else [])"
  by (auto simp: memory_put_plan_def plan_ids_def Let_def)

lemma memory_put_by_id: "pm_by_id (memory_put_plan a s) = (pm_by_id s)(pa_plan_id a \<mapsto> a)"
  by (simp add: memory_put_plan_def Let_def)

lemma in_map_filter: "a \<in> set (List.map_filter f xs) \<longleftrightarrow> (\<exists>x \<in> set xs. f x = Some a)"
  by (induction xs) (auto simp: List.map_filter_def)

interpretation memory_plans: plan_store memory_put_plan memory_get_plan memory_list_plans memory_plans_ok
proof unfold_locales
  fix s :: InMemoryPlanArtifactStore and a :: PlanArtifact and r
  show "memory_plans_ok s \<Longrightarrow> set (memory_list_plans s r) = {a. memory_get_plan s (pa_plan_id a) = Some a \<and> pa_run_id a = r}"
    unfolding memory_plans_ok_def memory_list_plans_def memory_get_plan_def by (auto simp: in_map_filter) (metis option.inject)+
  assume ok: "memory_plans_ok s" and same: "\<And>b. memory_get_plan s (pa_plan_id a) = Some b \<Longrightarrow> pa_run_id b = pa_run_id a"
  show "memory_plans_ok (memory_put_plan a s)"
  proof (cases "pm_by_id s (pa_plan_id a)")
    case None
    with ok show ?thesis unfolding memory_plans_ok_def memory_put_ids memory_put_by_id by (auto, metis option.simps(3))
  next
    case (Some b)
    with same have "pa_run_id b = pa_run_id a" by (simp add: memory_get_plan_def)
    with Some ok show ?thesis unfolding memory_plans_ok_def memory_put_ids memory_put_by_id by (auto, (metis option.inject)+)
  qed
qed (auto simp: memory_get_plan_def memory_put_by_id memory_plans_ok_def)

definition plan_table_ok :: "plan_table \<Rightarrow> bool" where
  "plan_table_ok t = distinct (map pa_plan_id t)"

lemma find_distinct_key: "distinct (map f xs) \<Longrightarrow> List.find (\<lambda>x. f x = k) xs = Some a \<longleftrightarrow> a \<in> set xs \<and> f a = k"
  by (induction xs) auto

lemma find_filter_append: "List.find P (xs @ ys) = (case List.find P xs of Some x \<Rightarrow> Some x | None \<Rightarrow> List.find P ys)"
  by (induction xs) auto

lemma find_filter_other: "List.find (\<lambda>x. f x = k) (filter (\<lambda>x. f x \<noteq> j) xs) = (if k = j then None else List.find (\<lambda>x. f x = k) xs)"
  by (induction xs) auto

interpretation sqlite_plans: plan_store sqlite_put_plan sqlite_get_plan sqlite_list_plans plan_table_ok
proof unfold_locales
  fix t :: plan_table and a p r
  show "sqlite_get_plan (sqlite_put_plan a t) p = (if p = pa_plan_id a then Some a else sqlite_get_plan t p)"
    by (simp add: sqlite_get_plan_def sqlite_put_plan_def find_filter_append find_filter_other split: option.split)
  show "plan_table_ok t \<Longrightarrow> set (sqlite_list_plans t r) = {a. sqlite_get_plan t (pa_plan_id a) = Some a \<and> pa_run_id a = r}"
    by (auto simp: sqlite_list_plans_def sqlite_get_plan_def plan_table_ok_def find_distinct_key)
qed (auto simp: plan_table_ok_def sqlite_put_plan_def sqlite_get_plan_def find_distinct_key distinct_map_filter)

text \<open>An identifier that is written under another run stays listed under the first one by the store in memory.\<close>

lemma memory_plan_keeps_first_run:
  assumes "memory_plans_ok s" "memory_get_plan s (pa_plan_id a) = Some b" "pa_run_id b \<noteq> pa_run_id a"
  shows "a \<in> set (memory_list_plans (memory_put_plan a s) (pa_run_id b))"
proof -
  have "pa_plan_id a \<in> set (plan_ids s (pa_run_id b))" using assms(1,2) by (auto simp: memory_plans_ok_def memory_get_plan_def)
  then show ?thesis by (auto simp: memory_list_plans_def in_map_filter memory_put_ids memory_put_by_id)
qed

end
