(* ===== verification/Resume.thy ===== *)
theory Resume
  imports Run_Journal Plan_Artifacts Approval_Ledger Allowed_Path
begin

text \<open>
  Resuming a paused run (\<open>runtime/single_agent/lifecycle/resume.py\<close>, \<open>pending.py\<close>, \<open>contracts/interrupts.py\<close>): the
  checkpoint a command refers to, the guards against stale and repeated approvals, the consumption of the approval in
  the ledger, the record of an approved plan, and the effect of each action on the run. The stores, the ledger and the
  plan store are any that offer the operations; the validation and serialisation of pydantic models, digests, the
  conversions \<open>str\<close> and \<open>int\<close> of a string, and the construction of the final output are parameters.
\<close>

section \<open>Commands and pending interrupts\<close>

datatype ResumeAction = RA_APPROVE | RA_REJECT | RA_EDIT | RA_CLARIFY | RA_PATCH_STATE | RA_CANCEL | RA_CONTINUE

primrec action_value :: "ResumeAction \<Rightarrow> string" where
  "action_value RA_APPROVE = ''approve''"
| "action_value RA_REJECT = ''reject''"
| "action_value RA_EDIT = ''edit''"
| "action_value RA_CLARIFY = ''clarify''"
| "action_value RA_PATCH_STATE = ''patch_state''"
| "action_value RA_CANCEL = ''cancel''"
| "action_value RA_CONTINUE = ''continue''"

record ResumeCommand =
  rc_interrupt_id :: string
  rc_action :: ResumeAction
  rc_message :: "string option"
  rc_edited_tool_args :: "pydict option"
  rc_state_patch :: "pydict option"
  rc_approved_by :: "string option"
  rc_created_at :: "string option"
  rc_idempotency_key :: "string option"
  rc_expected_checkpoint_id :: "string option"
  rc_expected_revision :: "int option"
  rc_approved_prompts :: "AllowedPrompt list"
  rc_metadata :: pydict

definition present :: "pydict option \<Rightarrow> bool" where
  "present d = (case d of Some (x # xs) \<Rightarrow> True | _ \<Rightarrow> False)"

definition message_text :: "ResumeCommand \<Rightarrow> string" where
  "message_text rc = (case rc_message rc of Some t \<Rightarrow> py_strip t | None \<Rightarrow> [])"

definition validate_action_payload :: "ResumeCommand \<Rightarrow> string + ResumeCommand" where
  "validate_action_payload rc =
     (if rc_action rc = RA_EDIT \<and> \<not> (present (rc_edited_tool_args rc) \<or> present (rc_state_patch rc))
        then Inl ''edit action requires edited_tool_args or state_patch''
      else if rc_action rc = RA_CLARIFY \<and> message_text rc = [] then Inl ''clarify action requires message''
      else if rc_action rc \<in> {RA_APPROVE, RA_REJECT} \<and> present (rc_state_patch rc)
        then Inl ''approve/reject actions cannot mutate state_patch''
      else Inr rc)"

record PendingInterruptState =
  pi_interrupt :: InterruptRequest
  pi_call :: ToolCall
  pi_envelope :: ToolResultEnvelope

definition plan_reason :: string where
  "plan_reason = ''plan_approval_required''"

datatype resume_error =
    Interrupt_Mismatch | Stale_Checkpoint | Stale_Revision | Action_Not_Allowed | Already_Consumed ConsumeStatus
  | Checkpoint_Not_Found | Interrupt_Consumed | No_Pending_Interrupt | Raised string

text \<open>What the runner is built with.\<close>

record ('s, 'l, 'p) resume_env =
  rv_ops :: "'s run_stores"
  rv_graph_id :: string
  rv_default_max_steps :: "int option"
  rv_default_max_tool_calls :: "int option"
  rv_corrective_rejection :: bool
  rv_try_consume :: "('l \<Rightarrow> ApprovalConsumeRequest \<Rightarrow> ConsumeOutcome \<times> 'l) option"
  rv_put_plan :: "(PlanArtifact \<Rightarrow> 'p \<Rightarrow> 'p) option"
  rv_sha1_hex :: "string \<Rightarrow> string"
  rv_content_hash :: "string \<Rightarrow> string"
  rv_str :: "pyval \<Rightarrow> string"
  rv_int_of_string :: "string \<Rightarrow> int option"
  rv_load_pending :: "pydict \<Rightarrow> pydict \<Rightarrow> pydict \<Rightarrow> string + PendingInterruptState"
  rv_dump_pending :: "PendingInterruptState \<Rightarrow> pyval"
  rv_dump_call :: "ToolCall \<Rightarrow> pyval"
  rv_dump_prompt :: "AllowedPrompt \<Rightarrow> pyval"
  rv_dump_output :: "AgentRunOutput \<Rightarrow> pyval"
  rv_check_llm_response :: "pydict \<Rightarrow> string option"
  rv_plan_mode_state :: "string \<Rightarrow> pydict option \<Rightarrow> string + pyval"
  rv_build_output :: "string \<Rightarrow> string \<Rightarrow> JournalContext \<Rightarrow> 's \<Rightarrow> (string + AgentRunOutput) \<times> JournalContext \<times> 's"

record ('s, 'l, 'p) resume_world =
  rw_stores :: 's
  rw_ledger :: 'l
  rw_plans :: 'p

text \<open>\<open>int(x)\<close>, \<open>str(x or y or "").strip()\<close>, \<open>list(x or [])\<close>, \<open>d.pop(key, None)\<close>.\<close>

definition int_of_value :: "('s, 'l, 'p) resume_env \<Rightarrow> pyval \<Rightarrow> string + int" where
  "int_of_value env v =
     (case v of
        PInt i \<Rightarrow> Inr i
      | PBool b \<Rightarrow> Inr (if b then 1 else 0)
      | PStr s \<Rightarrow> (case rv_int_of_string env s of Some i \<Rightarrow> Inr i | None \<Rightarrow> Inl ''ValueError'')
      | _ \<Rightarrow> Inl ''TypeError'')"

definition py_text :: "('s, 'l, 'p) resume_env \<Rightarrow> pyval \<Rightarrow> string" where
  "py_text env v = py_strip (if truthy v then (case v of PStr s \<Rightarrow> s | _ \<Rightarrow> rv_str env v) else [])"

definition py_list :: "pyval \<Rightarrow> string + pyval list" where
  "py_list v =
     (if \<not> truthy v then Inr []
      else case v of
             PList xs \<Rightarrow> Inr xs
           | PStr s \<Rightarrow> Inr (map (\<lambda>c. PStr [c]) s)
           | PDict d \<Rightarrow> Inr (map (\<lambda>(k, w). PStr k) d)
           | _ \<Rightarrow> Inl ''TypeError'')"

definition dict_pop :: "string \<Rightarrow> pydict \<Rightarrow> pydict" where
  "dict_pop k d = filter (\<lambda>p. fst p \<noteq> k) d"

fun dict_sets :: "(string \<times> pyval) list \<Rightarrow> pydict \<Rightarrow> pydict" where
  "dict_sets [] d = d"
| "dict_sets ((k, v) # kvs) d = dict_sets kvs (dict_set k v d)"

section \<open>Pending interrupts in metadata\<close>

definition pending_interrupt_from_metadata :: "('s, 'l, 'p) resume_env \<Rightarrow> pydict \<Rightarrow> string + PendingInterruptState option" where
  "pending_interrupt_from_metadata env metadata =
     (case dict_get metadata ''pending_interrupt'' of
        PDict payload \<Rightarrow>
          (case (dict_get payload ''interrupt'', dict_get payload ''call'', dict_get payload ''envelope'') of
             (PDict i, PDict c, PDict e) \<Rightarrow>
               (case rv_load_pending env i c e of Inl err \<Rightarrow> Inl err | Inr p \<Rightarrow> Inr (Some p))
           | _ \<Rightarrow> Inr None)
      | _ \<Rightarrow> Inr None)"

definition apply_resume_to_call :: "ToolCall \<Rightarrow> ResumeAction \<Rightarrow> pydict option \<Rightarrow> ToolCall" where
  "apply_resume_to_call call action edited =
     (case edited of Some args \<Rightarrow> if action = RA_EDIT then call\<lparr>tc_args := args\<rparr> else call | None \<Rightarrow> call)"

section \<open>Plan approvals\<close>

definition plan_approval_payload :: "PendingInterruptState \<Rightarrow> pydict option" where
  "plan_approval_payload p =
     (if ir_reason (pi_interrupt p) \<noteq> plan_reason then None
      else case dict_get (ir_proposed_action (pi_interrupt p)) ''plan_approval'' of
             PDict d \<Rightarrow> Some d
           | _ \<Rightarrow>
               (case ev_structured_output (pi_envelope p) of
                  Some out \<Rightarrow> (case dict_get out ''plan_approval'' of PDict d \<Rightarrow> Some d | _ \<Rightarrow> None)
                | None \<Rightarrow> None))"

text \<open>The content that is approved: the operator's edit where there is one.\<close>

definition edited_content :: "('s, 'l, 'p) resume_env \<Rightarrow> ResumeCommand \<Rightarrow> string" where
  "edited_content env rc =
     (case rc_edited_tool_args rc of
        Some args \<Rightarrow> if rc_action rc = RA_EDIT \<and> args \<noteq> []
          then py_text env (py_or (dict_get args ''content'') (dict_get args ''plan'')) else []
      | None \<Rightarrow> [])"

definition approved_content :: "('s, 'l, 'p) resume_env \<Rightarrow> pydict \<Rightarrow> ResumeCommand \<Rightarrow> string" where
  "approved_content env payload rc =
     (if edited_content env rc \<noteq> [] then edited_content env rc else py_text env (dict_get payload ''content''))"

definition plan_id_of :: "('s, 'l, 'p) resume_env \<Rightarrow> pydict \<Rightarrow> PendingInterruptState \<Rightarrow> string" where
  "plan_id_of env payload p = py_text env (py_or (dict_get payload ''plan_id'') (dict_get (ir_metadata (pi_interrupt p)) ''plan_id''))"

definition policy_binding :: "ResumeCommand \<Rightarrow> pyval" where
  "policy_binding rc = dict_get (rc_metadata rc) ''plan_policy_binding''"

definition approved_plan_of :: "('s, 'l, 'p) resume_env \<Rightarrow> pydict \<Rightarrow> PendingInterruptState \<Rightarrow> ResumeCommand \<Rightarrow> pydict" where
  "approved_plan_of env payload p rc =
     (let content = approved_content env payload rc;
          content_hash = (if content \<noteq> [] then rv_content_hash env content
            else py_text env (py_or (dict_get payload ''content_hash'') (dict_get (ir_metadata (pi_interrupt p)) ''content_hash'')))
      in [(''plan_id'', PStr (plan_id_of env payload p)), (''content_hash'', PStr content_hash), (''path'', dict_get payload ''path'')]
         @ (if str_truthy (rc_approved_by rc) then [(''approved_by'', PStr (the (rc_approved_by rc)))] else [])
         @ (if policy_binding rc \<noteq> PNone then [(''policy_binding'', policy_binding rc)] else []))"

definition mark_force_planning_approved ::
  "('s, 'l, 'p) resume_env \<Rightarrow> PendingInterruptState \<Rightarrow> ResumeCommand \<Rightarrow> JournalContext \<Rightarrow> JournalContext" where
  "mark_force_planning_approved env p rc ctx =
     (case plan_approval_payload p of
        None \<Rightarrow> ctx
      | Some payload \<Rightarrow>
          (let plan = plan_id_of env payload p;
               approved = approved_plan_of env payload p rc;
               ctx1 = ctx\<lparr>cx_metadata := dict_set ''approved_plan'' (PDict approved) (cx_metadata ctx)\<rparr>;
               policy = an_policy_metadata (cx_run_input ctx);
               force0 = (case dict_get policy ''force_planning'' of PDict d \<Rightarrow> d | _ \<Rightarrow> []);
               force = (if force0 = [] \<and> dict_get policy ''force_planning_enabled'' = PBool True
                          then dict_set ''enabled'' (PBool True) force0 else force0)
           in if force = [] then ctx1
              else (let force1 = dict_set ''approved'' (PBool True) force;
                        force2 = (if plan \<noteq> [] then dict_set ''approved_plan_id'' (PStr plan) force1 else force1);
                        force3 = dict_set ''approved_plan'' (PDict approved) force2
                    in ctx1\<lparr>cx_run_input := (cx_run_input ctx)\<lparr>an_policy_metadata :=
                              dict_set ''force_planning'' (PDict force3) policy\<rparr>\<rparr>)))"

definition plan_lifecycle_payload :: "PendingInterruptState \<Rightarrow> ResumeCommand \<Rightarrow> JournalContext \<Rightarrow> pydict option" where
  "plan_lifecycle_payload p rc ctx =
     (case plan_approval_payload p of
        None \<Rightarrow> None
      | Some payload \<Rightarrow>
          (let approved = (case dict_get (cx_metadata ctx) ''approved_plan'' of PDict d \<Rightarrow> d | _ \<Rightarrow> []);
               im = ir_metadata (pi_interrupt p);
               pick = (\<lambda>k. py_or (dict_get approved k) (py_or (dict_get payload k) (dict_get im k)));
               by_whom = py_or (dict_get approved ''approved_by'') (case rc_approved_by rc of Some s \<Rightarrow> PStr s | None \<Rightarrow> PNone);
               binding = (if dict_get approved ''policy_binding'' \<noteq> PNone then dict_get approved ''policy_binding'' else policy_binding rc)
           in Some ([(''interrupt_id'', PStr (rc_interrupt_id rc)), (''action'', PStr (action_value (rc_action rc))),
                     (''plan_id'', pick ''plan_id''), (''content_hash'', pick ''content_hash''),
                     (''path'', py_or (dict_get approved ''path'') (dict_get payload ''path''))]
                    @ (if truthy by_whom then [(''approved_by'', by_whom)] else [])
                    @ (if binding \<noteq> PNone then [(''policy_binding'', binding)] else []))))"

definition persist_plan_artifact ::
  "('s, 'l, 'p) resume_env \<Rightarrow> string \<Rightarrow> PendingInterruptState \<Rightarrow> ResumeCommand \<Rightarrow> JournalContext \<Rightarrow> bool \<Rightarrow> (PlanArtifact \<Rightarrow> 'p \<Rightarrow> 'p) \<Rightarrow> 'p \<Rightarrow> 'p" where
  "persist_plan_artifact env now p rc ctx approved put plans =
     (case plan_approval_payload p of
        None \<Rightarrow> plans
      | Some payload \<Rightarrow>
          (let plan = plan_id_of env payload p
           in if plan = [] then plans
              else (let path = dict_get payload ''path'';
                        created = create_plan_artifact (rv_content_hash env) now plan (cx_run_id ctx)
                          (case an_agent_id (cx_run_input ctx) of Some a \<Rightarrow> if a = [] then ''agent'' else a | None \<Rightarrow> ''agent'')
                          (approved_content env payload rc) (an_thread_id (cx_run_input ctx))
                          (case path of PNone \<Rightarrow> None | PStr s \<Rightarrow> Some s | _ \<Rightarrow> Some (rv_str env path)) None;
                        awaiting = mark_plan_awaiting_approval now created
                    in put (if approved then approve_plan_artifact now (rc_approved_by rc) awaiting
                            else reject_plan_artifact now (rc_approved_by rc) (rc_message rc) awaiting) plans)))"

text \<open>The revision of a plan is reopened (\<open>runtime/single_agent/planning/state.py\<close>).\<close>

definition begin_plan_refinement ::
  "('s, 'l, 'p) resume_env \<Rightarrow> string \<Rightarrow> pydict option \<Rightarrow> JournalContext \<Rightarrow> string + JournalContext" where
  "begin_plan_refinement env interrupt plan_payload ctx =
     (case rv_plan_mode_state env (cx_run_id ctx) (as_dict (dict_get (cx_metadata ctx) ''planning_state'')) of
        Inl err \<Rightarrow> Inl err
      | Inr planning \<Rightarrow>
          (let payload = (case plan_payload of Some d \<Rightarrow> d | None \<Rightarrow> []);
               inp = cx_run_input ctx;
               names = (\<lambda>ts. case ts of Some xs \<Rightarrow> PList (map PStr xs) | None \<Rightarrow> PNone);
               refinement = PDict [(''interrupt_id'', PStr interrupt), (''plan_id'', dict_get payload ''plan_id''),
                 (''content_hash'', dict_get payload ''content_hash''), (''previous_allowed_tools'', names (an_allowed_tools inp))];
               policy1 = dict_set ''plan_refinement_required'' refinement (an_policy_metadata inp);
               policy2 = (case dict_get policy1 ''force_planning'' of
                            PDict d \<Rightarrow> dict_set ''force_planning'' (PDict (dict_set ''continue_without_plan'' (PBool False) d)) policy1
                          | _ \<Rightarrow> policy1);
               denied = (case an_denied_tools inp of Some xs \<Rightarrow> xs | None \<Rightarrow> []);
               denied1 = (if ''continue_without_plan'' \<in> set denied then denied else denied @ [''continue_without_plan'']);
               md1 = dict_sets [(''planning_state'', planning), (''plan_refinement_required'', refinement),
                                (''plan_refinement_revision_count'', PInt 0)] (cx_metadata ctx);
               md2 = dict_pop ''force_final_answer_reason'' (dict_pop ''tool_choice_override'' (dict_pop ''force_final_answer'' md1));
               md3 = dict_set ''tool_choice_override'' (PDict [(''type'', PStr ''tool''), (''name'', PStr ''exit_plan_mode_v2'')]) md2
           in Inr (ctx\<lparr>cx_metadata := md3,
                       cx_run_input := inp\<lparr>an_policy_metadata := policy2, an_allowed_tools := Some [''exit_plan_mode_v2''],
                                           an_denied_tools := Some denied1\<rparr>\<rparr>)))"

section \<open>The checkpoint of a command\<close>

fun consumed_match :: "ResumeCommand \<Rightarrow> pyval list \<Rightarrow> bool" where
  "consumed_match rc [] = False"
| "consumed_match rc (PDict d # rows) =
     (if dict_get d ''interrupt_id'' = PStr (rc_interrupt_id rc) then True
      else if rc_idempotency_key rc \<noteq> None \<and> dict_get d ''idempotency_key'' = PStr (the (rc_idempotency_key rc)) then True
      else consumed_match rc rows)"
| "consumed_match rc (_ # rows) = consumed_match rc rows"

definition approval_already_consumed :: "pydict \<Rightarrow> ResumeCommand \<Rightarrow> bool" where
  "approval_already_consumed metadata rc =
     (case dict_get metadata ''consumed_approvals'' of PList rows \<Rightarrow> consumed_match rc rows | _ \<Rightarrow> False)"

definition resolve_resume_checkpoint ::
  "('s, 'l, 'p) resume_env \<Rightarrow> AgentRunInput \<Rightarrow> ResumeCommand \<Rightarrow> 's \<Rightarrow> (resume_error + CheckpointRecord) \<times> 's" where
  "resolve_resume_checkpoint env inp rc s =
     (case st_load (rv_ops env) (rc_interrupt_id rc) s of
        (Some row, s1) \<Rightarrow> (Inr row, s1)
      | (None, s1) \<Rightarrow>
          if \<not> str_truthy (an_run_id inp) then (Inl Checkpoint_Not_Found, s1)
          else
            (case st_latest (rv_ops env) (the (an_run_id inp)) s1 of
               (None, s2) \<Rightarrow> (Inl Checkpoint_Not_Found, s2)
             | (Some latest, s2) \<Rightarrow>
                 (case pending_interrupt_from_metadata env (rt_metadata (ck_state latest)) of
                    Inl err \<Rightarrow> (Inl (Raised err), s2)
                  | Inr pending \<Rightarrow>
                      if (case pending of Some p \<Rightarrow> ir_interrupt_id (pi_interrupt p) = rc_interrupt_id rc | None \<Rightarrow> False)
                        then (Inr latest, s2)
                      else if approval_already_consumed (rt_metadata (ck_state latest)) rc then (Inl Interrupt_Consumed, s2)
                      else (Inl Checkpoint_Not_Found, s2))))"

section \<open>The guards\<close>

definition resume_guard :: "ResumeCommand \<Rightarrow> CheckpointRef \<Rightarrow> InterruptRequest \<Rightarrow> resume_error option" where
  "resume_guard rc ref i =
     (if rc_interrupt_id rc \<notin> {ir_interrupt_id i, cr_checkpoint_id ref} then Some Interrupt_Mismatch
      else if rc_expected_checkpoint_id rc \<noteq> None \<and> rc_expected_checkpoint_id rc \<noteq> Some (cr_checkpoint_id ref) then Some Stale_Checkpoint
      else if rc_expected_revision rc \<noteq> None \<and> rc_expected_revision rc \<noteq> Some (cr_revision ref) then Some Stale_Revision
      else if action_value (rc_action rc) \<notin> set (ir_allowed_actions i) then Some Action_Not_Allowed
      else None)"

definition consume_request :: "JournalContext \<Rightarrow> ResumeCommand \<Rightarrow> PendingInterruptState \<Rightarrow> ApprovalConsumeRequest" where
  "consume_request ctx rc p =
     \<lparr>ac_run_id = cx_run_id ctx, ac_interrupt_id = ir_interrupt_id (pi_interrupt p),
      ac_decision = action_value (rc_action rc), ac_idempotency_key = rc_idempotency_key rc\<rparr>"

definition consume_approval ::
  "('s, 'l, 'p) resume_env \<Rightarrow> ApprovalConsumeRequest \<Rightarrow> ('s, 'l, 'p) resume_world \<Rightarrow> resume_error option \<times> ('s, 'l, 'p) resume_world" where
  "consume_approval env req w =
     (case rv_try_consume env of
        None \<Rightarrow> (None, w)
      | Some swap \<Rightarrow>
          (let (oc, l) = swap (rw_ledger w) req
           in (if co_status oc \<noteq> CONSUMED then Some (Already_Consumed (co_status oc)) else None, w\<lparr>rw_ledger := l\<rparr>)))"

section \<open>The actions\<close>

definition resume_emit ::
  "('s, 'l, 'p) resume_env \<Rightarrow> string \<times> string \<Rightarrow> string \<Rightarrow> pydict \<Rightarrow> JournalContext \<Rightarrow> ('s, 'l, 'p) resume_world
     \<Rightarrow> resume_error option \<times> ('s, 'l, 'p) resume_world" where
  "resume_emit env draw event_type payload ctx w =
     (let (r, s) = run_emit (rv_sha1_hex env) (rv_ops env) (fst draw) (snd draw)
            \<lparr>es_run_id = cx_run_id ctx, es_attempt_id = cx_attempt_id ctx, es_event_type = event_type, es_payload = Some payload,
             es_trace_id = None, es_severity = None, es_redaction = None\<rparr> (rw_stores w)
      in ((case r of Inl err \<Rightarrow> Some (Raised err) | Inr e \<Rightarrow> None), w\<lparr>rw_stores := s\<rparr>))"

definition set_terminal_output ::
  "('s, 'l, 'p) resume_env \<Rightarrow> string \<times> string \<Rightarrow> string \<times> string \<Rightarrow> string \<Rightarrow> string \<Rightarrow> JournalContext \<Rightarrow> ('s, 'l, 'p) resume_world
     \<Rightarrow> (resume_error + JournalContext) \<times> ('s, 'l, 'p) resume_world" where
  "set_terminal_output env draw draw' status reason ctx w =
     (let ctx1 = ctx\<lparr>cx_metadata := dict_sets [(''interrupt_payload'', PNone), (''next_step'', PStr ''done'')] (cx_metadata ctx)\<rparr>
      in case rv_build_output env status reason ctx1 (rw_stores w) of
           (Inl err, ctx2, s) \<Rightarrow> (Inl (Raised err), w\<lparr>rw_stores := s\<rparr>)
         | (Inr out, ctx2, s) \<Rightarrow>
             (let ctx3 = ctx2\<lparr>cx_metadata := dict_sets [(''terminal_output'', rv_dump_output env out), (''pending_interrupt'', PNone)] (cx_metadata ctx2)\<rparr>
              in case save_checkpoint (rv_sha1_hex env) (rv_ops env) (rv_graph_id env) draw draw' (Some out) ''resume_terminal'' ctx3 s of
                   (Inl err, ctx4, s1) \<Rightarrow> (Inl (Raised err), w\<lparr>rw_stores := s1\<rparr>)
                 | (Inr ref, ctx4, s1) \<Rightarrow> (Inr ctx4, w\<lparr>rw_stores := s1\<rparr>)))"

text \<open>Emit, then set the terminal output.\<close>

definition end_run ::
  "('s, 'l, 'p) resume_env \<Rightarrow> (nat \<Rightarrow> string \<times> string) \<Rightarrow> string \<Rightarrow> pydict \<Rightarrow> string \<Rightarrow> string \<Rightarrow> JournalContext \<Rightarrow> ('s, 'l, 'p) resume_world
     \<Rightarrow> (resume_error + JournalContext) \<times> ('s, 'l, 'p) resume_world" where
  "end_run env draw event_type payload status reason ctx w =
     (case resume_emit env (draw 2) event_type payload ctx w of
        (Some err, w1) \<Rightarrow> (Inl err, w1)
      | (None, w1) \<Rightarrow> set_terminal_output env (draw 3) (draw 4) status reason ctx w1)"

definition apply_resume_cancel ::
  "('s, 'l, 'p) resume_env \<Rightarrow> (nat \<Rightarrow> string \<times> string) \<Rightarrow> JournalContext \<Rightarrow> ('s, 'l, 'p) resume_world
     \<Rightarrow> (resume_error + JournalContext) \<times> ('s, 'l, 'p) resume_world" where
  "apply_resume_cancel env draw ctx w =
     end_run env draw ''run_cancelled'' [(''reason'', PStr ''cancelled_by_user'')] ''cancelled'' ''cancelled_by_user'' ctx w"

definition apply_resume_reject ::
  "('s, 'l, 'p) resume_env \<Rightarrow> (nat \<Rightarrow> string \<times> string) \<Rightarrow> JournalContext \<Rightarrow> ('s, 'l, 'p) resume_world
     \<Rightarrow> (resume_error + JournalContext) \<times> ('s, 'l, 'p) resume_world" where
  "apply_resume_reject env draw ctx w =
     end_run env draw ''run_failed'' [(''reason'', PStr ''approval_rejected'')] ''failed'' ''approval_rejected'' ctx w"

definition refund_tool_call :: "('s, 'l, 'p) resume_env \<Rightarrow> pydict \<Rightarrow> string + pydict" where
  "refund_tool_call env md =
     (case int_of_value env (dict_get_or md ''tool_calls'' (PInt 0)) of
        Inl err \<Rightarrow> Inl err
      | Inr n \<Rightarrow> Inr (dict_set ''tool_calls'' (PInt (max 0 (n - 1))) md))"

definition apply_corrective_rejection ::
  "('s, 'l, 'p) resume_env \<Rightarrow> PendingInterruptState \<Rightarrow> ResumeCommand \<Rightarrow> JournalContext \<Rightarrow> resume_error + JournalContext" where
  "apply_corrective_rejection env p rc ctx =
     (let md1 = dict_set ''rejection_feedback'' (PDict [(''tool_name'', PStr (tc_tool_name (pi_call p))), (''feedback'', PStr (message_text rc))]) (cx_metadata ctx)
      in case refund_tool_call env md1 of
           Inl err \<Rightarrow> Inl (Raised err)
         | Inr md2 \<Rightarrow>
             (let md3 = dict_sets [(''next_step'', PStr ''llm_call''), (''pending_interrupt'', PNone), (''interrupt_payload'', PNone)] md2
              in Inr (ctx\<lparr>cx_metadata := dict_pop ''force_final_answer_reason'' (dict_pop ''force_final_answer'' (dict_pop ''approved_tool_call'' md3))\<rparr>)))"

text \<open>The call an approval releases.\<close>

definition approved_call :: "PendingInterruptState \<Rightarrow> ResumeCommand \<Rightarrow> ToolCall" where
  "approved_call p rc =
     (let call = apply_resume_to_call (pi_call p) (rc_action rc) (rc_edited_tool_args rc)
      in call\<lparr>tc_metadata := dict_merge (tc_metadata call)
                [(''approved_interrupt_id'', PStr (ir_interrupt_id (pi_interrupt p))), (''resume_action'', PStr (action_value (rc_action rc)))]\<rparr>)"

definition apply_approval ::
  "('s, 'l, 'p) resume_env \<Rightarrow> (nat \<Rightarrow> string \<times> string) \<Rightarrow> PendingInterruptState \<Rightarrow> ResumeCommand \<Rightarrow> JournalContext \<Rightarrow> ('s, 'l, 'p) resume_world
     \<Rightarrow> (resume_error + JournalContext) \<times> ('s, 'l, 'p) resume_world" where
  "apply_approval env draw p rc ctx w =
     (let ctx1 = mark_force_planning_approved env p rc ctx;
          plan_interrupt = (ir_reason (pi_interrupt p) = plan_reason);
          (failed, w1) = (case plan_lifecycle_payload p rc ctx1 of
                            Some payload \<Rightarrow> resume_emit env (draw 1) ''plan_approved'' payload ctx1 w
                          | None \<Rightarrow> (None, w))
      in case failed of
           Some err \<Rightarrow> (Inl err, w1)
         | None \<Rightarrow>
             if plan_interrupt \<and> dict_get (rc_metadata rc) ''plan_execution_handoff'' = PStr ''external''
               then end_run env draw ''run_completed''
                      [(''finish_reason'', PStr ''external_execution_handoff''), (''terminal_reason'', PStr ''external_execution_handoff'')]
                      ''completed'' ''external_execution_handoff'' ctx1 w1
             else if rc_action rc = RA_APPROVE \<and> plan_interrupt
               then (case refund_tool_call env (dict_set ''next_step'' (PStr ''llm_call'') (cx_metadata ctx1)) of
                       Inl err \<Rightarrow> (Inl (Raised err), w1)
                     | Inr md \<Rightarrow>
                         (let md1 = dict_sets [(''pending_interrupt'', PNone), (''interrupt_payload'', PNone)] md
                          in (Inr (ctx1\<lparr>cx_metadata := dict_pop ''approved_tool_call'' (dict_pop ''force_final_answer_reason'' (dict_pop ''force_final_answer'' md1))\<rparr>), w1)))
             else (Inr (ctx1\<lparr>cx_metadata := dict_sets [(''approved_tool_call'', rv_dump_call env (approved_call p rc)), (''next_step'', PStr ''tool_stage''),
                            (''pending_interrupt'', PNone), (''interrupt_payload'', PNone)] (cx_metadata ctx1)\<rparr>), w1))"

definition apply_clarify ::
  "('s, 'l, 'p) resume_env \<Rightarrow> PendingInterruptState \<Rightarrow> ResumeCommand \<Rightarrow> JournalContext \<Rightarrow> resume_error + JournalContext" where
  "apply_clarify env p rc ctx =
     (let md1 = dict_sets [(''next_step'', PStr ''llm_call''), (''pending_interrupt'', PNone)] (cx_metadata ctx);
          md2 = (case rc_message rc of Some t \<Rightarrow> if t \<noteq> [] then dict_set ''clarification'' (PStr t) md1 else md1 | None \<Rightarrow> md1);
          ctx1 = ctx\<lparr>cx_metadata := dict_set ''interrupt_payload'' PNone md2\<rparr>
      in if ir_reason (pi_interrupt p) = plan_reason
           then (case begin_plan_refinement env (ir_interrupt_id (pi_interrupt p)) (plan_approval_payload p) ctx1 of
                   Inl err \<Rightarrow> Inl (Raised err) | Inr ctx2 \<Rightarrow> Inr ctx2)
         else Inr ctx1)"

definition apply_action ::
  "('s, 'l, 'p) resume_env \<Rightarrow> (nat \<Rightarrow> string \<times> string) \<Rightarrow> PendingInterruptState \<Rightarrow> ResumeCommand \<Rightarrow> JournalContext \<Rightarrow> ('s, 'l, 'p) resume_world
     \<Rightarrow> (resume_error + JournalContext) \<times> ('s, 'l, 'p) resume_world" where
  "apply_action env draw p rc ctx w =
     (case rc_action rc of
        RA_CANCEL \<Rightarrow> apply_resume_cancel env draw ctx w
      | RA_REJECT \<Rightarrow>
          if rv_corrective_rejection env \<and> message_text rc \<noteq> [] \<and> ir_reason (pi_interrupt p) \<noteq> plan_reason
            then (apply_corrective_rejection env p rc ctx, w)
          else
            (let (failed, w1) = (case plan_lifecycle_payload p rc ctx of
                                   Some payload \<Rightarrow> resume_emit env (draw 1) ''plan_rejected'' payload ctx w
                                 | None \<Rightarrow> (None, w))
             in case failed of Some err \<Rightarrow> (Inl err, w1) | None \<Rightarrow> apply_resume_reject env draw ctx w1)
      | RA_CONTINUE \<Rightarrow>
          (Inr (ctx\<lparr>cx_metadata := dict_pop ''steering_pause_requested''
                 (dict_sets [(''next_step'', PStr ''llm_call''), (''pending_interrupt'', PNone), (''interrupt_payload'', PNone)] (cx_metadata ctx))\<rparr>), w)
      | RA_APPROVE \<Rightarrow> apply_approval env draw p rc ctx w
      | RA_EDIT \<Rightarrow> apply_approval env draw p rc ctx w
      | RA_CLARIFY \<Rightarrow> (apply_clarify env p rc ctx, w)
      | RA_PATCH_STATE \<Rightarrow> (Inr ctx, w))"

section \<open>The handler\<close>

definition note_consumed :: "ResumeCommand \<Rightarrow> PendingInterruptState \<Rightarrow> pydict \<Rightarrow> string + pydict" where
  "note_consumed rc p md =
     (case py_list (dict_get md ''consumed_approvals'') of
        Inl err \<Rightarrow> Inl err
      | Inr rows \<Rightarrow> Inr (dict_set ''consumed_approvals'' (PList (rows @ [PDict
          [(''interrupt_id'', PStr (ir_interrupt_id (pi_interrupt p))),
           (''idempotency_key'', case rc_idempotency_key rc of Some k \<Rightarrow> PStr k | None \<Rightarrow> PNone)]])) md))"

definition note_resume :: "('s, 'l, 'p) resume_env \<Rightarrow> ResumeCommand \<Rightarrow> PendingInterruptState \<Rightarrow> JournalContext \<Rightarrow> JournalContext" where
  "note_resume env rc p ctx =
     (let ctx1 = ctx\<lparr>cx_metadata := dict_sets [(''resume_action'', PStr (action_value (rc_action rc))), (''pending_interrupt'', rv_dump_pending env p)] (cx_metadata ctx)\<rparr>;
          prompts = PList (map (rv_dump_prompt env) (rc_approved_prompts rc));
          ctx2 = (if rc_approved_prompts rc = [] then ctx1
                  else ctx1\<lparr>cx_metadata := dict_set ''approved_prompts'' prompts (cx_metadata ctx1),
                            cx_run_input := (cx_run_input ctx1)\<lparr>an_app_metadata := dict_set ''approved_prompts'' prompts (an_app_metadata (cx_run_input ctx1))\<rparr>\<rparr>)
      in case rc_message rc of
           Some t \<Rightarrow> if t \<noteq> [] then ctx2\<lparr>cx_metadata := dict_set ''resume_message'' (PStr t) (cx_metadata ctx2)\<rparr> else ctx2
         | None \<Rightarrow> ctx2)"

definition record_plan ::
  "('s, 'l, 'p) resume_env \<Rightarrow> string \<Rightarrow> PendingInterruptState \<Rightarrow> ResumeCommand \<Rightarrow> JournalContext \<Rightarrow> ('s, 'l, 'p) resume_world \<Rightarrow> ('s, 'l, 'p) resume_world" where
  "record_plan env now p rc ctx w =
     (case rv_put_plan env of
        Some put \<Rightarrow>
          if ir_reason (pi_interrupt p) = plan_reason \<and> rc_action rc \<in> {RA_APPROVE, RA_EDIT, RA_REJECT}
            then w\<lparr>rw_plans := persist_plan_artifact env now p rc ctx (rc_action rc \<noteq> RA_REJECT) put (rw_plans w)\<rparr> else w
      | None \<Rightarrow> w)"

definition handle_resume_with_pending ::
  "('s, 'l, 'p) resume_env \<Rightarrow> (nat \<Rightarrow> string \<times> string) \<Rightarrow> CheckpointRecord \<Rightarrow> ResumeCommand \<Rightarrow> PendingInterruptState \<Rightarrow> JournalContext
     \<Rightarrow> ('s, 'l, 'p) resume_world \<Rightarrow> (resume_error + JournalContext) \<times> ('s, 'l, 'p) resume_world" where
  "handle_resume_with_pending env draw row rc p ctx w =
     (case resume_guard rc (ck_ref row) (pi_interrupt p) of
        Some err \<Rightarrow> (Inl err, w)
      | None \<Rightarrow>
          (case consume_approval env (consume_request ctx rc p) w of
             (Some err, w1) \<Rightarrow> (Inl err, w1)
           | (None, w1) \<Rightarrow>
               (case note_consumed rc p (cx_metadata ctx) of
                  Inl err \<Rightarrow> (Inl (Raised err), w1)
                | Inr md \<Rightarrow>
                    (let ctx1 = ctx\<lparr>cx_metadata := md\<rparr>;
                         w2 = record_plan env (snd (draw 5)) p rc ctx1 w1
                     in case resume_emit env (draw 0) ''run_resumed''
                               [(''interrupt_id'', PStr (rc_interrupt_id rc)), (''action'', PStr (action_value (rc_action rc)))] ctx1 w2 of
                          (Some err, w3) \<Rightarrow> (Inl err, w3)
                        | (None, w3) \<Rightarrow> apply_action env draw p rc (note_resume env rc p ctx1) w3))))"

definition resumed_context :: "('s, 'l, 'p) resume_env \<Rightarrow> AgentRunInput \<Rightarrow> CheckpointRecord \<Rightarrow> string + JournalContext" where
  "resumed_context env inp row =
     (let md0 = rt_metadata (ck_state row); epoch = dict_get md0 ''attempt_epoch''
      in case (if truthy epoch then int_of_value env epoch else Inr 0) of
           Inl err \<Rightarrow> Inl err
         | Inr n \<Rightarrow>
             (let md = dict_set ''attempt_epoch'' (PInt (n + 1)) md0
              in case (case dict_get md ''last_llm_response'' of PDict d \<Rightarrow> rv_check_llm_response env d | _ \<Rightarrow> None) of
                   Some err \<Rightarrow> Inl err
                 | None \<Rightarrow> Inr \<lparr>cx_run_input = inp\<lparr>an_run_id := Some (cr_run_id (ck_ref row))\<rparr>, cx_run_id = cr_run_id (ck_ref row),
                     cx_attempt_id = cr_attempt_id (ck_ref row), cx_metadata = md, cx_prior_checkpoint = Some (ck_ref row)\<rparr>))"

definition fresh_run_context :: "('s, 'l, 'p) resume_env \<Rightarrow> (nat \<Rightarrow> string \<times> string) \<Rightarrow> AgentRunInput \<Rightarrow> JournalContext" where
  "fresh_run_context env draw inp =
     (let run = (if str_truthy (an_run_id inp) then the (an_run_id inp) else ''run_'' @ fst (draw 0));
          opt_int = (\<lambda>n. case n of Some i \<Rightarrow> PInt i | None \<Rightarrow> PNone)
      in \<lparr>cx_run_input = inp\<lparr>an_run_id := Some run\<rparr>, cx_run_id = run, cx_attempt_id = ''attempt_'' @ take 8 (fst (draw 1)),
          cx_metadata = dict_merge [(''next_step'', PStr ''run_started''), (''step_count'', PInt 0), (''llm_step_count'', PInt 0), (''tool_calls'', PInt 0),
              (''max_steps'', opt_int (rv_default_max_steps env)), (''max_tool_calls'', opt_int (rv_default_max_tool_calls env))] (an_app_metadata inp),
          cx_prior_checkpoint = None\<rparr>)"

definition init_context ::
  "('s, 'l, 'p) resume_env \<Rightarrow> (nat \<Rightarrow> string \<times> string) \<Rightarrow> AgentRunInput \<Rightarrow> ResumeCommand option \<Rightarrow> ('s, 'l, 'p) resume_world
     \<Rightarrow> (resume_error + JournalContext) \<times> ('s, 'l, 'p) resume_world" where
  "init_context env draw inp resume w =
     (case resume of
        None \<Rightarrow> (Inr (fresh_run_context env draw inp), w)
      | Some rc \<Rightarrow>
          (let (found, s) = resolve_resume_checkpoint env inp rc (rw_stores w); w1 = w\<lparr>rw_stores := s\<rparr>
           in case found of
                Inl err \<Rightarrow> (Inl err, w1)
              | Inr row \<Rightarrow>
                  (case resumed_context env inp row of
                     Inl err \<Rightarrow> (Inl (Raised err), w1)
                   | Inr ctx \<Rightarrow>
                       (case pending_interrupt_from_metadata env (cx_metadata ctx) of
                          Inl err \<Rightarrow> (Inl (Raised err), w1)
                        | Inr None \<Rightarrow> (Inl No_Pending_Interrupt, w1)
                        | Inr (Some p) \<Rightarrow> handle_resume_with_pending env draw row rc p ctx w1))))"

end
