(* ===== verification/Policy_Journal.thy ===== *)
theory Policy_Journal
  imports Resume
begin

text \<open>
  Runtime decisions in the journal (\<open>runtime/single_agent/lifecycle/journal.py\<close>, \<open>contracts/runtime_decisions.py\<close>,
  \<open>runtime/runtime_decisions.py\<close>): the event of one decision, and the decisions a policy profile in observe or warn
  mode adds to the log of a run at its end. The validation of a profile and the evaluation of the policies over the
  log (\<open>runtime/policy.py\<close>) are parameters; what is shown is that every matched evaluation is reported once, whatever
  the evaluations are and however often the log is observed.
\<close>

section \<open>Decisions\<close>

record RuntimeDecision =
  rd_decision_id :: string
  rd_run_id :: string
  rd_attempt_id :: string
  rd_seq :: int
  rd_kind :: string
  rd_trigger :: string
  rd_action :: string
  rd_reason :: string
  rd_status :: string
  rd_goal_id :: "string option"
  rd_policy_id :: "string option"
  rd_budget :: pydict
  rd_affected_tools :: "string list"
  rd_required_evidence :: "string list"
  rd_observed_evidence :: "string list"
  rd_product_tags :: "string list"
  rd_redacted_metadata :: pydict

definition valid_kinds :: "string list" where
  "valid_kinds = [''goal'', ''planning'', ''tool_guardrail'', ''steering'', ''evidence'', ''retry'', ''force_final'', ''approval'',
     ''scope'', ''budget'', ''final_answer'', ''model_route'', ''quality_gate'']"

definition valid_actions :: "string list" where
  "valid_actions = [''continue'', ''retry'', ''force_final'', ''interrupt'', ''block'', ''ask_user'', ''mark_achieved'', ''mark_blocked'',
     ''rollback'', ''warn'', ''revise'', ''select_model_role'', ''escalate'']"

definition valid_statuses :: "string list" where
  "valid_statuses = [''proposed'', ''applied'', ''skipped'', ''satisfied'', ''failed'']"

definition validate_decision :: "RuntimeDecision \<Rightarrow> string + RuntimeDecision" where
  "validate_decision d =
     (if rd_seq d < 1 then Inl ''seq must be >= 1''
      else if rd_kind d \<notin> set valid_kinds then Inl (''unsupported runtime decision kind: '' @ rd_kind d)
      else if rd_action d \<notin> set valid_actions then Inl (''unsupported runtime decision action: '' @ rd_action d)
      else if rd_status d \<notin> set valid_statuses then Inl (''unsupported runtime decision status: '' @ rd_status d)
      else Inr d)"

text \<open>\<open>model_dump\<close> in the order of the fields.\<close>

definition opt_text :: "string option \<Rightarrow> pyval" where
  "opt_text x = (case x of Some s \<Rightarrow> PStr s | None \<Rightarrow> PNone)"

definition texts :: "string list \<Rightarrow> pyval" where
  "texts xs = PList (map PStr xs)"

definition dump_decision :: "RuntimeDecision \<Rightarrow> pydict" where
  "dump_decision d =
     [(''decision_id'', PStr (rd_decision_id d)), (''run_id'', PStr (rd_run_id d)), (''attempt_id'', PStr (rd_attempt_id d)),
      (''seq'', PInt (rd_seq d)), (''kind'', PStr (rd_kind d)), (''trigger'', PStr (rd_trigger d)), (''action'', PStr (rd_action d)),
      (''reason'', PStr (rd_reason d)), (''status'', PStr (rd_status d)), (''goal_id'', opt_text (rd_goal_id d)),
      (''policy_id'', opt_text (rd_policy_id d)), (''budget'', PDict (rd_budget d)), (''affected_tools'', texts (rd_affected_tools d)),
      (''required_evidence'', texts (rd_required_evidence d)), (''observed_evidence'', texts (rd_observed_evidence d)),
      (''product_tags'', texts (rd_product_tags d)), (''redacted_metadata'', PDict (rd_redacted_metadata d))]"

text \<open>The payload, for a decision whose identifier, run, attempt and number are still open.\<close>

definition runtime_decision_payload :: "string \<Rightarrow> string \<Rightarrow> string \<Rightarrow> int \<Rightarrow> RuntimeDecision \<Rightarrow> string + pydict" where
  "runtime_decision_payload hex run attempt n d =
     (case validate_decision (d\<lparr>rd_decision_id := ''dec_'' @ hex, rd_run_id := run, rd_attempt_id := attempt, rd_seq := n\<rparr>) of
        Inl err \<Rightarrow> Inl err | Inr d' \<Rightarrow> Inr (dump_decision d'))"

definition context_spec :: "JournalContext \<Rightarrow> string \<Rightarrow> pydict \<Rightarrow> EventSpec" where
  "context_spec ctx event_type payload =
     \<lparr>es_run_id = cx_run_id ctx, es_attempt_id = cx_attempt_id ctx, es_event_type = event_type, es_payload = Some payload,
      es_trace_id = None, es_severity = None, es_redaction = None\<rparr>"

text \<open>\<open>hex\<close> names the decision, \<open>draw\<close> the event.\<close>

definition emit_runtime_decision ::
  "(string \<Rightarrow> string) \<Rightarrow> 's run_stores \<Rightarrow> string \<Rightarrow> string \<times> string \<Rightarrow> RuntimeDecision \<Rightarrow> JournalContext \<Rightarrow> 's \<Rightarrow> (string + RuntimeEvent) \<times> 's" where
  "emit_runtime_decision sha1_hex ops hex draw d ctx s =
     (let (n, s1) = st_next_seq ops (cx_run_id ctx) s
      in case runtime_decision_payload hex (cx_run_id ctx) (cx_attempt_id ctx) n d of
           Inl err \<Rightarrow> (Inl err, s1)
         | Inr payload \<Rightarrow> run_emit sha1_hex ops (fst draw) (snd draw) (context_spec ctx ''runtime_decision'' payload) s1)"

section \<open>Observing the policies\<close>

record PolicyProfile =
  hpp_profile_id :: string
  hpp_mode :: string
  hpp_rollout_tags :: "string list"
  hpp_other_fields :: pydict

definition policy_profile_from_metadata :: "(pydict \<Rightarrow> string + PolicyProfile) \<Rightarrow> pydict \<Rightarrow> string + PolicyProfile option" where
  "policy_profile_from_metadata load metadata =
     (case py_or (dict_get metadata ''harness_policy_profile'') (dict_get metadata ''policy_profile'') of
        PDict raw \<Rightarrow> (case load raw of Inl err \<Rightarrow> Inl err | Inr p \<Rightarrow> Inr (Some p))
      | _ \<Rightarrow> Inr None)"

definition runtime_decision_taxonomy :: "string \<Rightarrow> string \<Rightarrow> string \<times> string" where
  "runtime_decision_taxonomy policy selected =
     (if policy = ''provider_request_shape_preflight'' then ''retry''
      else if policy = ''tool_loop_no_progress'' then ''tool_guardrail''
      else if policy = ''budget_threshold'' then ''budget''
      else if policy = ''user_steering_interrupt'' then ''steering''
      else ''evidence'',
      case map_of [(''continue'', ''continue''), (''warn'', ''warn''), (''retry'', ''retry''), (''force_final'', ''force_final''),
          (''ask_user'', ''ask_user''), (''interrupt_for_approval'', ''interrupt''), (''block_tool'', ''block''), (''abort'', ''block''),
          (''mark_achieved'', ''mark_achieved''), (''mark_blocked'', ''mark_blocked''), (''fail_fast'', ''block'')] selected of
        Some a \<Rightarrow> a | None \<Rightarrow> ''warn'')"

text \<open>\<open>str(x or fallback)\<close>, and the strings among the items of \<open>x\<close>.\<close>

definition text_else :: "(pyval \<Rightarrow> string) \<Rightarrow> string \<Rightarrow> pyval \<Rightarrow> string" where
  "text_else str fallback v = (if truthy v then (case v of PStr s \<Rightarrow> s | _ \<Rightarrow> str v) else fallback)"

fun string_items :: "pyval \<Rightarrow> string + string list" where
  "string_items (PList xs) = Inr (List.map_filter (\<lambda>x. case x of PStr s \<Rightarrow> Some s | _ \<Rightarrow> None) xs)"
| "string_items (PStr s) = Inr (map (\<lambda>c. [c]) s)"
| "string_items (PDict d) = Inr (map fst d)"
| "string_items _ = Inl ''TypeError''"

definition names_evaluation :: "string \<Rightarrow> RuntimeEvent \<Rightarrow> bool" where
  "names_evaluation eid e = (re_type e = ''runtime_decision'' \<and>
     (case dict_get (re_payload e) ''redacted_metadata'' of PDict md \<Rightarrow> dict_get md ''policy_evaluation_id'' = PStr eid | _ \<Rightarrow> False))"

definition policy_decision_already_emitted :: "'s run_stores \<Rightarrow> string \<Rightarrow> string \<Rightarrow> 's \<Rightarrow> bool \<times> 's" where
  "policy_decision_already_emitted ops run eid s =
     (if eid = [] then (False, s)
      else (let (es, s1) = st_list_for_run ops run None s in (list_ex (names_evaluation eid) es, s1)))"

text \<open>The decision of one evaluation.\<close>

definition evaluation_decision :: "(pyval \<Rightarrow> string) \<Rightarrow> PolicyProfile \<Rightarrow> string \<Rightarrow> pydict \<Rightarrow> string + RuntimeDecision" where
  "evaluation_decision str profile trigger ev =
     (let selected = text_else str ''warn'' (dict_get ev ''selected_action'');
          (kind, action) = runtime_decision_taxonomy (text_else str [] (dict_get ev ''policy_id'')) selected;
          warn = (hpp_mode profile = ''warn'')
      in case string_items (dict_get_or ev ''affected_tools'' (PList [])) of
           Inl err \<Rightarrow> Inl err
         | Inr tools \<Rightarrow>
             (case string_items (dict_get_or ev ''required_evidence'' (PList [])) of
                Inl err \<Rightarrow> Inl err
              | Inr req \<Rightarrow>
                  (case string_items (dict_get_or ev ''observed_evidence'' (PList [])) of
                     Inl err \<Rightarrow> Inl err
                   | Inr obs \<Rightarrow> Inr
                       \<lparr>rd_decision_id = [], rd_run_id = [], rd_attempt_id = [], rd_seq = 0, rd_kind = kind, rd_trigger = trigger,
                        rd_action = (if warn then ''warn'' else action), rd_reason = text_else str ''policy_would_fire'' (dict_get ev ''reason''),
                        rd_status = (if warn then ''applied'' else ''skipped''), rd_goal_id = None,
                        rd_policy_id = Some (text_else str ''harness_policy'' (dict_get ev ''policy_id'')),
                        rd_budget = (case dict_get ev ''budget'' of PDict d \<Rightarrow> d | _ \<Rightarrow> []),
                        rd_affected_tools = tools, rd_required_evidence = req, rd_observed_evidence = obs,
                        rd_product_tags = hpp_rollout_tags profile,
                        rd_redacted_metadata =
                          [(''policy_observe_projection'', PBool True),
                           (''policy_evaluation_id'', PStr (text_else str [] (dict_get ev ''evaluation_id''))),
                           (''policy_profile_id'', PStr (hpp_profile_id profile)), (''policy_mode'', PStr (hpp_mode profile)),
                           (''selected_policy_action'', PStr selected),
                           (''enforcement_skipped_reason'', dict_get ev ''enforcement_skipped_reason'')]\<rparr>)))"

definition warning_payload :: "(pyval \<Rightarrow> string) \<Rightarrow> pydict \<Rightarrow> pydict" where
  "warning_payload str ev =
     [(''source'', PStr ''harness_policy''), (''policy_id'', dict_get ev ''policy_id''),
      (''reason'', PStr (text_else str ''policy_would_fire'' (dict_get ev ''reason''))),
      (''selected_action'', PStr (text_else str ''warn'' (dict_get ev ''selected_action''))),
      (''summary'', PStr ''Policy warning emitted in warn mode; runtime tool/model behavior was not changed.'')]"

text \<open>One turn of the loop; the draws are the decision's identifier, its event and the event of the warning.\<close>

type_synonym policy_draw = "string \<times> (string \<times> string) \<times> string \<times> string"

definition observe_evaluation ::
  "(string \<Rightarrow> string) \<Rightarrow> (pyval \<Rightarrow> string) \<Rightarrow> 's run_stores \<Rightarrow> PolicyProfile \<Rightarrow> string \<Rightarrow> JournalContext \<Rightarrow> policy_draw \<Rightarrow> pyval \<Rightarrow> 's
     \<Rightarrow> string option \<times> 's" where
  "observe_evaluation sha1_hex str ops profile trigger ctx draw v s =
     (case v of
        PDict ev \<Rightarrow>
          if dict_get ev ''status'' \<noteq> PStr ''matched'' then (None, s)
          else
            (let (done, s1) = policy_decision_already_emitted ops (cx_run_id ctx) (text_else str [] (dict_get ev ''evaluation_id'')) s
             in if done then (None, s1)
                else case evaluation_decision str profile trigger ev of
                       Inl err \<Rightarrow> (Some err, s1)
                     | Inr d \<Rightarrow>
                         (case emit_runtime_decision sha1_hex ops (fst draw) (fst (snd draw)) d ctx s1 of
                            (Inl err, s2) \<Rightarrow> (Some err, s2)
                          | (Inr e, s2) \<Rightarrow>
                              if hpp_mode profile = ''warn''
                                then (case run_emit sha1_hex ops (fst (snd (snd draw))) (snd (snd (snd draw)))
                                             (context_spec ctx ''warning'' (warning_payload str ev)) s2 of
                                        (Inl err, s3) \<Rightarrow> (Some err, s3) | (Inr e', s3) \<Rightarrow> (None, s3))
                              else (None, s2)))
      | _ \<Rightarrow> (None, s))"

fun observe_evaluations ::
  "(string \<Rightarrow> string) \<Rightarrow> (pyval \<Rightarrow> string) \<Rightarrow> 's run_stores \<Rightarrow> PolicyProfile \<Rightarrow> string \<Rightarrow> JournalContext \<Rightarrow> (nat \<Rightarrow> policy_draw) \<Rightarrow> nat
     \<Rightarrow> pyval list \<Rightarrow> 's \<Rightarrow> string option \<times> 's" where
  "observe_evaluations sha1_hex str ops profile trigger ctx draw i [] s = (None, s)"
| "observe_evaluations sha1_hex str ops profile trigger ctx draw i (v # vs) s =
     (case observe_evaluation sha1_hex str ops profile trigger ctx (draw i) v s of
        (Some err, s1) \<Rightarrow> (Some err, s1)
      | (None, s1) \<Rightarrow> observe_evaluations sha1_hex str ops profile trigger ctx draw (Suc i) vs s1)"

definition event_dict :: "RuntimeEvent \<Rightarrow> pydict" where
  "event_dict e = [(''event'', PStr (re_type e)), (''run_id'', PStr (re_run_id e)), (''attempt_id'', PStr (re_attempt_id e)),
     (''seq'', PInt (re_seq e)), (''data'', PDict (re_payload e)), (''created_at'', PStr (re_created_at e))]"

text \<open>\<open>load\<close> validates a profile, \<open>evaluate\<close> gives the evaluations of the profile over the events.\<close>

definition emit_observe_policy_decisions ::
  "(string \<Rightarrow> string) \<Rightarrow> (pyval \<Rightarrow> string) \<Rightarrow> (pydict \<Rightarrow> string + PolicyProfile) \<Rightarrow> (pydict list \<Rightarrow> JournalContext \<Rightarrow> PolicyProfile \<Rightarrow> string + pyval list)
     \<Rightarrow> 's run_stores \<Rightarrow> (nat \<Rightarrow> policy_draw) \<Rightarrow> string \<Rightarrow> JournalContext \<Rightarrow> 's \<Rightarrow> string option \<times> 's" where
  "emit_observe_policy_decisions sha1_hex str load evaluate ops draw trigger ctx s =
     (case policy_profile_from_metadata load (an_app_metadata (cx_run_input ctx)) of
        Inl err \<Rightarrow> (Some err, s)
      | Inr None \<Rightarrow> (None, s)
      | Inr (Some profile) \<Rightarrow>
          if hpp_mode profile \<notin> {''observe'', ''warn''} then (None, s)
          else
            (let (es, s1) = st_list_for_run ops (cx_run_id ctx) None s
             in case evaluate (map event_dict es) ctx profile of
                  Inl err \<Rightarrow> (Some err, s1)
                | Inr vs \<Rightarrow> observe_evaluations sha1_hex str ops profile trigger ctx draw 0 vs s1))"

section \<open>Every matched evaluation is reported once\<close>

definition reports :: "string \<Rightarrow> RuntimeEvent list \<Rightarrow> nat" where
  "reports eid es = length (filter (names_evaluation eid) es)"

lemma reports_snoc: "reports eid (es @ [e]) = reports eid es + (if names_evaluation eid e then 1 else 0)"
  by (simp add: reports_def)

lemma reported: "list_ex (names_evaluation eid) es \<longleftrightarrow> 1 \<le> reports eid es"
  unfolding reports_def by (induction es) auto

lemma taxonomy_valid: "fst (runtime_decision_taxonomy p a) \<in> set valid_kinds" "snd (runtime_decision_taxonomy p a) \<in> set valid_actions"
  by (auto simp: runtime_decision_taxonomy_def valid_kinds_def valid_actions_def)

text \<open>The decision of an evaluation passes the validation, and its event names the evaluation.\<close>

definition evaluation_id :: "(pyval \<Rightarrow> string) \<Rightarrow> pydict \<Rightarrow> string" where
  "evaluation_id str ev = text_else str [] (dict_get ev ''evaluation_id'')"

lemma evaluation_decision_fields:
  assumes "evaluation_decision str profile trigger ev = Inr d"
  shows "rd_kind d \<in> set valid_kinds" "rd_action d \<in> set valid_actions" "rd_status d \<in> set valid_statuses"
    "dict_get (rd_redacted_metadata d) ''policy_evaluation_id'' = PStr (evaluation_id str ev)"
proof -
  let ?t = "runtime_decision_taxonomy (text_else str [] (dict_get ev ''policy_id'')) (text_else str ''warn'' (dict_get ev ''selected_action''))"
  obtain k a where t: "?t = (k, a)" by force
  then have v: "k \<in> set valid_kinds" "a \<in> set valid_actions" using taxonomy_valid by (metis fst_conv snd_conv)+
  have d: "rd_kind d = k" "rd_action d = (if hpp_mode profile = ''warn'' then ''warn'' else a)"
    "rd_status d = (if hpp_mode profile = ''warn'' then ''applied'' else ''skipped'')"
    "dict_get (rd_redacted_metadata d) ''policy_evaluation_id'' = PStr (evaluation_id str ev)"
    using assms unfolding evaluation_decision_def Let_def t prod.case evaluation_id_def
    by (auto simp: dict_get_or_def split: sum.splits)
  show "rd_kind d \<in> set valid_kinds" "dict_get (rd_redacted_metadata d) ''policy_evaluation_id'' = PStr (evaluation_id str ev)"
    using d v by simp_all
  show "rd_action d \<in> set valid_actions" using d(2) v by (simp add: valid_actions_def)
  show "rd_status d \<in> set valid_statuses" using d(3) by (simp add: valid_statuses_def)
qed

lemma decision_payload_names:
  assumes "evaluation_decision str profile trigger ev = Inr d" "1 \<le> n"
  shows "\<exists>payload. runtime_decision_payload hex run attempt n d = Inr payload
    \<and> (\<forall>eid now h m. names_evaluation eid (event_of sha1_hex h now (context_spec ctx ''runtime_decision'' payload) m) \<longleftrightarrow> eid = evaluation_id str ev)"
  using evaluation_decision_fields [OF assms(1)] assms(2)
  by (auto simp: runtime_decision_payload_def validate_decision_def dump_decision_def names_evaluation_def event_of_def context_spec_def dict_get_or_def)

text \<open>What a pass over the evaluations does to the log of the run.\<close>

definition observed :: "(pyval \<Rightarrow> string) \<Rightarrow> pyval list \<Rightarrow> string option \<Rightarrow> RuntimeEvent list \<Rightarrow> RuntimeEvent list \<Rightarrow> bool" where
  "observed str vs r es es' = ((\<exists>new. es' = es @ new) \<and> (\<forall>eid. eid \<noteq> [] \<longrightarrow> reports eid es' \<le> max 1 (reports eid es))
     \<and> (r = None \<longrightarrow> (\<forall>ev. PDict ev \<in> set vs \<longrightarrow> dict_get ev ''status'' = PStr ''matched'' \<longrightarrow> evaluation_id str ev \<noteq> [] \<longrightarrow>
          1 \<le> reports (evaluation_id str ev) es')))"

lemma reports_append: "reports eid (es @ es') = reports eid es + reports eid es'"
  by (simp add: reports_def)

lemma observed_trans: "observed str [v] None es es1 \<Longrightarrow> observed str vs r es1 es2 \<Longrightarrow> observed str (v # vs) r es es2"
  unfolding observed_def by (auto simp: reports_append) (metis le_max_iff_disj max_absorb2 reports_append)+

lemma observed_error: "observed str [v] (Some err) es es1 \<Longrightarrow> observed str (v # vs) (Some err) es es1"
  by (simp add: observed_def)

text \<open>The identifiers drawn from position \<open>i\<close> on are new.\<close>

definition event_draw :: "policy_draw \<Rightarrow> string" where
  "event_draw d = ''evt_'' @ fst (fst (snd d))"

definition warning_draw :: "policy_draw \<Rightarrow> string" where
  "warning_draw d = ''evt_'' @ fst (snd (snd d))"

definition fresh_from :: "(nat \<Rightarrow> policy_draw) \<Rightarrow> nat \<Rightarrow> string set \<Rightarrow> bool" where
  "fresh_from draw i known = ((\<forall>j \<ge> i. event_draw (draw j) \<notin> known \<and> warning_draw (draw j) \<notin> known \<and> event_draw (draw j) \<noteq> warning_draw (draw j))
     \<and> (\<forall>j \<ge> i. \<forall>k > j. {event_draw (draw j), warning_draw (draw j)} \<inter> {event_draw (draw k), warning_draw (draw k)} = {}))"

lemma fresh_from_Suc:
  assumes "fresh_from draw i known" "known' \<subseteq> {event_draw (draw i), warning_draw (draw i)} \<union> known"
  shows "fresh_from draw (Suc i) known'"
proof -
  have "event_draw (draw j) \<notin> known' \<and> warning_draw (draw j) \<notin> known'" if "Suc i \<le> j" for j
  proof -
    have "{event_draw (draw i), warning_draw (draw i)} \<inter> {event_draw (draw j), warning_draw (draw j)} = {}"
      "event_draw (draw j) \<notin> known" "warning_draw (draw j) \<notin> known"
      using assms(1) that unfolding fresh_from_def by auto
    then show ?thesis using assms(2) by blast
  qed
  then show ?thesis using assms(1) unfolding fresh_from_def by (auto dest: Suc_leD)
qed

context runtime_store
begin

lemma emit_decision_ok:
  assumes "inv s" "event_draw d \<notin> ids s" "cx_run_id ctx \<in> runs" "evaluation_decision str profile trigger ev = Inr dec"
  shows "\<exists>e s'. emit_runtime_decision sha1_hex ops (fst d) (fst (snd d)) dec ctx s = (Inr e, s') \<and> inv s'
    \<and> events s' = (events s)(cx_run_id ctx := events s (cx_run_id ctx) @ [e]) \<and> ids s' \<subseteq> insert (event_draw d) (ids s)
    \<and> (\<forall>eid. names_evaluation eid e \<longleftrightarrow> eid = evaluation_id str ev)"
proof -
  obtain n s1 where n: "st_next_seq ops (cx_run_id ctx) s = (n, s1)" by force
  have s1: "inv s1" "events s1 = events s" "ids s1 = ids s" "high_seq (events s (cx_run_id ctx)) < n"
    using next_inv next_keeps next_above assms(1) n by (metis fst_conv snd_conv)+
  then have "1 \<le> n" using high_seq_bound [of "events s (cx_run_id ctx)"] by linarith
  from decision_payload_names [OF assms(4) this, of "fst d" "cx_run_id ctx" "cx_attempt_id ctx" sha1_hex ctx] obtain payload
    where p: "runtime_decision_payload (fst d) (cx_run_id ctx) (cx_attempt_id ctx) n dec = Inr payload"
      "\<And>eid now h m. names_evaluation eid (event_of sha1_hex h now (context_spec ctx ''runtime_decision'' payload) m) \<longleftrightarrow> eid = evaluation_id str ev"
    by blast
  let ?spec = "context_spec ctx ''runtime_decision'' payload"
  have "es_run_id ?spec = cx_run_id ctx" by (simp add: context_spec_def)
  then obtain e s' where "run_emit sha1_hex ops (fst (fst (snd d))) (snd (fst (snd d))) ?spec s1 = (Inr e, s')" "inv s'"
    "e = event_of sha1_hex (fst (fst (snd d))) (snd (fst (snd d))) ?spec (fst (st_next_seq ops (cx_run_id ctx) s1))"
    "events s' = (events s1)(cx_run_id ctx := events s1 (cx_run_id ctx) @ [e])" "ids s' \<subseteq> insert (event_draw d) (ids s1)"
    using run_emit_ok [OF s1(1), of "fst (fst (snd d))" ?spec sha1_hex "snd (fst (snd d))"] assms(2,3) s1(3) unfolding event_draw_def by auto
  with p s1 n show ?thesis by (auto simp: emit_runtime_decision_def)
qed

lemma emit_warning_ok:
  assumes "inv s" "warning_draw d \<notin> ids s" "cx_run_id ctx \<in> runs"
  shows "\<exists>e s'. run_emit sha1_hex ops (fst (snd (snd d))) (snd (snd (snd d))) (context_spec ctx ''warning'' payload) s = (Inr e, s') \<and> inv s'
    \<and> events s' = (events s)(cx_run_id ctx := events s (cx_run_id ctx) @ [e]) \<and> ids s' \<subseteq> insert (warning_draw d) (ids s)
    \<and> (\<forall>eid. \<not> names_evaluation eid e)"
  using run_emit_ok [OF assms(1), of "fst (snd (snd d))" "context_spec ctx ''warning'' payload" sha1_hex "snd (snd (snd d))"] assms(2,3)
  by (auto simp: warning_draw_def context_spec_def names_evaluation_def event_of_def)

lemma already_emitted:
  assumes "inv s" "policy_decision_already_emitted ops run eid s = (b, s')"
  shows "inv s'" "events s' = events s" "ids s' = ids s" "b \<longleftrightarrow> eid \<noteq> [] \<and> 1 \<le> reports eid (events s run)"
proof -
  obtain es s1 where l: "st_list_for_run ops run None s = (es, s1)" by force
  then have "es = events s run" "inv s1" "events s1 = events s" "ids s1 = ids s"
    using listed [OF assms(1), of run None] list_inv [OF assms(1), of run None] list_keeps [OF assms(1), of run None] by (auto simp: after_filter_def)
  then show "inv s'" "events s' = events s" "ids s' = ids s" "b \<longleftrightarrow> eid \<noteq> [] \<and> 1 \<le> reports eid (events s run)"
    using assms l by (auto simp: policy_decision_already_emitted_def reported split: if_splits)
qed

text \<open>A new matched evaluation adds its decision, and in warn mode a warning.\<close>

lemma observe_new:
  assumes "inv s" "cx_run_id ctx \<in> runs" "event_draw d \<notin> ids s" "warning_draw d \<notin> ids s" "event_draw d \<noteq> warning_draw d"
    and dec: "evaluation_decision str profile trigger ev = Inr dec" and status: "dict_get ev ''status'' = PStr ''matched''"
    and new: "policy_decision_already_emitted ops (cx_run_id ctx) (evaluation_id str ev) s0 = (False, s)"
  shows "\<exists>s' es. observe_evaluation sha1_hex str ops profile trigger ctx d (PDict ev) s0 = (None, s') \<and> inv s'
    \<and> ids s' \<subseteq> {event_draw d, warning_draw d} \<union> ids s \<and> events s' = (events s)(cx_run_id ctx := events s (cx_run_id ctx) @ es)
    \<and> (\<forall>eid. reports eid (events s (cx_run_id ctx) @ es) = reports eid (events s (cx_run_id ctx)) + (if eid = evaluation_id str ev then 1 else 0))"
proof -
  let ?es = "events s (cx_run_id ctx)"
  from emit_decision_ok [OF assms(1,3,2) dec, of sha1_hex] obtain e s2
    where e: "emit_runtime_decision sha1_hex ops (fst d) (fst (snd d)) dec ctx s = (Inr e, s2)" "inv s2"
      "events s2 = (events s)(cx_run_id ctx := ?es @ [e])" "ids s2 \<subseteq> insert (event_draw d) (ids s)"
      "\<And>eid. names_evaluation eid e \<longleftrightarrow> eid = evaluation_id str ev" by blast
  note run = observe_evaluation_def evaluation_id_def [symmetric] status new dec e(1)
  show ?thesis
  proof (cases "hpp_mode profile = ''warn''")
    case False
    then have "observe_evaluation sha1_hex str ops profile trigger ctx d (PDict ev) s0 = (None, s2)" by (simp add: run)
    moreover have "\<forall>eid. reports eid (?es @ [e]) = reports eid ?es + (if eid = evaluation_id str ev then 1 else 0)" by (simp add: reports_snoc e(5))
    moreover have "ids s2 \<subseteq> {event_draw d, warning_draw d} \<union> ids s" using e(4) by blast
    ultimately show ?thesis using e(2,3) by blast
  next
    case True
    have "warning_draw d \<notin> ids s2" using e(4) assms(4,5) by auto
    from emit_warning_ok [OF e(2) this assms(2), of sha1_hex "warning_payload str ev"] obtain e' s3
      where w: "run_emit sha1_hex ops (fst (snd (snd d))) (snd (snd (snd d))) (context_spec ctx ''warning'' (warning_payload str ev)) s2 = (Inr e', s3)"
        "inv s3" "events s3 = (events s2)(cx_run_id ctx := events s2 (cx_run_id ctx) @ [e'])" "ids s3 \<subseteq> insert (warning_draw d) (ids s2)"
        "\<And>eid. \<not> names_evaluation eid e'" by blast
    have "observe_evaluation sha1_hex str ops profile trigger ctx d (PDict ev) s0 = (None, s3)" using True by (simp add: run w(1))
    moreover have "events s3 = (events s)(cx_run_id ctx := ?es @ [e, e'])" by (simp add: w(3) e(3))
    moreover have "ids s3 \<subseteq> {event_draw d, warning_draw d} \<union> ids s" using e(4) w(4) by blast
    moreover have "\<forall>eid. reports eid (?es @ [e, e']) = reports eid ?es + (if eid = evaluation_id str ev then 1 else 0)"
      using e(5) w(5) by (simp add: reports_def)
    ultimately show ?thesis using w(2) by blast
  qed
qed

lemma observe_evaluation_ok:
  assumes "inv s" "cx_run_id ctx \<in> runs" "event_draw d \<notin> ids s" "warning_draw d \<notin> ids s" "event_draw d \<noteq> warning_draw d"
    and step: "observe_evaluation sha1_hex str ops profile trigger ctx d v s = (r, s')"
  shows "inv s' \<and> ids s' \<subseteq> {event_draw d, warning_draw d} \<union> ids s \<and> observed str [v] r (events s (cx_run_id ctx)) (events s' (cx_run_id ctx))"
proof (cases "\<exists>ev. v = PDict ev \<and> dict_get ev ''status'' = PStr ''matched''")
  case False
  then have "s' = s" using step by (auto simp: observe_evaluation_def split: pyval.splits)
  then show ?thesis using False assms(1) by (auto simp: observed_def)
next
  case True
  then obtain ev where ev: "v = PDict ev" "dict_get ev ''status'' = PStr ''matched''" by blast
  obtain b s1 where b: "policy_decision_already_emitted ops (cx_run_id ctx) (evaluation_id str ev) s = (b, s1)" by force
  note s1 = already_emitted [OF assms(1) b]
  note run = observe_evaluation_def evaluation_id_def [symmetric] ev b
  consider (old) b | (err) e where "\<not> b" "evaluation_decision str profile trigger ev = Inl e"
    | (new) dec where "\<not> b" "evaluation_decision str profile trigger ev = Inr dec" by (cases "evaluation_decision str profile trigger ev") auto
  then show ?thesis
  proof cases
    case old
    then have "s' = s1" using step by (simp add: run)
    then show ?thesis using s1 old ev by (auto simp: observed_def)
  next
    case err
    then have "r = Some e" "s' = s1" using step by (simp_all add: run)
    then show ?thesis using s1 by (auto simp: observed_def)
  next
    case new
    have fresh: "event_draw d \<notin> ids s1" "warning_draw d \<notin> ids s1" using assms(3,4) s1(3) by simp_all
    have "policy_decision_already_emitted ops (cx_run_id ctx) (evaluation_id str ev) s = (False, s1)" using b new(1) by simp
    from observe_new [OF s1(1) assms(2) fresh assms(5) new(2) ev(2) this, of sha1_hex] obtain s2 es
      where o: "observe_evaluation sha1_hex str ops profile trigger ctx d (PDict ev) s = (None, s2)" "inv s2"
        "ids s2 \<subseteq> {event_draw d, warning_draw d} \<union> ids s1" "events s2 = (events s1)(cx_run_id ctx := events s1 (cx_run_id ctx) @ es)"
        "\<And>eid. reports eid (events s1 (cx_run_id ctx) @ es) = reports eid (events s1 (cx_run_id ctx)) + (if eid = evaluation_id str ev then 1 else 0)"
      by blast
    have "r = None" "s' = s2" using step o(1) ev(1) by simp_all
    moreover have "evaluation_id str ev = [] \<or> reports (evaluation_id str ev) (events s (cx_run_id ctx)) = 0" using s1(4) new(1) by auto
    ultimately show ?thesis using o s1 ev(1) by (auto simp: observed_def)
  qed
qed

lemma observe_evaluations_ok:
  assumes "inv s" "cx_run_id ctx \<in> runs" "fresh_from draw i (ids s)"
    and "observe_evaluations sha1_hex str ops profile trigger ctx draw i vs s = (r, s')"
  shows "inv s' \<and> observed str vs r (events s (cx_run_id ctx)) (events s' (cx_run_id ctx))"
  using assms
proof (induction vs arbitrary: i s)
  case Nil
  then show ?case by (simp add: observed_def)
next
  case (Cons v vs)
  obtain r1 s1 where o: "observe_evaluation sha1_hex str ops profile trigger ctx (draw i) v s = (r1, s1)" by force
  have fresh: "event_draw (draw i) \<notin> ids s" "warning_draw (draw i) \<notin> ids s" "event_draw (draw i) \<noteq> warning_draw (draw i)"
    using Cons.prems(3) by (simp_all add: fresh_from_def)
  note one = observe_evaluation_ok [OF Cons.prems(1,2) fresh o]
  show ?case
  proof (cases r1)
    case None
    then have "observe_evaluations sha1_hex str ops profile trigger ctx draw (Suc i) vs s1 = (r, s')" using Cons.prems(4) o by simp
    from Cons.IH [OF _ Cons.prems(2) _ this] show ?thesis
      using one None fresh_from_Suc [OF Cons.prems(3), of "ids s1"] observed_trans by blast
  next
    case (Some err)
    then show ?thesis using one Cons.prems(4) o observed_error by auto
  qed
qed

lemma policy_decisions_ok:
  assumes "inv s" "cx_run_id ctx \<in> runs" "fresh_from draw 0 (ids s)"
    and "policy_profile_from_metadata load (an_app_metadata (cx_run_input ctx)) = Inr (Some profile)" "hpp_mode profile \<in> {''observe'', ''warn''}"
    and "evaluate (map event_dict (events s (cx_run_id ctx))) ctx profile = Inr vs"
    and step: "emit_observe_policy_decisions sha1_hex str load evaluate ops draw trigger ctx s = (r, s')"
  shows "observed str vs r (events s (cx_run_id ctx)) (events s' (cx_run_id ctx))"
proof -
  obtain es s1 where l: "st_list_for_run ops (cx_run_id ctx) None s = (es, s1)" by force
  then have s1: "es = events s (cx_run_id ctx)" "inv s1" "events s1 = events s" "ids s1 = ids s"
    using listed [OF assms(1), of "cx_run_id ctx" None] list_inv [OF assms(1), of "cx_run_id ctx" None]
      list_keeps [OF assms(1), of "cx_run_id ctx" None] by (auto simp: after_filter_def)
  then have "observe_evaluations sha1_hex str ops profile trigger ctx draw 0 vs s1 = (r, s')"
    using step l assms(4-6) by (auto simp: emit_observe_policy_decisions_def)
  then show ?thesis using observe_evaluations_ok [OF s1(2) assms(2), of draw 0] assms(3) s1 by simp
qed

end

text \<open>C30. Policies report a finding once. A pass over the log at the end of a run, in observe or warn mode, only
  appends to the log; no identified evaluation is named by more decisions than before unless it had none, and then by
  one; and when the pass ends without an exception every matched evaluation with an identifier is named. So a
  second pass over the same evaluations reports nothing again. In memory and in SQLite, for any evaluations.\<close>

theorem policy_decisions_once:
  assumes "memory_log_ok (fst m)" "memory_chain_ok (snd m)" "table_ok (fst q)" "table_chain_ok (snd q)"
    and "fresh_from draw 0 (re_event_id ` set (fst q))"
    and "policy_profile_from_metadata load (an_app_metadata (cx_run_input ctx)) = Inr (Some profile)" "hpp_mode profile \<in> {''observe'', ''warn''}"
    and "evaluate (map event_dict (memory_run_events (fst m) (cx_run_id ctx))) ctx profile = Inr vs"
    and "emit_observe_policy_decisions sha1_hex str load evaluate memory_bundle draw trigger ctx m = (r, m')"
    and "evaluate (map event_dict (table_events (fst q) (cx_run_id ctx))) ctx profile = Inr vs'"
    and "emit_observe_policy_decisions sha1_hex str load evaluate sqlite_bundle draw trigger ctx q = (r', q')"
  shows "observed str vs r (memory_run_events (fst m) (cx_run_id ctx)) (memory_run_events (fst m') (cx_run_id ctx))
    \<and> observed str vs' r' (table_events (fst q) (cx_run_id ctx)) (table_events (fst q') (cx_run_id ctx))"
proof
  have "fresh_from draw 0 {}" using assms(5) by (auto simp: fresh_from_def)
  then show "observed str vs r (memory_run_events (fst m) (cx_run_id ctx)) (memory_run_events (fst m') (cx_run_id ctx))"
    using memory_runtime.policy_decisions_ok [OF _ _ _ assms(6,7,8,9)] assms(1,2) by simp
  show "observed str vs' r' (table_events (fst q) (cx_run_id ctx)) (table_events (fst q') (cx_run_id ctx))"
    using sqlite_runtime.policy_decisions_ok [OF _ _ _ assms(6,7,10,11)] assms(3-5) by simp
qed

section \<open>Two equal findings\<close>

definition policy_context :: JournalContext where
  "policy_context = sample_context\<lparr>cx_run_input := (cx_run_input sample_context)\<lparr>an_app_metadata := [(''policy_profile'', PDict [(''mode'', PStr ''warn'')])]\<rparr>\<rparr>"

definition sample_profile :: PolicyProfile where
  "sample_profile = \<lparr>hpp_profile_id = ''p'', hpp_mode = ''warn'', hpp_rollout_tags = [], hpp_other_fields = []\<rparr>"

definition sample_findings :: "pyval list" where
  "sample_findings = (let f = PDict [(''status'', PStr ''matched''), (''evaluation_id'', PStr ''e1''), (''policy_id'', PStr ''budget_threshold''),
     (''selected_action'', PStr ''abort'')] in [f, PInt 3, f])"

definition tally_draw :: "nat \<Rightarrow> policy_draw" where
  "tally_draw i = (''d'', (''a'' @ replicate i CHR ''x'', ''t''), ''b'' @ replicate i CHR ''x'', ''t'')"

abbreviation observe_sample :: "'s run_stores \<Rightarrow> 's \<Rightarrow> string option \<times> 's" where
  "observe_sample ops s \<equiv> emit_observe_policy_decisions (\<lambda>x. x) (\<lambda>v. []) (\<lambda>d. Inr sample_profile) (\<lambda>es ctx p. Inr sample_findings) ops tally_draw
     ''terminal_limit'' policy_context s"

abbreviation observed_memory :: "string option \<times> InMemoryEventLog \<times> InMemoryCheckpointStore" where
  "observed_memory \<equiv> observe_sample memory_bundle (empty_event_log, empty_checkpoints)"

abbreviation observed_sqlite :: "string option \<times> run_events_table \<times> checkpoints_table" where
  "observed_sqlite \<equiv> observe_sample sqlite_bundle ([], [])"

lemma tally_fresh: "fresh_from tally_draw 0 {}"
  by (auto simp: fresh_from_def tally_draw_def event_draw_def warning_draw_def)

theorem policy_decisions_once_witness:
  "reports ''e1'' (memory_run_events (fst (snd observed_memory)) ''r1'') = 1 \<and> fst observed_sqlite = None
   \<and> observed (\<lambda>v. []) sample_findings (fst observed_memory) [] (memory_run_events (fst (snd observed_memory)) (cx_run_id policy_context))
   \<and> observed (\<lambda>v. []) sample_findings (fst observed_sqlite) [] (table_events (fst (snd observed_sqlite)) (cx_run_id policy_context))"
proof -
  have c: "reports ''e1'' (memory_run_events (fst (snd observed_memory)) ''r1'') = 1" by code_simp
  have n: "fst observed_sqlite = None" by code_simp
  have e: "memory_run_events empty_event_log r = []" "table_events [] r = []" for r
    by (simp_all add: memory_run_events_def empty_event_log_def table_events_def)
  have ok: "memory_log_ok empty_event_log" "memory_chain_ok empty_checkpoints" "table_ok []" "table_chain_ok []"
    by (simp_all add: memory_log_ok_def memory_chain_ok_def table_ok_def table_chain_ok_def empty_event_log_def empty_checkpoints_def
      memory_rows_def memory_max_seq_def memory_run_events_def run_rows_def)
  have p: "policy_profile_from_metadata (\<lambda>d. Inr sample_profile) (an_app_metadata (cx_run_input policy_context)) = Inr (Some sample_profile)" by code_simp
  show ?thesis
    using policy_decisions_once [of "(empty_event_log, empty_checkpoints)" "([], [])" tally_draw _ policy_context sample_profile
        "\<lambda>es ctx p. Inr sample_findings" sample_findings "\<lambda>x. x" "\<lambda>v. []" "''terminal_limit''" "fst observed_memory" "snd observed_memory"
        sample_findings "fst observed_sqlite" "snd observed_sqlite", OF _ _ _ _ _ p] c n e ok tally_fresh
    by (simp add: sample_profile_def)
qed

end
