(* ===== verification/Resume_Safety.thy ===== *)
theory Resume_Safety
  imports Resume
begin

text \<open>
  What resuming a run guarantees: an approval releases a tool call at most once whatever the stores hold, only a valid
  and current approval does, a refused command changes nothing, and an approved plan is recorded under the digest of
  the content that was approved.
\<close>

section \<open>What a resumed run rests on\<close>

lemma dict_get_pop [simp]: "dict_get_or (dict_pop k d) k' v = (if k' = k then v else dict_get_or d k' v)"
  by (simp add: dict_pop_def dict_get_or_def map_of_filter_fst)

lemma pending_epoch: "pending_interrupt_from_metadata env (dict_set ''attempt_epoch'' v md) = pending_interrupt_from_metadata env md"
  by (simp add: pending_interrupt_from_metadata_def)

text \<open>The checkpoint and the pending interrupt of an attempt, before any guard.\<close>

definition resume_target ::
  "('s, 'l, 'p) resume_env \<Rightarrow> AgentRunInput \<Rightarrow> ResumeCommand \<Rightarrow> 's \<Rightarrow> (CheckpointRecord \<times> JournalContext \<times> PendingInterruptState) option" where
  "resume_target env inp rc s =
     (case fst (resolve_resume_checkpoint env inp rc s) of
        Inl err \<Rightarrow> None
      | Inr row \<Rightarrow>
          (case resumed_context env inp row of
             Inl err \<Rightarrow> None
           | Inr ctx \<Rightarrow>
               (case pending_interrupt_from_metadata env (cx_metadata ctx) of Inr (Some p) \<Rightarrow> Some (row, ctx, p) | _ \<Rightarrow> None)))"

definition after_resolve :: "('s, 'l, 'p) resume_env \<Rightarrow> AgentRunInput \<Rightarrow> ResumeCommand \<Rightarrow> ('s, 'l, 'p) resume_world \<Rightarrow> ('s, 'l, 'p) resume_world" where
  "after_resolve env inp rc w = w\<lparr>rw_stores := snd (resolve_resume_checkpoint env inp rc (rw_stores w))\<rparr>"

lemma init_context_target:
  "resume_target env inp rc (rw_stores w) = Some (row, ctx, p) \<Longrightarrow>
   init_context env draw inp (Some rc) w = handle_resume_with_pending env draw row rc p ctx (after_resolve env inp rc w)"
  by (auto simp: resume_target_def init_context_def after_resolve_def split_beta Let_def split: sum.splits option.splits)

lemma init_context_no_target:
  "resume_target env inp rc (rw_stores w) = None \<Longrightarrow>
   isl (fst (init_context env draw inp (Some rc) w)) \<and> snd (init_context env draw inp (Some rc) w) = after_resolve env inp rc w"
  by (auto simp: resume_target_def init_context_def after_resolve_def split_beta Let_def split: sum.splits option.splits)

lemma resume_target_metadata:
  assumes "resume_target env inp rc s = Some (row, ctx, p)"
  shows "fst (resolve_resume_checkpoint env inp rc s) = Inr row"
    "pending_interrupt_from_metadata env (rt_metadata (ck_state row)) = Inr (Some p)"
    "cx_run_id ctx = cr_run_id (ck_ref row)"
    "dict_get (cx_metadata ctx) ''approved_tool_call'' = dict_get (rt_metadata (ck_state row)) ''approved_tool_call''"
  using assms
  by (auto simp: resume_target_def resumed_context_def Let_def pending_epoch split: sum.splits option.splits pyval.splits)

text \<open>Once the approval is consumed, neither the ledger nor, beyond the record of the plan, the plan store is
  touched, and only exceptions of other components end the attempt.\<close>

lemma resume_emit_keeps [simp]:
  "rw_ledger (snd (resume_emit env d t pl ctx w)) = rw_ledger w" "rw_plans (snd (resume_emit env d t pl ctx w)) = rw_plans w"
  "fst (resume_emit env d t pl ctx w) = Some err \<Longrightarrow> \<exists>m. err = Raised m"
  by (auto simp: resume_emit_def split_beta Let_def split: sum.splits)

definition late_answer :: "('s, 'l, 'p) resume_world \<Rightarrow> (resume_error + JournalContext) \<times> ('s, 'l, 'p) resume_world \<Rightarrow> bool" where
  "late_answer w a = (rw_ledger (snd a) = rw_ledger w \<and> rw_plans (snd a) = rw_plans w \<and> (case fst a of Inl err \<Rightarrow> \<exists>m. err = Raised m | Inr c \<Rightarrow> True))"

lemma set_terminal_late: "late_answer w (set_terminal_output env d d' st re ctx w)"
  by (auto simp: late_answer_def set_terminal_output_def Let_def split: prod.splits sum.splits)

lemma end_run_late: "late_answer w (end_run env draw t pl st re ctx w)"
proof (cases "resume_emit env (draw 2) t pl ctx w")
  case (Pair r w1)
  then have "rw_ledger w1 = rw_ledger w" "rw_plans w1 = rw_plans w" "r = Some err \<Longrightarrow> \<exists>m. err = Raised m" for err
    using resume_emit_keeps [of env "draw 2" t pl ctx w] by auto
  then show ?thesis using set_terminal_late [of w1 env "draw 3" "draw 4" st re ctx] Pair
    by (auto simp: end_run_def late_answer_def split: option.splits)
qed

text \<open>An optional event before the rest of an action.\<close>

lemma optional_emit_late:
  assumes "(case payload of Some pl \<Rightarrow> resume_emit env d t pl ctx w | None \<Rightarrow> (None, w)) = (failed, w1)"
  shows "rw_ledger w1 = rw_ledger w" "rw_plans w1 = rw_plans w" "failed = Some err \<Longrightarrow> \<exists>m. err = Raised m"
  using assms resume_emit_keeps [of env d t _ ctx w] by (auto split: option.splits) (metis fst_conv snd_conv resume_emit_keeps)+

lemma late_answer_trans: "rw_ledger w1 = rw_ledger w \<Longrightarrow> rw_plans w1 = rw_plans w \<Longrightarrow> late_answer w1 a \<Longrightarrow> late_answer w a"
  by (simp add: late_answer_def)

lemma apply_approval_late: "late_answer w (apply_approval env draw p rc ctx w)"
proof -
  let ?ctx = "mark_force_planning_approved env p rc ctx"
  obtain failed w1 where e: "(case plan_lifecycle_payload p rc ?ctx of Some pl \<Rightarrow> resume_emit env (draw 1) ''plan_approved'' pl ?ctx w | None \<Rightarrow> (None, w)) = (failed, w1)"
    by force
  note k = optional_emit_late [OF e]
  show ?thesis
    using late_answer_trans [OF k(1,2) end_run_late] k
    by (auto simp: apply_approval_def Let_def e late_answer_def split: option.splits sum.splits)
qed

lemma late_answer_same: "late_answer w (Inr c, w)"
  by (simp add: late_answer_def)

lemma apply_clarify_late: "late_answer w (apply_clarify env p rc ctx, w)"
  by (auto simp: late_answer_def apply_clarify_def Let_def split: sum.splits)

lemma apply_action_late: "late_answer w (apply_action env draw p rc ctx w)"
proof (cases "rc_action rc")
  case RA_REJECT
  obtain failed w1 where e: "(case plan_lifecycle_payload p rc ctx of Some pl \<Rightarrow> resume_emit env (draw 1) ''plan_rejected'' pl ctx w | None \<Rightarrow> (None, w)) = (failed, w1)"
    by force
  note k = optional_emit_late [OF e]
  have "late_answer w (apply_resume_reject env draw ctx w1)"
    unfolding apply_resume_reject_def by (rule late_answer_trans [OF k(1,2) end_run_late])
  then show ?thesis using k RA_REJECT
    by (auto simp: apply_action_def e late_answer_def apply_corrective_rejection_def Let_def split: option.splits sum.splits)
qed (simp_all add: apply_action_def apply_approval_late apply_resume_cancel_def end_run_late apply_clarify_late late_answer_same)

section \<open>The handler in two halves\<close>

text \<open>What follows the consumption of the approval.\<close>

definition after_consumption ::
  "('s, 'l, 'p) resume_env \<Rightarrow> (nat \<Rightarrow> string \<times> string) \<Rightarrow> ResumeCommand \<Rightarrow> PendingInterruptState \<Rightarrow> JournalContext \<Rightarrow> ('s, 'l, 'p) resume_world
     \<Rightarrow> (resume_error + JournalContext) \<times> ('s, 'l, 'p) resume_world" where
  "after_consumption env draw rc p ctx w =
     (case note_consumed rc p (cx_metadata ctx) of
        Inl err \<Rightarrow> (Inl (Raised err), w)
      | Inr md \<Rightarrow>
          (let ctx1 = ctx\<lparr>cx_metadata := md\<rparr>; w2 = record_plan env (snd (draw 5)) p rc ctx1 w
           in case resume_emit env (draw 0) ''run_resumed''
                     [(''interrupt_id'', PStr (rc_interrupt_id rc)), (''action'', PStr (action_value (rc_action rc)))] ctx1 w2 of
                (Some err, w3) \<Rightarrow> (Inl err, w3)
              | (None, w3) \<Rightarrow> apply_action env draw p rc (note_resume env rc p ctx1) w3))"

lemma handle_halves:
  "handle_resume_with_pending env draw row rc p ctx w =
     (case resume_guard rc (ck_ref row) (pi_interrupt p) of
        Some err \<Rightarrow> (Inl err, w)
      | None \<Rightarrow>
          (case consume_approval env (consume_request ctx rc p) w of
             (Some err, w1) \<Rightarrow> (Inl err, w1)
           | (None, w1) \<Rightarrow> after_consumption env draw rc p ctx w1))"
  unfolding handle_resume_with_pending_def after_consumption_def by (simp split: option.split prod.split)

lemma record_plan_keeps [simp]:
  "rw_ledger (record_plan env now p rc ctx w) = rw_ledger w" "rw_stores (record_plan env now p rc ctx w) = rw_stores w"
  by (simp_all add: record_plan_def split: option.split)

lemma after_consumption_late:
  "rw_ledger (snd (after_consumption env draw rc p ctx w)) = rw_ledger w
   \<and> (case fst (after_consumption env draw rc p ctx w) of Inl err \<Rightarrow> \<exists>m. err = Raised m | Inr c \<Rightarrow> True)"
proof (cases "note_consumed rc p (cx_metadata ctx)")
  case (Inr md)
  let ?c = "ctx\<lparr>cx_metadata := md\<rparr>"
  let ?w2 = "record_plan env (snd (draw 5)) p rc ?c w"
  let ?pl = "[(''interrupt_id'', PStr (rc_interrupt_id rc)), (''action'', PStr (action_value (rc_action rc)))]"
  obtain r w3 where e: "resume_emit env (draw 0) ''run_resumed'' ?pl ?c ?w2 = (r, w3)" by force
  then have "rw_ledger w3 = rw_ledger w" "r = Some err \<Longrightarrow> \<exists>m. err = Raised m" for err
    using resume_emit_keeps [of env "draw 0" "''run_resumed''" ?pl ?c ?w2] by auto
  then show ?thesis using apply_action_late [of w3 env draw p rc "note_resume env rc p ?c"] Inr e
    by (auto simp: after_consumption_def Let_def late_answer_def split: option.splits)
qed (simp add: after_consumption_def)

section \<open>Exactly once\<close>

lemma sorted_wrt_subseq: "subseq xs ys \<Longrightarrow> sorted_wrt P ys \<Longrightarrow> sorted_wrt P xs"
  by (induction rule: list_emb.induct) (auto dest: list_emb_set)

text \<open>The request that an attempt hands to the ledger; an attempt that is refused before hands over none.\<close>

definition attempt_request ::
  "('s, 'l, 'p) resume_env \<Rightarrow> AgentRunInput \<Rightarrow> ResumeCommand \<Rightarrow> ('s, 'l, 'p) resume_world \<Rightarrow> ApprovalConsumeRequest option" where
  "attempt_request env inp rc w =
     (case resume_target env inp rc (rw_stores w) of
        None \<Rightarrow> None
      | Some (row, ctx, p) \<Rightarrow>
          if resume_guard rc (ck_ref row) (pi_interrupt p) = None then Some (consume_request ctx rc p) else None)"

lemma attempt_refused_early:
  assumes "attempt_request env inp rc w = None"
  shows "isl (fst (init_context env draw inp (Some rc) w))" "snd (init_context env draw inp (Some rc) w) = after_resolve env inp rc w"
proof -
  have "isl (fst (init_context env draw inp (Some rc) w)) \<and> snd (init_context env draw inp (Some rc) w) = after_resolve env inp rc w"
    using assms init_context_no_target [of env inp rc w draw]
    by (cases "resume_target env inp rc (rw_stores w)")
      (auto simp: attempt_request_def init_context_target handle_halves split: if_splits)
  then show "isl (fst (init_context env draw inp (Some rc) w))" "snd (init_context env draw inp (Some rc) w) = after_resolve env inp rc w" by auto
qed

lemma attempt_consumes:
  assumes "attempt_request env inp rc w = Some req" "rv_try_consume env = Some swap"
  shows "rw_ledger (snd (init_context env draw inp (Some rc) w)) = snd (swap (rw_ledger w) req)
    \<and> (\<not> isl (fst (init_context env draw inp (Some rc) w)) \<longrightarrow> is_first (fst (swap (rw_ledger w) req)))"
proof -
  obtain row ctx p where t: "resume_target env inp rc (rw_stores w) = Some (row, ctx, p)"
    and g: "resume_guard rc (ck_ref row) (pi_interrupt p) = None" and req: "req = consume_request ctx rc p"
    using assms(1) by (auto simp: attempt_request_def split: option.splits if_splits)
  let ?w = "after_resolve env inp rc w"
  obtain oc l where swap: "swap (rw_ledger w) req = (oc, l)" by force
  have "rw_ledger ?w = rw_ledger w" by (simp add: after_resolve_def)
  then show ?thesis
    using after_consumption_late [of env draw rc p ctx "?w\<lparr>rw_ledger := l\<rparr>"] swap assms(2)
    by (auto simp: init_context_target [OF t] handle_halves g consume_approval_def req is_first_def)
qed

text \<open>
  What may happen to the stores and the ledger: attempts to resume, anything else that other parts of the program do
  to the stores, and calls of the ledger by other clients.
\<close>

datatype ('s, 'p) resume_event =
    Attempt "nat \<Rightarrow> string \<times> string" AgentRunInput ResumeCommand
  | Elsewhere 's 'p
  | Ledger_Call approval_call

fun resume_step ::
  "('s, 'l, 'p) resume_env \<Rightarrow> ('l \<Rightarrow> approval_call \<Rightarrow> approval_answer \<times> 'l) \<Rightarrow> ('s, 'p) resume_event \<Rightarrow> ('s, 'l, 'p) resume_world \<Rightarrow> ('s, 'l, 'p) resume_world" where
  "resume_step env call (Attempt draw inp rc) w = snd (init_context env draw inp (Some rc) w)"
| "resume_step env call (Elsewhere s p) w = w\<lparr>rw_stores := s, rw_plans := p\<rparr>"
| "resume_step env call (Ledger_Call c) w = w\<lparr>rw_ledger := snd (call (rw_ledger w) c)\<rparr>"

text \<open>The approvals under which attempts were let through, in order, and the calls of the ledger.\<close>

fun driven ::
  "('s, 'l, 'p) resume_env \<Rightarrow> ('l \<Rightarrow> approval_call \<Rightarrow> approval_answer \<times> 'l) \<Rightarrow> ('s, 'p) resume_event list \<Rightarrow> ('s, 'l, 'p) resume_world
     \<Rightarrow> ApprovalConsumeRequest list" where
  "driven env call [] w = []"
| "driven env call (e # es) w =
     (case e of
        Attempt draw inp rc \<Rightarrow>
          (case (fst (init_context env draw inp (Some rc) w), attempt_request env inp rc w) of (Inr c, Some req) \<Rightarrow> [req] | _ \<Rightarrow> [])
      | _ \<Rightarrow> []) @ driven env call es (resume_step env call e w)"

fun ledger_calls ::
  "('s, 'l, 'p) resume_env \<Rightarrow> ('l \<Rightarrow> approval_call \<Rightarrow> approval_answer \<times> 'l) \<Rightarrow> ('s, 'p) resume_event list \<Rightarrow> ('s, 'l, 'p) resume_world
     \<Rightarrow> approval_call list" where
  "ledger_calls env call [] w = []"
| "ledger_calls env call (e # es) w =
     (case e of
        Attempt draw inp rc \<Rightarrow> (case attempt_request env inp rc w of Some req \<Rightarrow> [TryConsume req] | None \<Rightarrow> [])
      | Ledger_Call c \<Rightarrow> [c]
      | _ \<Rightarrow> []) @ ledger_calls env call es (resume_step env call e w)"

context approval_ledger
begin

lemma driven_are_winners:
  assumes "ok (rw_ledger w)" "rv_try_consume env = Some swap" "\<And>l r. call l (TryConsume r) = (Outcome (fst (swap l r)), snd (swap l r))"
  shows "subseq (driven env call es w) (winners call (rw_ledger w) (ledger_calls env call es w))"
  using assms(1)
proof (induction es arbitrary: w)
  case (Cons e es)
  show ?case
  proof (cases e)
    case (Attempt draw inp rc)
    let ?w = "snd (init_context env draw inp (Some rc) w)"
    show ?thesis
    proof (cases "attempt_request env inp rc w")
      case None
      then have "rw_ledger ?w = rw_ledger w" using attempt_refused_early(2) [of env inp rc w draw] by (simp add: after_resolve_def)
      then have "subseq (driven env call es ?w) (winners call (rw_ledger w) (ledger_calls env call es ?w))"
        using Cons.IH [of ?w] Cons.prems by simp
      then show ?thesis using Attempt None by (simp split: sum.split)
    next
      case (Some req)
      have l: "rw_ledger ?w = snd (call (rw_ledger w) (TryConsume req))"
        and f: "\<not> isl (fst (init_context env draw inp (Some rc) w)) \<Longrightarrow> is_first (fst (swap (rw_ledger w) req))"
        using attempt_consumes [OF Some assms(2), of draw] assms(3) by simp_all
      have "subseq (driven env call es ?w) (winners call (rw_ledger ?w) (ledger_calls env call es ?w))"
        using Cons.IH [of ?w] Cons.prems l ok_call by simp
      then show ?thesis using Attempt Some f l assms(3)
        by (cases "fst (init_context env draw inp (Some rc) w)") (auto intro: list_emb_Cons)
    qed
  next
    case (Ledger_Call c)
    have "subseq (driven env call es (resume_step env call e w)) (winners call (snd (call (rw_ledger w) c)) (ledger_calls env call es (resume_step env call e w)))"
      using Cons.IH [of "resume_step env call e w"] Cons.prems ok_call Ledger_Call by simp
    then show ?thesis using Ledger_Call
      by (cases "call (rw_ledger w) c"; cases c) (auto split: approval_answer.splits intro: list_emb_Cons)
  next
    case (Elsewhere s p)
    then show ?thesis using Cons.IH [of "w\<lparr>rw_stores := s, rw_plans := p\<rparr>"] Cons.prems by simp
  qed
qed simp

lemma driven_once:
  assumes "ok (rw_ledger w)" "rv_try_consume env = Some swap" "\<And>l r. call l (TryConsume r) = (Outcome (fst (swap l r)), snd (swap l r))"
  shows "sorted_wrt (\<lambda>r q. \<not> competes r q) (driven env call es w)"
  using sorted_wrt_subseq [OF driven_are_winners [OF assms] winners_do_not_compete [OF assms(1)]] .

end

lemma mem_call_swap: "mem_call l (TryConsume r) = (Outcome (fst (mem_try_consume l r)), snd (mem_try_consume l r))"
  by (simp add: split_beta)

lemma sql_call_swap: "sql_call l (TryConsume r) = (Outcome (fst (sql_try_consume l r)), snd (sql_try_consume l r))"
  by (simp add: split_beta)

lemma mem_ledger_ok_init: "mem_approval_ok mem_approval_init"
  by (simp add: mem_approval_ok_def mem_approval_init_def)

text \<open>C4. An approval drives a run at most once: whatever happens to the checkpoints, the events and the plans between
  attempts, and whoever else uses the ledger, no two attempts to resume that were let through did so for the same
  interrupt of a run or under the same idempotency key, with the ledger in memory and with the SQLite ledger.\<close>

theorem resume_exactly_once:
  assumes "rv_try_consume env = Some mem_try_consume" "rw_ledger w = mem_approval_init"
    and "rv_try_consume env' = Some sql_try_consume" "rw_ledger w' = []"
  shows "sorted_wrt (\<lambda>r q. \<not> competes r q) (driven env mem_call es w)
    \<and> sorted_wrt (\<lambda>r q. \<not> competes r q) (driven env' sql_call es' w')"
proof
  show "sorted_wrt (\<lambda>r q. \<not> competes r q) (driven env mem_call es w)"
    using mem_ledger.driven_once [OF _ assms(1) mem_call_swap, of w es] mem_ledger_ok_init assms(2) by simp
  show "sorted_wrt (\<lambda>r q. \<not> competes r q) (driven env' sql_call es' w')"
    using sql_ledger.driven_once [OF _ assms(3) sql_call_swap, of w' es'] sql_ledger_ok_empty assms(4) by simp
qed

section \<open>Refusals\<close>

text \<open>Reads leave a store as it is.\<close>

definition reads_only :: "'s run_stores \<Rightarrow> bool" where
  "reads_only ops = ((\<forall>c s. snd (st_load ops c s) = s) \<and> (\<forall>r s. snd (st_latest ops r s) = s))"

lemma bundles_read_only: "reads_only memory_bundle" "reads_only sqlite_bundle"
  by (simp_all add: reads_only_def memory_bundle_def sqlite_bundle_def on_checkpoints_def memory_load_def memory_latest_def
      sqlite_load_def sqlite_latest_def)

lemma resolve_reads: "reads_only (rv_ops env) \<Longrightarrow> snd (resolve_resume_checkpoint env inp rc s) = s"
  by (auto simp: resolve_resume_checkpoint_def reads_only_def split: prod.split option.split sum.split) (metis snd_conv)+

lemma mem_lost_keeps: "co_status (fst (mem_try_consume l r)) \<noteq> CONSUMED \<Longrightarrow> snd (mem_try_consume l r) = l"
  by (auto simp: mem_try_consume_def consumed_outcome_def Let_def split: option.splits if_splits)

lemma sql_lost_keeps: "co_status (fst (sql_try_consume l r)) \<noteq> CONSUMED \<Longrightarrow> snd (sql_try_consume l r) = l"
  by (auto simp: sql_try_consume_def sql_insert_or_ignore_def consumed_outcome_def Let_def split: option.splits if_splits)

lemma refused_keeps:
  assumes "reads_only (rv_ops env)" "rv_try_consume env = Some swap" "\<And>l r. co_status (fst (swap l r)) \<noteq> CONSUMED \<Longrightarrow> snd (swap l r) = l"
    "init_context env draw inp (Some rc) w = (Inl err, w')" "\<And>m. err \<noteq> Raised m"
  shows "w' = w"
proof -
  have same: "after_resolve env inp rc w = w" using resolve_reads [OF assms(1)] by (simp add: after_resolve_def)
  show ?thesis
  proof (cases "attempt_request env inp rc w")
    case None
    then show ?thesis using attempt_refused_early(2) [OF None, of draw] assms(4) same by simp
  next
    case (Some req)
    then obtain row ctx p where t: "resume_target env inp rc (rw_stores w) = Some (row, ctx, p)"
      and g: "resume_guard rc (ck_ref row) (pi_interrupt p) = None" and req: "req = consume_request ctx rc p"
      by (auto simp: attempt_request_def split: option.splits if_splits)
    obtain oc l where won: "swap (rw_ledger w) req = (oc, l)" by force
    show ?thesis
    proof (cases "co_status oc = CONSUMED")
      case True
      then show ?thesis using after_consumption_late [of env draw rc p ctx "w\<lparr>rw_ledger := l\<rparr>"] won assms(2,4,5)
        by (auto simp: init_context_target [OF t] handle_halves g consume_approval_def req same)
    next
      case False
      then show ?thesis using assms(2,3,4) won
        by (auto simp: init_context_target [OF t] handle_halves g consume_approval_def req same) (metis fst_conv snd_conv resume_world.surjective resume_world.update_convs(2))
    qed
  qed
qed

text \<open>C10. A refused command leaves no trace: when an attempt to resume fails because no checkpoint or pending interrupt is
  found, the interrupt does not match, the expected checkpoint or revision is stale, the action is not allowed, or the
  approval is already consumed, then neither the checkpoints and events nor the ledger nor the plans have changed, in
  memory and in SQLite. (What is left out are exceptions that another component raises.)\<close>

theorem refused_resume_leaves_no_trace:
  assumes "rv_ops env = memory_bundle" "rv_try_consume env = Some mem_try_consume"
    and "init_context env draw inp (Some rc) w = (Inl err, w1)" "\<forall>m. err \<noteq> Raised m"
    and "rv_ops env' = sqlite_bundle" "rv_try_consume env' = Some sql_try_consume"
    and "init_context env' draw' inp' (Some rc') w' = (Inl err', w1')" "\<forall>m. err' \<noteq> Raised m"
  shows "w1 = w \<and> w1' = w'"
proof
  show "w1 = w" using refused_keeps [OF _ assms(2) mem_lost_keeps assms(3)] bundles_read_only(1) assms(1,4) by simp
  show "w1' = w'" using refused_keeps [OF _ assms(6) sql_lost_keeps assms(7)] bundles_read_only(2) assms(5,8) by simp
qed

section \<open>Released calls\<close>

lemma dict_get_sets_other: "k \<notin> fst ` set kvs \<Longrightarrow> dict_get_or (dict_sets kvs d) k v = dict_get_or d k v"
  by (induction kvs d rule: dict_sets.induct) auto

definition ends_run :: "('s, 'l, 'p) resume_env \<Rightarrow> PendingInterruptState \<Rightarrow> ResumeCommand \<Rightarrow> bool" where
  "ends_run env p rc =
     (case rc_action rc of
        RA_CANCEL \<Rightarrow> True
      | RA_REJECT \<Rightarrow> \<not> (rv_corrective_rejection env \<and> message_text rc \<noteq> [] \<and> ir_reason (pi_interrupt p) \<noteq> plan_reason)
      | RA_APPROVE \<Rightarrow> ir_reason (pi_interrupt p) = plan_reason \<and> dict_get (rc_metadata rc) ''plan_execution_handoff'' = PStr ''external''
      | RA_EDIT \<Rightarrow> ir_reason (pi_interrupt p) = plan_reason \<and> dict_get (rc_metadata rc) ''plan_execution_handoff'' = PStr ''external''
      | _ \<Rightarrow> False)"

definition releases_call :: "PendingInterruptState \<Rightarrow> ResumeCommand \<Rightarrow> bool" where
  "releases_call p rc = (rc_action rc = RA_EDIT \<or> (rc_action rc = RA_APPROVE \<and> ir_reason (pi_interrupt p) \<noteq> plan_reason))"

text \<open>What the metadata of a resumed run say about the call to run.\<close>

definition call_slot :: "JournalContext \<Rightarrow> pyval" where
  "call_slot ctx = dict_get (cx_metadata ctx) ''approved_tool_call''"

lemma call_slot_mark [simp]: "call_slot (mark_force_planning_approved env p rc ctx) = call_slot ctx"
  by (auto simp: mark_force_planning_approved_def call_slot_def Let_def split: option.split)

lemma call_slot_note [simp]: "call_slot (note_resume env rc p ctx) = call_slot ctx"
  by (auto simp: note_resume_def call_slot_def Let_def split: option.split)

lemma note_consumed_slot: "note_consumed rc p md = Inr md' \<Longrightarrow> dict_get md' ''approved_tool_call'' = dict_get md ''approved_tool_call''"
  by (auto simp: note_consumed_def split: sum.splits)

lemma apply_approval_slot:
  assumes "apply_approval env draw p rc ctx w = (Inr ctx', w')" "rc_action rc \<in> {RA_APPROVE, RA_EDIT}" "\<not> ends_run env p rc"
  shows "if releases_call p rc then call_slot ctx' = rv_dump_call env (approved_call p rc) \<and> dict_get (cx_metadata ctx') ''next_step'' = PStr ''tool_stage''
    else call_slot ctx' = PNone"
  using assms
  by (auto simp: apply_approval_def ends_run_def releases_call_def call_slot_def Let_def split: option.splits sum.splits if_splits prod.splits)

lemma begin_plan_refinement_slot: "begin_plan_refinement env i pl ctx = Inr ctx' \<Longrightarrow> call_slot ctx' = call_slot ctx"
  by (auto simp: begin_plan_refinement_def call_slot_def Let_def split: sum.splits)

lemma apply_clarify_slot: "apply_clarify env p rc ctx = Inr ctx' \<Longrightarrow> call_slot ctx' = call_slot ctx"
  using begin_plan_refinement_slot [of env "ir_interrupt_id (pi_interrupt p)" "plan_approval_payload p"]
  by (auto simp: apply_clarify_def call_slot_def Let_def split: sum.splits if_splits option.splits)

lemma apply_action_slot:
  assumes "apply_action env draw p rc ctx w = (Inr ctx', w')" "\<not> ends_run env p rc"
  shows "if releases_call p rc then call_slot ctx' = rv_dump_call env (approved_call p rc) \<and> dict_get (cx_metadata ctx') ''next_step'' = PStr ''tool_stage''
    else call_slot ctx' \<in> {PNone, call_slot ctx}"
proof (cases "rc_action rc")
  case RA_APPROVE
  then show ?thesis using apply_approval_slot [of env draw p rc ctx w ctx' w'] assms by (auto simp: apply_action_def split: if_splits)
next
  case RA_EDIT
  then show ?thesis using apply_approval_slot [of env draw p rc ctx w ctx' w'] assms by (auto simp: apply_action_def releases_call_def)
next
  case RA_CLARIFY
  then show ?thesis using apply_clarify_slot [of env p rc ctx ctx'] assms by (auto simp: apply_action_def releases_call_def)
next
  case RA_REJECT
  then show ?thesis using assms
    by (auto simp: apply_action_def ends_run_def releases_call_def apply_corrective_rejection_def call_slot_def Let_def split: sum.splits)
qed (use assms in \<open>auto simp: apply_action_def ends_run_def releases_call_def call_slot_def\<close>)

lemma after_consumption_slot:
  assumes "after_consumption env draw rc p ctx w = (Inr ctx', w')" "\<not> ends_run env p rc"
  shows "if releases_call p rc then call_slot ctx' = rv_dump_call env (approved_call p rc) \<and> dict_get (cx_metadata ctx') ''next_step'' = PStr ''tool_stage''
    else call_slot ctx' \<in> {PNone, call_slot ctx}"
proof -
  obtain md w3 where md: "note_consumed rc p (cx_metadata ctx) = Inr md"
    and a: "apply_action env draw p rc (note_resume env rc p (ctx\<lparr>cx_metadata := md\<rparr>)) w3 = (Inr ctx', w')"
    using assms(1) by (auto simp: after_consumption_def Let_def split: sum.splits option.splits prod.splits)
  have "call_slot (ctx\<lparr>cx_metadata := md\<rparr>) = call_slot ctx" using note_consumed_slot [OF md] by (simp add: call_slot_def)
  then show ?thesis using apply_action_slot [OF a assms(2)] unfolding call_slot_note by (simp split: if_splits)
qed

lemma init_context_success:
  assumes "init_context env draw inp (Some rc) w = (Inr ctx, w')"
  obtains row ctx0 p w1 where "resume_target env inp rc (rw_stores w) = Some (row, ctx0, p)"
    "resume_guard rc (ck_ref row) (pi_interrupt p) = None"
    "consume_approval env (consume_request ctx0 rc p) (after_resolve env inp rc w) = (None, w1)"
    "after_consumption env draw rc p ctx0 w1 = (Inr ctx, w')"
proof -
  obtain row ctx0 p where t: "resume_target env inp rc (rw_stores w) = Some (row, ctx0, p)"
    using init_context_no_target [of env inp rc w draw] assms by (cases "resume_target env inp rc (rw_stores w)") auto
  with assms show ?thesis by (auto simp: init_context_target handle_halves split: option.splits prod.splits intro: that)
qed

text \<open>C5. Only a valid and current approval releases a tool call: an attempt to resume that is let through refers to a
  checkpoint of the store with a pending interrupt, names that interrupt or that checkpoint, agrees with the expected
  checkpoint and revision where these are given, asks for an action the interrupt allows, and has won the approval in
  the ledger. Unless the command ends the run, the call that the run will execute next is exactly the pending one, with
  the operator's arguments if edited, when the action approves or edits it, and otherwise none but what the checkpoint
  already held.\<close>

theorem resume_releases_only_valid_approval:
  assumes "init_context env draw inp (Some rc) w = (Inr ctx, w')"
  shows "\<exists>row p. fst (resolve_resume_checkpoint env inp rc (rw_stores w)) = Inr row
    \<and> pending_interrupt_from_metadata env (rt_metadata (ck_state row)) = Inr (Some p)
    \<and> rc_interrupt_id rc \<in> {ir_interrupt_id (pi_interrupt p), cr_checkpoint_id (ck_ref row)}
    \<and> rc_expected_checkpoint_id rc \<in> {None, Some (cr_checkpoint_id (ck_ref row))}
    \<and> rc_expected_revision rc \<in> {None, Some (cr_revision (ck_ref row))}
    \<and> action_value (rc_action rc) \<in> set (ir_allowed_actions (pi_interrupt p))
    \<and> (case rv_try_consume env of
          None \<Rightarrow> True
        | Some swap \<Rightarrow> is_first (fst (swap (rw_ledger w)
            \<lparr>ac_run_id = cr_run_id (ck_ref row), ac_interrupt_id = ir_interrupt_id (pi_interrupt p),
             ac_decision = action_value (rc_action rc), ac_idempotency_key = rc_idempotency_key rc\<rparr>)))
    \<and> (ends_run env p rc
        \<or> (if releases_call p rc
           then dict_get (cx_metadata ctx) ''approved_tool_call'' = rv_dump_call env (approved_call p rc)
             \<and> dict_get (cx_metadata ctx) ''next_step'' = PStr ''tool_stage''
           else dict_get (cx_metadata ctx) ''approved_tool_call'' \<in> {PNone, dict_get (rt_metadata (ck_state row)) ''approved_tool_call''}))"
proof -
  obtain row ctx0 p w1 where t: "resume_target env inp rc (rw_stores w) = Some (row, ctx0, p)"
    and g: "resume_guard rc (ck_ref row) (pi_interrupt p) = None"
    and c: "consume_approval env (consume_request ctx0 rc p) (after_resolve env inp rc w) = (None, w1)"
    and a: "after_consumption env draw rc p ctx0 w1 = (Inr ctx, w')"
    using assms by (rule init_context_success)
  note m = resume_target_metadata [OF t]
  have "case rv_try_consume env of None \<Rightarrow> True | Some swap \<Rightarrow> is_first (fst (swap (rw_ledger w)
      \<lparr>ac_run_id = cr_run_id (ck_ref row), ac_interrupt_id = ir_interrupt_id (pi_interrupt p),
       ac_decision = action_value (rc_action rc), ac_idempotency_key = rc_idempotency_key rc\<rparr>))"
    using c m(3) by (auto simp: consume_approval_def after_resolve_def consume_request_def is_first_def split: option.splits prod.splits if_splits)
  moreover have "rc_interrupt_id rc \<in> {ir_interrupt_id (pi_interrupt p), cr_checkpoint_id (ck_ref row)}"
    "rc_expected_checkpoint_id rc \<in> {None, Some (cr_checkpoint_id (ck_ref row))}"
    "rc_expected_revision rc \<in> {None, Some (cr_revision (ck_ref row))}" "action_value (rc_action rc) \<in> set (ir_allowed_actions (pi_interrupt p))"
    using g by (auto simp: resume_guard_def split: if_splits)
  ultimately show ?thesis using m(1,2,4) after_consumption_slot [OF a] unfolding call_slot_def by auto
qed

section \<open>Recorded plans\<close>

lemma after_consumption_plans:
  assumes "after_consumption env draw rc p ctx w = (Inr ctx', w')"
  shows "\<exists>md. rw_plans w' = rw_plans (record_plan env (snd (draw 5)) p rc (ctx\<lparr>cx_metadata := md\<rparr>) w)"
proof -
  obtain md r w3 where md: "note_consumed rc p (cx_metadata ctx) = Inr md"
    and e: "resume_emit env (draw 0) ''run_resumed'' [(''interrupt_id'', PStr (rc_interrupt_id rc)), (''action'', PStr (action_value (rc_action rc)))]
      (ctx\<lparr>cx_metadata := md\<rparr>) (record_plan env (snd (draw 5)) p rc (ctx\<lparr>cx_metadata := md\<rparr>) w) = (r, w3)"
    and a: "apply_action env draw p rc (note_resume env rc p (ctx\<lparr>cx_metadata := md\<rparr>)) w3 = (Inr ctx', w')"
    using assms by (auto simp: after_consumption_def Let_def split: sum.splits option.splits prod.splits)
  have "rw_plans w3 = rw_plans (record_plan env (snd (draw 5)) p rc (ctx\<lparr>cx_metadata := md\<rparr>) w)"
    using resume_emit_keeps(2) e by (metis snd_conv)
  moreover have "rw_plans w' = rw_plans w3"
    using apply_action_late [of w3 env draw p rc "note_resume env rc p (ctx\<lparr>cx_metadata := md\<rparr>)"] a by (simp add: late_answer_def)
  ultimately show ?thesis by auto
qed

text \<open>C23. An approved plan is on record under what was approved: after an approval or an edit of a plan interrupt that is
  let through, the plan store holds under the plan's identifier an approved artifact of this run whose content is the
  operator's edit if there is one and the proposed content otherwise, whose digest is the digest of that content, and the
  digest that is put into the run's metadata is the same.\<close>

theorem approved_plan_recorded:
  assumes "init_context env draw inp (Some rc) w = (Inr ctx, w')" "rv_put_plan env = Some memory_put_plan"
    and "fst (resolve_resume_checkpoint env inp rc (rw_stores w)) = Inr row"
    and "pending_interrupt_from_metadata env (rt_metadata (ck_state row)) = Inr (Some p)"
    and "plan_approval_payload p = Some payload" "plan_id_of env payload p \<noteq> []" "rc_action rc \<in> {RA_APPROVE, RA_EDIT}"
  shows "\<exists>a. memory_get_plan (rw_plans w') (plan_id_of env payload p) = Some a \<and> pa_status a = PM_APPROVED
    \<and> pa_run_id a = cr_run_id (ck_ref row) \<and> pa_approved_by a = rc_approved_by rc
    \<and> pa_content a = (if edited_content env rc \<noteq> [] then edited_content env rc else py_text env (dict_get payload ''content''))
    \<and> artifact_ok (rv_content_hash env) a
    \<and> dict_get (approved_plan_of env payload p rc) ''content_hash'' \<in>
        (if pa_content a = [] then UNIV else {PStr (pa_content_hash a)})"
proof -
  obtain row' ctx0 p' w1 where t: "resume_target env inp rc (rw_stores w) = Some (row', ctx0, p')"
    and a: "after_consumption env draw rc p' ctx0 w1 = (Inr ctx, w')"
    using assms(1) by (rule init_context_success)
  have same: "row' = row" "p' = p" "cx_run_id ctx0 = cr_run_id (ck_ref row)"
    using resume_target_metadata [OF t] assms(3,4) by auto
  obtain md where plans: "rw_plans w' = rw_plans (record_plan env (snd (draw 5)) p rc (ctx0\<lparr>cx_metadata := md\<rparr>) w1)"
    using after_consumption_plans [OF a] same by auto
  define made where "made = approve_plan_artifact (snd (draw 5)) (rc_approved_by rc) (mark_plan_awaiting_approval (snd (draw 5))
    (create_plan_artifact (rv_content_hash env) (snd (draw 5)) (plan_id_of env payload p) (cr_run_id (ck_ref row))
      (case an_agent_id (cx_run_input ctx0) of Some x \<Rightarrow> if x = [] then ''agent'' else x | None \<Rightarrow> ''agent'')
      (approved_content env payload rc) (an_thread_id (cx_run_input ctx0))
      (case dict_get payload ''path'' of PNone \<Rightarrow> None | PStr s \<Rightarrow> Some s | v \<Rightarrow> Some (rv_str env v)) None))"
  have "ir_reason (pi_interrupt p) = plan_reason" using assms(5) by (simp add: plan_approval_payload_def split: if_splits)
  then have "rw_plans w' = memory_put_plan made (rw_plans w1)"
    using assms(2,5,6,7) same(3) unfolding plans record_plan_def persist_plan_artifact_def made_def
    by (auto simp: Let_def split: pyval.split)
  moreover have "pa_plan_id made = plan_id_of env payload p" by (simp add: made_def artifact_simps)
  moreover have "pa_status made = PM_APPROVED" "pa_run_id made = cr_run_id (ck_ref row)" "pa_approved_by made = rc_approved_by rc"
    "pa_content made = approved_content env payload rc" "pa_content_hash made = rv_content_hash env (approved_content env payload rc)"
    by (simp_all add: made_def artifact_simps)
  moreover have "artifact_ok (rv_content_hash env) made" unfolding made_def
    by (intro artifact_ops_ok) (simp add: artifact_simps)
  ultimately show ?thesis
    by (auto simp: memory_get_plan_def memory_put_by_id approved_content_def approved_plan_of_def Let_def dict_get_or_def)
qed

section \<open>A paused run\<close>

text \<open>A run that waits for the approval of a shell command, checkpointed in SQLite.\<close>

definition paused_call :: ToolCall where
  "paused_call = \<lparr>tc_tool_name = ''bash'', tc_args = [(''command'', PStr ''ls'')], tc_tool_call_id = Some ''call_1'', tc_metadata = []\<rparr>"

definition sample_interrupt :: "string \<Rightarrow> pydict \<Rightarrow> InterruptRequest" where
  "sample_interrupt reason proposed = \<lparr>ir_interrupt_id = ''int_1'', ir_run_id = ''r1'', ir_attempt_id = ''attempt_1'', ir_checkpoint_id = [],
     ir_reason = reason, ir_title = [], ir_description = [], ir_risk = None, ir_proposed_action = proposed,
     ir_allowed_actions = [''approve'', ''reject'', ''edit''], ir_editable_fields = [], ir_proposed_prompts = [], ir_metadata = []\<rparr>"

definition sample_pending :: "string \<Rightarrow> pydict \<Rightarrow> PendingInterruptState" where
  "sample_pending reason proposed = \<lparr>pi_interrupt = sample_interrupt reason proposed, pi_call = paused_call,
     pi_envelope = \<lparr>ev_call = paused_call, ev_decision = TD_INTERRUPT, ev_guardrail_decision = GD_ALLOW, ev_summary = None,
       ev_structured_output = None, ev_truncated = False, ev_error = None, ev_interrupt = None, ev_metadata = []\<rparr>\<rparr>"

definition sample_env ::
  "PendingInterruptState \<Rightarrow> 's run_stores \<Rightarrow> ('l \<Rightarrow> ApprovalConsumeRequest \<Rightarrow> ConsumeOutcome \<times> 'l) option \<Rightarrow> ('s, 'l, InMemoryPlanArtifactStore) resume_env" where
  "sample_env p ops swap = \<lparr>rv_ops = ops, rv_graph_id = ''graph'', rv_default_max_steps = None, rv_default_max_tool_calls = None,
     rv_corrective_rejection = False, rv_try_consume = swap, rv_put_plan = Some memory_put_plan,
     rv_sha1_hex = (\<lambda>s. s), rv_content_hash = (\<lambda>s. ''sha:'' @ s), rv_str = (\<lambda>v. []), rv_int_of_string = (\<lambda>s. None),
     rv_load_pending = (\<lambda>i c e. Inr p), rv_dump_pending = (\<lambda>q. PNone), rv_dump_call = (\<lambda>c. PDict (tc_args c)),
     rv_dump_prompt = (\<lambda>q. PNone), rv_dump_output = (\<lambda>o1. PNone), rv_check_llm_response = (\<lambda>d. None),
     rv_plan_mode_state = (\<lambda>r d. Inr PNone), rv_build_output = (\<lambda>a b c s. (Inl ''not built'', c, s))\<rparr>"

definition paused_metadata :: pydict where
  "paused_metadata = [(''next_step'', PStr ''interrupt''),
     (''pending_interrupt'', PDict [(''interrupt'', PDict []), (''call'', PDict []), (''envelope'', PDict [])])]"

definition paused_context :: JournalContext where
  "paused_context = sample_context\<lparr>cx_metadata := paused_metadata\<rparr>"

definition paused_sqlite :: "run_events_table \<times> checkpoints_table" where
  "paused_sqlite = ([], snd (sqlite_save ''k'' ''t0'' ''graph'' (Some ''tools'') (context_state paused_context None []) []))"

definition paused_memory :: "InMemoryEventLog \<times> InMemoryCheckpointStore" where
  "paused_memory = (empty_event_log, snd (memory_save ''k'' ''t0'' ''graph'' (Some ''tools'') (context_state paused_context None []) empty_checkpoints))"

definition sample_command :: "string \<Rightarrow> ResumeAction \<Rightarrow> ResumeCommand" where
  "sample_command token action = \<lparr>rc_interrupt_id = token, rc_action = action, rc_message = None, rc_edited_tool_args = None,
     rc_state_patch = None, rc_approved_by = Some ''op'', rc_created_at = None, rc_idempotency_key = Some ''key'', rc_expected_checkpoint_id = None,
     rc_expected_revision = Some 0, rc_approved_prompts = [], rc_metadata = []\<rparr>"

definition sample_draw :: "nat \<Rightarrow> string \<times> string" where
  "sample_draw n = (nat_str n, ''t'' @ nat_str n)"

definition sample_world :: "'s \<Rightarrow> 'l \<Rightarrow> ('s, 'l, InMemoryPlanArtifactStore) resume_world" where
  "sample_world s l = \<lparr>rw_stores = s, rw_ledger = l, rw_plans = empty_plans\<rparr>"

abbreviation tool_pending :: PendingInterruptState where
  "tool_pending \<equiv> sample_pending ''approval_required'' []"

abbreviation sqlite_env ::
  "PendingInterruptState \<Rightarrow> (run_events_table \<times> checkpoints_table, SqliteApprovalConsumptionStore, InMemoryPlanArtifactStore) resume_env" where
  "sqlite_env p \<equiv> sample_env p sqlite_bundle (Some sql_try_consume)"

abbreviation sqlite_attempt ::
  "PendingInterruptState \<Rightarrow> ResumeCommand \<Rightarrow> (resume_error + JournalContext) \<times>
     (run_events_table \<times> checkpoints_table, SqliteApprovalConsumptionStore, InMemoryPlanArtifactStore) resume_world" where
  "sqlite_attempt p rc \<equiv> init_context (sqlite_env p) sample_draw (cx_run_input sample_context)
     (Some rc) (sample_world paused_sqlite [])"

abbreviation memory_attempt ::
  "PendingInterruptState \<Rightarrow> ResumeCommand \<Rightarrow> (resume_error + JournalContext) \<times>
     (InMemoryEventLog \<times> InMemoryCheckpointStore, InMemoryApprovalConsumptionStore, InMemoryPlanArtifactStore) resume_world" where
  "memory_attempt p rc \<equiv> init_context (sample_env p memory_bundle (Some mem_try_consume)) sample_draw (cx_run_input sample_context)
     (Some rc) (sample_world paused_memory mem_approval_init)"

text \<open>The command by checkpoint, the store put back as it was, and the command again by interrupt: the second attempt
  is refused.\<close>

theorem resume_exactly_once_witness:
  "sorted_wrt (\<lambda>r q. \<not> competes r q) (driven (sample_env tool_pending sqlite_bundle (Some sql_try_consume)) sql_call
     [Attempt sample_draw (cx_run_input sample_context) (sample_command ''chk_k'' RA_APPROVE), Elsewhere paused_sqlite empty_plans,
      Attempt sample_draw (cx_run_input sample_context) (sample_command ''int_1'' RA_APPROVE)] (sample_world paused_sqlite []))
   \<and> length (driven (sample_env tool_pending sqlite_bundle (Some sql_try_consume)) sql_call
     [Attempt sample_draw (cx_run_input sample_context) (sample_command ''chk_k'' RA_APPROVE), Elsewhere paused_sqlite empty_plans,
      Attempt sample_draw (cx_run_input sample_context) (sample_command ''int_1'' RA_APPROVE)] (sample_world paused_sqlite [])) = 1"
  (is "sorted_wrt _ (driven ?env sql_call ?es ?w) \<and> _")
proof
  show "sorted_wrt (\<lambda>r q. \<not> competes r q) (driven ?env sql_call ?es ?w)"
    using resume_exactly_once [of "sample_env tool_pending memory_bundle (Some mem_try_consume)" "sample_world paused_memory mem_approval_init" ?env ?w "[]" ?es]
    by (simp add: sample_env_def sample_world_def)
  show "length (driven ?env sql_call ?es ?w) = 1" by code_simp
qed

theorem resume_releases_only_valid_approval_witness:
  "dict_get (cx_metadata (projr (fst (sqlite_attempt tool_pending (sample_command ''chk_k'' RA_APPROVE))))) ''approved_tool_call'' = PDict [(''command'', PStr ''ls'')]
   \<and> (\<exists>row (p :: PendingInterruptState). fst (resolve_resume_checkpoint (sqlite_env tool_pending) (cx_run_input sample_context)
          (sample_command ''chk_k'' RA_APPROVE) paused_sqlite) = Inr row
        \<and> ''chk_k'' \<in> {ir_interrupt_id (pi_interrupt p), cr_checkpoint_id (ck_ref row)} \<and> ''approve'' \<in> set (ir_allowed_actions (pi_interrupt p)))"
proof
  let ?a = "sqlite_attempt tool_pending (sample_command ''chk_k'' RA_APPROVE)"
  show "dict_get (cx_metadata (projr (fst ?a))) ''approved_tool_call'' = PDict [(''command'', PStr ''ls'')]" by code_simp
  have "\<not> isl (fst ?a)" by code_simp
  then have "?a = (Inr (projr (fst ?a)), snd ?a)" by (metis sum.collapse(2) prod.collapse)
  note h = resume_releases_only_valid_approval [OF this]
  have s: "rw_stores (sample_world paused_sqlite ([] :: SqliteApprovalConsumptionStore)) = paused_sqlite" by (simp add: sample_world_def)
  have c: "rc_interrupt_id (sample_command ''chk_k'' RA_APPROVE) = ''chk_k''" "action_value (rc_action (sample_command ''chk_k'' RA_APPROVE)) = ''approve''"
    by (simp_all add: sample_command_def)
  show "\<exists>row (p :: PendingInterruptState). fst (resolve_resume_checkpoint (sqlite_env tool_pending) (cx_run_input sample_context)
          (sample_command ''chk_k'' RA_APPROVE) paused_sqlite) = Inr row
        \<and> ''chk_k'' \<in> {ir_interrupt_id (pi_interrupt p), cr_checkpoint_id (ck_ref row)} \<and> ''approve'' \<in> set (ir_allowed_actions (pi_interrupt p))"
    using h unfolding s c by (elim exE conjE) (rule exI, rule exI, intro conjI; assumption)
qed

definition stale_command :: ResumeCommand where
  "stale_command = (sample_command ''int_1'' RA_APPROVE)\<lparr>rc_expected_revision := Some 7\<rparr>"

theorem refused_resume_leaves_no_trace_witness:
  "fst (sqlite_attempt tool_pending stale_command) = Inl Stale_Revision
   \<and> snd (sqlite_attempt tool_pending stale_command) = sample_world paused_sqlite []
   \<and> snd (memory_attempt tool_pending stale_command) = sample_world paused_memory mem_approval_init"
proof -
  have s: "fst (sqlite_attempt tool_pending stale_command) = Inl Stale_Revision" by code_simp
  have "isl (fst (memory_attempt tool_pending stale_command))" "projl (fst (memory_attempt tool_pending stale_command)) = Stale_Revision" by code_simp+
  then have m: "fst (memory_attempt tool_pending stale_command) = Inl Stale_Revision" by (metis sum.collapse(1))
  show ?thesis
    using refused_resume_leaves_no_trace [of "sample_env tool_pending memory_bundle (Some mem_try_consume)" sample_draw "cx_run_input sample_context" stale_command
        "sample_world paused_memory mem_approval_init" Stale_Revision "snd (memory_attempt tool_pending stale_command)"
        "sample_env tool_pending sqlite_bundle (Some sql_try_consume)" sample_draw "cx_run_input sample_context" stale_command
        "sample_world paused_sqlite []" Stale_Revision "snd (sqlite_attempt tool_pending stale_command)"] s m
    by (simp add: sample_env_def prod_eq_iff)
qed

abbreviation plan_pending :: PendingInterruptState where
  "plan_pending \<equiv> sample_pending plan_reason [(''plan_approval'', PDict [(''plan_id'', PStr ''p1''), (''content'', PStr ''do it'')])]"

definition edit_command :: ResumeCommand where
  "edit_command = (sample_command ''int_1'' RA_EDIT)\<lparr>rc_edited_tool_args := Some [(''content'', PStr ''do less'')]\<rparr>"

theorem approved_plan_recorded_witness:
  "\<exists>a. memory_get_plan (rw_plans (snd (sqlite_attempt plan_pending edit_command))) ''p1'' = Some a \<and> pa_status a = PM_APPROVED
     \<and> pa_content a = ''do less'' \<and> pa_content_hash a = ''sha:do less''"
proof -
  let ?a = "sqlite_attempt plan_pending edit_command"
  let ?env = "sqlite_env plan_pending"
  let ?r = "fst (resolve_resume_checkpoint ?env (cx_run_input sample_context) edit_command paused_sqlite)"
  have "\<not> isl (fst ?a)" by code_simp
  then have a: "?a = (Inr (projr (fst ?a)), snd ?a)" by (metis sum.collapse(2) prod.collapse)
  have "\<not> isl ?r" by code_simp
  then have r: "?r = Inr (projr ?r)" by (metis sum.collapse(2))
  have p: "pending_interrupt_from_metadata ?env (rt_metadata (ck_state (projr ?r))) = Inr (Some plan_pending)"
  proof -
    have "rt_metadata (ck_state (projr ?r)) = paused_metadata" by code_simp
    then show ?thesis by (simp add: pending_interrupt_from_metadata_def paused_metadata_def sample_env_def dict_get_or_def)
  qed
  have q: "plan_approval_payload plan_pending = Some [(''plan_id'', PStr ''p1''), (''content'', PStr ''do it'')]"
    "plan_id_of ?env [(''plan_id'', PStr ''p1''), (''content'', PStr ''do it'')] plan_pending = ''p1''"
    "edited_content ?env edit_command = ''do less''" by code_simp+
  show ?thesis
    using approved_plan_recorded [OF a _ _ p q(1)] r q(2,3)
    by (auto simp: sample_world_def sample_env_def edit_command_def sample_command_def artifact_ok_def)
qed

section \<open>Observations\<close>

text \<open>Without a ledger nothing stops a second resume from the same checkpoint: the request passes the guards again.\<close>

lemma replay_without_ledger:
  assumes "rv_try_consume env = None" "st_load (rv_ops env) (rc_interrupt_id rc) (rw_stores w1) = (Some row, s1)"
    "st_load (rv_ops env) (rc_interrupt_id rc) (rw_stores w2) = (Some row, s2)"
  shows "attempt_request env inp rc w1 = attempt_request env inp rc w2 \<and> fst (consume_approval env req w2) = None"
  using assms by (simp add: attempt_request_def resume_target_def resolve_resume_checkpoint_def consume_approval_def)

text \<open>An edit that carries a state patch and no arguments is valid and releases the call as it was.\<close>

lemma edit_by_patch_runs_original:
  assumes "rc_action rc = RA_EDIT" "rc_edited_tool_args rc = None" "present (rc_state_patch rc)"
  shows "validate_action_payload rc = Inr rc \<and> tc_args (approved_call p rc) = tc_args (pi_call p)"
  using assms by (simp add: validate_action_payload_def approved_call_def apply_resume_to_call_def Let_def)

text \<open>Patching the state consumes the approval and changes nothing: the interrupt stays pending.\<close>

lemma patch_state_ignored: "rc_action rc = RA_PATCH_STATE \<Longrightarrow> apply_action env draw p rc ctx w = (Inr ctx, w)"
  by (simp add: apply_action_def)

text \<open>The event that reports the rejection of a plan names an earlier approved plan where there is one.\<close>

lemma rejection_reports_earlier_plan:
  assumes "plan_approval_payload p = Some payload" "dict_get (cx_metadata ctx) ''approved_plan'' = PDict approved" "truthy (dict_get approved ''plan_id'')"
  shows "\<exists>d. plan_lifecycle_payload p rc ctx = Some d \<and> dict_get d ''plan_id'' = dict_get approved ''plan_id''"
  using assms by (simp add: plan_lifecycle_payload_def Let_def py_or_def dict_get_or_def)

end
