(* ===== verification/Run_Loop.thy ===== *)
theory Run_Loop
  imports Policy_Journal Resume_Safety Abort_Ledger Command_Queue
begin

text \<open>
  The driver of a run (\<open>runtime/runner.py\<close>, \<open>runtime/single_agent/lifecycle/journal.py\<close>): the limits checked before
  every step with the grace window after a soft budget, the timeout of a step, and the loop over the steps with its
  terminal branches; the frame around the loop is in \<open>Run_Frame\<close>. The four step handlers are parameters, with
  what the environment does to them (exceptions, timeouts) as their outcome; so are the readings of the clock, of the
  cancellation probe and of the abort handle. Durations and costs are integers of some unit.
\<close>

section \<open>Limits\<close>

record TerminalResult =
  tr_status :: string
  tr_reason :: string

text \<open>The budgets of \<open>AgentRunInput\<close>.\<close>

record RunLimits =
  rl_deadline_seconds :: "int option"
  rl_max_steps :: "int option"
  rl_max_tool_calls :: "int option"
  rl_cost_budget_usd :: "int option"

text \<open>What the environment shows before a step: the probe and the abort handle where there are any, the time since the
  start, and the handle once more when a step has timed out.\<close>

record loop_view =
  lo_probe :: "bool option"
  lo_aborted :: "bool option"
  lo_elapsed :: int
  lo_late_aborted :: "bool option"

datatype step_outcome = Step_Next string | Step_Timeout | Step_Abort | Step_Superseded | Step_Raised string

type_synonym 's step_handler = "nat \<Rightarrow> int option \<Rightarrow> JournalContext \<Rightarrow> 's \<Rightarrow> step_outcome \<times> JournalContext \<times> 's"

record ('s, 'l, 'p) loop_env =
  lv_base :: "('s, 'l, 'p) resume_env"
  lv_budget_grace_enabled :: bool
  lv_hard_max_seconds :: "int option"
  lv_idle_timeout_seconds :: "int option"
  lv_total_cost_usd :: "pydict \<Rightarrow> int"
  lv_load_profile :: "pydict \<Rightarrow> string + PolicyProfile"
  lv_evaluate :: "pydict list \<Rightarrow> JournalContext \<Rightarrow> PolicyProfile \<Rightarrow> string + pyval list"
  lv_load_output :: "pydict \<Rightarrow> string + AgentRunOutput"
  lv_run_started :: "'s step_handler"
  lv_llm_call :: "'s step_handler"
  lv_tool_stage :: "'s step_handler"
  lv_finalize :: "'s step_handler"

definition terminal_reasons :: "string list" where
  "terminal_reasons = [''final_answer'', ''cancelled_by_user'', ''cancellation_failed'', ''deadline_exceeded'', ''max_steps_exceeded'',
     ''budget_exceeded'', ''tool_policy_denied'', ''guardrail_blocked'', ''approval_rejected'', ''late_result_ignored'', ''runtime_error'',
     ''model_error'', ''provider_protocol'', ''checkpoint_error'', ''external_execution_handoff'']"

definition grace_extra_llm_steps :: int where
  "grace_extra_llm_steps = 2"

definition llm_step_count :: "('s, 'l, 'p) loop_env \<Rightarrow> pydict \<Rightarrow> string + int" where
  "llm_step_count env md = int_of_value (lv_base env) (dict_get_or md ''llm_step_count'' (PInt 0))"

definition tool_call_count :: "('s, 'l, 'p) loop_env \<Rightarrow> pydict \<Rightarrow> string + int" where
  "tool_call_count env md = int_of_value (lv_base env) (dict_get_or md ''tool_calls'' (PInt 0))"

definition refunded_tool_calls :: "('s, 'l, 'p) loop_env \<Rightarrow> pydict \<Rightarrow> string + int" where
  "refunded_tool_calls env md =
     (let v = dict_get_or md ''refunded_tool_calls'' (PInt 0) in if truthy v then int_of_value (lv_base env) v else Inr 0)"

definition dict_setdefault :: "string \<Rightarrow> pyval \<Rightarrow> pydict \<Rightarrow> pydict" where
  "dict_setdefault k v d = (if map_of d k = None then dict_set k v d else d)"

definition ensure_force_final_answer :: "string \<Rightarrow> pydict \<Rightarrow> pydict" where
  "ensure_force_final_answer reason md =
     dict_setdefault ''force_final_answer_reason'' (PStr reason)
       (dict_set ''tool_choice_override'' (PStr ''none'') (dict_set ''force_final_answer'' (PBool True) md))"

definition soft_budget_terminal ::
  "('s, 'l, 'p) loop_env \<Rightarrow> string \<Rightarrow> JournalContext \<Rightarrow> (string + TerminalResult option) \<times> JournalContext" where
  "soft_budget_terminal env reason ctx =
     (let md = cx_metadata ctx; hard = \<lparr>tr_status = ''failed'', tr_reason = reason\<rparr>; granted = dict_get md ''budget_grace_granted_at_step''
      in if \<not> lv_budget_grace_enabled env then (Inr (Some hard), ctx)
         else case llm_step_count env md of
                Inl err \<Rightarrow> (Inl err, ctx)
              | Inr n \<Rightarrow>
                  if granted = PNone
                    then (Inr None, ctx\<lparr>cx_metadata := ensure_force_final_answer (''budget_exhausted:'' @ reason)
                            (dict_sets [(''budget_grace_granted_at_step'', PInt n), (''budget_grace_reason'', PStr reason)] md)\<rparr>)
                  else (case int_of_value (lv_base env) granted of
                          Inl err \<Rightarrow> (Inl err, ctx)
                        | Inr g \<Rightarrow>
                            if n - g \<le> grace_extra_llm_steps then (Inr None, ctx)
                            else (case dict_get md ''budget_grace_reason'' of
                                    PStr original \<Rightarrow>
                                      (Inr (Some (if original \<in> set terminal_reasons then \<lparr>tr_status = ''failed'', tr_reason = original\<rparr> else hard)), ctx)
                                  | _ \<Rightarrow> (Inr (Some hard), ctx))))"

definition limit_of :: "'a option \<Rightarrow> 'a option \<Rightarrow> 'a option" where
  "limit_of per_run fallback = (case per_run of None \<Rightarrow> fallback | Some x \<Rightarrow> Some x)"

text \<open>The checks from the step budget on, in the order of the code.\<close>

definition tool_and_cost_terminal ::
  "('s, 'l, 'p) loop_env \<Rightarrow> RunLimits \<Rightarrow> JournalContext \<Rightarrow> (string + TerminalResult option) \<times> JournalContext" where
  "tool_and_cost_terminal env limits ctx =
     (case tool_call_count env (cx_metadata ctx) of
        Inl err \<Rightarrow> (Inl err, ctx)
      | Inr calls \<Rightarrow>
          (case refunded_tool_calls env (cx_metadata ctx) of
             Inl err \<Rightarrow> (Inl err, ctx)
           | Inr refunded \<Rightarrow>
               (let effective = max 0 (calls - refunded);
                    cost_check = (case rl_cost_budget_usd limits of
                      Some b \<Rightarrow> if lv_total_cost_usd env (cx_metadata ctx) > b
                        then (Inr (Some \<lparr>tr_status = ''failed'', tr_reason = ''budget_exceeded''\<rparr>), ctx) else (Inr None, ctx)
                    | None \<Rightarrow> (Inr None, ctx))
                in case limit_of (rl_max_tool_calls limits) (rv_default_max_tool_calls (lv_base env)) of
                     Some m \<Rightarrow> if effective > m then soft_budget_terminal env ''tool_policy_denied'' ctx else cost_check
                   | None \<Rightarrow> cost_check)))"

definition budget_terminal ::
  "('s, 'l, 'p) loop_env \<Rightarrow> RunLimits \<Rightarrow> JournalContext \<Rightarrow> (string + TerminalResult option) \<times> JournalContext" where
  "budget_terminal env limits ctx =
     (case limit_of (rl_max_steps limits) (rv_default_max_steps (lv_base env)) of
        Some m \<Rightarrow>
          (case llm_step_count env (cx_metadata ctx) of
             Inl err \<Rightarrow> (Inl err, ctx)
           | Inr n \<Rightarrow> if n \<ge> m then soft_budget_terminal env ''max_steps_exceeded'' ctx else tool_and_cost_terminal env limits ctx)
      | None \<Rightarrow> tool_and_cost_terminal env limits ctx)"

definition terminal_from_limits ::
  "('s, 'l, 'p) loop_env \<Rightarrow> RunLimits \<Rightarrow> loop_view \<Rightarrow> JournalContext \<Rightarrow> (string + TerminalResult option) \<times> JournalContext" where
  "terminal_from_limits env limits view ctx =
     (if lo_probe view = Some True \<or> lo_aborted view = Some True
        then (Inr (Some \<lparr>tr_status = ''cancelled'', tr_reason = ''cancelled_by_user''\<rparr>), ctx)
      else case rl_deadline_seconds limits of
             Some d \<Rightarrow> if lo_elapsed view > d then (Inr (Some \<lparr>tr_status = ''timed_out'', tr_reason = ''deadline_exceeded''\<rparr>), ctx)
               else budget_terminal env limits ctx
           | None \<Rightarrow> budget_terminal env limits ctx)"

section \<open>The timeout of a step\<close>

definition timeout_candidates :: "('s, 'l, 'p) loop_env \<Rightarrow> RunLimits \<Rightarrow> int \<Rightarrow> (int \<times> string) list" where
  "timeout_candidates env limits elapsed =
     (case rl_deadline_seconds limits of Some d \<Rightarrow> [(d - elapsed, ''run_deadline'')] | None \<Rightarrow> [])
     @ (case lv_hard_max_seconds env of Some h \<Rightarrow> [(h - elapsed, ''hard_max'')] | None \<Rightarrow> [])
     @ (case lv_idle_timeout_seconds env of Some t \<Rightarrow> [(t, ''step_idle'')] | None \<Rightarrow> [])"

text \<open>\<open>min\<close> with a key: the first of the smallest.\<close>

fun first_min :: "(int \<times> string) \<Rightarrow> (int \<times> string) list \<Rightarrow> int \<times> string" where
  "first_min x [] = x"
| "first_min x (y # ys) = first_min (if fst y < fst x then y else x) ys"

definition step_timeout_seconds :: "('s, 'l, 'p) loop_env \<Rightarrow> RunLimits \<Rightarrow> int \<Rightarrow> int option \<times> string" where
  "step_timeout_seconds env limits elapsed =
     (case timeout_candidates env limits elapsed of
        [] \<Rightarrow> (None, [])
      | x # xs \<Rightarrow> (Some (fst (first_min x xs)), snd (first_min x xs)))"

section \<open>The loop\<close>

definition step_name :: "('s, 'l, 'p) loop_env \<Rightarrow> pydict \<Rightarrow> string" where
  "step_name env md = (case dict_get_or md ''next_step'' (PStr ''run_started'') of PStr s \<Rightarrow> s | v \<Rightarrow> rv_str (lv_base env) v)"

definition execute_step :: "('s, 'l, 'p) loop_env \<Rightarrow> 's step_handler" where
  "execute_step env i timeout ctx s =
     (let name = step_name env (cx_metadata ctx)
      in if name = ''run_started'' then lv_run_started env i timeout ctx s
         else if name = ''llm_call'' then lv_llm_call env i timeout ctx s
         else if name = ''tool_stage'' then lv_tool_stage env i timeout ctx s
         else if name = ''finalize'' then lv_finalize env i timeout ctx s
         else (Step_Raised (''Unknown step '' @ name), ctx, s))"

datatype drive_result = Driven AgentRunOutput | Drive_Raised string | Drive_Superseded

text \<open>The draws of one iteration: the event of a terminal branch and what the observation of the policies needs.\<close>

type_synonym loop_draw = "(string \<times> string) \<times> (nat \<Rightarrow> policy_draw)"

text \<open>Emit, observe, build the output. An exception in between ends the run with that exception.\<close>

definition end_with ::
  "('s, 'l, 'p) loop_env \<Rightarrow> loop_draw \<Rightarrow> string \<Rightarrow> pydict \<Rightarrow> string \<Rightarrow> TerminalResult \<Rightarrow> JournalContext \<Rightarrow> 's \<Rightarrow> drive_result \<times> JournalContext \<times> 's" where
  "end_with env draw event_type payload trigger terminal ctx s =
     (let b = lv_base env
      in case run_emit (rv_sha1_hex b) (rv_ops b) (fst (fst draw)) (snd (fst draw)) (context_spec ctx event_type payload) s of
           (Inl err, s1) \<Rightarrow> (Drive_Raised err, ctx, s1)
         | (Inr e, s1) \<Rightarrow>
             (case emit_observe_policy_decisions (rv_sha1_hex b) (rv_str b) (lv_load_profile env) (lv_evaluate env) (rv_ops b) (snd draw) trigger ctx s1 of
                (Some err, s2) \<Rightarrow> (Drive_Raised err, ctx, s2)
              | (None, s2) \<Rightarrow>
                  (case rv_build_output b (tr_status terminal) (tr_reason terminal) ctx s2 of
                     (Inl err, ctx1, s3) \<Rightarrow> (Drive_Raised err, ctx1, s3)
                   | (Inr out, ctx1, s3) \<Rightarrow> (Driven out, ctx1, s3))))"

definition timeout_terminal :: "loop_view \<Rightarrow> TerminalResult" where
  "timeout_terminal view =
     (if lo_late_aborted view = Some True then \<lparr>tr_status = ''cancelled'', tr_reason = ''cancellation_failed''\<rparr>
      else \<lparr>tr_status = ''timed_out'', tr_reason = ''deadline_exceeded''\<rparr>)"

definition set_step_name :: "string \<Rightarrow> JournalContext \<Rightarrow> JournalContext" where
  "set_step_name name ctx = ctx\<lparr>cx_metadata := dict_set ''next_step'' (PStr name) (cx_metadata ctx)\<rparr>"

definition finish_loop :: "('s, 'l, 'p) loop_env \<Rightarrow> JournalContext \<Rightarrow> drive_result" where
  "finish_loop env ctx =
     (case dict_get (cx_metadata ctx) ''terminal_output'' of
        PDict payload \<Rightarrow> (case lv_load_output env payload of Inl err \<Rightarrow> Drive_Raised err | Inr out \<Rightarrow> Driven out)
      | _ \<Rightarrow> Drive_Raised ''Missing terminal output metadata'')"

text \<open>What one iteration does: end the run, or hand the context to the next.\<close>

datatype 's iteration = Ends "drive_result \<times> JournalContext \<times> 's" | Continues JournalContext 's

definition loop_iteration ::
  "('s, 'l, 'p) loop_env \<Rightarrow> RunLimits \<Rightarrow> loop_view \<Rightarrow> loop_draw \<Rightarrow> nat \<Rightarrow> JournalContext \<Rightarrow> 's \<Rightarrow> 's iteration" where
  "loop_iteration env limits view draw i ctx s =
     (case terminal_from_limits env limits view ctx of
        (Inl err, ctx1) \<Rightarrow> Ends (Drive_Raised err, ctx1, s)
      | (Inr (Some terminal), ctx1) \<Rightarrow>
          Ends (end_with env draw (if tr_reason terminal = ''cancelled_by_user'' then ''run_cancelled'' else ''run_failed'')
            [(''reason'', PStr (tr_reason terminal))] ''terminal_limit'' terminal ctx1 s)
      | (Inr None, ctx1) \<Rightarrow>
          (let (timeout, guard) = step_timeout_seconds env limits (lo_elapsed view)
           in case execute_step env i timeout ctx1 s of
                (Step_Next name, ctx2, s2) \<Rightarrow> Continues (set_step_name name ctx2) s2
              | (Step_Timeout, ctx2, s2) \<Rightarrow>
                  (let terminal = timeout_terminal view; ctx3 = ctx2\<lparr>cx_metadata := dict_set ''wall_clock_guard'' (PStr guard) (cx_metadata ctx2)\<rparr>
                   in Ends (end_with env draw ''run_failed'' [(''reason'', PStr (tr_reason terminal)), (''wall_clock_guard'', PStr guard)]
                        ''terminal_timeout'' terminal ctx3 s2))
              | (Step_Abort, ctx2, s2) \<Rightarrow>
                  Ends (end_with env draw ''run_cancelled'' [(''reason'', PStr ''cancelled_by_user'')] ''terminal_abort''
                    \<lparr>tr_status = ''cancelled'', tr_reason = ''cancelled_by_user''\<rparr> ctx2 s2)
              | (Step_Superseded, ctx2, s2) \<Rightarrow>
                  (case run_emit (rv_sha1_hex (lv_base env)) (rv_ops (lv_base env)) (fst (fst draw)) (snd (fst draw))
                          (context_spec ctx2 ''result_fenced'' [(''reason'', PStr ''llm_generation_superseded''),
                             (''llm_generation'', dict_get_or (cx_metadata ctx2) ''llm_generation'' (PInt 0))]) s2 of
                     (Inl err, s3) \<Rightarrow> Ends (Drive_Raised err, ctx2, s3)
                   | (Inr e, s3) \<Rightarrow> Ends (Drive_Superseded, ctx2, s3))
              | (Step_Raised err, ctx2, s2) \<Rightarrow> Ends (Drive_Raised err, ctx2, s2)))"

text \<open>The loop from iteration \<open>i\<close> on; \<open>None\<close> when the fuel is used up.\<close>

fun drive_steps ::
  "('s, 'l, 'p) loop_env \<Rightarrow> RunLimits \<Rightarrow> (nat \<Rightarrow> loop_view) \<Rightarrow> (nat \<Rightarrow> loop_draw) \<Rightarrow> nat \<Rightarrow> nat \<Rightarrow> JournalContext \<Rightarrow> 's
     \<Rightarrow> (drive_result \<times> JournalContext \<times> 's) option" where
  "drive_steps env limits view draw i 0 ctx s = None"
| "drive_steps env limits view draw i (Suc fuel) ctx s =
     (if step_name env (cx_metadata ctx) = ''done'' then Some (finish_loop env ctx, ctx, s)
      else case loop_iteration env limits (view i) (draw i) i ctx s of
             Ends r \<Rightarrow> Some r
           | Continues ctx1 s1 \<Rightarrow> drive_steps env limits view draw (Suc i) fuel ctx1 s1)"

section \<open>The loop ends\<close>

text \<open>The counts of completed model steps at which the loop executes a step.\<close>

fun step_counts ::
  "('s, 'l, 'p) loop_env \<Rightarrow> RunLimits \<Rightarrow> (nat \<Rightarrow> loop_view) \<Rightarrow> (nat \<Rightarrow> loop_draw) \<Rightarrow> nat \<Rightarrow> nat \<Rightarrow> JournalContext \<Rightarrow> 's \<Rightarrow> int list" where
  "step_counts env limits view draw i 0 ctx s = []"
| "step_counts env limits view draw i (Suc fuel) ctx s =
     (if step_name env (cx_metadata ctx) = ''done'' \<or> fst (terminal_from_limits env limits (view i) ctx) \<noteq> Inr None then []
      else projr (llm_step_count env (cx_metadata ctx)) #
        (case loop_iteration env limits (view i) (draw i) i ctx s of
           Ends r \<Rightarrow> [] | Continues ctx1 s1 \<Rightarrow> step_counts env limits view draw (Suc i) fuel ctx1 s1))"

text \<open>How the step handlers route a run: \<open>run_started\<close> and a \<open>finalize\<close> that resumes go to the model, a completed model
  step is counted and goes to the tools, the tools go to the model or to \<open>finalize\<close>, and any step may end the run. No
  handler touches the mark of the grace window, which only the limits write.\<close>

definition mark :: "pydict \<Rightarrow> pyval" where
  "mark md = dict_get md ''budget_grace_granted_at_step''"

definition routed :: "('s, 'l, 'p) loop_env \<Rightarrow> 's step_handler \<Rightarrow> int \<Rightarrow> string set \<Rightarrow> bool" where
  "routed env h k names = (\<forall>i t ctx s n name ctx' s'. llm_step_count env (cx_metadata ctx) = Inr n \<longrightarrow> h i t ctx s = (Step_Next name, ctx', s') \<longrightarrow>
     name = ''done'' \<or> name \<in> names \<and> mark (cx_metadata ctx') = mark (cx_metadata ctx) \<and> llm_step_count env (cx_metadata ctx') = Inr (n + k))"

definition steps_routed :: "('s, 'l, 'p) loop_env \<Rightarrow> bool" where
  "steps_routed env = (routed env (lv_run_started env) 0 {''llm_call''} \<and> routed env (lv_llm_call env) 1 {''tool_stage''}
     \<and> routed env (lv_tool_stage env) 0 {''llm_call'', ''finalize''} \<and> routed env (lv_finalize env) 0 {''llm_call''})"

definition step_rank :: "string \<Rightarrow> nat" where
  "step_rank name = (if name = ''tool_stage'' then 3 else if name = ''finalize'' \<or> name = ''run_started'' then 2 else 1)"

lemma dict_get_setdefault: "k' \<noteq> k \<Longrightarrow> dict_get_or (dict_setdefault k v d) k' w = dict_get_or d k' w"
  by (simp add: dict_setdefault_def)

lemma force_final_keeps:
  "k \<notin> {''force_final_answer'', ''tool_choice_override'', ''force_final_answer_reason''} \<Longrightarrow> dict_get_or (ensure_force_final_answer r md) k v = dict_get_or md k v"
  by (simp add: ensure_force_final_answer_def dict_get_setdefault)

text \<open>Whatever the limits decide, they keep the counter; they keep the mark or set it to the counter, and where they
  let the run pass although its steps are used up the mark is at most two steps old.\<close>

lemma soft_budget_keeps:
  assumes "soft_budget_terminal env reason ctx = (r, ctx')"
    "k \<notin> {''force_final_answer'', ''tool_choice_override'', ''force_final_answer_reason'', ''budget_grace_granted_at_step'', ''budget_grace_reason''}"
  shows "dict_get_or (cx_metadata ctx') k v = dict_get_or (cx_metadata ctx) k v"
  using assms by (auto simp: soft_budget_terminal_def Let_def force_final_keeps split: if_splits sum.splits pyval.splits)

lemma soft_budget_pass:
  assumes "soft_budget_terminal env reason ctx = (Inr None, ctx')" "llm_step_count env (cx_metadata ctx) = Inr n"
    and "mark (cx_metadata ctx) = PNone \<or> (\<exists>g. mark (cx_metadata ctx) = PInt g)"
  shows "lv_budget_grace_enabled env"
    "\<exists>g. mark (cx_metadata ctx') = PInt g \<and> n \<le> g + 2 \<and> (mark (cx_metadata ctx) = PInt g \<or> mark (cx_metadata ctx) = PNone \<and> g = n)"
proof -
  show "lv_budget_grace_enabled env" using assms(1) by (auto simp: soft_budget_terminal_def Let_def split: if_splits)
  show "\<exists>g. mark (cx_metadata ctx') = PInt g \<and> n \<le> g + 2 \<and> (mark (cx_metadata ctx) = PInt g \<or> mark (cx_metadata ctx) = PNone \<and> g = n)"
    using assms by (auto simp: soft_budget_terminal_def Let_def mark_def force_final_keeps int_of_value_def grace_extra_llm_steps_def
      split: if_splits sum.splits pyval.splits)
qed

lemma tool_and_cost_cases:
  "tool_and_cost_terminal env limits ctx = (Inr None, ctx') \<Longrightarrow> ctx' = ctx \<or> soft_budget_terminal env ''tool_policy_denied'' ctx = (Inr None, ctx')"
  by (auto simp: tool_and_cost_terminal_def Let_def split: sum.splits option.splits if_splits)

lemma limits_cases:
  assumes "terminal_from_limits env limits view ctx = (Inr None, ctx')" "limit_of (rl_max_steps limits) (rv_default_max_steps (lv_base env)) = Some m"
    "llm_step_count env (cx_metadata ctx) = Inr c"
  shows "c < m \<and> ctx' = ctx \<or> (\<exists>reason. soft_budget_terminal env reason ctx = (Inr None, ctx'))"
proof -
  have "budget_terminal env limits ctx = (Inr None, ctx')" using assms(1) by (auto simp: terminal_from_limits_def split: if_splits option.splits)
  then show ?thesis using assms(2,3) by (auto simp: budget_terminal_def split: if_splits dest: tool_and_cost_cases)
qed

text \<open>The counter and the mark of a run whose step budget, or whose count at the start, is \<open>b\<close>.\<close>

definition in_window :: "('s, 'l, 'p) loop_env \<Rightarrow> int \<Rightarrow> int \<Rightarrow> JournalContext \<Rightarrow> bool" where
  "in_window env b c ctx = (llm_step_count env (cx_metadata ctx) = Inr c
     \<and> (mark (cx_metadata ctx) = PNone \<and> c \<le> b \<or> (\<exists>g. mark (cx_metadata ctx) = PInt g \<and> g \<le> b)))"

lemma limits_pass:
  assumes "terminal_from_limits env limits view ctx = (Inr None, ctx')" "limit_of (rl_max_steps limits) (rv_default_max_steps (lv_base env)) = Some m"
    "in_window env b c ctx" "m \<le> b"
  shows "llm_step_count env (cx_metadata ctx') = Inr c" "step_name env (cx_metadata ctx') = step_name env (cx_metadata ctx)"
    "mark (cx_metadata ctx') = PNone \<and> c < m \<or> (\<exists>g. mark (cx_metadata ctx') = PInt g \<and> g \<le> b)"
    "c < (if lv_budget_grace_enabled env then b + 3 else m)"
proof -
  have n: "llm_step_count env (cx_metadata ctx) = Inr c" using assms(3) by (simp add: in_window_def)
  have "llm_step_count env (cx_metadata ctx') = Inr c \<and> step_name env (cx_metadata ctx') = step_name env (cx_metadata ctx)
    \<and> (mark (cx_metadata ctx') = PNone \<and> c < m \<or> (\<exists>g. mark (cx_metadata ctx') = PInt g \<and> g \<le> b)) \<and> c < (if lv_budget_grace_enabled env then b + 3 else m)"
    using limits_cases [OF assms(1,2) n]
  proof (elim disjE exE)
    assume "c < m \<and> ctx' = ctx"
    then show ?thesis using assms(3,4) by (auto simp: in_window_def)
  next
    fix reason assume soft: "soft_budget_terminal env reason ctx = (Inr None, ctx')"
    have "mark (cx_metadata ctx) = PNone \<or> (\<exists>g. mark (cx_metadata ctx) = PInt g)" using assms(3) by (auto simp: in_window_def)
    note pass = soft_budget_pass [OF soft n this]
    have "llm_step_count env (cx_metadata ctx') = Inr c" "step_name env (cx_metadata ctx') = step_name env (cx_metadata ctx)"
      using soft_budget_keeps [OF soft] n by (simp_all add: llm_step_count_def step_name_def)
    moreover obtain g where "mark (cx_metadata ctx') = PInt g" "c \<le> g + 2" "g \<le> b" using pass(2) assms(3) by (auto simp: in_window_def)
    ultimately show ?thesis using pass(1) by auto
  qed
  then show "llm_step_count env (cx_metadata ctx') = Inr c" "step_name env (cx_metadata ctx') = step_name env (cx_metadata ctx)"
    "mark (cx_metadata ctx') = PNone \<and> c < m \<or> (\<exists>g. mark (cx_metadata ctx') = PInt g \<and> g \<le> b)"
    "c < (if lv_budget_grace_enabled env then b + 3 else m)" by simp_all
qed

lemma set_step_name_keeps [simp]:
  "llm_step_count env (cx_metadata (set_step_name name ctx)) = llm_step_count env (cx_metadata ctx)"
  "mark (cx_metadata (set_step_name name ctx)) = mark (cx_metadata ctx)" "step_name env (cx_metadata (set_step_name name ctx)) = name"
  by (simp_all add: set_step_name_def llm_step_count_def mark_def step_name_def)

text \<open>A step that hands on the run goes forward: the counter rises or the route comes closer to the model.\<close>

lemma step_forward:
  assumes "steps_routed env" "execute_step env i t ctx s = (Step_Next name, ctx', s')" "llm_step_count env (cx_metadata ctx) = Inr c" "name \<noteq> ''done''"
  shows "\<exists>k \<in> {0, 1}. llm_step_count env (cx_metadata ctx') = Inr (c + k) \<and> mark (cx_metadata ctx') = mark (cx_metadata ctx)
    \<and> step_rank name < step_rank (step_name env (cx_metadata ctx)) + nat (4 * k)"
proof -
  let ?n = "step_name env (cx_metadata ctx)"
  have use: "name \<in> names \<and> mark (cx_metadata ctx') = mark (cx_metadata ctx) \<and> llm_step_count env (cx_metadata ctx') = Inr (c + k)"
    if "routed env h k names" "h i t ctx s = (Step_Next name, ctx', s')" for h k names
    using that assms(3,4) unfolding routed_def by blast
  consider "?n = ''run_started''" | "?n = ''llm_call''" | "?n = ''tool_stage''" | "?n = ''finalize''"
    using assms(2) by (auto simp: execute_step_def Let_def split: if_splits)
  then show ?thesis
  proof cases
    case 1 then show ?thesis using use [of "lv_run_started env" 0 "{''llm_call''}"] assms(1,2) by (simp add: steps_routed_def execute_step_def step_rank_def)
  next
    case 2 then show ?thesis using use [of "lv_llm_call env" 1 "{''tool_stage''}"] assms(1,2) by (simp add: steps_routed_def execute_step_def step_rank_def)
  next
    case 3 then show ?thesis using use [of "lv_tool_stage env" 0 "{''llm_call'', ''finalize''}"] assms(1,2)
      by (auto simp: steps_routed_def execute_step_def step_rank_def)
  next
    case 4 then show ?thesis using use [of "lv_finalize env" 0 "{''llm_call''}"] assms(1,2) by (simp add: steps_routed_def execute_step_def step_rank_def)
  qed
qed

lemma iteration_forward:
  assumes "steps_routed env" "limit_of (rl_max_steps limits) (rv_default_max_steps (lv_base env)) = Some m" "in_window env b c ctx" "m \<le> b"
    and "loop_iteration env limits view draw i ctx s = Continues ctx' s'" "step_name env (cx_metadata ctx') \<noteq> ''done''"
  shows "\<exists>c'. in_window env b c' ctx' \<and> nat (4 * (b + 3 - c')) + step_rank (step_name env (cx_metadata ctx'))
    < nat (4 * (b + 3 - c)) + step_rank (step_name env (cx_metadata ctx))"
proof -
  obtain ctx1 t name ctx2 where l: "terminal_from_limits env limits view ctx = (Inr None, ctx1)"
    and e: "execute_step env i t ctx1 s = (Step_Next name, ctx2, s')" and ctx': "ctx' = set_step_name name ctx2"
    using assms(5) by (auto simp: loop_iteration_def Let_def split: prod.splits sum.splits option.splits step_outcome.splits)
  note p = limits_pass [OF l assms(2-4)]
  obtain k where "k \<in> {0, 1}" and k: "llm_step_count env (cx_metadata ctx2) = Inr (c + k)" "mark (cx_metadata ctx2) = mark (cx_metadata ctx1)"
    "step_rank name < step_rank (step_name env (cx_metadata ctx1)) + nat (4 * k)"
    using step_forward [OF assms(1) e p(1)] assms(6) ctx' by auto
  moreover have "c < b + 3" using p(4) assms(4) by (simp split: if_splits)
  ultimately have "in_window env b (c + k) ctx'" "nat (4 * (b + 3 - (c + k))) + step_rank name
    < nat (4 * (b + 3 - c)) + step_rank (step_name env (cx_metadata ctx))"
    using p(2,3) assms(4) ctx' by (auto simp: in_window_def)
  then show ?thesis using ctx' by auto
qed

lemma drive_ends:
  assumes "steps_routed env" "limit_of (rl_max_steps limits) (rv_default_max_steps (lv_base env)) = Some m" "m \<le> b"
    and "in_window env b c ctx" "nat (4 * (b + 3 - c)) + step_rank (step_name env (cx_metadata ctx)) < fuel"
  shows "(\<exists>r. drive_steps env limits view draw i fuel ctx s = Some r)
    \<and> (\<forall>n \<in> set (step_counts env limits view draw i fuel ctx s). n < (if lv_budget_grace_enabled env then b + 3 else m))"
  using assms(4,5)
proof (induction fuel arbitrary: i c ctx s)
  case (Suc fuel)
  show ?case
  proof (cases "step_name env (cx_metadata ctx) = ''done''")
    case going: False
    have head: "n < (if lv_budget_grace_enabled env then b + 3 else m)"
      if "fst (terminal_from_limits env limits (view i) ctx) = Inr None" "n = projr (llm_step_count env (cx_metadata ctx))" for n
      using limits_pass(4) [OF _ assms(2) Suc.prems(1) assms(3)] that Suc.prems(1) by (metis in_window_def prod.collapse sum.sel(2))
    show ?thesis
    proof (cases "loop_iteration env limits (view i) (draw i) i ctx s")
      case (Ends r)
      then show ?thesis using going head by (cases r) auto
    next
      case (Continues ctx1 s1)
      have rest: "(\<exists>r. drive_steps env limits view draw (Suc i) fuel ctx1 s1 = Some r)
        \<and> (\<forall>n \<in> set (step_counts env limits view draw (Suc i) fuel ctx1 s1). n < (if lv_budget_grace_enabled env then b + 3 else m))"
      proof (cases "step_name env (cx_metadata ctx1) = ''done''")
        case True
        have "1 \<le> step_rank (step_name env (cx_metadata ctx))" by (simp add: step_rank_def)
        then obtain f where "fuel = Suc f" using Suc.prems(2) by (cases fuel) auto
        then show ?thesis using True by simp
      next
        case False
        obtain c' where "in_window env b c' ctx1" "nat (4 * (b + 3 - c')) + step_rank (step_name env (cx_metadata ctx1)) < fuel"
          using iteration_forward [OF assms(1,2) Suc.prems(1) assms(3) Continues False] Suc.prems(2) by auto
        then show ?thesis by (rule Suc.IH)
      qed
      then show ?thesis using going head Continues by auto
    qed
  qed simp
qed simp

text \<open>C8. A run with a step budget ends. Provided the step handlers route as \<open>steps_routed\<close> says, and whatever else the
  model, the tools, the clock and the host do, the loop returns within four iterations per model step that is left,
  plus four: the step budget, or the count at the start where that is higher, and with the grace window three model
  steps more. Without the window no step is executed once the budget is used up; with it no step is executed three
  model steps after the budget. The comments of the code speak of two such steps; the comparison admits a third,
  which does run (\<open>grace_window_three_steps\<close> below), so the bound is the one the code keeps and not the one it
  documents.\<close>

theorem run_ends_within_budget:
  assumes "limit_of (rl_max_steps limits) (rv_default_max_steps (lv_base env)) = Some m" "steps_routed env"
    and "llm_step_count env (cx_metadata ctx) = Inr n"
    and "mark (cx_metadata ctx) = PNone \<or> (\<exists>g. mark (cx_metadata ctx) = PInt g \<and> g \<le> n)"
  shows "(\<exists>r. drive_steps env limits view draw i (nat (4 * (max m n + 3 - n)) + 4) ctx s = Some r)
    \<and> (\<forall>k \<in> set (step_counts env limits view draw i (nat (4 * (max m n + 3 - n)) + 4) ctx s).
          k < (if lv_budget_grace_enabled env then max m n + 3 else m))"
proof (rule drive_ends [OF assms(2,1), where c = n])
  show "m \<le> max m n" by simp
  show "in_window env (max m n) n ctx" using assms(3,4) by (auto simp: in_window_def)
  show "nat (4 * (max m n + 3 - n)) + step_rank (step_name env (cx_metadata ctx)) < nat (4 * (max m n + 3 - n)) + 4" by (simp add: step_rank_def)
qed

text \<open>A model that asks for tools for ever, with a budget of two steps.\<close>

definition sample_output :: "string \<Rightarrow> string \<Rightarrow> AgentRunOutput" where
  "sample_output status reason = \<lparr>ro_attempt_id = ''attempt_1'', ro_other_fields = [(''status'', PStr status), (''terminal_reason'', PStr reason)]\<rparr>"

definition counting :: "string \<Rightarrow> int \<Rightarrow> 's step_handler" where
  "counting name k i t ctx s =
     (case dict_get_or (cx_metadata ctx) ''llm_step_count'' (PInt 0) of
        PInt n \<Rightarrow> (Step_Next name, ctx\<lparr>cx_metadata := dict_set ''llm_step_count'' (PInt (n + k)) (cx_metadata ctx)\<rparr>, s)
      | _ \<Rightarrow> (Step_Raised ''count'', ctx, s))"

definition sample_loop :: "bool \<Rightarrow> ('s, 'l, InMemoryPlanArtifactStore) resume_env \<Rightarrow> ('s, 'l, InMemoryPlanArtifactStore) loop_env" where
  "sample_loop grace base =
     \<lparr>lv_base = base\<lparr>rv_build_output := (\<lambda>st re c s. (Inr (sample_output st re), c, s))\<rparr>, lv_budget_grace_enabled = grace,
      lv_hard_max_seconds = Some 100, lv_idle_timeout_seconds = None, lv_total_cost_usd = (\<lambda>d. 9), lv_load_profile = (\<lambda>d. Inl []),
      lv_evaluate = (\<lambda>es c p. Inr []), lv_load_output = (\<lambda>d. Inl []), lv_run_started = counting ''llm_call'' 0,
      lv_llm_call = counting ''tool_stage'' 1, lv_tool_stage = counting ''llm_call'' 0, lv_finalize = counting ''llm_call'' 0\<rparr>"

definition two_steps :: RunLimits where
  "two_steps = \<lparr>rl_deadline_seconds = None, rl_max_steps = Some 2, rl_max_tool_calls = None, rl_cost_budget_usd = None\<rparr>"

definition quiet_view :: "nat \<Rightarrow> loop_view" where
  "quiet_view i = \<lparr>lo_probe = None, lo_aborted = Some False, lo_elapsed = int i, lo_late_aborted = Some False\<rparr>"

definition quiet_draw :: "nat \<Rightarrow> loop_draw" where
  "quiet_draw i = ((nat_str i, ''t''), (\<lambda>j. ([], ([], []), [], [])))"

abbreviation tireless :: "bool \<Rightarrow> (run_events_table \<times> checkpoints_table, SqliteApprovalConsumptionStore, InMemoryPlanArtifactStore) loop_env" where
  "tireless grace \<equiv> sample_loop grace (sqlite_env tool_pending)"

lemma counting_routed: "rv_int_of_string (lv_base env) = (\<lambda>s. None) \<Longrightarrow> routed env (counting name k) k {name}"
  by (auto simp: routed_def counting_def llm_step_count_def int_of_value_def mark_def split: pyval.splits)

lemma tireless_routed: "steps_routed (tireless grace)"
proof -
  have r: "routed (tireless grace) (counting name k) k {name}" for name k
    by (rule counting_routed) (simp add: sample_loop_def sample_env_def)
  have "routed (tireless grace) (counting ''llm_call'' 0) 0 {''llm_call'', ''finalize''}"
    using r [of "''llm_call''" 0] unfolding routed_def by blast
  then show ?thesis using r by (simp add: steps_routed_def sample_loop_def)
qed

abbreviation tireless_run :: "bool \<Rightarrow> nat \<Rightarrow> (drive_result \<times> JournalContext \<times> run_events_table \<times> checkpoints_table) option" where
  "tireless_run grace fuel \<equiv> drive_steps (tireless grace) two_steps quiet_view quiet_draw 0 fuel sample_context ([], [])"

abbreviation tireless_counts :: "bool \<Rightarrow> nat \<Rightarrow> int list" where
  "tireless_counts grace fuel \<equiv> step_counts (tireless grace) two_steps quiet_view quiet_draw 0 fuel sample_context ([], [])"

theorem run_ends_within_budget_witness:
  "(\<exists>r. tireless_run True 24 = Some r) \<and> tireless_counts True 24 = [0, 0, 1, 1, 2, 2, 3, 3, 4, 4]
   \<and> map_option fst (tireless_run True 24) = Some (Driven (sample_output ''failed'' ''max_steps_exceeded''))"
proof -
  have c: "tireless_counts True 24 = [0, 0, 1, 1, 2, 2, 3, 3, 4, 4]" by code_simp
  have d: "map_option fst (tireless_run True 24) = Some (Driven (sample_output ''failed'' ''max_steps_exceeded''))" by code_simp
  have start: "limit_of (rl_max_steps two_steps) (rv_default_max_steps (lv_base (tireless True))) = Some 2"
    "llm_step_count (tireless True) (cx_metadata sample_context) = Inr 0" "mark (cx_metadata sample_context) = PNone" by code_simp+
  show ?thesis
    using run_ends_within_budget [OF start(1) tireless_routed start(2), of quiet_view quiet_draw 0 "([], [])"] start(3) c d by simp
qed

section \<open>Observations\<close>

text \<open>The window lets three model steps pass, not two.\<close>

lemma grace_window_three_steps: "length (filter (\<lambda>n. n \<ge> 2) (remdups (tireless_counts True 24))) = 3"
  by code_simp

text \<open>While the window is open the cost ceiling is not checked.\<close>

lemma grace_skips_cost_budget:
  assumes "lv_budget_grace_enabled env" "rl_deadline_seconds limits = None" "limit_of (rl_max_steps limits) (rv_default_max_steps (lv_base env)) = Some m"
    "llm_step_count env (cx_metadata ctx) = Inr n" "m \<le> n" "mark (cx_metadata ctx) = PInt g" "n \<le> g + 2"
    "rl_cost_budget_usd limits = Some b" "b < lv_total_cost_usd env (cx_metadata ctx)"
  shows "terminal_from_limits env limits \<lparr>lo_probe = None, lo_aborted = None, lo_elapsed = e, lo_late_aborted = None\<rparr> ctx = (Inr None, ctx)"
  using assms by (simp add: terminal_from_limits_def budget_terminal_def soft_budget_terminal_def mark_def int_of_value_def grace_extra_llm_steps_def Let_def)

end
