(* ===== verification/Run_Frame.thy ===== *)
theory Run_Frame
  imports Run_Loop
begin

text \<open>
  The frame of a run (\<open>SingleAgentRunner.run\<close> of \<open>runtime/runner.py\<close>): the replay of a recorded result, the set-up of
  the context, the phase of the run in the command queue, the loop, the outcome in the abort ledger, and the record of
  the result in the approval ledger. The execution lease, the error hooks and the trace span of the same method are
  not part of it.
\<close>

section \<open>The abort ledger at the end of a run\<close>

text \<open>The operations of an abort ledger as the runner sees them: a read may raise, a write tells whether it returned.\<close>

record 'a abort_ops =
  aw_get :: "'a \<Rightarrow> string \<Rightarrow> string + AbortRecord option"
  aw_request :: "'a \<Rightarrow> string \<Rightarrow> string option \<Rightarrow> bool \<times> 'a"
  aw_observe :: "'a \<Rightarrow> string \<Rightarrow> string option \<Rightarrow> bool \<times> 'a"
  aw_resolve :: "'a \<Rightarrow> string \<Rightarrow> bool \<Rightarrow> bool \<times> 'a"

definition memory_abort_ops :: "InMemoryAbortLifecycleStore abort_ops" where
  "memory_abort_ops = \<lparr>aw_get = (\<lambda>a run. Inr (mem_abort_get a run)), aw_request = (\<lambda>a run reason. (True, snd (mem_request_abort a run reason None))),
     aw_observe = (\<lambda>a run reason. (True, snd (mem_mark_observed a run reason None))),
     aw_resolve = (\<lambda>a run cancelled. (True, snd (mem_abort_resolve a run cancelled)))\<rparr>"

definition sqlite_abort_ops :: "SqliteAbortLifecycleStore abort_ops" where
  "sqlite_abort_ops = \<lparr>aw_get = sql_abort_get, aw_request = (\<lambda>a run reason. map_prod (\<lambda>r. \<not> isl r) id (sql_request_abort a run reason None)),
     aw_observe = (\<lambda>a run reason. map_prod (\<lambda>r. \<not> isl r) id (sql_mark_observed a run reason None)),
     aw_resolve = (\<lambda>a run cancelled. map_prod (\<lambda>r. \<not> isl r) id (sql_abort_resolve a run cancelled))\<rparr>"

definition output_text :: "AgentRunOutput \<Rightarrow> string \<Rightarrow> string" where
  "output_text out key = (case dict_get (ro_other_fields out) key of PStr s \<Rightarrow> s | _ \<Rightarrow> [])"

definition cancelled_reasons :: "string list" where
  "cancelled_reasons = [''cancelled_by_user'', ''cancellation_failed'']"

text \<open>\<open>aborted\<close> and \<open>reason\<close> are read from the handle. An exception ends the update where it is raised.\<close>

definition resolve_finished :: "'a abort_ops \<Rightarrow> string option \<Rightarrow> string \<Rightarrow> 'a \<Rightarrow> 'a" where
  "resolve_finished ops reason run a =
     (case aw_get ops a run of
        Inl err \<Rightarrow> a
      | Inr None \<Rightarrow> (let (ok, a1) = aw_request ops a run reason in if ok then snd (aw_resolve ops a1 run False) else a1)
      | Inr (Some r) \<Rightarrow> snd (aw_resolve ops a run False))"

definition finalize_abort_lifecycle :: "'a abort_ops \<Rightarrow> bool \<Rightarrow> string option \<Rightarrow> string \<Rightarrow> AgentRunOutput \<Rightarrow> 'a \<Rightarrow> 'a" where
  "finalize_abort_lifecycle ops aborted reason run out a =
     (if output_text out ''status'' = ''paused'' then a
      else if output_text out ''terminal_reason'' \<in> set cancelled_reasons
        then (let (ok, a1) = aw_observe ops a run reason in if ok then snd (aw_resolve ops a1 run True) else a1)
      else if aborted then resolve_finished ops reason run a
      else (case aw_get ops a run of
              Inr (Some r) \<Rightarrow> resolve_finished ops reason run a
            | _ \<Rightarrow> a))"

section \<open>Recorded results\<close>

definition maybe_replay_prior_result ::
  "bool \<Rightarrow> ('l \<Rightarrow> string \<Rightarrow> string \<Rightarrow> ConsumeOutcome option) option \<Rightarrow> (string \<Rightarrow> AgentRunOutput option) \<Rightarrow> AgentRunInput \<Rightarrow> ResumeCommand option \<Rightarrow> 'l
     \<Rightarrow> AgentRunOutput option" where
  "maybe_replay_prior_result enabled get load inp resume l =
     (case (get, resume) of
        (Some g, Some rc) \<Rightarrow>
          if \<not> enabled \<or> \<not> str_truthy (an_run_id inp) then None
          else (case g l (the (an_run_id inp)) (rc_interrupt_id rc) of
                  None \<Rightarrow> None
                | Some oc \<Rightarrow> if str_truthy (co_prior_result_payload oc) then load (the (co_prior_result_payload oc)) else None)
      | _ \<Rightarrow> None)"

definition record_approval_result ::
  "('l \<Rightarrow> string \<Rightarrow> string \<Rightarrow> string option \<Rightarrow> string option \<Rightarrow> 'l) option \<Rightarrow> (AgentRunOutput \<Rightarrow> string) \<Rightarrow> AgentRunInput \<Rightarrow> ResumeCommand option
     \<Rightarrow> AgentRunOutput \<Rightarrow> 'l \<Rightarrow> 'l" where
  "record_approval_result put dump inp resume out l =
     (case (put, resume) of
        (Some f, Some rc) \<Rightarrow>
          if \<not> str_truthy (an_run_id inp) \<or> output_text out ''status'' = ''paused'' then l
          else f l (the (an_run_id inp)) (rc_interrupt_id rc) None (Some (dump out))
      | _ \<Rightarrow> l)"

section \<open>The run\<close>

record ('s, 'l, 'p, 'a, 'q) runner =
  rn_loop :: "('s, 'l, 'p) loop_env"
  rn_replay_prior_result :: bool
  rn_ledger_get :: "('l \<Rightarrow> string \<Rightarrow> string \<Rightarrow> ConsumeOutcome option) option"
  rn_ledger_record :: "('l \<Rightarrow> string \<Rightarrow> string \<Rightarrow> string option \<Rightarrow> string option \<Rightarrow> 'l) option"
  rn_abort_store :: "'a abort_ops option"
  rn_set_run_phase :: "(string \<Rightarrow> LiveMessagePhase \<Rightarrow> string option \<Rightarrow> string option \<Rightarrow> 'q \<Rightarrow> int \<times> 'q) option"
  rn_load_json :: "string \<Rightarrow> AgentRunOutput option"
  rn_dump_json :: "AgentRunOutput \<Rightarrow> string"

record ('s, 'l, 'p, 'a, 'q) run_world =
  wd_base :: "('s, 'l, 'p) resume_world"
  wd_aborts :: 'a
  wd_queue :: 'q

datatype run_result = Run_Returned AgentRunOutput | Run_Refused resume_error | Run_Raised string | Run_Superseded

definition initial_phase :: "string \<Rightarrow> LiveMessagePhase" where
  "initial_phase name = (if name = ''tool_stage'' then TOOL_IN_FLIGHT else if name = ''finalize'' then FINALIZING else LLM_IN_FLIGHT)"

definition enter_phase :: "('s, 'l, 'p, 'a, 'q) runner \<Rightarrow> JournalContext \<Rightarrow> 'q \<Rightarrow> JournalContext \<times> 'q" where
  "enter_phase r ctx q =
     (case rn_set_run_phase r of
        None \<Rightarrow> (ctx, q)
      | Some set_phase \<Rightarrow>
          (let (generation, q1) = set_phase (cx_run_id ctx) (initial_phase (step_name (rn_loop r) (cx_metadata ctx)))
                 (an_thread_id (cx_run_input ctx)) (an_agent_id (cx_run_input ctx)) q
           in (ctx\<lparr>cx_metadata := dict_set ''llm_generation'' (PInt generation) (cx_metadata ctx)\<rparr>, q1)))"

text \<open>What a host passes with one call of \<open>run\<close>, and what the environment gives it: draws for the set-up, views and
  draws of the loop, and the abort handle as it is when the loop has ended.\<close>

record run_call =
  rq_input :: AgentRunInput
  rq_resume :: "ResumeCommand option"
  rq_limits :: RunLimits
  rq_draw :: "nat \<Rightarrow> string \<times> string"
  rq_view :: "nat \<Rightarrow> loop_view"
  rq_loop_draw :: "nat \<Rightarrow> loop_draw"
  rq_handle_aborted :: bool
  rq_handle_reason :: "string option"

definition close_run ::
  "('s, 'l, 'p, 'a, 'q) runner \<Rightarrow> run_call \<Rightarrow> AgentRunOutput \<Rightarrow> JournalContext \<Rightarrow> ('s, 'l, 'p, 'a, 'q) run_world \<Rightarrow> ('s, 'l, 'p, 'a, 'q) run_world" where
  "close_run r c out ctx w =
     w\<lparr>wd_aborts := (case rn_abort_store r of
           Some ops \<Rightarrow> finalize_abort_lifecycle ops (rq_handle_aborted c) (rq_handle_reason c) (cx_run_id ctx) out (wd_aborts w) | None \<Rightarrow> wd_aborts w),
       wd_base := (wd_base w)\<lparr>rw_ledger := record_approval_result (rn_ledger_record r) (rn_dump_json r) (rq_input c) (rq_resume c) out (rw_ledger (wd_base w))\<rparr>\<rparr>"

definition run_agent ::
  "('s, 'l, 'p, 'a, 'q) runner \<Rightarrow> nat \<Rightarrow> run_call \<Rightarrow> ('s, 'l, 'p, 'a, 'q) run_world \<Rightarrow> (run_result \<times> ('s, 'l, 'p, 'a, 'q) run_world) option" where
  "run_agent r fuel c w =
     (case maybe_replay_prior_result (rn_replay_prior_result r) (rn_ledger_get r) (rn_load_json r) (rq_input c) (rq_resume c) (rw_ledger (wd_base w)) of
        Some out \<Rightarrow> Some (Run_Returned out, w)
      | None \<Rightarrow>
          (case init_context (lv_base (rn_loop r)) (rq_draw c) (rq_input c) (rq_resume c) (wd_base w) of
             (Inl err, b) \<Rightarrow> Some (Run_Refused err, w\<lparr>wd_base := b\<rparr>)
           | (Inr ctx, b) \<Rightarrow>
               (let (ctx1, q1) = enter_phase r ctx (wd_queue w)
                in case drive_steps (rn_loop r) (rq_limits c) (rq_view c) (rq_loop_draw c) 0 fuel ctx1 (rw_stores b) of
                     None \<Rightarrow> None
                   | Some (res, ctx2, s) \<Rightarrow>
                       (let w1 = w\<lparr>wd_base := b\<lparr>rw_stores := s\<rparr>, wd_queue := q1\<rparr>
                        in Some (case res of
                             Driven out \<Rightarrow> (Run_Returned out, close_run r c out ctx2 w1)
                           | Drive_Raised err \<Rightarrow> (Run_Raised err, w1)
                           | Drive_Superseded \<Rightarrow> (Run_Superseded, w1))))))"

section \<open>What the abort ledger says after a run\<close>

text \<open>The state a run should have in the ledger: a recorded outcome stays.\<close>

definition settle :: "AbortLifecycleState \<Rightarrow> AbortLifecycleState option \<Rightarrow> AbortLifecycleState option" where
  "settle new st = (case st of Some x \<Rightarrow> if abort_terminal x then Some x else Some new | None \<Rightarrow> Some new)"

definition ended_state :: "bool \<Rightarrow> AgentRunOutput \<Rightarrow> AbortLifecycleState option \<Rightarrow> AbortLifecycleState option" where
  "ended_state aborted out st =
     (if output_text out ''status'' = ''paused'' then st
      else if output_text out ''terminal_reason'' \<in> set cancelled_reasons then settle ABORT_CANCELLED st
      else if aborted \<or> st \<noteq> None then settle COMPLETED_BEFORE_CANCEL st else None)"

text \<open>A client of an abort ledger: its operations are the steps of the ledger, and none of them raises.\<close>

locale abort_client = abort_ledger step state_of ok init
  for step :: "abort_op \<Rightarrow> 'a \<Rightarrow> 'a" and state_of ok init +
  fixes ops :: "'a abort_ops"
  assumes get_state: "ok a \<Longrightarrow> \<exists>r. aw_get ops a run = Inr r \<and> map_option ab_state r = state_of a run"
    and request_step: "ok a \<Longrightarrow> aw_request ops a run reason = (True, step (Request run reason None) a)"
    and observe_step: "ok a \<Longrightarrow> aw_observe ops a run reason = (True, step (Observe run reason None) a)"
    and resolve_step: "ok a \<Longrightarrow> aw_resolve ops a run cancelled = (True, step (Resolve run cancelled) a)"
begin

lemma resolve_finished_state:
  assumes "ok a"
  shows "ok (resolve_finished ops reason run a) \<and> state_of (resolve_finished ops reason run a)
    = (state_of a)(run := settle COMPLETED_BEFORE_CANCEL (state_of a run))"
proof -
  obtain r where r: "aw_get ops a run = Inr r" "map_option ab_state r = state_of a run" using get_state [OF assms] by blast
  show ?thesis
  proof (cases r)
    case None
    then have "resolve_finished ops reason run a = step (Resolve run False) (step (Request run reason None) a)"
      using r assms by (simp add: resolve_finished_def request_step resolve_step step_ok)
    then show ?thesis using r None assms by (simp add: step_ok step_state abort_terminal_def settle_def)
  next
    case (Some x)
    then have "resolve_finished ops reason run a = step (Resolve run False) a" using r assms by (simp add: resolve_finished_def resolve_step)
    moreover have "state_of a run = Some (ab_state x)" using r(2) Some by simp
    ultimately show ?thesis using assms by (auto simp: step_ok step_state settle_def fun_eq_iff)
  qed
qed

lemma cancelled_state:
  assumes "ok a"
  shows "ok (step (Resolve run True) (step (Observe run reason None) a)) \<and> state_of (step (Resolve run True) (step (Observe run reason None) a))
    = (state_of a)(run := settle ABORT_CANCELLED (state_of a run))"
  using assms by (auto simp: step_ok step_state settle_def abort_terminal_def fun_eq_iff split: option.split)

lemma finalize_state:
  assumes "ok a"
  shows "ok (finalize_abort_lifecycle ops aborted reason run out a)
    \<and> state_of (finalize_abort_lifecycle ops aborted reason run out a) = (state_of a)(run := ended_state aborted out (state_of a run))"
proof -
  obtain r where r: "aw_get ops a run = Inr r" "map_option ab_state r = state_of a run" using get_state [OF assms] by blast
  consider "output_text out ''status'' = ''paused''"
    | "output_text out ''status'' \<noteq> ''paused''" "output_text out ''terminal_reason'' \<in> set cancelled_reasons"
    | "output_text out ''status'' \<noteq> ''paused''" "output_text out ''terminal_reason'' \<notin> set cancelled_reasons" "aborted \<or> r \<noteq> None"
    | "output_text out ''status'' \<noteq> ''paused''" "output_text out ''terminal_reason'' \<notin> set cancelled_reasons" "\<not> aborted" "r = None" by blast
  then show ?thesis
  proof cases
    case 2
    then have "finalize_abort_lifecycle ops aborted reason run out a = step (Resolve run True) (step (Observe run reason None) a)"
      using assms by (simp add: finalize_abort_lifecycle_def observe_step resolve_step step_ok)
    then show ?thesis using cancelled_state [OF assms] 2 by (simp add: ended_state_def)
  next
    case 3
    then have "finalize_abort_lifecycle ops aborted reason run out a = resolve_finished ops reason run a"
      using r by (auto simp: finalize_abort_lifecycle_def)
    moreover have "aborted \<or> state_of a run \<noteq> None" using 3(3) r(2) by auto
    ultimately show ?thesis using resolve_finished_state [OF assms] 3 by (simp add: ended_state_def)
  next
    case 4
    then have "state_of a run = None" using r(2) by simp
    then show ?thesis using 4 r(1) assms by (simp add: finalize_abort_lifecycle_def ended_state_def fun_upd_idem)
  qed (use assms in \<open>simp add: finalize_abort_lifecycle_def ended_state_def\<close>)
qed

end

interpretation memory_client: abort_client mem_abort_step mem_states "\<lambda>_. True" Map.empty memory_abort_ops
  by unfold_locales (simp_all add: memory_abort_ops_def mem_states_def)

lemma sql_get_known: "sql_abort_ok t \<Longrightarrow> \<exists>r. sql_abort_get t run = Inr r \<and> map_option ab_state r = sql_states t run"
  by (cases "t run") (fastforce simp: sql_abort_get_def row_to_record_def sql_abort_ok_def sql_states_def simp del: abort_state_value.simps)+

lemma sql_writes_return:
  assumes "sql_abort_ok t"
  shows "\<not> isl (fst (sql_request_abort t run reason actor))" "\<not> isl (fst (sql_mark_observed t run reason actor))" "\<not> isl (fst (sql_abort_resolve t run cancelled))"
proof -
  have present: "\<not> isl (assert_present (sql_abort_get t' run))" if t': "sql_abort_ok t'" "t' run \<noteq> None" for t'
    using sql_get_known [OF t'(1), of run] t' by (auto simp: assert_present_def sql_abort_get_def split: sum.splits option.splits)
  show "\<not> isl (fst (sql_request_abort t run reason actor))"
    using present [of "snd (sql_request_abort t run reason actor)"] sql_abort_step_ok [OF assms, of "Request run reason actor"]
    by (auto simp: sql_request_abort_def Let_def split: option.splits)
  show "\<not> isl (fst (sql_mark_observed t run reason actor))"
    using present [of "snd (sql_mark_observed t run reason actor)"] sql_abort_step_ok [OF assms, of "Observe run reason actor"]
    by (auto simp: sql_mark_observed_def Let_def split: option.splits)
  have "fst (sql_abort_resolve t run cancelled) = sql_abort_get (snd (sql_abort_resolve t run cancelled)) run"
    by (simp add: sql_abort_resolve_def Let_def)
  then show "\<not> isl (fst (sql_abort_resolve t run cancelled))"
    using sql_get_known [of "snd (sql_abort_resolve t run cancelled)" run] sql_abort_step_ok [OF assms, of "Resolve run cancelled"] by auto
qed

interpretation sqlite_client: abort_client sql_abort_step sql_states sql_abort_ok Map.empty sqlite_abort_ops
  by unfold_locales (simp_all add: sqlite_abort_ops_def sql_get_known sql_writes_return prod_eq_iff)

text \<open>C22. The abort ledger tells how the run ended. After a run that was cancelled it says cancelled; after one that
  ended in another way although a stop was asked for, by the handle or by a durable request, it says that the run
  completed first; an outcome that is already recorded stays, nothing is written for a run that nobody stopped or that
  is only paused, and no other run is touched. In memory and in SQLite, where no read or write of the update raises.\<close>

theorem abort_outcome_truthful:
  assumes "sql_abort_ok t"
  shows "mem_states (finalize_abort_lifecycle memory_abort_ops aborted reason run out m) = (mem_states m)(run := ended_state aborted out (mem_states m run))
    \<and> sql_states (finalize_abort_lifecycle sqlite_abort_ops aborted reason run out t) = (sql_states t)(run := ended_state aborted out (sql_states t run))
    \<and> sql_abort_ok (finalize_abort_lifecycle sqlite_abort_ops aborted reason run out t)"
  using memory_client.finalize_state [where a = m] sqlite_client.finalize_state [OF assms] by blast

theorem abort_outcome_truthful_witness:
  "mem_states (finalize_abort_lifecycle memory_abort_ops False None ''r'' (sample_output ''completed'' ''final_answer'') (snd (mem_request_abort Map.empty ''r'' None None))) ''r''
     = Some COMPLETED_BEFORE_CANCEL
   \<and> sql_states (finalize_abort_lifecycle sqlite_abort_ops False None ''r'' (sample_output ''completed'' ''final_answer'') Map.empty) ''r'' = None"
proof -
  have "sql_abort_ok Map.empty" by (simp add: sql_abort_ok_def)
  note h = abort_outcome_truthful [OF this, of False None "''r''" "sample_output ''completed'' ''final_answer''" "snd (mem_request_abort Map.empty ''r'' None None)"]
  have "mem_states (snd (mem_request_abort Map.empty ''r'' None None)) ''r'' = Some REQUESTED"
    by (simp add: mem_request_abort_def mem_states_def mem_abort_get_def Let_def)
  then show ?thesis
    using h by (simp add: ended_state_def settle_def sample_output_def output_text_def dict_get_or_def cancelled_reasons_def abort_terminal_def sql_states_none)
qed

section \<open>A duplicate approval gets the recorded result\<close>

lemma mem_call_keeps_payload:
  assumes "am_rows l pk = Some row" "ar_result_payload row = Some p" "\<And>x q. c \<noteq> RecordResult (fst pk) (snd pk) x (Some q)"
  shows "\<exists>row'. am_rows (snd (mem_call l c)) pk = Some row' \<and> ar_result_payload row' = Some p"
  using assms
  by (cases c; cases pk) (auto simp: mem_try_consume_def mem_find_existing_def mem_record_result_def set_result_def Let_def split: option.splits)

lemma mem_after_keeps_payload:
  assumes "am_rows l pk = Some row" "ar_result_payload row = Some p" "\<And>x q. RecordResult (fst pk) (snd pk) x (Some q) \<notin> set cs"
  shows "\<exists>row'. am_rows (after mem_call l cs) pk = Some row' \<and> ar_result_payload row' = Some p"
  using assms
proof (induction cs arbitrary: l row)
  case (Cons c cs)
  obtain row' where "am_rows (snd (mem_call l c)) pk = Some row'" "ar_result_payload row' = Some p"
    using mem_call_keeps_payload [OF Cons.prems(1,2), of c] Cons.prems(3) by fastforce
  then show ?case using Cons.IH [of "snd (mem_call l c)" row'] Cons.prems(3) by simp
qed auto

text \<open>A client that reads recorded results from a ledger \<open>l\<close> whose rows are those of the in-memory one \<open>view l\<close>.\<close>

locale result_ledger =
  fixes call :: "'l \<Rightarrow> approval_call \<Rightarrow> approval_answer \<times> 'l"
    and get :: "'l \<Rightarrow> string \<Rightarrow> string \<Rightarrow> ConsumeOutcome option"
    and put :: "'l \<Rightarrow> string \<Rightarrow> string \<Rightarrow> string option \<Rightarrow> string option \<Rightarrow> 'l"
    and view :: "'l \<Rightarrow> InMemoryApprovalConsumptionStore"
    and ok :: "'l \<Rightarrow> bool"
  assumes call_view: "ok l \<Longrightarrow> view (snd (call l c)) = snd (mem_call (view l) c) \<and> ok (snd (call l c))"
    and get_view: "get l rid iid = mem_approval_get (view l) rid iid"
    and put_view: "ok l \<Longrightarrow> view (put l rid iid x y) = mem_record_result (view l) rid iid x y \<and> ok (put l rid iid x y)"
begin

lemma after_view: "ok l \<Longrightarrow> view (after call l cs) = after mem_call (view l) cs"
  by (induction cs arbitrary: l) (simp_all add: call_view)

lemma payload_kept:
  assumes "ok l" "get l rid iid = Some oc" "co_prior_result_payload oc = Some p" "\<And>x q. RecordResult rid iid x (Some q) \<notin> set cs"
  shows "\<exists>oc'. get (after call l cs) rid iid = Some oc' \<and> co_prior_result_payload oc' = Some p"
proof -
  obtain row where "am_rows (view l) (rid, iid) = Some row" "ar_result_payload row = Some p"
    using assms(2,3) by (auto simp: get_view mem_approval_get_def duplicate_outcome_def split: option.splits)
  from mem_after_keeps_payload [OF this, of cs] assms(4) show ?thesis
    by (auto simp: get_view after_view [OF assms(1)] mem_approval_get_def duplicate_outcome_def)
qed

lemma put_read:
  assumes "ok l" "get (put l rid iid None (Some p)) rid iid \<noteq> None"
  shows "\<exists>oc. get (put l rid iid None (Some p)) rid iid = Some oc \<and> co_prior_result_payload oc = Some p"
  using assms put_view [OF assms(1), of rid iid None "Some p"]
  by (auto simp: get_view mem_approval_get_def mem_record_result_def set_result_def duplicate_outcome_def split: option.splits)

lemma init_ledger_ok:
  assumes "ok (rw_ledger w)" "rv_try_consume env = Some swap" "\<And>l q. snd (call l (TryConsume q)) = snd (swap l q)"
  shows "ok (rw_ledger (snd (init_context env draw inp (Some rc) w)))"
proof (cases "attempt_request env inp rc w")
  case None
  then show ?thesis using attempt_refused_early(2) [of env inp rc w draw] assms(1) by (simp add: after_resolve_def)
next
  case (Some req)
  then show ?thesis using attempt_consumes [OF Some assms(2), of draw] call_view [OF assms(1), of "TryConsume req"] assms(3) by simp
qed

text \<open>A run that returns an output leaves it in the ledger.\<close>

lemma run_leaves_result:
  assumes r: "rn_ledger_get r = Some get" "rn_ledger_record r = Some put" "rv_try_consume (lv_base (rn_loop r)) = Some swap"
      "\<And>l q. snd (call l (TryConsume q)) = snd (swap l q)"
    and c: "rq_resume c = Some rc" "an_run_id (rq_input c) = Some rid" "rid \<noteq> []"
    and run: "ok (rw_ledger (wd_base w))" "run_agent r fuel c w = Some (Run_Returned out, w1)" "output_text out ''status'' \<noteq> ''paused''"
    and out: "rn_load_json r (rn_dump_json r out) = Some out" "rn_dump_json r out \<noteq> []" "get (rw_ledger (wd_base w1)) rid (rc_interrupt_id rc) \<noteq> None"
  shows "ok (rw_ledger (wd_base w1)) \<and> (\<exists>oc p. get (rw_ledger (wd_base w1)) rid (rc_interrupt_id rc) = Some oc
    \<and> co_prior_result_payload oc = Some p \<and> p \<noteq> [] \<and> rn_load_json r p = Some out)"
proof (cases "maybe_replay_prior_result (rn_replay_prior_result r) (rn_ledger_get r) (rn_load_json r) (rq_input c) (rq_resume c) (rw_ledger (wd_base w))")
  case (Some x)
  then have "w1 = w" "x = out" using run(2) by (simp_all add: run_agent_def)
  with Some show ?thesis using r(1) c run(1)
    by (auto simp: maybe_replay_prior_result_def split: option.splits if_splits elim!: str_truthy.elims(2))
next
  case None
  then obtain ctx b w0 ctx2 where i: "init_context (lv_base (rn_loop r)) (rq_draw c) (rq_input c) (Some rc) (wd_base w) = (Inr ctx, b)"
    and w1: "w1 = close_run r c out ctx2 w0" and l: "rw_ledger (wd_base w0) = rw_ledger b"
    using run(2) c(1) by (auto simp: run_agent_def Let_def split: sum.splits prod.splits option.splits drive_result.splits)
  have "ok (rw_ledger b)" using init_ledger_ok [OF run(1) r(3,4), of "rq_draw c" "rq_input c" rc] i by simp
  moreover have "rw_ledger (wd_base w1) = put (rw_ledger b) rid (rc_interrupt_id rc) None (Some (rn_dump_json r out))"
    using r(2) c run(3) l w1 by (simp add: close_run_def record_approval_result_def)
  ultimately show ?thesis using put_read put_view out by metis
qed

text \<open>A later command for the same interrupt gets it back and changes nothing.\<close>

lemma recorded_result_replayed:
  assumes r: "rn_ledger_get r = Some get" "rn_ledger_record r = Some put" "rv_try_consume (lv_base (rn_loop r)) = Some swap"
      "\<And>l q. snd (call l (TryConsume q)) = snd (swap l q)" "rn_replay_prior_result r"
    and c: "rq_resume c = Some rc" "an_run_id (rq_input c) = Some rid" "rid \<noteq> []"
    and run: "ok (rw_ledger (wd_base w))" "run_agent r fuel c w = Some (Run_Returned out, w1)" "output_text out ''status'' \<noteq> ''paused''"
    and out: "rn_load_json r (rn_dump_json r out) = Some out" "rn_dump_json r out \<noteq> []" "get (rw_ledger (wd_base w1)) rid (rc_interrupt_id rc) \<noteq> None"
    and later: "rw_ledger (wd_base w2) = after call (rw_ledger (wd_base w1)) cs" "\<And>x q. RecordResult rid (rc_interrupt_id rc) x (Some q) \<notin> set cs"
    and c2: "rq_resume c2 = Some rc2" "an_run_id (rq_input c2) = Some rid" "rc_interrupt_id rc2 = rc_interrupt_id rc"
  shows "run_agent r fuel2 c2 w2 = Some (Run_Returned out, w2)"
proof -
  note left = run_leaves_result [OF r(1-4) c run out]
  then obtain oc p where p: "get (rw_ledger (wd_base w1)) rid (rc_interrupt_id rc) = Some oc" "co_prior_result_payload oc = Some p"
    "p \<noteq> []" "rn_load_json r p = Some out" by blast
  obtain oc' where "get (rw_ledger (wd_base w2)) rid (rc_interrupt_id rc) = Some oc'" "co_prior_result_payload oc' = Some p"
    using payload_kept [OF _ p(1,2) later(2)] left later(1) by auto
  then have "maybe_replay_prior_result (rn_replay_prior_result r) (rn_ledger_get r) (rn_load_json r) (rq_input c2) (rq_resume c2) (rw_ledger (wd_base w2)) = Some out"
    using r(1,5) c(3) p(3,4) c2 by (simp add: maybe_replay_prior_result_def)
  then show ?thesis by (simp add: run_agent_def)
qed

end

interpretation memory_results: result_ledger mem_call mem_approval_get mem_record_result "\<lambda>l. l" "\<lambda>l. True"
  by unfold_locales simp_all

interpretation sqlite_results: result_ledger sql_call sql_approval_get sql_record_result sql_abs sql_approval_ok
  by unfold_locales (simp_all add: sql_call_simulates sql_approval_get_abs sql_record_result_abs)

text \<open>C13. A duplicate approval returns the first result. With replay switched on, after a run that was resumed by its
  interrupt has returned an output that is not a pause, any later command for the same interrupt of the same run
  returns that output and changes no store, whatever other calls the SQLite ledger has served in between, and whatever
  has become of the checkpoints.\<close>

theorem duplicate_approval_replayed:
  assumes "rn_ledger_get r = Some sql_approval_get" "rn_ledger_record r = Some sql_record_result" "rv_try_consume (lv_base (rn_loop r)) = Some sql_try_consume"
    and "rn_replay_prior_result r" "rq_resume c = Some rc" "an_run_id (rq_input c) = Some rid" "rid \<noteq> []"
    and "sql_approval_ok (rw_ledger (wd_base w))" "run_agent r fuel c w = Some (Run_Returned out, w1)" "output_text out ''status'' \<noteq> ''paused''"
    and "rn_load_json r (rn_dump_json r out) = Some out" "rn_dump_json r out \<noteq> []"
    and "sql_approval_get (rw_ledger (wd_base w1)) rid (rc_interrupt_id rc) \<noteq> None"
    and "rw_ledger (wd_base w2) = after sql_call (rw_ledger (wd_base w1)) cs" "\<And>x q. RecordResult rid (rc_interrupt_id rc) x (Some q) \<notin> set cs"
    and "rq_resume c2 = Some rc2" "an_run_id (rq_input c2) = Some rid" "rc_interrupt_id rc2 = rc_interrupt_id rc"
  shows "run_agent r fuel2 c2 w2 = Some (Run_Returned out, w2)"
  using sqlite_results.recorded_result_replayed [OF assms(1-3) _ assms(4-18)] by (simp add: sql_call_swap del: sql_call.simps)

text \<open>The run that waits for a shell command is approved, goes on until its steps are used up, and is approved again.\<close>

definition sample_runner ::
  "(run_events_table \<times> checkpoints_table, SqliteApprovalConsumptionStore, InMemoryPlanArtifactStore, unit, unit) runner" where
  "sample_runner = \<lparr>rn_loop = tireless True, rn_replay_prior_result = True, rn_ledger_get = Some sql_approval_get, rn_ledger_record = Some sql_record_result,
     rn_abort_store = None, rn_set_run_phase = None, rn_load_json = (\<lambda>s. if s = ''out'' then Some (sample_output ''failed'' ''max_steps_exceeded'') else None),
     rn_dump_json = (\<lambda>o1. ''out'')\<rparr>"

definition resumed_call :: run_call where
  "resumed_call = \<lparr>rq_input = cx_run_input sample_context, rq_resume = Some (sample_command ''int_1'' RA_APPROVE), rq_limits = two_steps,
     rq_draw = sample_draw, rq_view = quiet_view, rq_loop_draw = quiet_draw, rq_handle_aborted = False, rq_handle_reason = None\<rparr>"

definition sample_start ::
  "(run_events_table \<times> checkpoints_table, SqliteApprovalConsumptionStore, InMemoryPlanArtifactStore, unit, unit) run_world" where
  "sample_start = \<lparr>wd_base = sample_world paused_sqlite [], wd_aborts = (), wd_queue = ()\<rparr>"

abbreviation first_result ::
  "(run_result \<times> (run_events_table \<times> checkpoints_table, SqliteApprovalConsumptionStore, InMemoryPlanArtifactStore, unit, unit) run_world) option" where
  "first_result \<equiv> run_agent sample_runner 30 resumed_call sample_start"

theorem duplicate_approval_replayed_witness:
  "map_option fst first_result = Some (Run_Returned (sample_output ''failed'' ''max_steps_exceeded''))
   \<and> run_agent sample_runner 0 resumed_call (snd (the first_result)) = Some (Run_Returned (sample_output ''failed'' ''max_steps_exceeded''), snd (the first_result))"
proof -
  let ?out = "sample_output ''failed'' ''max_steps_exceeded''"
  have m: "map_option fst first_result = Some (Run_Returned ?out)" by code_simp
  then have first: "first_result = Some (Run_Returned ?out, snd (the first_result))" by (cases first_result) auto
  have g: "sql_approval_get (rw_ledger (wd_base (snd (the first_result)))) ''r1'' ''int_1'' \<noteq> None" by code_simp
  have f: "rn_ledger_get sample_runner = Some sql_approval_get" "rn_ledger_record sample_runner = Some sql_record_result"
    "rv_try_consume (lv_base (rn_loop sample_runner)) = Some sql_try_consume" "rn_replay_prior_result sample_runner"
    "rn_load_json sample_runner (rn_dump_json sample_runner ?out) = Some ?out" "rn_dump_json sample_runner ?out \<noteq> []"
    by (simp_all add: sample_runner_def sample_loop_def sample_env_def)
  have c: "rq_resume resumed_call = Some (sample_command ''int_1'' RA_APPROVE)" "an_run_id (rq_input resumed_call) = Some ''r1''"
    "rc_interrupt_id (sample_command ''int_1'' RA_APPROVE) = ''int_1''" by code_simp+
  have s: "sql_approval_ok (rw_ledger (wd_base sample_start))" "output_text ?out ''status'' \<noteq> ''paused''"
    by (simp_all add: sample_start_def sample_world_def sql_approval_ok_def sample_output_def output_text_def dict_get_or_def)
  have "run_agent sample_runner 0 resumed_call (snd (the first_result)) = Some (Run_Returned ?out, snd (the first_result))"
    by (rule duplicate_approval_replayed [OF f(1-4) c(1,2) _ s(1) first s(2) f(5,6) _ _ _ c(1,2), where cs = "[]"]) (use g c in simp_all)
  with m show ?thesis by blast
qed

text \<open>A command that names the checkpoint records nothing: the ledger knows the approval by its interrupt.\<close>

lemma checkpoint_resume_not_recorded:
  assumes "find (sql_pk rid (rc_interrupt_id rc)) l = None" "an_run_id inp = Some rid"
  shows "record_approval_result (Some sql_record_result) dump inp (Some rc) out l = l"
proof -
  have "\<forall>w \<in> set l. \<not> sql_pk rid (rc_interrupt_id rc) w" using assms(1) by (simp only: find_None_iff) blast
  then have "map (\<lambda>w. if sql_pk rid (rc_interrupt_id rc) w then w\<lparr>sa_result_payload := Some (dump out)\<rparr> else w) l = l"
    by (intro map_idI) simp
  then show ?thesis using assms(2) by (simp add: record_approval_result_def sql_record_result_def)
qed

end
