(* ===== verification/Step_Results.thy ===== *)
theory Step_Results
  imports Run_Loop
begin

text \<open>
  What a step does with the results of its tools (\<open>runtime/single_agent/lifecycle/steps.py\<close>,
  \<open>runtime/single_agent/fencing.py\<close>): results of a superseded attempt are dropped and reported, the others are stamped
  with the attempt, counted and appended; and how a run is parked by a pause control and goes on after it. The dumps of
  the pydantic models and the construction of the paused output are parameters.
\<close>

section \<open>The epoch of an attempt\<close>

definition epoch_key :: string where
  "epoch_key = ''_ad_attempt_epoch''"

text \<open>\<open>int(x) if isinstance(x, int)\<close>; a boolean is an integer.\<close>

definition int_instance :: "pyval \<Rightarrow> int option" where
  "int_instance v = (case v of PInt i \<Rightarrow> Some i | PBool b \<Rightarrow> Some (if b then 1 else 0) | _ \<Rightarrow> None)"

definition stamp_attempt_epoch :: "pydict \<Rightarrow> int \<Rightarrow> pydict" where
  "stamp_attempt_epoch md epoch = (if epoch > 0 then dict_set epoch_key (PInt epoch) md else md)"

definition attempt_epoch_of :: "pydict \<Rightarrow> int option" where
  "attempt_epoch_of md = (if md = [] then None else int_instance (dict_get md epoch_key))"

definition is_stale_attempt :: "int option \<Rightarrow> int \<Rightarrow> bool" where
  "is_stale_attempt result_epoch current = (case result_epoch of None \<Rightarrow> False | Some e \<Rightarrow> e < current)"

definition attempt_epoch :: "pydict \<Rightarrow> int" where
  "attempt_epoch md = (case int_instance (dict_get md ''attempt_epoch'') of Some i \<Rightarrow> i | None \<Rightarrow> 0)"

definition fenced_payload :: "ToolResultEnvelope \<Rightarrow> int \<Rightarrow> int \<Rightarrow> pydict" where
  "fenced_payload v e current = [(''tool_name'', PStr (tc_tool_name (ev_call v))), (''result_epoch'', PInt e), (''current_epoch'', PInt current)]"

definition stamp_envelope :: "int \<Rightarrow> ToolResultEnvelope \<Rightarrow> ToolResultEnvelope" where
  "stamp_envelope current v =
     (if current > 0 \<and> attempt_epoch_of (ev_metadata v) = None then v\<lparr>ev_metadata := stamp_attempt_epoch (ev_metadata v) current\<rparr> else v)"

text \<open>\<open>draw i\<close> is what the event of the \<open>i\<close>-th result would draw.\<close>

fun fence_and_stamp_envelopes ::
  "(string \<Rightarrow> string) \<Rightarrow> 's run_stores \<Rightarrow> (nat \<Rightarrow> string \<times> string) \<Rightarrow> nat \<Rightarrow> JournalContext \<Rightarrow> ToolResultEnvelope list \<Rightarrow> 's
     \<Rightarrow> (string + ToolResultEnvelope list) \<times> 's" where
  "fence_and_stamp_envelopes sha1_hex ops draw i ctx [] s = (Inr [], s)"
| "fence_and_stamp_envelopes sha1_hex ops draw i ctx (v # vs) s =
     (let current = attempt_epoch (cx_metadata ctx); existing = attempt_epoch_of (ev_metadata v)
      in if is_stale_attempt existing current
           then (case run_emit sha1_hex ops (fst (draw i)) (snd (draw i))
                        (context_spec ctx ''result_fenced'' (fenced_payload v (the existing) current)) s of
                   (Inl err, s1) \<Rightarrow> (Inl err, s1)
                 | (Inr e, s1) \<Rightarrow> fence_and_stamp_envelopes sha1_hex ops draw (Suc i) ctx vs s1)
         else (case fence_and_stamp_envelopes sha1_hex ops draw (Suc i) ctx vs s of
                 (Inl err, s1) \<Rightarrow> (Inl err, s1)
               | (Inr kept, s1) \<Rightarrow> (Inr (stamp_envelope current v # kept), s1)))"

section \<open>Storing the results\<close>

definition housekeeping_tool_names :: "string list" where
  "housekeeping_tool_names = [''planning_state_update'', ''planning_progress'', ''todo_write'']"

definition extend_list :: "string \<Rightarrow> pyval list \<Rightarrow> pydict \<Rightarrow> pydict" where
  "extend_list key new md = dict_set key (PList ((case dict_get md key of PList xs \<Rightarrow> xs | _ \<Rightarrow> []) @ new)) md"

definition append_stage_outputs :: "pyval list \<Rightarrow> pyval list \<Rightarrow> pydict \<Rightarrow> pydict" where
  "append_stage_outputs traces results md = extend_list ''tool_results'' results (extend_list ''tool_trace'' traces md)"

definition note_output_budget :: "('s, 'l, 'p) loop_env \<Rightarrow> TurnBudgetAudit option \<Rightarrow> pydict \<Rightarrow> string + pydict" where
  "note_output_budget env audit md =
     (case audit of
        None \<Rightarrow> Inr md
      | Some a \<Rightarrow>
          (let prior = (case dict_get md ''tool_output_budget'' of PDict d \<Rightarrow> d | _ \<Rightarrow> [])
           in case int_of_value (lv_base env) (dict_get_or prior ''spilled_count'' (PInt 0)) of
                Inl err \<Rightarrow> Inl err
              | Inr spilled \<Rightarrow>
                  (case int_of_value (lv_base env) (dict_get_or prior ''chars_saved'' (PInt 0)) of
                     Inl err \<Rightarrow> Inl err
                   | Inr saved \<Rightarrow> Inr (dict_set ''tool_output_budget''
                       (PDict [(''spilled_count'', PInt (spilled + int (ta_spilled_count a))), (''chars_saved'', PInt (saved + ta_chars_saved a))]) md))))"

definition count_stage ::
  "('s, 'l, 'p) loop_env \<Rightarrow> nat \<Rightarrow> ToolResultEnvelope list \<Rightarrow> pydict \<Rightarrow> string + pydict" where
  "count_stage env traces kept md =
     (case tool_call_count env md of
        Inl err \<Rightarrow> Inl err
      | Inr calls \<Rightarrow>
          (let md1 = dict_set ''tool_calls'' (PInt (calls + int traces)) md;
               refunded = length (filter (\<lambda>v. tc_tool_name (ev_call v) \<in> set housekeeping_tool_names) kept)
           in if refunded = 0 then Inr md1
              else case refunded_tool_calls env md1 of
                     Inl err \<Rightarrow> Inl err
                   | Inr n \<Rightarrow> Inr (dict_set ''refunded_tool_calls'' (PInt (n + int refunded)) md1)))"

definition store_tool_stage_outputs ::
  "('s, 'l, 'p) loop_env \<Rightarrow> (ToolTrace \<Rightarrow> pyval) \<Rightarrow> (ToolResultEnvelope \<Rightarrow> pyval) \<Rightarrow> (nat \<Rightarrow> string \<times> string) \<Rightarrow> JournalContext \<Rightarrow> GovernedExecutionResult \<Rightarrow> 's
     \<Rightarrow> (string + GovernedExecutionResult \<times> JournalContext) \<times> 's" where
  "store_tool_stage_outputs env dump_trace dump_envelope draw ctx result s =
     (case fence_and_stamp_envelopes (rv_sha1_hex (lv_base env)) (rv_ops (lv_base env)) draw 0 ctx (gr_envelopes result) s of
        (Inl err, s1) \<Rightarrow> (Inl err, s1)
      | (Inr kept, s1) \<Rightarrow>
          (case count_stage env (length (gr_traces result)) kept (cx_metadata ctx) of
             Inl err \<Rightarrow> (Inl err, s1)
           | Inr md1 \<Rightarrow>
               (case note_output_budget env (gr_turn_audit result) md1 of
                  Inl err \<Rightarrow> (Inl err, s1)
                | Inr md2 \<Rightarrow>
                    (Inr (result\<lparr>gr_envelopes := kept\<rparr>,
                          ctx\<lparr>cx_metadata := append_stage_outputs (map dump_trace (gr_traces result)) (map dump_envelope kept) md2\<rparr>), s1))))"

section \<open>Late results are fenced\<close>

definition stale :: "int \<Rightarrow> ToolResultEnvelope \<Rightarrow> bool" where
  "stale current v = is_stale_attempt (attempt_epoch_of (ev_metadata v)) current"

definition fresh_events :: "(nat \<Rightarrow> string \<times> string) \<Rightarrow> nat \<Rightarrow> string set \<Rightarrow> bool" where
  "fresh_events draw i known = ((\<forall>j \<ge> i. ''evt_'' @ fst (draw j) \<notin> known) \<and> (\<forall>j \<ge> i. \<forall>k > j. fst (draw j) \<noteq> fst (draw k)))"

lemma fresh_events_Suc:
  assumes "fresh_events draw i known" "known' \<subseteq> insert (''evt_'' @ fst (draw i)) known"
  shows "fresh_events draw (Suc i) known'"
proof -
  have "''evt_'' @ fst (draw j) \<notin> known'" if "Suc i \<le> j" for j
  proof -
    have "fst (draw i) \<noteq> fst (draw j)" "''evt_'' @ fst (draw j) \<notin> known" using assms(1) that unfolding fresh_events_def by auto
    then show ?thesis using assms(2) by auto
  qed
  then show ?thesis using assms(1) unfolding fresh_events_def by (auto dest: Suc_leD)
qed

text \<open>The events a fence writes: one for every stale result, in order.\<close>

definition fence_events :: "int \<Rightarrow> ToolResultEnvelope list \<Rightarrow> RuntimeEvent list \<Rightarrow> bool" where
  "fence_events current vs es = (map (\<lambda>e. (re_type e, re_payload e)) es
     = map (\<lambda>v. (''result_fenced'', fenced_payload v (the (attempt_epoch_of (ev_metadata v))) current)) (filter (stale current) vs))"

context runtime_store
begin

lemma fence_ok:
  assumes "inv s" "cx_run_id ctx \<in> runs" "fresh_events draw i (ids s)"
  shows "\<exists>s' es. fence_and_stamp_envelopes sha1_hex ops draw i ctx vs s
      = (Inr (map (stamp_envelope (attempt_epoch (cx_metadata ctx))) (filter (\<lambda>v. \<not> stale (attempt_epoch (cx_metadata ctx)) v) vs)), s')
    \<and> inv s' \<and> events s' = (events s)(cx_run_id ctx := events s (cx_run_id ctx) @ es) \<and> fence_events (attempt_epoch (cx_metadata ctx)) vs es"
  using assms
proof (induction vs arbitrary: i s)
  case Nil
  then show ?case by (auto simp: fence_events_def intro!: exI [of _ s])
next
  case (Cons v vs)
  let ?c = "attempt_epoch (cx_metadata ctx)"
  show ?case
  proof (cases "stale ?c v")
    case False
    have "fresh_events draw (Suc i) (ids s)" using Cons.prems(3) by (auto simp: fresh_events_def)
    from Cons.IH [OF Cons.prems(1,2) this] False show ?thesis by (auto simp: Let_def stale_def fence_events_def)
  next
    case True
    let ?spec = "context_spec ctx ''result_fenced'' (fenced_payload v (the (attempt_epoch_of (ev_metadata v))) ?c)"
    have f: "''evt_'' @ fst (draw i) \<notin> ids s" using Cons.prems(3) by (simp add: fresh_events_def)
    have r: "es_run_id ?spec = cx_run_id ctx" by (simp add: context_spec_def)
    obtain e s1 where e: "run_emit sha1_hex ops (fst (draw i)) (snd (draw i)) ?spec s = (Inr e, s1)" "inv s1"
      "e = event_of sha1_hex (fst (draw i)) (snd (draw i)) ?spec (fst (st_next_seq ops (cx_run_id ctx) s))"
      "events s1 = (events s)(cx_run_id ctx := events s (cx_run_id ctx) @ [e])" "ids s1 \<subseteq> insert (''evt_'' @ fst (draw i)) (ids s)"
      using run_emit_ok [OF Cons.prems(1) f, of ?spec sha1_hex "snd (draw i)"] Cons.prems(2) r by auto
    have p: "re_type e = ''result_fenced''" "re_payload e = fenced_payload v (the (attempt_epoch_of (ev_metadata v))) ?c"
      by (simp_all add: e(3) event_of_def context_spec_def)
    from Cons.IH [OF e(2) Cons.prems(2) fresh_events_Suc [OF Cons.prems(3) e(5)]] obtain s' es
      where "fence_and_stamp_envelopes sha1_hex ops draw (Suc i) ctx vs s1 = (Inr (map (stamp_envelope ?c) (filter (\<lambda>v. \<not> stale ?c v) vs)), s')"
        "inv s'" "events s' = (events s1)(cx_run_id ctx := events s1 (cx_run_id ctx) @ es)" "fence_events ?c vs es" by blast
    then show ?thesis using True e p by (intro exI [of _ s'] exI [of _ "e # es"]) (auto simp: Let_def stale_def fence_events_def)
  qed
qed

end

text \<open>The epoch a kept result carries: its own, or the current one where it had none.\<close>

definition kept_epoch :: "int \<Rightarrow> ToolResultEnvelope \<Rightarrow> int" where
  "kept_epoch current v = (case attempt_epoch_of (ev_metadata v) of Some k \<Rightarrow> k | None \<Rightarrow> current)"

lemma stamped_current: "0 < c \<Longrightarrow> attempt_epoch_of (ev_metadata (stamp_envelope c v)) = Some (kept_epoch c v)"
proof (cases "attempt_epoch_of (ev_metadata v)")
  case None
  assume "0 < c"
  moreover from this have "dict_set epoch_key (PInt c) (ev_metadata v) \<noteq> []" by (cases "ev_metadata v") (auto split: if_splits)
  ultimately show ?thesis using None by (simp add: kept_epoch_def stamp_envelope_def stamp_attempt_epoch_def attempt_epoch_of_def int_instance_def)
qed (auto simp: kept_epoch_def stamp_envelope_def)

lemma resumed_epoch:
  assumes "resumed_context env inp row = Inr ctx" "dict_get (rt_metadata (ck_state row)) ''attempt_epoch'' = PInt e \<or> e = 0 \<and> dict_get (rt_metadata (ck_state row)) ''attempt_epoch'' = PNone"
  shows "attempt_epoch (cx_metadata ctx) = e + 1"
  using assms by (auto simp: resumed_context_def Let_def attempt_epoch_def int_instance_def int_of_value_def split: sum.splits option.splits if_splits)

text \<open>C12. Results of a superseded attempt do not come back. After a run was resumed from a checkpoint of epoch \<open>e\<close>, the
  results a tool stage keeps are, in order and for the same calls, those that carry no epoch or one above \<open>e\<close>; each of
  them then carries an epoch, the one it came with, or exactly \<open>e + 1\<close>, the epoch of the resumed attempt, where it came with
  none; every result stamped at or below \<open>e\<close> is dropped and reported by one
  \<open>result_fenced\<close> event, in order, and nothing else is written. In memory and in SQLite.\<close>

theorem late_results_fenced:
  assumes "resumed_context env inp row = Inr ctx" "0 \<le> e"
    and "dict_get (rt_metadata (ck_state row)) ''attempt_epoch'' = PInt e \<or> e = 0 \<and> dict_get (rt_metadata (ck_state row)) ''attempt_epoch'' = PNone"
    and "memory_log_ok (fst m)" "memory_chain_ok (snd m)" "table_ok (fst q)" "table_chain_ok (snd q)" "fresh_events draw 0 (re_event_id ` set (fst q))"
  shows "\<exists>kept m' es q' es'. fence_and_stamp_envelopes sha1_hex memory_bundle draw 0 ctx vs m = (Inr kept, m')
    \<and> fence_and_stamp_envelopes sha1_hex sqlite_bundle draw 0 ctx vs q = (Inr kept, q')
    \<and> map ev_call kept = map ev_call (filter (\<lambda>v. \<not> stale (e + 1) v) vs)
    \<and> map (\<lambda>v. attempt_epoch_of (ev_metadata v)) kept = map (\<lambda>v. Some (kept_epoch (e + 1) v)) (filter (\<lambda>v. \<not> stale (e + 1) v) vs)
    \<and> memory_run_events (fst m') = (memory_run_events (fst m))(cx_run_id ctx := memory_run_events (fst m) (cx_run_id ctx) @ es) \<and> fence_events (e + 1) vs es
    \<and> table_events (fst q') = (table_events (fst q))(cx_run_id ctx := table_events (fst q) (cx_run_id ctx) @ es') \<and> fence_events (e + 1) vs es'"
proof -
  have c: "attempt_epoch (cx_metadata ctx) = e + 1" using resumed_epoch [OF assms(1,3)] .
  let ?kept = "map (stamp_envelope (e + 1)) (filter (\<lambda>v. \<not> stale (e + 1) v) vs)"
  have "fresh_events draw 0 {}" using assms(8) by (auto simp: fresh_events_def)
  then obtain m' es where "fence_and_stamp_envelopes sha1_hex memory_bundle draw 0 ctx vs m = (Inr ?kept, m')" "fence_events (e + 1) vs es"
    "memory_run_events (fst m') = (memory_run_events (fst m))(cx_run_id ctx := memory_run_events (fst m) (cx_run_id ctx) @ es)"
    using memory_runtime.fence_ok [of m ctx draw 0 sha1_hex vs] assms(4,5) c by auto
  moreover obtain q' es' where "fence_and_stamp_envelopes sha1_hex sqlite_bundle draw 0 ctx vs q = (Inr ?kept, q')" "fence_events (e + 1) vs es'"
    "table_events (fst q') = (table_events (fst q))(cx_run_id ctx := table_events (fst q) (cx_run_id ctx) @ es')"
    using sqlite_runtime.fence_ok [of q ctx draw 0 sha1_hex vs] assms(6-8) c by auto
  moreover have "map ev_call ?kept = map ev_call (filter (\<lambda>v. \<not> stale (e + 1) v) vs)" by (simp add: stamp_envelope_def)
  moreover have "map (\<lambda>v. attempt_epoch_of (ev_metadata v)) ?kept = map (\<lambda>v. Some (kept_epoch (e + 1) v)) (filter (\<lambda>v. \<not> stale (e + 1) v) vs)"
    using stamped_current [of "e + 1"] assms(2) by simp
  ultimately show ?thesis by blast
qed

definition stamped_result :: "string \<Rightarrow> pydict \<Rightarrow> ToolResultEnvelope" where
  "stamped_result tool md = (pi_envelope tool_pending)\<lparr>ev_call := paused_call\<lparr>tc_tool_name := tool\<rparr>, ev_metadata := md\<rparr>"

definition epoch_row :: CheckpointRecord where
  "epoch_row = stamped (next_ref ''memory'' ''k'' ''t0'' ''graph'' None (context_state (sample_context\<lparr>cx_metadata := [(''attempt_epoch'', PInt 1)]\<rparr>) None []) [])
     (context_state (sample_context\<lparr>cx_metadata := [(''attempt_epoch'', PInt 1)]\<rparr>) None [])"

definition epoch_context :: JournalContext where
  "epoch_context = projr (resumed_context (sqlite_env tool_pending) (cx_run_input sample_context) epoch_row)"

abbreviation two_results :: "ToolResultEnvelope list" where
  "two_results \<equiv> [stamped_result ''old'' [(''_ad_attempt_epoch'', PInt 1)], stamped_result ''new'' []]"

definition tally_events :: "nat \<Rightarrow> string \<times> string" where
  "tally_events i = (replicate i CHR ''x'', ''t'')"

text \<open>A run at its second resume with a result of the attempt before and a new one.\<close>

theorem late_results_fenced_witness:
  "\<exists>kept m' q'. fence_and_stamp_envelopes (\<lambda>x. x) memory_bundle tally_events 0 epoch_context two_results (empty_event_log, empty_checkpoints) = (Inr kept, m')
    \<and> fence_and_stamp_envelopes (\<lambda>x. x) sqlite_bundle tally_events 0 epoch_context two_results ([], []) = (Inr kept, q')
    \<and> map (\<lambda>v. tc_tool_name (ev_call v)) kept = [''new''] \<and> map (\<lambda>v. attempt_epoch_of (ev_metadata v)) kept = [Some 2]"
proof -
  have "\<not> isl (resumed_context (sqlite_env tool_pending) (cx_run_input sample_context) epoch_row)" by code_simp
  then have r: "resumed_context (sqlite_env tool_pending) (cx_run_input sample_context) epoch_row = Inr epoch_context"
    by (simp add: epoch_context_def)
  have e: "dict_get (rt_metadata (ck_state epoch_row)) ''attempt_epoch'' = PInt 1" by code_simp
  have ok: "memory_log_ok empty_event_log" "memory_chain_ok empty_checkpoints" "table_ok []" "table_chain_ok []" "fresh_events tally_events 0 {}"
    by (auto simp: memory_log_ok_def memory_chain_ok_def table_ok_def table_chain_ok_def empty_event_log_def empty_checkpoints_def
      memory_rows_def memory_max_seq_def memory_run_events_def run_rows_def fresh_events_def tally_events_def)
  have "map (\<lambda>v. tc_tool_name (ev_call v)) (filter (\<lambda>v. \<not> stale (1 + 1) v) two_results) = [''new'']" by code_simp
  then have new: "map tc_tool_name (map ev_call (filter (\<lambda>v. \<not> stale (1 + 1) v) two_results)) = [''new'']" by (simp add: comp_def)
  note h = late_results_fenced [OF r zero_le_one disjI1 [OF e], of "(empty_event_log, empty_checkpoints)" "([], [])" tally_events "\<lambda>x. x" two_results,
    unfolded fst_conv snd_conv list.set image_empty, OF ok]
  obtain kept m' q' where k: "fence_and_stamp_envelopes (\<lambda>x. x) memory_bundle tally_events 0 epoch_context two_results (empty_event_log, empty_checkpoints) = (Inr kept, m')"
    "fence_and_stamp_envelopes (\<lambda>x. x) sqlite_bundle tally_events 0 epoch_context two_results ([], []) = (Inr kept, q')"
    "map ev_call kept = map ev_call (filter (\<lambda>v. \<not> stale (1 + 1) v) two_results)"
    "map (\<lambda>v. attempt_epoch_of (ev_metadata v)) kept = map (\<lambda>v. Some (kept_epoch (1 + 1) v)) (filter (\<lambda>v. \<not> stale (1 + 1) v) two_results)"
    using h by blast
  have "map (\<lambda>v. Some (kept_epoch (1 + 1) v)) (filter (\<lambda>v. \<not> stale (1 + 1) v) two_results) = [Some 2]" by code_simp
  then have eps: "map (\<lambda>v. attempt_epoch_of (ev_metadata v)) kept = [Some 2]" using k(4) by simp
  have "map (\<lambda>v. tc_tool_name (ev_call v)) kept = map tc_tool_name (map ev_call kept)" by (simp add: comp_def)
  then have names: "map (\<lambda>v. tc_tool_name (ev_call v)) kept = [''new'']" using k(3) new by simp
  show ?thesis by (rule exI [of _ kept], rule exI [of _ m'], rule exI [of _ q'], intro conjI) (rule k(1), rule k(2), rule names, rule eps)
qed

section \<open>Pausing between steps\<close>

definition steering_interrupt :: "('s, 'l, 'p) loop_env \<Rightarrow> JournalContext \<Rightarrow> int \<Rightarrow> InterruptRequest" where
  "steering_interrupt env ctx step_count =
     \<lparr>ir_interrupt_id = ''steering_pause_'' @ cx_run_id ctx @ ''_'' @ rv_str (lv_base env) (PInt step_count), ir_run_id = cx_run_id ctx,
      ir_attempt_id = cx_attempt_id ctx, ir_checkpoint_id = ''checkpoint_pending'', ir_reason = ''manual_pause'', ir_title = ''Run paused'',
      ir_description = ''Run held at a step boundary by a steering PAUSE control.'', ir_risk = None, ir_proposed_action = [],
      ir_allowed_actions = [''continue'', ''cancel''], ir_editable_fields = [], ir_proposed_prompts = [], ir_metadata = [(''steering_pause'', PBool True)]\<rparr>"

definition pause_state :: "InterruptRequest \<Rightarrow> PendingInterruptState" where
  "pause_state i =
     (let call = \<lparr>tc_tool_name = ''__steering_pause__'', tc_args = [], tc_tool_call_id = None, tc_metadata = []\<rparr>
      in \<lparr>pi_interrupt = i, pi_call = call,
          pi_envelope = \<lparr>ev_call = call, ev_decision = TD_INTERRUPT, ev_guardrail_decision = GD_ALLOW, ev_summary = Some ''run paused'',
            ev_structured_output = None, ev_truncated = False, ev_error = None, ev_interrupt = Some i, ev_metadata = [(''steering_pause'', PBool True)]\<rparr>\<rparr>)"

text \<open>\<open>build_paused\<close> stands for the construction of the paused output, \<open>set_phase\<close> for the command queue where there is one.\<close>

definition park_steering_pause ::
  "('s, 'l, 'p) loop_env \<Rightarrow> (InterruptRequest \<Rightarrow> pyval) \<Rightarrow> (JournalContext \<Rightarrow> InterruptRequest \<Rightarrow> 's \<Rightarrow> (string + AgentRunOutput) \<times> JournalContext \<times> 's)
     \<Rightarrow> (string \<Rightarrow> LiveMessagePhase \<Rightarrow> string option \<Rightarrow> string option \<Rightarrow> 'q \<Rightarrow> int \<times> 'q) option \<Rightarrow> (nat \<Rightarrow> string \<times> string) \<Rightarrow> JournalContext \<Rightarrow> 's \<Rightarrow> 'q
     \<Rightarrow> (string + JournalContext) \<times> 's \<times> 'q" where
  "park_steering_pause env dump_interrupt build_paused set_phase draw ctx s q =
     (let b = lv_base env; md = dict_pop ''steering_pause_requested'' (cx_metadata ctx)
      in case int_of_value b (dict_get_or md ''step_count'' (PInt 0)) of
           Inl err \<Rightarrow> (Inl err, s, q)
         | Inr n \<Rightarrow>
             (let i = steering_interrupt env ctx n;
                  ctx1 = ctx\<lparr>cx_metadata := dict_sets [(''interrupt_payload'', dump_interrupt i), (''pending_interrupt'', rv_dump_pending b (pause_state i)),
                    (''resume_target_step'', PStr ''llm_call'')] md\<rparr>
              in case run_emit (rv_sha1_hex b) (rv_ops b) (fst (draw 0)) (snd (draw 0))
                        (context_spec ctx1 ''interrupt_requested'' [(''reason'', PStr (ir_reason i)), (''steering_pause'', PBool True)]) s of
                   (Inl err, s1) \<Rightarrow> (Inl err, s1, q)
                 | (Inr e, s1) \<Rightarrow>
                     (let q1 = (case set_phase of Some f \<Rightarrow> snd (f (cx_run_id ctx) APPROVAL_PAUSE (an_thread_id (cx_run_input ctx)) (an_agent_id (cx_run_input ctx)) q) | None \<Rightarrow> q)
                      in case build_paused ctx1 i s1 of
                           (Inl err, ctx2, s2) \<Rightarrow> (Inl err, s2, q1)
                         | (Inr out, ctx2, s2) \<Rightarrow>
                             (case save_checkpoint (rv_sha1_hex b) (rv_ops b) (rv_graph_id b) (draw 1) (draw 2) (Some out) ''steering_pause''
                                     (ctx2\<lparr>cx_metadata := dict_set ''terminal_output'' (rv_dump_output b out) (cx_metadata ctx2)\<rparr>) s2 of
                                (Inl err, ctx3, s3) \<Rightarrow> (Inl err, s3, q1)
                              | (Inr ref, ctx3, s3) \<Rightarrow> (Inr ctx3, s3, q1)))))"

definition pending_interrupt_from_execution_result :: "GovernedExecutionResult \<Rightarrow> PendingInterruptState option" where
  "pending_interrupt_from_execution_result result =
     (case gr_interrupt result of
        None \<Rightarrow> None
      | Some i \<Rightarrow> map_option (\<lambda>v. \<lparr>pi_interrupt = i, pi_call = ev_call v, pi_envelope = v\<rparr>) (find (\<lambda>v. ev_decision v = TD_INTERRUPT) (gr_envelopes result)))"

text \<open>The interrupt of a pause is named after the count of steps, which neither the pause nor the command that ends it
  changes. A second pause before the next step has the name of the first, so with an approval ledger the command that
  should end it is taken for a duplicate and refused.\<close>

abbreviation paused_env ::
  "(run_events_table \<times> checkpoints_table, SqliteApprovalConsumptionStore, InMemoryPlanArtifactStore) loop_env" where
  "paused_env \<equiv> sample_loop True (sqlite_env (pause_state (steering_interrupt (tireless True) sample_context 0)))"

definition pause_step ::
  "nat \<Rightarrow> JournalContext \<Rightarrow> run_events_table \<times> checkpoints_table \<Rightarrow> (string + JournalContext) \<times> (run_events_table \<times> checkpoints_table) \<times> unit" where
  "pause_step k ctx s = park_steering_pause (paused_env\<lparr>lv_base := (lv_base paused_env)\<lparr>rv_dump_pending := (\<lambda>p. dict_get paused_metadata ''pending_interrupt'')\<rparr>\<rparr>)
     (\<lambda>i. PNone) (\<lambda>c i t. (Inr (sample_output ''paused'' []), c, t)) None (\<lambda>j. (nat_str (k + j), ''t'' @ nat_str (k + j))) ctx s ()"

definition continue_step ::
  "nat \<Rightarrow> (run_events_table \<times> checkpoints_table) \<Rightarrow> SqliteApprovalConsumptionStore \<Rightarrow> (resume_error + JournalContext) \<times>
     (run_events_table \<times> checkpoints_table, SqliteApprovalConsumptionStore, InMemoryPlanArtifactStore) resume_world" where
  "continue_step k s l = init_context (lv_base paused_env) (\<lambda>j. (nat_str (k + j), ''t'' @ nat_str (k + j))) (cx_run_input sample_context)
     (Some ((sample_command ''steering_pause_r1_'' RA_CONTINUE)\<lparr>rc_expected_revision := None, rc_idempotency_key := None\<rparr>)) (sample_world s l)"

lemma second_pause_locked:
  "(let (r1, s1, u1) = pause_step 10 sample_context ([], []); (c1, w1) = continue_step 20 s1 [];
        (r2, s2, u2) = pause_step 30 (projr c1) (rw_stores w1); (c2, w2) = continue_step 40 s2 (rw_ledger w1)
    in (isl r1, isl c1, isl r2, isl c2, dict_get (cx_metadata (projr c1)) ''next_step'', projl c2)) = (False, False, False, True, PStr ''llm_call'', Already_Consumed DUPLICATE)"
  by code_simp

end
