(* ===== verification/Spec2Isabelle.thy ===== *)
theory Spec2Isabelle
  imports Prelude Approval_Ledger Queue_Safety Sqlite_Queue Abort_Ledger Live_Messages
    Scheduler Fake_Backend Governed_Executor Subagent_Mailbox Run_Frame Step_Results
begin

text \<open>
  A verification library for \<open>agent_driver\<close>, an embeddable runtime for tool-using language-model
  agents. Paths are relative to \<open>src/agent_driver/\<close>.

  \<^bold>\<open>The program.\<close> A host starts runs; each run is a loop of model calls and tool calls. The loop checks
  the limits of the run before every step, journals what happens as numbered events and linked
  checkpoints, and pauses for an operator when a tool call needs approval; a later resume command
  continues it from a checkpoint and consumes the approval exactly once. Planned tool calls pass the
  static policy, approvals, the caller's gate and the host's hooks before a handler runs. While a run
  is in flight the host and its users steer it through a durable command queue: messages for the
  current or the next turn, redirects that supersede a model call, and stops. A run can be aborted
  together with its subagents, which report through a mailbox; commands execute through leased
  execution backends, and a scheduler starts runs at given times.

  \<^bold>\<open>Foundations.\<close>
  \<^item> \<open>Prelude\<close>: Python values, strings and dictionaries, generic lemmas, the collections
    \<open>py_simps\<close>, \<open>store_simps\<close>, \<open>step_intros\<close>. \<open>Py_Patterns\<close>: the regular expressions and shell
    patterns of the standard library that fixed patterns of the code need.

  \<^bold>\<open>Steering.\<close>
  \<^item> \<open>Approval_Ledger\<close> (\<open>runtime/control/approval_store.py\<close>): the in-memory and SQLite ledgers of
    consumed approvals; one winner per approval, both ledgers give the same answers.
  \<^item> \<open>Control_Contracts\<close> (\<open>contracts/control.py\<close>): commands, queue rows, run states, requests.
  \<^item> \<open>Command_Queue\<close> (\<open>runtime/control/in_memory.py\<close>): every operation of the in-memory queue on a
    record of rows, order and run states.
  \<^item> \<open>Queue_Laws\<close>: the step relation of a row, paths of steps, the invariant, and the locale
    \<open>command_queue_store\<close> of what a backend promises, interpreted for the in-memory queue.
  \<^item> \<open>Queue_Safety\<close>: claims are exclusive, a redirect happens once per model generation, the terminal
    commit loses no message, stops pre-empt and fence, hand-offs are idempotent, enqueueing
    deduplicates, the drain order is the documented one.
  \<^item> \<open>Sqlite_Queue\<close> (\<open>runtime/control/sqlite.py\<close>): the SQLite queue as load, mutate, persist; it
    refines the in-memory queue and meets the same locale.
  \<^item> \<open>Abort_Ledger\<close> (\<open>runtime/control/abort_store.py\<close>): the abort lifecycle, locale \<open>abort_ledger\<close>
    interpreted for both backends. \<open>Abort_Handles\<close> (\<open>runtime/abort.py\<close>): handles as a heap with
    weakly held children; aborts cascade along the links that were not collected.
  \<^item> \<open>Dispatcher\<close> (\<open>runtime/control/dispatcher.py\<close>) and \<open>Live_Messages\<close>
    (\<open>runtime/control/live_messages.py\<close>): the step-boundary drain and the next-turn hand-off, clients
    of the queue locale.

  \<^bold>\<open>Scheduling and execution.\<close>
  \<^item> \<open>Schedule_Expr\<close> and \<open>Scheduler\<close> (\<open>scheduler/\<close>): schedule expressions, next fire time, both job
    stores behind the locale \<open>job_store\<close>, ticks.
  \<^item> \<open>Workspace_Paths\<close>, \<open>Execution_Lease\<close>, \<open>Execution_Jobs\<close>, \<open>Fake_Backend\<close> (\<open>execution/pathsafety.py\<close>,
    \<open>execution/lease.py\<close>, \<open>execution/jobs.py\<close>, \<open>execution/fake.py\<close> and their contracts): path
    confinement, the lease manager (locale \<open>lease_provider\<close>), job observation and sessions (locale
    \<open>job_dispatcher\<close>), and the in-memory backend that interprets both locales.

  \<^bold>\<open>Tool calls.\<close>
  \<^item> \<open>Permissions\<close> (\<open>permissions/\<close>): command classifier, policy, path scope, gate.
  \<^item> \<open>Tool_Policy\<close> (\<open>tools/policy/\<close>, \<open>tools/context.py\<close>, \<open>tools/executor/partition.py\<close>): the static
    policy in closed form, the one-shot strategy grant, the partition into parallel batches.
    \<open>Tool_Registry\<close> (\<open>tools/registry/in_memory.py\<close>): lookups by name and alias find what was
    registered and nothing else.
  \<^item> \<open>Planned_Calls\<close>, \<open>Call_Normalization\<close> (\<open>tools/executor/planned.py\<close>, \<open>normalization.py\<close>): from the
    response of a model to normalized calls with distinct identifiers.
  \<^item> \<open>Tool_Gate\<close> (\<open>tools/executor/governed.py\<close>, \<open>tools/policy/decision_hooks.py\<close>,
    \<open>contracts/validation.py\<close>): the decision about one call, and the exact bounds on host metadata.
  \<^item> \<open>Result_Spill\<close>, \<open>Allowed_Path\<close>, \<open>Turn_Budget\<close> (\<open>tools/executor/spill.py\<close>, \<open>allowed.py\<close>,
    \<open>turn_budget.py\<close>): guardrails, handler and output bounds of an allowed call, oversized results,
    and the budget for the outputs of a turn.
  \<^item> \<open>Governed_Executor\<close> (\<open>tools/executor/governed.py\<close>): serial calls, parallel batches under
    an arbitrary schedule of their tasks, and the whole list of units; a handler runs only when it was
    permitted, within the limits of the run, and results keep the order of the calls.

  \<^bold>\<open>Durable runs.\<close>
  \<^item> \<open>Jsonl_File\<close>, \<open>Runtime_Records\<close>, \<open>Event_Log\<close>, \<open>Checkpoint_Store\<close> (\<open>runtime/storage/jsonl_store.py\<close>,
    \<open>runtime/events.py\<close>, \<open>runtime/checkpoints.py\<close>, \<open>runtime/sqlite_store.py\<close>): crash-safe session
    files, and the event logs and checkpoint stores in memory, in SQLite and in session files, behind
    the locales \<open>event_log\<close>, \<open>gapless_event_log\<close> and \<open>checkpoint_store\<close>.
  \<^item> \<open>Run_Journal\<close> (\<open>runtime/single_agent/lifecycle/journal.py\<close>): events and checkpoints of one run,
    proved once in the locale \<open>runtime_store\<close> that joins the two contracts.
  \<^item> \<open>Policy_Journal\<close> (the decisions of the same file, \<open>contracts/runtime_decisions.py\<close>): each matched
    policy evaluation is reported once.
  \<^item> \<open>Plan_Artifacts\<close> (\<open>context/planning/artifacts.py\<close>): reviewed plans and both stores, locale
    \<open>plan_store\<close>.
  \<^item> \<open>Resume\<close>, \<open>Resume_Safety\<close> (\<open>runtime/single_agent/lifecycle/resume.py\<close>, \<open>pending.py\<close>,
    \<open>contracts/interrupts.py\<close>): the resume handler over those stores; an approval releases a call at
    most once, only when it is valid and current, and a refused command changes nothing.
  \<^item> \<open>Run_Loop\<close>, \<open>Run_Frame\<close> (\<open>runtime/runner.py\<close> and the limits of \<open>journal.py\<close>): limits, grace
    window (three model steps where the comments say two), loop, and the frame with the phase of the run, the abort outcome (locale
    \<open>abort_client\<close>, an extension of \<open>abort_ledger\<close>) and recorded results (locale \<open>result_ledger\<close>).
  \<^item> \<open>Step_Results\<close> (\<open>runtime/single_agent/lifecycle/steps.py\<close>, \<open>runtime/single_agent/fencing.py\<close>):
    results of a superseded attempt are dropped and reported, the others stored; the steering pause.
  \<^item> \<open>Subagent_Store\<close>, \<open>Subagent_Mailbox\<close> (\<open>subagents/\<close>): rows of child runs with idempotent spawns,
    control operations, join and merge, and the mailbox (locales \<open>subagent_rows\<close>, \<open>mailbox_store\<close>,
    \<open>continuation\<close>).

  \<^bold>\<open>How code is modelled.\<close> A class is a record, an enumeration a datatype or the string it is stored
  as, a method a function from the state to its answer and the new state; an exception is the left
  part of a sum or a constructor of its own. A SQLite table is a list of rows in insertion order; a
  lock makes an operation one step, so interleavings are sequences of operations; the enqueue and
  cancel operations of the queue also read before they take the lock, and these reads belong to the
  step here. The tasks of a parallel batch evaluate the policy and settle in any order: two ranks per
  call, an argument of the executor. The collection of a weakly held abort handle is a step of its
  own. Where the code is
  written against a protocol, the operations of the protocol are arguments, and a locale holds the
  laws that its properties need, interpreted on every modelled backend. Clock readings, random
  identifiers, digests, the codecs of \<open>json\<close> and \<open>pydantic\<close>, the conversions \<open>str\<close> and \<open>int\<close> of a
  string, tool handlers, guardrails, gates, hooks, the artifact store, the evaluation of policy
  profiles and the bodies of the steps are parameters; where a property relies on them the assumption
  is a named predicate (\<open>job_codec_ok\<close>, \<open>jsonl_codec\<close>, \<open>steps_routed\<close>, \<open>lease_provider\<close>,
  \<open>job_dispatcher\<close>) and a witness instantiates it. \<open>steps_routed\<close> speaks of step handlers that
  are code of the repository: it says which phase each of them returns and that a model step is counted. Python values carry no floating-point numbers;
  durations and costs are integers of some unit.

  \<^bold>\<open>Bounds.\<close> Strings range over characters below 256. The drain loop takes fuel; one more than the
  number of open rows is enough, which is part of the property. The loop of a run takes fuel; four
  iterations per remaining model step and four more are enough, again part of the property. The cron
  scan covers 367 days of minutes, the paging loop \<open>max_pages\<close> pages: both are the code's own limits.

  \<^bold>\<open>Not modelled.\<close> The PostgreSQL stores (the same contracts over a server whose locking is not in the
  sources); the bodies of the model, tool and finalize steps beyond what they do with results and
  pauses, and the construction of a run's output; the lease, error hooks and trace span around
  \<open>SingleAgentRunner.run\<close>; the evaluation of policies over a log (\<open>runtime/policy.py\<close>); context
  compaction; providers, tools and protocols that are input and output; observability, evaluation,
  SDK, server and command line. Pydantic field validation and the texts of messages are left out
  throughout, and so are guardrails that raise on the path of an allowed call. The bodies of the steps would come next: they join the executor, the dispatcher and the
  journal modelled here.
\<close>

end
